(* ===== verification/AF_Prelude.thy ===== *)
theory AF_Prelude
  imports Main "HOL-Library.Word" "HOL-Library.AList"
begin

text \<open>
  The shared base of the development: Go's instants and durations, the string and integer
  conversions of Go's standard library that several components use, association lists for
  Go maps, and the interface locales the components interpret.

  An instant of Go's \<^verbatim>\<open>time.Time\<close> is an \<^typ>\<open>int\<close> (nanoseconds from an arbitrary origin
  placed so that the zero \<^verbatim>\<open>time.Time{}\<close> is \<open>0\<close>); \<^verbatim>\<open>After\<close>, \<^verbatim>\<open>Before\<close>, \<^verbatim>\<open>Equal\<close> and
  \<^verbatim>\<open>Sub\<close> are \<open>>\<close>, \<open><\<close>, \<open>=\<close> and \<open>-\<close>.
\<close>

named_theorems lifecycle_defs \<open>definitions unfolded by the session lifecycle proofs\<close>
named_theorems handoff_defs \<open>definitions unfolded by the account-handoff proofs\<close>
named_theorems queue_defs \<open>definitions unfolded by the event-queue proofs\<close>

type_synonym gtime = int
type_synonym duration = int

definition isZero :: "gtime \<Rightarrow> bool" where
  "isZero t \<longleftrightarrow> t = 0"

abbreviation zeroTime :: gtime where
  "zeroTime \<equiv> 0"

lemma isZero_zero [simp]: "isZero 0"
  by (simp add: isZero_def)

text \<open>Durations, in nanoseconds.\<close>

definition second :: duration where
  "second = 1000000000"

definition minute :: duration where
  "minute = 60 * second"

definition hour :: duration where
  "hour = 60 * minute"

subsection \<open>Running a deterministic component\<close>

text \<open>A component's operations, applied one after the other.\<close>

fun run_ops :: "('s \<Rightarrow> 'e \<Rightarrow> 's) \<Rightarrow> 's \<Rightarrow> 'e list \<Rightarrow> 's" where
  "run_ops f s [] = s"
| "run_ops f s (e # es) = run_ops f (f s e) es"

lemma run_ops_append: "run_ops f s (xs @ ys) = run_ops f (run_ops f s xs) ys"
  by (induction xs arbitrary: s) auto

text \<open>The contract of an operation that keeps an invariant, and what a client gets from it.\<close>

locale invariant_ops =
  fixes opf :: "'s \<Rightarrow> 'e \<Rightarrow> 's"
    and inv :: "'s \<Rightarrow> bool"
  assumes inv_op: "inv s \<Longrightarrow> inv (opf s e)"
begin

lemma inv_run: "inv s \<Longrightarrow> inv (run_ops opf s es)"
  by (induction es arbitrary: s) (auto intro: inv_op)

end

text \<open>
  Some operations are called only where their caller has checked something. \<open>run_ok\<close> says that every operation
  of a sequence is called in a state that meets the check \<open>ok\<close>.
\<close>

fun run_ok :: "('s \<Rightarrow> 'e \<Rightarrow> 's) \<Rightarrow> ('s \<Rightarrow> 'e \<Rightarrow> bool) \<Rightarrow> 's \<Rightarrow> 'e list \<Rightarrow> bool" where
  "run_ok f ok s [] \<longleftrightarrow> True"
| "run_ok f ok s (e # es) \<longleftrightarrow> ok s e \<and> run_ok f ok (f s e) es"

lemma run_ok_stateless: "run_ok f (\<lambda>_. p) s es \<longleftrightarrow> list_all p es"
  by (induction es arbitrary: s) auto

locale guarded_ops =
  fixes opf :: "'s \<Rightarrow> 'e \<Rightarrow> 's"
    and inv :: "'s \<Rightarrow> bool"
    and ok :: "'s \<Rightarrow> 'e \<Rightarrow> bool"
  assumes inv_guarded: "inv s \<Longrightarrow> ok s e \<Longrightarrow> inv (opf s e)"
begin

lemma inv_run_ok: "inv s \<Longrightarrow> run_ok opf ok s es \<Longrightarrow> inv (run_ops opf s es)"
  by (induction es arbitrary: s) (auto intro: inv_guarded)

end

sublocale invariant_ops \<subseteq> unguarded: guarded_ops opf inv "\<lambda>_ _. True"
  by unfold_locales (rule inv_op)

text \<open>The contract of an operation that only moves up in a preorder.\<close>

locale monotone_ops =
  fixes opf :: "'s \<Rightarrow> 'e \<Rightarrow> 's"
    and rel :: "'s \<Rightarrow> 's \<Rightarrow> bool"
  assumes rel_refl: "rel s s"
    and rel_trans: "rel s t \<Longrightarrow> rel t u \<Longrightarrow> rel s u"
    and rel_op: "rel s (opf s e)"
begin

lemma rel_run: "rel s (run_ops opf s es)"
  by (induction es arbitrary: s) (auto intro: rel_refl rel_trans rel_op)

end

text \<open>
  The contract of an encoder and its decoder: what is encoded from a well-formed value
  decodes to that value. Then the encoding is injective on well-formed values.
\<close>

locale codec =
  fixes enc :: "'a \<Rightarrow> 'b"
    and dec :: "'b \<Rightarrow> 'a option"
    and wf :: "'a \<Rightarrow> bool"
  assumes dec_enc: "wf x \<Longrightarrow> dec (enc x) = Some x"
begin

lemma enc_inj: "wf x \<Longrightarrow> wf y \<Longrightarrow> enc x = enc y \<Longrightarrow> x = y"
  by (metis dec_enc option.inject)

end

text \<open>
  A codec is exact when nothing but encodings decodes: then decoding succeeds on exactly the
  encodings, and each has one preimage.
\<close>

locale exact_codec = codec enc dec wf
  for enc :: "'a \<Rightarrow> 'b" and dec :: "'b \<Rightarrow> 'a option" and wf :: "'a \<Rightarrow> bool" +
  assumes enc_dec: "dec b = Some x \<Longrightarrow> wf x \<and> enc x = b"
begin

lemma dec_iff: "dec b = Some x \<longleftrightarrow> wf x \<and> enc x = b"
  using dec_enc enc_dec by blast

end

subsection \<open>Go maps as association lists\<close>

text \<open>
  A Go map with string keys is an association list: \<^const>\<open>map_of\<close> looks a key up,
  \<^const>\<open>AList.update\<close> stores, \<^const>\<open>AList.delete\<close> deletes and \<^const>\<open>length\<close> is \<^verbatim>\<open>len\<close>
  while the keys are distinct. The order of the list stands for one order in which Go's
  \<^verbatim>\<open>range\<close> may visit the entries.
\<close>

type_synonym 'v gomap = "(string \<times> 'v) list"

abbreviation wf_gomap :: "'v gomap \<Rightarrow> bool" where
  "wf_gomap m \<equiv> distinct (map fst m)"

abbreviation has_key :: "'v gomap \<Rightarrow> string \<Rightarrow> bool" where
  "has_key m k \<equiv> map_of m k \<noteq> None"

text \<open>Reading a missing key of a map to integers yields Go's zero value.\<close>

definition get0 :: "int gomap \<Rightarrow> string \<Rightarrow> int" where
  "get0 m k = (case map_of m k of None \<Rightarrow> 0 | Some n \<Rightarrow> n)"

lemma gomap_update: "map_of (AList.update k v m) = (map_of m)(k \<mapsto> v)"
  by (simp add: update_conv')

lemma gomap_delete: "map_of (AList.delete k m) = (map_of m)(k := None)"
  by (simp add: delete_conv')

lemma get0_update: "get0 (AList.update k v m) k' = (if k' = k then v else get0 m k')"
  by (simp add: get0_def gomap_update)

lemma wf_gomap_update: "wf_gomap m \<Longrightarrow> wf_gomap (AList.update k v m)"
  by (rule distinct_update)

lemma wf_gomap_delete: "wf_gomap m \<Longrightarrow> wf_gomap (AList.delete k m)"
  by (rule distinct_delete)

lemma wf_gomap_filter: "wf_gomap m \<Longrightarrow> wf_gomap (filter P m)"
  by (rule distinct_map_filter)

lemma set_gomap_update: "set (AList.update k v m) \<subseteq> insert (k, v) (set m)"
  by (induction m) auto

lemma set_gomap_delete: "set (AList.delete k m) \<subseteq> set m"
  by (simp add: AList.delete_eq)

lemma length_update_le: "length (AList.update k v m) \<le> Suc (length m)"
  by (induction m) auto

lemma length_update_old: "has_key m k \<Longrightarrow> length (AList.update k v m) = length m"
  by (induction m) auto

end
