(* ===== verification/Session_State.thy ===== *)
theory Session_State
  imports AF_Prelude
begin

text \<open>
  The two-axis session state of \<^verbatim>\<open>src/session\<close>: the liveness and in-flight-operation
  enums and the predicates over them (\<^verbatim>\<open>liveness.go\<close>), the legacy status shim
  (\<^verbatim>\<open>status.go\<close>, \<^verbatim>\<open>liveness.go\<close>), the part of \<^verbatim>\<open>Instance\<close> the lifecycle reads and writes,
  the attention request (\<^verbatim>\<open>attention.go\<close>), the state epoch (\<^verbatim>\<open>state_epoch.go\<close>) and the
  task-run gate (\<^verbatim>\<open>run_gate.go\<close>, \<^verbatim>\<open>idle_reason.go\<close>). The methods run under the instance
  mutex, so each is one atomic function from the record to the record; the clock readings
  of one critical section are one argument \<open>now\<close>.
\<close>

subsection \<open>The two axes\<close>

datatype Liveness =
    LivenessUnset | LiveRunning | LiveReady | LiveLost | LiveDead | LiveArchived
  | LiveLimitReached

datatype InFlightOp =
    OpNone | OpCreating | OpKilling | OpArchiving | OpRestoring | OpReplacing | OpRespawning

datatype Status = Running | Ready | Loading | Deleting | Dead | Lost | Archived

datatype LifecycleAction =
    LifecycleActionNone | LifecycleActionArchive | LifecycleActionRestore

definition opIsTeardown :: "InFlightOp \<Rightarrow> bool" where
  "opIsTeardown op \<longleftrightarrow> op = OpKilling \<or> op = OpArchiving"

text \<open>\<open>reserved\<close> is \<^verbatim>\<open>IsReservedTitle\<close> of the title.\<close>

definition lifecycleActionFor ::
  "string \<Rightarrow> bool \<Rightarrow> Liveness \<Rightarrow> InFlightOp \<Rightarrow> bool \<Rightarrow> bool \<Rightarrow> bool \<Rightarrow> bool \<Rightarrow> bool \<Rightarrow> LifecycleAction" where
  "lifecycleActionFor sid reserved lv op startupStateUnknown userKilled pendingAccountSwap
     unreachable pruned =
     (if pruned then LifecycleActionNone
      else if sid = [] \<or> op = OpCreating \<or> op = OpReplacing \<or> op = OpRespawning \<or> op = OpRestoring \<or>
        opIsTeardown op \<or> startupStateUnknown \<or> userKilled \<or> pendingAccountSwap \<or> unreachable
      then LifecycleActionNone
      else if reserved then LifecycleActionNone
      else (case lv of
              LiveArchived \<Rightarrow> LifecycleActionRestore
            | LiveLost \<Rightarrow> LifecycleActionRestore
            | LiveDead \<Rightarrow> LifecycleActionRestore
            | _ \<Rightarrow> LifecycleActionArchive))"

definition canKillFor :: "string \<Rightarrow> InFlightOp \<Rightarrow> bool" where
  "canKillFor sid op \<longleftrightarrow> sid \<noteq> [] \<and> op \<noteq> OpCreating \<and> op \<noteq> OpReplacing \<and> op \<noteq> OpRespawning \<and>
     op \<noteq> OpRestoring \<and> \<not> opIsTeardown op"

definition composeStatus :: "Liveness \<Rightarrow> InFlightOp \<Rightarrow> Status" where
  "composeStatus lv op =
     (if op = OpReplacing then Loading
      else (case op of
              OpCreating \<Rightarrow> Loading
            | OpKilling \<Rightarrow> Deleting
            | OpArchiving \<Rightarrow> Deleting
            | OpRestoring \<Rightarrow> Lost
            | _ \<Rightarrow> (case lv of
                      LiveRunning \<Rightarrow> Running
                    | LiveReady \<Rightarrow> Ready
                    | LiveLost \<Rightarrow> Lost
                    | LiveDead \<Rightarrow> Dead
                    | LiveArchived \<Rightarrow> Archived
                    | LiveLimitReached \<Rightarrow> Ready
                    | LivenessUnset \<Rightarrow> Running)))"

fun LivenessForStatus :: "Status \<Rightarrow> Liveness" where
  "LivenessForStatus Running = LiveRunning"
| "LivenessForStatus Ready = LiveReady"
| "LivenessForStatus Lost = LiveLost"
| "LivenessForStatus Dead = LiveDead"
| "LivenessForStatus Archived = LiveArchived"
| "LivenessForStatus _ = LiveReady"

fun opForStatus :: "Status \<Rightarrow> InFlightOp" where
  "opForStatus Loading = OpCreating"
| "opForStatus Deleting = OpKilling"
| "opForStatus _ = OpNone"

subsection \<open>The instance record\<close>

record LimitBanner =
  lb_Prefix :: string
  lb_Count :: int

record Attention =
  att_Reason :: string
  att_SetAt :: gtime
  att_SeenIdle :: bool
  att_IdleSince :: gtime
  att_setEpoch :: "64 word"

record AccountLimitObservation =
  alo_Agent :: string
  alo_Account :: string
  alo_ResetAt :: gtime
  alo_ObservedAt :: gtime

datatype PromptDeliveryStatus =
    PromptStatusNone | PromptDelivered | PromptNotDelivered | PromptCouldNotConfirm
  | PromptSentUnverified

record PendingAccountSwap =
  pas_From :: string
  pas_To :: string
  pas_ReplacementPanesStarted :: bool
  pas_MissionDeliveryStatus :: PromptDeliveryStatus
  pas_MissionDeliveryAttemptAt :: gtime

record LostRestoreWait =
  lrw_Attempts :: int
  lrw_Error :: string

text \<open>
  \<open>i_agentName\<close> is what \<^verbatim>\<open>currentAgentNameLocked\<close> answers (the agent the running command
  names). The channel \<^verbatim>\<open>archiveSettled\<close> is \<open>i_archiveSettled\<close> (a channel is installed) with
  \<open>i_archiveSettledCloses\<close> counting the channels closed so far.
\<close>

record Instance =
  i_ID :: string
  i_Account :: string
  i_agentName :: string
  i_liveness :: Liveness
  i_inFlightOp :: InFlightOp
  i_started :: bool
  i_stateEpoch :: "64 word"
  i_runtimeEvidenceGeneration :: "64 word"
  i_UpdatedAt :: gtime
  i_userKilled :: bool
  i_attention :: "Attention option"
  i_agentModelChange :: "string option"
  i_archiveCheckpointSealed :: bool
  i_archiveSettled :: bool
  i_archiveSettledCloses :: nat
  i_archivePushCompleted :: bool
  i_archivedAt :: gtime
  i_pruneNonce :: string
  i_rebuildTeardownPending :: bool
  i_accountSwapLaunch :: bool
  i_pendingAccountSwap :: "PendingAccountSwap option"
  i_pendingHandoffMission :: string
  i_agentRuntimeReplaced :: bool
  i_agentReplacedAt :: gtime
  i_taskRunActive :: bool
  i_taskRunIdleEdgeHeld :: bool
  i_taskRunTurnGateHeld :: bool
  i_taskRunInterrupted :: bool
  i_taskRunInterruptedAt :: gtime
  i_taskRunInterruptedStamp :: bool
  i_taskRunFailed :: bool
  i_taskRunPromptAttemptAt :: gtime
  i_taskRunTurnObservedAt :: gtime
  i_lastPaneChurnAt :: gtime
  i_paneObservationStreakAt :: gtime
  i_paneObservationExpiresAt :: gtime
  i_adoptionDeliveries :: "64 word"
  i_adoptionAtRunEnd :: "64 word"
  i_limitResetAt :: gtime
  i_limitResetEvidence :: string
  i_limitBannerPrefix :: string
  i_limitBannerCount :: int
  i_limitAgent :: string
  i_limitAccount :: string
  i_accountLimitObservations :: "AccountLimitObservation list"
  i_accountLimitObsUnpersisted :: bool
  i_lostRestoreWait :: LostRestoreWait

definition touchLocked :: "gtime \<Rightarrow> Instance \<Rightarrow> Instance" where
  "touchLocked now i = i\<lparr>i_UpdatedAt := now\<rparr>"

definition assignLivenessLocked :: "Liveness \<Rightarrow> Instance \<Rightarrow> Instance" where
  "assignLivenessLocked l i =
     i\<lparr>i_liveness := (if i_rebuildTeardownPending i \<and> l \<noteq> LiveLost \<and> l \<noteq> LiveArchived
                       then LiveLost else l)\<rparr>"

definition statusLocked :: "Instance \<Rightarrow> Status" where
  "statusLocked i = composeStatus (i_liveness i) (i_inFlightOp i)"

definition InFlightOpAndEpoch :: "Instance \<Rightarrow> InFlightOp \<times> 64 word" where
  "InFlightOpAndEpoch i = (i_inFlightOp i, i_stateEpoch i)"

definition lifecycleStateLocked :: "Instance \<Rightarrow> Liveness \<times> InFlightOp \<times> gtime" where
  "lifecycleStateLocked i = (i_liveness i, i_inFlightOp i, i_limitResetAt i)"

subsection \<open>The attention request\<close>

definition attentionAnswerIdle :: duration where
  "attentionAnswerIdle = 10 * second"

definition attentionStoppedLocked :: "Instance \<Rightarrow> bool" where
  "attentionStoppedLocked i \<longleftrightarrow> i_userKilled i \<or>
     (case i_liveness i of LiveArchived \<Rightarrow> True | LiveLost \<Rightarrow> True | LiveDead \<Rightarrow> True
      | LiveLimitReached \<Rightarrow> True | _ \<Rightarrow> False)"

definition dropAttentionIfStoppedLocked :: "Instance \<Rightarrow> Instance" where
  "dropAttentionIfStoppedLocked i =
     (if attentionStoppedLocked i then i\<lparr>i_attention := None\<rparr> else i)"

text \<open>The answer, and the request with the idle record it leaves; called with a request set.\<close>

definition attentionAnsweredByWorkLocked :: "gtime \<Rightarrow> Attention \<Rightarrow> bool \<times> Attention" where
  "attentionAnsweredByWorkLocked now a =
     (if \<not> att_SeenIdle a then (False, a)
      else if isZero (att_IdleSince a) \<or> now - att_IdleSince a \<ge> attentionAnswerIdle then (True, a)
      else (False, a\<lparr>att_SeenIdle := False, att_IdleSince := zeroTime\<rparr>))"

definition noteAttentionLivenessLocked :: "gtime \<Rightarrow> Instance \<Rightarrow> Instance" where
  "noteAttentionLivenessLocked now i =
     (case i_attention i of
        None \<Rightarrow> i
      | Some a \<Rightarrow>
          (case i_liveness i of
             LiveReady \<Rightarrow>
               (if \<not> att_SeenIdle a
                then i\<lparr>i_attention := Some (a\<lparr>att_SeenIdle := True, att_IdleSince := now\<rparr>)\<rparr>
                else i)
           | LiveRunning \<Rightarrow>
               (let (answered, a') = attentionAnsweredByWorkLocked now a in
                i\<lparr>i_attention := (if answered then None else Some a')\<rparr>)
           | LivenessUnset \<Rightarrow> i
           | _ \<Rightarrow> i\<lparr>i_attention := None\<rparr>))"

definition noteStateChangeLocked ::
  "gtime \<Rightarrow> Liveness \<Rightarrow> InFlightOp \<Rightarrow> gtime \<Rightarrow> Instance \<Rightarrow> Instance" where
  "noteStateChangeLocked now lv op resetAt i =
     (if i_liveness i = lv \<and> i_inFlightOp i = op \<and> i_limitResetAt i = resetAt then i
      else
        (let i1 = i\<lparr>i_stateEpoch := i_stateEpoch i + 1,
                    i_runtimeEvidenceGeneration := i_runtimeEvidenceGeneration i + 1\<rparr>;
             i2 = (if i_liveness i1 \<noteq> lv then noteAttentionLivenessLocked now i1 else i1)
         in touchLocked now i2))"

definition setStatusLocked :: "gtime \<Rightarrow> Status \<Rightarrow> Instance \<Rightarrow> Instance" where
  "setStatusLocked now s i =
     (let (lv, op, resetAt) = lifecycleStateLocked i;
          i1 = (case s of
                  Loading \<Rightarrow> i\<lparr>i_inFlightOp := OpCreating\<rparr>
                | Deleting \<Rightarrow> i\<lparr>i_inFlightOp := OpKilling\<rparr>
                | _ \<Rightarrow> assignLivenessLocked (LivenessForStatus s) (i\<lparr>i_inFlightOp := OpNone\<rparr>))
      in noteStateChangeLocked now lv op resetAt i1)"

subsection \<open>The task-run gate\<close>

definition runGateActiveLocked :: "Instance \<Rightarrow> bool" where
  "runGateActiveLocked i = i_taskRunActive i"

definition captureAdoptionBaselineLocked :: "Instance \<Rightarrow> Instance" where
  "captureAdoptionBaselineLocked i = i\<lparr>i_adoptionAtRunEnd := i_adoptionDeliveries i\<rparr>"

definition endRunsLocked :: "gtime \<Rightarrow> Instance \<Rightarrow> Instance" where
  "endRunsLocked now i =
     captureAdoptionBaselineLocked (touchLocked now
       (i\<lparr>i_taskRunActive := False, i_taskRunIdleEdgeHeld := False, i_taskRunTurnGateHeld := False\<rparr>))"

definition taskRunResumeWindow :: duration where
  "taskRunResumeWindow = 15 * minute"

definition endTaskRunInterruptedLocked :: "gtime \<Rightarrow> Instance \<Rightarrow> Instance" where
  "endTaskRunInterruptedLocked now i =
     (let at = i_agentReplacedAt i in
      i\<lparr>i_taskRunActive := False, i_taskRunIdleEdgeHeld := False, i_taskRunTurnGateHeld := False,
        i_taskRunInterrupted := True,
        i_taskRunInterruptedAt :=
          (if \<not> isZero at \<and> at < now \<and> now - at \<le> taskRunResumeWindow then at else now)\<rparr>)"

definition endTaskRunFailedLocked :: "gtime \<Rightarrow> Instance \<Rightarrow> Instance" where
  "endTaskRunFailedLocked now i =
     captureAdoptionBaselineLocked (touchLocked now
       (i\<lparr>i_taskRunActive := False, i_taskRunIdleEdgeHeld := False, i_taskRunTurnGateHeld := False,
          i_taskRunFailed := True\<rparr>))"

definition taskRunCompletionQuietGrace :: duration where
  "taskRunCompletionQuietGrace = 30 * second"

definition taskRunCompletionSilentGrace :: duration where
  "taskRunCompletionSilentGrace = 5 * minute"

definition paneObservationLiveLocked :: "gtime \<Rightarrow> Instance \<Rightarrow> bool" where
  "paneObservationLiveLocked now i \<longleftrightarrow>
     \<not> isZero (i_paneObservationExpiresAt i) \<and> now < i_paneObservationExpiresAt i"

definition taskRunQuietReleaseLocked :: "gtime \<Rightarrow> Instance \<Rightarrow> bool" where
  "taskRunQuietReleaseLocked now i =
     (if \<not> i_lastPaneChurnAt i > i_taskRunPromptAttemptAt i then False
      else if \<not> paneObservationLiveLocked now i then False
      else
        (let base = (if i_paneObservationStreakAt i > i_lastPaneChurnAt i
                     then i_paneObservationStreakAt i else i_lastPaneChurnAt i)
         in now - base \<ge> taskRunCompletionQuietGrace))"

definition taskRunSilentReleaseLocked :: "gtime \<Rightarrow> Instance \<Rightarrow> bool" where
  "taskRunSilentReleaseLocked now i =
     (if i_lastPaneChurnAt i > i_taskRunPromptAttemptAt i then False
      else if \<not> paneObservationLiveLocked now i then False
      else
        (let base = (if i_paneObservationStreakAt i > i_taskRunPromptAttemptAt i
                     then i_paneObservationStreakAt i else i_taskRunPromptAttemptAt i)
         in now - base \<ge> taskRunCompletionSilentGrace))"

definition taskRunAwaitingTurnLocked :: "gtime \<Rightarrow> Instance \<Rightarrow> bool" where
  "taskRunAwaitingTurnLocked now i =
     (if isZero (i_taskRunPromptAttemptAt i) then False
      else if i_taskRunTurnObservedAt i > i_taskRunPromptAttemptAt i then False
      else \<not> taskRunQuietReleaseLocked now i \<and> \<not> taskRunSilentReleaseLocked now i)"

definition recordTaskRunTurnLocked :: "gtime \<Rightarrow> gtime \<Rightarrow> Instance \<Rightarrow> bool \<times> Instance" where
  "recordTaskRunTurnLocked now observedAt i =
     (if \<not> runGateActiveLocked i \<or> isZero (i_taskRunPromptAttemptAt i) \<or>
         \<not> observedAt > i_taskRunTurnObservedAt i \<or>
         i_taskRunTurnObservedAt i > i_taskRunPromptAttemptAt i
      then (False, i)
      else (True, touchLocked now (i\<lparr>i_taskRunTurnObservedAt := observedAt\<rparr>)))"

definition RecordTaskRunTurnAtEpoch ::
  "gtime \<Rightarrow> gtime \<Rightarrow> 64 word \<Rightarrow> Instance \<Rightarrow> bool \<times> Instance" where
  "RecordTaskRunTurnAtEpoch now observedAt observedEpoch i =
     (if isZero observedAt then (False, i)
      else if i_stateEpoch i \<noteq> observedEpoch then (False, i)
      else recordTaskRunTurnLocked now observedAt i)"

definition pendingAccountSwapDeliveryUnconfirmedLocked :: "Instance \<Rightarrow> bool" where
  "pendingAccountSwapDeliveryUnconfirmedLocked i =
     (case i_pendingAccountSwap i of
        None \<Rightarrow> False
      | Some p \<Rightarrow>
          if \<not> pas_ReplacementPanesStarted p \<or> pas_MissionDeliveryStatus p = PromptStatusNone
          then False
          else pas_MissionDeliveryStatus p \<noteq> PromptNotDelivered)"

definition owesMissionDeliveryLocked :: "Instance \<Rightarrow> bool" where
  "owesMissionDeliveryLocked i \<longleftrightarrow>
     i_pendingHandoffMission i \<noteq> [] \<or> pendingAccountSwapDeliveryUnconfirmedLocked i"

end
