(* ===== verification/Session_Limit.thy ===== *)
theory Session_Limit
  imports Session_State
begin

text \<open>
  The usage-limit half of the liveness axis, \<^verbatim>\<open>src/session/limit_liveness.go\<close>: parking a
  session on a provider wall, the durable per-identity observation rows, and the
  resume-fence twins. \<open>blank\<close> is the third-party part of the banner comparison: whether a
  text is empty once ANSI sequences (\<^verbatim>\<open>xansi.Strip\<close>) and surrounding white space are gone.
\<close>

definition RetainedAccountLimitReset :: "gtime \<Rightarrow> gtime \<Rightarrow> gtime" where
  "RetainedAccountLimitReset prior observed =
     (if isZero prior \<or> isZero observed then zeroTime
      else if observed > prior then observed
      else prior)"

definition reSightCrossesSendAttemptLocked :: "PendingAccountSwap option \<Rightarrow> gtime \<Rightarrow> gtime \<Rightarrow> bool" where
  "reSightCrossesSendAttemptLocked pending stored sighted =
     (case pending of
        None \<Rightarrow> False
      | Some p \<Rightarrow>
          if isZero (pas_MissionDeliveryAttemptAt p) \<or> \<not> sighted > pas_MissionDeliveryAttemptAt p
          then False
          else \<not> stored > pas_MissionDeliveryAttemptAt p)"

text \<open>
  The loop over the rows: \<open>None\<close> when no row carries this claim, otherwise the rows after the
  first matching one was handled and whether it was written.
\<close>

fun observeRow :: "PendingAccountSwap option \<Rightarrow> string \<Rightarrow> string \<Rightarrow> gtime \<Rightarrow> bool \<Rightarrow> gtime \<Rightarrow>
  AccountLimitObservation list \<Rightarrow> (AccountLimitObservation list \<times> bool) option" where
  "observeRow pending agent account resetAt wasParked sighted [] = None"
| "observeRow pending agent account resetAt wasParked sighted (r # rs) =
     (if alo_Agent r = agent \<and> alo_Account r = account \<and> isZero (alo_ResetAt r) = isZero resetAt
      then
        (let retained = RetainedAccountLimitReset (alo_ResetAt r) resetAt in
         if wasParked \<and> alo_ResetAt r = retained \<and>
            \<not> reSightCrossesSendAttemptLocked pending (alo_ObservedAt r) sighted
         then Some (r # rs, False)
         else Some (r\<lparr>alo_ResetAt := retained,
                      alo_ObservedAt := (if sighted > alo_ObservedAt r then sighted
                                         else alo_ObservedAt r)\<rparr> # rs, True))
      else map_option (\<lambda>(rs', w). (r # rs', w))
             (observeRow pending agent account resetAt wasParked sighted rs))"

definition recordAccountLimitObservationAtLocked ::
  "gtime \<Rightarrow> string \<Rightarrow> string \<Rightarrow> gtime \<Rightarrow> bool \<Rightarrow> gtime \<Rightarrow> Instance \<Rightarrow> Instance" where
  "recordAccountLimitObservationAtLocked now agent account resetAt wasParked sightedAt i =
     (if agent = [] \<or> account = [] then i
      else
        (let sighted = (if isZero sightedAt then now else sightedAt) in
         case observeRow (i_pendingAccountSwap i) agent account resetAt wasParked sighted
                (i_accountLimitObservations i) of
           Some (rs, w) \<Rightarrow>
             (if w then touchLocked now
                (i\<lparr>i_accountLimitObservations := rs, i_accountLimitObsUnpersisted := True\<rparr>)
              else i)
         | None \<Rightarrow> touchLocked now
             (i\<lparr>i_accountLimitObservations := i_accountLimitObservations i @
                  [\<lparr>alo_Agent = agent, alo_Account = account, alo_ResetAt = resetAt,
                    alo_ObservedAt = sighted\<rparr>],
                i_accountLimitObsUnpersisted := True\<rparr>)))"

definition recordAccountLimitObservationLocked ::
  "gtime \<Rightarrow> string \<Rightarrow> string \<Rightarrow> gtime \<Rightarrow> bool \<Rightarrow> Instance \<Rightarrow> Instance" where
  "recordAccountLimitObservationLocked now agent account resetAt wasParked i =
     recordAccountLimitObservationAtLocked now agent account resetAt wasParked now i"

definition attributeLimitIdentityAsLocked :: "gtime \<Rightarrow> string \<Rightarrow> Instance \<Rightarrow> Instance" where
  "attributeLimitIdentityAsLocked now agent i =
     (let i1 = (if i_limitAgent i \<noteq> agent then touchLocked now (i\<lparr>i_limitAgent := agent\<rparr>) else i)
      in if i_limitAccount i1 \<noteq> i_Account i1
         then touchLocked now (i1\<lparr>i_limitAccount := i_Account i1\<rparr>) else i1)"

definition attributeLimitIdentityLocked :: "gtime \<Rightarrow> Instance \<Rightarrow> Instance" where
  "attributeLimitIdentityLocked now i = attributeLimitIdentityAsLocked now (i_agentName i) i"

definition setLimitReachedLocked ::
  "gtime \<Rightarrow> gtime \<Rightarrow> string \<Rightarrow> LimitBanner \<Rightarrow> Instance \<Rightarrow> bool \<times> Instance" where
  "setLimitReachedLocked now resetAt evidence banner i =
     (if i_inFlightOp i \<noteq> OpNone then (False, i)
      else
        (let (lv, op, prevReset) = lifecycleStateLocked i;
             i1 = assignLivenessLocked LiveLimitReached i;
             i2 = i1\<lparr>i_limitResetAt := resetAt, i_limitResetEvidence := evidence,
                     i_limitBannerPrefix := lb_Prefix banner, i_limitBannerCount := lb_Count banner\<rparr>;
             i3 = attributeLimitIdentityLocked now i2;
             i4 = recordAccountLimitObservationLocked now (i_agentName i3) (i_Account i3) resetAt
                    (lv = LiveLimitReached) i3
         in (True, noteStateChangeLocked now lv op prevReset i4)))"

definition SetLimitReachedAtEvidence ::
  "gtime \<Rightarrow> gtime \<Rightarrow> string \<Rightarrow> LimitBanner \<Rightarrow> Instance \<Rightarrow> Instance" where
  "SetLimitReachedAtEvidence now resetAt evidence banner i =
     snd (setLimitReachedLocked now resetAt evidence banner i)"

definition SetLimitReached :: "gtime \<Rightarrow> gtime \<Rightarrow> Instance \<Rightarrow> Instance" where
  "SetLimitReached now resetAt i =
     SetLimitReachedAtEvidence now resetAt [] \<lparr>lb_Prefix = [], lb_Count = 0\<rparr> i"

text \<open>The text up to and with its last newline: \<^verbatim>\<open>s[:strings.LastIndexByte(s, '\n')+1]\<close>.\<close>

definition upToLastNewline :: "string \<Rightarrow> string" where
  "upToLastNewline s = rev (dropWhile (\<lambda>c. c \<noteq> CHR 0x0A) (rev s))"

definition hasSuffix :: "string \<Rightarrow> string \<Rightarrow> bool" where
  "hasSuffix s suf \<longleftrightarrow> length suf \<le> length s \<and> drop (length s - length suf) s = suf"

fun containsStr :: "string \<Rightarrow> string \<Rightarrow> bool" where
  "containsStr [] p \<longleftrightarrow> p = []"
| "containsStr (c # cs) p \<longleftrightarrow> take (length p) (c # cs) = p \<or> containsStr cs p"

definition sameLimitBannerPosition :: "(string \<Rightarrow> bool) \<Rightarrow> string \<Rightarrow> string \<Rightarrow> bool" where
  "sameLimitBannerPosition blank stored current =
     (let storedBody = upToLastNewline stored;
          currentBody = upToLastNewline current;
          (shorter, longer) = (if length currentBody < length storedBody
                               then (currentBody, storedBody) else (storedBody, currentBody))
      in if blank shorter then False else hasSuffix longer shorter)"

definition applyDegradedResightLocked ::
  "(string \<Rightarrow> bool) \<Rightarrow> gtime \<Rightarrow> LimitBanner \<Rightarrow> Instance \<Rightarrow> bool \<times> Instance" where
  "applyDegradedResightLocked blank now banner i =
     (if i_agentName i \<noteq> i_limitAgent i \<or> i_Account i \<noteq> i_limitAccount i
      then setLimitReachedLocked now zeroTime [] banner i
      else if sameLimitBannerPosition blank (i_limitBannerPrefix i) (lb_Prefix banner) then (True, i)
      else if i_limitResetEvidence i \<noteq> [] \<and> containsStr (lb_Prefix banner) (i_limitResetEvidence i)
      then setLimitReachedLocked now zeroTime [] banner i
      else if i_limitBannerCount i > 0 \<and> lb_Count banner > i_limitBannerCount i
      then setLimitReachedLocked now zeroTime [] banner i
      else if i_inFlightOp i \<noteq> OpNone then (False, i)
      else
        (let (lv, op, prevReset) = lifecycleStateLocked i
         in (True, noteStateChangeLocked now lv op prevReset
                     (i\<lparr>i_limitResetAt := zeroTime, i_limitResetEvidence := []\<rparr>))))"

definition SetLimitReachedAtEpoch ::
  "(string \<Rightarrow> bool) \<Rightarrow> gtime \<Rightarrow> gtime \<Rightarrow> string \<Rightarrow> LimitBanner \<Rightarrow> 64 word \<Rightarrow> Instance \<Rightarrow> bool \<times> Instance" where
  "SetLimitReachedAtEpoch blank now resetAt evidence banner epoch i =
     (if i_stateEpoch i \<noteq> epoch then (False, i)
      else if i_liveness i = LiveLimitReached \<and> isZero resetAt \<and> evidence = []
      then applyDegradedResightLocked blank now banner i
      else if i_liveness i = LiveLimitReached \<and> evidence = i_limitResetEvidence i then (True, i)
      else setLimitReachedLocked now resetAt evidence banner i)"

definition SetLimitResetAt :: "gtime \<Rightarrow> gtime \<Rightarrow> Instance \<Rightarrow> Instance" where
  "SetLimitResetAt now resetAt i =
     (let (lv, op, prevReset) = lifecycleStateLocked i
      in noteStateChangeLocked now lv op prevReset
           (i\<lparr>i_limitResetAt := resetAt, i_limitResetEvidence := []\<rparr>))"

datatype fenceError = ErrNoResumeFence InFlightOp

definition ReparkLimitUnderResumeFence :: "gtime \<Rightarrow> gtime \<Rightarrow> Instance \<Rightarrow> fenceError option \<times> Instance" where
  "ReparkLimitUnderResumeFence now resetAt i =
     (if i_inFlightOp i \<noteq> OpRespawning then (Some (ErrNoResumeFence (i_inFlightOp i)), i)
      else
        (let (lv, op, prevReset) = lifecycleStateLocked i
         in (None, noteStateChangeLocked now lv op prevReset
                     (i\<lparr>i_liveness := LiveLimitReached, i_limitResetAt := resetAt\<rparr>))))"

definition RestoreLivenessUnderResumeFence ::
  "gtime \<Rightarrow> Liveness \<Rightarrow> Instance \<Rightarrow> fenceError option \<times> Instance" where
  "RestoreLivenessUnderResumeFence now l i =
     (if i_inFlightOp i \<noteq> OpRespawning then (Some (ErrNoResumeFence (i_inFlightOp i)), i)
      else
        (let (lv, op, prevReset) = lifecycleStateLocked i
         in (None, noteStateChangeLocked now lv op prevReset (i\<lparr>i_liveness := l\<rparr>))))"

definition ClearLimitReached :: "gtime \<Rightarrow> Instance \<Rightarrow> Instance" where
  "ClearLimitReached now i =
     (if i_liveness i \<noteq> LiveLimitReached then i
      else
        (let (lv, op, prevReset) = lifecycleStateLocked i
         in noteStateChangeLocked now lv op prevReset
              ((assignLivenessLocked LiveRunning i)
                 \<lparr>i_limitResetAt := zeroTime, i_limitResetEvidence := [], i_limitAgent := [],
                  i_limitAccount := [], i_limitBannerPrefix := [], i_limitBannerCount := 0\<rparr>)))"

definition LimitResetAt :: "Instance \<Rightarrow> gtime option" where
  "LimitResetAt i =
     (if i_liveness i \<noteq> LiveLimitReached \<or> isZero (i_limitResetAt i) then None
      else Some (i_limitResetAt i))"

definition LimitIdentity :: "Instance \<Rightarrow> (string \<times> string) option" where
  "LimitIdentity i =
     (if i_liveness i \<noteq> LiveLimitReached then None else Some (i_limitAgent i, i_limitAccount i))"

definition MarkAccountLimitObservationsPersisted ::
  "AccountLimitObservation list \<Rightarrow> Instance \<Rightarrow> Instance" where
  "MarkAccountLimitObservationsPersisted written i =
     (if written = i_accountLimitObservations i then i\<lparr>i_accountLimitObsUnpersisted := False\<rparr> else i)"

end
