(* ===== verification/Session_Transition.thy ===== *)
theory Session_Transition
  imports Session_Limit
begin

text \<open>
  The lifecycle chokepoint \<^verbatim>\<open>src/session/transition.go\<close>: the transition kinds and event
  constructors, the allowed-edge table row by row, and \<^verbatim>\<open>transitionLocked\<close>, which applies an
  event to the instance. The direct setters that share its state (\<^verbatim>\<open>SetArchived\<close>, the
  attention operations, the kill tombstone) follow; then the lemmas on single steps and on runs.
\<close>

subsection \<open>Events\<close>

datatype transitionKind =
    tkBeginCreate | tkConfirmLive | tkObserveLiveness | tkBeginKill | tkRevertKill
  | tkBeginArchive | tkCancelArchive | tkCommitArchive | tkAbortArchiveToLost | tkBeginRestore
  | tkAbortRestoreToLost | tkMarkRestoring | tkBeginRestoreFenced | tkBeginHandoff
  | tkCommitHandoff | tkParkHandoff | tkAbortHandoff | tkClearOp | tkBeginRespawn

record TransitionEvent =
  ev_kind :: transitionKind
  ev_lv :: Liveness
  ev_resetAt :: gtime
  ev_evidence :: string
  ev_banner :: LimitBanner
  ev_epoch :: "64 word"
  ev_epochScoped :: bool
  ev_churnOnly :: bool

definition zeroEvent :: "transitionKind \<Rightarrow> TransitionEvent" where
  "zeroEvent k = \<lparr>ev_kind = k, ev_lv = LivenessUnset, ev_resetAt = zeroTime, ev_evidence = [],
     ev_banner = \<lparr>lb_Prefix = [], lb_Count = 0\<rparr>, ev_epoch = 0, ev_epochScoped = False,
     ev_churnOnly = False\<rparr>"

definition ChurnOnly :: "TransitionEvent \<Rightarrow> TransitionEvent" where
  "ChurnOnly ev = ev\<lparr>ev_churnOnly := True\<rparr>"

definition AtEpoch :: "TransitionEvent \<Rightarrow> 64 word \<Rightarrow> TransitionEvent" where
  "AtEpoch ev epoch = ev\<lparr>ev_epoch := epoch, ev_epochScoped := True\<rparr>"

definition BeginRespawn :: TransitionEvent where
  "BeginRespawn = zeroEvent tkBeginRespawn"

definition BeginCreate :: TransitionEvent where
  "BeginCreate = zeroEvent tkBeginCreate"

definition ConfirmLive :: TransitionEvent where
  "ConfirmLive = zeroEvent tkConfirmLive"

definition ObserveLiveness :: "Liveness \<Rightarrow> TransitionEvent" where
  "ObserveLiveness lv = (zeroEvent tkObserveLiveness)\<lparr>ev_lv := lv\<rparr>"

definition BeginKill :: TransitionEvent where
  "BeginKill = zeroEvent tkBeginKill"

definition RevertKill :: TransitionEvent where
  "RevertKill = zeroEvent tkRevertKill"

definition BeginArchive :: TransitionEvent where
  "BeginArchive = zeroEvent tkBeginArchive"

definition CancelArchive :: TransitionEvent where
  "CancelArchive = zeroEvent tkCancelArchive"

definition CommitArchive :: TransitionEvent where
  "CommitArchive = zeroEvent tkCommitArchive"

definition AbortArchiveToLost :: TransitionEvent where
  "AbortArchiveToLost = zeroEvent tkAbortArchiveToLost"

definition BeginRestore :: TransitionEvent where
  "BeginRestore = zeroEvent tkBeginRestore"

definition BeginRestoreUnderHeldFence :: TransitionEvent where
  "BeginRestoreUnderHeldFence = zeroEvent tkBeginRestoreFenced"

definition AbortRestoreToLost :: TransitionEvent where
  "AbortRestoreToLost = zeroEvent tkAbortRestoreToLost"

definition MarkRestoring :: TransitionEvent where
  "MarkRestoring = zeroEvent tkMarkRestoring"

definition BeginHandoff :: TransitionEvent where
  "BeginHandoff = zeroEvent tkBeginHandoff"

definition CommitHandoff :: TransitionEvent where
  "CommitHandoff = zeroEvent tkCommitHandoff"

definition ParkHandoff :: "gtime \<Rightarrow> string \<Rightarrow> LimitBanner \<Rightarrow> TransitionEvent" where
  "ParkHandoff resetAt evidence banner =
     (zeroEvent tkParkHandoff)\<lparr>ev_resetAt := resetAt, ev_evidence := evidence, ev_banner := banner\<rparr>"

definition AbortHandoff :: TransitionEvent where
  "AbortHandoff = zeroEvent tkAbortHandoff"

definition ClearOp :: TransitionEvent where
  "ClearOp = zeroEvent tkClearOp"

subsection \<open>The allowed-edge table\<close>

record stateAxes =
  ax_liveness :: Liveness
  ax_op :: InFlightOp

datatype startedEffect = startedUnchanged | startedSet | startedClear

datatype runEffect = runEffectUnset | runKeep | runEndsOnIdleEdge | runEnds

datatype limitResetEffect = limitResetKeep | limitResetClear | limitResetFromEvent

record edgeSpec =
  allowedFrom :: "stateAxes \<Rightarrow> bool"
  target :: "stateAxes \<Rightarrow> TransitionEvent \<Rightarrow> stateAxes"
  es_started :: startedEffect
  es_run :: runEffect
  es_limitReset :: limitResetEffect
  yieldWhenBlocked :: bool

abbreviation axes :: "Liveness \<Rightarrow> InFlightOp \<Rightarrow> stateAxes" where
  "axes lv op \<equiv> \<lparr>ax_liveness = lv, ax_op = op\<rparr>"

definition spec_BeginRespawn :: edgeSpec where
  "spec_BeginRespawn =
     \<lparr>allowedFrom = (\<lambda>s. ax_op s = OpNone),
      target = (\<lambda>s ev. axes (ax_liveness s) OpRespawning),
      es_started = startedUnchanged, es_run = runKeep, es_limitReset = limitResetKeep,
      yieldWhenBlocked = False\<rparr>"

definition spec_BeginCreate :: edgeSpec where
  "spec_BeginCreate =
     \<lparr>allowedFrom = (\<lambda>s. ax_op s = OpNone),
      target = (\<lambda>s ev. axes (ax_liveness s) OpCreating),
      es_started = startedUnchanged, es_run = runKeep, es_limitReset = limitResetKeep,
      yieldWhenBlocked = False\<rparr>"

definition spec_ConfirmLive :: edgeSpec where
  "spec_ConfirmLive =
     \<lparr>allowedFrom = (\<lambda>s. ax_op s = OpNone \<or> ax_op s = OpCreating \<or> ax_op s = OpRestoring \<or>
        ax_op s = OpRespawning),
      target = (\<lambda>s ev. if ax_op s = OpRespawning then axes LiveRunning OpRespawning
        else axes LiveRunning OpNone),
      es_started = startedUnchanged, es_run = runKeep, es_limitReset = limitResetKeep,
      yieldWhenBlocked = True\<rparr>"

definition spec_ObserveLiveness :: edgeSpec where
  "spec_ObserveLiveness =
     \<lparr>allowedFrom = (\<lambda>s. True),
      target = (\<lambda>s ev. axes (ev_lv ev) (ax_op s)),
      es_started = startedUnchanged, es_run = runEndsOnIdleEdge, es_limitReset = limitResetKeep,
      yieldWhenBlocked = False\<rparr>"

definition spec_BeginKill :: edgeSpec where
  "spec_BeginKill =
     \<lparr>allowedFrom = (\<lambda>s. True),
      target = (\<lambda>s ev. axes (ax_liveness s) OpKilling),
      es_started = startedUnchanged, es_run = runKeep, es_limitReset = limitResetKeep,
      yieldWhenBlocked = False\<rparr>"

definition spec_RevertKill :: edgeSpec where
  "spec_RevertKill =
     \<lparr>allowedFrom = (\<lambda>s. ax_op s = OpKilling),
      target = (\<lambda>s ev. axes (ax_liveness s) OpNone),
      es_started = startedUnchanged, es_run = runKeep, es_limitReset = limitResetKeep,
      yieldWhenBlocked = False\<rparr>"

definition spec_BeginArchive :: edgeSpec where
  "spec_BeginArchive =
     \<lparr>allowedFrom = (\<lambda>s. ax_op s = OpNone \<and> ax_liveness s \<noteq> LiveArchived),
      target = (\<lambda>s ev. axes (ax_liveness s) OpArchiving),
      es_started = startedUnchanged, es_run = runKeep, es_limitReset = limitResetKeep,
      yieldWhenBlocked = False\<rparr>"

definition spec_CancelArchive :: edgeSpec where
  "spec_CancelArchive =
     \<lparr>allowedFrom = (\<lambda>s. ax_op s = OpArchiving),
      target = (\<lambda>s ev. axes (ax_liveness s) OpNone),
      es_started = startedUnchanged, es_run = runKeep, es_limitReset = limitResetKeep,
      yieldWhenBlocked = False\<rparr>"

definition spec_CommitArchive :: edgeSpec where
  "spec_CommitArchive =
     \<lparr>allowedFrom = (\<lambda>s. ax_op s = OpArchiving),
      target = (\<lambda>s ev. axes LiveArchived OpNone),
      es_started = startedClear, es_run = runEnds, es_limitReset = limitResetKeep,
      yieldWhenBlocked = False\<rparr>"

definition spec_AbortArchiveToLost :: edgeSpec where
  "spec_AbortArchiveToLost =
     \<lparr>allowedFrom = (\<lambda>s. ax_op s = OpArchiving),
      target = (\<lambda>s ev. axes LiveLost OpNone),
      es_started = startedUnchanged, es_run = runKeep, es_limitReset = limitResetKeep,
      yieldWhenBlocked = False\<rparr>"

definition spec_BeginRestore :: edgeSpec where
  "spec_BeginRestore =
     \<lparr>allowedFrom = (\<lambda>s. ax_op s = OpNone \<and> ax_liveness s = LiveArchived),
      target = (\<lambda>s ev. axes LiveLost OpRestoring),
      es_started = startedSet, es_run = runKeep, es_limitReset = limitResetKeep,
      yieldWhenBlocked = False\<rparr>"

definition spec_BeginRestoreFenced :: edgeSpec where
  "spec_BeginRestoreFenced =
     \<lparr>allowedFrom = (\<lambda>s. ax_op s = OpRestoring \<and> ax_liveness s = LiveArchived),
      target = (\<lambda>s ev. axes LiveLost OpRestoring),
      es_started = startedSet, es_run = runKeep, es_limitReset = limitResetKeep,
      yieldWhenBlocked = False\<rparr>"

definition spec_AbortRestoreToLost :: edgeSpec where
  "spec_AbortRestoreToLost =
     \<lparr>allowedFrom = (\<lambda>s. ax_op s = OpRestoring \<and> ax_liveness s = LiveLost),
      target = (\<lambda>s ev. axes LiveLost OpNone),
      es_started = startedUnchanged, es_run = runKeep, es_limitReset = limitResetKeep,
      yieldWhenBlocked = False\<rparr>"

definition spec_MarkRestoring :: edgeSpec where
  "spec_MarkRestoring =
     \<lparr>allowedFrom = (\<lambda>s. ax_op s = OpNone),
      target = (\<lambda>s ev. axes (ax_liveness s) OpRestoring),
      es_started = startedUnchanged, es_run = runKeep, es_limitReset = limitResetKeep,
      yieldWhenBlocked = False\<rparr>"

definition spec_BeginHandoff :: edgeSpec where
  "spec_BeginHandoff =
     \<lparr>allowedFrom = (\<lambda>s. ax_op s = OpNone \<and>
        (ax_liveness s = LiveRunning \<or> ax_liveness s = LiveReady \<or>
         ax_liveness s = LiveLimitReached)),
      target = (\<lambda>s ev. axes (ax_liveness s) OpReplacing),
      es_started = startedUnchanged, es_run = runKeep, es_limitReset = limitResetKeep,
      yieldWhenBlocked = False\<rparr>"

definition spec_CommitHandoff :: edgeSpec where
  "spec_CommitHandoff =
     \<lparr>allowedFrom = (\<lambda>s. ax_op s = OpReplacing),
      target = (\<lambda>s ev. axes LiveRunning OpNone),
      es_started = startedUnchanged, es_run = runKeep, es_limitReset = limitResetClear,
      yieldWhenBlocked = False\<rparr>"

definition spec_ParkHandoff :: edgeSpec where
  "spec_ParkHandoff =
     \<lparr>allowedFrom = (\<lambda>s. ax_op s = OpReplacing),
      target = (\<lambda>s ev. axes LiveLimitReached OpNone),
      es_started = startedUnchanged, es_run = runKeep, es_limitReset = limitResetFromEvent,
      yieldWhenBlocked = False\<rparr>"

definition spec_AbortHandoff :: edgeSpec where
  "spec_AbortHandoff =
     \<lparr>allowedFrom = (\<lambda>s. ax_op s = OpReplacing),
      target = (\<lambda>s ev. axes (ax_liveness s) OpNone),
      es_started = startedUnchanged, es_run = runKeep, es_limitReset = limitResetKeep,
      yieldWhenBlocked = True\<rparr>"

definition spec_ClearOp :: edgeSpec where
  "spec_ClearOp =
     \<lparr>allowedFrom = (\<lambda>s. True),
      target = (\<lambda>s ev. axes (ax_liveness s) OpNone),
      es_started = startedUnchanged, es_run = runKeep, es_limitReset = limitResetKeep,
      yieldWhenBlocked = False\<rparr>"

fun transitionTable :: "transitionKind \<Rightarrow> edgeSpec option" where
  "transitionTable tkBeginRespawn = Some spec_BeginRespawn"
| "transitionTable tkBeginCreate = Some spec_BeginCreate"
| "transitionTable tkConfirmLive = Some spec_ConfirmLive"
| "transitionTable tkObserveLiveness = Some spec_ObserveLiveness"
| "transitionTable tkBeginKill = Some spec_BeginKill"
| "transitionTable tkRevertKill = Some spec_RevertKill"
| "transitionTable tkBeginArchive = Some spec_BeginArchive"
| "transitionTable tkCancelArchive = Some spec_CancelArchive"
| "transitionTable tkCommitArchive = Some spec_CommitArchive"
| "transitionTable tkAbortArchiveToLost = Some spec_AbortArchiveToLost"
| "transitionTable tkBeginRestore = Some spec_BeginRestore"
| "transitionTable tkBeginRestoreFenced = Some spec_BeginRestoreFenced"
| "transitionTable tkAbortRestoreToLost = Some spec_AbortRestoreToLost"
| "transitionTable tkMarkRestoring = Some spec_MarkRestoring"
| "transitionTable tkBeginHandoff = Some spec_BeginHandoff"
| "transitionTable tkCommitHandoff = Some spec_CommitHandoff"
| "transitionTable tkParkHandoff = Some spec_ParkHandoff"
| "transitionTable tkAbortHandoff = Some spec_AbortHandoff"
| "transitionTable tkClearOp = Some spec_ClearOp"

subsection \<open>Applying an event\<close>

datatype transitionError =
    ErrArchiveSealed
  | ErrSwapPending string string
  | ErrUnknownEvent transitionKind stateAxes
  | ErrEdgeNotAllowed transitionKind stateAxes

text \<open>
  The effect of the edge on the task run. \<open>ends\<close> of the table row decides; the restore of a
  replaced runtime interrupts a run that is still in flight.
\<close>

definition idleEdgeEffect :: "gtime \<Rightarrow> Liveness \<Rightarrow> Liveness \<Rightarrow> Instance \<Rightarrow> Instance" where
  "idleEdgeEffect now fromLv toLv i =
     (if toLv = LiveReady then
        (if owesMissionDeliveryLocked i then
           (if \<not> i_taskRunIdleEdgeHeld i
            then touchLocked now (i\<lparr>i_taskRunIdleEdgeHeld := True\<rparr>) else i)
         else if taskRunAwaitingTurnLocked now i then
           (if \<not> i_taskRunTurnGateHeld i
            then touchLocked now (i\<lparr>i_taskRunTurnGateHeld := True\<rparr>) else i)
         else if fromLv \<noteq> LiveReady \<or> i_taskRunIdleEdgeHeld i \<or> i_taskRunTurnGateHeld i
         then endRunsLocked now i
         else i)
      else i)"

definition applyRunEffect ::
  "gtime \<Rightarrow> edgeSpec \<Rightarrow> transitionKind \<Rightarrow> stateAxes \<Rightarrow> stateAxes \<Rightarrow> Instance \<Rightarrow> Instance" where
  "applyRunEffect now spec kind from to i =
     (if runGateActiveLocked i then
        (if i_taskRunActive i \<and> kind = tkConfirmLive \<and> ax_op from = OpRestoring \<and>
            i_agentRuntimeReplaced i
         then (endTaskRunInterruptedLocked now i)\<lparr>i_taskRunInterruptedStamp := True\<rparr>
         else
           (case es_run spec of
              runEnds \<Rightarrow> endRunsLocked now i
            | runEndsOnIdleEdge \<Rightarrow> idleEdgeEffect now (ax_liveness from) (ax_liveness to) i
            | _ \<Rightarrow> i))
      else i)"

definition applyLimitReset :: "limitResetEffect \<Rightarrow> TransitionEvent \<Rightarrow> Instance \<Rightarrow> Instance" where
  "applyLimitReset e ev i =
     (case e of
        limitResetKeep \<Rightarrow> i
      | limitResetClear \<Rightarrow>
          i\<lparr>i_limitResetAt := zeroTime, i_limitResetEvidence := [],
            i_limitBannerPrefix := [], i_limitBannerCount := 0\<rparr>
      | limitResetFromEvent \<Rightarrow>
          i\<lparr>i_limitResetAt := ev_resetAt ev, i_limitResetEvidence := ev_evidence ev,
            i_limitBannerPrefix := lb_Prefix (ev_banner ev),
            i_limitBannerCount := lb_Count (ev_banner ev)\<rparr>)"

definition applyStarted :: "gtime \<Rightarrow> startedEffect \<Rightarrow> Instance \<Rightarrow> Instance" where
  "applyStarted now e i =
     (case e of
        startedSet \<Rightarrow> (if \<not> i_started i then touchLocked now (i\<lparr>i_started := True\<rparr>) else i)
      | startedClear \<Rightarrow> (if i_started i then touchLocked now (i\<lparr>i_started := False\<rparr>) else i)
      | startedUnchanged \<Rightarrow> i)"

definition clearAgentModelChangeLocked :: "Instance \<Rightarrow> Instance" where
  "clearAgentModelChangeLocked i = i\<lparr>i_agentModelChange := None\<rparr>"

text \<open>What follows the epoch: the process diagnostic, the attention request, the archive stamps.\<close>

definition applyKindEffects ::
  "gtime \<Rightarrow> transitionKind \<Rightarrow> stateAxes \<Rightarrow> stateAxes \<Rightarrow> Instance \<Rightarrow> Instance" where
  "applyKindEffects now kind from to i =
     (let i1 = (if kind = tkCommitArchive \<or> kind = tkBeginRestore
                then clearAgentModelChangeLocked i else i);
          i2 = (if kind = tkCommitHandoff then i1\<lparr>i_attention := None\<rparr> else i1);
          i3 = (if kind = tkCommitArchive then i2\<lparr>i_archivedAt := now\<rparr> else i2);
          i4 = (if ax_liveness from = LiveArchived \<and> ax_liveness to \<noteq> LiveArchived
                then i3\<lparr>i_archivedAt := zeroTime, i_pruneNonce := []\<rparr> else i3)
      in (if ax_op from = OpArchiving \<and> ax_op to \<noteq> OpArchiving \<and> i_archiveSettled i4
          then i4\<lparr>i_archiveSettled := False,
                  i_archiveSettledCloses := Suc (i_archiveSettledCloses i4)\<rparr>
          else i4))"

text \<open>What precedes the run effect: the evidence generation and the archive-fence fields.\<close>

definition prepareEdge :: "transitionKind \<Rightarrow> stateAxes \<Rightarrow> stateAxes \<Rightarrow> Instance \<Rightarrow> Instance" where
  "prepareEdge kind from to i =
     (let i1 = (if to \<noteq> from
                then i\<lparr>i_runtimeEvidenceGeneration := i_runtimeEvidenceGeneration i + 1\<rparr> else i);
          i2 = (if kind = tkBeginArchive then i1\<lparr>i_archiveSettled := True\<rparr> else i1)
      in (if kind = tkBeginArchive \<or> kind = tkCancelArchive \<or> kind = tkCommitArchive \<or>
             kind = tkAbortArchiveToLost
          then i2\<lparr>i_archivePushCompleted := False\<rparr> else i2))"

text \<open>The mutation of an admitted event: everything after the edge was found legal.\<close>

definition applyEdge :: "gtime \<Rightarrow> edgeSpec \<Rightarrow> TransitionEvent \<Rightarrow> Instance \<Rightarrow> Instance" where
  "applyEdge now spec ev i =
     (let from = axes (i_liveness i) (i_inFlightOp i);
          to = target spec from ev;
          i3 = prepareEdge (ev_kind ev) from to i;
          i4 = applyRunEffect now spec (ev_kind ev) from to i3;
          prevResetAt = i_limitResetAt i4;
          i5 = (if ax_liveness to \<noteq> ax_liveness from
                then assignLivenessLocked (ax_liveness to) i4 else i4);
          i6 = i5\<lparr>i_inFlightOp := ax_op to\<rparr>;
          i7 = applyLimitReset (es_limitReset spec) ev i6;
          i8 = (if ev_kind ev = tkParkHandoff
                then
                  (let j = attributeLimitIdentityLocked now i7
                   in recordAccountLimitObservationLocked now (i_agentName j) (i_Account j)
                        (ev_resetAt ev) False j)
                else i7);
          i9 = noteStateChangeLocked now (ax_liveness from) (ax_op from) prevResetAt i8;
          i10 = applyStarted now (es_started spec) i9
      in applyKindEffects now (ev_kind ev) from to i10)"

text \<open>The deferred restore of the attention request that a churn-only observation keeps.\<close>

definition keepAttention :: "Attention option \<Rightarrow> Instance \<Rightarrow> Instance" where
  "keepAttention keep i =
     (if keep \<noteq> None \<and> i_liveness i = LiveRunning then i\<lparr>i_attention := keep\<rparr> else i)"

text \<open>An observation cannot lift a row whose rebuild teardown is still owed out of Lost.\<close>

definition coerceObservation :: "Instance \<Rightarrow> TransitionEvent \<Rightarrow> TransitionEvent" where
  "coerceObservation i ev =
     (if ev_kind ev = tkObserveLiveness \<and> ev_lv ev \<noteq> LiveLost \<and> i_rebuildTeardownPending i
      then ev\<lparr>ev_lv := LiveLost\<rparr> else ev)"

definition transitionCore ::
  "gtime \<Rightarrow> TransitionEvent \<Rightarrow> Instance \<Rightarrow> transitionError option \<times> Instance" where
  "transitionCore now ev i =
     (if ev_kind ev = tkBeginArchive \<and> i_archiveCheckpointSealed i then (Some ErrArchiveSealed, i)
      else if ev_kind ev = tkBeginArchive \<and> i_pendingAccountSwap i \<noteq> None
      then (Some (ErrSwapPending (pas_From (the (i_pendingAccountSwap i)))
                    (pas_To (the (i_pendingAccountSwap i)))), i)
      else
        (let ev' = coerceObservation i ev;
             from = axes (i_liveness i) (i_inFlightOp i)
         in case transitionTable (ev_kind ev') of
              None \<Rightarrow> (Some (ErrUnknownEvent (ev_kind ev') from), i)
            | Some spec \<Rightarrow>
                (if \<not> allowedFrom spec from then
                   (if yieldWhenBlocked spec then (None, i)
                    else (Some (ErrEdgeNotAllowed (ev_kind ev') from), i))
                 else (None, applyEdge now spec ev' i))))"

definition transitionLocked ::
  "gtime \<Rightarrow> TransitionEvent \<Rightarrow> Instance \<Rightarrow> transitionError option \<times> Instance" where
  "transitionLocked now ev i =
     (if ev_epochScoped ev \<and> i_stateEpoch i \<noteq> ev_epoch ev then (None, i)
      else
        (let (e, i') = transitionCore now ev i
         in if ev_kind ev = tkObserveLiveness \<and> ev_churnOnly ev \<and> ev_lv ev = LiveRunning
            then (e, keepAttention (i_attention i) i') else (e, i')))"

subsection \<open>The direct setters\<close>

definition SetArchived :: "gtime \<Rightarrow> Instance \<Rightarrow> Instance" where
  "SetArchived now i =
     (let (lv, op, resetAt) = lifecycleStateLocked i;
          i1 = (if i_started i then touchLocked now (i\<lparr>i_started := False\<rparr>) else i);
          i2 = (assignLivenessLocked LiveArchived i1)\<lparr>i_inFlightOp := OpNone\<rparr>
      in noteStateChangeLocked now lv op resetAt (clearAgentModelChangeLocked i2))"

datatype attentionError = ErrAttentionNotLive

record AttentionUndo =
  undo_previous :: "Attention option"
  undo_epoch :: "64 word"

text \<open>\<open>reason\<close> is the reason as \<^verbatim>\<open>NormalizeAttentionReason\<close> left it.\<close>

definition SetAttention ::
  "gtime \<Rightarrow> string \<Rightarrow> Instance \<Rightarrow> attentionError + (AttentionUndo \<times> Instance)" where
  "SetAttention now reason i =
     (if attentionStoppedLocked i then Inl ErrAttentionNotLive
      else
        (let epoch = i_stateEpoch i + 1;
             a = \<lparr>att_Reason = reason, att_SetAt = now, att_SeenIdle = (i_liveness i = LiveReady),
                  att_IdleSince = zeroTime, att_setEpoch = epoch\<rparr>
         in Inr (\<lparr>undo_previous = i_attention i, undo_epoch = epoch\<rparr>,
                 touchLocked now (i\<lparr>i_attention := Some a, i_stateEpoch := epoch\<rparr>))))"

definition ClearAttention :: "gtime \<Rightarrow> gtime \<Rightarrow> Instance \<Rightarrow> (AttentionUndo \<times> Instance) option" where
  "ClearAttention now setAt i =
     (case i_attention i of
        None \<Rightarrow> None
      | Some a \<Rightarrow>
          if \<not> isZero setAt \<and> att_SetAt a \<noteq> setAt then None
          else Some (\<lparr>undo_previous = i_attention i, undo_epoch = i_stateEpoch i\<rparr>,
                     touchLocked now (i\<lparr>i_attention := None\<rparr>)))"

definition RestoreAttention :: "gtime \<Rightarrow> AttentionUndo \<Rightarrow> Instance \<Rightarrow> Instance" where
  "RestoreAttention now u i =
     (if i_stateEpoch i \<noteq> undo_epoch u then i
      else touchLocked now (dropAttentionIfStoppedLocked (i\<lparr>i_attention := undo_previous u\<rparr>)))"

definition AttentionAnsweredByWork :: "gtime \<Rightarrow> 64 word \<Rightarrow> Instance \<Rightarrow> gtime option \<times> Instance" where
  "AttentionAnsweredByWork now epoch i =
     (case i_attention i of
        None \<Rightarrow> (None, i)
      | Some a \<Rightarrow>
          if epoch < att_setEpoch a then (None, i)
          else
            (let (answered, a') = attentionAnsweredByWorkLocked now a
             in if answered then (Some (att_SetAt a), i)
                else (None, touchLocked now (i\<lparr>i_attention := Some a'\<rparr>))))"

definition SettleAttentionAfterReattach :: "gtime \<Rightarrow> Instance \<Rightarrow> Instance" where
  "SettleAttentionAfterReattach now i =
     (if i_attention i \<noteq> None \<and> attentionStoppedLocked i
      then touchLocked now (i\<lparr>i_attention := None\<rparr>) else i)"

text \<open>The two mirrors of a client's row copy what the daemon's snapshot says; both report a change.\<close>

definition sameAttention :: "Attention option \<Rightarrow> Attention option \<Rightarrow> bool" where
  "sameAttention a b =
     (case (a, b) of
        (Some x, Some y) \<Rightarrow>
          att_Reason x = att_Reason y \<and> att_SetAt x = att_SetAt y \<and> att_SeenIdle x = att_SeenIdle y \<and>
          att_IdleSince x = att_IdleSince y
      | (None, None) \<Rightarrow> True
      | _ \<Rightarrow> False)"

definition ReconcileAttention :: "Attention option \<Rightarrow> Instance \<Rightarrow> bool \<times> Instance" where
  "ReconcileAttention a i =
     (if sameAttention (i_attention i) a then (False, i) else (True, i\<lparr>i_attention := a\<rparr>))"

subsection \<open>The kill tombstone\<close>

definition noRestoreWait :: LostRestoreWait where
  "noRestoreWait = \<lparr>lrw_Attempts = 0, lrw_Error = []\<rparr>"

definition MarkUserKilled :: "gtime \<Rightarrow> Instance \<Rightarrow> Instance" where
  "MarkUserKilled now i =
     (let (lv, op, resetAt) = lifecycleStateLocked i;
          i1 = (if \<not> i_userKilled i
                then touchLocked now
                  (i\<lparr>i_runtimeEvidenceGeneration := i_runtimeEvidenceGeneration i + 1, i_userKilled := True,
                     i_lostRestoreWait := noRestoreWait, i_attention := None\<rparr>)
                else i)
      in noteStateChangeLocked now lv op resetAt (i1\<lparr>i_inFlightOp := OpNone\<rparr>))"

definition ReconcileUserKilledSnapshot :: "gtime \<Rightarrow> bool \<Rightarrow> Instance \<Rightarrow> bool \<times> Instance" where
  "ReconcileUserKilledSnapshot now userKilled i =
     (let (lv, op, resetAt) = lifecycleStateLocked i;
          adopt = (userKilled \<and> \<not> i_userKilled i);
          i1 = (if adopt
                then touchLocked now
                  (i\<lparr>i_runtimeEvidenceGeneration := i_runtimeEvidenceGeneration i + 1, i_userKilled := True,
                     i_lostRestoreWait := noRestoreWait\<rparr>)
                else i);
          i2 = (if adopt \<and> i_inFlightOp i1 \<noteq> OpKilling then i1\<lparr>i_inFlightOp := OpNone\<rparr> else i1)
      in (adopt, noteStateChangeLocked now lv op resetAt i2))"

subsection \<open>Gates that read the two axes\<close>

definition ShownArchived :: "Instance \<Rightarrow> bool" where
  "ShownArchived i \<longleftrightarrow> i_liveness i = LiveArchived \<and> i_inFlightOp i \<noteq> OpRestoring"

definition IsResting :: "Instance \<Rightarrow> bool" where
  "IsResting i \<longleftrightarrow> i_liveness i = LiveArchived \<or> i_liveness i = LiveLost \<or> i_liveness i = LiveDead"

text \<open>
  \<open>reserved\<close>, \<open>startupUnknown\<close>, \<open>unreachable\<close> and \<open>pruned\<close> are the reserved-title test and the
  instance's \<^verbatim>\<open>startupStateUnknown\<close>, \<^verbatim>\<open>unreachableDataLocked() != nil\<close> and
  \<^verbatim>\<open>!prune.prunedAt.IsZero()\<close>.
\<close>

definition Instance_LifecycleAction ::
  "bool \<Rightarrow> bool \<Rightarrow> bool \<Rightarrow> bool \<Rightarrow> Instance \<Rightarrow> LifecycleAction" where
  "Instance_LifecycleAction reserved startupUnknown unreachable pruned i =
     lifecycleActionFor (i_ID i) reserved (i_liveness i) (i_inFlightOp i) startupUnknown
       (i_userKilled i) (i_pendingAccountSwap i \<noteq> None) unreachable pruned"

definition Instance_CanKill :: "Instance \<Rightarrow> bool" where
  "Instance_CanKill i = canKillFor (i_ID i) (i_inFlightOp i)"

datatype serveBlocked = BlockedArchived | BlockedTeardown

definition WebTabServeBlocked :: "Instance \<Rightarrow> serveBlocked option" where
  "WebTabServeBlocked i =
     (if i_liveness i = LiveArchived then Some BlockedArchived
      else if i_inFlightOp i = OpArchiving \<or> i_inFlightOp i = OpKilling then Some BlockedTeardown
      else None)"

definition teardownExpected :: "Instance \<Rightarrow> bool" where
  "teardownExpected i \<longleftrightarrow> i_userKilled i \<or> opIsTeardown (i_inFlightOp i)"

datatype spawnBlocked = SpawnArchived | SpawnTeardown | SpawnSwap | SpawnRebuild

definition tabSpawnBlockedLocked :: "Instance \<Rightarrow> spawnBlocked option" where
  "tabSpawnBlockedLocked i =
     (if i_liveness i = LiveArchived then Some SpawnArchived
      else if i_inFlightOp i = OpArchiving \<or> i_inFlightOp i = OpKilling then Some SpawnTeardown
      else if i_accountSwapLaunch i \<or> i_pendingAccountSwap i \<noteq> None then Some SpawnSwap
      else if i_rebuildTeardownPending i then Some SpawnRebuild
      else None)"

end
