(* ===== verification/Session_Lemmas.thy ===== *)
theory Session_Lemmas
  imports Session_Transition
begin

text \<open>
  The library of lemmas on the session lifecycle: what each sub-function leaves alone, the
  inversion of \<^const>\<open>transitionLocked\<close> into a refused call or one admitted edge, the state
  epoch as a counter of state changes, and the attention invariant over every operation of
  the instance, by the \<^verbatim>\<open>guarded_ops\<close> interface.
\<close>

subsection \<open>Vocabulary\<close>

abbreviation axesOf :: "Instance \<Rightarrow> stateAxes" where
  "axesOf i \<equiv> axes (i_liveness i) (i_inFlightOp i)"

text \<open>When an edge ends the run: exactly these conditions, and it never reopens one.\<close>

definition runEndsAt :: "gtime \<Rightarrow> edgeSpec \<Rightarrow> transitionKind \<Rightarrow> stateAxes \<Rightarrow> stateAxes \<Rightarrow> Instance \<Rightarrow> bool" where
  "runEndsAt now spec kind from to i \<longleftrightarrow>
     (kind = tkConfirmLive \<and> ax_op from = OpRestoring \<and> i_agentRuntimeReplaced i) \<or>
     es_run spec = runEnds \<or>
     (es_run spec = runEndsOnIdleEdge \<and> ax_liveness to = LiveReady \<and>
      \<not> owesMissionDeliveryLocked i \<and> \<not> taskRunAwaitingTurnLocked now i \<and>
      (ax_liveness from \<noteq> LiveReady \<or> i_taskRunIdleEdgeHeld i \<or> i_taskRunTurnGateHeld i))"

text \<open>Running the chokepoint over timed events.\<close>

definition transitionStep :: "Instance \<Rightarrow> gtime \<times> TransitionEvent \<Rightarrow> Instance" where
  "transitionStep i te = snd (transitionLocked (fst te) (snd te) i)"

fun stateChanges :: "Instance \<Rightarrow> (gtime \<times> TransitionEvent) list \<Rightarrow> nat" where
  "stateChanges i [] = 0"
| "stateChanges i (te # tes) =
     (if lifecycleStateLocked (transitionStep i te) = lifecycleStateLocked i then 0 else 1) +
     stateChanges (transitionStep i te) tes"

definition stoppedLiveness :: "Liveness \<Rightarrow> bool" where
  "stoppedLiveness lv \<longleftrightarrow> lv \<in> {LiveArchived, LiveLost, LiveDead, LiveLimitReached}"

text \<open>No agent can answer: the session is not live, or a kill has committed.\<close>

definition noAgent :: "Instance \<Rightarrow> bool" where
  "noAgent i \<longleftrightarrow> i_userKilled i \<or> stoppedLiveness (i_liveness i)"

definition attentionInv :: "Instance \<Rightarrow> bool" where
  "attentionInv i \<longleftrightarrow> (i_attention i \<noteq> None \<longrightarrow> \<not> noAgent i)"

text \<open>Every operation on the lifecycle state, as one datatype of calls.\<close>

datatype lifecycleCall =
    CallTransition TransitionEvent
  | CallSetArchived
  | CallSetStatus Status
  | CallSetAttention string
  | CallClearAttention gtime
  | CallRestoreAttention AttentionUndo
  | CallAttentionAnsweredByWork "64 word"
  | CallSettleAttention
  | CallSetLimitReached gtime string LimitBanner
  | CallSetLimitReachedAtEpoch gtime string LimitBanner "64 word"
  | CallSetLimitResetAt gtime
  | CallReparkLimit gtime
  | CallRestoreLiveness Liveness
  | CallClearLimitReached
  | CallRecordTaskRunTurn gtime "64 word"
  | CallMarkUserKilled
  | CallReconcileUserKilled bool
  | CallReconcileAttention "Attention option"

fun lifecycleStep :: "(string \<Rightarrow> bool) \<Rightarrow> Instance \<Rightarrow> gtime \<times> lifecycleCall \<Rightarrow> Instance" where
  "lifecycleStep blank i (now, CallTransition ev) = snd (transitionLocked now ev i)"
| "lifecycleStep blank i (now, CallSetArchived) = SetArchived now i"
| "lifecycleStep blank i (now, CallSetStatus s) = setStatusLocked now s i"
| "lifecycleStep blank i (now, CallSetAttention r) =
     (case SetAttention now r i of Inl _ \<Rightarrow> i | Inr (_, i') \<Rightarrow> i')"
| "lifecycleStep blank i (now, CallClearAttention t) =
     (case ClearAttention now t i of None \<Rightarrow> i | Some (_, i') \<Rightarrow> i')"
| "lifecycleStep blank i (now, CallRestoreAttention u) = RestoreAttention now u i"
| "lifecycleStep blank i (now, CallAttentionAnsweredByWork ep) = snd (AttentionAnsweredByWork now ep i)"
| "lifecycleStep blank i (now, CallSettleAttention) = SettleAttentionAfterReattach now i"
| "lifecycleStep blank i (now, CallSetLimitReached r e b) = SetLimitReachedAtEvidence now r e b i"
| "lifecycleStep blank i (now, CallSetLimitReachedAtEpoch r e b ep) =
     snd (SetLimitReachedAtEpoch blank now r e b ep i)"
| "lifecycleStep blank i (now, CallSetLimitResetAt r) = SetLimitResetAt now r i"
| "lifecycleStep blank i (now, CallReparkLimit r) = snd (ReparkLimitUnderResumeFence now r i)"
| "lifecycleStep blank i (now, CallRestoreLiveness l) = snd (RestoreLivenessUnderResumeFence now l i)"
| "lifecycleStep blank i (now, CallClearLimitReached) = ClearLimitReached now i"
| "lifecycleStep blank i (now, CallRecordTaskRunTurn t ep) = snd (RecordTaskRunTurnAtEpoch now t ep i)"
| "lifecycleStep blank i (now, CallMarkUserKilled) = MarkUserKilled now i"
| "lifecycleStep blank i (now, CallReconcileUserKilled k) = snd (ReconcileUserKilledSnapshot now k i)"
| "lifecycleStep blank i (now, CallReconcileAttention a) = snd (ReconcileAttention a i)"

text \<open>
  What a client owes the two mirrors of the daemon's snapshot: it mirrors a request only onto a row that has
  an agent to answer it, and the tombstone only onto a row without a request.
\<close>

definition mirrorOk :: "Instance \<Rightarrow> gtime \<times> lifecycleCall \<Rightarrow> bool" where
  "mirrorOk i tc =
     (case snd tc of
        CallReconcileAttention a \<Rightarrow> a \<noteq> None \<longrightarrow> \<not> noAgent i
      | CallReconcileUserKilled killed \<Rightarrow> killed \<longrightarrow> i_attention i = None
      | _ \<Rightarrow> True)"

text \<open>The events that end an operation, operation by operation.\<close>

fun endedBy :: "InFlightOp \<Rightarrow> transitionKind set" where
  "endedBy OpNone = {}"
| "endedBy OpCreating = {tkConfirmLive}"
| "endedBy OpKilling = {tkRevertKill}"
| "endedBy OpArchiving = {tkCancelArchive, tkCommitArchive, tkAbortArchiveToLost}"
| "endedBy OpRestoring = {tkConfirmLive, tkAbortRestoreToLost}"
| "endedBy OpReplacing = {tkCommitHandoff, tkParkHandoff, tkAbortHandoff}"
| "endedBy OpRespawning = {}"

definition beginsOp :: "transitionKind \<Rightarrow> bool" where
  "beginsOp k \<longleftrightarrow> k \<in> {tkBeginCreate, tkBeginArchive, tkBeginRestore, tkMarkRestoring, tkBeginHandoff, tkBeginRespawn}"

text \<open>An archive and a restore, begun and settled.\<close>

definition archiveFlow :: "gtime \<Rightarrow> gtime \<Rightarrow> Instance \<Rightarrow> Instance" where
  "archiveFlow t1 t2 i = run_ops transitionStep i [(t1, BeginArchive), (t2, CommitArchive)]"

definition restoreFlow :: "gtime \<Rightarrow> gtime \<Rightarrow> TransitionEvent \<Rightarrow> Instance \<Rightarrow> Instance" where
  "restoreFlow t1 t2 outcome i = run_ops transitionStep i [(t1, BeginRestore), (t2, outcome)]"

text \<open>The order on limit rows: the same claim, neither instant rewound.\<close>

definition rowKey :: "AccountLimitObservation \<Rightarrow> string \<times> string \<times> bool" where
  "rowKey r = (alo_Agent r, alo_Account r, isZero (alo_ResetAt r))"

definition rowLe :: "AccountLimitObservation \<Rightarrow> AccountLimitObservation \<Rightarrow> bool" where
  "rowLe r r' \<longleftrightarrow> rowKey r = rowKey r' \<and> alo_ResetAt r \<le> alo_ResetAt r' \<and>
     alo_ObservedAt r \<le> alo_ObservedAt r'"

definition rowsGrow :: "Instance \<Rightarrow> Instance \<Rightarrow> bool" where
  "rowsGrow i j \<longleftrightarrow> list_all2 rowLe (i_accountLimitObservations i)
       (take (length (i_accountLimitObservations i)) (i_accountLimitObservations j))"

definition rowsDistinct :: "Instance \<Rightarrow> bool" where
  "rowsDistinct i \<longleftrightarrow> distinct (map rowKey (i_accountLimitObservations i))"

definition rowsStep :: "Instance \<Rightarrow> Instance \<Rightarrow> bool" where
  "rowsStep i j \<longleftrightarrow> rowsGrow i j \<and> (rowsDistinct i \<longrightarrow> rowsDistinct j)"

subsection \<open>What each part leaves alone\<close>

lemma touchLocked_frame [simp]:
  "i_ID (touchLocked now i) = i_ID i"
  "i_Account (touchLocked now i) = i_Account i"
  "i_agentName (touchLocked now i) = i_agentName i"
  "i_liveness (touchLocked now i) = i_liveness i"
  "i_inFlightOp (touchLocked now i) = i_inFlightOp i"
  "i_started (touchLocked now i) = i_started i"
  "i_stateEpoch (touchLocked now i) = i_stateEpoch i"
  "i_userKilled (touchLocked now i) = i_userKilled i"
  "i_attention (touchLocked now i) = i_attention i"
  "i_agentModelChange (touchLocked now i) = i_agentModelChange i"
  "i_archivedAt (touchLocked now i) = i_archivedAt i"
  "i_rebuildTeardownPending (touchLocked now i) = i_rebuildTeardownPending i"
  "i_taskRunActive (touchLocked now i) = i_taskRunActive i"
  "i_limitResetAt (touchLocked now i) = i_limitResetAt i"
  "i_limitResetEvidence (touchLocked now i) = i_limitResetEvidence i"
  "i_accountLimitObservations (touchLocked now i) = i_accountLimitObservations i"
  "i_pendingAccountSwap (touchLocked now i) = i_pendingAccountSwap i"
  "i_archiveSettled (touchLocked now i) = i_archiveSettled i"
  "i_limitAgent (touchLocked now i) = i_limitAgent i"
  "i_limitAccount (touchLocked now i) = i_limitAccount i"
  by (simp_all add: touchLocked_def)

lemma assignLivenessLocked_frame [simp]:
  "i_ID (assignLivenessLocked l i) = i_ID i"
  "i_Account (assignLivenessLocked l i) = i_Account i"
  "i_agentName (assignLivenessLocked l i) = i_agentName i"
  "i_inFlightOp (assignLivenessLocked l i) = i_inFlightOp i"
  "i_started (assignLivenessLocked l i) = i_started i"
  "i_stateEpoch (assignLivenessLocked l i) = i_stateEpoch i"
  "i_userKilled (assignLivenessLocked l i) = i_userKilled i"
  "i_attention (assignLivenessLocked l i) = i_attention i"
  "i_agentModelChange (assignLivenessLocked l i) = i_agentModelChange i"
  "i_archivedAt (assignLivenessLocked l i) = i_archivedAt i"
  "i_rebuildTeardownPending (assignLivenessLocked l i) = i_rebuildTeardownPending i"
  "i_taskRunActive (assignLivenessLocked l i) = i_taskRunActive i"
  "i_limitResetAt (assignLivenessLocked l i) = i_limitResetAt i"
  "i_limitResetEvidence (assignLivenessLocked l i) = i_limitResetEvidence i"
  "i_accountLimitObservations (assignLivenessLocked l i) = i_accountLimitObservations i"
  "i_pendingAccountSwap (assignLivenessLocked l i) = i_pendingAccountSwap i"
  "i_archiveSettled (assignLivenessLocked l i) = i_archiveSettled i"
  "i_limitAgent (assignLivenessLocked l i) = i_limitAgent i"
  "i_limitAccount (assignLivenessLocked l i) = i_limitAccount i"
  by (simp_all add: assignLivenessLocked_def)

lemma noteAttentionLivenessLocked_frame [simp]:
  "i_ID (noteAttentionLivenessLocked now i) = i_ID i"
  "i_Account (noteAttentionLivenessLocked now i) = i_Account i"
  "i_agentName (noteAttentionLivenessLocked now i) = i_agentName i"
  "i_liveness (noteAttentionLivenessLocked now i) = i_liveness i"
  "i_inFlightOp (noteAttentionLivenessLocked now i) = i_inFlightOp i"
  "i_started (noteAttentionLivenessLocked now i) = i_started i"
  "i_stateEpoch (noteAttentionLivenessLocked now i) = i_stateEpoch i"
  "i_userKilled (noteAttentionLivenessLocked now i) = i_userKilled i"
  "i_agentModelChange (noteAttentionLivenessLocked now i) = i_agentModelChange i"
  "i_archivedAt (noteAttentionLivenessLocked now i) = i_archivedAt i"
  "i_rebuildTeardownPending (noteAttentionLivenessLocked now i) = i_rebuildTeardownPending i"
  "i_taskRunActive (noteAttentionLivenessLocked now i) = i_taskRunActive i"
  "i_limitResetAt (noteAttentionLivenessLocked now i) = i_limitResetAt i"
  "i_limitResetEvidence (noteAttentionLivenessLocked now i) = i_limitResetEvidence i"
  "i_accountLimitObservations (noteAttentionLivenessLocked now i) = i_accountLimitObservations i"
  "i_pendingAccountSwap (noteAttentionLivenessLocked now i) = i_pendingAccountSwap i"
  "i_archiveSettled (noteAttentionLivenessLocked now i) = i_archiveSettled i"
  "i_limitAgent (noteAttentionLivenessLocked now i) = i_limitAgent i"
  "i_limitAccount (noteAttentionLivenessLocked now i) = i_limitAccount i"
  by (simp_all add: noteAttentionLivenessLocked_def split: option.splits Liveness.splits prod.splits)

lemma noteStateChangeLocked_frame [simp]:
  "i_ID (noteStateChangeLocked now lv op r i) = i_ID i"
  "i_Account (noteStateChangeLocked now lv op r i) = i_Account i"
  "i_agentName (noteStateChangeLocked now lv op r i) = i_agentName i"
  "i_liveness (noteStateChangeLocked now lv op r i) = i_liveness i"
  "i_inFlightOp (noteStateChangeLocked now lv op r i) = i_inFlightOp i"
  "i_started (noteStateChangeLocked now lv op r i) = i_started i"
  "i_userKilled (noteStateChangeLocked now lv op r i) = i_userKilled i"
  "i_agentModelChange (noteStateChangeLocked now lv op r i) = i_agentModelChange i"
  "i_archivedAt (noteStateChangeLocked now lv op r i) = i_archivedAt i"
  "i_rebuildTeardownPending (noteStateChangeLocked now lv op r i) = i_rebuildTeardownPending i"
  "i_taskRunActive (noteStateChangeLocked now lv op r i) = i_taskRunActive i"
  "i_limitResetAt (noteStateChangeLocked now lv op r i) = i_limitResetAt i"
  "i_limitResetEvidence (noteStateChangeLocked now lv op r i) = i_limitResetEvidence i"
  "i_accountLimitObservations (noteStateChangeLocked now lv op r i) = i_accountLimitObservations i"
  "i_pendingAccountSwap (noteStateChangeLocked now lv op r i) = i_pendingAccountSwap i"
  "i_archiveSettled (noteStateChangeLocked now lv op r i) = i_archiveSettled i"
  "i_limitAgent (noteStateChangeLocked now lv op r i) = i_limitAgent i"
  "i_limitAccount (noteStateChangeLocked now lv op r i) = i_limitAccount i"
  by (simp_all add: noteStateChangeLocked_def Let_def)

lemma captureAdoptionBaselineLocked_frame [simp]:
  "i_ID (captureAdoptionBaselineLocked i) = i_ID i"
  "i_Account (captureAdoptionBaselineLocked i) = i_Account i"
  "i_agentName (captureAdoptionBaselineLocked i) = i_agentName i"
  "i_liveness (captureAdoptionBaselineLocked i) = i_liveness i"
  "i_inFlightOp (captureAdoptionBaselineLocked i) = i_inFlightOp i"
  "i_started (captureAdoptionBaselineLocked i) = i_started i"
  "i_stateEpoch (captureAdoptionBaselineLocked i) = i_stateEpoch i"
  "i_userKilled (captureAdoptionBaselineLocked i) = i_userKilled i"
  "i_attention (captureAdoptionBaselineLocked i) = i_attention i"
  "i_agentModelChange (captureAdoptionBaselineLocked i) = i_agentModelChange i"
  "i_archivedAt (captureAdoptionBaselineLocked i) = i_archivedAt i"
  "i_rebuildTeardownPending (captureAdoptionBaselineLocked i) = i_rebuildTeardownPending i"
  "i_taskRunActive (captureAdoptionBaselineLocked i) = i_taskRunActive i"
  "i_limitResetAt (captureAdoptionBaselineLocked i) = i_limitResetAt i"
  "i_limitResetEvidence (captureAdoptionBaselineLocked i) = i_limitResetEvidence i"
  "i_accountLimitObservations (captureAdoptionBaselineLocked i) = i_accountLimitObservations i"
  "i_pendingAccountSwap (captureAdoptionBaselineLocked i) = i_pendingAccountSwap i"
  "i_archiveSettled (captureAdoptionBaselineLocked i) = i_archiveSettled i"
  "i_limitAgent (captureAdoptionBaselineLocked i) = i_limitAgent i"
  "i_limitAccount (captureAdoptionBaselineLocked i) = i_limitAccount i"
  by (simp_all add: captureAdoptionBaselineLocked_def)

lemma endRunsLocked_frame [simp]:
  "i_ID (endRunsLocked now i) = i_ID i"
  "i_Account (endRunsLocked now i) = i_Account i"
  "i_agentName (endRunsLocked now i) = i_agentName i"
  "i_liveness (endRunsLocked now i) = i_liveness i"
  "i_inFlightOp (endRunsLocked now i) = i_inFlightOp i"
  "i_started (endRunsLocked now i) = i_started i"
  "i_stateEpoch (endRunsLocked now i) = i_stateEpoch i"
  "i_userKilled (endRunsLocked now i) = i_userKilled i"
  "i_attention (endRunsLocked now i) = i_attention i"
  "i_agentModelChange (endRunsLocked now i) = i_agentModelChange i"
  "i_archivedAt (endRunsLocked now i) = i_archivedAt i"
  "i_rebuildTeardownPending (endRunsLocked now i) = i_rebuildTeardownPending i"
  "i_limitResetAt (endRunsLocked now i) = i_limitResetAt i"
  "i_limitResetEvidence (endRunsLocked now i) = i_limitResetEvidence i"
  "i_accountLimitObservations (endRunsLocked now i) = i_accountLimitObservations i"
  "i_pendingAccountSwap (endRunsLocked now i) = i_pendingAccountSwap i"
  "i_archiveSettled (endRunsLocked now i) = i_archiveSettled i"
  "i_limitAgent (endRunsLocked now i) = i_limitAgent i"
  "i_limitAccount (endRunsLocked now i) = i_limitAccount i"
  by (simp_all add: endRunsLocked_def)

lemma endTaskRunInterruptedLocked_frame [simp]:
  "i_ID (endTaskRunInterruptedLocked now i) = i_ID i"
  "i_Account (endTaskRunInterruptedLocked now i) = i_Account i"
  "i_agentName (endTaskRunInterruptedLocked now i) = i_agentName i"
  "i_liveness (endTaskRunInterruptedLocked now i) = i_liveness i"
  "i_inFlightOp (endTaskRunInterruptedLocked now i) = i_inFlightOp i"
  "i_started (endTaskRunInterruptedLocked now i) = i_started i"
  "i_stateEpoch (endTaskRunInterruptedLocked now i) = i_stateEpoch i"
  "i_userKilled (endTaskRunInterruptedLocked now i) = i_userKilled i"
  "i_attention (endTaskRunInterruptedLocked now i) = i_attention i"
  "i_agentModelChange (endTaskRunInterruptedLocked now i) = i_agentModelChange i"
  "i_archivedAt (endTaskRunInterruptedLocked now i) = i_archivedAt i"
  "i_rebuildTeardownPending (endTaskRunInterruptedLocked now i) = i_rebuildTeardownPending i"
  "i_limitResetAt (endTaskRunInterruptedLocked now i) = i_limitResetAt i"
  "i_limitResetEvidence (endTaskRunInterruptedLocked now i) = i_limitResetEvidence i"
  "i_accountLimitObservations (endTaskRunInterruptedLocked now i) = i_accountLimitObservations i"
  "i_pendingAccountSwap (endTaskRunInterruptedLocked now i) = i_pendingAccountSwap i"
  "i_archiveSettled (endTaskRunInterruptedLocked now i) = i_archiveSettled i"
  "i_limitAgent (endTaskRunInterruptedLocked now i) = i_limitAgent i"
  "i_limitAccount (endTaskRunInterruptedLocked now i) = i_limitAccount i"
  by (simp_all add: endTaskRunInterruptedLocked_def Let_def)

lemma idleEdgeEffect_frame [simp]:
  "i_ID (idleEdgeEffect now a b i) = i_ID i"
  "i_Account (idleEdgeEffect now a b i) = i_Account i"
  "i_agentName (idleEdgeEffect now a b i) = i_agentName i"
  "i_liveness (idleEdgeEffect now a b i) = i_liveness i"
  "i_inFlightOp (idleEdgeEffect now a b i) = i_inFlightOp i"
  "i_started (idleEdgeEffect now a b i) = i_started i"
  "i_stateEpoch (idleEdgeEffect now a b i) = i_stateEpoch i"
  "i_userKilled (idleEdgeEffect now a b i) = i_userKilled i"
  "i_attention (idleEdgeEffect now a b i) = i_attention i"
  "i_agentModelChange (idleEdgeEffect now a b i) = i_agentModelChange i"
  "i_archivedAt (idleEdgeEffect now a b i) = i_archivedAt i"
  "i_rebuildTeardownPending (idleEdgeEffect now a b i) = i_rebuildTeardownPending i"
  "i_limitResetAt (idleEdgeEffect now a b i) = i_limitResetAt i"
  "i_limitResetEvidence (idleEdgeEffect now a b i) = i_limitResetEvidence i"
  "i_accountLimitObservations (idleEdgeEffect now a b i) = i_accountLimitObservations i"
  "i_pendingAccountSwap (idleEdgeEffect now a b i) = i_pendingAccountSwap i"
  "i_archiveSettled (idleEdgeEffect now a b i) = i_archiveSettled i"
  "i_limitAgent (idleEdgeEffect now a b i) = i_limitAgent i"
  "i_limitAccount (idleEdgeEffect now a b i) = i_limitAccount i"
  by (simp_all add: idleEdgeEffect_def)

lemma applyRunEffect_frame [simp]:
  "i_ID (applyRunEffect now spec k a b i) = i_ID i"
  "i_Account (applyRunEffect now spec k a b i) = i_Account i"
  "i_agentName (applyRunEffect now spec k a b i) = i_agentName i"
  "i_liveness (applyRunEffect now spec k a b i) = i_liveness i"
  "i_inFlightOp (applyRunEffect now spec k a b i) = i_inFlightOp i"
  "i_started (applyRunEffect now spec k a b i) = i_started i"
  "i_stateEpoch (applyRunEffect now spec k a b i) = i_stateEpoch i"
  "i_userKilled (applyRunEffect now spec k a b i) = i_userKilled i"
  "i_attention (applyRunEffect now spec k a b i) = i_attention i"
  "i_agentModelChange (applyRunEffect now spec k a b i) = i_agentModelChange i"
  "i_archivedAt (applyRunEffect now spec k a b i) = i_archivedAt i"
  "i_rebuildTeardownPending (applyRunEffect now spec k a b i) = i_rebuildTeardownPending i"
  "i_limitResetAt (applyRunEffect now spec k a b i) = i_limitResetAt i"
  "i_limitResetEvidence (applyRunEffect now spec k a b i) = i_limitResetEvidence i"
  "i_accountLimitObservations (applyRunEffect now spec k a b i) = i_accountLimitObservations i"
  "i_pendingAccountSwap (applyRunEffect now spec k a b i) = i_pendingAccountSwap i"
  "i_archiveSettled (applyRunEffect now spec k a b i) = i_archiveSettled i"
  "i_limitAgent (applyRunEffect now spec k a b i) = i_limitAgent i"
  "i_limitAccount (applyRunEffect now spec k a b i) = i_limitAccount i"
  by (simp_all add: applyRunEffect_def split: runEffect.splits)

lemma applyLimitReset_frame [simp]:
  "i_ID (applyLimitReset e ev i) = i_ID i"
  "i_Account (applyLimitReset e ev i) = i_Account i"
  "i_agentName (applyLimitReset e ev i) = i_agentName i"
  "i_liveness (applyLimitReset e ev i) = i_liveness i"
  "i_inFlightOp (applyLimitReset e ev i) = i_inFlightOp i"
  "i_started (applyLimitReset e ev i) = i_started i"
  "i_stateEpoch (applyLimitReset e ev i) = i_stateEpoch i"
  "i_userKilled (applyLimitReset e ev i) = i_userKilled i"
  "i_attention (applyLimitReset e ev i) = i_attention i"
  "i_agentModelChange (applyLimitReset e ev i) = i_agentModelChange i"
  "i_archivedAt (applyLimitReset e ev i) = i_archivedAt i"
  "i_rebuildTeardownPending (applyLimitReset e ev i) = i_rebuildTeardownPending i"
  "i_taskRunActive (applyLimitReset e ev i) = i_taskRunActive i"
  "i_accountLimitObservations (applyLimitReset e ev i) = i_accountLimitObservations i"
  "i_pendingAccountSwap (applyLimitReset e ev i) = i_pendingAccountSwap i"
  "i_archiveSettled (applyLimitReset e ev i) = i_archiveSettled i"
  "i_limitAgent (applyLimitReset e ev i) = i_limitAgent i"
  "i_limitAccount (applyLimitReset e ev i) = i_limitAccount i"
  by (simp_all add: applyLimitReset_def split: limitResetEffect.splits)

lemma attributeLimitIdentityLocked_frame [simp]:
  "i_ID (attributeLimitIdentityLocked now i) = i_ID i"
  "i_Account (attributeLimitIdentityLocked now i) = i_Account i"
  "i_agentName (attributeLimitIdentityLocked now i) = i_agentName i"
  "i_liveness (attributeLimitIdentityLocked now i) = i_liveness i"
  "i_inFlightOp (attributeLimitIdentityLocked now i) = i_inFlightOp i"
  "i_started (attributeLimitIdentityLocked now i) = i_started i"
  "i_stateEpoch (attributeLimitIdentityLocked now i) = i_stateEpoch i"
  "i_userKilled (attributeLimitIdentityLocked now i) = i_userKilled i"
  "i_attention (attributeLimitIdentityLocked now i) = i_attention i"
  "i_agentModelChange (attributeLimitIdentityLocked now i) = i_agentModelChange i"
  "i_archivedAt (attributeLimitIdentityLocked now i) = i_archivedAt i"
  "i_rebuildTeardownPending (attributeLimitIdentityLocked now i) = i_rebuildTeardownPending i"
  "i_taskRunActive (attributeLimitIdentityLocked now i) = i_taskRunActive i"
  "i_limitResetAt (attributeLimitIdentityLocked now i) = i_limitResetAt i"
  "i_limitResetEvidence (attributeLimitIdentityLocked now i) = i_limitResetEvidence i"
  "i_accountLimitObservations (attributeLimitIdentityLocked now i) = i_accountLimitObservations i"
  "i_pendingAccountSwap (attributeLimitIdentityLocked now i) = i_pendingAccountSwap i"
  "i_archiveSettled (attributeLimitIdentityLocked now i) = i_archiveSettled i"
  by (simp_all add: attributeLimitIdentityLocked_def attributeLimitIdentityAsLocked_def Let_def)

lemma recordAccountLimitObservationLocked_frame [simp]:
  "i_ID (recordAccountLimitObservationLocked now ag ac r w i) = i_ID i"
  "i_Account (recordAccountLimitObservationLocked now ag ac r w i) = i_Account i"
  "i_agentName (recordAccountLimitObservationLocked now ag ac r w i) = i_agentName i"
  "i_liveness (recordAccountLimitObservationLocked now ag ac r w i) = i_liveness i"
  "i_inFlightOp (recordAccountLimitObservationLocked now ag ac r w i) = i_inFlightOp i"
  "i_started (recordAccountLimitObservationLocked now ag ac r w i) = i_started i"
  "i_stateEpoch (recordAccountLimitObservationLocked now ag ac r w i) = i_stateEpoch i"
  "i_userKilled (recordAccountLimitObservationLocked now ag ac r w i) = i_userKilled i"
  "i_attention (recordAccountLimitObservationLocked now ag ac r w i) = i_attention i"
  "i_agentModelChange (recordAccountLimitObservationLocked now ag ac r w i) = i_agentModelChange i"
  "i_archivedAt (recordAccountLimitObservationLocked now ag ac r w i) = i_archivedAt i"
  "i_rebuildTeardownPending (recordAccountLimitObservationLocked now ag ac r w i) = i_rebuildTeardownPending i"
  "i_taskRunActive (recordAccountLimitObservationLocked now ag ac r w i) = i_taskRunActive i"
  "i_limitResetAt (recordAccountLimitObservationLocked now ag ac r w i) = i_limitResetAt i"
  "i_limitResetEvidence (recordAccountLimitObservationLocked now ag ac r w i) = i_limitResetEvidence i"
  "i_pendingAccountSwap (recordAccountLimitObservationLocked now ag ac r w i) = i_pendingAccountSwap i"
  "i_archiveSettled (recordAccountLimitObservationLocked now ag ac r w i) = i_archiveSettled i"
  "i_limitAgent (recordAccountLimitObservationLocked now ag ac r w i) = i_limitAgent i"
  "i_limitAccount (recordAccountLimitObservationLocked now ag ac r w i) = i_limitAccount i"
  by (simp_all add: recordAccountLimitObservationLocked_def recordAccountLimitObservationAtLocked_def Let_def split: option.splits prod.splits)

lemma applyStarted_frame [simp]:
  "i_ID (applyStarted now e i) = i_ID i"
  "i_Account (applyStarted now e i) = i_Account i"
  "i_agentName (applyStarted now e i) = i_agentName i"
  "i_liveness (applyStarted now e i) = i_liveness i"
  "i_inFlightOp (applyStarted now e i) = i_inFlightOp i"
  "i_stateEpoch (applyStarted now e i) = i_stateEpoch i"
  "i_userKilled (applyStarted now e i) = i_userKilled i"
  "i_attention (applyStarted now e i) = i_attention i"
  "i_agentModelChange (applyStarted now e i) = i_agentModelChange i"
  "i_archivedAt (applyStarted now e i) = i_archivedAt i"
  "i_rebuildTeardownPending (applyStarted now e i) = i_rebuildTeardownPending i"
  "i_taskRunActive (applyStarted now e i) = i_taskRunActive i"
  "i_limitResetAt (applyStarted now e i) = i_limitResetAt i"
  "i_limitResetEvidence (applyStarted now e i) = i_limitResetEvidence i"
  "i_accountLimitObservations (applyStarted now e i) = i_accountLimitObservations i"
  "i_pendingAccountSwap (applyStarted now e i) = i_pendingAccountSwap i"
  "i_archiveSettled (applyStarted now e i) = i_archiveSettled i"
  "i_limitAgent (applyStarted now e i) = i_limitAgent i"
  "i_limitAccount (applyStarted now e i) = i_limitAccount i"
  by (simp_all add: applyStarted_def split: startedEffect.splits)

lemma clearAgentModelChangeLocked_frame [simp]:
  "i_ID (clearAgentModelChangeLocked i) = i_ID i"
  "i_Account (clearAgentModelChangeLocked i) = i_Account i"
  "i_agentName (clearAgentModelChangeLocked i) = i_agentName i"
  "i_liveness (clearAgentModelChangeLocked i) = i_liveness i"
  "i_inFlightOp (clearAgentModelChangeLocked i) = i_inFlightOp i"
  "i_started (clearAgentModelChangeLocked i) = i_started i"
  "i_stateEpoch (clearAgentModelChangeLocked i) = i_stateEpoch i"
  "i_userKilled (clearAgentModelChangeLocked i) = i_userKilled i"
  "i_attention (clearAgentModelChangeLocked i) = i_attention i"
  "i_archivedAt (clearAgentModelChangeLocked i) = i_archivedAt i"
  "i_rebuildTeardownPending (clearAgentModelChangeLocked i) = i_rebuildTeardownPending i"
  "i_taskRunActive (clearAgentModelChangeLocked i) = i_taskRunActive i"
  "i_limitResetAt (clearAgentModelChangeLocked i) = i_limitResetAt i"
  "i_limitResetEvidence (clearAgentModelChangeLocked i) = i_limitResetEvidence i"
  "i_accountLimitObservations (clearAgentModelChangeLocked i) = i_accountLimitObservations i"
  "i_pendingAccountSwap (clearAgentModelChangeLocked i) = i_pendingAccountSwap i"
  "i_archiveSettled (clearAgentModelChangeLocked i) = i_archiveSettled i"
  "i_limitAgent (clearAgentModelChangeLocked i) = i_limitAgent i"
  "i_limitAccount (clearAgentModelChangeLocked i) = i_limitAccount i"
  by (simp_all add: clearAgentModelChangeLocked_def)

lemma prepareEdge_frame [simp]:
  "i_ID (prepareEdge k a b i) = i_ID i"
  "i_Account (prepareEdge k a b i) = i_Account i"
  "i_agentName (prepareEdge k a b i) = i_agentName i"
  "i_liveness (prepareEdge k a b i) = i_liveness i"
  "i_inFlightOp (prepareEdge k a b i) = i_inFlightOp i"
  "i_started (prepareEdge k a b i) = i_started i"
  "i_stateEpoch (prepareEdge k a b i) = i_stateEpoch i"
  "i_userKilled (prepareEdge k a b i) = i_userKilled i"
  "i_attention (prepareEdge k a b i) = i_attention i"
  "i_agentModelChange (prepareEdge k a b i) = i_agentModelChange i"
  "i_archivedAt (prepareEdge k a b i) = i_archivedAt i"
  "i_rebuildTeardownPending (prepareEdge k a b i) = i_rebuildTeardownPending i"
  "i_taskRunActive (prepareEdge k a b i) = i_taskRunActive i"
  "i_limitResetAt (prepareEdge k a b i) = i_limitResetAt i"
  "i_limitResetEvidence (prepareEdge k a b i) = i_limitResetEvidence i"
  "i_accountLimitObservations (prepareEdge k a b i) = i_accountLimitObservations i"
  "i_pendingAccountSwap (prepareEdge k a b i) = i_pendingAccountSwap i"
  "i_limitAgent (prepareEdge k a b i) = i_limitAgent i"
  "i_limitAccount (prepareEdge k a b i) = i_limitAccount i"
  "i_pendingHandoffMission (prepareEdge k a b i) = i_pendingHandoffMission i"
  "i_agentRuntimeReplaced (prepareEdge k a b i) = i_agentRuntimeReplaced i"
  "i_taskRunIdleEdgeHeld (prepareEdge k a b i) = i_taskRunIdleEdgeHeld i"
  "i_taskRunTurnGateHeld (prepareEdge k a b i) = i_taskRunTurnGateHeld i"
  "i_taskRunPromptAttemptAt (prepareEdge k a b i) = i_taskRunPromptAttemptAt i"
  "i_taskRunTurnObservedAt (prepareEdge k a b i) = i_taskRunTurnObservedAt i"
  "i_lastPaneChurnAt (prepareEdge k a b i) = i_lastPaneChurnAt i"
  "i_paneObservationStreakAt (prepareEdge k a b i) = i_paneObservationStreakAt i"
  "i_paneObservationExpiresAt (prepareEdge k a b i) = i_paneObservationExpiresAt i"
  by (simp_all add: prepareEdge_def Let_def)

lemma prepareEdge_gates [simp]:
  "owesMissionDeliveryLocked (prepareEdge k a b i) = owesMissionDeliveryLocked i"
  "taskRunAwaitingTurnLocked now (prepareEdge k a b i) = taskRunAwaitingTurnLocked now i"
  by (simp_all add: owesMissionDeliveryLocked_def pendingAccountSwapDeliveryUnconfirmedLocked_def
      taskRunAwaitingTurnLocked_def taskRunQuietReleaseLocked_def taskRunSilentReleaseLocked_def
      paneObservationLiveLocked_def)

lemma applyKindEffects_frame [simp]:
  "i_ID (applyKindEffects now k a b i) = i_ID i"
  "i_Account (applyKindEffects now k a b i) = i_Account i"
  "i_agentName (applyKindEffects now k a b i) = i_agentName i"
  "i_liveness (applyKindEffects now k a b i) = i_liveness i"
  "i_inFlightOp (applyKindEffects now k a b i) = i_inFlightOp i"
  "i_started (applyKindEffects now k a b i) = i_started i"
  "i_stateEpoch (applyKindEffects now k a b i) = i_stateEpoch i"
  "i_userKilled (applyKindEffects now k a b i) = i_userKilled i"
  "i_rebuildTeardownPending (applyKindEffects now k a b i) = i_rebuildTeardownPending i"
  "i_taskRunActive (applyKindEffects now k a b i) = i_taskRunActive i"
  "i_limitResetAt (applyKindEffects now k a b i) = i_limitResetAt i"
  "i_limitResetEvidence (applyKindEffects now k a b i) = i_limitResetEvidence i"
  "i_accountLimitObservations (applyKindEffects now k a b i) = i_accountLimitObservations i"
  "i_pendingAccountSwap (applyKindEffects now k a b i) = i_pendingAccountSwap i"
  "i_limitAgent (applyKindEffects now k a b i) = i_limitAgent i"
  "i_limitAccount (applyKindEffects now k a b i) = i_limitAccount i"
  by (simp_all add: applyKindEffects_def Let_def)


lemmas edge_specs =
  spec_BeginRespawn_def spec_BeginCreate_def spec_ConfirmLive_def spec_ObserveLiveness_def
  spec_BeginKill_def spec_RevertKill_def spec_BeginArchive_def spec_CancelArchive_def
  spec_CommitArchive_def spec_AbortArchiveToLost_def spec_BeginRestore_def
  spec_BeginRestoreFenced_def spec_AbortRestoreToLost_def spec_MarkRestoring_def
  spec_BeginHandoff_def spec_CommitHandoff_def spec_ParkHandoff_def spec_AbortHandoff_def
  spec_ClearOp_def

lemma applyEdge_op [simp]:
  "i_inFlightOp (applyEdge now spec ev i) = ax_op (target spec (axesOf i) ev)"
  by (simp add: applyEdge_def Let_def)

lemma applyEdge_liveness:
  "i_liveness (applyEdge now spec ev i) =
     (let l = ax_liveness (target spec (axesOf i) ev) in
      if l = i_liveness i then i_liveness i
      else if i_rebuildTeardownPending i \<and> l \<noteq> LiveLost \<and> l \<noteq> LiveArchived then LiveLost
      else l)"
  by (simp add: applyEdge_def Let_def assignLivenessLocked_def)

lemma applyEdge_frame [simp]:
  "i_ID (applyEdge now spec ev i) = i_ID i"
  "i_Account (applyEdge now spec ev i) = i_Account i"
  "i_agentName (applyEdge now spec ev i) = i_agentName i"
  "i_userKilled (applyEdge now spec ev i) = i_userKilled i"
  "i_rebuildTeardownPending (applyEdge now spec ev i) = i_rebuildTeardownPending i"
  "i_pendingAccountSwap (applyEdge now spec ev i) = i_pendingAccountSwap i"
  by (simp_all add: applyEdge_def Let_def)

lemma applyEdge_limitResetAt:
  "i_limitResetAt (applyEdge now spec ev i) =
     (case es_limitReset spec of limitResetKeep \<Rightarrow> i_limitResetAt i
      | limitResetClear \<Rightarrow> zeroTime | limitResetFromEvent \<Rightarrow> ev_resetAt ev)"
  by (simp add: applyEdge_def Let_def applyLimitReset_def split: limitResetEffect.splits)

lemma noteStateChangeLocked_epoch:
  "i_stateEpoch (noteStateChangeLocked now lv op r i) =
     (if i_liveness i = lv \<and> i_inFlightOp i = op \<and> i_limitResetAt i = r
      then i_stateEpoch i else i_stateEpoch i + 1)"
  by (simp add: noteStateChangeLocked_def Let_def)

lemma applyEdge_epoch:
  "i_stateEpoch (applyEdge now spec ev i) =
     (if lifecycleStateLocked (applyEdge now spec ev i) = lifecycleStateLocked i
      then i_stateEpoch i else i_stateEpoch i + 1)"
  by (simp add: applyEdge_def Let_def noteStateChangeLocked_epoch lifecycleStateLocked_def)

lemma applyEdge_started:
  "i_started (applyEdge now spec ev i) =
     (case es_started spec of startedUnchanged \<Rightarrow> i_started i | startedSet \<Rightarrow> True
      | startedClear \<Rightarrow> False)"
  by (simp add: applyEdge_def Let_def applyStarted_def split: startedEffect.splits)

lemma endRunsLocked_active [simp]: "\<not> i_taskRunActive (endRunsLocked now i)"
  by (simp add: endRunsLocked_def)

lemma endTaskRunInterruptedLocked_active [simp]:
  "\<not> i_taskRunActive (endTaskRunInterruptedLocked now i)"
  by (simp add: endTaskRunInterruptedLocked_def Let_def)

lemma idleEdgeEffect_active:
  "i_taskRunActive (idleEdgeEffect now a b i) \<longleftrightarrow>
     i_taskRunActive i \<and>
     \<not> (b = LiveReady \<and> \<not> owesMissionDeliveryLocked i \<and> \<not> taskRunAwaitingTurnLocked now i \<and>
        (a \<noteq> LiveReady \<or> i_taskRunIdleEdgeHeld i \<or> i_taskRunTurnGateHeld i))"
  by (simp add: idleEdgeEffect_def)

lemma applyRunEffect_active:
  "i_taskRunActive (applyRunEffect now spec k a b i) \<longleftrightarrow>
     i_taskRunActive i \<and> \<not> runEndsAt now spec k a b i"
  by (cases "es_run spec")
     (simp_all add: applyRunEffect_def runGateActiveLocked_def runEndsAt_def idleEdgeEffect_active)

lemma applyEdge_taskRunActive:
  "i_taskRunActive (applyEdge now spec ev i) \<longleftrightarrow>
     i_taskRunActive i \<and>
     \<not> runEndsAt now spec (ev_kind ev) (axesOf i) (target spec (axesOf i) ev) i"
  by (simp add: applyEdge_def Let_def applyRunEffect_active) (simp add: runEndsAt_def)

lemma coerceObservation_kind [simp]: "ev_kind (coerceObservation i ev) = ev_kind ev"
  by (simp add: coerceObservation_def)

text \<open>Inversion of the chokepoint: a call either changes nothing or applies one admitted edge.\<close>

lemma transitionCore_cases:
  assumes core: "transitionCore now ev i = (e, i')"
  obtains (refused) err where "e = Some err" "i' = i"
    | (yielded) spec where "transitionTable (ev_kind ev) = Some spec" "\<not> allowedFrom spec (axesOf i)"
        "yieldWhenBlocked spec" "e = None" "i' = i"
    | (applied) spec where "transitionTable (ev_kind ev) = Some spec" "allowedFrom spec (axesOf i)"
        "e = None" "i' = applyEdge now spec (coerceObservation i ev) i"
proof (cases "ev_kind ev = tkBeginArchive \<and>
    (i_archiveCheckpointSealed i \<or> i_pendingAccountSwap i \<noteq> None)")
  case True
  with core show ?thesis by (auto simp: transitionCore_def intro: refused split: if_splits)
next
  case False
  then have eq: "transitionCore now ev i =
      (case transitionTable (ev_kind ev) of
         None \<Rightarrow> (Some (ErrUnknownEvent (ev_kind ev) (axesOf i)), i)
       | Some spec \<Rightarrow>
           (if \<not> allowedFrom spec (axesOf i) then
              (if yieldWhenBlocked spec then (None, i)
               else (Some (ErrEdgeNotAllowed (ev_kind ev) (axesOf i)), i))
            else (None, applyEdge now spec (coerceObservation i ev) i)))"
    unfolding transitionCore_def Let_def coerceObservation_kind by auto
  show ?thesis
  proof (cases "transitionTable (ev_kind ev)")
    case None
    with eq core show ?thesis by (auto intro: refused)
  next
    case (Some spec)
    with eq core show ?thesis
      by (cases "allowedFrom spec (axesOf i)"; cases "yieldWhenBlocked spec")
         (auto intro: refused yielded applied)
  qed
qed

lemma keepAttention_frame [simp]:
  "i_liveness (keepAttention k i) = i_liveness i"
  "i_inFlightOp (keepAttention k i) = i_inFlightOp i"
  "i_limitResetAt (keepAttention k i) = i_limitResetAt i"
  "i_stateEpoch (keepAttention k i) = i_stateEpoch i"
  "i_started (keepAttention k i) = i_started i"
  "i_taskRunActive (keepAttention k i) = i_taskRunActive i"
  "i_userKilled (keepAttention k i) = i_userKilled i"
  "i_rebuildTeardownPending (keepAttention k i) = i_rebuildTeardownPending i"
  by (simp_all add: keepAttention_def)

lemma keepAttention_same [simp]: "keepAttention (i_attention i) i = i"
  by (simp add: keepAttention_def)

lemma transitionLocked_cases:
  assumes "transitionLocked now ev i = (e, i')"
  obtains (unchanged) "i' = i" "e \<noteq> None \<or> ev_epochScoped ev \<and> i_stateEpoch i \<noteq> ev_epoch ev \<or>
        (\<exists>spec. transitionTable (ev_kind ev) = Some spec \<and> yieldWhenBlocked spec \<and>
                \<not> allowedFrom spec (axesOf i))"
    | (applied) spec where "transitionTable (ev_kind ev) = Some spec" "allowedFrom spec (axesOf i)"
        "e = None"
        "i' = (if ev_kind ev = tkObserveLiveness \<and> ev_churnOnly ev \<and> ev_lv ev = LiveRunning
               then keepAttention (i_attention i) (applyEdge now spec (coerceObservation i ev) i)
               else applyEdge now spec (coerceObservation i ev) i)"
        "ev_epochScoped ev \<longrightarrow> i_stateEpoch i = ev_epoch ev"
proof (cases "ev_epochScoped ev \<and> i_stateEpoch i \<noteq> ev_epoch ev")
  case True
  with assms show ?thesis by (intro unchanged) (auto simp: transitionLocked_def)
next
  case False
  obtain e1 j where core: "transitionCore now ev i = (e1, j)" by fastforce
  with False assms have ej: "e = e1"
    "i' = (if ev_kind ev = tkObserveLiveness \<and> ev_churnOnly ev \<and> ev_lv ev = LiveRunning
           then keepAttention (i_attention i) j else j)"
    by (auto simp: transitionLocked_def split: if_splits)
  from core show ?thesis
  proof (cases rule: transitionCore_cases)
    case (refused err)
    with ej show ?thesis by (intro unchanged) auto
  next
    case (yielded spec)
    with ej show ?thesis by (intro unchanged) auto
  next
    case (applied spec)
    with ej False show ?thesis by (intro that(2) [of spec]) auto
  qed
qed

subsection \<open>The state epoch counts state changes\<close>

lemma lifecycleState_keep [simp]:
  "lifecycleStateLocked (keepAttention k i) = lifecycleStateLocked i"
  by (simp add: lifecycleStateLocked_def)

lemma transitionLocked_epoch:
  assumes "transitionLocked now ev i = (e, i')"
  shows "i_stateEpoch i' =
    (if lifecycleStateLocked i' = lifecycleStateLocked i then i_stateEpoch i else i_stateEpoch i + 1)"
  using assms
proof (cases rule: transitionLocked_cases)
  case unchanged
  then show ?thesis by simp
next
  case (applied spec)
  then show ?thesis
    using applyEdge_epoch [of now spec "coerceObservation i ev" i] by (simp split: if_splits)
qed

lemma transitionStep_epoch:
  "i_stateEpoch (transitionStep i te) =
    (if lifecycleStateLocked (transitionStep i te) = lifecycleStateLocked i
     then i_stateEpoch i else i_stateEpoch i + 1)"
  using transitionLocked_epoch [of "fst te" "snd te" i] by (simp add: transitionStep_def prod_eq_iff)

lemma epoch_counts_changes:
  "i_stateEpoch (run_ops transitionStep i tes) = i_stateEpoch i + of_nat (stateChanges i tes)"
  by (induction tes arbitrary: i) (auto simp: transitionStep_epoch)

lemma stateChanges_le: "stateChanges i tes \<le> length tes"
proof (induction tes arbitrary: i)
  case (Cons te tes)
  from Cons.IH [of "transitionStep i te"] show ?case by simp
qed simp

lemma of_nat_word64_nonzero:
  assumes "0 < n" and "n < 2 ^ 64"
  shows "(of_nat n :: 64 word) \<noteq> 0"
proof
  assume "(of_nat n :: 64 word) = 0"
  then have "unat (0 :: 64 word) = n" using assms(2) by (intro of_nat_inverse) simp_all
  with assms(1) show False by simp
qed

subsection \<open>No attention request on a stopped session\<close>

definition stoppedInv :: "Instance \<Rightarrow> bool" where
  "stoppedInv i \<longleftrightarrow> (i_attention i \<noteq> None \<longrightarrow> \<not> stoppedLiveness (i_liveness i))"

definition killedInv :: "Instance \<Rightarrow> bool" where
  "killedInv i \<longleftrightarrow> (i_attention i \<noteq> None \<longrightarrow> \<not> i_userKilled i)"

lemma attentionInv_parts: "attentionInv i \<longleftrightarrow> stoppedInv i \<and> killedInv i"
  by (auto simp: attentionInv_def stoppedInv_def killedInv_def noAgent_def)

lemma noteAttention_inv: "stoppedInv (noteAttentionLivenessLocked now i)"
  by (auto simp: stoppedInv_def stoppedLiveness_def noteAttentionLivenessLocked_def
      split: option.splits Liveness.splits prod.splits)

lemma noteAttention_frame_None: "i_attention i = None \<Longrightarrow> i_attention (noteAttentionLivenessLocked now i) = None"
  by (simp add: noteAttentionLivenessLocked_def)

lemma noteStateChangeLocked_inv:
  assumes "i_liveness i = lv \<Longrightarrow> stoppedInv i"
  shows "stoppedInv (noteStateChangeLocked now lv op r i)"
  using assms noteAttention_inv [of now "i\<lparr>i_stateEpoch := i_stateEpoch i + 1,
      i_runtimeEvidenceGeneration := i_runtimeEvidenceGeneration i + 1\<rparr>"]
  by (auto simp: noteStateChangeLocked_def Let_def stoppedInv_def)

text \<open>The invariant depends on two fields only.\<close>

lemma stoppedInv_cong:
  "i_attention i = i_attention j \<Longrightarrow> i_liveness i = i_liveness j \<Longrightarrow> stoppedInv i = stoppedInv j"
  by (simp add: stoppedInv_def)

lemma applyKindEffects_inv: "stoppedInv i \<Longrightarrow> stoppedInv (applyKindEffects now k a b i)"
  by (simp add: stoppedInv_def applyKindEffects_def Let_def)

lemma applyStarted_inv: "stoppedInv (applyStarted now e i) = stoppedInv i"
  by (rule stoppedInv_cong) simp_all

lemma applyEdge_inv:
  assumes "stoppedInv i"
  shows "stoppedInv (applyEdge now spec ev i)"
  unfolding applyEdge_def Let_def
  using assms
  by (intro applyKindEffects_inv applyStarted_inv [THEN iffD2] noteStateChangeLocked_inv)
     (auto simp: stoppedInv_def assignLivenessLocked_def split: if_splits)

lemma keepAttention_inv: "stoppedInv i \<Longrightarrow> stoppedInv (keepAttention k i)"
  by (simp add: stoppedInv_def keepAttention_def stoppedLiveness_def)

lemma transitionLocked_stoppedInv:
  assumes "transitionLocked now ev i = (e, i')" and "stoppedInv i"
  shows "stoppedInv i'"
  using assms by (cases rule: transitionLocked_cases) (auto intro: applyEdge_inv keepAttention_inv)

lemma setLimitReachedLocked_inv:
  "stoppedInv i \<Longrightarrow> stoppedInv (snd (setLimitReachedLocked now r ev b i))"
  by (auto simp: setLimitReachedLocked_def lifecycleStateLocked_def Let_def assignLivenessLocked_def
      intro!: noteStateChangeLocked_inv) (auto simp: stoppedInv_def)

lemma applyDegradedResightLocked_inv:
  "stoppedInv i \<Longrightarrow> stoppedInv (snd (applyDegradedResightLocked blank now b i))"
  by (auto simp: applyDegradedResightLocked_def lifecycleStateLocked_def Let_def
      intro!: noteStateChangeLocked_inv setLimitReachedLocked_inv) (auto simp: stoppedInv_def)

lemma SetLimitReachedAtEpoch_inv:
  "stoppedInv i \<Longrightarrow> stoppedInv (snd (SetLimitReachedAtEpoch blank now r ev b ep i))"
  by (auto simp: SetLimitReachedAtEpoch_def
      intro: setLimitReachedLocked_inv applyDegradedResightLocked_inv)

lemma lifecycleStep_stoppedInv:
  assumes "stoppedInv i" "mirrorOk i (now, c)"
  shows "stoppedInv (lifecycleStep blank i (now, c))"
proof (cases c)
  case (CallTransition ev)
  with assms show ?thesis
    using transitionLocked_stoppedInv [of now ev i] by (simp add: prod_eq_iff)
next
  case (CallSetStatus s)
  with assms show ?thesis
    by (cases s) (auto simp: setStatusLocked_def lifecycleStateLocked_def assignLivenessLocked_def
      intro!: noteStateChangeLocked_inv, auto simp: stoppedInv_def)
next
  case CallSetArchived
  with assms show ?thesis
    by (auto simp: SetArchived_def lifecycleStateLocked_def assignLivenessLocked_def Let_def
      intro!: noteStateChangeLocked_inv) (auto simp: stoppedInv_def)
next
  case (CallSetAttention r)
  with assms show ?thesis
    by (auto simp: SetAttention_def attentionStoppedLocked_def stoppedInv_def stoppedLiveness_def
        Let_def split: Liveness.splits)
next
  case (CallRestoreAttention u)
  with assms show ?thesis
    by (auto simp: RestoreAttention_def dropAttentionIfStoppedLocked_def attentionStoppedLocked_def
        stoppedInv_def stoppedLiveness_def split: Liveness.splits)
next
  case (CallAttentionAnsweredByWork ep)
  with assms show ?thesis
    by (auto simp: AttentionAnsweredByWork_def stoppedInv_def Let_def split: option.splits prod.splits)
next
  case (CallRestoreLiveness l)
  with assms show ?thesis
    by (auto simp: RestoreLivenessUnderResumeFence_def lifecycleStateLocked_def
      intro!: noteStateChangeLocked_inv)
next
  case (CallReparkLimit r)
  with assms show ?thesis
    by (auto simp: ReparkLimitUnderResumeFence_def lifecycleStateLocked_def
      intro!: noteStateChangeLocked_inv) (auto simp: stoppedInv_def)
next
  case CallClearLimitReached
  with assms show ?thesis
    by (auto simp: ClearLimitReached_def lifecycleStateLocked_def assignLivenessLocked_def
      intro!: noteStateChangeLocked_inv)
next
  case (CallSetLimitResetAt r)
  with assms show ?thesis
    by (auto simp: SetLimitResetAt_def lifecycleStateLocked_def intro!: noteStateChangeLocked_inv)
       (auto simp: stoppedInv_def)
next
  case (CallRecordTaskRunTurn t ep)
  with assms show ?thesis
    by (simp add: RecordTaskRunTurnAtEpoch_def recordTaskRunTurnLocked_def stoppedInv_def)
next
  case CallMarkUserKilled
  with assms show ?thesis
    by (auto simp: MarkUserKilled_def lifecycleStateLocked_def Let_def intro!: noteStateChangeLocked_inv)
       (auto simp: stoppedInv_def)
next
  case (CallReconcileUserKilled k)
  with assms show ?thesis
    by (auto simp: ReconcileUserKilledSnapshot_def lifecycleStateLocked_def Let_def intro!: noteStateChangeLocked_inv)
       (auto simp: stoppedInv_def)
next
  case (CallReconcileAttention a)
  with assms show ?thesis
    by (cases a) (auto simp: ReconcileAttention_def mirrorOk_def noAgent_def stoppedInv_def)
qed (use assms(1) in \<open>auto simp: ClearAttention_def SettleAttentionAfterReattach_def stoppedInv_def
       SetLimitReachedAtEvidence_def
       setLimitReachedLocked_inv [unfolded stoppedInv_def]
       SetLimitReachedAtEpoch_inv [unfolded stoppedInv_def] split: option.splits\<close>)

text \<open>A row that keeps its tombstone and gets no request keeps the other half.\<close>

lemma killedInv_frame:
  "i_userKilled j = i_userKilled i \<Longrightarrow> (i_attention i = None \<Longrightarrow> i_attention j = None) \<Longrightarrow> killedInv i \<Longrightarrow> killedInv j"
  by (auto simp: killedInv_def)

lemma noteState_None [simp]: "i_attention i = None \<Longrightarrow> i_attention (noteStateChangeLocked now lv op r i) = None"
  by (simp add: noteStateChangeLocked_def Let_def noteAttentionLivenessLocked_def)

lemma applyEdge_None [simp]: "i_attention i = None \<Longrightarrow> i_attention (applyEdge now spec ev i) = None"
  by (simp add: applyEdge_def Let_def applyKindEffects_def)

lemma transitionLocked_killedInv: "killedInv i \<Longrightarrow> killedInv (snd (transitionLocked now ev i))"
  by (cases rule: transitionLocked_cases [OF prod.collapse [of "transitionLocked now ev i", symmetric]])
     (auto simp: keepAttention_def elim!: killedInv_frame [rotated 2])

lemma setLimitReachedLocked_killedInv: "killedInv i \<Longrightarrow> killedInv (snd (setLimitReachedLocked now r ev b i))"
  by (erule killedInv_frame [rotated 2]) (simp_all add: setLimitReachedLocked_def lifecycleStateLocked_def Let_def)

lemma applyDegradedResightLocked_killedInv:
  "killedInv i \<Longrightarrow> killedInv (snd (applyDegradedResightLocked blank now b i))"
  by (auto simp: applyDegradedResightLocked_def lifecycleStateLocked_def setLimitReachedLocked_killedInv
      intro: killedInv_frame)

lemma SetLimitReachedAtEpoch_killedInv:
  "killedInv i \<Longrightarrow> killedInv (snd (SetLimitReachedAtEpoch blank now r ev b ep i))"
  by (simp add: SetLimitReachedAtEpoch_def setLimitReachedLocked_killedInv applyDegradedResightLocked_killedInv)

lemma lifecycleStep_killedInv:
  assumes "killedInv i" "mirrorOk i (now, c)"
  shows "killedInv (lifecycleStep blank i (now, c))"
proof (cases c)
  case (CallTransition ev)
  with assms show ?thesis by (simp add: transitionLocked_killedInv)
next
  case (CallSetStatus s)
  show ?thesis unfolding CallSetStatus
    by (rule killedInv_frame [OF _ _ assms(1)]; cases s) (simp_all add: setStatusLocked_def lifecycleStateLocked_def)
next
  case (CallSetAttention r)
  with assms show ?thesis by (auto simp: SetAttention_def attentionStoppedLocked_def killedInv_def Let_def)
next
  case (CallRestoreAttention u)
  with assms show ?thesis
    by (auto simp: RestoreAttention_def dropAttentionIfStoppedLocked_def attentionStoppedLocked_def killedInv_def)
next
  case (CallAttentionAnsweredByWork ep)
  with assms show ?thesis
    by (auto simp: AttentionAnsweredByWork_def killedInv_def Let_def split: option.splits prod.splits)
next
  case CallMarkUserKilled
  have "i_attention (lifecycleStep blank i (now, c)) = None \<or> i_userKilled i" unfolding CallMarkUserKilled
    by (simp add: MarkUserKilled_def lifecycleStateLocked_def Let_def)
  then show ?thesis
  proof
    assume "i_userKilled i"
    with assms(1) have "i_attention i = None" by (auto simp: killedInv_def)
    then show ?thesis unfolding CallMarkUserKilled killedInv_def
      by (simp add: MarkUserKilled_def lifecycleStateLocked_def Let_def)
  qed (simp add: killedInv_def)
next
  case (CallReconcileUserKilled k)
  show ?thesis
  proof (cases k)
    case True
    then have "i_attention i = None" using assms(2) CallReconcileUserKilled by (simp add: mirrorOk_def)
    then show ?thesis unfolding CallReconcileUserKilled killedInv_def
      by (simp add: ReconcileUserKilledSnapshot_def lifecycleStateLocked_def Let_def)
  next
    case False
    then show ?thesis unfolding CallReconcileUserKilled
      by (intro killedInv_frame [OF _ _ assms(1)]) (simp_all add: ReconcileUserKilledSnapshot_def lifecycleStateLocked_def Let_def)
  qed
next
  case (CallReconcileAttention a)
  with assms show ?thesis
    by (cases a) (auto simp: ReconcileAttention_def mirrorOk_def noAgent_def killedInv_def)
qed (use assms(1) in \<open>auto simp: ClearAttention_def SettleAttentionAfterReattach_def SetLimitReachedAtEvidence_def
       setLimitReachedLocked_killedInv SetLimitReachedAtEpoch_killedInv SetArchived_def SetLimitResetAt_def
       ReparkLimitUnderResumeFence_def RestoreLivenessUnderResumeFence_def ClearLimitReached_def
       RecordTaskRunTurnAtEpoch_def recordTaskRunTurnLocked_def clearAgentModelChangeLocked_def
       lifecycleStateLocked_def Let_def split: option.splits intro: killedInv_frame\<close>)

interpretation attention: guarded_ops "lifecycleStep blank" attentionInv mirrorOk
  by unfold_locales
     (metis lifecycleStep_stoppedInv lifecycleStep_killedInv attentionInv_parts surj_pair)

subsection \<open>Admitted and refused events\<close>

lemma transition_admitted:
  assumes "transitionTable (ev_kind ev) = Some spec" "allowedFrom spec (axesOf i)"
    "\<not> ev_epochScoped ev" "\<not> ev_churnOnly ev"
    "ev_kind ev = tkBeginArchive \<Longrightarrow> \<not> i_archiveCheckpointSealed i \<and> i_pendingAccountSwap i = None"
  shows "transitionLocked now ev i = (None, applyEdge now spec (coerceObservation i ev) i)"
proof -
  have "transitionCore now ev i = (None, applyEdge now spec (coerceObservation i ev) i)"
    unfolding transitionCore_def Let_def coerceObservation_kind using assms by auto
  with assms(3,4) show ?thesis by (simp add: transitionLocked_def)
qed

lemma noteState_attention_stopped:
  assumes "i_liveness i \<noteq> lv" and "stoppedLiveness (i_liveness i)"
  shows "i_attention (noteStateChangeLocked now lv op r i) = None"
  using assms by (auto simp: noteStateChangeLocked_def Let_def touchLocked_def
      noteAttentionLivenessLocked_def stoppedLiveness_def split: option.splits)

lemma table_total: "\<exists>spec. transitionTable k = Some spec \<and> es_run spec \<noteq> runEffectUnset"
  by (cases k) (simp_all add: edge_specs)

subsection \<open>One operation at a time\<close>

lemma begin_refused:
  assumes "i_inFlightOp i \<noteq> OpNone" "beginsOp (ev_kind ev)" "\<not> (ev_epochScoped ev \<and> i_stateEpoch i \<noteq> ev_epoch ev)"
  shows "fst (transitionLocked now ev i) \<noteq> None" "snd (transitionLocked now ev i) = i"
proof -
  obtain spec where spec: "transitionTable (ev_kind ev) = Some spec" using table_total by blast
  have "\<not> allowedFrom spec (axesOf i)" "\<not> yieldWhenBlocked spec"
    using assms(1,2) spec by (cases "ev_kind ev"; auto simp: beginsOp_def edge_specs)+
  then have "fst (transitionCore now ev i) \<noteq> None \<and> snd (transitionCore now ev i) = i"
    using spec unfolding transitionCore_def Let_def coerceObservation_kind by auto
  moreover have "ev_kind ev \<noteq> tkObserveLiveness" using assms(2) by (auto simp: beginsOp_def)
  ultimately show "fst (transitionLocked now ev i) \<noteq> None" "snd (transitionLocked now ev i) = i"
    using assms(3) by (auto simp: transitionLocked_def split_beta)
qed

lemma transition_op:
  assumes "i_inFlightOp i \<noteq> OpNone" "i_inFlightOp (snd (transitionLocked now ev i)) \<noteq> i_inFlightOp i"
  shows "if ev_kind ev = tkBeginKill then i_inFlightOp (snd (transitionLocked now ev i)) = OpKilling
    else i_inFlightOp (snd (transitionLocked now ev i)) = OpNone \<and>
      (ev_kind ev \<in> endedBy (i_inFlightOp i) \<or> ev_kind ev = tkClearOp)"
  using assms
proof (cases rule: transitionLocked_cases [OF prod.collapse [of "transitionLocked now ev i", symmetric]])
  case (2 spec)
  then show ?thesis using assms
    by (cases "ev_kind ev"; cases "i_inFlightOp i") (auto simp: edge_specs split: if_splits)
qed simp

lemma setLimitReached_op [simp]: "i_inFlightOp (snd (setLimitReachedLocked now r ev b i)) = i_inFlightOp i"
  by (simp add: setLimitReachedLocked_def lifecycleStateLocked_def Let_def)

lemma setLimitReachedAtEpoch_op [simp]:
  "i_inFlightOp (snd (SetLimitReachedAtEpoch blank now r ev b ep i)) = i_inFlightOp i"
  by (simp add: SetLimitReachedAtEpoch_def applyDegradedResightLocked_def lifecycleStateLocked_def)

text \<open>What the calls beside the chokepoint do to the operation in flight.\<close>

lemma lifecycleStep_op:
  "case c of
     CallTransition ev \<Rightarrow> True
   | CallSetArchived \<Rightarrow> i_inFlightOp (lifecycleStep blank i (now, c)) = OpNone
   | CallSetStatus st \<Rightarrow> i_inFlightOp (lifecycleStep blank i (now, c)) = opForStatus st
   | CallMarkUserKilled \<Rightarrow> i_inFlightOp (lifecycleStep blank i (now, c)) = OpNone
   | CallReconcileUserKilled killed \<Rightarrow>
       i_inFlightOp (lifecycleStep blank i (now, c)) = i_inFlightOp i \<or>
       killed \<and> i_inFlightOp i \<noteq> OpKilling \<and> i_inFlightOp (lifecycleStep blank i (now, c)) = OpNone
   | _ \<Rightarrow> i_inFlightOp (lifecycleStep blank i (now, c)) = i_inFlightOp i"
proof (cases c)
  case (CallSetStatus st)
  then show ?thesis by (cases st) (simp_all add: setStatusLocked_def lifecycleStateLocked_def)
qed (auto simp: SetArchived_def lifecycleStateLocked_def SetAttention_def ClearAttention_def RestoreAttention_def
    dropAttentionIfStoppedLocked_def AttentionAnsweredByWork_def SettleAttentionAfterReattach_def
    SetLimitReachedAtEvidence_def SetLimitResetAt_def ReparkLimitUnderResumeFence_def
    RestoreLivenessUnderResumeFence_def ClearLimitReached_def RecordTaskRunTurnAtEpoch_def
    recordTaskRunTurnLocked_def clearAgentModelChangeLocked_def MarkUserKilled_def ReconcileUserKilledSnapshot_def
    ReconcileAttention_def Let_def split: option.splits sum.splits prod.splits)

subsection \<open>How a row becomes Archived\<close>

lemma transitionCore_archives:
  assumes "i_liveness i \<noteq> LiveArchived"
  shows "i_liveness (snd (transitionCore now ev i)) = LiveArchived \<longleftrightarrow>
    (ev_kind ev = tkCommitArchive \<and> i_inFlightOp i = OpArchiving) \<or>
    (ev_kind ev = tkObserveLiveness \<and> ev_lv ev = LiveArchived \<and> \<not> i_rebuildTeardownPending i)"
  using assms
  by (cases "ev_kind ev")
     (simp_all add: transitionCore_def Let_def edge_specs applyEdge_liveness coerceObservation_def)

lemma setLimitReached_not_archived [simp]:
  "i_liveness i \<noteq> LiveArchived \<Longrightarrow> i_liveness (snd (setLimitReachedLocked now r ev b i)) \<noteq> LiveArchived"
  by (simp add: setLimitReachedLocked_def lifecycleStateLocked_def Let_def assignLivenessLocked_def)

lemma setLimitReachedAtEpoch_not_archived [simp]:
  "i_liveness i \<noteq> LiveArchived \<Longrightarrow> i_liveness (snd (SetLimitReachedAtEpoch blank now r ev b ep i)) \<noteq> LiveArchived"
  by (simp add: SetLimitReachedAtEpoch_def applyDegradedResightLocked_def lifecycleStateLocked_def)

lemma lifecycleStep_archives:
  assumes "i_liveness i \<noteq> LiveArchived"
  shows "case c of
     CallTransition ev \<Rightarrow> True
   | CallSetArchived \<Rightarrow> i_liveness (lifecycleStep blank i (now, c)) = LiveArchived
   | CallSetStatus st \<Rightarrow> i_liveness (lifecycleStep blank i (now, c)) = LiveArchived \<longleftrightarrow> st = Archived
   | CallRestoreLiveness l \<Rightarrow> i_liveness (lifecycleStep blank i (now, c)) = LiveArchived \<longleftrightarrow>
       l = LiveArchived \<and> i_inFlightOp i = OpRespawning
   | _ \<Rightarrow> i_liveness (lifecycleStep blank i (now, c)) \<noteq> LiveArchived"
proof (cases c)
  case (CallSetStatus st)
  with assms show ?thesis
    by (cases st) (simp_all add: setStatusLocked_def lifecycleStateLocked_def assignLivenessLocked_def)
qed (use assms in \<open>auto simp: SetArchived_def lifecycleStateLocked_def SetAttention_def ClearAttention_def RestoreAttention_def
    dropAttentionIfStoppedLocked_def AttentionAnsweredByWork_def SettleAttentionAfterReattach_def
    SetLimitReachedAtEvidence_def SetLimitResetAt_def ReparkLimitUnderResumeFence_def
    RestoreLivenessUnderResumeFence_def ClearLimitReached_def RecordTaskRunTurnAtEpoch_def
    recordTaskRunTurnLocked_def clearAgentModelChangeLocked_def MarkUserKilled_def ReconcileUserKilledSnapshot_def
    ReconcileAttention_def assignLivenessLocked_def Let_def split: option.splits sum.splits prod.splits\<close>)

subsection \<open>Archiving and restoring\<close>

lemma archiveFlow_eq:
  assumes "i_inFlightOp i = OpNone" "i_liveness i \<noteq> LiveArchived" "\<not> i_archiveCheckpointSealed i"
    "i_pendingAccountSwap i = None"
  shows "archiveFlow t1 t2 i =
    applyEdge t2 spec_CommitArchive CommitArchive (applyEdge t1 spec_BeginArchive BeginArchive i)"
proof -
  have 1: "transitionLocked t1 BeginArchive i = (None, applyEdge t1 spec_BeginArchive BeginArchive i)"
    using assms transition_admitted [of BeginArchive spec_BeginArchive i t1]
    by (simp add: BeginArchive_def zeroEvent_def spec_BeginArchive_def coerceObservation_def)
  have 2: "transitionLocked t2 CommitArchive j = (None, applyEdge t2 spec_CommitArchive CommitArchive j)"
    if "i_inFlightOp j = OpArchiving" for j
    using that transition_admitted [of CommitArchive spec_CommitArchive j t2]
    by (simp add: CommitArchive_def zeroEvent_def spec_CommitArchive_def coerceObservation_def)
  show ?thesis
    by (simp add: archiveFlow_def transitionStep_def 1 2)
       (simp add: spec_BeginArchive_def 2)
qed

lemma applyKindEffects_commitArchive [simp]:
  "i_archivedAt (applyKindEffects now tkCommitArchive a (axes LiveArchived OpNone) i) = now"
  "i_agentModelChange (applyKindEffects now tkCommitArchive a b i) = None"
  "i_attention (applyKindEffects now tkCommitArchive a b i) = i_attention i"
  "ax_op a = OpArchiving \<Longrightarrow>
     \<not> i_archiveSettled (applyKindEffects now tkCommitArchive a (axes LiveArchived OpNone) i)"
  by (simp_all add: applyKindEffects_def clearAgentModelChangeLocked_def Let_def)

lemma applyStarted_attention [simp]: "i_attention (applyStarted now e i) = i_attention i"
  by (simp add: applyStarted_def touchLocked_def split: startedEffect.splits)

lemma commitArchive_target:
  "ev_kind CommitArchive = tkCommitArchive"
  "target spec_CommitArchive s ev = axes LiveArchived OpNone"
  by (simp_all add: CommitArchive_def zeroEvent_def spec_CommitArchive_def)

lemma applyEdge_commitArchive:
  fixes i now
  defines "j \<equiv> applyEdge now spec_CommitArchive CommitArchive i"
  assumes "i_liveness i \<noteq> LiveArchived" "i_inFlightOp i = OpArchiving"
  shows "i_archivedAt j = now" "i_agentModelChange j = None" "\<not> i_archiveSettled j"
    "i_attention j = None"
  using assms(2,3) unfolding j_def applyEdge_def Let_def commitArchive_target
  by (simp_all add: noteState_attention_stopped stoppedLiveness_def assignLivenessLocked_def)

lemma applyEdge_beginRestore:
  fixes i now
  defines "j \<equiv> applyEdge now spec_BeginRestore BeginRestore i"
  assumes "i_liveness i = LiveArchived" "i_inFlightOp i = OpNone"
  shows "i_liveness j = LiveLost" "i_inFlightOp j = OpRestoring" "i_started j"
    "i_archivedAt j = zeroTime" "i_taskRunActive j = i_taskRunActive i" 
    "i_stateEpoch j = i_stateEpoch i + 1" "i_rebuildTeardownPending j = i_rebuildTeardownPending i"
proof -
  have ev: "ev_kind BeginRestore = tkBeginRestore" by (simp add: BeginRestore_def zeroEvent_def)
  have t: "target spec_BeginRestore s e = axes LiveLost OpRestoring" for s e
    by (simp add: spec_BeginRestore_def)
  show "i_liveness j = LiveLost" "i_inFlightOp j = OpRestoring"
    "i_rebuildTeardownPending j = i_rebuildTeardownPending i" 
    by (simp_all add: j_def applyEdge_liveness assms(2) t)
  show "i_started j" by (simp add: j_def applyEdge_started) (simp add: spec_BeginRestore_def)
  show "i_stateEpoch j = i_stateEpoch i + 1"
    using assms(2,3) by (simp add: j_def applyEdge_epoch lifecycleStateLocked_def t)
  show "i_taskRunActive j = i_taskRunActive i"
    by (simp add: j_def applyEdge_taskRunActive runEndsAt_def ev) (simp add: spec_BeginRestore_def)
  show "i_archivedAt j = zeroTime"
    using assms(2,3) unfolding j_def applyEdge_def Let_def ev t
    by (simp add: applyKindEffects_def Let_def)
qed

lemma restoreFlow_eq:
  assumes "i_inFlightOp i = OpNone" "i_liveness i = LiveArchived"
  shows "restoreFlow t1 t2 e i =
    snd (transitionLocked t2 e (applyEdge t1 spec_BeginRestore BeginRestore i))"
proof -
  have "transitionLocked t1 BeginRestore i = (None, applyEdge t1 spec_BeginRestore BeginRestore i)"
    using assms transition_admitted [of BeginRestore spec_BeginRestore i t1]
    by (simp add: BeginRestore_def zeroEvent_def spec_BeginRestore_def coerceObservation_def)
  then show ?thesis by (simp add: restoreFlow_def transitionStep_def)
qed

lemma applyEdge_archivedAt_live:
  assumes "i_liveness i = LiveLost" "ev_kind ev \<noteq> tkCommitArchive"
  shows "i_archivedAt (applyEdge now spec ev i) = i_archivedAt i"
  using assms unfolding applyEdge_def Let_def
  by (simp add: applyKindEffects_def Let_def clearAgentModelChangeLocked_def)

lemma action_gate:
  "Instance_LifecycleAction reserved unknown unreachable pruned i = LifecycleActionArchive \<Longrightarrow>
     i_inFlightOp i = OpNone \<and> i_liveness i \<noteq> LiveArchived \<and> i_pendingAccountSwap i = None"
  "Instance_LifecycleAction reserved unknown unreachable pruned i = LifecycleActionRestore \<Longrightarrow>
     i_inFlightOp i = OpNone \<and> i_liveness i \<in> {LiveArchived, LiveLost, LiveDead}"
  by (cases "i_inFlightOp i"; cases "i_liveness i";
      simp add: Instance_LifecycleAction_def lifecycleActionFor_def opIsTeardown_def split: if_splits)+

subsection \<open>The limit rows only grow\<close>

lemma retained_key: "isZero a = isZero b \<Longrightarrow> isZero (RetainedAccountLimitReset a b) = isZero a"
  by (auto simp: RetainedAccountLimitReset_def isZero_def)

lemma retained_ge: "isZero a = isZero b \<Longrightarrow> a \<le> RetainedAccountLimitReset a b"
  by (auto simp: RetainedAccountLimitReset_def isZero_def)

lemma rowLe_refl [simp]: "rowLe r r"
  by (simp add: rowLe_def)

lemma rowLe_trans: "rowLe a b \<Longrightarrow> rowLe b c \<Longrightarrow> rowLe a c"
  by (auto simp: rowLe_def)

lemma observeRow_grow:
  "observeRow p ag ac rs wp s xs = Some (ys, w) \<Longrightarrow> list_all2 rowLe xs ys"
proof (induction xs arbitrary: ys w)
  case (Cons x xs)
  then show ?case
    by (auto simp: rowLe_def rowKey_def Let_def retained_key retained_ge list.rel_refl_strong
        split: if_splits)
qed simp

lemma rowLe_keys: "list_all2 rowLe xs ys \<Longrightarrow> map rowKey xs = map rowKey ys"
  by (induction rule: list_all2_induct) (auto simp: rowLe_def)

lemma observeRow_None:
  "observeRow p ag ac rs wp s xs = None \<Longrightarrow> (ag, ac, isZero rs) \<notin> rowKey ` set xs"
  by (induction xs) (auto simp: rowKey_def Let_def split: if_splits)

lemma recordAt_rows:
  "rowsGrow i (recordAccountLimitObservationAtLocked now ag ac rs wp s i) \<and>
   (rowsDistinct i \<longrightarrow> rowsDistinct (recordAccountLimitObservationAtLocked now ag ac rs wp s i))"
proof (cases "ag = [] \<or> ac = []")
  case True
  then show ?thesis
    by (simp add: recordAccountLimitObservationAtLocked_def rowsGrow_def list.rel_refl)
next
  case False
  define sg where "sg = (if isZero s then now else s)"
  show ?thesis
  proof (cases "observeRow (i_pendingAccountSwap i) ag ac rs wp sg (i_accountLimitObservations i)")
    case None
    then show ?thesis using False observeRow_None [OF None]
      by (simp add: recordAccountLimitObservationAtLocked_def rowsGrow_def rowsDistinct_def
          sg_def [symmetric] list.rel_refl rowKey_def image_iff)
  next
    case (Some q)
    obtain ys w where q: "q = (ys, w)" by fastforce
    note g = observeRow_grow [OF Some [unfolded q]]
    show ?thesis using False Some rowLe_keys [OF g] g list_all2_lengthD [OF g]
      by (simp add: recordAccountLimitObservationAtLocked_def rowsGrow_def rowsDistinct_def q
          sg_def [symmetric] list.rel_refl)
  qed
qed

lemma rowsStep_same: "i_accountLimitObservations j = i_accountLimitObservations i \<Longrightarrow> rowsStep i j"
  by (simp add: rowsStep_def rowsGrow_def rowsDistinct_def list.rel_refl)

lemma rowsStep_record:
  assumes "i_accountLimitObservations k = i_accountLimitObservations i"
    and "i_accountLimitObservations j =
      i_accountLimitObservations (recordAccountLimitObservationLocked now ag ac rs wp k)"
  shows "rowsStep i j"
  using recordAt_rows [of k now ag ac rs wp now] assms
  by (simp add: rowsStep_def rowsGrow_def rowsDistinct_def recordAccountLimitObservationLocked_def)

lemma rowsStep_refl: "rowsStep i i"
  by (simp add: rowsStep_same)

lemma rowsGrow_trans:
  assumes "rowsGrow i j" "rowsGrow j k"
  shows "rowsGrow i k"
proof -
  let ?n = "length (i_accountLimitObservations i)"
  have len: "?n = length (take ?n (i_accountLimitObservations j))"
    using assms(1) unfolding rowsGrow_def by (rule list_all2_lengthD)
  then have le: "?n \<le> length (i_accountLimitObservations j)" by simp
  have "list_all2 rowLe (take ?n (i_accountLimitObservations j))
      (take ?n (take (length (i_accountLimitObservations j)) (i_accountLimitObservations k)))"
    using assms(2) unfolding rowsGrow_def by (rule list_all2_takeI)
  then have "list_all2 rowLe (take ?n (i_accountLimitObservations j))
      (take ?n (i_accountLimitObservations k))"
    using le by (simp add: min_absorb1)
  with assms(1) show ?thesis
    unfolding rowsGrow_def by (auto intro: list_all2_trans [of rowLe rowLe rowLe] rowLe_trans)
qed

lemma rowsStep_trans: "rowsStep i j \<Longrightarrow> rowsStep j k \<Longrightarrow> rowsStep i k"
  by (auto simp: rowsStep_def intro: rowsGrow_trans)

lemma rowsStep_frames [simp]:
  "rowsStep i (applyKindEffects now k a b j) = rowsStep i j"
  "rowsStep i (applyStarted now e j) = rowsStep i j"
  "rowsStep i (noteStateChangeLocked now lv op r j) = rowsStep i j"
  "rowsStep i (keepAttention att j) = rowsStep i j"
  by (simp_all add: rowsStep_def rowsGrow_def rowsDistinct_def)
     (simp_all add: keepAttention_def)

lemma applyEdge_rows: "rowsStep i (applyEdge now spec ev i)"
  unfolding applyEdge_def Let_def
  by (cases "ev_kind ev = tkParkHandoff")
     (simp_all add: rowsStep_same rowsStep_record [OF _ refl])

lemma transitionLocked_rows: "rowsStep i (snd (transitionLocked now ev i))"
  by (cases rule: transitionLocked_cases [OF prod.collapse [of "transitionLocked now ev i", symmetric]])
     (simp_all add: rowsStep_refl applyEdge_rows)

lemma setLimitReachedLocked_rows: "rowsStep i (snd (setLimitReachedLocked now r ev b i))"
  by (simp add: setLimitReachedLocked_def lifecycleStateLocked_def Let_def rowsStep_refl
      rowsStep_record [OF _ refl])

lemma applyDegradedResightLocked_rows:
  "rowsStep i (snd (applyDegradedResightLocked blank now b i))"
  by (simp add: applyDegradedResightLocked_def lifecycleStateLocked_def setLimitReachedLocked_rows
      rowsStep_same)

lemma SetLimitReachedAtEpoch_rows:
  "rowsStep i (snd (SetLimitReachedAtEpoch blank now r ev b ep i))"
  by (simp add: SetLimitReachedAtEpoch_def setLimitReachedLocked_rows applyDegradedResightLocked_rows
      rowsStep_same)

lemma SetAttention_rows: "SetAttention now r i = Inr (u, j) \<Longrightarrow> rowsStep i j"
  by (rule rowsStep_same) (auto simp: SetAttention_def Let_def split: if_splits)

lemma ClearAttention_rows: "ClearAttention now t i = Some (u, j) \<Longrightarrow> rowsStep i j"
  by (rule rowsStep_same) (auto simp: ClearAttention_def split: option.splits if_splits)

lemma AttentionAnsweredByWork_rows: "rowsStep i (snd (AttentionAnsweredByWork now ep i))"
  by (rule rowsStep_same)
     (simp add: AttentionAnsweredByWork_def split: option.splits prod.splits)

lemma lifecycleStep_rows: "rowsStep i (lifecycleStep blank i (now, c))"
proof (cases c)
  case (CallSetStatus s)
  then show ?thesis
    by (cases s) (simp_all add: setStatusLocked_def lifecycleStateLocked_def rowsStep_same)
next
  case (CallSetAttention r)
  then show ?thesis
    by (auto simp: rowsStep_refl intro: SetAttention_rows split: sum.splits)
next
  case (CallClearAttention t)
  then show ?thesis
    by (auto simp: rowsStep_refl intro: ClearAttention_rows split: option.splits)
qed (simp_all add: transitionLocked_rows AttentionAnsweredByWork_rows SetLimitReachedAtEpoch_rows
      SetLimitReachedAtEvidence_def setLimitReachedLocked_rows rowsStep_same
      SetArchived_def RestoreAttention_def SettleAttentionAfterReattach_def SetLimitResetAt_def
      ReparkLimitUnderResumeFence_def RestoreLivenessUnderResumeFence_def ClearLimitReached_def
      RecordTaskRunTurnAtEpoch_def recordTaskRunTurnLocked_def dropAttentionIfStoppedLocked_def
      MarkUserKilled_def ReconcileUserKilledSnapshot_def ReconcileAttention_def
      clearAgentModelChangeLocked_def lifecycleStateLocked_def Let_def)

interpretation limitRows: monotone_ops "lifecycleStep blank" rowsStep
  by unfold_locales (auto intro: rowsStep_refl rowsStep_trans lifecycleStep_rows)

end
