(* ===== verification/Session_Props.thy ===== *)
theory Session_Props
  imports Session_Lemmas
begin

text \<open>
  The properties of the session lifecycle, over the lemmas of \<^verbatim>\<open>Session_Lemmas\<close>. The
  sample row is a running session in the middle of a task run.
\<close>

definition sample :: Instance where
  "sample = \<lparr>i_ID = ''s1'', i_Account = ''work'', i_agentName = ''claude'',
     i_liveness = LiveRunning, i_inFlightOp = OpNone, i_started = True, i_stateEpoch = 7,
     i_runtimeEvidenceGeneration = 3, i_UpdatedAt = 1, i_userKilled = False,
     i_attention = Some \<lparr>att_Reason = ''review'', att_SetAt = 1, att_SeenIdle = False,
       att_IdleSince = 0, att_setEpoch = 7\<rparr>,
     i_agentModelChange = None, i_archiveCheckpointSealed = False, i_archiveSettled = False,
     i_archiveSettledCloses = 0, i_archivePushCompleted = False, i_archivedAt = 0,
     i_pruneNonce = [], i_rebuildTeardownPending = False, i_accountSwapLaunch = False,
     i_pendingAccountSwap = None, i_pendingHandoffMission = [], i_agentRuntimeReplaced = False,
     i_agentReplacedAt = 0, i_taskRunActive = True, i_taskRunIdleEdgeHeld = False,
     i_taskRunTurnGateHeld = False, i_taskRunInterrupted = False, i_taskRunInterruptedAt = 0,
     i_taskRunInterruptedStamp = False, i_taskRunFailed = False, i_taskRunPromptAttemptAt = 0,
     i_taskRunTurnObservedAt = 0, i_lastPaneChurnAt = 0, i_paneObservationStreakAt = 0,
     i_paneObservationExpiresAt = 0, i_adoptionDeliveries = 0, i_adoptionAtRunEnd = 0,
     i_limitResetAt = 0, i_limitResetEvidence = [], i_limitBannerPrefix = [],
     i_limitBannerCount = 0, i_limitAgent = [], i_limitAccount = [],
     i_accountLimitObservations = [], i_accountLimitObsUnpersisted = False, i_lostRestoreWait = noRestoreWait\<rparr>"

lemmas transition_eval =
  sample_def transitionLocked_def transitionCore_def applyEdge_def prepareEdge_def
  applyRunEffect_def idleEdgeEffect_def applyLimitReset_def applyStarted_def applyKindEffects_def
  clearAgentModelChangeLocked_def coerceObservation_def keepAttention_def zeroEvent_def
  noteStateChangeLocked_def noteAttentionLivenessLocked_def attentionAnsweredByWorkLocked_def
  touchLocked_def assignLivenessLocked_def endRunsLocked_def captureAdoptionBaselineLocked_def
  runGateActiveLocked_def owesMissionDeliveryLocked_def taskRunAwaitingTurnLocked_def
  pendingAccountSwapDeliveryUnconfirmedLocked_def lifecycleStateLocked_def edge_specs
  ObserveLiveness_def CommitArchive_def BeginArchive_def BeginKill_def transitionStep_def
  AtEpoch_def BeginRestore_def ConfirmLive_def

subsection \<open>Decisions taken on stale state\<close>

text \<open>C1. A decision stamped with the epoch at which the state was read is dropped, without an
  error, when any number of later events (fewer than \<open>2 ^ 64\<close>) changed the state in between,
  also when they changed it back to the same values.\<close>

theorem stale_decision_dropped:
  assumes "stateChanges i tes \<noteq> 0" and "length tes < 2 ^ 64"
  shows "transitionLocked now (AtEpoch ev (i_stateEpoch i)) (run_ops transitionStep i tes) =
           (None, run_ops transitionStep i tes)"
proof -
  have "(of_nat (stateChanges i tes) :: 64 word) \<noteq> 0"
    using assms stateChanges_le [of i tes] by (intro of_nat_word64_nonzero) auto
  then have "i_stateEpoch (run_ops transitionStep i tes) \<noteq> i_stateEpoch i"
    by (simp add: epoch_counts_changes)
  then show ?thesis by (simp add: transitionLocked_def AtEpoch_def)
qed

theorem stale_decision_dropped_witness:
  "fst (transitionLocked 9 (AtEpoch (ObserveLiveness LiveDead) 7)
      (run_ops transitionStep sample [(5, ObserveLiveness LiveReady), (6, ObserveLiveness LiveRunning)]))
     = None"
proof -
  have "stateChanges sample [(5, ObserveLiveness LiveReady), (6, ObserveLiveness LiveRunning)] = 2"
    by (simp add: transition_eval)
  moreover have "i_stateEpoch sample = 7" by (simp add: sample_def)
  ultimately show ?thesis
    using stale_decision_dropped [of sample "[(5, ObserveLiveness LiveReady), (6, ObserveLiveness LiveRunning)]"
        9 "ObserveLiveness LiveDead"] by simp
qed

subsection \<open>The archive fence\<close>

text \<open>C25. How a row becomes Archived, over every lifecycle operation: exactly by the commit of an archive that
  holds its fence or an observation that says Archived outright on a row that owes no rebuild teardown
  (neither of them decided on a stale epoch), by the unconditional mirror \<^verbatim>\<open>SetArchived\<close> of a client's row, by a
  legacy status write of Archived, or by the put-back of that liveness under the resume fence.\<close>

theorem archive_only_through_fence:
  assumes "i_liveness i \<noteq> LiveArchived"
  shows "i_liveness (lifecycleStep blank i (now, c)) = LiveArchived \<longleftrightarrow>
    (case c of
       CallTransition ev \<Rightarrow>
         \<not> (ev_epochScoped ev \<and> i_stateEpoch i \<noteq> ev_epoch ev) \<and>
         ((ev_kind ev = tkCommitArchive \<and> i_inFlightOp i = OpArchiving) \<or>
          (ev_kind ev = tkObserveLiveness \<and> ev_lv ev = LiveArchived \<and> \<not> i_rebuildTeardownPending i))
     | CallSetArchived \<Rightarrow> True
     | CallSetStatus st \<Rightarrow> st = Archived
     | CallRestoreLiveness l \<Rightarrow> l = LiveArchived \<and> i_inFlightOp i = OpRespawning
     | _ \<Rightarrow> False)"
proof (cases c)
  case (CallTransition ev)
  have "i_liveness (snd (transitionLocked now ev i)) = LiveArchived \<longleftrightarrow>
      \<not> (ev_epochScoped ev \<and> i_stateEpoch i \<noteq> ev_epoch ev) \<and> i_liveness (snd (transitionCore now ev i)) = LiveArchived"
    using assms by (auto simp: transitionLocked_def split: prod.splits)
  with assms show ?thesis unfolding CallTransition by (simp add: transitionCore_archives)
qed (use assms lifecycleStep_archives [OF assms, where c = c and blank = blank and now = now] in simp_all)

theorem archive_only_through_fence_witness:
  "i_liveness (lifecycleStep (\<lambda>s. s = []) (sample\<lparr>i_inFlightOp := OpArchiving\<rparr>) (5, CallTransition CommitArchive)) = LiveArchived \<and>
   i_liveness (lifecycleStep (\<lambda>s. s = []) sample (5, CallTransition CommitArchive)) \<noteq> LiveArchived"
proof -
  have "i_liveness sample \<noteq> LiveArchived" "i_liveness (sample\<lparr>i_inFlightOp := OpArchiving\<rparr>) \<noteq> LiveArchived"
    by (simp_all add: sample_def)
  from this [THEN archive_only_through_fence [where blank = "\<lambda>s. s = []" and now = 5 and c = "CallTransition CommitArchive"]]
  show ?thesis by (simp add: CommitArchive_def zeroEvent_def sample_def)
qed

text \<open>Archiving an idle, unsealed session with no account swap pending succeeds and leaves a
  resting row: Archived, no operation, not started, its task run over, stamped with the
  commit's instant, no attention request, no model-change notice, the settle channel closed,
  and the epoch moved by two.\<close>

theorem archive_flow:
  assumes "i_inFlightOp i = OpNone" "i_liveness i \<noteq> LiveArchived" "\<not> i_archiveCheckpointSealed i"
    "i_pendingAccountSwap i = None"
  shows "let j = archiveFlow t1 t2 i in
    i_liveness j = LiveArchived \<and> i_inFlightOp j = OpNone \<and> \<not> i_started j \<and>
    \<not> i_taskRunActive j \<and> i_archivedAt j = t2 \<and> i_attention j = None \<and>
    i_agentModelChange j = None \<and> \<not> i_archiveSettled j \<and> i_stateEpoch j = i_stateEpoch i + 2"
proof -
  define k where "k = applyEdge t1 spec_BeginArchive BeginArchive i"
  have k: "i_liveness k = i_liveness i" "i_inFlightOp k = OpArchiving"
    "i_stateEpoch k = i_stateEpoch i + 1"
    using assms(1) by (simp_all add: k_def applyEdge_epoch)
      (simp_all add: lifecycleStateLocked_def applyEdge_liveness spec_BeginArchive_def)
  have j: "archiveFlow t1 t2 i = applyEdge t2 spec_CommitArchive CommitArchive k"
    using archiveFlow_eq [OF assms] by (simp add: k_def)
  show ?thesis
    using k assms(2) applyEdge_commitArchive [of k t2]
    by (simp add: j applyEdge_liveness applyEdge_started applyEdge_taskRunActive applyEdge_epoch
        lifecycleStateLocked_def commitArchive_target runEndsAt_def)
       (simp add: spec_CommitArchive_def)
qed

theorem archive_flow_witness:
  "i_liveness (archiveFlow 5 6 sample) = LiveArchived \<and> i_archivedAt (archiveFlow 5 6 sample) = 6"
  using archive_flow [of sample 5 6] by (simp add: sample_def Let_def)

text \<open>Restoring an archived session settles either way: confirmed, it runs again (or rests in
  Lost when a rebuild teardown is owed); aborted, it is Lost. Both leave no operation in
  flight, the row started and the archive stamp cleared.\<close>

theorem restore_flow:
  assumes "i_inFlightOp i = OpNone" "i_liveness i = LiveArchived"
  shows "(let j = restoreFlow t1 t2 ConfirmLive i in
      i_liveness j = (if i_rebuildTeardownPending i then LiveLost else LiveRunning) \<and>
      i_inFlightOp j = OpNone \<and> i_started j \<and> i_archivedAt j = zeroTime) \<and>
    (let j = restoreFlow t1 t2 AbortRestoreToLost i in
      i_liveness j = LiveLost \<and> i_inFlightOp j = OpNone \<and> i_started j \<and> i_archivedAt j = zeroTime)"
proof -
  define k where "k = applyEdge t1 spec_BeginRestore BeginRestore i"
  note k = applyEdge_beginRestore [OF assms(2,1), of t1, folded k_def]
  have c: "transitionLocked t2 ConfirmLive k = (None, applyEdge t2 spec_ConfirmLive ConfirmLive k)"
    using k transition_admitted [of ConfirmLive spec_ConfirmLive k t2]
    by (simp add: ConfirmLive_def zeroEvent_def spec_ConfirmLive_def coerceObservation_def)
  have a: "transitionLocked t2 AbortRestoreToLost k =
      (None, applyEdge t2 spec_AbortRestoreToLost AbortRestoreToLost k)"
    using k transition_admitted [of AbortRestoreToLost spec_AbortRestoreToLost k t2]
    by (simp add: AbortRestoreToLost_def zeroEvent_def spec_AbortRestoreToLost_def coerceObservation_def)
  have kinds: "ev_kind ConfirmLive = tkConfirmLive" "ev_kind AbortRestoreToLost = tkAbortRestoreToLost"
    by (simp_all add: ConfirmLive_def AbortRestoreToLost_def zeroEvent_def)
  have r: "restoreFlow t1 t2 e i = snd (transitionLocked t2 e k)" for e
    by (simp add: restoreFlow_eq [OF assms] k_def)
  show ?thesis
    using k by (simp add: r c a Let_def applyEdge_liveness
        applyEdge_started applyEdge_archivedAt_live kinds)
       (simp add: spec_ConfirmLive_def spec_AbortRestoreToLost_def)
qed

theorem restore_flow_witness:
  "i_liveness (restoreFlow 5 6 ConfirmLive (sample\<lparr>i_liveness := LiveArchived\<rparr>)) = LiveRunning"
  using restore_flow [of "sample\<lparr>i_liveness := LiveArchived\<rparr>" 5 6] by (simp add: sample_def Let_def)

subsection \<open>Fences, refusals and offers\<close>

text \<open>A kill fence falls only by a reverted kill or the unconditional clear; an archive fence
  only by its own three outcomes, a superseding kill or that clear.\<close>

theorem fence_exits:
  "(i_inFlightOp i = OpKilling \<and> i_inFlightOp (snd (transitionLocked now ev i)) \<noteq> OpKilling \<longrightarrow>
     ev_kind ev \<in> {tkRevertKill, tkClearOp}) \<and>
   (i_inFlightOp i = OpArchiving \<and> i_inFlightOp (snd (transitionLocked now ev i)) \<noteq> OpArchiving \<longrightarrow>
     ev_kind ev \<in> {tkBeginKill, tkCancelArchive, tkCommitArchive, tkAbortArchiveToLost, tkClearOp})"
proof (cases rule: transitionLocked_cases [OF prod.collapse [of "transitionLocked now ev i", symmetric]])
  case 2
  then show ?thesis by (cases "ev_kind ev") (auto simp: edge_specs)
qed simp

theorem fence_exits_witness:
  "ev_kind RevertKill \<in> {tkRevertKill, tkClearOp}"
  using fence_exits [of "sample\<lparr>i_inFlightOp := OpKilling\<rparr>" 5 RevertKill]
  by (simp add: transition_eval RevertKill_def)

text \<open>C24. An operation in flight is never displaced by another: over every lifecycle operation it stays, unless
  one of its own outcomes, a clear, a kill tombstone or an archive mirrored from the daemon ends it, a kill
  supersedes it or a legacy status write replaces it; and every event that would begin another operation
  (a kill and the restore under its own fence apart) is refused and changes nothing.\<close>

theorem operation_exclusive:
  assumes "i_inFlightOp i \<noteq> OpNone" and "j = lifecycleStep blank i (now, c)"
  shows "(i_inFlightOp j \<noteq> i_inFlightOp i \<longrightarrow>
      (case c of
         CallTransition ev \<Rightarrow>
           (if ev_kind ev = tkBeginKill then i_inFlightOp j = OpKilling
            else i_inFlightOp j = OpNone \<and> (ev_kind ev \<in> endedBy (i_inFlightOp i) \<or> ev_kind ev = tkClearOp))
       | CallSetArchived \<Rightarrow> i_inFlightOp j = OpNone
       | CallSetStatus st \<Rightarrow> i_inFlightOp j = opForStatus st
       | CallMarkUserKilled \<Rightarrow> i_inFlightOp j = OpNone
       | CallReconcileUserKilled killed \<Rightarrow> killed \<and> i_inFlightOp i \<noteq> OpKilling \<and> i_inFlightOp j = OpNone
       | _ \<Rightarrow> False)) \<and>
    (\<forall>ev. c = CallTransition ev \<and> beginsOp (ev_kind ev) \<and> \<not> (ev_epochScoped ev \<and> i_stateEpoch i \<noteq> ev_epoch ev) \<longrightarrow>
       fst (transitionLocked now ev i) \<noteq> None \<and> j = i)"
proof
  show "\<forall>ev. c = CallTransition ev \<and> beginsOp (ev_kind ev) \<and> \<not> (ev_epochScoped ev \<and> i_stateEpoch i \<noteq> ev_epoch ev) \<longrightarrow>
       fst (transitionLocked now ev i) \<noteq> None \<and> j = i"
    using begin_refused [OF assms(1)] assms(2) by auto
  show "i_inFlightOp j \<noteq> i_inFlightOp i \<longrightarrow>
      (case c of
         CallTransition ev \<Rightarrow>
           (if ev_kind ev = tkBeginKill then i_inFlightOp j = OpKilling
            else i_inFlightOp j = OpNone \<and> (ev_kind ev \<in> endedBy (i_inFlightOp i) \<or> ev_kind ev = tkClearOp))
       | CallSetArchived \<Rightarrow> i_inFlightOp j = OpNone
       | CallSetStatus st \<Rightarrow> i_inFlightOp j = opForStatus st
       | CallMarkUserKilled \<Rightarrow> i_inFlightOp j = OpNone
       | CallReconcileUserKilled killed \<Rightarrow> killed \<and> i_inFlightOp i \<noteq> OpKilling \<and> i_inFlightOp j = OpNone
       | _ \<Rightarrow> False)"
    using transition_op [of i now] lifecycleStep_op [where c = c and blank = blank and i = i and now = now] assms
    by (cases c) (auto split: if_splits)
qed

theorem operation_exclusive_witness:
  "fst (transitionLocked 5 BeginArchive (sample\<lparr>i_inFlightOp := OpReplacing\<rparr>)) \<noteq> None \<and>
   lifecycleStep (\<lambda>s. s = []) (sample\<lparr>i_inFlightOp := OpReplacing\<rparr>) (5, CallTransition BeginArchive) =
     sample\<lparr>i_inFlightOp := OpReplacing\<rparr>"
  using operation_exclusive [of "sample\<lparr>i_inFlightOp := OpReplacing\<rparr>" _ "\<lambda>s. s = []" 5 "CallTransition BeginArchive", OF _ refl]
  by (simp add: BeginArchive_def zeroEvent_def beginsOp_def)

text \<open>What the clients offer is what the chokepoint admits: an offered archive begins on any
  unsealed row, an offered restore begins by the edge its liveness calls for.\<close>

theorem offered_action_admitted:
  "case Instance_LifecycleAction reserved unknown unreachable pruned i of
     LifecycleActionArchive \<Rightarrow>
       \<not> i_archiveCheckpointSealed i \<longrightarrow>
         fst (transitionLocked now BeginArchive i) = None \<and>
         i_inFlightOp (snd (transitionLocked now BeginArchive i)) = OpArchiving
   | LifecycleActionRestore \<Rightarrow>
       (let ev = (if i_liveness i = LiveArchived then BeginRestore else MarkRestoring) in
         fst (transitionLocked now ev i) = None \<and>
         i_inFlightOp (snd (transitionLocked now ev i)) = OpRestoring)
   | LifecycleActionNone \<Rightarrow> True"
proof (cases "Instance_LifecycleAction reserved unknown unreachable pruned i")
  case LifecycleActionArchive
  then show ?thesis
    using action_gate(1) [OF LifecycleActionArchive] transition_admitted [of BeginArchive spec_BeginArchive i now]
    by (simp add: BeginArchive_def zeroEvent_def spec_BeginArchive_def)
next
  case LifecycleActionRestore
  then show ?thesis
    using action_gate(2) [OF LifecycleActionRestore]
      transition_admitted [of BeginRestore spec_BeginRestore i now]
      transition_admitted [of MarkRestoring spec_MarkRestoring i now]
    by (simp add: BeginRestore_def MarkRestoring_def zeroEvent_def spec_BeginRestore_def
        spec_MarkRestoring_def Let_def)
qed simp

theorem offered_action_admitted_witness:
  "i_inFlightOp (snd (transitionLocked 5 BeginArchive sample)) = OpArchiving"
  using offered_action_admitted [where reserved = False and unknown = False and unreachable = False
      and pruned = False and i = sample and now = 5]
  by (simp add: sample_def Instance_LifecycleAction_def lifecycleActionFor_def opIsTeardown_def)

subsection \<open>The task run and the pending rebuild\<close>

text \<open>The task-run marker is one-way: no event reopens a run, and one ends only at a committed
  archive, at the confirmed restore of a replaced runtime, or at an idle edge that owes no
  mission delivery and awaits no turn.\<close>

theorem run_marker_one_way:
  assumes "i' = snd (transitionLocked now ev i)"
  shows "(i_taskRunActive i' \<longrightarrow> i_taskRunActive i) \<and>
    (i_taskRunActive i \<and> \<not> i_taskRunActive i' \<longrightarrow>
      (ev_kind ev = tkCommitArchive \<and> i_inFlightOp i = OpArchiving) \<or>
      (ev_kind ev = tkConfirmLive \<and> i_inFlightOp i = OpRestoring \<and> i_agentRuntimeReplaced i) \<or>
      (ev_kind ev = tkObserveLiveness \<and> ev_lv ev = LiveReady \<and> \<not> i_rebuildTeardownPending i \<and>
       \<not> owesMissionDeliveryLocked i \<and> \<not> taskRunAwaitingTurnLocked now i \<and>
       (i_liveness i \<noteq> LiveReady \<or> i_taskRunIdleEdgeHeld i \<or> i_taskRunTurnGateHeld i)))"
proof -
  have eq: "i_taskRunActive i' = i_taskRunActive i \<or> (\<exists>spec.
      transitionTable (ev_kind ev) = Some spec \<and> allowedFrom spec (axesOf i) \<and>
      i_taskRunActive i' = i_taskRunActive (applyEdge now spec (coerceObservation i ev) i))"
    using prod.collapse [of "transitionLocked now ev i", symmetric]
    by (cases rule: transitionLocked_cases) (auto simp: assms)
  show ?thesis
  proof (intro conjI impI)
    assume "i_taskRunActive i'"
    with eq show "i_taskRunActive i" by (auto simp: applyEdge_taskRunActive)
  next
    assume "i_taskRunActive i \<and> \<not> i_taskRunActive i'"
    with eq obtain spec where "transitionTable (ev_kind ev) = Some spec"
        "allowedFrom spec (axesOf i)"
        "runEndsAt now spec (ev_kind ev) (axesOf i) (target spec (axesOf i) (coerceObservation i ev)) i"
      by (auto simp: applyEdge_taskRunActive)
    then show "(ev_kind ev = tkCommitArchive \<and> i_inFlightOp i = OpArchiving) \<or>
      (ev_kind ev = tkConfirmLive \<and> i_inFlightOp i = OpRestoring \<and> i_agentRuntimeReplaced i) \<or>
      (ev_kind ev = tkObserveLiveness \<and> ev_lv ev = LiveReady \<and> \<not> i_rebuildTeardownPending i \<and>
       \<not> owesMissionDeliveryLocked i \<and> \<not> taskRunAwaitingTurnLocked now i \<and>
       (i_liveness i \<noteq> LiveReady \<or> i_taskRunIdleEdgeHeld i \<or> i_taskRunTurnGateHeld i))"
      by (cases "ev_kind ev")
         (auto simp: runEndsAt_def edge_specs coerceObservation_def split: if_splits)
  qed
qed

theorem run_marker_one_way_witness:
  "i_taskRunActive sample \<and>
   \<not> i_taskRunActive (snd (transitionLocked 5 (ObserveLiveness LiveReady) sample)) \<and>
   \<not> taskRunAwaitingTurnLocked 5 sample"
  using run_marker_one_way [of _ 5 "ObserveLiveness LiveReady" sample, OF refl]
  by (simp add: transition_eval)

text \<open>A row that still owes a rebuild's teardown is not brought back by any event: it keeps
  its liveness, goes to Lost or is archived.\<close>

theorem rebuild_pending_not_revived:
  assumes "i_rebuildTeardownPending i"
  shows "i_liveness (snd (transitionLocked now ev i)) \<in> {i_liveness i, LiveLost, LiveArchived}"
proof (cases rule: transitionLocked_cases [OF prod.collapse [of "transitionLocked now ev i", symmetric]])
  case (2 spec)
  then show ?thesis using assms by (auto simp: applyEdge_liveness Let_def)
qed simp

theorem rebuild_pending_not_revived_witness:
  "i_liveness (snd (transitionLocked 5 ConfirmLive
      (sample\<lparr>i_rebuildTeardownPending := True, i_liveness := LiveLost\<rparr>))) \<in>
     {LiveLost, LiveArchived}"
  using rebuild_pending_not_revived
    [of "sample\<lparr>i_rebuildTeardownPending := True, i_liveness := LiveLost\<rparr>" 5 ConfirmLive] by simp

subsection \<open>Attention, limits and the status shim\<close>

text \<open>C26. Over every sequence of lifecycle operations, a session whose kill is committed or that is archived,
  lost, dead or parked on a limit carries no attention request. The two mirrors of a client's row are
  operations too, called with what the daemon's row says: a request only onto a row that has an agent to
  answer it, a tombstone only onto a row without a request.\<close>

theorem no_attention_on_stopped:
  assumes "noAgent i \<longrightarrow> i_attention i = None" and "run_ok (lifecycleStep blank) mirrorOk i calls"
    and "j = run_ops (lifecycleStep blank) i calls"
    and "i_userKilled j \<or> i_liveness j \<in> {LiveArchived, LiveLost, LiveDead, LiveLimitReached}"
  shows "i_attention j = None"
proof -
  have "attentionInv i" using assms(1) by (auto simp: attentionInv_def)
  from attention.inv_run_ok [OF this assms(2)] have "attentionInv j" by (simp only: assms(3))
  with assms(4) show ?thesis by (auto simp: attentionInv_def noAgent_def stoppedLiveness_def)
qed

theorem no_attention_on_stopped_witness:
  "i_attention (run_ops (lifecycleStep (\<lambda>s. s = [])) sample
     [(2, CallSetAttention ''help''), (5, CallMarkUserKilled), (6, CallSetAttention ''again''),
      (7, CallRestoreAttention \<lparr>undo_previous = i_attention sample, undo_epoch = 8\<rparr>)]) = None"
proof (rule no_attention_on_stopped [OF _ _ refl])
  let ?calls = "[(2, CallSetAttention ''help''), (5, CallMarkUserKilled), (6, CallSetAttention ''again''),
      (7, CallRestoreAttention \<lparr>undo_previous = i_attention sample, undo_epoch = 8\<rparr>)]"
  show "noAgent sample \<longrightarrow> i_attention sample = None" by (simp add: sample_def noAgent_def stoppedLiveness_def)
  show "run_ok (lifecycleStep (\<lambda>s. s = [])) mirrorOk sample ?calls" by (simp add: mirrorOk_def)
  show "i_userKilled (run_ops (lifecycleStep (\<lambda>s. s = [])) sample ?calls) \<or>
      i_liveness (run_ops (lifecycleStep (\<lambda>s. s = [])) sample ?calls) \<in> {LiveArchived, LiveLost, LiveDead, LiveLimitReached}"
    by (simp add: transition_eval SetAttention_def attentionStoppedLocked_def MarkUserKilled_def RestoreAttention_def
        dropAttentionIfStoppedLocked_def)
qed

text \<open>Why the mirrors have an obligation: adopted on a row that still shows a request, the tombstone of a
  snapshot does not take the request away, unlike the daemon's own commit.\<close>

lemma adopted_tombstone_keeps_request:
  "i_attention (lifecycleStep blank sample (5, CallReconcileUserKilled True)) = i_attention sample \<and>
   i_attention (lifecycleStep blank sample (5, CallMarkUserKilled)) = None"
  by (simp add: transition_eval ReconcileUserKilledSnapshot_def MarkUserKilled_def)

text \<open>The durable limit rows: one row per agent, account and kind of claim, and no sequence of
  lifecycle operations drops a row or rewinds its reset or its last sighting.\<close>

theorem limit_rows_never_rewind:
  assumes "rowsDistinct i"
  shows "rowsDistinct (run_ops (lifecycleStep blank) i calls) \<and>
         rowsGrow i (run_ops (lifecycleStep blank) i calls)"
  using assms limitRows.rel_run [of i blank calls] by (simp add: rowsStep_def)

theorem limit_rows_never_rewind_witness:
  "rowsDistinct (run_ops (lifecycleStep (\<lambda>s. s = [])) sample
     [(5, CallSetLimitReached 90 ''a'' \<lparr>lb_Prefix = [], lb_Count = 1\<rparr>), (6, CallClearLimitReached)])"
proof -
  have "rowsDistinct sample" by (simp add: rowsDistinct_def sample_def)
  from limit_rows_never_rewind [OF this] show ?thesis by blast
qed

text \<open>The legacy status shim: what is stored through it is what is read back, while no
  rebuild teardown is owed.\<close>

theorem status_shim:
  assumes "\<not> i_rebuildTeardownPending i"
  shows "statusLocked (setStatusLocked now s i) = s"
  using assms by (cases s) (simp_all add: setStatusLocked_def lifecycleStateLocked_def statusLocked_def
     composeStatus_def assignLivenessLocked_def)

theorem status_shim_witness: "statusLocked (setStatusLocked 5 Archived sample) = Archived"
  using status_shim [of sample 5 Archived] by (simp add: sample_def)

end
