(* ===== verification/Go_Strings.thy ===== *)
theory Go_Strings
  imports AF_Prelude
begin

text \<open>
  The part of Go's \<^verbatim>\<open>strings\<close> and \<^verbatim>\<open>strconv\<close> the modelled code calls. A Go string is its
  list of bytes. White space is \<^verbatim>\<open>unicode.IsSpace\<close> of a decoded rune; its multi-byte members are
  matched as the byte sequences of their UTF-8 encodings, whose first bytes never continue
  another rune, so matching them bytewise and decoding runes agree on every byte string.
\<close>

abbreviation byte :: "nat \<Rightarrow> char" where
  "byte n \<equiv> char_of n"

abbreviation code :: "char \<Rightarrow> nat" where
  "code c \<equiv> of_char c"

subsection \<open>White space\<close>

definition asciiSpace :: "char \<Rightarrow> bool" where
  "asciiSpace c \<longleftrightarrow> c \<in> {CHR 0x09, CHR 0x0A, CHR 0x0B, CHR 0x0C, CHR 0x0D, CHR '' ''}"

text \<open>U+0085, U+00A0, U+1680, U+2000..U+200A, U+2028, U+2029, U+202F, U+205F and U+3000.\<close>

definition wideSpace :: "string \<Rightarrow> bool" where
  "wideSpace s \<longleftrightarrow>
     s \<in> {[CHR 0xC2, CHR 0x85], [CHR 0xC2, CHR 0xA0], [CHR 0xE1, CHR 0x9A, CHR 0x80],
          [CHR 0xE2, CHR 0x80, CHR 0xA8], [CHR 0xE2, CHR 0x80, CHR 0xA9],
          [CHR 0xE2, CHR 0x80, CHR 0xAF], [CHR 0xE2, CHR 0x81, CHR 0x9F],
          [CHR 0xE3, CHR 0x80, CHR 0x80]} \<or>
     (length s = 3 \<and> take 2 s = [CHR 0xE2, CHR 0x80] \<and>
      0x80 \<le> code (s ! 2) \<and> code (s ! 2) \<le> (0x8A :: nat))"

text \<open>The number of bytes of the white-space rune the string starts with, 0 when there is none.\<close>

definition spaceLen :: "string \<Rightarrow> nat" where
  "spaceLen s =
     (case s of
        [] \<Rightarrow> 0
      | c # _ \<Rightarrow> (if asciiSpace c then 1
                 else if wideSpace (take 2 s) then 2
                 else if wideSpace (take 3 s) then 3
                 else 0))"

definition spaceLenEnd :: "string \<Rightarrow> nat" where
  "spaceLenEnd s =
     (if s = [] then 0
      else if asciiSpace (last s) then 1
      else if wideSpace (drop (length s - 2) s) then 2
      else if wideSpace (drop (length s - 3) s) then 3
      else 0)"

function trimLeftSpace :: "string \<Rightarrow> string" where
  "trimLeftSpace s =
     (if spaceLen s = 0 \<or> s = [] then s else trimLeftSpace (drop (spaceLen s) s))"
  by auto
termination by (relation "measure length") auto

function trimRightSpace :: "string \<Rightarrow> string" where
  "trimRightSpace s =
     (if spaceLenEnd s = 0 \<or> s = [] then s
      else trimRightSpace (take (length s - spaceLenEnd s) s))"
  by auto
termination by (relation "measure length") auto

declare trimLeftSpace.simps [simp del]
declare trimRightSpace.simps [simp del]

definition TrimSpace :: "string \<Rightarrow> string" where
  "TrimSpace s = trimRightSpace (trimLeftSpace s)"

lemma trimLeftSpace_nospace: "spaceLen s = 0 \<Longrightarrow> trimLeftSpace s = s"
  by (subst trimLeftSpace.simps) simp

lemma trimRightSpace_nospace: "spaceLenEnd s = 0 \<Longrightarrow> trimRightSpace s = s"
  by (subst trimRightSpace.simps) simp

subsection \<open>Decimal integers\<close>

definition digitChar :: "nat \<Rightarrow> char" where
  "digitChar d = byte (48 + d)"

definition isDigit :: "char \<Rightarrow> bool" where
  "isDigit c \<longleftrightarrow> 48 \<le> code c \<and> code c \<le> (57 :: nat)"

definition digitVal :: "char \<Rightarrow> nat" where
  "digitVal c = code c - 48"

fun natDigits :: "nat \<Rightarrow> string" where
  "natDigits n = (if n < 10 then [digitChar n] else natDigits (n div 10) @ [digitChar (n mod 10)])"

declare natDigits.simps [simp del]

definition itoa :: "int \<Rightarrow> string" where
  "itoa n = (if n < 0 then CHR ''-'' # natDigits (nat (- n)) else natDigits (nat n))"

definition digitsVal :: "string \<Rightarrow> nat" where
  "digitsVal s = foldl (\<lambda>v c. 10 * v + digitVal c) 0 s"

text \<open>
  \<^verbatim>\<open>strconv.Atoi\<close>: an optional sign, at least one digit and nothing else, the value within a
  64-bit \<^verbatim>\<open>int\<close>.
\<close>

definition Atoi :: "string \<Rightarrow> int option" where
  "Atoi s =
     (let (neg, ds) = (case s of
            [] \<Rightarrow> (False, [])
          | c # cs \<Rightarrow> (if c = CHR ''-'' then (True, cs)
                      else if c = CHR ''+'' then (False, cs) else (False, s)))
      in if ds = [] \<or> \<not> list_all isDigit ds then None
         else
           (let v = (if neg then - int (digitsVal ds) else int (digitsVal ds))
            in if - (2 ^ 63) \<le> v \<and> v < 2 ^ 63 then Some v else None))"

subsection \<open>Splitting and joining\<close>

fun joinStr :: "string \<Rightarrow> string list \<Rightarrow> string" where
  "joinStr sep [] = []"
| "joinStr sep [x] = x"
| "joinStr sep (x # y # ys) = x @ sep @ joinStr sep (y # ys)"

text \<open>\<^verbatim>\<open>strings.Split\<close> at one byte.\<close>

fun splitOn :: "char \<Rightarrow> string \<Rightarrow> string list" where
  "splitOn d [] = [[]]"
| "splitOn d (c # cs) =
     (if c = d then [] # splitOn d cs
      else (case splitOn d cs of [] \<Rightarrow> [[c]] | w # ws \<Rightarrow> (c # w) # ws))"

text \<open>\<^verbatim>\<open>strings.Fields\<close>: the maximal runs free of white space, empty runs dropped.\<close>

function fieldsAcc :: "string \<Rightarrow> string \<Rightarrow> string list" where
  "fieldsAcc w [] = (if w = [] then [] else [w])"
| "fieldsAcc w (c # cs) =
     (if spaceLen (c # cs) = 0 then fieldsAcc (w @ [c]) cs
      else (if w = [] then [] else [w]) @ fieldsAcc [] (drop (spaceLen (c # cs)) (c # cs)))"
  by pat_completeness auto
termination by (relation "measure (length \<circ> snd)") auto

definition Fields :: "string \<Rightarrow> string list" where
  "Fields s = fieldsAcc [] s"

subsection \<open>Paths\<close>

text \<open>
  \<^verbatim>\<open>filepath.Clean\<close> on Unix: empty and \<^verbatim>\<open>.\<close> elements go, \<^verbatim>\<open>..\<close> drops the element before it, a
  rooted path keeps no leading \<^verbatim>\<open>..\<close>. \<open>acc\<close> is the kept elements, the last one first.
\<close>

fun cleanElems :: "bool \<Rightarrow> string list \<Rightarrow> string list \<Rightarrow> string list" where
  "cleanElems rooted acc [] = rev acc"
| "cleanElems rooted acc (e # es) =
     (if e = [] \<or> e = ''.'' then cleanElems rooted acc es
      else if e = ''..'' then
        (case acc of
           [] \<Rightarrow> cleanElems rooted (if rooted then [] else [e]) es
         | a # as \<Rightarrow> (if a = ''..'' then cleanElems rooted (e # acc) es
                     else cleanElems rooted as es))
      else cleanElems rooted (e # acc) es)"

definition Clean :: "string \<Rightarrow> string" where
  "Clean p =
     (let rooted = (p \<noteq> [] \<and> hd p = CHR ''/'');
          body = joinStr ''/'' (cleanElems rooted [] (splitOn CHR ''/'' p))
      in if rooted then CHR ''/'' # body
         else if body = [] then ''.'' else body)"

subsection \<open>Durations\<close>

text \<open>
  \<^verbatim>\<open>time.ParseDuration\<close>, in nanoseconds. The fraction is scaled exactly where Go rounds through
  \<^verbatim>\<open>float64\<close>, which can differ in the last nanosecond of a long fraction.
\<close>

definition unitMap :: "string \<Rightarrow> int option" where
  "unitMap u =
     (if u = ''ns'' then Some 1
      else if u = ''us'' \<or> u = [CHR 0xC2, CHR 0xB5, CHR ''s''] \<or> u = [CHR 0xCE, CHR 0xBC, CHR ''s'']
      then Some 1000
      else if u = ''ms'' then Some 1000000
      else if u = ''s'' then Some 1000000000
      else if u = ''m'' then Some 60000000000
      else if u = ''h'' then Some 3600000000000
      else None)"

text \<open>\<^verbatim>\<open>leadingFraction\<close>: the digits that fit 63 bits, and the power of ten they are scaled by.\<close>

fun leadingFraction :: "int \<Rightarrow> int \<Rightarrow> string \<Rightarrow> int \<times> int" where
  "leadingFraction x scale [] = (x, scale)"
| "leadingFraction x scale (c # cs) =
     (if x > (2 ^ 63 - 1) div 10 \<or> 10 * x + int (digitVal c) > 2 ^ 63 then (x, scale)
      else leadingFraction (10 * x + int (digitVal c)) (10 * scale) cs)"

definition unitChar :: "char \<Rightarrow> bool" where
  "unitChar c \<longleftrightarrow> c \<noteq> CHR ''.'' \<and> \<not> isDigit c"

text \<open>One number with its unit: its nanoseconds and the rest of the string.\<close>

definition durationChunk :: "string \<Rightarrow> (int \<times> string) option" where
  "durationChunk s =
     (let ip = takeWhile isDigit s;
          r1 = dropWhile isDigit s;
          hasDot = (r1 \<noteq> [] \<and> hd r1 = CHR ''.'');
          fp = (if hasDot then takeWhile isDigit (tl r1) else []);
          r2 = (if hasDot then dropWhile isDigit (tl r1) else r1);
          u = takeWhile unitChar r2;
          v = int (digitsVal ip);
          (f, scale) = leadingFraction 0 1 fp
      in if v > 2 ^ 63 then None
         else if ip = [] \<and> fp = [] then None
         else
           (case unitMap u of
              None \<Rightarrow> None
            | Some unit \<Rightarrow>
                (if v > 2 ^ 63 div unit then None
                 else
                   (let v' = v * unit + f * unit div scale
                    in if v' > 2 ^ 63 then None else Some (v', dropWhile unitChar r2)))))"

function durationChunks :: "int \<Rightarrow> string \<Rightarrow> int option" where
  "durationChunks d s =
     (if s = [] then Some d
      else
        (case durationChunk s of
           None \<Rightarrow> None
         | Some (v, rest) \<Rightarrow>
             (if length rest < length s
              then (if d + v > 2 ^ 63 then None else durationChunks (d + v) rest)
              else None)))"
  by auto
termination by (relation "measure (length \<circ> snd)") auto

declare durationChunks.simps [simp del]

definition ParseDuration :: "string \<Rightarrow> duration option" where
  "ParseDuration s =
     (let (neg, r) = (case s of
            [] \<Rightarrow> (False, [])
          | c # cs \<Rightarrow> (if c = CHR ''-'' then (True, cs)
                      else if c = CHR ''+'' then (False, cs) else (False, s)))
      in if r = ''0'' then Some 0
         else if r = [] then None
         else
           (case durationChunks 0 r of
              None \<Rightarrow> None
            | Some d \<Rightarrow>
                (if neg then Some (- d)
                 else if d > 2 ^ 63 - 1 then None else Some d)))"

subsection \<open>Laws\<close>

lemma digitChar_code: "d < 10 \<Longrightarrow> code (digitChar d) = 48 + d"
  by (simp add: digitChar_def of_char_of)

lemma digitVal_digitChar [simp]: "d < 10 \<Longrightarrow> digitVal (digitChar d) = d"
  by (simp add: digitVal_def digitChar_code)

lemma isDigit_digitChar [simp]: "d < 10 \<Longrightarrow> isDigit (digitChar d)"
  by (simp add: isDigit_def digitChar_code)

lemma natDigits_not_Nil [simp]: "natDigits n \<noteq> []"
  by (subst natDigits.simps) simp

lemma natDigits_digits [simp]: "list_all isDigit (natDigits n)"
proof (induction n rule: natDigits.induct)
  case (1 n)
  then show ?case by (subst natDigits.simps) simp
qed

lemma digitsVal_snoc: "digitsVal (s @ [c]) = 10 * digitsVal s + digitVal c"
  by (simp add: digitsVal_def)

lemma digitsVal_natDigits [simp]: "digitsVal (natDigits n) = n"
proof (induction n rule: natDigits.induct)
  case (1 n)
  show ?case
  proof (cases "n < 10")
    case True
    then show ?thesis by (subst natDigits.simps) (simp add: digitsVal_def)
  next
    case False
    then show ?thesis using 1 by (subst natDigits.simps) (simp add: digitsVal_snoc)
  qed
qed

lemma digit_not_sign: "isDigit c \<Longrightarrow> c \<noteq> CHR ''-'' \<and> c \<noteq> CHR ''+''"
  by (auto simp: isDigit_def)

lemma Atoi_digits:
  assumes "list_all isDigit ds" and "ds \<noteq> []" and "digitsVal ds < 2 ^ 63"
  shows "Atoi ds = Some (int (digitsVal ds))"
proof -
  obtain c cs where "ds = c # cs" using assms(2) by (cases ds) auto
  moreover then have "isDigit c" using assms(1) by simp
  moreover have "int (digitsVal ds) < 2 ^ 63" using assms(3) by simp
  ultimately show ?thesis
    using assms(1) digit_not_sign [of c] by (auto simp: Atoi_def Let_def)
qed

lemma Atoi_itoa: "0 \<le> n \<Longrightarrow> n < 2 ^ 63 \<Longrightarrow> Atoi (itoa n) = Some n"
  by (simp add: itoa_def Atoi_digits nat_less_iff)

lemma Atoi_digits_range: "list_all isDigit ds \<Longrightarrow> ds \<noteq> [] \<Longrightarrow> \<not> digitsVal ds < 2 ^ 63 \<Longrightarrow> Atoi ds = None"
  using digit_not_sign [of "hd ds"] by (cases ds) (auto simp: Atoi_def Let_def)

text \<open>A string of digits carries no space to trim.\<close>

lemma wideSpace_no_digit: "wideSpace s \<Longrightarrow> \<exists>c\<in>set s. \<not> isDigit c"
  by (cases s) (auto simp: wideSpace_def isDigit_def numeral_2_eq_2 take_Suc_conv_app_nth)

lemma TrimSpace_digits:
  assumes "list_all isDigit ds"
  shows "TrimSpace ds = ds"
proof -
  have d: "\<forall>c\<in>set ds. isDigit c" using assms by (simp add: list_all_iff)
  have w: "\<not> wideSpace t" if "set t \<subseteq> set ds" for t using wideSpace_no_digit [of t] d that by auto
  have a: "\<not> asciiSpace c" if "c \<in> set ds" for c using d that by (auto simp: asciiSpace_def isDigit_def)
  have "spaceLen ds = 0"
    using w [OF set_take_subset] a by (auto simp: spaceLen_def split: list.splits)
  moreover have "spaceLenEnd ds = 0"
    using w [OF set_drop_subset] a last_in_set [of ds] by (auto simp: spaceLenEnd_def)
  ultimately show ?thesis by (simp add: TrimSpace_def trimLeftSpace_nospace trimRightSpace_nospace)
qed

lemma splitOn_not_Nil [simp]: "splitOn d s \<noteq> []"
  by (cases s) (auto split: list.splits)

lemma splitOn_nosep: "d \<notin> set w \<Longrightarrow> splitOn d w = [w]"
  by (induction w) auto

lemma splitOn_append: "d \<notin> set w \<Longrightarrow> splitOn d (w @ d # s) = w # splitOn d s"
  by (induction w) auto

text \<open>Joining words free of the separator and splitting again gives the words back.\<close>

lemma splitOn_joinStr:
  "ws \<noteq> [] \<Longrightarrow> \<forall>w\<in>set ws. d \<notin> set w \<Longrightarrow> splitOn d (joinStr [d] ws) = ws"
  by (induction "[d]" ws rule: joinStr.induct) (auto simp: splitOn_nosep splitOn_append)

subsection \<open>Case and replacement\<close>

text \<open>
  \<^verbatim>\<open>strings.ToLower\<close> maps a string of ASCII bytes byte by byte; the Unicode case table behind it for any
  other string is the argument \<open>uni\<close>.
\<close>

definition lowerByte :: "char \<Rightarrow> char" where
  "lowerByte c = (if 65 \<le> code c \<and> code c \<le> (90 :: nat) then byte (code c + 32) else c)"

definition ToLower :: "(string \<Rightarrow> string) \<Rightarrow> string \<Rightarrow> string" where
  "ToLower uni s = (if \<forall>c\<in>set s. code c < 128 then map lowerByte s else uni s)"

text \<open>\<^verbatim>\<open>strings.ReplaceAll\<close> for a non-empty text.\<close>

function ReplaceAll :: "string \<Rightarrow> string \<Rightarrow> string \<Rightarrow> string" where
  "ReplaceAll old new s =
     (case s of
        [] \<Rightarrow> []
      | c # cs \<Rightarrow>
          (if old \<noteq> [] \<and> take (length old) s = old then new @ ReplaceAll old new (drop (length old) s)
           else c # ReplaceAll old new cs))"
  by auto
termination
  by (relation "measure (\<lambda>(old, new, s). length s)") auto

declare ReplaceAll.simps [simp del]

end
