(* ===== verification/Handoff_Config.thy ===== *)
theory Handoff_Config
  imports Go_Strings
begin

text \<open>
  The \<^verbatim>\<open>[account_handoff]\<close> table of \<^verbatim>\<open>src/config/account_handoff.go\<close>: the record, its compiled
  default, the validation of a whole table and of one leaf, and the field-wise overlay of a
  personal table on the global one. A returned \<^verbatim>\<open>error\<close> is \<open>Some\<close> of a constructor that keeps
  what the message names.
\<close>

record AccountHandoffConfig =
  hc_Mode :: string
  hc_IncludePinned :: bool
  hc_TargetOrder :: string
  hc_ConfirmWall :: bool
  hc_WallPercent :: int
  hc_MoveIdleAtPercent :: int
  hc_PreferBelowPercent :: int
  hc_ProbeTTL :: string
  hc_DefaultLogin :: string
  hc_RequireCarry :: bool
  hc_ExcludeSessions :: "string list"
  hc_MaxMoves :: int
  hc_MaxMovesWindow :: string
  hc_RefusedBackoff :: string
  hc_OnFailure :: string
  hc_ReportTo :: string

datatype configError =
    ErrLiveRejected
  | ErrEnum string string
  | ErrPercent string int
  | ErrNotInteger string string
  | ErrMaxMoves int
  | ErrDuration string string
  | ErrEmptyExclude nat
  | ErrExcludeChars nat string
  | ErrOrdering int int int
  | ErrNoSuchLeaf string

definition defaultAccountHandoffConfig :: AccountHandoffConfig where
  "defaultAccountHandoffConfig =
     \<lparr>hc_Mode = ''off'', hc_IncludePinned = False, hc_TargetOrder = ''listed'',
      hc_ConfirmWall = True, hc_WallPercent = 97, hc_MoveIdleAtPercent = 95,
      hc_PreferBelowPercent = 85, hc_ProbeTTL = ''10m'', hc_DefaultLogin = ''ignore'',
      hc_RequireCarry = False, hc_ExcludeSessions = [], hc_MaxMoves = 3,
      hc_MaxMovesWindow = ''30m'', hc_RefusedBackoff = ''2h'', hc_OnFailure = ''halt'',
      hc_ReportTo = []\<rparr>"

definition validateAccountHandoffEnum :: "string \<Rightarrow> string \<Rightarrow> string list \<Rightarrow> configError option" where
  "validateAccountHandoffEnum leaf value allowed =
     (if leaf = ''mode'' \<and> value = ''live'' then Some ErrLiveRejected
      else if value \<in> set allowed then None
      else Some (ErrEnum leaf value))"

definition accountHandoffPercentValue :: "string \<Rightarrow> int \<Rightarrow> bool \<Rightarrow> configError option" where
  "accountHandoffPercentValue leaf value allowZero =
     (if allowZero \<and> value = 0 then None
      else if value < 50 \<or> value > 100 then Some (ErrPercent leaf value)
      else None)"

definition accountHandoffDurationValue :: "string \<Rightarrow> string \<Rightarrow> configError option" where
  "accountHandoffDurationValue leaf value =
     (let trimmed = TrimSpace value in
      if trimmed = [] then None
      else (case ParseDuration trimmed of None \<Rightarrow> Some (ErrDuration leaf value) | Some _ \<Rightarrow> None))"

text \<open>The first error of a sequence of checks.\<close>

fun firstError :: "configError option list \<Rightarrow> configError option" where
  "firstError [] = None"
| "firstError (Some e # cs) = Some e"
| "firstError (None # cs) = firstError cs"

fun emptyExclude :: "nat \<Rightarrow> string list \<Rightarrow> configError option" where
  "emptyExclude i [] = None"
| "emptyExclude i (t # ts) =
     (if TrimSpace t = [] then Some (ErrEmptyExclude i) else emptyExclude (Suc i) ts)"

definition validateAccountHandoffFields :: "AccountHandoffConfig \<Rightarrow> configError option" where
  "validateAccountHandoffFields t =
     firstError
       [validateAccountHandoffEnum ''mode'' (hc_Mode t) [''off'', ''shadow''],
        validateAccountHandoffEnum ''target_order'' (hc_TargetOrder t) [''listed'', ''emptiest''],
        validateAccountHandoffEnum ''default_login'' (hc_DefaultLogin t) [''ignore'', ''move''],
        validateAccountHandoffEnum ''on_failure'' (hc_OnFailure t) [''halt'', ''skip''],
        accountHandoffPercentValue ''wall_percent'' (hc_WallPercent t) False,
        accountHandoffPercentValue ''move_idle_at_percent'' (hc_MoveIdleAtPercent t) True,
        accountHandoffPercentValue ''prefer_below_percent'' (hc_PreferBelowPercent t) False,
        (if hc_MaxMoves t < 1 then Some (ErrMaxMoves (hc_MaxMoves t)) else None),
        accountHandoffDurationValue ''probe_ttl'' (hc_ProbeTTL t),
        accountHandoffDurationValue ''max_moves_window'' (hc_MaxMovesWindow t),
        accountHandoffDurationValue ''refused_backoff'' (hc_RefusedBackoff t),
        emptyExclude 0 (hc_ExcludeSessions t)]"

definition validateAccountHandoff :: "AccountHandoffConfig \<Rightarrow> configError option" where
  "validateAccountHandoff t =
     (case validateAccountHandoffFields t of
        Some e \<Rightarrow> Some e
      | None \<Rightarrow>
          if hc_MoveIdleAtPercent t \<noteq> 0 \<and>
             \<not> (hc_PreferBelowPercent t < hc_MoveIdleAtPercent t \<and>
                hc_MoveIdleAtPercent t < hc_WallPercent t)
          then Some (ErrOrdering (hc_PreferBelowPercent t) (hc_MoveIdleAtPercent t) (hc_WallPercent t))
          else None)"

definition splitListValue :: "string \<Rightarrow> string list" where
  "splitListValue v = filter (\<lambda>t. t \<noteq> []) (map TrimSpace (splitOn CHR '','' v))"

fun leafExcludes :: "nat \<Rightarrow> string list \<Rightarrow> configError option" where
  "leafExcludes i [] = None"
| "leafExcludes i (t # ts) =
     (if TrimSpace t = [] then Some (ErrEmptyExclude i)
      else if \<exists>c\<in>set t. c \<in> {CHR ''['', CHR '']'', CHR 0x22} then Some (ErrExcludeChars i t)
      else leafExcludes (Suc i) ts)"

definition validateAccountHandoffLeaf :: "string \<Rightarrow> string \<Rightarrow> configError option" where
  "validateAccountHandoffLeaf leaf value =
     (if leaf = ''mode'' then validateAccountHandoffEnum ''mode'' value [''off'', ''shadow'']
      else if leaf = ''target_order''
      then validateAccountHandoffEnum ''target_order'' value [''listed'', ''emptiest'']
      else if leaf = ''default_login''
      then validateAccountHandoffEnum ''default_login'' value [''ignore'', ''move'']
      else if leaf = ''on_failure'' then validateAccountHandoffEnum ''on_failure'' value [''halt'', ''skip'']
      else if leaf = ''wall_percent'' \<or> leaf = ''prefer_below_percent''
      then (case Atoi (TrimSpace value) of
              None \<Rightarrow> Some (ErrNotInteger leaf value)
            | Some n \<Rightarrow> accountHandoffPercentValue leaf n False)
      else if leaf = ''move_idle_at_percent''
      then (case Atoi (TrimSpace value) of
              None \<Rightarrow> Some (ErrNotInteger leaf value)
            | Some n \<Rightarrow> accountHandoffPercentValue leaf n True)
      else if leaf = ''max_moves''
      then (case Atoi (TrimSpace value) of
              None \<Rightarrow> Some (ErrNotInteger leaf value)
            | Some n \<Rightarrow> if n < 1 then Some (ErrMaxMoves n) else None)
      else if leaf = ''probe_ttl'' \<or> leaf = ''max_moves_window'' \<or> leaf = ''refused_backoff''
      then accountHandoffDurationValue leaf value
      else if leaf = ''exclude_sessions'' then leafExcludes 0 (splitListValue value)
      else Some (ErrNoSuchLeaf leaf))"

text \<open>
  The overlay: \<open>names\<close> are the keys the personal file's table declares; each one whose name is a
  field's tag copies that field.
\<close>

definition mergeLeaf :: "AccountHandoffConfig \<Rightarrow> string \<Rightarrow> AccountHandoffConfig \<Rightarrow> AccountHandoffConfig" where
  "mergeLeaf p name m =
     (if name = ''mode'' then m\<lparr>hc_Mode := hc_Mode p\<rparr>
      else if name = ''include_pinned'' then m\<lparr>hc_IncludePinned := hc_IncludePinned p\<rparr>
      else if name = ''target_order'' then m\<lparr>hc_TargetOrder := hc_TargetOrder p\<rparr>
      else if name = ''confirm_wall'' then m\<lparr>hc_ConfirmWall := hc_ConfirmWall p\<rparr>
      else if name = ''wall_percent'' then m\<lparr>hc_WallPercent := hc_WallPercent p\<rparr>
      else if name = ''move_idle_at_percent'' then m\<lparr>hc_MoveIdleAtPercent := hc_MoveIdleAtPercent p\<rparr>
      else if name = ''prefer_below_percent'' then m\<lparr>hc_PreferBelowPercent := hc_PreferBelowPercent p\<rparr>
      else if name = ''probe_ttl'' then m\<lparr>hc_ProbeTTL := hc_ProbeTTL p\<rparr>
      else if name = ''default_login'' then m\<lparr>hc_DefaultLogin := hc_DefaultLogin p\<rparr>
      else if name = ''require_carry'' then m\<lparr>hc_RequireCarry := hc_RequireCarry p\<rparr>
      else if name = ''exclude_sessions'' then m\<lparr>hc_ExcludeSessions := hc_ExcludeSessions p\<rparr>
      else if name = ''max_moves'' then m\<lparr>hc_MaxMoves := hc_MaxMoves p\<rparr>
      else if name = ''max_moves_window'' then m\<lparr>hc_MaxMovesWindow := hc_MaxMovesWindow p\<rparr>
      else if name = ''refused_backoff'' then m\<lparr>hc_RefusedBackoff := hc_RefusedBackoff p\<rparr>
      else if name = ''on_failure'' then m\<lparr>hc_OnFailure := hc_OnFailure p\<rparr>
      else if name = ''report_to'' then m\<lparr>hc_ReportTo := hc_ReportTo p\<rparr>
      else m)"

fun mergedAccountHandoff ::
  "AccountHandoffConfig \<Rightarrow> AccountHandoffConfig \<Rightarrow> string list \<Rightarrow> AccountHandoffConfig" where
  "mergedAccountHandoff merged personal [] = merged"
| "mergedAccountHandoff merged personal (name # names) =
     mergedAccountHandoff (mergeLeaf personal name merged) personal names"

text \<open>\<open>tableKeys\<close> is \<open>None\<close> when the personal file declares no such table.\<close>

definition validatePersonalAccountHandoffMerge ::
  "AccountHandoffConfig \<Rightarrow> AccountHandoffConfig \<Rightarrow> string list option \<Rightarrow> configError option" where
  "validatePersonalAccountHandoffMerge global personal tableKeys =
     (case tableKeys of
        None \<Rightarrow> None
      | Some names \<Rightarrow> validateAccountHandoff (mergedAccountHandoff global personal names))"

definition AccountHandoffEnabled :: "AccountHandoffConfig \<Rightarrow> bool" where
  "AccountHandoffEnabled c \<longleftrightarrow> hc_Mode c \<noteq> [] \<and> hc_Mode c \<noteq> ''off''"

subsection \<open>What an accepted table satisfies\<close>

lemma firstError_Cons: "firstError (c # cs) = None \<longleftrightarrow> c = None \<and> firstError cs = None"
  by (cases c) auto

text \<open>A table passes field by field exactly when every check passes.\<close>

lemmas fields_pass = validateAccountHandoffFields_def firstError_Cons

lemma percent_range:
  "accountHandoffPercentValue leaf v z = None \<longleftrightarrow> (z \<and> v = 0) \<or> (50 \<le> v \<and> v \<le> 100)"
  by (auto simp: accountHandoffPercentValue_def)

lemma enum_member:
  "validateAccountHandoffEnum leaf v allowed = None \<Longrightarrow> v \<in> set allowed"
  by (auto simp: validateAccountHandoffEnum_def split: if_splits)

lemma emptyExclude_None: "emptyExclude i ts = None \<longleftrightarrow> (\<forall>t\<in>set ts. TrimSpace t \<noteq> [])"
  by (induction ts arbitrary: i) auto

lemma valid_table:
  assumes "validateAccountHandoff t = None"
  shows "hc_Mode t \<in> {''off'', ''shadow''}"
    and "50 \<le> hc_WallPercent t \<and> hc_WallPercent t \<le> 100"
    and "1 \<le> hc_MaxMoves t"
    and "hc_MoveIdleAtPercent t = 0 \<or>
         (50 \<le> hc_PreferBelowPercent t \<and> hc_PreferBelowPercent t < hc_MoveIdleAtPercent t \<and>
          hc_MoveIdleAtPercent t < hc_WallPercent t)"
    and "\<forall>e\<in>set (hc_ExcludeSessions t). TrimSpace e \<noteq> []"
proof -
  have fields: "validateAccountHandoffFields t = None"
    and order: "hc_MoveIdleAtPercent t = 0 \<or> (hc_PreferBelowPercent t < hc_MoveIdleAtPercent t \<and>
      hc_MoveIdleAtPercent t < hc_WallPercent t)"
    using assms by (auto simp: validateAccountHandoff_def split: option.splits if_splits)
  note f = fields [unfolded fields_pass]
  from f have "hc_Mode t \<in> set [''off'', ''shadow'']" by (blast intro: enum_member)
  then show "hc_Mode t \<in> {''off'', ''shadow''}" by simp
  from f have "accountHandoffPercentValue ''wall_percent'' (hc_WallPercent t) False = None" by blast
  then show "50 \<le> hc_WallPercent t \<and> hc_WallPercent t \<le> 100" by (simp add: percent_range)
  from f have "(if hc_MaxMoves t < 1 then Some (ErrMaxMoves (hc_MaxMoves t)) else None) = None" by blast
  then show "1 \<le> hc_MaxMoves t" by (simp split: if_splits)
  from f have "accountHandoffPercentValue ''prefer_below_percent'' (hc_PreferBelowPercent t) False = None"
    by blast
  then show "hc_MoveIdleAtPercent t = 0 \<or>
         (50 \<le> hc_PreferBelowPercent t \<and> hc_PreferBelowPercent t < hc_MoveIdleAtPercent t \<and>
          hc_MoveIdleAtPercent t < hc_WallPercent t)"
    using order by (simp add: percent_range)
  from f have "emptyExclude 0 (hc_ExcludeSessions t) = None" by blast
  then show "\<forall>e\<in>set (hc_ExcludeSessions t). TrimSpace e \<noteq> []" by (simp add: emptyExclude_None)
qed

end
