(* ===== verification/Handoff_Decide.thy ===== *)
theory Handoff_Decide
  imports Complex_Main Handoff_Config "HOL-Library.Multiset" "HOL-Library.Product_Lexorder"
begin

text \<open>
  The pure account-handoff decision of \<^verbatim>\<open>src/handoff/decide.go\<close>: the fact types, the reading
  predicates, wall confirmation, candidate filtering and ordering, and \<^verbatim>\<open>Decide\<close> phase by
  phase. A finite \<^verbatim>\<open>float64\<close> percent is a \<^typ>\<open>rat\<close>: the code only compares percents. How a
  percent and an instant are printed into an event's parameters (\<^verbatim>\<open>strconv.FormatFloat\<close>,
  \<^verbatim>\<open>time.Format\<close>) is the argument \<open>fmt\<close>.
\<close>

subsection \<open>Facts\<close>

datatype ReadingStatus = ReadingNone | ReadingObserved | ReadingUnknown

record WindowFact =
  wf_Name :: string
  wf_UsedPercent :: rat
  wf_ResetsAt :: "gtime option"

record ReadingFacts =
  rf_Status :: ReadingStatus
  rf_Windows :: "WindowFact list"
  rf_RecordedAt :: gtime
  rf_Complete :: bool

record SessionFacts =
  sf_Key :: string
  sf_Title :: string
  sf_Agent :: string
  sf_Account :: string
  sf_AutoSelected :: bool
  sf_Started :: bool
  sf_Live :: bool
  sf_Parked :: bool
  sf_WallBanner :: bool
  sf_WallObservedAt :: gtime
  sf_LimitAccount :: string
  sf_Captured :: bool
  sf_Working :: bool
  sf_Draft :: bool
  sf_DraftCertain :: bool
  sf_Attached :: bool
  sf_VSCodeTab :: bool
  sf_PendingOp :: bool
  sf_SwapCapable :: bool
  sf_CarryPossible :: bool
  sf_Reading :: ReadingFacts

record AccountFacts =
  af_Name :: string
  af_Registered :: bool
  af_Limited :: bool
  af_Drift :: string
  af_Occupancy :: int
  af_RecentMoveCredits :: int
  af_Reading :: ReadingFacts

record RailsFacts =
  rl_Halted :: bool
  rl_HaltReason :: string
  rl_MovesInWindow :: int
  rl_RefusedUntil :: gtime

record Facts =
  f_Now :: gtime
  f_ResetGrace :: duration
  f_ProofMargin :: duration
  f_Session :: SessionFacts
  f_Accounts :: "AccountFacts list"
  f_Rails :: RailsFacts
  f_Config :: AccountHandoffConfig

datatype Kind =
    KindNoop | KindParkedNoAccount | KindDraftBlocked | KindDefer | KindMove | KindReportOnly

fun Kind_String :: "Kind \<Rightarrow> string" where
  "Kind_String KindParkedNoAccount = ''parked-no-account''"
| "Kind_String KindDraftBlocked = ''draft-blocked''"
| "Kind_String KindDefer = ''defer''"
| "Kind_String KindMove = ''move''"
| "Kind_String KindReportOnly = ''report-only''"
| "Kind_String KindNoop = ''noop''"

datatype EventKind =
    EventWall | EventMove | EventMoved | EventNoAccount | EventMoveFailed | EventSwitchLoop
  | EventDraftBlocked | EventIgnored | EventHalted | EventPinnedIneligible | EventConfigDrift
  | EventGoalNotCopied

record Event =
  ev_Kind :: EventKind
  ev_Reason :: string
  ev_From :: string
  ev_To :: string
  ev_Params :: "string gomap"

record Decision =
  d_Kind :: Kind
  d_Reason :: string
  d_To :: string
  d_Candidates :: "string list"
  d_Events :: "Event list"

record formatters =
  fmtFloat :: "rat \<Rightarrow> string"
  fmtTime :: "gtime \<Rightarrow> string"

abbreviation event :: "EventKind \<Rightarrow> string \<Rightarrow> string \<Rightarrow> string \<Rightarrow> string gomap \<Rightarrow> Event" where
  "event k r from to ps \<equiv>
     \<lparr>ev_Kind = k, ev_Reason = r, ev_From = from, ev_To = to, ev_Params = ps\<rparr>"

abbreviation decision :: "Kind \<Rightarrow> string \<Rightarrow> string \<Rightarrow> string list \<Rightarrow> Event list \<Rightarrow> Decision" where
  "decision k r to cs es \<equiv>
     \<lparr>d_Kind = k, d_Reason = r, d_To = to, d_Candidates = cs, d_Events = es\<rparr>"

subsection \<open>Usage readings\<close>

definition worstWindow :: "ReadingFacts \<Rightarrow> WindowFact option" where
  "worstWindow r =
     foldl (\<lambda>worst w. case worst of
              None \<Rightarrow> Some w
            | Some v \<Rightarrow> if wf_UsedPercent w > wf_UsedPercent v then Some w else Some v)
       None (rf_Windows r)"

definition readingAtOrAbove :: "ReadingFacts \<Rightarrow> rat \<Rightarrow> gtime \<Rightarrow> duration \<Rightarrow> bool" where
  "readingAtOrAbove r pct now grace =
     (if rf_Status r \<noteq> ReadingObserved then False
      else \<exists>w\<in>set (rf_Windows r). \<not> wf_UsedPercent w < pct \<and>
             (case wf_ResetsAt w of None \<Rightarrow> True | Some t \<Rightarrow> now < t + grace))"

definition readingStaleHigh :: "ReadingFacts \<Rightarrow> rat \<Rightarrow> gtime \<Rightarrow> duration \<Rightarrow> bool" where
  "readingStaleHigh r wallPct now grace =
     (if rf_Status r \<noteq> ReadingObserved then False
      else \<exists>w\<in>set (rf_Windows r). wf_UsedPercent w \<ge> wallPct \<and>
             (case wf_ResetsAt w of None \<Rightarrow> False | Some t \<Rightarrow> \<not> now < t + grace))"

definition readingBelowAllFresh ::
  "ReadingFacts \<Rightarrow> rat \<Rightarrow> gtime \<Rightarrow> gtime \<Rightarrow> duration \<Rightarrow> bool" where
  "readingBelowAllFresh r wallPct wallAt now margin =
     (if rf_Status r \<noteq> ReadingObserved \<or> \<not> rf_Complete r \<or> rf_Windows r = [] then False
      else if isZero (rf_RecordedAt r) \<or> rf_RecordedAt r > now \<or> isZero wallAt then False
      else if \<exists>w\<in>set (rf_Windows r). wf_UsedPercent w \<ge> wallPct then False
      else rf_RecordedAt r > wallAt + margin)"

subsection \<open>Confirmation, filtering, ordering\<close>

definition confirmWall :: "SessionFacts \<Rightarrow> bool \<Rightarrow> Facts \<Rightarrow> bool \<times> string" where
  "confirmWall s ambient f =
     (let wallPct = of_int (hc_WallPercent (f_Config f)) in
      if \<not> hc_ConfirmWall (f_Config f) then (True, ''wall-unverified'')
      else if ambient then
        (if readingAtOrAbove (sf_Reading s) wallPct (f_Now f) (f_ResetGrace f)
         then (True, ''ambient-reading'')
         else
           (let provablyIdle = (sf_Parked s \<or> (sf_Captured s \<and> \<not> sf_Working s)) in
            if \<not> provablyIdle then (False, ''ambient-working-needs-reading'')
            else if readingBelowAllFresh (sf_Reading s) wallPct (sf_WallObservedAt s) (f_Now f)
                      (f_ProofMargin f)
            then (False, ''wall-recovered'')
            else (True, ''banner-only-egress'')))
      else if readingAtOrAbove (sf_Reading s) wallPct (f_Now f) (f_ResetGrace f)
      then (True, ''usage-reading'')
      else if readingBelowAllFresh (sf_Reading s) wallPct (sf_WallObservedAt s) (f_Now f)
                (f_ProofMargin f)
      then (False, ''wall-recovered'')
      else (False, ''wall-unconfirmed''))"

text \<open>The skip reason (empty when eligible) and the drift key.\<close>

definition classifyCandidate :: "Facts \<Rightarrow> AccountFacts \<Rightarrow> string \<times> string" where
  "classifyCandidate f a =
     (let s = f_Session f; wallPct = of_int (hc_WallPercent (f_Config f)) in
      if af_Name a = sf_Account s then (''current'', [])
      else if \<not> af_Registered a then (''unregistered'', [])
      else if af_Limited a then (''limited'', [])
      else if af_Drift a \<noteq> [] then (''drift:'' @ af_Drift a, af_Drift a)
      else if readingAtOrAbove (af_Reading a) wallPct (f_Now f) (f_ResetGrace f)
      then (''walled'', [])
      else if readingStaleHigh (af_Reading a) wallPct (f_Now f) (f_ResetGrace f)
      then (''stale-high'', [])
      else ([], []))"

record scoredAccount =
  sa_facts :: AccountFacts
  sa_index :: nat

text \<open>
  \<^verbatim>\<open>sort.SliceStable\<close>: insertion from the left, each element moved before the larger ones. A
  stable sort by a strict weak order has one result, so the block merges of Go's
  implementation for longer slices give the same list.
\<close>

definition insertStable :: "('a \<Rightarrow> 'a \<Rightarrow> bool) \<Rightarrow> 'a list \<Rightarrow> 'a \<Rightarrow> 'a list" where
  "insertStable lt ys x =
     rev (dropWhile (lt x) (rev ys)) @ [x] @ rev (takeWhile (lt x) (rev ys))"

definition SliceStable :: "('a \<Rightarrow> 'a \<Rightarrow> bool) \<Rightarrow> 'a list \<Rightarrow> 'a list" where
  "SliceStable lt xs = foldl (insertStable lt) [] xs"

definition candidateTier :: "rat \<Rightarrow> scoredAccount \<Rightarrow> nat" where
  "candidateTier prefer c =
     (let credited = af_RecentMoveCredits (sa_facts c) > 0; r = af_Reading (sa_facts c) in
      if rf_Status r = ReadingObserved then
        (if credited then 2
         else (case worstWindow r of
                 None \<Rightarrow> 1
               | Some w \<Rightarrow> if wf_UsedPercent w < prefer then 0 else 1))
      else if credited then 4 else 3)"

text \<open>The percent of the worst window, \<open>0\<close> (the zero \<^verbatim>\<open>WindowFact\<close>) when there is none.\<close>

definition worstPercent :: "ReadingFacts \<Rightarrow> rat" where
  "worstPercent r = (case worstWindow r of None \<Rightarrow> 0 | Some w \<Rightarrow> wf_UsedPercent w)"

definition candidateLess :: "rat \<Rightarrow> scoredAccount \<Rightarrow> scoredAccount \<Rightarrow> bool" where
  "candidateLess prefer a b =
     (let ta = candidateTier prefer a; tb = candidateTier prefer b;
          fa = sa_facts a; fb = sa_facts b;
          oa = af_Occupancy fa + af_RecentMoveCredits fa;
          ob = af_Occupancy fb + af_RecentMoveCredits fb
      in if ta \<noteq> tb then ta < tb
         else if rf_Status (af_Reading fa) = ReadingObserved \<and>
                 rf_Status (af_Reading fb) = ReadingObserved \<and>
                 worstPercent (af_Reading fa) \<noteq> worstPercent (af_Reading fb)
         then worstPercent (af_Reading fa) < worstPercent (af_Reading fb)
         else if oa \<noteq> ob then oa < ob
         else sa_index a < sa_index b)"

definition orderCandidates :: "scoredAccount list \<Rightarrow> AccountHandoffConfig \<Rightarrow> string list" where
  "orderCandidates eligible cfg =
     (if hc_TargetOrder cfg \<noteq> ''emptiest'' then map (af_Name \<circ> sa_facts) eligible
      else map (af_Name \<circ> sa_facts)
             (SliceStable (candidateLess (of_int (hc_PreferBelowPercent cfg))) eligible))"

subsection \<open>The decision\<close>

definition ignored :: "string \<Rightarrow> Decision" where
  "ignored reason = decision KindNoop reason [] [] [event EventIgnored reason [] [] []]"

definition excludedSession :: "string list \<Rightarrow> string \<Rightarrow> bool" where
  "excludedSession excludes title \<longleftrightarrow> (\<exists>e\<in>set excludes. TrimSpace e = title)"

definition pinnedSession :: "SessionFacts \<Rightarrow> bool" where
  "pinnedSession s \<longleftrightarrow> sf_Account s \<noteq> [] \<and> \<not> sf_AutoSelected s"

text \<open>Phase A: \<open>Some\<close> decision for a session the engine does not govern.\<close>

definition decideScope :: "Facts \<Rightarrow> Decision option" where
  "decideScope f =
     (let s = f_Session f; cfg = f_Config f in
      if \<not> sf_Started s \<or> \<not> sf_Live s then Some (ignored ''not-live'')
      else if sf_Agent s = [] then Some (ignored ''unsupported-agent'')
      else if \<not> sf_SwapCapable s then Some (ignored ''not-swap-capable'')
      else if excludedSession (hc_ExcludeSessions cfg) (sf_Title s) then Some (ignored ''excluded'')
      else if pinnedSession s \<and> \<not> hc_IncludePinned cfg
      then Some (decision KindNoop ''pin-held'' [] []
                   [event EventPinnedIneligible ''pin-held'' (sf_Account s) [] []])
      else if sf_Account s = [] \<and> hc_DefaultLogin cfg \<noteq> ''move'' then Some (ignored ''ambient-login'')
      else None)"

text \<open>Phase B: the two triggers.\<close>

definition walledSession :: "SessionFacts \<Rightarrow> bool" where
  "walledSession s \<longleftrightarrow> sf_Parked s \<or> (sf_Captured s \<and> sf_WallBanner s)"

definition idleHot :: "Facts \<Rightarrow> bool" where
  "idleHot f \<longleftrightarrow>
     (let s = f_Session f; cfg = f_Config f in
      \<not> walledSession s \<and> hc_MoveIdleAtPercent cfg > 0 \<and> sf_Captured s \<and> \<not> sf_Working s \<and>
      readingAtOrAbove (sf_Reading s) (of_int (hc_MoveIdleAtPercent cfg)) (f_Now f) (f_ResetGrace f))"

definition decideTrigger :: "Facts \<Rightarrow> string" where
  "decideTrigger f = (if idleHot f then ''idle'' else ''wall'')"

definition decideFrom :: "SessionFacts \<Rightarrow> string" where
  "decideFrom s = (if sf_LimitAccount s = [] then sf_Account s else sf_LimitAccount s)"

definition windowParams :: "formatters \<Rightarrow> ReadingFacts \<Rightarrow> string gomap" where
  "windowParams fmt r =
     (case worstWindow r of
        Some w \<Rightarrow> (if rf_Status r = ReadingObserved
                   then [(''window'', wf_Name w), (''percent'', fmtFloat fmt (wf_UsedPercent w))]
                   else [])
      | None \<Rightarrow> [])"

definition formatBool :: "bool \<Rightarrow> string" where
  "formatBool b = (if b then ''true'' else ''false'')"

definition wallEvent :: "formatters \<Rightarrow> Facts \<Rightarrow> Event" where
  "wallEvent fmt f =
     (let s = f_Session f; (confirmed, creason) = confirmWall s (sf_Account s = []) f in
      event EventWall creason (decideFrom s) []
        ((''confirmed'', formatBool confirmed) # windowParams fmt (sf_Reading s)))"

text \<open>Phase C: the blockers in their order, each with the kind and reason it decides and its event.\<close>

type_synonym blocker = "Kind \<times> string \<times> Event"

definition draftBlockers :: "SessionFacts \<Rightarrow> blocker list" where
  "draftBlockers s =
     (if \<not> sf_Captured s \<or> \<not> sf_DraftCertain s
      then [(KindDraftBlocked, ''composer-unprovable'',
             event EventDraftBlocked ''composer-unprovable'' [] [] [])]
      else if sf_Draft s
      then [(KindDraftBlocked, ''composer-draft'', event EventDraftBlocked ''composer-draft'' [] [] [])]
      else [])"

definition blockIf :: "bool \<Rightarrow> string \<Rightarrow> Event \<Rightarrow> blocker list" where
  "blockIf c reason e = (if c then [(KindDefer, reason, e)] else [])"

definition blockers :: "formatters \<Rightarrow> Facts \<Rightarrow> blocker list" where
  "blockers fmt f =
     (let s = f_Session f; cfg = f_Config f; rails = f_Rails f in
      draftBlockers s @
      blockIf (sf_PendingOp s) ''pending-operation''
        (event EventIgnored ''pending-operation'' [] [] []) @
      blockIf (sf_Attached s) ''attached'' (event EventIgnored ''attached'' [] [] []) @
      blockIf (sf_VSCodeTab s) ''vscode-tab'' (event EventIgnored ''vscode-tab'' [] [] []) @
      blockIf (rl_Halted rails) ''mover-halted''
        (event EventIgnored ''mover-halted'' [] [] [(''halt_reason'', rl_HaltReason rails)]) @
      blockIf (rl_MovesInWindow rails \<ge> hc_MaxMoves cfg) ''switch-loop''
        (event EventSwitchLoop ''move-cap'' [] []
           [(''moves'', itoa (rl_MovesInWindow rails)), (''window'', hc_MaxMovesWindow cfg)]) @
      blockIf (\<not> isZero (rl_RefusedUntil rails) \<and> f_Now f < rl_RefusedUntil rails)
        ''refusal-backoff''
        (event EventIgnored ''refusal-backoff'' [] []
           [(''until'', fmtTime fmt (rl_RefusedUntil rails))]) @
      blockIf (hc_RequireCarry cfg \<and> \<not> sf_CarryPossible s) ''carry-refused''
        (event EventIgnored ''carry-refused'' [] [] []))"

definition driftEvents :: "Facts \<Rightarrow> Event list" where
  "driftEvents f =
     concat (map (\<lambda>a. let drift = snd (classifyCandidate f a)
                       in if drift \<noteq> [] then [event EventConfigDrift drift [] (af_Name a) []] else [])
               (f_Accounts f))"

text \<open>Phase D: the eligible candidates with their positions, and the skipped ones by name.\<close>

definition eligibleCandidates :: "Facts \<Rightarrow> scoredAccount list" where
  "eligibleCandidates f =
     concat (map (\<lambda>(i, a). if fst (classifyCandidate f a) = []
                            then [\<lparr>sa_facts = a, sa_index = i\<rparr>] else [])
               (enumerate 0 (f_Accounts f)))"

definition skipParams :: "Facts \<Rightarrow> string" where
  "skipParams f =
     joinStr '';''
       (concat (map (\<lambda>a. let skip = fst (classifyCandidate f a)
                          in if skip \<noteq> [] then [af_Name a @ ''='' @ skip] else [])
                  (f_Accounts f)))"

text \<open>The facts a name stands for: the last eligible account of that name, as the map keeps it.\<close>

definition byName :: "scoredAccount list \<Rightarrow> string \<Rightarrow> AccountFacts option" where
  "byName eligible = map_of (rev (map (\<lambda>c. (af_Name (sa_facts c), sa_facts c)) eligible))"

definition comfortableAccount :: "AccountHandoffConfig \<Rightarrow> AccountFacts \<Rightarrow> bool" where
  "comfortableAccount cfg a \<longleftrightarrow> rf_Status (af_Reading a) = ReadingObserved \<and>
     (case worstWindow (af_Reading a) of
        None \<Rightarrow> False
      | Some w \<Rightarrow> wf_UsedPercent w < of_int (hc_PreferBelowPercent cfg))"

definition comfortableNames :: "Facts \<Rightarrow> scoredAccount list \<Rightarrow> string list \<Rightarrow> string list" where
  "comfortableNames f eligible ordered =
     filter (\<lambda>name. case byName eligible name of
                      None \<Rightarrow> False | Some a \<Rightarrow> comfortableAccount (f_Config f) a) ordered"

definition moveDecision :: "formatters \<Rightarrow> Facts \<Rightarrow> Event list \<Rightarrow> string list \<Rightarrow> Decision" where
  "moveDecision fmt f events ordered =
     (let s = f_Session f; trigger = decideTrigger f; to = hd ordered;
          moveReason = (if pinnedSession s then ''pin-consumed'' else trigger);
          params = [(''trigger'', trigger)] @
                   (if skipParams f \<noteq> [] then [(''skipped'', skipParams f)] else []) @
                   windowParams fmt (sf_Reading s)
      in decision KindMove trigger to ordered
           (events @ [event EventMove moveReason (decideFrom s) to params]))"

definition decideCandidates :: "formatters \<Rightarrow> Facts \<Rightarrow> Event list \<Rightarrow> Decision" where
  "decideCandidates fmt f events0 =
     (let eligible = eligibleCandidates f;
          events = events0 @ driftEvents f
      in if eligible = [] then
           (if walledSession (f_Session f)
            then decision KindParkedNoAccount ''no-eligible-candidate'' [] []
                   (events @ [event EventNoAccount ''no-eligible-candidate'' (decideFrom (f_Session f)) []
                      [(''skipped'', skipParams f), (''trigger'', decideTrigger f)]])
            else decision KindDefer ''idle-no-eligible-target'' [] []
                   (events @ [event EventIgnored ''idle-no-eligible-target'' [] []
                      [(''skipped'', skipParams f)]]))
         else
           (let ordered = orderCandidates eligible (f_Config f);
                comfortable = comfortableNames f eligible ordered
            in if idleHot f then
                 (if comfortable = []
                  then decision KindDefer ''idle-no-comfortable-target'' [] []
                         (events @ [event EventIgnored ''idle-no-comfortable-target'' [] []
                            [(''skipped'', skipParams f)]])
                  else moveDecision fmt f events comfortable)
               else moveDecision fmt f events ordered))"

definition Decide :: "formatters \<Rightarrow> Facts \<Rightarrow> Decision" where
  "Decide fmt f =
     (case decideScope f of
        Some d \<Rightarrow> d
      | None \<Rightarrow>
          (let s = f_Session f; walled = walledSession s in
           if \<not> walled \<and> \<not> idleHot f then decision KindNoop ''no-trigger'' [] [] []
           else
             (let (confirmed, creason) = confirmWall s (sf_Account s = []) f;
                  events = (if walled then [wallEvent fmt f] else [])
              in if walled \<and> \<not> confirmed then decision KindReportOnly creason [] [] events
                 else
                   (case blockers fmt f of
                      (kind, reason, e) # bs \<Rightarrow>
                        decision kind reason [] []
                          (events @ map (snd \<circ> snd) ((kind, reason, e) # bs) @ driftEvents f)
                    | [] \<Rightarrow> decideCandidates fmt f events))))"

end
