(* ===== verification/Decide_Lemmas.thy ===== *)
theory Decide_Lemmas
  imports Handoff_Decide
begin

text \<open>
  The lemmas on the account-handoff decision: the stable sort is the library's sort by a
  lexicographic key, the scope, blocker and filter phases are the plain predicates
  \<open>governed\<close>, \<open>unblocked\<close> and \<open>eligibleAccount\<close>, and the shape of a decision to move.
\<close>

subsection \<open>Vocabulary\<close>

text \<open>The order of candidates, as one key: tier, worst percent, effective occupancy, position.\<close>

definition candidateKey :: "rat \<Rightarrow> scoredAccount \<Rightarrow> nat \<times> rat \<times> int \<times> nat" where
  "candidateKey prefer c =
     (candidateTier prefer c,
      if rf_Status (af_Reading (sa_facts c)) = ReadingObserved
      then worstPercent (af_Reading (sa_facts c)) else 0,
      af_Occupancy (sa_facts c) + af_RecentMoveCredits (sa_facts c),
      sa_index c)"

text \<open>A session the engine governs, one nothing holds back, and an account it may move to.\<close>

definition governed :: "Facts \<Rightarrow> bool" where
  "governed f \<longleftrightarrow>
     (let s = f_Session f; cfg = f_Config f in
      sf_Started s \<and> sf_Live s \<and> sf_Agent s \<noteq> [] \<and> sf_SwapCapable s \<and>
      (\<forall>e\<in>set (hc_ExcludeSessions cfg). TrimSpace e \<noteq> sf_Title s) \<and>
      (sf_Account s \<noteq> [] \<and> \<not> sf_AutoSelected s \<longrightarrow> hc_IncludePinned cfg) \<and>
      (sf_Account s = [] \<longrightarrow> hc_DefaultLogin cfg = ''move''))"

definition unblocked :: "Facts \<Rightarrow> bool" where
  "unblocked f \<longleftrightarrow>
     (let s = f_Session f; cfg = f_Config f; rails = f_Rails f in
      sf_Captured s \<and> sf_DraftCertain s \<and> \<not> sf_Draft s \<and> \<not> sf_PendingOp s \<and> \<not> sf_Attached s \<and>
      \<not> sf_VSCodeTab s \<and> \<not> rl_Halted rails \<and> rl_MovesInWindow rails < hc_MaxMoves cfg \<and>
      (rl_RefusedUntil rails = 0 \<or> rl_RefusedUntil rails \<le> f_Now f) \<and>
      (hc_RequireCarry cfg \<longrightarrow> sf_CarryPossible s))"

definition eligibleAccount :: "Facts \<Rightarrow> AccountFacts \<Rightarrow> bool" where
  "eligibleAccount f a \<longleftrightarrow>
     af_Name a \<noteq> sf_Account (f_Session f) \<and> af_Registered a \<and> \<not> af_Limited a \<and> af_Drift a = [] \<and>
     (rf_Status (af_Reading a) = ReadingObserved \<longrightarrow>
       (\<forall>w\<in>set (rf_Windows (af_Reading a)).
          wf_UsedPercent w < of_int (hc_WallPercent (f_Config f))))"

abbreviation wallConfirmed :: "Facts \<Rightarrow> bool" where
  "wallConfirmed f \<equiv> fst (confirmWall (f_Session f) (sf_Account (f_Session f) = []) f)"

subsection \<open>The stable sort\<close>

lemma takeWhile_dropWhile_rev:
  "ys = rev (dropWhile P (rev ys)) @ rev (takeWhile P (rev ys))"
  by (metis rev_append rev_rev_ident takeWhile_dropWhile_id)

lemma insertStable_split:
  obtains A B where "ys = A @ B" "insertStable lt ys x = A @ x # B" "\<forall>y\<in>set B. lt x y"
    "A = [] \<or> \<not> lt x (last A)"
proof
  let ?A = "rev (dropWhile (lt x) (rev ys))" and ?B = "rev (takeWhile (lt x) (rev ys))"
  show "ys = ?A @ ?B" by (rule takeWhile_dropWhile_rev)
  show "insertStable lt ys x = ?A @ x # ?B" by (simp add: insertStable_def)
  show "\<forall>y\<in>set ?B. lt x y" by (auto dest: set_takeWhileD)
  show "?A = [] \<or> \<not> lt x (last ?A)"
    by (metis hd_dropWhile last_rev rev_is_Nil_conv)
qed

lemma mset_insertStable: "mset (insertStable lt ys x) = add_mset x (mset ys)"
  by (rule insertStable_split [of ys lt x]) simp

lemma mset_SliceStable_aux: "mset (foldl (insertStable lt) acc xs) = mset acc + mset xs"
  by (induction xs arbitrary: acc) (auto simp: mset_insertStable)

lemma mset_SliceStable: "mset (SliceStable lt xs) = mset xs"
  by (simp add: SliceStable_def mset_SliceStable_aux)

lemma insertStable_sorted:
  fixes f :: "'a \<Rightarrow> 'b::linorder"
  assumes "\<And>a b. lt a b \<longleftrightarrow> f a < f b" and "sorted (map f ys)"
  shows "sorted (map f (insertStable lt ys x))"
proof (rule insertStable_split [of ys lt x])
  fix A B assume *: "ys = A @ B" "insertStable lt ys x = A @ x # B" "\<forall>y\<in>set B. lt x y"
    "A = [] \<or> \<not> lt x (last A)"
  have "f y \<le> f x" if "y \<in> set A" for y
    using that *(1,4) assms by (cases A rule: rev_cases) (auto simp: sorted_append not_less)
  then show ?thesis using * assms by (auto simp: sorted_append less_imp_le)
qed

lemma insertStable_filter:
  fixes f :: "'a \<Rightarrow> 'b::linorder"
  assumes "\<And>a b. lt a b \<longleftrightarrow> f a < f b"
  shows "filter (\<lambda>y. k = f y) (insertStable lt ys x) =
         filter (\<lambda>y. k = f y) ys @ (if k = f x then [x] else [])"
proof (rule insertStable_split [of ys lt x])
  fix A B assume *: "ys = A @ B" "insertStable lt ys x = A @ x # B" "\<forall>y\<in>set B. lt x y"
  then have "k = f x \<Longrightarrow> filter (\<lambda>y. k = f y) B = []" using assms by (auto simp: filter_empty_conv)
  with * show ?thesis by simp
qed

lemma SliceStable_filter:
  fixes f :: "'a \<Rightarrow> 'b::linorder"
  assumes "\<And>a b. lt a b \<longleftrightarrow> f a < f b"
  shows "filter (\<lambda>y. k = f y) (SliceStable lt xs) = filter (\<lambda>y. k = f y) xs"
proof -
  have "filter (\<lambda>y. k = f y) (foldl (insertStable lt) acc xs) =
        filter (\<lambda>y. k = f y) acc @ filter (\<lambda>y. k = f y) xs" for acc
    by (induction xs arbitrary: acc) (simp_all add: insertStable_filter [OF assms])
  then show ?thesis by (simp add: SliceStable_def)
qed

lemma SliceStable_sorted:
  fixes f :: "'a \<Rightarrow> 'b::linorder"
  assumes "\<And>a b. lt a b \<longleftrightarrow> f a < f b"
  shows "sorted (map f (SliceStable lt xs))"
proof -
  have "sorted (map f acc) \<Longrightarrow> sorted (map f (foldl (insertStable lt) acc xs))" for acc
    by (induction xs arbitrary: acc) (simp_all add: insertStable_sorted [OF assms])
  then show ?thesis by (simp add: SliceStable_def)
qed

text \<open>Sorting by a comparison that a key decides is the library's stable sort by that key.\<close>

lemma SliceStable_sort_key:
  fixes f :: "'a \<Rightarrow> 'b::linorder"
  assumes "\<And>a b. lt a b \<longleftrightarrow> f a < f b"
  shows "SliceStable lt xs = sort_key f xs"
  by (rule properties_for_sort_key [symmetric])
     (simp_all add: mset_SliceStable SliceStable_sorted [OF assms] SliceStable_filter [OF assms])

lemma tier_observed:
  "candidateTier prefer c \<le> 2 \<longleftrightarrow> rf_Status (af_Reading (sa_facts c)) = ReadingObserved"
  by (simp add: candidateTier_def Let_def split: option.splits)

lemma candidateLess_key: "candidateLess prefer a b \<longleftrightarrow> candidateKey prefer a < candidateKey prefer b"
proof (cases "candidateTier prefer a = candidateTier prefer b")
  case True
  then have "rf_Status (af_Reading (sa_facts a)) = ReadingObserved \<longleftrightarrow>
      rf_Status (af_Reading (sa_facts b)) = ReadingObserved"
    by (metis tier_observed)
  with True show ?thesis by (auto simp: candidateLess_def candidateKey_def Let_def less_prod_simp)
next
  case False
  then show ?thesis by (auto simp: candidateLess_def candidateKey_def Let_def)
qed

subsection \<open>The phases as predicates\<close>

lemma governed_scope: "governed f \<longleftrightarrow> decideScope f = None"
  by (auto simp: governed_def decideScope_def pinnedSession_def excludedSession_def Let_def)

lemma unblocked_blockers: "unblocked f \<longleftrightarrow> blockers fmt f = []"
  by (auto simp: unblocked_def blockers_def draftBlockers_def blockIf_def isZero_def Let_def)

lemma not_hot_iff:
  "\<not> readingAtOrAbove r pct now grace \<and> \<not> readingStaleHigh r pct now grace \<longleftrightarrow>
     (rf_Status r = ReadingObserved \<longrightarrow> (\<forall>w\<in>set (rf_Windows r). wf_UsedPercent w < pct))"
  by (force simp: readingAtOrAbove_def readingStaleHigh_def not_less split: option.splits)

lemma eligible_classify: "fst (classifyCandidate f a) = [] \<longleftrightarrow> eligibleAccount f a"
  unfolding eligibleAccount_def not_hot_iff [where now = "f_Now f" and grace = "f_ResetGrace f", symmetric]
  by (simp add: classifyCandidate_def Let_def)

lemma eligibleCandidates_facts:
  "map sa_facts (eligibleCandidates f) = filter (eligibleAccount f) (f_Accounts f)"
proof -
  have "map sa_facts (concat (map (\<lambda>(i, a). if fst (classifyCandidate f a) = []
          then [\<lparr>sa_facts = a, sa_index = i\<rparr>] else []) (enumerate n xs))) =
        filter (eligibleAccount f) xs" for n xs
    by (induction xs arbitrary: n) (auto simp: eligible_classify)
  then show ?thesis by (simp add: eligibleCandidates_def)
qed

lemma set_orderCandidates:
  "set (orderCandidates cs cfg) = (af_Name \<circ> sa_facts) ` set cs"
proof -
  have "set (SliceStable lt cs) = set cs" for lt
    using mset_SliceStable [of lt cs] by (metis set_mset_mset)
  then show ?thesis by (simp add: orderCandidates_def image_comp)
qed

lemma length_orderCandidates: "length (orderCandidates cs cfg) = length cs"
  using mset_SliceStable [of "candidateLess (of_int (hc_PreferBelowPercent cfg))" cs]
  by (auto simp: orderCandidates_def dest: mset_eq_length)

lemma ordered_names:
  "set (orderCandidates (eligibleCandidates f) cfg) = af_Name ` {a \<in> set (f_Accounts f). eligibleAccount f a}"
proof -
  have "sa_facts ` set (eligibleCandidates f) = {a \<in> set (f_Accounts f). eligibleAccount f a}"
    using arg_cong [OF eligibleCandidates_facts, of set f] by (auto simp: set_filter)
  then show ?thesis by (simp only: set_orderCandidates image_comp [symmetric])
qed

lemma eligible_empty: "eligibleCandidates f = [] \<longleftrightarrow> \<not> (\<exists>a\<in>set (f_Accounts f). eligibleAccount f a)"
  using eligibleCandidates_facts [of f] by (metis Nil_is_map_conv filter_empty_conv)

lemma byName_eligible:
  "byName (eligibleCandidates f) n = Some a \<Longrightarrow> a \<in> set (f_Accounts f) \<and> eligibleAccount f a \<and> af_Name a = n"
proof -
  assume "byName (eligibleCandidates f) n = Some a"
  then have "(n, a) \<in> set (map (\<lambda>c. (af_Name (sa_facts c), sa_facts c)) (eligibleCandidates f))"
    unfolding byName_def by (metis map_of_SomeD set_rev)
  then have "af_Name a = n" "a \<in> set (map sa_facts (eligibleCandidates f))" by auto
  then show ?thesis by (simp add: eligibleCandidates_facts)
qed

lemma decide_kind_move:
  "d_Kind (Decide fmt f) = KindMove \<longleftrightarrow>
     governed f \<and> unblocked f \<and>
     (walledSession (f_Session f) \<and> wallConfirmed f \<or> idleHot f) \<and>
     (\<exists>a\<in>set (f_Accounts f). eligibleAccount f a) \<and>
     (idleHot f \<longrightarrow> comfortableNames f (eligibleCandidates f)
        (orderCandidates (eligibleCandidates f) (f_Config f)) \<noteq> [])"
proof (cases "governed f \<and> unblocked f")
  case True
  then have "decideScope f = None" "blockers fmt f = []"
    by (simp_all add: governed_scope unblocked_blockers [of f fmt])
  moreover have "idleHot f \<Longrightarrow> \<not> walledSession (f_Session f)" by (simp add: idleHot_def Let_def)
  ultimately show ?thesis using True
    by (auto simp: Decide_def decideCandidates_def moveDecision_def Let_def eligible_empty split: prod.splits)
next
  case False
  have scope: "decideScope f = Some d \<Longrightarrow> d_Kind d = KindNoop" for d
    by (auto simp: decideScope_def ignored_def Let_def split: if_splits)
  have block: "blockers fmt f = (k, r, e) # bs \<Longrightarrow> k \<noteq> KindMove" for k r e bs
    by (auto simp: blockers_def draftBlockers_def blockIf_def Let_def split: if_splits)
  show ?thesis using False
    by (auto simp: governed_scope unblocked_blockers [of f fmt] Decide_def Let_def
        split: option.splits list.splits prod.splits dest: scope block)
qed

lemma decide_move_shape:
  assumes "d_Kind (Decide fmt f) = KindMove"
  shows "let d = Decide fmt f; ordered = orderCandidates (eligibleCandidates f) (f_Config f) in
     d_Reason d = decideTrigger f \<and> d_Candidates d \<noteq> [] \<and> d_To d = hd (d_Candidates d) \<and>
     d_Candidates d = (if idleHot f then comfortableNames f (eligibleCandidates f) ordered else ordered)"
proof -
  note k = assms [unfolded decide_kind_move]
  then have scope: "decideScope f = None" "blockers fmt f = []"
    by (simp_all add: governed_scope unblocked_blockers [of f fmt])
  have idle: "idleHot f \<Longrightarrow> \<not> walledSession (f_Session f)" by (simp add: idleHot_def Let_def)
  have ne: "eligibleCandidates f \<noteq> []" using k by (simp add: eligible_empty)
  then have "orderCandidates (eligibleCandidates f) (f_Config f) \<noteq> []"
    by (metis length_0_conv length_orderCandidates)
  with k scope idle ne show ?thesis
    by (auto simp: Decide_def decideCandidates_def moveDecision_def Let_def split: prod.splits)
qed

lemma byName_distinct:
  assumes "distinct (map af_Name (f_Accounts f))" "a \<in> set (f_Accounts f)" "eligibleAccount f a"
  shows "byName (eligibleCandidates f) (af_Name a) = Some a"
proof -
  let ?m = "map (\<lambda>c. (af_Name (sa_facts c), sa_facts c)) (eligibleCandidates f)"
  have m: "?m = map (\<lambda>a. (af_Name a, a)) (filter (eligibleAccount f) (f_Accounts f))"
    by (simp only: eligibleCandidates_facts [symmetric] map_map comp_def)
  have "map fst ?m = map af_Name (filter (eligibleAccount f) (f_Accounts f))"
    unfolding m by (simp add: comp_def)
  then have "distinct (map fst ?m)" using assms(1) by (simp add: distinct_map_filter)
  moreover have "(af_Name a, a) \<in> set ?m" unfolding m using assms by auto
  ultimately show ?thesis
    unfolding byName_def by (intro map_of_is_SomeI) (simp_all only: rev_map [symmetric] distinct_rev set_rev)
qed

lemma comfortable_exists:
  assumes "distinct (map af_Name (f_Accounts f))"
  shows "comfortableNames f (eligibleCandidates f) (orderCandidates (eligibleCandidates f) (f_Config f)) \<noteq> []
    \<longleftrightarrow> (\<exists>a\<in>set (f_Accounts f). eligibleAccount f a \<and> comfortableAccount (f_Config f) a)"
proof
  assume "comfortableNames f (eligibleCandidates f)
      (orderCandidates (eligibleCandidates f) (f_Config f)) \<noteq> []"
  then show "\<exists>a\<in>set (f_Accounts f). eligibleAccount f a \<and> comfortableAccount (f_Config f) a"
    by (auto simp: comfortableNames_def filter_empty_conv dest: byName_eligible split: option.splits)
next
  assume "\<exists>a\<in>set (f_Accounts f). eligibleAccount f a \<and> comfortableAccount (f_Config f) a"
  then obtain a where a: "a \<in> set (f_Accounts f)" "eligibleAccount f a"
    "comfortableAccount (f_Config f) a" by blast
  then have "af_Name a \<in> set (orderCandidates (eligibleCandidates f) (f_Config f))"
    unfolding ordered_names by blast
  with a byName_distinct [OF assms a(1,2)] show "comfortableNames f (eligibleCandidates f)
      (orderCandidates (eligibleCandidates f) (f_Config f)) \<noteq> []"
    by (auto simp: comfortableNames_def filter_empty_conv intro!: bexI [of _ "af_Name a"])
qed

lemma worst_ge:
  assumes "worstWindow r = Some v" and "w \<in> set (rf_Windows r)"
  shows "wf_UsedPercent w \<le> wf_UsedPercent v"
proof -
  let ?g = "\<lambda>worst w. case worst of None \<Rightarrow> Some w
     | Some v \<Rightarrow> if wf_UsedPercent w > wf_UsedPercent v then Some w else Some v"
  have "\<lbrakk>foldl ?g acc ws = Some v\<rbrakk> \<Longrightarrow> (\<forall>u. acc = Some u \<longrightarrow> wf_UsedPercent u \<le> wf_UsedPercent v) \<and>
     (\<forall>w\<in>set ws. wf_UsedPercent w \<le> wf_UsedPercent v)" for acc ws
    by (induction ws arbitrary: acc) (force split: option.splits if_splits)+
  then show ?thesis using assms unfolding worstWindow_def by blast
qed

end
