(* ===== verification/Decide_Props.thy ===== *)
theory Decide_Props
  imports Decide_Lemmas
begin

text \<open>
  The properties of the account-handoff decision. The sample is a session parked on the
  account \<^verbatim>\<open>work\<close>, whose own usage record shows a window at 98 percent, with a registered
  account at 20 percent and a limited one as candidates.
\<close>

definition sampleFmt :: formatters where
  "sampleFmt = \<lparr>fmtFloat = (\<lambda>_. ''p''), fmtTime = (\<lambda>_. ''t'')\<rparr>"

definition sampleReading :: "rat \<Rightarrow> ReadingFacts" where
  "sampleReading p =
     \<lparr>rf_Status = ReadingObserved,
      rf_Windows = [\<lparr>wf_Name = ''5h'', wf_UsedPercent = p, wf_ResetsAt = Some 900\<rparr>],
      rf_RecordedAt = 90, rf_Complete = True\<rparr>"

definition sampleAccount :: "string \<Rightarrow> bool \<Rightarrow> rat \<Rightarrow> AccountFacts" where
  "sampleAccount n limited p =
     \<lparr>af_Name = n, af_Registered = True, af_Limited = limited, af_Drift = [], af_Occupancy = 1,
      af_RecentMoveCredits = 0, af_Reading = sampleReading p\<rparr>"

definition sampleSession :: "bool \<Rightarrow> rat \<Rightarrow> SessionFacts" where
  "sampleSession parked p =
     \<lparr>sf_Key = ''k'', sf_Title = ''task'', sf_Agent = ''claude'', sf_Account = ''work'',
      sf_AutoSelected = True, sf_Started = True, sf_Live = True, sf_Parked = parked,
      sf_WallBanner = False, sf_WallObservedAt = 50, sf_LimitAccount = [], sf_Captured = True,
      sf_Working = False, sf_Draft = False, sf_DraftCertain = True, sf_Attached = False,
      sf_VSCodeTab = False, sf_PendingOp = False, sf_SwapCapable = True, sf_CarryPossible = True,
      sf_Reading = sampleReading p\<rparr>"

definition sampleFacts :: "bool \<Rightarrow> rat \<Rightarrow> Facts" where
  "sampleFacts parked p =
     \<lparr>f_Now = 100, f_ResetGrace = 5, f_ProofMargin = 10, f_Session = sampleSession parked p,
      f_Accounts = [sampleAccount ''old'' True 10, sampleAccount ''spare'' False 20],
      f_Rails = \<lparr>rl_Halted = False, rl_HaltReason = [], rl_MovesInWindow = 0, rl_RefusedUntil = 0\<rparr>,
      f_Config = defaultAccountHandoffConfig\<lparr>hc_Mode := ''shadow''\<rparr>\<rparr>"

lemmas facts_eval =
  sampleFmt_def sampleReading_def sampleAccount_def sampleSession_def sampleFacts_def
  defaultAccountHandoffConfig_def

lemmas decide_eval =
  facts_eval Decide_def decideScope_def walledSession_def idleHot_def confirmWall_def wallEvent_def
  blockers_def draftBlockers_def blockIf_def decideCandidates_def moveDecision_def decideTrigger_def
  decideFrom_def eligibleCandidates_def classifyCandidate_def orderCandidates_def byName_def
  comfortableNames_def comfortableAccount_def readingAtOrAbove_def readingStaleHigh_def
  worstWindow_def pinnedSession_def excludedSession_def isZero_def Let_def

subsection \<open>When a session moves, and where to\<close>

text \<open>C2. With distinct candidate names, the engine moves a session exactly when it governs it,
  nothing holds it back, and either a confirmed wall has an eligible account or a provably
  idle, hot session has an eligible account whose observed usage is comfortable.\<close>

theorem move_iff:
  assumes "distinct (map af_Name (f_Accounts f))"
  shows "d_Kind (Decide fmt f) = KindMove \<longleftrightarrow>
     governed f \<and> unblocked f \<and>
     (walledSession (f_Session f) \<and> wallConfirmed f \<and> (\<exists>a\<in>set (f_Accounts f). eligibleAccount f a) \<or>
      idleHot f \<and>
        (\<exists>a\<in>set (f_Accounts f). eligibleAccount f a \<and> comfortableAccount (f_Config f) a))"
  unfolding decide_kind_move comfortable_exists [OF assms] by (auto simp: idleHot_def Let_def)

theorem move_iff_witness: "d_Kind (Decide sampleFmt (sampleFacts True 98)) = KindMove"
  by (subst move_iff)
     (simp_all add: facts_eval governed_def unblocked_def walledSession_def confirmWall_def
       readingAtOrAbove_def eligibleAccount_def)

text \<open>Every account a move may be admitted through, the chosen first one included, is a
  configured candidate other than the current account that is registered, not limited, not
  drifted and not observed at or above the wall in any window.\<close>

theorem move_target_sound:
  assumes "d_Kind (Decide fmt f) = KindMove" and "c \<in> set (d_Candidates (Decide fmt f))"
  shows "d_To (Decide fmt f) = hd (d_Candidates (Decide fmt f)) \<and>
    (\<exists>a\<in>set (f_Accounts f). af_Name a = c \<and> c \<noteq> sf_Account (f_Session f) \<and> af_Registered a \<and>
       \<not> af_Limited a \<and> af_Drift a = [] \<and>
       (rf_Status (af_Reading a) = ReadingObserved \<longrightarrow>
         (\<forall>w\<in>set (rf_Windows (af_Reading a)).
            wf_UsedPercent w < of_int (hc_WallPercent (f_Config f)))))"
proof -
  note s = decide_move_shape [OF assms(1), unfolded Let_def]
  then have "c \<in> set (orderCandidates (eligibleCandidates f) (f_Config f))"
    using assms(2) by (auto simp: comfortableNames_def split: if_splits)
  with s show ?thesis
    unfolding ordered_names by (auto simp: eligibleAccount_def)
qed

theorem move_target_sound_witness:
  "d_To (Decide sampleFmt (sampleFacts True 98)) = hd (d_Candidates (Decide sampleFmt (sampleFacts True 98)))
   \<and> ''spare'' \<in> set (d_Candidates (Decide sampleFmt (sampleFacts True 98)))"
proof -
  have k: "d_Kind (Decide sampleFmt (sampleFacts True 98)) = KindMove"
    and c: "''spare'' \<in> set (d_Candidates (Decide sampleFmt (sampleFacts True 98)))"
    by (simp_all add: decide_eval)
  from move_target_sound [OF k c] c show ?thesis by blast
qed

text \<open>An early move takes an idle session to a strictly better account: under a valid table,
  every observed window of the target is below a window the source's own reading holds.\<close>

theorem idle_move_improves:
  assumes "validateAccountHandoff (f_Config f) = None"
    and "d_Kind (Decide fmt f) = KindMove" and "d_Reason (Decide fmt f) = ''idle''"
  shows "\<not> sf_Working (f_Session f) \<and> sf_Captured (f_Session f) \<and>
    (\<exists>a\<in>set (f_Accounts f). af_Name a = d_To (Decide fmt f) \<and> rf_Status (af_Reading a) = ReadingObserved \<and>
      (\<exists>h\<in>set (rf_Windows (sf_Reading (f_Session f))).
        \<forall>w\<in>set (rf_Windows (af_Reading a)). wf_UsedPercent w < wf_UsedPercent h))"
proof -
  note s = decide_move_shape [OF assms(2), unfolded Let_def]
  have idle: "idleHot f" using assms(3) s by (simp add: decideTrigger_def split: if_splits)
  then have i: "hc_MoveIdleAtPercent (f_Config f) > 0" "sf_Captured (f_Session f)"
    "\<not> sf_Working (f_Session f)" and hot: "readingAtOrAbove (sf_Reading (f_Session f))
      (of_int (hc_MoveIdleAtPercent (f_Config f))) (f_Now f) (f_ResetGrace f)"
    by (auto simp: idleHot_def Let_def)
  from hot obtain h where h: "h \<in> set (rf_Windows (sf_Reading (f_Session f)))"
    "of_int (hc_MoveIdleAtPercent (f_Config f)) \<le> wf_UsedPercent h"
    by (auto simp: readingAtOrAbove_def not_less split: if_splits)
  have order: "hc_PreferBelowPercent (f_Config f) < hc_MoveIdleAtPercent (f_Config f)"
    using valid_table(4) [OF assms(1)] i by auto
  have "d_To (Decide fmt f) \<in> set (d_Candidates (Decide fmt f))"
    using s hd_in_set by metis
  then obtain a where a: "a \<in> set (f_Accounts f)" "af_Name a = d_To (Decide fmt f)"
    "comfortableAccount (f_Config f) a"
    using s idle by (auto simp: comfortableNames_def dest: byName_eligible split: option.splits)
  then obtain v where v: "worstWindow (af_Reading a) = Some v"
    "wf_UsedPercent v < of_int (hc_PreferBelowPercent (f_Config f))"
    "rf_Status (af_Reading a) = ReadingObserved"
    by (auto simp: comfortableAccount_def split: option.splits)
  have "wf_UsedPercent w < wf_UsedPercent h" if "w \<in> set (rf_Windows (af_Reading a))" for w
  proof -
    have "wf_UsedPercent w \<le> wf_UsedPercent v" by (rule worst_ge [OF v(1) that])
    also have "\<dots> < of_int (hc_PreferBelowPercent (f_Config f))" by (rule v(2))
    also have "\<dots> < of_int (hc_MoveIdleAtPercent (f_Config f))" using order by simp
    finally show ?thesis using h(2) by simp
  qed
  with a v h i show ?thesis by blast
qed

theorem idle_move_improves_witness:
  "validateAccountHandoff (f_Config (sampleFacts False 96)) = None \<and>
   \<not> sf_Working (f_Session (sampleFacts False 96)) \<and>
   d_Reason (Decide sampleFmt (sampleFacts False 96)) = ''idle''"
proof -
  have v: "validateAccountHandoff (f_Config (sampleFacts False 96)) = None"
    by code_simp
  have k: "d_Kind (Decide sampleFmt (sampleFacts False 96)) = KindMove"
    and r: "d_Reason (Decide sampleFmt (sampleFacts False 96)) = ''idle''"
    by (simp_all add: decide_eval)
  from idle_move_improves [OF v k r] v r show ?thesis by blast
qed

subsection \<open>Evidence\<close>

text \<open>A walled session on a named account moves only on usage evidence: with confirmation
  required, a move implies a window at or above the wall whose reset is not past, and an
  unconfirmed wall is reported by one wall event and nothing else follows.\<close>

theorem named_wall_needs_evidence:
  assumes "hc_ConfirmWall (f_Config f)" "sf_Account (f_Session f) \<noteq> []" "walledSession (f_Session f)"
  shows "(d_Kind (Decide fmt f) = KindMove \<longrightarrow>
       (\<exists>w\<in>set (rf_Windows (sf_Reading (f_Session f))).
          of_int (hc_WallPercent (f_Config f)) \<le> wf_UsedPercent w \<and>
          (case wf_ResetsAt w of None \<Rightarrow> True | Some t \<Rightarrow> f_Now f < t + f_ResetGrace f))) \<and>
     (governed f \<and> \<not> wallConfirmed f \<longrightarrow>
        d_Kind (Decide fmt f) = KindReportOnly \<and> d_Candidates (Decide fmt f) = [] \<and>
        map ev_Kind (d_Events (Decide fmt f)) = [EventWall])"
proof (intro conjI impI)
  assume "d_Kind (Decide fmt f) = KindMove"
  then have "wallConfirmed f" using assms(3) by (auto simp: decide_kind_move idleHot_def Let_def)
  then show "\<exists>w\<in>set (rf_Windows (sf_Reading (f_Session f))).
          of_int (hc_WallPercent (f_Config f)) \<le> wf_UsedPercent w \<and>
          (case wf_ResetsAt w of None \<Rightarrow> True | Some t \<Rightarrow> f_Now f < t + f_ResetGrace f)"
    using assms(1,2) by (auto simp: confirmWall_def readingAtOrAbove_def not_less Let_def split: if_splits)
next
  assume g: "governed f \<and> \<not> wallConfirmed f"
  then have "decideScope f = None" by (simp add: governed_scope)
  with g assms(3) have "d_Kind (Decide fmt f) = KindReportOnly \<and> d_Candidates (Decide fmt f) = [] \<and>
        map ev_Kind (d_Events (Decide fmt f)) = [EventWall]"
    by (auto simp: Decide_def wallEvent_def Let_def split: prod.splits)
  then show "d_Kind (Decide fmt f) = KindReportOnly" "d_Candidates (Decide fmt f) = []"
    "map ev_Kind (d_Events (Decide fmt f)) = [EventWall]" by blast+
qed

theorem named_wall_needs_evidence_witness:
  "d_Kind (Decide sampleFmt (sampleFacts True 40)) = KindReportOnly \<and>
   map ev_Kind (d_Events (Decide sampleFmt (sampleFacts True 40))) = [EventWall]"
proof -
  have "hc_ConfirmWall (f_Config (sampleFacts True 40))" "sf_Account (f_Session (sampleFacts True 40)) \<noteq> []"
    "walledSession (f_Session (sampleFacts True 40))"
    "governed (sampleFacts True 40) \<and> \<not> wallConfirmed (sampleFacts True 40)"
    by (simp_all add: facts_eval walledSession_def governed_def confirmWall_def readingAtOrAbove_def
        readingBelowAllFresh_def isZero_def)
  with named_wall_needs_evidence [of "sampleFacts True 40" sampleFmt] show ?thesis by blast
qed

text \<open>A complete, calm usage record written provably after the wall refutes it: such a
  session is never moved, neither on its own account nor parked on the ambient login.\<close>

theorem recovered_wall_refuted:
  assumes "hc_ConfirmWall (f_Config f)" and "sf_Account (f_Session f) \<noteq> [] \<or> sf_Parked (f_Session f)"
    and "readingBelowAllFresh (sf_Reading (f_Session f)) (of_int (hc_WallPercent (f_Config f)))
           (sf_WallObservedAt (f_Session f)) (f_Now f) (f_ProofMargin f)"
    and "walledSession (f_Session f)"
  shows "d_Kind (Decide fmt f) \<in> {KindNoop, KindReportOnly}"
proof -
  have "\<not> readingAtOrAbove (sf_Reading (f_Session f)) (of_int (hc_WallPercent (f_Config f))) (f_Now f)
      (f_ResetGrace f)"
    using assms(3) by (auto simp: readingAtOrAbove_def readingBelowAllFresh_def split: if_splits)
  with assms have "confirmWall (f_Session f) (sf_Account (f_Session f) = []) f = (False, ''wall-recovered'')"
    by (auto simp: confirmWall_def Let_def)
  with assms(4) show ?thesis
    by (auto simp: Decide_def decideScope_def ignored_def Let_def)
qed

theorem recovered_wall_refuted_witness:
  "d_Kind (Decide sampleFmt (sampleFacts True 40)) \<in> {KindNoop, KindReportOnly}"
  by (rule recovered_wall_refuted)
     (simp_all add: facts_eval readingBelowAllFresh_def walledSession_def isZero_def)

text \<open>The order \<^verbatim>\<open>emptiest\<close> is the stable sort by tier, worst percent, effective occupancy and
  configured position, in that order of precedence.\<close>

theorem emptiest_order:
  "hc_TargetOrder cfg = ''emptiest'' \<Longrightarrow>
   orderCandidates cs cfg =
     map (af_Name \<circ> sa_facts) (sort_key (candidateKey (of_int (hc_PreferBelowPercent cfg))) cs)"
  by (simp add: orderCandidates_def SliceStable_sort_key [OF candidateLess_key])

theorem emptiest_order_witness:
  "orderCandidates [\<lparr>sa_facts = sampleAccount ''a'' False 60, sa_index = 0\<rparr>,
                    \<lparr>sa_facts = sampleAccount ''b'' False 20, sa_index = 1\<rparr>]
     (defaultAccountHandoffConfig\<lparr>hc_TargetOrder := ''emptiest''\<rparr>) = [''b'', ''a'']"
  by (subst emptiest_order)
     (simp_all add: facts_eval candidateKey_def candidateTier_def worstPercent_def worstWindow_def)

end
