(* ===== verification/Handoff_Store.thy ===== *)
theory Handoff_Store
  imports Go_Strings
begin

text \<open>
  The durable auto-handoff state file of \<^verbatim>\<open>src/handoff/state.go\<close> and the preserving rewrite of
  \<^verbatim>\<open>src/handoff/store_io.go\<close>. A file is absent, a symbolic link, text that is no JSON object, or
  a JSON object: its top-level fields, each with the shape its value has. Keys are spelled as
  the code writes them. The locale \<open>durable_doc\<close> is the contract between a modelled document
  and the preserving rewrite; the state and the rails documents interpret it.

  An operation takes \<open>io\<close>: whether the file lock was taken and the atomic write succeeded, and
  whether the best-effort strip of migrated keys succeeded.
\<close>

subsection \<open>Documents\<close>

record Halt =
  hl_At :: gtime
  hl_Reason :: string

record RecentMove =
  rm_SessionKey :: string
  rm_Agent :: string
  rm_Account :: string
  rm_At :: gtime

record UnrecordedCarry =
  uc_At :: gtime
  uc_Covered :: int

record AccountQuarantine =
  aq_At :: gtime
  aq_Path :: string
  aq_Covered :: int

text \<open>A quarantine marker on disk: the bare timestamp of the first builds, or the full record.\<close>

datatype carryWire = WireBare gtime | WireFull UnrecordedCarry

datatype jfield =
    FNull
  | FInt int
  | FPrefixes "int gomap"
  | FHalt Halt
  | FMoves "RecentMove list"
  | FRefused "gtime gomap"
  | FHeld gtime
  | FCarries "carryWire gomap"
  | FQuarantined "AccountQuarantine gomap"
  | FOther string

type_synonym doc = "jfield gomap"

datatype handoffFile = Absent | Symlink | Corrupt | Doc doc

datatype storeError =
    ErrSymlink | ErrDecode | ErrSchema int | ErrNegativePrefix | ErrHaltIncomplete
  | ErrMoveIncomplete | ErrRefusedKey | ErrHeldSince | ErrCarryIncomplete | ErrQuarantineIncomplete
  | ErrArgument | ErrIO

text \<open>The read without following links; \<open>None\<close> is a missing file.\<close>

fun readFileNoFollow :: "handoffFile \<Rightarrow> storeError + handoffFile option" where
  "readFileNoFollow Absent = Inr None"
| "readFileNoFollow Symlink = Inl ErrSymlink"
| "readFileNoFollow f = Inr (Some f)"

text \<open>\<^verbatim>\<open>json.Unmarshal\<close> into the raw top-level fields.\<close>

fun rawFields :: "handoffFile \<Rightarrow> storeError + doc" where
  "rawFields (Doc d) = Inr d"
| "rawFields _ = Inl ErrDecode"

text \<open>The write-back: the emitted fields, and every field of the original document no model owns.\<close>

definition marshalPreserving :: "doc \<Rightarrow> doc \<Rightarrow> string set \<Rightarrow> doc" where
  "marshalPreserving emitted extras known =
     emitted @ filter (\<lambda>(k, v). k \<notin> known \<and> map_of emitted k = None) extras"

locale durable_doc =
  fixes encode :: "'m \<Rightarrow> doc"
    and decode :: "doc \<Rightarrow> storeError + 'm"
    and known :: "string set"
    and ok :: "'m \<Rightarrow> bool"
  assumes encode_known: "map_of (encode m) k \<noteq> None \<Longrightarrow> k \<in> known"
    and decode_local: "(\<And>k. k \<in> known \<Longrightarrow> map_of d k = map_of d' k) \<Longrightarrow> decode d = decode d'"
    and decode_encode: "ok m \<Longrightarrow> decode (encode m) = Inr m"
    and decode_ok: "decode d = Inr m \<Longrightarrow> ok m"
begin

lemma marshal_unknown:
  assumes "k \<notin> known"
  shows "map_of (marshalPreserving (encode m) extras known) k = map_of extras k"
proof -
  have none: "map_of (encode m) k = None" using assms encode_known by blast
  have "map_of (filter (\<lambda>(k, v). k \<notin> known \<and> map_of (encode m) k = None) extras) k = map_of extras k"
    using assms none by (induction extras) auto
  with none show ?thesis by (simp add: marshalPreserving_def map_add_def)
qed

lemma marshal_known:
  assumes "k \<in> known"
  shows "map_of (marshalPreserving (encode m) extras known) k = map_of (encode m) k"
proof -
  have "map_of (filter (\<lambda>(k, v). k \<notin> known \<and> map_of (encode m) k = None) extras) k = None"
    using assms by (induction extras) auto
  then show ?thesis by (simp add: marshalPreserving_def map_add_def split: option.splits)
qed

text \<open>What a preserving rewrite stores is what the next load reads.\<close>

lemma decode_marshal:
  assumes "ok m"
  shows "decode (marshalPreserving (encode m) extras known) = Inr m"
proof -
  have "decode (marshalPreserving (encode m) extras known) = decode (encode m)"
    by (rule decode_local) (rule marshal_known)
  with assms show ?thesis by (simp add: decode_encode)
qed

end

subsection \<open>The state document\<close>

record HandoffState =
  st_SchemaVersion :: int
  st_CarriedPrefixes :: "int gomap"
  st_Halted :: "Halt option"

definition stateSchemaVersion :: int where
  "stateSchemaVersion = 1"

definition stateKeys :: "string set" where
  "stateKeys = {''schema_version'', ''carried_prefix_len'', ''halted''}"

definition emptyState :: HandoffState where
  "emptyState = \<lparr>st_SchemaVersion = stateSchemaVersion, st_CarriedPrefixes = [], st_Halted = None\<rparr>"

text \<open>A missing or null field is the zero value; a value of another shape is a decode error.\<close>

definition getInt :: "doc \<Rightarrow> string \<Rightarrow> int option" where
  "getInt d k = (case map_of d k of None \<Rightarrow> Some 0 | Some FNull \<Rightarrow> Some 0 | Some (FInt n) \<Rightarrow> Some n
     | Some _ \<Rightarrow> None)"

definition getPrefixes :: "doc \<Rightarrow> string \<Rightarrow> int gomap option" where
  "getPrefixes d k = (case map_of d k of None \<Rightarrow> Some [] | Some FNull \<Rightarrow> Some []
     | Some (FPrefixes m) \<Rightarrow> Some m | Some _ \<Rightarrow> None)"

definition getHalt :: "doc \<Rightarrow> string \<Rightarrow> Halt option option" where
  "getHalt d k = (case map_of d k of None \<Rightarrow> Some None | Some FNull \<Rightarrow> Some None
     | Some (FHalt h) \<Rightarrow> Some (Some h) | Some _ \<Rightarrow> None)"

definition checkState :: "HandoffState \<Rightarrow> storeError option" where
  "checkState st =
     (if st_SchemaVersion st \<noteq> stateSchemaVersion then Some (ErrSchema (st_SchemaVersion st))
      else if \<exists>(p, n)\<in>set (st_CarriedPrefixes st). n < 0 then Some ErrNegativePrefix
      else (case st_Halted st of
              None \<Rightarrow> None
            | Some h \<Rightarrow> if isZero (hl_At h) \<or> hl_Reason h = [] then Some ErrHaltIncomplete else None))"

definition decodeState :: "doc \<Rightarrow> storeError + HandoffState" where
  "decodeState d =
     (case (getInt d ''schema_version'', getPrefixes d ''carried_prefix_len'', getHalt d ''halted'') of
        (Some v, Some m, Some h) \<Rightarrow>
          (let st = \<lparr>st_SchemaVersion = v, st_CarriedPrefixes = m, st_Halted = h\<rparr>
           in case checkState st of Some e \<Rightarrow> Inl e | None \<Rightarrow> Inr st)
      | _ \<Rightarrow> Inl ErrDecode)"

text \<open>\<^verbatim>\<open>json.Marshal\<close> of the model: \<^verbatim>\<open>omitempty\<close> leaves empty maps and nil pointers out.\<close>

definition encodeState :: "HandoffState \<Rightarrow> doc" where
  "encodeState st =
     [(''schema_version'', FInt (st_SchemaVersion st))] @
     (if st_CarriedPrefixes st = [] then []
      else [(''carried_prefix_len'', FPrefixes (st_CarriedPrefixes st))]) @
     (case st_Halted st of None \<Rightarrow> [] | Some h \<Rightarrow> [(''halted'', FHalt h)])"

lemma encodeState_get:
  "getInt (encodeState m) ''schema_version'' = Some (st_SchemaVersion m)"
  "getPrefixes (encodeState m) ''carried_prefix_len'' = Some (st_CarriedPrefixes m)"
  "getHalt (encodeState m) ''halted'' = Some (st_Halted m)"
  by (auto simp: encodeState_def getInt_def getPrefixes_def getHalt_def split: option.splits)

interpretation stateDoc: durable_doc encodeState decodeState stateKeys "\<lambda>st. checkState st = None"
proof
  fix m :: HandoffState and k
  assume "map_of (encodeState m) k \<noteq> None"
  then show "k \<in> stateKeys"
    by (auto simp: encodeState_def stateKeys_def split: option.splits if_splits)
next
  fix d d' :: doc
  assume "\<And>k. k \<in> stateKeys \<Longrightarrow> map_of d k = map_of d' k"
  then show "decodeState d = decodeState d'"
    by (simp add: decodeState_def getInt_def getPrefixes_def getHalt_def stateKeys_def)
next
  fix m :: HandoffState
  assume "checkState m = None"
  then show "decodeState (encodeState m) = Inr m"
    by (cases m) (simp add: decodeState_def encodeState_get)
next
  fix d m
  assume "decodeState d = Inr m"
  then show "checkState m = None"
    by (auto simp: decodeState_def Let_def split: option.splits)
qed

subsection \<open>The state store\<close>

type_synonym io = "bool \<times> bool"

abbreviation ioOk :: "io \<Rightarrow> bool" where
  "ioOk io \<equiv> fst io"

text \<open>The decoded state with the raw fields a preserving rewrite needs.\<close>

definition loadDoc :: "handoffFile \<Rightarrow> storeError + (HandoffState \<times> doc)" where
  "loadDoc file =
     (case readFileNoFollow file of
        Inl e \<Rightarrow> Inl e
      | Inr None \<Rightarrow> Inr (emptyState, [])
      | Inr (Some f) \<Rightarrow>
          (case rawFields f of
             Inl e \<Rightarrow> Inl e
           | Inr d \<Rightarrow> (case decodeState d of Inl e \<Rightarrow> Inl e | Inr st \<Rightarrow> Inr (st, d))))"

definition loadState :: "handoffFile \<Rightarrow> storeError + HandoffState" where
  "loadState file = (case loadDoc file of Inl e \<Rightarrow> Inl e | Inr (st, _) \<Rightarrow> Inr st)"

definition mutateState ::
  "io \<Rightarrow> (HandoffState \<Rightarrow> 'r \<times> HandoffState) \<Rightarrow> handoffFile \<Rightarrow> (storeError + 'r) \<times> handoffFile" where
  "mutateState io fn file =
     (case loadDoc file of
        Inl e \<Rightarrow> (Inl e, file)
      | Inr (st, extras) \<Rightarrow>
          (if \<not> ioOk io then (Inl ErrIO, file)
           else
             (let (r, st') = fn st
              in (Inr r, Doc (marshalPreserving (encodeState st') extras stateKeys)))))"

text \<open>The watermark only ever grows.\<close>

definition growPrefix :: "string \<Rightarrow> int \<Rightarrow> HandoffState \<Rightarrow> HandoffState" where
  "growPrefix p n st = (case map_of (st_CarriedPrefixes st) p of
      None \<Rightarrow> st\<lparr>st_CarriedPrefixes := AList.update p n (st_CarriedPrefixes st)\<rparr>
    | Some existing \<Rightarrow>
        (if n > existing then st\<lparr>st_CarriedPrefixes := AList.update p n (st_CarriedPrefixes st)\<rparr> else st))"

definition RecordCarriedPrefix ::
  "io \<Rightarrow> string \<Rightarrow> int \<Rightarrow> handoffFile \<Rightarrow> (storeError + unit) \<times> handoffFile" where
  "RecordCarriedPrefix io path n file =
     (if path = [] \<or> n < 0 then (Inl ErrArgument, file)
      else mutateState io (\<lambda>st. ((), growPrefix path n st)) file)"

definition CarriedPrefixes :: "handoffFile \<Rightarrow> storeError + int gomap" where
  "CarriedPrefixes file =
     (case loadState file of Inl e \<Rightarrow> Inl e | Inr st \<Rightarrow> Inr (st_CarriedPrefixes st))"

definition HaltedAt :: "handoffFile \<Rightarrow> storeError + Halt option" where
  "HaltedAt file = (case loadState file of Inl e \<Rightarrow> Inl e | Inr st \<Rightarrow> Inr (st_Halted st))"

definition RecordHalt ::
  "io \<Rightarrow> string \<Rightarrow> gtime \<Rightarrow> handoffFile \<Rightarrow> (storeError + unit) \<times> handoffFile" where
  "RecordHalt io reason at file =
     (if reason = [] \<or> isZero at then (Inl ErrArgument, file)
      else mutateState io
        (\<lambda>st. ((), st\<lparr>st_Halted := Some \<lparr>hl_At = at, hl_Reason = reason\<rparr>\<rparr>)) file)"

text \<open>\<open>seen\<close> is the file as the load outside the lock found it.\<close>

definition ClearHalt :: "io \<Rightarrow> handoffFile \<Rightarrow> handoffFile \<Rightarrow> (storeError + Halt option) \<times> handoffFile" where
  "ClearHalt io seen file =
     (case loadState seen of
        Inl e \<Rightarrow> (Inl e, file)
      | Inr st \<Rightarrow>
          (if st_Halted st = None then (Inr None, file)
           else mutateState io (\<lambda>st. (st_Halted st, st\<lparr>st_Halted := None\<rparr>)) file))"

subsection \<open>Lemmas\<close>

lemma loadDoc_ok: "loadDoc file = Inr (st, d) \<Longrightarrow> checkState st = None"
proof -
  assume a: "loadDoc file = Inr (st, d)"
  show ?thesis
  proof (cases "file")
    case Absent
    with a show ?thesis
      by (auto simp: loadDoc_def emptyState_def checkState_def stateSchemaVersion_def)
  next
    case (Doc x)
    with a show ?thesis
      by (auto simp: loadDoc_def split: sum.splits intro: stateDoc.decode_ok)
  qed (use a in \<open>auto simp: loadDoc_def\<close>)
qed

lemma loadDoc_Doc: "loadDoc (Doc d) = (case decodeState d of Inl e \<Rightarrow> Inl e | Inr st \<Rightarrow> Inr (st, d))"
  by (simp add: loadDoc_def split: sum.splits)

text \<open>A mutation that keeps the checks: what was loaded, changed, is what the next load reads.\<close>

lemma mutateState_load:
  assumes "loadDoc file = Inr (st, extras)" and "fn st = (r, st')" and "checkState st' = None"
  shows "mutateState (True, s) fn file =
           (Inr r, Doc (marshalPreserving (encodeState st') extras stateKeys))"
    and "loadState (snd (mutateState (True, s) fn file)) = Inr st'"
    and "k \<notin> stateKeys \<Longrightarrow>
      map_of (marshalPreserving (encodeState st') extras stateKeys) k = map_of extras k"
  using assms stateDoc.decode_marshal [OF assms(3), of extras] stateDoc.marshal_unknown [of k st' extras]
  by (simp_all add: mutateState_def loadState_def loadDoc_Doc)

text \<open>A state operation either fails and leaves the file, or stores a changed valid state.\<close>

lemma mutateState_cases:
  assumes "mutateState io fn file = (res, file')" and "\<And>st. checkState st = None \<Longrightarrow> checkState (snd (fn st)) = None"
  obtains (failed) e where "res = Inl e" "file' = file"
    | (stored) st extras where "loadDoc file = Inr (st, extras)" "res = Inr (fst (fn st))"
        "loadState file' = Inr (snd (fn st))"
        "file' = Doc (marshalPreserving (encodeState (snd (fn st))) extras stateKeys)"
proof (cases "loadDoc file")
  case (Inl e)
  with assms show ?thesis by (auto simp: mutateState_def intro: failed)
next
  case (Inr a)
  obtain st extras where a: "a = (st, extras)" by fastforce
  have ok: "checkState (snd (fn st)) = None" using assms(2) loadDoc_ok Inr a by blast
  show ?thesis
  proof (cases "ioOk io")
    case False
    with assms Inr a show ?thesis by (auto simp: mutateState_def intro: failed)
  next
    case True
    have "mutateState io fn file =
        (Inr (fst (fn st)), Doc (marshalPreserving (encodeState (snd (fn st))) extras stateKeys))"
      using Inr a True by (simp add: mutateState_def Let_def split_beta)
    with assms Inr a show ?thesis
      by (intro stored [of st extras])
         (auto simp: loadState_def loadDoc_Doc stateDoc.decode_marshal [OF ok])
  qed
qed

lemma checkState_update:
  "checkState st = None \<Longrightarrow> 0 \<le> n \<Longrightarrow>
   checkState (st\<lparr>st_CarriedPrefixes := AList.update p n (st_CarriedPrefixes st)\<rparr>) = None"
  using set_gomap_update [of p n "st_CarriedPrefixes st"]
  by (fastforce simp: checkState_def split: option.splits if_splits)

end
