(* ===== verification/Handoff_Rails.thy ===== *)
theory Handoff_Rails
  imports Handoff_Store
begin

text \<open>
  The durable mover rails of \<^verbatim>\<open>src/handoff/rails.go\<close>: the rails document with its lift from a
  pre-split state file, every mutation of it, and the snapshot of both files the engine
  decides on. An operation that loads before it takes the lock has the home as that load
  saw it as an argument of its own, so that other writers may come between.
\<close>

subsection \<open>The rails document\<close>

record Rails =
  ra_SchemaVersion :: int
  ra_RecentMoves :: "RecentMove list"
  ra_RefusedUntil :: "gtime gomap"
  ra_ReportsHeld :: "gtime option"
  ra_UnrecordedCarries :: "UnrecordedCarry gomap"
  ra_QuarantinedAccounts :: "AccountQuarantine gomap"

definition railsSchemaVersion :: int where
  "railsSchemaVersion = 1"

definition maxInt64 :: int where
  "maxInt64 = 2 ^ 63 - 1"

definition liftedStateKeys :: "string set" where
  "liftedStateKeys = {''recent_moves'', ''refused_until'', ''reports_held'', ''unrecorded_carries'',
     ''quarantined_accounts''}"

definition railsKeys :: "string set" where
  "railsKeys = insert ''schema_version'' liftedStateKeys"

definition unrecordedCarryCap :: nat where
  "unrecordedCarryCap = 256"

definition emptyRails :: Rails where
  "emptyRails = \<lparr>ra_SchemaVersion = railsSchemaVersion, ra_RecentMoves = [], ra_RefusedUntil = [],
     ra_ReportsHeld = None, ra_UnrecordedCarries = [], ra_QuarantinedAccounts = []\<rparr>"

text \<open>The marker as \<^verbatim>\<open>UnmarshalJSON\<close> reads it: a bare timestamp distrusts the whole file.\<close>

fun unmarshalCarry :: "carryWire \<Rightarrow> UnrecordedCarry" where
  "unmarshalCarry (WireBare t) = \<lparr>uc_At = t, uc_Covered = maxInt64\<rparr>"
| "unmarshalCarry (WireFull u) = u"

definition getMoves :: "doc \<Rightarrow> string \<Rightarrow> RecentMove list option" where
  "getMoves d k = (case map_of d k of None \<Rightarrow> Some [] | Some FNull \<Rightarrow> Some []
     | Some (FMoves m) \<Rightarrow> Some m | Some _ \<Rightarrow> None)"

definition getRefused :: "doc \<Rightarrow> string \<Rightarrow> gtime gomap option" where
  "getRefused d k = (case map_of d k of None \<Rightarrow> Some [] | Some FNull \<Rightarrow> Some []
     | Some (FRefused m) \<Rightarrow> Some m | Some _ \<Rightarrow> None)"

definition getHeld :: "doc \<Rightarrow> string \<Rightarrow> gtime option option" where
  "getHeld d k = (case map_of d k of None \<Rightarrow> Some None | Some FNull \<Rightarrow> Some None
     | Some (FHeld t) \<Rightarrow> Some (Some t) | Some _ \<Rightarrow> None)"

definition getCarries :: "doc \<Rightarrow> string \<Rightarrow> UnrecordedCarry gomap option" where
  "getCarries d k = (case map_of d k of None \<Rightarrow> Some [] | Some FNull \<Rightarrow> Some []
     | Some (FCarries m) \<Rightarrow> Some (map (\<lambda>(p, w). (p, unmarshalCarry w)) m) | Some _ \<Rightarrow> None)"

definition getQuarantined :: "doc \<Rightarrow> string \<Rightarrow> AccountQuarantine gomap option" where
  "getQuarantined d k = (case map_of d k of None \<Rightarrow> Some [] | Some FNull \<Rightarrow> Some []
     | Some (FQuarantined m) \<Rightarrow> Some m | Some _ \<Rightarrow> None)"

definition moveOk :: "RecentMove \<Rightarrow> bool" where
  "moveOk m \<longleftrightarrow> \<not> (rm_SessionKey m = [] \<or> rm_Account m = [] \<or> isZero (rm_At m))"

definition carryOk :: "string \<Rightarrow> UnrecordedCarry \<Rightarrow> bool" where
  "carryOk path m \<longleftrightarrow> \<not> (path = [] \<or> isZero (uc_At m) \<or> uc_Covered m \<le> 0)"

definition quarantineOk :: "string \<Rightarrow> AccountQuarantine \<Rightarrow> bool" where
  "quarantineOk dir q \<longleftrightarrow>
     \<not> (dir = [] \<or> isZero (aq_At q) \<or> (aq_Path q \<noteq> [] \<and> aq_Covered q \<le> 0))"

definition checkRails :: "Rails \<Rightarrow> storeError option" where
  "checkRails r =
     (if ra_SchemaVersion r \<noteq> railsSchemaVersion then Some (ErrSchema (ra_SchemaVersion r))
      else if \<exists>m\<in>set (ra_RecentMoves r). \<not> moveOk m then Some ErrMoveIncomplete
      else if \<exists>(k, t)\<in>set (ra_RefusedUntil r). k = [] then Some ErrRefusedKey
      else if (case ra_ReportsHeld r of None \<Rightarrow> False | Some t \<Rightarrow> isZero t) then Some ErrHeldSince
      else if \<exists>(p, m)\<in>set (ra_UnrecordedCarries r). \<not> carryOk p m then Some ErrCarryIncomplete
      else if \<exists>(d, q)\<in>set (ra_QuarantinedAccounts r). \<not> quarantineOk d q
      then Some ErrQuarantineIncomplete
      else None)"

definition decodeRails :: "doc \<Rightarrow> storeError + Rails" where
  "decodeRails d =
     (case (getInt d ''schema_version'', getMoves d ''recent_moves'', getRefused d ''refused_until'',
            getHeld d ''reports_held'', getCarries d ''unrecorded_carries'',
            getQuarantined d ''quarantined_accounts'') of
        (Some v, Some ms, Some rs, Some h, Some cs, Some qs) \<Rightarrow>
          (let r = \<lparr>ra_SchemaVersion = v, ra_RecentMoves = ms, ra_RefusedUntil = rs,
                    ra_ReportsHeld = h, ra_UnrecordedCarries = cs, ra_QuarantinedAccounts = qs\<rparr>
           in case checkRails r of Some e \<Rightarrow> Inl e | None \<Rightarrow> Inr r)
      | _ \<Rightarrow> Inl ErrDecode)"

definition encodeRails :: "Rails \<Rightarrow> doc" where
  "encodeRails r =
     [(''schema_version'', FInt (ra_SchemaVersion r))] @
     (if ra_RecentMoves r = [] then [] else [(''recent_moves'', FMoves (ra_RecentMoves r))]) @
     (if ra_RefusedUntil r = [] then [] else [(''refused_until'', FRefused (ra_RefusedUntil r))]) @
     (case ra_ReportsHeld r of None \<Rightarrow> [] | Some t \<Rightarrow> [(''reports_held'', FHeld t)]) @
     (if ra_UnrecordedCarries r = [] then []
      else [(''unrecorded_carries'',
             FCarries (map (\<lambda>(p, m). (p, WireFull m)) (ra_UnrecordedCarries r)))]) @
     (if ra_QuarantinedAccounts r = [] then []
      else [(''quarantined_accounts'', FQuarantined (ra_QuarantinedAccounts r))])"

lemma encodeRails_get:
  "getInt (encodeRails m) ''schema_version'' = Some (ra_SchemaVersion m)"
  "getMoves (encodeRails m) ''recent_moves'' = Some (ra_RecentMoves m)"
  "getRefused (encodeRails m) ''refused_until'' = Some (ra_RefusedUntil m)"
  "getHeld (encodeRails m) ''reports_held'' = Some (ra_ReportsHeld m)"
  "getCarries (encodeRails m) ''unrecorded_carries'' = Some (ra_UnrecordedCarries m)"
  "getQuarantined (encodeRails m) ''quarantined_accounts'' = Some (ra_QuarantinedAccounts m)"
  by (simp_all add: encodeRails_def getInt_def getMoves_def getRefused_def getHeld_def getCarries_def
      getQuarantined_def comp_def split_beta split: option.splits)

interpretation railsDoc: durable_doc encodeRails decodeRails railsKeys "\<lambda>r. checkRails r = None"
proof
  fix m :: Rails and k
  assume "map_of (encodeRails m) k \<noteq> None"
  then show "k \<in> railsKeys"
    by (auto simp: encodeRails_def railsKeys_def liftedStateKeys_def split: option.splits if_splits)
next
  fix d d' :: doc
  assume "\<And>k. k \<in> railsKeys \<Longrightarrow> map_of d k = map_of d' k"
  then show "decodeRails d = decodeRails d'"
    by (simp add: decodeRails_def getInt_def getMoves_def getRefused_def getHeld_def getCarries_def
        getQuarantined_def railsKeys_def liftedStateKeys_def)
next
  fix m :: Rails
  assume "checkRails m = None"
  then show "decodeRails (encodeRails m) = Inr m"
    by (cases m) (simp add: decodeRails_def encodeRails_get)
next
  fix d m
  assume "decodeRails d = Inr m"
  then show "checkRails m = None"
    by (auto simp: decodeRails_def Let_def split: option.splits)
qed

subsection \<open>The rails store\<close>

record HandoffHome =
  hh_state :: handoffFile
  hh_rails :: handoffFile

text \<open>Reading the mover keys a pre-split build left in the state file.\<close>

definition lift :: "handoffFile \<Rightarrow> storeError + Rails" where
  "lift stateFile =
     (case readFileNoFollow stateFile of
        Inl e \<Rightarrow> Inl e
      | Inr None \<Rightarrow> Inr emptyRails
      | Inr (Some f) \<Rightarrow>
          (case rawFields f of
             Inl e \<Rightarrow> Inl e
           | Inr d \<Rightarrow>
               decodeRails ((''schema_version'', FInt 1) #
                 filter (\<lambda>(k, v). k \<in> liftedStateKeys) d)))"

definition loadMerged :: "HandoffHome \<Rightarrow> storeError + (Rails \<times> doc)" where
  "loadMerged h =
     (case readFileNoFollow (hh_rails h) of
        Inl e \<Rightarrow> Inl e
      | Inr None \<Rightarrow> (case lift (hh_state h) of Inl e \<Rightarrow> Inl e | Inr r \<Rightarrow> Inr (r, []))
      | Inr (Some f) \<Rightarrow>
          (case rawFields f of
             Inl e \<Rightarrow> Inl e
           | Inr d \<Rightarrow> (case decodeRails d of Inl e \<Rightarrow> Inl e | Inr r \<Rightarrow> Inr (r, d))))"

definition loadRails :: "HandoffHome \<Rightarrow> storeError + Rails" where
  "loadRails h = (case loadMerged h of Inl e \<Rightarrow> Inl e | Inr (r, _) \<Rightarrow> Inr r)"

definition stripLiftedKeys :: "io \<Rightarrow> handoffFile \<Rightarrow> handoffFile" where
  "stripLiftedKeys io file =
     (case file of
        Doc d \<Rightarrow>
          (if snd io \<and> (\<exists>k\<in>liftedStateKeys. map_of d k \<noteq> None)
           then Doc (filter (\<lambda>(k, v). k \<notin> liftedStateKeys) d) else file)
      | _ \<Rightarrow> file)"

text \<open>The write of a mutation, once its rails are computed: the rails file first, then the strip.\<close>

definition storeRails :: "io \<Rightarrow> Rails \<Rightarrow> doc \<Rightarrow> HandoffHome \<Rightarrow> HandoffHome" where
  "storeRails io r extras h =
     h\<lparr>hh_rails := Doc (marshalPreserving (encodeRails r) extras railsKeys),
       hh_state := stripLiftedKeys io (hh_state h)\<rparr>"

definition mutateRails ::
  "io \<Rightarrow> (Rails \<Rightarrow> 'r \<times> Rails) \<Rightarrow> HandoffHome \<Rightarrow> (storeError + 'r) \<times> HandoffHome" where
  "mutateRails io fn h =
     (case loadMerged h of
        Inl e \<Rightarrow> (Inl e, h)
      | Inr (r, extras) \<Rightarrow>
          (if \<not> ioOk io then (Inl ErrIO, h)
           else (let (x, r') = fn r in (Inr x, storeRails io r' extras h))))"

definition mutateLiftTolerant ::
  "io \<Rightarrow> (Rails \<Rightarrow> 'r \<times> Rails) \<Rightarrow> HandoffHome \<Rightarrow> (storeError + 'r) \<times> HandoffHome" where
  "mutateLiftTolerant io fn h =
     (case (case loadMerged h of
              Inr (r, extras) \<Rightarrow> Inr (r, extras)
            | Inl e \<Rightarrow>
                (case readFileNoFollow (hh_rails h) of
                   Inl rerr \<Rightarrow> Inl rerr
                 | Inr (Some _) \<Rightarrow> Inl e
                 | Inr None \<Rightarrow> Inr (emptyRails, []))) of
        Inl e \<Rightarrow> (Inl e, h)
      | Inr (r, extras) \<Rightarrow>
          (if \<not> ioOk io then (Inl ErrIO, h)
           else (let (x, r') = fn r in (Inr x, storeRails io r' extras h))))"

definition RecordMove ::
  "io \<Rightarrow> string \<Rightarrow> string \<Rightarrow> string \<Rightarrow> gtime \<Rightarrow> HandoffHome \<Rightarrow> (storeError + unit) \<times> HandoffHome" where
  "RecordMove io sessionKey agent account at h =
     (if sessionKey = [] \<or> agent = [] \<or> account = [] \<or> isZero at then (Inl ErrArgument, h)
      else mutateRails io
        (\<lambda>r. ((), r\<lparr>ra_RecentMoves := ra_RecentMoves r @
           [\<lparr>rm_SessionKey = sessionKey, rm_Agent = agent, rm_Account = account, rm_At = at\<rparr>]\<rparr>)) h)"

definition moveMatches :: "string \<Rightarrow> RecentMove \<Rightarrow> bool" where
  "moveMatches sessionKey m \<longleftrightarrow> sessionKey = [] \<or> rm_SessionKey m = sessionKey"

definition ClearMoves ::
  "io \<Rightarrow> string \<Rightarrow> HandoffHome \<Rightarrow> HandoffHome \<Rightarrow> (storeError + nat) \<times> HandoffHome" where
  "ClearMoves io sessionKey seen h =
     (case loadRails seen of
        Inl e \<Rightarrow> (Inl e, h)
      | Inr r0 \<Rightarrow>
          (if filter (moveMatches sessionKey) (ra_RecentMoves r0) = [] then (Inr 0, h)
           else mutateRails io
             (\<lambda>r. (length (filter (moveMatches sessionKey) (ra_RecentMoves r)),
                    r\<lparr>ra_RecentMoves := filter (\<lambda>m. \<not> moveMatches sessionKey m) (ra_RecentMoves r)\<rparr>)) h))"

definition SetRefusedUntil ::
  "io \<Rightarrow> string \<Rightarrow> gtime \<Rightarrow> HandoffHome \<Rightarrow> (storeError + unit) \<times> HandoffHome" where
  "SetRefusedUntil io sessionKey until h =
     (if sessionKey = [] \<or> isZero until then (Inl ErrArgument, h)
      else mutateRails io
        (\<lambda>r. ((), r\<lparr>ra_RefusedUntil := AList.update sessionKey until (ra_RefusedUntil r)\<rparr>)) h)"

definition ClearRefused ::
  "io \<Rightarrow> string \<Rightarrow> HandoffHome \<Rightarrow> HandoffHome \<Rightarrow> (storeError + nat) \<times> HandoffHome" where
  "ClearRefused io sessionKey seen h =
     (case loadRails seen of
        Inl e \<Rightarrow> (Inl e, h)
      | Inr r0 \<Rightarrow>
          (if (if sessionKey = [] then ra_RefusedUntil r0 = []
               else \<not> has_key (ra_RefusedUntil r0) sessionKey)
           then (Inr 0, h)
           else mutateRails io
             (\<lambda>r. if sessionKey = [] then (length (ra_RefusedUntil r), r\<lparr>ra_RefusedUntil := []\<rparr>)
                  else (if has_key (ra_RefusedUntil r) sessionKey then 1 else 0,
                        r\<lparr>ra_RefusedUntil := AList.delete sessionKey (ra_RefusedUntil r)\<rparr>)) h))"

definition NoteReportsHeld :: "io \<Rightarrow> gtime \<Rightarrow> HandoffHome \<Rightarrow> (storeError + unit) \<times> HandoffHome" where
  "NoteReportsHeld io since h =
     (if isZero since then (Inl ErrArgument, h)
      else mutateRails io
        (\<lambda>r. ((), if ra_ReportsHeld r = None then r\<lparr>ra_ReportsHeld := Some since\<rparr> else r)) h)"

definition ClearReportsHeld ::
  "io \<Rightarrow> HandoffHome \<Rightarrow> HandoffHome \<Rightarrow> (storeError + unit) \<times> HandoffHome" where
  "ClearReportsHeld io seen h =
     (case loadRails seen of
        Inl e \<Rightarrow> (Inl e, h)
      | Inr r0 \<Rightarrow>
          (if ra_ReportsHeld r0 = None then (Inr (), h)
           else mutateRails io (\<lambda>r. ((), r\<lparr>ra_ReportsHeld := None\<rparr>)) h))"

definition noteAccountQuarantine :: "string \<Rightarrow> string \<Rightarrow> int \<Rightarrow> gtime \<Rightarrow> Rails \<Rightarrow> Rails" where
  "noteAccountQuarantine dir path covered at r =
     (let qs = ra_QuarantinedAccounts r in
      case map_of qs dir of
        None \<Rightarrow> r\<lparr>ra_QuarantinedAccounts :=
                  AList.update dir \<lparr>aq_At = at, aq_Path = path, aq_Covered = covered\<rparr> qs\<rparr>
      | Some q \<Rightarrow>
          (if aq_Path q = [] then r
           else if aq_Path q = path then
             (if covered > aq_Covered q
              then r\<lparr>ra_QuarantinedAccounts := AList.update dir (q\<lparr>aq_Covered := covered\<rparr>) qs\<rparr> else r)
           else r\<lparr>ra_QuarantinedAccounts :=
                  AList.update dir (q\<lparr>aq_Path := [], aq_Covered := 0\<rparr>) qs\<rparr>))"

text \<open>The result is whether the account was quarantined instead of the file.\<close>

definition noteCarry :: "string \<Rightarrow> string \<Rightarrow> int \<Rightarrow> gtime \<Rightarrow> Rails \<Rightarrow> bool \<times> Rails" where
  "noteCarry path accountDir covered at r =
     (let ms = ra_UnrecordedCarries r in
      case map_of ms path of
        None \<Rightarrow>
          (if length ms \<ge> unrecordedCarryCap
           then (True, noteAccountQuarantine (Clean accountDir) path covered at r)
           else (False, r\<lparr>ra_UnrecordedCarries :=
                          AList.update path \<lparr>uc_At = at, uc_Covered = covered\<rparr> ms\<rparr>))
      | Some existing \<Rightarrow>
          (if covered > uc_Covered existing
           then (False, r\<lparr>ra_UnrecordedCarries :=
                          AList.update path (existing\<lparr>uc_Covered := covered\<rparr>) ms\<rparr>)
           else (False, r)))"

definition NoteUnrecordedCarry ::
  "io \<Rightarrow> string \<Rightarrow> string \<Rightarrow> int \<Rightarrow> gtime \<Rightarrow> HandoffHome \<Rightarrow> (storeError + bool) \<times> HandoffHome" where
  "NoteUnrecordedCarry io path accountDir covered at h =
     (if path = [] \<or> covered \<le> 0 \<or> isZero at then (Inl ErrArgument, h)
      else if accountDir = [] then (Inl ErrArgument, h)
      else mutateLiftTolerant io (noteCarry path accountDir covered at) h)"

text \<open>The overflow flag that names the file, in the order the map is visited.\<close>

definition overflowFor :: "string \<Rightarrow> Rails \<Rightarrow> (string \<times> AccountQuarantine) option" where
  "overflowFor path r = find (\<lambda>(dir, q). aq_Path q = path) (ra_QuarantinedAccounts r)"

definition retireCarry :: "string \<Rightarrow> int \<Rightarrow> string option \<Rightarrow> Rails \<Rightarrow> Rails" where
  "retireCarry path watermark overflowDir r =
     (let r1 = (case map_of (ra_UnrecordedCarries r) path of
                  Some m \<Rightarrow> (if watermark \<ge> uc_Covered m
                             then r\<lparr>ra_UnrecordedCarries := AList.delete path (ra_UnrecordedCarries r)\<rparr>
                             else r)
                | None \<Rightarrow> r)
      in case overflowDir of
           None \<Rightarrow> r1
         | Some dir \<Rightarrow>
             (case map_of (ra_QuarantinedAccounts r1) dir of
                Some q \<Rightarrow>
                  (if aq_Path q = path \<and> watermark \<ge> aq_Covered q
                   then r1\<lparr>ra_QuarantinedAccounts := AList.delete dir (ra_QuarantinedAccounts r1)\<rparr>
                   else r1)
              | None \<Rightarrow> r1))"

definition ClearUnrecordedCarry ::
  "io \<Rightarrow> string \<Rightarrow> int \<Rightarrow> HandoffHome \<Rightarrow> HandoffHome \<Rightarrow> (storeError + bool) \<times> HandoffHome" where
  "ClearUnrecordedCarry io path watermark seen h =
     (case loadRails seen of
        Inl e \<Rightarrow> (Inl e, h)
      | Inr r0 \<Rightarrow>
          (let marker = map_of (ra_UnrecordedCarries r0) path;
               overflow = overflowFor path r0
           in if marker = None \<and> overflow = None then (Inr True, h)
              else if (case marker of Some m \<Rightarrow> watermark < uc_Covered m | None \<Rightarrow> False) \<or>
                      (case overflow of Some (_, q) \<Rightarrow> watermark < aq_Covered q | None \<Rightarrow> False)
              then (Inr False, h)
              else mutateRails io (\<lambda>r. (True, retireCarry path watermark (map_option fst overflow) r)) h))"

definition PruneExpired ::
  "io \<Rightarrow> duration \<Rightarrow> gtime \<Rightarrow> HandoffHome \<Rightarrow> HandoffHome \<Rightarrow> (storeError + unit) \<times> HandoffHome" where
  "PruneExpired io window now seen h =
     (case loadRails seen of
        Inl e \<Rightarrow> (Inl e, h)
      | Inr r0 \<Rightarrow>
          (if (\<exists>(k, until)\<in>set (ra_RefusedUntil r0). \<not> until > now) \<or>
              (window > 0 \<and> (\<exists>m\<in>set (ra_RecentMoves r0). rm_At m < now - window))
           then mutateRails io
             (\<lambda>r. ((), r\<lparr>ra_RefusedUntil := filter (\<lambda>(k, until). until > now) (ra_RefusedUntil r),
                          ra_RecentMoves :=
                            (if window > 0 then filter (\<lambda>m. \<not> rm_At m < now - window) (ra_RecentMoves r)
                             else ra_RecentMoves r)\<rparr>)) h
           else (Inr (), h)))"

subsection \<open>The snapshot\<close>

record Snapshot =
  sn_State :: HandoffState
  sn_Rails :: Rails

definition addCarry :: "string \<times> UnrecordedCarry \<Rightarrow> int gomap \<Rightarrow> int gomap" where
  "addCarry pm out =
     (let covered = (if uc_Covered (snd pm) \<le> 0 then maxInt64 else uc_Covered (snd pm))
      in if covered > get0 out (fst pm) then AList.update (fst pm) covered out else out)"

definition EffectiveCarriedPrefixes :: "Snapshot \<Rightarrow> int gomap" where
  "EffectiveCarriedPrefixes s =
     fold addCarry (ra_UnrecordedCarries (sn_Rails s)) (st_CarriedPrefixes (sn_State s))"

definition AccountUntrusted :: "Snapshot \<Rightarrow> string \<Rightarrow> bool" where
  "AccountUntrusted s home \<longleftrightarrow> has_key (ra_QuarantinedAccounts (sn_Rails s)) (Clean home)"

text \<open>The worst-case merges of the two reads: wider watermarks, wider markers, every flag.\<close>

definition mergePrefix :: "string \<times> int \<Rightarrow> int gomap \<Rightarrow> int gomap" where
  "mergePrefix pn m = (if snd pn > get0 m (fst pn) then AList.update (fst pn) (snd pn) m else m)"

definition mergeCarry :: "string \<times> UnrecordedCarry \<Rightarrow> UnrecordedCarry gomap \<Rightarrow> UnrecordedCarry gomap" where
  "mergeCarry pm ms =
     (case map_of ms (fst pm) of
        None \<Rightarrow> AList.update (fst pm) (snd pm) ms
      | Some existing \<Rightarrow>
          (if uc_Covered (snd pm) > uc_Covered existing
           then AList.update (fst pm) (existing\<lparr>uc_Covered := uc_Covered (snd pm)\<rparr>) ms else ms))"

definition mergeQuarantine ::
  "string \<times> AccountQuarantine \<Rightarrow> AccountQuarantine gomap \<Rightarrow> AccountQuarantine gomap" where
  "mergeQuarantine dq qs = (if has_key qs (fst dq) then qs else AList.update (fst dq) (snd dq) qs)"

text \<open>
  The four reads in their order: rails, state, rails, state. The result is the snapshot with
  the errors of the two files; a failed first read is the zero value.
\<close>

definition zeroState :: HandoffState where
  "zeroState = \<lparr>st_SchemaVersion = 0, st_CarriedPrefixes = [], st_Halted = None\<rparr>"

definition zeroRails :: Rails where
  "zeroRails = emptyRails\<lparr>ra_SchemaVersion := 0\<rparr>"

fun errOf :: "storeError + 'a \<Rightarrow> storeError option" where
  "errOf (Inl e) = Some e"
| "errOf (Inr _) = None"

fun valueOr :: "'a \<Rightarrow> storeError + 'a \<Rightarrow> 'a" where
  "valueOr z (Inl _) = z"
| "valueOr z (Inr x) = x"

definition mergeSnapshot :: "HandoffState \<Rightarrow> Rails \<Rightarrow> HandoffState \<Rightarrow> Rails \<Rightarrow> Snapshot" where
  "mergeSnapshot s1 r1 s2 r2 =
     \<lparr>sn_State = s2\<lparr>st_CarriedPrefixes :=
                    fold mergePrefix (st_CarriedPrefixes s1) (st_CarriedPrefixes s2)\<rparr>,
      sn_Rails = r2\<lparr>ra_UnrecordedCarries :=
                      fold mergeCarry (ra_UnrecordedCarries r1) (ra_UnrecordedCarries r2),
                    ra_QuarantinedAccounts :=
                      fold mergeQuarantine (ra_QuarantinedAccounts r1) (ra_QuarantinedAccounts r2)\<rparr>\<rparr>"

definition loadSnapshot ::
  "storeError + Rails \<Rightarrow> storeError + HandoffState \<Rightarrow> storeError + Rails \<Rightarrow> storeError + HandoffState \<Rightarrow>
   Snapshot \<times> storeError option \<times> storeError option" where
  "loadSnapshot lr1 ls1 lr2 ls2 =
     (let first = \<lparr>sn_State = valueOr zeroState ls1, sn_Rails = valueOr zeroRails lr1\<rparr>
      in if errOf ls1 \<noteq> None \<or> errOf lr1 \<noteq> None then (first, errOf ls1, errOf lr1)
         else
           (case lr2 of
              Inl e \<Rightarrow> (first, None, Some e)
            | Inr r2 \<Rightarrow>
                (case ls2 of
                   Inl e \<Rightarrow> (first, Some e, None)
                 | Inr s2 \<Rightarrow> (mergeSnapshot (sn_State first) (sn_Rails first) s2 r2, None, None))))"

end
