(* ===== verification/Rails_Lemmas.thy ===== *)
theory Rails_Lemmas
  imports Handoff_Rails
begin

text \<open>
  The lemmas on the durable handoff files: one datatype of every mutation, what each does to
  the state and the rails a load answers, and the facts that hold along any sequence of
  mutations, by the \<^verbatim>\<open>monotone_ops\<close> and \<^verbatim>\<open>invariant_ops\<close> interfaces. The step relation
  \<open>carryStep\<close> is the protocol of a carry: a marker is cleared only for a watermark the state
  file already records.
\<close>

subsection \<open>Vocabulary\<close>

text \<open>Every mutation of the two files. A home in an operation is what its unlocked load saw.\<close>

datatype homeOp =
    DoRecordCarriedPrefix string int
  | DoRecordHalt string gtime
  | DoClearHalt HandoffHome
  | DoRecordMove string string string gtime
  | DoClearMoves string HandoffHome
  | DoSetRefusedUntil string gtime
  | DoClearRefused string HandoffHome
  | DoNoteReportsHeld gtime
  | DoClearReportsHeld HandoffHome
  | DoNoteUnrecordedCarry string string int gtime
  | DoClearUnrecordedCarry string int HandoffHome
  | DoPruneExpired duration gtime HandoffHome

definition onState :: "(handoffFile \<Rightarrow> 'r \<times> handoffFile) \<Rightarrow> HandoffHome \<Rightarrow> HandoffHome" where
  "onState f h = h\<lparr>hh_state := snd (f (hh_state h))\<rparr>"

fun homeStep :: "HandoffHome \<Rightarrow> io \<times> homeOp \<Rightarrow> HandoffHome" where
  "homeStep h (io, DoRecordCarriedPrefix p n) = onState (RecordCarriedPrefix io p n) h"
| "homeStep h (io, DoRecordHalt r t) = onState (RecordHalt io r t) h"
| "homeStep h (io, DoClearHalt seen) = onState (ClearHalt io (hh_state seen)) h"
| "homeStep h (io, DoRecordMove k ag ac t) = snd (RecordMove io k ag ac t h)"
| "homeStep h (io, DoClearMoves k seen) = snd (ClearMoves io k seen h)"
| "homeStep h (io, DoSetRefusedUntil k t) = snd (SetRefusedUntil io k t h)"
| "homeStep h (io, DoClearRefused k seen) = snd (ClearRefused io k seen h)"
| "homeStep h (io, DoNoteReportsHeld t) = snd (NoteReportsHeld io t h)"
| "homeStep h (io, DoClearReportsHeld seen) = snd (ClearReportsHeld io seen h)"
| "homeStep h (io, DoNoteUnrecordedCarry p dir c t) = snd (NoteUnrecordedCarry io p dir c t h)"
| "homeStep h (io, DoClearUnrecordedCarry p w seen) = snd (ClearUnrecordedCarry io p w seen h)"
| "homeStep h (io, DoPruneExpired w now seen) = snd (PruneExpired io w now seen h)"

definition watermarkLe :: "HandoffHome \<Rightarrow> HandoffHome \<Rightarrow> bool" where
  "watermarkLe h h' \<longleftrightarrow>
     (\<forall>st. loadState (hh_state h) = Inr st \<longrightarrow>
       (\<exists>st'. loadState (hh_state h') = Inr st' \<and>
         (\<forall>p. get0 (st_CarriedPrefixes st) p \<le> get0 (st_CarriedPrefixes st') p)))"

fun railsFn :: "homeOp \<Rightarrow> Rails \<Rightarrow> Rails" where
  "railsFn (DoRecordMove k ag ac t) r = r\<lparr>ra_RecentMoves := ra_RecentMoves r @
     [\<lparr>rm_SessionKey = k, rm_Agent = ag, rm_Account = ac, rm_At = t\<rparr>]\<rparr>"
| "railsFn (DoClearMoves k seen) r =
     r\<lparr>ra_RecentMoves := filter (\<lambda>m. \<not> moveMatches k m) (ra_RecentMoves r)\<rparr>"
| "railsFn (DoSetRefusedUntil k t) r = r\<lparr>ra_RefusedUntil := AList.update k t (ra_RefusedUntil r)\<rparr>"
| "railsFn (DoClearRefused k seen) r =
     r\<lparr>ra_RefusedUntil := (if k = [] then [] else AList.delete k (ra_RefusedUntil r))\<rparr>"
| "railsFn (DoNoteReportsHeld t) r =
     (if ra_ReportsHeld r = None then r\<lparr>ra_ReportsHeld := Some t\<rparr> else r)"
| "railsFn (DoClearReportsHeld seen) r = r\<lparr>ra_ReportsHeld := None\<rparr>"
| "railsFn (DoNoteUnrecordedCarry p dir c t) r = snd (noteCarry p dir c t r)"
| "railsFn (DoClearUnrecordedCarry p w seen) r =
     retireCarry p w
       (case loadRails seen of Inl _ \<Rightarrow> None | Inr r0 \<Rightarrow> map_option fst (overflowFor p r0)) r"
| "railsFn (DoPruneExpired d now seen) r =
     r\<lparr>ra_RefusedUntil := filter (\<lambda>(k, until). until > now) (ra_RefusedUntil r),
       ra_RecentMoves := (if d > 0 then filter (\<lambda>m. \<not> rm_At m < now - d) (ra_RecentMoves r)
                          else ra_RecentMoves r)\<rparr>"
| "railsFn _ r = r"

definition railsOk :: "Rails \<Rightarrow> bool" where
  "railsOk r \<longleftrightarrow> ra_SchemaVersion r = railsSchemaVersion \<and> (\<forall>m\<in>set (ra_RecentMoves r). moveOk m) \<and>
     (\<forall>(k, t)\<in>set (ra_RefusedUntil r). k \<noteq> []) \<and>
     (\<forall>t. ra_ReportsHeld r = Some t \<longrightarrow> \<not> isZero t) \<and>
     (\<forall>(p, m)\<in>set (ra_UnrecordedCarries r). carryOk p m) \<and>
     (\<forall>(d, q)\<in>set (ra_QuarantinedAccounts r). quarantineOk d q)"

fun opArgsOk :: "homeOp \<Rightarrow> bool" where
  "opArgsOk (DoRecordMove k ag ac t) \<longleftrightarrow> k \<noteq> [] \<and> ag \<noteq> [] \<and> ac \<noteq> [] \<and> \<not> isZero t"
| "opArgsOk (DoSetRefusedUntil k t) \<longleftrightarrow> k \<noteq> [] \<and> \<not> isZero t"
| "opArgsOk (DoNoteReportsHeld t) \<longleftrightarrow> \<not> isZero t"
| "opArgsOk (DoNoteUnrecordedCarry p dir c t) \<longleftrightarrow> p \<noteq> [] \<and> 0 < c \<and> \<not> isZero t \<and> dir \<noteq> []"
| "opArgsOk _ \<longleftrightarrow> True"

definition capInv :: "HandoffHome \<Rightarrow> bool" where
  "capInv h \<longleftrightarrow> (\<forall>r. loadRails h = Inr r \<longrightarrow> length (ra_UnrecordedCarries r) \<le> unrecordedCarryCap)"

definition markerSpan :: "Rails \<Rightarrow> string \<Rightarrow> int" where
  "markerSpan r p = (case map_of (ra_UnrecordedCarries r) p of None \<Rightarrow> 0 | Some m \<Rightarrow> uc_Covered m)"

definition protectedSpan :: "HandoffHome \<Rightarrow> string \<Rightarrow> int \<Rightarrow> bool" where
  "protectedSpan h p c \<longleftrightarrow>
     (\<exists>st. loadState (hh_state h) = Inr st \<and> c \<le> get0 (st_CarriedPrefixes st) p) \<or>
     (\<exists>r. loadRails h = Inr r \<and> c \<le> markerSpan r p)"

inductive carryStep :: "HandoffHome \<Rightarrow> HandoffHome \<Rightarrow> bool" where
  other: "\<forall>p w seen. opn \<noteq> DoClearUnrecordedCarry p w seen \<Longrightarrow> carryStep h (homeStep h (io, opn))"
| clear: "loadState (hh_state h) = Inr st \<Longrightarrow> w \<le> get0 (st_CarriedPrefixes st) p \<Longrightarrow>
    carryStep h (homeStep h (io, DoClearUnrecordedCarry p w seen))"

abbreviation hasMarker :: "UnrecordedCarry gomap \<Rightarrow> string \<Rightarrow> int \<Rightarrow> bool" where
  "hasMarker ms q c \<equiv> \<exists>mk. map_of ms q = Some mk \<and> c \<le> uc_Covered mk"

definition unknownFields :: "HandoffHome \<Rightarrow> string \<Rightarrow> jfield option \<times> jfield option" where
  "unknownFields h k =
     ((case hh_state h of Doc d \<Rightarrow> if k \<in> stateKeys \<union> liftedStateKeys then None else map_of d k | _ \<Rightarrow> None),
      (case hh_rails h of Doc d \<Rightarrow> if k \<in> railsKeys then None else map_of d k | _ \<Rightarrow> None))"

definition halted :: "HandoffHome \<Rightarrow> bool" where
  "halted h \<longleftrightarrow> (\<exists>hl. HaltedAt (hh_state h) = Inr (Some hl))"

subsection \<open>A rails mutation\<close>

lemma map_of_filter_keys: "map_of (filter (\<lambda>(k, v). k \<in> K) d) k = (if k \<in> K then map_of d k else None)"
  by (induction d) auto

lemma strip_load [simp]: "loadState (stripLiftedKeys io f) = loadState f"
proof (cases f)
  case (Doc d)
  have "decodeState (filter (\<lambda>(k, v). k \<notin> liftedStateKeys) d) = decodeState d"
    by (rule stateDoc.decode_local)
       (use map_of_filter_keys [of "- liftedStateKeys" d] in
         \<open>auto simp: stateKeys_def liftedStateKeys_def\<close>)
  with Doc show ?thesis
    by (simp add: stripLiftedKeys_def loadState_def loadDoc_Doc split: sum.splits)
qed (simp_all add: stripLiftedKeys_def)

lemma emptyRails_ok [simp]: "checkRails emptyRails = None"
  by (simp add: emptyRails_def checkRails_def)

lemma lift_ok: "lift f = Inr r \<Longrightarrow> checkRails r = None"
  by (cases f) (auto simp: lift_def dest: railsDoc.decode_ok)

lemma loadMerged_ok: "loadMerged h = Inr (r, d) \<Longrightarrow> checkRails r = None"
  by (cases "hh_rails h") (auto simp: loadMerged_def split: sum.splits dest: railsDoc.decode_ok lift_ok)

lemma storeRails_load:
  assumes "checkRails r = None"
  shows "loadRails (storeRails io r extras h) = Inr r"
    and "loadState (hh_state (storeRails io r extras h)) = loadState (hh_state h)"
  using railsDoc.decode_marshal [OF assms, of extras]
  by (simp_all add: storeRails_def loadRails_def loadMerged_def)

lemma mutateRails_cases:
  assumes "mutateRails io fn h = (res, h')"
    and "\<And>r. checkRails r = None \<Longrightarrow> checkRails (snd (fn r)) = None"
  obtains (failed) e where "res = Inl e" "h' = h"
    | (stored) r extras where "loadMerged h = Inr (r, extras)" "res = Inr (fst (fn r))"
        "h' = storeRails io (snd (fn r)) extras h" "loadRails h' = Inr (snd (fn r))"
proof (cases "loadMerged h")
  case (Inl e)
  with assms(1) show ?thesis by (auto simp: mutateRails_def intro: failed)
next
  case (Inr a)
  obtain r extras where a: "a = (r, extras)" by fastforce
  have ok: "checkRails (snd (fn r)) = None" using assms(2) loadMerged_ok Inr a by blast
  show ?thesis
  proof (cases "ioOk io")
    case False
    with assms(1) Inr a show ?thesis by (auto simp: mutateRails_def intro: failed)
  next
    case True
    then have "mutateRails io fn h = (Inr (fst (fn r)), storeRails io (snd (fn r)) extras h)"
      using Inr a by (simp add: mutateRails_def split_beta)
    with assms(1) Inr a storeRails_load(1) [OF ok, of io extras h] show ?thesis
      by (intro stored [of r extras]) auto
  qed
qed

lemma mutateRails_state:
  "loadState (hh_state (snd (mutateRails io fn h))) = loadState (hh_state h)"
  by (simp add: mutateRails_def storeRails_def split_beta split: sum.splits prod.splits)

lemma mutateLiftTolerant_state:
  "loadState (hh_state (snd (mutateLiftTolerant io fn h))) = loadState (hh_state h)"
  by (simp add: mutateLiftTolerant_def storeRails_def split_beta split: sum.splits prod.splits option.splits)

lemma rails_ops_state:
  "loadState (hh_state (snd (RecordMove io k ag ac t h))) = loadState (hh_state h)"
  "loadState (hh_state (snd (ClearMoves io k seen h))) = loadState (hh_state h)"
  "loadState (hh_state (snd (SetRefusedUntil io k t h))) = loadState (hh_state h)"
  "loadState (hh_state (snd (ClearRefused io k seen h))) = loadState (hh_state h)"
  "loadState (hh_state (snd (NoteReportsHeld io t h))) = loadState (hh_state h)"
  "loadState (hh_state (snd (ClearReportsHeld io seen h))) = loadState (hh_state h)"
  "loadState (hh_state (snd (NoteUnrecordedCarry io p dir c t h))) = loadState (hh_state h)"
  "loadState (hh_state (snd (ClearUnrecordedCarry io p w seen h))) = loadState (hh_state h)"
  "loadState (hh_state (snd (PruneExpired io d t seen h))) = loadState (hh_state h)"
  by (auto simp: RecordMove_def ClearMoves_def SetRefusedUntil_def ClearRefused_def NoteReportsHeld_def
      ClearReportsHeld_def NoteUnrecordedCarry_def ClearUnrecordedCarry_def PruneExpired_def
      mutateRails_state mutateLiftTolerant_state Let_def split: sum.splits)

lemma watermarkLe_same: "loadState (hh_state h') = loadState (hh_state h) \<Longrightarrow> watermarkLe h h'"
  by (simp add: watermarkLe_def)

lemma checkState_halt:
  "checkState st = None \<Longrightarrow> checkState (st\<lparr>st_Halted := None\<rparr>) = None"
  "checkState st = None \<Longrightarrow> r \<noteq> [] \<Longrightarrow> \<not> isZero t \<Longrightarrow>
     checkState (st\<lparr>st_Halted := Some \<lparr>hl_At = t, hl_Reason = r\<rparr>\<rparr>) = None"
  by (auto simp: checkState_def split: if_splits)

lemma growPrefix_get:
  "0 \<le> n \<Longrightarrow> get0 (st_CarriedPrefixes (growPrefix p n st)) q =
     (if q = p then (if has_key (st_CarriedPrefixes st) p then max n (get0 (st_CarriedPrefixes st) p) else n)
      else get0 (st_CarriedPrefixes st) q)"
  by (auto simp: growPrefix_def get0_def gomap_update split: option.splits)

lemma growPrefix_ge:
  "0 \<le> n \<Longrightarrow> get0 (st_CarriedPrefixes st) q \<le> get0 (st_CarriedPrefixes (growPrefix p n st)) q"
  by (auto simp: growPrefix_def get0_def gomap_update split: option.splits)

lemma growPrefix_ok: "checkState st = None \<Longrightarrow> 0 \<le> n \<Longrightarrow> checkState (growPrefix p n st) = None"
  by (auto simp: growPrefix_def checkState_update split: option.splits)

lemma RecordCarriedPrefix_cases:
  assumes "RecordCarriedPrefix io p n f = (res, f')"
  obtains (failed) e where "res = Inl e" "f' = f"
    | (stored) st extras where "loadDoc f = Inr (st, extras)" "res = Inr ()" "0 \<le> n"
        "loadState f' = Inr (growPrefix p n st)"
        "f' = Doc (marshalPreserving (encodeState (growPrefix p n st)) extras stateKeys)"
proof (cases "p = [] \<or> n < 0")
  case True
  with assms show ?thesis by (auto simp: RecordCarriedPrefix_def intro: failed)
next
  case False
  then have m: "mutateState io (\<lambda>st. ((), growPrefix p n st)) f = (res, f')"
    using assms by (simp add: RecordCarriedPrefix_def)
  have ok: "checkState st = None \<Longrightarrow> checkState (snd ((), growPrefix p n st)) = None" for st
    using False by (simp add: growPrefix_ok)
  show ?thesis
    using mutateState_cases [OF m ok] False failed stored by (metis fst_conv not_less snd_conv)
qed

lemma loadDoc_load: "loadDoc f = Inr (st, d) \<Longrightarrow> loadState f = Inr st"
  by (simp add: loadState_def)

lemma RecordCarriedPrefix_grows: "watermarkLe h (onState (RecordCarriedPrefix io p n) h)"
proof -
  obtain res f' where r: "RecordCarriedPrefix io p n (hh_state h) = (res, f')" by fastforce
  then show ?thesis
  proof (cases rule: RecordCarriedPrefix_cases)
    case (failed e)
    with r show ?thesis by (simp add: onState_def watermarkLe_same)
  next
    case (stored st extras)
    with r show ?thesis
      by (auto simp: onState_def watermarkLe_def loadDoc_load growPrefix_ge)
  qed
qed

lemma halt_ops_prefixes:
  "watermarkLe h (onState (RecordHalt io r t) h)"
  "watermarkLe h (onState (ClearHalt io seen) h)"
proof -
  obtain res f' where m: "RecordHalt io r t (hh_state h) = (res, f')" by fastforce
  show "watermarkLe h (onState (RecordHalt io r t) h)"
  proof (cases "r = [] \<or> isZero t")
    case True
    then show ?thesis by (simp add: onState_def RecordHalt_def watermarkLe_same)
  next
    case False
    with m have "mutateState io (\<lambda>st. ((), st\<lparr>st_Halted := Some \<lparr>hl_At = t, hl_Reason = r\<rparr>\<rparr>)) (hh_state h) = (res, f')"
      by (simp add: RecordHalt_def)
    then show ?thesis
      by (cases rule: mutateState_cases)
         (use False m in \<open>auto simp: checkState_halt onState_def watermarkLe_def loadDoc_load\<close>)
  qed
next
  obtain res f' where m: "ClearHalt io seen (hh_state h) = (res, f')" by fastforce
  show "watermarkLe h (onState (ClearHalt io seen) h)"
  proof (cases "mutateState io (\<lambda>st. (st_Halted st, st\<lparr>st_Halted := None\<rparr>)) (hh_state h) = (res, f')")
    case True
    then show ?thesis
      by (cases rule: mutateState_cases)
         (use m in \<open>auto simp: checkState_halt onState_def watermarkLe_def loadDoc_load\<close>)
  next
    case False
    with m have "f' = hh_state h" by (auto simp: ClearHalt_def split: sum.splits if_splits)
    with m show ?thesis by (simp add: onState_def watermarkLe_same)
  qed
qed

lemma homeStep_watermark: "watermarkLe h (homeStep h (io, opn))"
  by (cases opn) (simp_all add: RecordCarriedPrefix_grows halt_ops_prefixes watermarkLe_same rails_ops_state)

lemma watermarkLe_trans: "watermarkLe a b \<Longrightarrow> watermarkLe b c \<Longrightarrow> watermarkLe a c"
  unfolding watermarkLe_def by (meson order_trans)

interpretation watermarks: monotone_ops homeStep watermarkLe
  by unfold_locales (auto intro: watermarkLe_trans homeStep_watermark simp: watermarkLe_same)

lemma checkRails_None: "checkRails r = None \<longleftrightarrow> railsOk r"
  unfolding checkRails_def railsOk_def by (auto split: option.splits)

lemma ball_update:
  "\<forall>(k, v)\<in>set m. P k v \<Longrightarrow> P k' v' \<Longrightarrow> \<forall>(k, v)\<in>set (AList.update k' v' m). P k v"
  using set_gomap_update [of k' v' m] by auto

lemma ball_delete: "\<forall>(k, v)\<in>set m. P k v \<Longrightarrow> \<forall>(k, v)\<in>set (AList.delete k' m). P k v"
  using set_gomap_delete [of k' m] by blast

lemma ball_map_of: "\<forall>(k, v)\<in>set m. P k v \<Longrightarrow> map_of m k = Some v \<Longrightarrow> P k v"
  by (auto dest: map_of_SomeD)

lemma Clean_not_Nil [simp]: "Clean p \<noteq> []"
  by (simp add: Clean_def Let_def)

lemma noteAccountQuarantine_ok:
  assumes "railsOk r" "dir \<noteq> []" "path \<noteq> []" "0 < covered" "\<not> isZero at"
  shows "railsOk (noteAccountQuarantine dir path covered at r)"
proof -
  have q: "\<forall>(d, q)\<in>set (ra_QuarantinedAccounts r). quarantineOk d q"
    using assms(1) by (simp add: railsOk_def)
  have "\<forall>(d, q)\<in>set (ra_QuarantinedAccounts (noteAccountQuarantine dir path covered at r)). quarantineOk d q"
  proof (cases "map_of (ra_QuarantinedAccounts r) dir")
    case None
    have "quarantineOk dir \<lparr>aq_At = at, aq_Path = path, aq_Covered = covered\<rparr>"
      using assms(2-) by (simp add: quarantineOk_def)
    from ball_update [OF q this] None show ?thesis by (simp add: noteAccountQuarantine_def)
  next
    case (Some q')
    then have "quarantineOk dir q'" using ball_map_of [OF q] by blast
    then show ?thesis using Some assms(2-) q
      by (auto simp: noteAccountQuarantine_def Let_def intro!: ball_update [OF q])
         (auto simp: quarantineOk_def)
  qed
  with assms(1) show ?thesis
    by (auto simp: railsOk_def noteAccountQuarantine_def Let_def split: option.splits)
qed

lemma noteCarry_ok:
  assumes "railsOk r" "path \<noteq> []" "0 < covered" "\<not> isZero at"
  shows "railsOk (snd (noteCarry path dir covered at r))"
proof -
  have q: "\<forall>(p, m)\<in>set (ra_UnrecordedCarries r). carryOk p m"
    using assms(1) by (simp add: railsOk_def)
  show ?thesis
  proof (cases "map_of (ra_UnrecordedCarries r) path")
    case None
    then show ?thesis using assms noteAccountQuarantine_ok [OF assms(1), of "Clean dir"]
        ball_update [OF q, of path "\<lparr>uc_At = at, uc_Covered = covered\<rparr>"]
      by (auto simp: noteCarry_def Let_def railsOk_def carryOk_def)
  next
    case (Some m)
    then have "carryOk path m" using ball_map_of [OF q] by blast
    then show ?thesis using Some assms ball_update [OF q, of path "m\<lparr>uc_Covered := covered\<rparr>"]
      by (auto simp: noteCarry_def Let_def railsOk_def carryOk_def)
  qed
qed

lemma retireCarry_ok: "railsOk r \<Longrightarrow> railsOk (retireCarry path w od r)"
  by (auto simp: retireCarry_def Let_def railsOk_def split: option.splits
      dest: set_gomap_delete [THEN subsetD])

lemma railsFn_ok: "railsOk r \<Longrightarrow> opArgsOk opn \<Longrightarrow> railsOk (railsFn opn r)"
proof (cases opn)
  case (DoNoteUnrecordedCarry p dir c t)
  then show "railsOk r \<Longrightarrow> opArgsOk opn \<Longrightarrow> ?thesis" by (simp add: noteCarry_ok)
next
  case (DoClearUnrecordedCarry p w seen)
  then show "railsOk r \<Longrightarrow> opArgsOk opn \<Longrightarrow> ?thesis" by (simp add: retireCarry_ok)
next
  case (DoSetRefusedUntil k t)
  then show "railsOk r \<Longrightarrow> opArgsOk opn \<Longrightarrow> ?thesis"
    using ball_update [of "ra_RefusedUntil r" "\<lambda>k t. k \<noteq> []" k t] by (simp add: railsOk_def)
next
  case (DoClearRefused k seen)
  then show "railsOk r \<Longrightarrow> opArgsOk opn \<Longrightarrow> ?thesis"
    using ball_delete [of "ra_RefusedUntil r" "\<lambda>k t. k \<noteq> []" k] by (simp add: railsOk_def)
qed (auto simp: railsOk_def moveOk_def)

lemma mutateRails_load:
  assumes "\<And>r. railsOk r \<Longrightarrow> railsOk (snd (fn r))"
  shows "loadRails (snd (mutateRails io fn h)) = loadRails h \<or>
    (\<exists>r. loadRails h = Inr r \<and> loadRails (snd (mutateRails io fn h)) = Inr (snd (fn r)))"
proof (rule mutateRails_cases [OF prod.collapse [of "mutateRails io fn h", symmetric]])
  fix r assume "checkRails r = None" then show "checkRails (snd (fn r)) = None"
    using assms by (simp add: checkRails_None)
next
  fix r extras assume "loadMerged h = Inr (r, extras)"
    "loadRails (snd (mutateRails io fn h)) = Inr (snd (fn r))"
  then show ?thesis by (auto simp: loadRails_def)
qed simp

lemma mutateLiftTolerant_load:
  assumes "\<And>r. railsOk r \<Longrightarrow> railsOk (snd (fn r))"
  shows "loadRails (snd (mutateLiftTolerant io fn h)) = loadRails h \<or>
    (\<exists>r. (loadRails h = Inr r \<or> (\<exists>e. loadRails h = Inl e) \<and> r = emptyRails) \<and>
      loadRails (snd (mutateLiftTolerant io fn h)) = Inr (snd (fn r)))"
proof (cases "loadMerged h")
  case (Inr x)
  then have "mutateLiftTolerant io fn h = mutateRails io fn h"
    by (cases x) (simp add: mutateLiftTolerant_def mutateRails_def)
  moreover have "loadRails (snd (mutateRails io fn h)) = loadRails h \<or>
    (\<exists>r. loadRails h = Inr r \<and> loadRails (snd (mutateRails io fn h)) = Inr (snd (fn r)))"
    by (rule mutateRails_load) (rule assms)
  ultimately show ?thesis by auto
next
  case (Inl e)
  then have e: "loadRails h = Inl e" by (simp add: loadRails_def)
  have ok: "checkRails (snd (fn emptyRails)) = None"
    using assms [of emptyRails] emptyRails_ok unfolding checkRails_None by blast
  show ?thesis
    using Inl e storeRails_load(1) [OF ok, of io "[]" h]
    by (auto simp: mutateLiftTolerant_def split_beta split: sum.splits option.splits)
qed

lemma rawFields_Doc: "rawFields f = Inr d \<longleftrightarrow> f = Doc d"
  by (cases f) auto

text \<open>A state mutation keeps what a pre-split home would lift.\<close>

lemma lift_marshal:
  assumes "loadDoc f = Inr (st0, extras)"
  shows "lift (Doc (marshalPreserving (encodeState st) extras stateKeys)) = lift f"
proof (cases f)
  case Absent
  with assms have "extras = []" by (simp add: loadDoc_def)
  moreover have "filter (\<lambda>(k, v). k \<in> liftedStateKeys) (encodeState st) = []"
    by (auto simp: encodeState_def liftedStateKeys_def filter_empty_conv split: option.splits)
  moreover have "decodeRails [(''schema_version'', FInt 1)] = Inr emptyRails"
    by (simp add: decodeRails_def getInt_def getMoves_def getRefused_def getHeld_def getCarries_def
        getQuarantined_def emptyRails_def railsSchemaVersion_def [symmetric] checkRails_def)
  ultimately show ?thesis using Absent by (simp add: lift_def marshalPreserving_def)
next
  case (Doc d)
  then have "extras = d" using assms by (auto simp: loadDoc_Doc split: sum.splits)
  let ?m = "marshalPreserving (encodeState st) extras stateKeys"
  have "decodeRails ((''schema_version'', FInt 1) # filter (\<lambda>(k, v). k \<in> liftedStateKeys) ?m) =
        decodeRails ((''schema_version'', FInt 1) # filter (\<lambda>(k, v). k \<in> liftedStateKeys) d)"
  proof (rule railsDoc.decode_local)
    fix k
    have "k \<in> liftedStateKeys \<Longrightarrow> map_of ?m k = map_of d k"
      using stateDoc.marshal_unknown [of k st extras] \<open>extras = d\<close>
      by (auto simp: liftedStateKeys_def stateKeys_def)
    then show "map_of ((''schema_version'', FInt 1) # filter (\<lambda>(k, v). k \<in> liftedStateKeys) ?m) k =
      map_of ((''schema_version'', FInt 1) # filter (\<lambda>(k, v). k \<in> liftedStateKeys) d) k"
      by (simp add: map_of_filter_keys)
  qed
  with Doc show ?thesis by (simp add: lift_def)
qed (use assms in \<open>auto simp: loadDoc_def\<close>)

lemma mutateState_lift: "lift (snd (mutateState io fn f)) = lift f"
  by (auto simp: mutateState_def split_beta lift_marshal split: sum.splits)

lemma state_ops_lift:
  "lift (snd (RecordCarriedPrefix io p n f)) = lift f"
  "lift (snd (RecordHalt io r t f)) = lift f"
  "lift (snd (ClearHalt io seen f)) = lift f"
  by (auto simp: RecordCarriedPrefix_def RecordHalt_def ClearHalt_def mutateState_lift split: sum.splits)

lemma onState_rails:
  "(\<And>f. lift (snd (g f)) = lift f) \<Longrightarrow> loadRails (onState g h) = loadRails h"
  by (cases "hh_rails h") (simp_all add: onState_def loadRails_def loadMerged_def)

text \<open>Any operation leaves the rails a load answers, or applies its own change to them.\<close>

lemma homeStep_rails:
  "loadRails (homeStep h (io, opn)) = loadRails h \<or>
   (\<exists>r. (loadRails h = Inr r \<or> (\<exists>e. loadRails h = Inl e) \<and> r = emptyRails) \<and>
      loadRails (homeStep h (io, opn)) = Inr (railsFn opn r))"
proof (cases "opArgsOk opn")
  case False
  then show ?thesis
    by (cases opn) (auto simp: RecordMove_def SetRefusedUntil_def NoteReportsHeld_def NoteUnrecordedCarry_def)
next
  case True
  note ok = railsFn_ok [OF _ True]
  show ?thesis
  proof (cases opn)
    case (DoRecordMove k ag ac t)
    with True ok show ?thesis
      using mutateRails_load [where fn = "\<lambda>r. ((), railsFn opn r)" and io = io and h = h] by (auto simp: RecordMove_def)
  next
    case (DoClearMoves k seen)
    with True ok show ?thesis
      using mutateRails_load [where fn = "\<lambda>r. (length (filter (moveMatches k) (ra_RecentMoves r)), railsFn opn r)" and io = io and h = h]
      by (auto simp: ClearMoves_def split: sum.splits)
  next
    case (DoSetRefusedUntil k t)
    with True ok show ?thesis
      using mutateRails_load [where fn = "\<lambda>r. ((), railsFn opn r)" and io = io and h = h] by (auto simp: SetRefusedUntil_def)
  next
    case (DoClearRefused k seen)
    let ?f = "\<lambda>r. if k = [] then (length (ra_RefusedUntil r), r\<lparr>ra_RefusedUntil := []\<rparr>)
                  else (if has_key (ra_RefusedUntil r) k then 1 else 0,
                        r\<lparr>ra_RefusedUntil := AList.delete k (ra_RefusedUntil r)\<rparr>)"
    have f: "snd (?f r) = railsFn opn r" for r using DoClearRefused by simp
    show ?thesis using DoClearRefused mutateRails_load [where fn = ?f and io = io and h = h, unfolded f, OF ok]
      by (auto simp: ClearRefused_def split: sum.splits)
  next
    case (DoNoteReportsHeld t)
    with True ok show ?thesis
      using mutateRails_load [where fn = "\<lambda>r. ((), railsFn opn r)" and io = io and h = h] by (auto simp: NoteReportsHeld_def)
  next
    case (DoClearReportsHeld seen)
    with True ok show ?thesis
      using mutateRails_load [where fn = "\<lambda>r. ((), railsFn opn r)" and io = io and h = h]
      by (auto simp: ClearReportsHeld_def split: sum.splits)
  next
    case (DoNoteUnrecordedCarry p dir c t)
    have f: "snd (noteCarry p dir c t r) = railsFn opn r" for r using DoNoteUnrecordedCarry by simp
    show ?thesis using DoNoteUnrecordedCarry mutateLiftTolerant_load [where fn = "noteCarry p dir c t" and io = io and h = h, unfolded f, OF ok]
      by (auto simp: NoteUnrecordedCarry_def)
  next
    case (DoClearUnrecordedCarry p w seen)
    show ?thesis
    proof (cases "loadRails seen")
      case (Inl e)
      with DoClearUnrecordedCarry show ?thesis by (simp add: ClearUnrecordedCarry_def)
    next
      case (Inr r0)
      then show ?thesis using DoClearUnrecordedCarry ok
        mutateRails_load [where fn = "\<lambda>r. (True, railsFn opn r)" and io = io and h = h]
        by (auto simp: ClearUnrecordedCarry_def Let_def)
    qed
  next
    case (DoPruneExpired d now seen)
    with True ok show ?thesis
      using mutateRails_load [where fn = "\<lambda>r. ((), railsFn opn r)" and io = io and h = h]
      by (auto simp: PruneExpired_def split: sum.splits)
  qed (simp_all add: onState_rails state_ops_lift)
qed

subsection \<open>The quarantine is bounded\<close>

lemma noteAccountQuarantine_carries [simp]:
  "ra_UnrecordedCarries (noteAccountQuarantine d p c t r) = ra_UnrecordedCarries r"
  by (simp add: noteAccountQuarantine_def Let_def split: option.splits)

lemma noteCarry_length:
  "length (ra_UnrecordedCarries r) \<le> unrecordedCarryCap \<Longrightarrow>
   length (ra_UnrecordedCarries (snd (noteCarry p dir c t r))) \<le> unrecordedCarryCap"
  using length_update_le [of p _ "ra_UnrecordedCarries r"]
  by (auto simp: noteCarry_def Let_def length_update_old not_le split: option.splits
      intro: order_trans [OF length_update_le])

lemma retireCarry_length:
  "length (ra_UnrecordedCarries (retireCarry p w od r)) \<le> length (ra_UnrecordedCarries r)"
  by (auto simp: retireCarry_def Let_def AList.delete_eq split: option.splits)

lemma railsFn_length:
  "length (ra_UnrecordedCarries r) \<le> unrecordedCarryCap \<Longrightarrow>
   length (ra_UnrecordedCarries (railsFn opn r)) \<le> unrecordedCarryCap"
  by (cases opn) (simp_all add: noteCarry_length order_trans [OF retireCarry_length])

lemma homeStep_cap: "capInv h \<Longrightarrow> capInv (homeStep h (io, opn))"
  using homeStep_rails [of h io opn]
  by (auto simp: capInv_def railsFn_length emptyRails_def)

interpretation quarantine: invariant_ops homeStep capInv
  by unfold_locales (metis homeStep_cap surj_pair)

subsection \<open>A distrusted span stays distrusted\<close>

lemma noteCarry_span: "0 < c \<Longrightarrow> markerSpan r q \<le> markerSpan (snd (noteCarry p dir c t r)) q"
  by (auto simp: noteCarry_def markerSpan_def Let_def gomap_update split: option.splits)

lemma railsFn_span:
  assumes "\<forall>p w seen. opn \<noteq> DoClearUnrecordedCarry p w seen" and "opArgsOk opn"
  shows "markerSpan r q \<le> markerSpan (railsFn opn r) q"
  using assms by (cases opn) (auto simp: noteCarry_span, auto simp: markerSpan_def)

lemma retireCarry_span:
  "markerSpan (retireCarry p w od r) q = markerSpan r q \<or> q = p \<and> markerSpan r q \<le> w"
  by (auto simp: retireCarry_def markerSpan_def Let_def gomap_delete split: option.splits)

lemma homeStep_badArgs: "\<not> opArgsOk opn \<Longrightarrow> homeStep h (io, opn) = h"
  by (cases opn) (auto simp: RecordMove_def SetRefusedUntil_def NoteReportsHeld_def NoteUnrecordedCarry_def)

lemma protected_watermark:
  "loadState (hh_state h) = Inr st \<Longrightarrow> c \<le> get0 (st_CarriedPrefixes st) p \<Longrightarrow>
   protectedSpan (homeStep h (io, opn)) p c"
  using homeStep_watermark [of h io opn] unfolding watermarkLe_def protectedSpan_def
  by (meson order_trans)

lemma carryStep_home: "carryStep h h' \<Longrightarrow> \<exists>io opn. h' = homeStep h (io, opn)"
  by (erule carryStep.cases) blast+

lemma carryStep_protected:
  assumes "carryStep h h'" and "protectedSpan h p c" and "0 < c"
  shows "protectedSpan h' p c"
proof (cases "\<exists>st. loadState (hh_state h) = Inr st \<and> c \<le> get0 (st_CarriedPrefixes st) p")
  case True
  from assms(1) obtain io opn where "h' = homeStep h (io, opn)" using carryStep_home by blast
  with True show ?thesis using protected_watermark by blast
next
  case False
  with assms(2) obtain r where r: "loadRails h = Inr r" "c \<le> markerSpan r p"
    by (auto simp: protectedSpan_def)
  from assms(1) show ?thesis
  proof cases
    case (other opn io)
    show ?thesis
    proof (cases "opArgsOk opn")
      case False
      with other assms(2) show ?thesis by (simp add: homeStep_badArgs)
    next
      case True
      have "markerSpan r p \<le> markerSpan (railsFn opn r) p"
        using other True by (intro railsFn_span) auto
      then show ?thesis using homeStep_rails [of h io opn] r other(1)
        by (auto simp: protectedSpan_def)
    qed
  next
    case (clear st w q io seen)
    show ?thesis
    proof (cases "loadRails h' = loadRails h")
      case True
      then show ?thesis using r by (auto simp: protectedSpan_def)
    next
      case False
      then have "loadRails h' = Inr (railsFn (DoClearUnrecordedCarry q w seen) r)"
        using homeStep_rails [of h io "DoClearUnrecordedCarry q w seen"] r clear(1) by auto
      then obtain od where h': "loadRails h' = Inr (retireCarry q w od r)" by simp
      have st: "loadState (hh_state h') = Inr st"
        using clear rails_ops_state(8) by simp
      show ?thesis
        using retireCarry_span [of q w od r p] h' st clear(3) r(2)
        unfolding protectedSpan_def by auto
    qed
  qed
qed

lemma carrySteps_protected:
  "carryStep\<^sup>*\<^sup>* h h' \<Longrightarrow> protectedSpan h p c \<Longrightarrow> 0 < c \<Longrightarrow> protectedSpan h' p c"
  by (induction rule: rtranclp_induct) (auto intro: carryStep_protected)

lemma carryStep_watermark: "carryStep h h' \<Longrightarrow> watermarkLe h h'"
  using carryStep_home homeStep_watermark by metis

lemma carrySteps_watermark: "carryStep\<^sup>*\<^sup>* h h' \<Longrightarrow> watermarkLe h h'"
  by (induction rule: rtranclp_induct) (auto intro: watermarkLe_trans carryStep_watermark simp: watermarkLe_same)

subsection \<open>The snapshot over-excludes\<close>

lemma get0_addCarry: "get0 m q \<le> get0 (addCarry pm m) q"
  by (auto simp: addCarry_def Let_def get0_update)

lemma get0_fold_addCarry: "get0 m q \<le> get0 (fold addCarry ms m) q"
  by (induction ms arbitrary: m) (auto intro: order_trans get0_addCarry)

lemma fold_addCarry_marker:
  "(q, mk) \<in> set ms \<Longrightarrow> 0 < uc_Covered mk \<Longrightarrow> uc_Covered mk \<le> get0 (fold addCarry ms m) q"
proof (induction ms arbitrary: m)
  case (Cons pm ms)
  show ?case
  proof (cases "pm = (q, mk)")
    case True
    then have "uc_Covered mk \<le> get0 (addCarry pm m) q"
      using Cons.prems(2) by (auto simp: addCarry_def Let_def get0_update)
    also have "\<dots> \<le> get0 (fold addCarry ms (addCarry pm m)) q" by (rule get0_fold_addCarry)
    finally show ?thesis by simp
  next
    case False
    with Cons show ?thesis by simp
  qed
qed simp

lemma get0_fold_mergePrefix: "get0 m q \<le> get0 (fold mergePrefix xs m) q"
proof (induction xs arbitrary: m)
  case (Cons x xs)
  have "get0 m q \<le> get0 (mergePrefix x m) q" by (auto simp: mergePrefix_def get0_update)
  also have "\<dots> \<le> get0 (fold mergePrefix xs (mergePrefix x m)) q" by (rule Cons.IH)
  finally show ?case by simp
qed simp

lemma fold_mergePrefix_in: "(q, n) \<in> set xs \<Longrightarrow> n \<le> get0 (fold mergePrefix xs m) q"
proof (induction xs arbitrary: m)
  case (Cons x xs)
  show ?case
  proof (cases "x = (q, n)")
    case True
    then have "n \<le> get0 (mergePrefix x m) q" by (auto simp: mergePrefix_def get0_update)
    also have "\<dots> \<le> get0 (fold mergePrefix xs (mergePrefix x m)) q" by (rule get0_fold_mergePrefix)
    finally show ?thesis by simp
  next
    case False
    with Cons show ?thesis by simp
  qed
qed simp

lemma mergeCarry_keep: "hasMarker ms q c \<Longrightarrow> hasMarker (mergeCarry x ms) q c"
  by (auto simp: mergeCarry_def gomap_update split: option.splits)

lemma fold_mergeCarry_keep: "hasMarker ms q c \<Longrightarrow> hasMarker (fold mergeCarry xs ms) q c"
  by (induction xs arbitrary: ms) (simp_all add: mergeCarry_keep)

lemma fold_mergeCarry_in: "(q, mk) \<in> set xs \<Longrightarrow> hasMarker (fold mergeCarry xs ms) q (uc_Covered mk)"
proof (induction xs arbitrary: ms)
  case (Cons x xs)
  show ?case
  proof (cases "x = (q, mk)")
    case True
    then have "hasMarker (mergeCarry x ms) q (uc_Covered mk)"
      by (auto simp: mergeCarry_def gomap_update split: option.splits)
    then show ?thesis by (simp add: fold_mergeCarry_keep)
  next
    case False
    with Cons show ?thesis by simp
  qed
qed simp

lemma merged_effective:
  assumes "0 < c" and "c \<le> get0 (st_CarriedPrefixes s1) p \<or> c \<le> markerSpan r1 p"
  shows "c \<le> get0 (EffectiveCarriedPrefixes (mergeSnapshot s1 r1 s2 r2)) p"
  using assms(2)
proof
  assume c: "c \<le> get0 (st_CarriedPrefixes s1) p"
  with assms(1) have "(p, get0 (st_CarriedPrefixes s1) p) \<in> set (st_CarriedPrefixes s1)"
    by (auto simp: get0_def split: option.splits dest: map_of_SomeD)
  then have "get0 (st_CarriedPrefixes s1) p \<le>
      get0 (fold mergePrefix (st_CarriedPrefixes s1) (st_CarriedPrefixes s2)) p"
    by (rule fold_mergePrefix_in)
  with c show ?thesis
    using get0_fold_addCarry by (fastforce simp: EffectiveCarriedPrefixes_def mergeSnapshot_def intro: order_trans)
next
  assume "c \<le> markerSpan r1 p"
  with assms(1) obtain mk where "map_of (ra_UnrecordedCarries r1) p = Some mk" "c \<le> uc_Covered mk"
    by (auto simp: markerSpan_def split: option.splits)
  then have "hasMarker (fold mergeCarry (ra_UnrecordedCarries r1) (ra_UnrecordedCarries r2)) p (uc_Covered mk)"
    by (intro fold_mergeCarry_in) (rule map_of_SomeD)
  then obtain mk' where "(p, mk') \<in> set (fold mergeCarry (ra_UnrecordedCarries r1) (ra_UnrecordedCarries r2))"
    "c \<le> uc_Covered mk'" using \<open>c \<le> uc_Covered mk\<close> by (auto dest: map_of_SomeD)
  with assms(1) show ?thesis
    using fold_addCarry_marker by (fastforce simp: EffectiveCarriedPrefixes_def mergeSnapshot_def intro: order_trans)
qed

lemma noteCarry_result:
  assumes "noteCarry p dir c t r = (q, r')" and "0 < c"
  shows "if q then has_key (ra_QuarantinedAccounts r') (Clean dir) else c \<le> markerSpan r' p"
  using assms
  by (auto simp: noteCarry_def noteAccountQuarantine_def markerSpan_def Let_def gomap_update
      split: option.splits if_splits)

lemma mutateLiftTolerant_succeeds:
  assumes "hh_rails h = Absent \<or> (\<exists>r. loadRails h = Inr r)"
    and "\<And>r. railsOk r \<Longrightarrow> railsOk (snd (fn r))"
  obtains r where "fst (mutateLiftTolerant (True, s) fn h) = Inr (fst (fn r))"
    "loadRails (snd (mutateLiftTolerant (True, s) fn h)) = Inr (snd (fn r))"
proof -
  obtain r extras where load: "(case loadMerged h of Inr (r, extras) \<Rightarrow> Inr (r, extras)
        | Inl e \<Rightarrow> (case readFileNoFollow (hh_rails h) of
             Inl rerr \<Rightarrow> Inl rerr
           | Inr (Some _) \<Rightarrow> Inl e
           | Inr None \<Rightarrow> Inr (emptyRails, []))) = (Inr (r, extras) :: storeError + Rails \<times> doc)"
    and ok: "railsOk r"
  proof (cases "loadMerged h")
    case (Inr x)
    with that show ?thesis
      using loadMerged_ok by (cases x) (auto simp: checkRails_None)
  next
    case (Inl e)
    with assms(1) have "hh_rails h = Absent" by (auto simp: loadRails_def)
    with Inl that [of emptyRails "[]"] show ?thesis
      using emptyRails_ok unfolding checkRails_None by simp
  qed
  have "checkRails (snd (fn r)) = None" using assms(2) [OF ok] by (simp add: checkRails_None)
  from storeRails_load(1) [OF this, of "(True, s)" extras h] load that [of r] show ?thesis
    by (simp add: mutateLiftTolerant_def split_beta)
qed

lemma mutateLiftTolerant_fails:
  assumes "\<not> (fst io \<and> (hh_rails h = Absent \<or> (\<exists>r. loadRails h = Inr r)))"
  shows "\<exists>e. mutateLiftTolerant io fn h = (Inl e, h)"
proof (cases "loadMerged h")
  case (Inr x)
  with assms have "\<not> fst io" by (cases x) (simp add: loadRails_def)
  with Inr show ?thesis by (cases x) (simp add: mutateLiftTolerant_def)
next
  case (Inl e)
  then show ?thesis using assms
    by (cases "hh_rails h") (auto simp: mutateLiftTolerant_def loadRails_def split: sum.splits option.splits)
qed

subsection \<open>Unknown fields\<close>

lemma mutateState_unknown:
  "unknownFields (onState (mutateState io fn) h) = unknownFields h"
proof (cases "loadDoc (hh_state h)")
  case (Inr x)
  obtain st extras where x: "x = (st, extras)" by fastforce
  have "case hh_state h of Doc d \<Rightarrow> extras = d | _ \<Rightarrow> extras = []"
    using Inr x by (cases "hh_state h") (auto simp: loadDoc_Doc loadDoc_def split: sum.splits)
  then show ?thesis
    using Inr x by (cases "hh_state h")
      (auto simp: unknownFields_def onState_def mutateState_def split_beta stateDoc.marshal_unknown fun_eq_iff)
qed (simp add: onState_def mutateState_def)

lemma map_of_filter_not:
  "map_of (filter (\<lambda>(k, v). k \<notin> K) d) k = (if k \<in> K then None else map_of d k)"
  by (induction d) auto

lemma strip_unknown:
  "k \<notin> stateKeys \<union> liftedStateKeys \<Longrightarrow>
   (case stripLiftedKeys io f of Doc d \<Rightarrow> map_of d k | _ \<Rightarrow> None) =
   (case f of Doc d \<Rightarrow> map_of d k | _ \<Rightarrow> None)"
  by (cases f) (auto simp: stripLiftedKeys_def map_of_filter_not)

lemma storeRails_unknown:
  assumes "case hh_rails h of Doc d \<Rightarrow> extras = d | _ \<Rightarrow> extras = []"
  shows "unknownFields (storeRails io r extras h) = unknownFields h"
proof
  fix k
  have st: "(case stripLiftedKeys io (hh_state h) of
        Doc d \<Rightarrow> if k \<in> stateKeys \<union> liftedStateKeys then None else map_of d k | _ \<Rightarrow> None) =
      (case hh_state h of Doc d \<Rightarrow> if k \<in> stateKeys \<union> liftedStateKeys then None else map_of d k | _ \<Rightarrow> None)"
    using strip_unknown [of k io "hh_state h"]
    by (cases "k \<in> stateKeys \<union> liftedStateKeys")
       (auto simp: stripLiftedKeys_def split: handoffFile.splits if_splits)
  show "unknownFields (storeRails io r extras h) k = unknownFields h k"
    using assms st railsDoc.marshal_unknown [of k r extras]
    by (cases "hh_rails h") (auto simp: unknownFields_def storeRails_def)
qed

lemma mutateRails_unknown: "unknownFields (snd (mutateRails io fn h)) = unknownFields h"
proof (cases "loadMerged h")
  case (Inr x)
  obtain r extras where x: "x = (r, extras)" by fastforce
  then have "case hh_rails h of Doc d \<Rightarrow> extras = d | _ \<Rightarrow> extras = []"
    using Inr by (cases "hh_rails h") (auto simp: loadMerged_def split: sum.splits)
  then show ?thesis using Inr x by (simp add: mutateRails_def split_beta storeRails_unknown)
qed (simp add: mutateRails_def)

lemma mutateLiftTolerant_unknown: "unknownFields (snd (mutateLiftTolerant io fn h)) = unknownFields h"
proof (cases "loadMerged h")
  case (Inr x)
  then have "mutateLiftTolerant io fn h = mutateRails io fn h"
    by (cases x) (simp add: mutateLiftTolerant_def mutateRails_def)
  then show ?thesis by (simp add: mutateRails_unknown)
next
  case (Inl e)
  then show ?thesis
    by (cases "hh_rails h") (auto simp: mutateLiftTolerant_def split_beta storeRails_unknown)
qed

lemma homeStep_unknown: "unknownFields (homeStep h (io, opn)) = unknownFields h"
  by (cases opn)
     (auto simp: onState_def RecordCarriedPrefix_def RecordHalt_def ClearHalt_def RecordMove_def ClearMoves_def
      SetRefusedUntil_def ClearRefused_def NoteReportsHeld_def ClearReportsHeld_def NoteUnrecordedCarry_def
      ClearUnrecordedCarry_def PruneExpired_def Let_def mutateState_unknown [unfolded onState_def]
      mutateRails_unknown mutateLiftTolerant_unknown split: sum.splits)

subsection \<open>The halt\<close>

lemma halted_load: "halted h \<longleftrightarrow> (\<exists>st. loadState (hh_state h) = Inr st \<and> st_Halted st \<noteq> None)"
  by (auto simp: halted_def HaltedAt_def split: sum.splits)

lemma homeStep_halted:
  assumes "halted h" and "\<forall>seen. opn \<noteq> DoClearHalt seen"
  shows "halted (homeStep h (io, opn))"
proof -
  obtain st where st: "loadState (hh_state h) = Inr st" "st_Halted st \<noteq> None"
    using assms(1) by (auto simp: halted_load)
  show ?thesis
  proof (cases opn)
    case (DoRecordCarriedPrefix p n)
    obtain res f' where r: "RecordCarriedPrefix io p n (hh_state h) = (res, f')" by fastforce
    then show ?thesis
    proof (cases rule: RecordCarriedPrefix_cases)
      case (failed e)
      with r DoRecordCarriedPrefix assms(1) show ?thesis by (simp add: onState_def)
    next
      case (stored st' extras)
      have "st_Halted (growPrefix p n st') = st_Halted st'"
        by (simp add: growPrefix_def split: option.splits)
      with stored r st DoRecordCarriedPrefix show ?thesis
        by (auto simp: onState_def halted_load loadDoc_load)
    qed
  next
    case (DoRecordHalt reason t)
    show ?thesis
    proof (cases "reason = [] \<or> isZero t \<or> \<not> ioOk io")
      case True
      with DoRecordHalt assms(1) show ?thesis
        by (auto simp: onState_def RecordHalt_def mutateState_def split: sum.splits)
    next
      case False
      obtain extras where x: "loadDoc (hh_state h) = Inr (st, extras)"
        using st(1) by (auto simp: loadState_def split: sum.splits)
      let ?st' = "st\<lparr>st_Halted := Some \<lparr>hl_At = t, hl_Reason = reason\<rparr>\<rparr>"
      have "checkState ?st' = None" using False loadDoc_ok [OF x] by (simp add: checkState_halt)
      from mutateState_load(2) [OF x _ this, of "\<lambda>st. ((), st\<lparr>st_Halted := Some \<lparr>hl_At = t, hl_Reason = reason\<rparr>\<rparr>)" "()" "snd io"]
      show ?thesis using False DoRecordHalt
        by (cases io) (auto simp: onState_def RecordHalt_def halted_load)
    qed
  qed (use assms st in \<open>auto simp: halted_load rails_ops_state\<close>)
qed

end
