(* ===== verification/Rails_Props.thy ===== *)
theory Rails_Props
  imports Rails_Lemmas
begin

text \<open>
  The properties of the durable handoff files. The sample home holds a quarantine marker of
  ten bytes on one rollout and no state file; the sample commit records a longer watermark
  and then clears the marker.
\<close>

definition sampleHome :: HandoffHome where
  "sampleHome =
     \<lparr>hh_state = Absent,
      hh_rails = Doc [(''schema_version'', FInt 1), (''later'', FOther ''x''),
        (''unrecorded_carries'', FCarries [(''/r'', WireFull \<lparr>uc_At = 1, uc_Covered = 10\<rparr>)])]\<rparr>"

definition sampleWatermark :: HandoffHome where
  "sampleWatermark = homeStep sampleHome ((True, True), DoRecordCarriedPrefix ''/r'' 12)"

definition sampleCommit :: HandoffHome where
  "sampleCommit = homeStep sampleWatermark ((True, True), DoClearUnrecordedCarry ''/r'' 12 sampleHome)"

subsection \<open>Distrusted bytes\<close>

text \<open>C3. A snapshot taken while carries commit never counts a byte a carry disowned: a span that is
  covered by a watermark or a marker when the first read starts is inside the effective
  prefix of the merged snapshot, whatever steps of the carry protocol run between the reads.\<close>

theorem snapshot_never_under_excludes:
  assumes "protectedSpan h1 p c" and "0 < c"
    and "carryStep\<^sup>*\<^sup>* h1 h2"
    and "loadRails h1 = Inr r1" and "loadState (hh_state h2) = Inr s1"
  shows "let snap = fst (loadSnapshot (loadRails h1) (loadState (hh_state h2)) (Inr r2) (Inr s2))
         in c \<le> get0 (EffectiveCarriedPrefixes snap) p"
proof -
  have "c \<le> get0 (st_CarriedPrefixes s1) p \<or> c \<le> markerSpan r1 p"
    using assms(1,4,5) carrySteps_watermark [OF assms(3)]
    by (auto simp: protectedSpan_def watermarkLe_def intro: order_trans)
  then show ?thesis
    using merged_effective [OF assms(2)] by (simp add: loadSnapshot_def assms(4,5) Let_def)
qed

theorem snapshot_never_under_excludes_witness:
  "10 \<le> get0 (EffectiveCarriedPrefixes (fst (loadSnapshot (loadRails sampleHome)
      (loadState (hh_state sampleCommit)) (Inr emptyRails) (Inr emptyState)))) ''/r''"
proof -
  have steps: "carryStep\<^sup>*\<^sup>* sampleHome sampleCommit"
  proof (rule rtranclp_trans [OF r_into_rtranclp r_into_rtranclp])
    show "carryStep sampleHome sampleWatermark"
      unfolding sampleWatermark_def by (rule carryStep.other) simp
    have "loadState (hh_state sampleWatermark) =
        Inr \<lparr>st_SchemaVersion = 1, st_CarriedPrefixes = [(''/r'', 12)], st_Halted = None\<rparr>"
      by code_simp
    then show "carryStep sampleWatermark sampleCommit"
      unfolding sampleCommit_def by (rule carryStep.clear) (simp add: get0_def)
  qed
  have r1: "loadRails sampleHome = Inr (emptyRails\<lparr>ra_UnrecordedCarries := [(''/r'', \<lparr>uc_At = 1, uc_Covered = 10\<rparr>)]\<rparr>)"
    by code_simp
  have s1: "loadState (hh_state sampleCommit) =
      Inr \<lparr>st_SchemaVersion = 1, st_CarriedPrefixes = [(''/r'', 12)], st_Halted = None\<rparr>"
    by code_simp
  have "protectedSpan sampleHome ''/r'' 10"
    using r1 by (simp add: protectedSpan_def markerSpan_def)
  from snapshot_never_under_excludes [OF this _ steps r1 s1] show ?thesis by simp
qed

text \<open>C27. Noting a carry whose watermark could not be recorded never reports success without a quarantine: when
  it returns no error, either the file's marker covers the copied span or, the marker list being full, the
  whole account is flagged. It returns no error exactly when its arguments are complete, the lock and the write
  succeed and the rails file is absent or readable, a corrupt state file notwithstanding; an error changes nothing.\<close>

theorem failed_carry_quarantined:
  "case NoteUnrecordedCarry io p dir c t h of (res, h') \<Rightarrow>
     (case res of
        Inr q \<Rightarrow> \<exists>r'. loadRails h' = Inr r' \<and>
          (if q then has_key (ra_QuarantinedAccounts r') (Clean dir) else c \<le> markerSpan r' p)
      | Inl e \<Rightarrow> h' = h) \<and>
     ((\<exists>q. res = Inr q) \<longleftrightarrow>
        p \<noteq> [] \<and> 0 < c \<and> \<not> isZero t \<and> dir \<noteq> [] \<and> fst io \<and>
        (hh_rails h = Absent \<or> (\<exists>r. loadRails h = Inr r)))"
proof (cases "p \<noteq> [] \<and> 0 < c \<and> \<not> isZero t \<and> dir \<noteq> []")
  case False
  then have "\<exists>e. NoteUnrecordedCarry io p dir c t h = (Inl e, h)" by (auto simp: NoteUnrecordedCarry_def)
  with False show ?thesis by auto
next
  case args: True
  then have eq: "NoteUnrecordedCarry io p dir c t h = mutateLiftTolerant io (noteCarry p dir c t) h"
    by (simp add: NoteUnrecordedCarry_def)
  show ?thesis
  proof (cases "fst io \<and> (hh_rails h = Absent \<or> (\<exists>r. loadRails h = Inr r))")
    case False
    with mutateLiftTolerant_fails [OF this, of "noteCarry p dir c t"] show ?thesis unfolding eq by auto
  next
    case True
    then have io: "io = (True, snd io)" by (cases io) simp
    have ok: "railsOk r \<Longrightarrow> railsOk (snd (noteCarry p dir c t r))" for r using noteCarry_ok args by blast
    obtain r where "fst (mutateLiftTolerant io (noteCarry p dir c t) h) = Inr (fst (noteCarry p dir c t r))"
      "loadRails (snd (mutateLiftTolerant io (noteCarry p dir c t) h)) = Inr (snd (noteCarry p dir c t r))"
      using mutateLiftTolerant_succeeds [where fn = "noteCarry p dir c t" and s = "snd io", OF _ ok] True io by metis
    with noteCarry_result [of p dir c t r, OF prod.collapse [symmetric]] args True show ?thesis
      unfolding eq by (auto simp: split_beta)
  qed
qed

theorem failed_carry_quarantined_witness:
  "\<exists>q r'. fst (NoteUnrecordedCarry (True, True) ''/s'' ''/acc'' 7 3 \<lparr>hh_state = Corrupt, hh_rails = Absent\<rparr>) = Inr q \<and>
     loadRails (snd (NoteUnrecordedCarry (True, True) ''/s'' ''/acc'' 7 3 \<lparr>hh_state = Corrupt, hh_rails = Absent\<rparr>)) = Inr r' \<and>
     (if q then has_key (ra_QuarantinedAccounts r') (Clean ''/acc'') else 7 \<le> markerSpan r' ''/s'')"
proof -
  let ?h = "\<lparr>hh_state = Corrupt, hh_rails = Absent\<rparr>"
  let ?res = "NoteUnrecordedCarry (True, True) ''/s'' ''/acc'' 7 3 ?h"
  note all = failed_carry_quarantined [where io = "(True, True)" and p = "''/s''" and dir = "''/acc''" and c = 7 and t = 3
      and h = ?h, unfolded split_beta]
  then obtain q where q: "fst ?res = Inr q" by (auto simp: isZero_def)
  with all obtain r' where "loadRails (snd ?res) = Inr r'"
    "if q then has_key (ra_QuarantinedAccounts r') (Clean ''/acc'') else 7 \<le> markerSpan r' ''/s''" by auto
  with q show ?thesis by blast
qed

text \<open>The marker list stays within its cap of 256 along every sequence of mutations, and the
  carried-prefix watermark of every file never shrinks.\<close>

theorem quarantine_bounded_watermarks_grow:
  assumes "loadRails h = Inr r" and "length (ra_UnrecordedCarries r) \<le> unrecordedCarryCap"
    and "loadState (hh_state h) = Inr st"
  shows "(\<forall>r'. loadRails (run_ops homeStep h ops) = Inr r' \<longrightarrow>
            length (ra_UnrecordedCarries r') \<le> unrecordedCarryCap) \<and>
         (\<exists>st'. loadState (hh_state (run_ops homeStep h ops)) = Inr st' \<and>
            (\<forall>p. get0 (st_CarriedPrefixes st) p \<le> get0 (st_CarriedPrefixes st') p))"
proof
  have "capInv h" using assms(1,2) by (simp add: capInv_def)
  from quarantine.inv_run [OF this, of ops]
  show "\<forall>r'. loadRails (run_ops homeStep h ops) = Inr r' \<longrightarrow>
      length (ra_UnrecordedCarries r') \<le> unrecordedCarryCap"
    by (simp add: capInv_def)
  from watermarks.rel_run [of h ops] assms(3)
  show "\<exists>st'. loadState (hh_state (run_ops homeStep h ops)) = Inr st' \<and>
      (\<forall>p. get0 (st_CarriedPrefixes st) p \<le> get0 (st_CarriedPrefixes st') p)"
    by (simp add: watermarkLe_def)
qed

theorem quarantine_bounded_watermarks_grow_witness:
  "\<exists>st'. loadState (hh_state (run_ops homeStep sampleCommit
      [((True, True), DoRecordCarriedPrefix ''/r'' 5)])) = Inr st' \<and>
    12 \<le> get0 (st_CarriedPrefixes st') ''/r''"
proof -
  have r: "loadRails sampleCommit = Inr emptyRails" by code_simp
  have st: "loadState (hh_state sampleCommit) =
      Inr \<lparr>st_SchemaVersion = 1, st_CarriedPrefixes = [(''/r'', 12)], st_Halted = None\<rparr>"
    by code_simp
  have len: "length (ra_UnrecordedCarries emptyRails) \<le> unrecordedCarryCap" by code_simp
  have g: "get0 [(''/r'', 12)] ''/r'' = 12" by (simp add: get0_def)
  from quarantine_bounded_watermarks_grow [OF r len st, of "[((True, True), DoRecordCarriedPrefix ''/r'' 5)]"]
  show ?thesis using g by (metis HandoffState.select_convs(2))
qed

subsection \<open>What a rewrite keeps\<close>

text \<open>Fields no version of the model owns survive: along every sequence of mutations each
  unknown top-level field of either file keeps its value, and none appears.\<close>

theorem unknown_fields_survive:
  "unknownFields (run_ops homeStep h ops) = unknownFields h"
  by (induction ops arbitrary: h) (auto simp: homeStep_unknown)

text \<open>A recorded halt stands: no sequence of mutations without an operator's clear removes it.\<close>

theorem halt_stands:
  assumes "halted h" and "\<forall>(io, opn)\<in>set ops. \<forall>seen. opn \<noteq> DoClearHalt seen"
  shows "halted (run_ops homeStep h ops)"
  using assms
proof (induction ops arbitrary: h)
  case (Cons e ops)
  obtain io opn where e: "e = (io, opn)" by fastforce
  with Cons have "halted (homeStep h e)" by (simp only: e) (auto intro!: homeStep_halted)
  with Cons show ?case by simp
qed simp

theorem halt_stands_witness:
  "halted (run_ops homeStep (homeStep sampleHome ((True, True), DoRecordHalt ''failed'' 5))
     [((True, True), DoRecordCarriedPrefix ''/r'' 12), ((True, False), DoRecordMove ''k'' ''claude'' ''b'' 6)])"
proof (rule halt_stands)
  have "HaltedAt (hh_state (homeStep sampleHome ((True, True), DoRecordHalt ''failed'' 5))) =
      Inr (Some \<lparr>hl_At = 5, hl_Reason = ''failed''\<rparr>)"
    by code_simp
  then show "halted (homeStep sampleHome ((True, True), DoRecordHalt ''failed'' 5))"
    unfolding halted_def by blast
qed auto

end
