(* ===== verification/Event_Queue.thy ===== *)
theory Event_Queue
  imports Go_Strings
begin

text \<open>
  The durable watch-event backlog of \<^verbatim>\<open>src/daemon/eventqueue.go\<close> and its usage-limit half
  \<^verbatim>\<open>src/daemon/eventqueue_limit.go\<close>. The disk is the bytes of the queue file, the cursor file and
  the limit marker; an operation runs under the queue mutex and maps the in-memory record and
  the disk to their successors. Which system calls fail in one operation is the record
  \<open>qfaults\<close>. How \<^verbatim>\<open>encoding/json\<close> writes and reads one record is the pair of arguments
  \<open>marshal\<close> and \<open>unmarshal\<close>; the proofs use that a record holds no newline (\<open>nlFree\<close>) and, for
  what is delivered, that it decodes to what was encoded. Times enter only as the
  record's own stamp and as \<open>qf_retryDue\<close>, whether the load-retry interval has passed.
\<close>

subsection \<open>Records, memory, disk and faults\<close>

record queuedEvent =
  qe_Seq :: int
  qe_TS :: gtime
  qe_Line :: string

record eventQueueCursor =
  cu_offset :: nat
  cu_length :: nat
  cu_seq :: int

record eventQueue =
  eq_offset :: nat
  eq_size :: nat
  eq_pending :: nat
  eq_seq :: int
  eq_loadErr :: bool
  eq_limitParked :: bool
  eq_parkedStatusSeq :: int
  eq_limitParkedErr :: bool
  eq_dropped :: nat

record qdisk =
  dk_file :: "string option"
  dk_cursor :: "string option"
  dk_marker :: "string option"

datatype compactFate =
    CompactOk | CompactOpenFails | CompactCursorFails | CompactSyncFails | CompactTempFails
  | CompactRenameFails | CompactRenameRestoreFails | CompactLastSyncFails

record qfaults =
  qf_unreadable :: bool
  qf_cursorRead :: bool
  qf_markerUnreadable :: bool
  qf_append :: "nat option"
  qf_truncate :: bool
  qf_boundary :: bool
  qf_read :: bool
  qf_cursorLink :: bool
  qf_cursorWrite :: bool
  qf_removeFile :: bool
  qf_removeCursor :: bool
  qf_markerLink :: bool
  qf_markerWrite :: bool
  qf_markerRemove :: bool
  qf_compact :: compactFate
  qf_retryDue :: bool

datatype queueError =
    ErrQueueLoadFailed | ErrTruncatedRecord | ErrCorruptRecord | ErrQueueRead | ErrCursorWrite
  | ErrQueueLink | ErrMarkerWrite | ErrMarkerRemove | ErrAppend | ErrQueueRemove
  | ErrCursorLength

type_synonym marshalFn = "queuedEvent \<Rightarrow> string"
type_synonym unmarshalFn = "string \<Rightarrow> queuedEvent option"

abbreviation nl :: char where
  "nl \<equiv> CHR 0x0A"

definition watcherQueueMaxEvents :: nat where
  "watcherQueueMaxEvents = 500"

definition watcherQueueMaxBytes :: nat where
  "watcherQueueMaxBytes = 256 * 1024"

definition watcherQueueCompactBytes :: nat where
  "watcherQueueCompactBytes = 1024 * 1024"

definition emptyQueue :: eventQueue where
  "emptyQueue = \<lparr>eq_offset = 0, eq_size = 0, eq_pending = 0, eq_seq = 0, eq_loadErr = False,
     eq_limitParked = False, eq_parkedStatusSeq = 0, eq_limitParkedErr = False, eq_dropped = 0\<rparr>"

text \<open>The newline-terminated lines of a byte string, each with its newline, and the bytes after the last.\<close>

fun linesOf :: "string \<Rightarrow> string list \<times> string" where
  "linesOf [] = ([], [])"
| "linesOf (c # cs) =
     (let (ls, t) = linesOf cs in
      if c = nl then ([c] # ls, t)
      else (case ls of [] \<Rightarrow> ([], c # t) | l # ls' \<Rightarrow> ((c # l) # ls', t)))"

text \<open>What one record read answers: the event and its length, a corrupt line's length, or nothing.\<close>

datatype readResult = ReadOk queuedEvent nat | ReadCorrupt nat | ReadTruncated | ReadFailed

definition readEventAtLocked :: "qfaults \<Rightarrow> unmarshalFn \<Rightarrow> qdisk \<Rightarrow> nat \<Rightarrow> readResult" where
  "readEventAtLocked f unmarshal d off =
     (if qf_read f then ReadFailed
      else (case dk_file d of
              None \<Rightarrow> ReadFailed
            | Some s \<Rightarrow>
                (case fst (linesOf (drop off s)) of
                   [] \<Rightarrow> ReadTruncated
                 | raw # _ \<Rightarrow>
                     (case unmarshal raw of
                        Some ev \<Rightarrow> ReadOk ev (length raw)
                      | None \<Rightarrow> ReadCorrupt (length raw)))))"

fun readError :: "readResult \<Rightarrow> queueError" where
  "readError ReadTruncated = ErrTruncatedRecord"
| "readError (ReadCorrupt n) = ErrCorruptRecord"
| "readError r = ErrQueueRead"

definition persistCursorValueLocked :: "qfaults \<Rightarrow> nat \<Rightarrow> qdisk \<Rightarrow> queueError option \<times> qdisk" where
  "persistCursorValueLocked f off d =
     (if qf_cursorLink f then (Some ErrQueueLink, d)
      else if qf_cursorWrite f then (Some ErrCursorWrite, d)
      else (None, d\<lparr>dk_cursor := Some (itoa (int off))\<rparr>))"

definition persistCursorLocked :: "qfaults \<Rightarrow> eventQueue \<Rightarrow> qdisk \<Rightarrow> queueError option \<times> qdisk" where
  "persistCursorLocked f q d = persistCursorValueLocked f (eq_offset q) d"

subsection \<open>The usage-limit marker\<close>

definition limitProtectedLocked :: "eventQueue \<Rightarrow> bool" where
  "limitProtectedLocked q \<longleftrightarrow> eq_limitParked q \<or> (eq_limitParkedErr q \<and> eq_pending q > 0)"

definition clearLimitParkedLocked ::
  "qfaults \<Rightarrow> eventQueue \<Rightarrow> qdisk \<Rightarrow> queueError option \<times> eventQueue \<times> qdisk" where
  "clearLimitParkedLocked f q d =
     (if qf_markerLink f then (Some ErrQueueLink, q, d)
      else if qf_markerRemove f \<and> dk_marker d \<noteq> None then (Some ErrMarkerRemove, q, d)
      else (None, q\<lparr>eq_limitParked := False, eq_parkedStatusSeq := 0, eq_limitParkedErr := False\<rparr>,
            d\<lparr>dk_marker := None\<rparr>))"

definition markerSeq :: "string \<Rightarrow> int" where
  "markerSeq raw =
     (case Fields raw of
        [w, n] \<Rightarrow>
          (if w = ''parked'' then
             (case Atoi n of Some s \<Rightarrow> if s > 0 then s else 0 | None \<Rightarrow> 0)
           else 0)
      | _ \<Rightarrow> 0)"

definition loadLimitParkedLocked ::
  "qfaults \<Rightarrow> eventQueue \<Rightarrow> qdisk \<Rightarrow> queueError option \<times> eventQueue \<times> qdisk" where
  "loadLimitParkedLocked f q d =
     (if qf_markerUnreadable f then (Some ErrQueueRead, q, d)
      else if qf_markerLink f then (Some ErrQueueLink, q, d)
      else
        (case dk_marker d of
           None \<Rightarrow>
             (None, q\<lparr>eq_limitParked := False, eq_parkedStatusSeq := 0,
                      eq_limitParkedErr := (if eq_pending q = 0 then False else eq_limitParkedErr q)\<rparr>, d)
         | Some raw \<Rightarrow>
             (let q' = q\<lparr>eq_limitParked := True, eq_limitParkedErr := False,
                         eq_parkedStatusSeq := markerSeq raw\<rparr>
              in if eq_pending q' = 0 then clearLimitParkedLocked f q' d else (None, q', d))))"

definition persistLimitParkedLocked ::
  "qfaults \<Rightarrow> int \<Rightarrow> eventQueue \<Rightarrow> qdisk \<Rightarrow> queueError option \<times> eventQueue \<times> qdisk" where
  "persistLimitParkedLocked f statusSeq q d =
     (if qf_markerLink f \<or> qf_markerWrite f
      then (Some ErrMarkerWrite,
            (if \<not> eq_limitParked q then q\<lparr>eq_limitParkedErr := True\<rparr> else q), d)
      else (None, q\<lparr>eq_limitParked := True, eq_parkedStatusSeq := statusSeq, eq_limitParkedErr := False\<rparr>,
            d\<lparr>dk_marker := Some (if statusSeq > 0 then ''parked '' @ itoa statusSeq @ [nl]
                                 else ''parked'' @ [nl])\<rparr>))"

definition clearStaleProtectionLocked ::
  "qfaults \<Rightarrow> eventQueue \<Rightarrow> qdisk \<Rightarrow> queueError option \<times> eventQueue \<times> qdisk" where
  "clearStaleProtectionLocked f q d =
     (case (if eq_limitParked q then clearLimitParkedLocked f q d else (None, q, d)) of
        (Some e, q', d') \<Rightarrow> (Some e, q', d')
      | (None, q', d') \<Rightarrow> (None, q'\<lparr>eq_limitParkedErr := False\<rparr>, d'))"

text \<open>How to undo what protecting a parked event changed, when the event is then not retained.\<close>

datatype markerUndo = UndoNothing | UndoRestoreErr bool | UndoClearMarker

definition protectParkedEnqueueLocked ::
  "qfaults \<Rightarrow> int \<Rightarrow> eventQueue \<Rightarrow> qdisk \<Rightarrow> queueError option \<times> markerUndo \<times> eventQueue \<times> qdisk" where
  "protectParkedEnqueueLocked f statusSeq q d =
     (if eq_limitParked q \<and> statusSeq = eq_parkedStatusSeq q then (None, UndoNothing, q, d)
      else
        (case persistLimitParkedLocked f statusSeq q d of
           (Some e, q', d') \<Rightarrow> (Some e, UndoRestoreErr (eq_limitParkedErr q), q', d')
         | (None, q', d') \<Rightarrow>
             (None, (if limitProtectedLocked q then UndoNothing else UndoClearMarker), q', d')))"

definition undoMarker :: "qfaults \<Rightarrow> markerUndo \<Rightarrow> eventQueue \<Rightarrow> qdisk \<Rightarrow> eventQueue \<times> qdisk" where
  "undoMarker f u q d =
     (case u of
        UndoNothing \<Rightarrow> (q, d)
      | UndoRestoreErr e \<Rightarrow> (q\<lparr>eq_limitParkedErr := e\<rparr>, d)
      | UndoClearMarker \<Rightarrow> snd (clearLimitParkedLocked f q d))"

subsection \<open>Loading\<close>

text \<open>Torn bytes whose truncate failed too: a newline makes them a line of their own.\<close>

definition recoverTornRecordLocked ::
  "qfaults \<Rightarrow> nat \<Rightarrow> bool \<Rightarrow> eventQueue \<Rightarrow> qdisk \<Rightarrow> eventQueue \<times> qdisk" where
  "recoverTornRecordLocked f n sizeIncludesTorn q d =
     (if qf_boundary f then (q, d)
      else
        (q\<lparr>eq_size := Suc (if sizeIncludesTorn then eq_size q else eq_size q + n),
           eq_pending := Suc (eq_pending q)\<rparr>,
         d\<lparr>dk_file := Some ((case dk_file d of None \<Rightarrow> [] | Some s \<Rightarrow> s) @ [nl])\<rparr>))"

definition cursorOffset :: "qfaults \<Rightarrow> string option \<Rightarrow> nat \<Rightarrow> nat" where
  "cursorOffset f cursor sz =
     (if qf_cursorRead f then 0
      else (case cursor of
              None \<Rightarrow> 0
            | Some raw \<Rightarrow>
                (case Atoi (TrimSpace raw) of
                   Some off \<Rightarrow> if off \<ge> 0 \<and> off \<le> int sz then nat off else 0
                 | None \<Rightarrow> 0)))"

definition offsetIsRecordBoundaryLocked :: "string \<Rightarrow> nat \<Rightarrow> bool" where
  "offsetIsRecordBoundaryLocked s off \<longleftrightarrow> off = 0 \<or> off \<ge> length s \<or> s ! (off - 1) = nl"

definition maxSeq :: "unmarshalFn \<Rightarrow> int \<Rightarrow> string list \<Rightarrow> int" where
  "maxSeq unmarshal seq ls =
     foldl (\<lambda>m raw. case unmarshal raw of
                      Some ev \<Rightarrow> if qe_Seq ev > m then qe_Seq ev else m
                    | None \<Rightarrow> m) seq ls"

definition scanDiskStateLocked ::
  "qfaults \<Rightarrow> unmarshalFn \<Rightarrow> eventQueue \<Rightarrow> qdisk \<Rightarrow> queueError option \<times> eventQueue \<times> qdisk" where
  "scanDiskStateLocked f unmarshal q d =
     (if qf_unreadable f then (Some ErrQueueRead, q, d)
      else
        (case dk_file d of
           None \<Rightarrow> (None, q, d)
         | Some s \<Rightarrow>
             (let off0 = cursorOffset f (dk_cursor d) (length s);
                  off = (if offsetIsRecordBoundaryLocked s off0 then off0 else 0);
                  (ls, tail) = linesOf (drop off s);
                  q' = q\<lparr>eq_offset := off, eq_size := length s, eq_pending := length ls,
                         eq_seq := maxSeq unmarshal (eq_seq q) ls\<rparr>;
                  scanned = length s - length tail
              in if tail = [] then (None, q', d)
                 else if qf_truncate f
                 then (case recoverTornRecordLocked f (length tail) True q' d of (q'', d') \<Rightarrow> (None, q'', d'))
                 else (None, q'\<lparr>eq_size := scanned\<rparr>, d\<lparr>dk_file := Some (take scanned s)\<rparr>))))"

definition loadLocked :: "qfaults \<Rightarrow> unmarshalFn \<Rightarrow> eventQueue \<Rightarrow> qdisk \<Rightarrow> eventQueue \<times> qdisk" where
  "loadLocked f unmarshal q d =
     (let q0 = q\<lparr>eq_offset := 0, eq_size := 0, eq_pending := 0, eq_loadErr := False\<rparr>;
          (e1, q1, d1) = scanDiskStateLocked f unmarshal q0 d;
          (e2, q2, d2) = (if e1 = None then loadLimitParkedLocked f q1 d1 else (e1, q1, d1))
      in if e2 \<noteq> None
         then (q2\<lparr>eq_offset := 0, eq_size := 0, eq_pending := 0, eq_loadErr := True\<rparr>, d2)
         else (q2, d2))"

definition newEventQueue :: "qfaults \<Rightarrow> unmarshalFn \<Rightarrow> qdisk \<Rightarrow> eventQueue \<times> qdisk" where
  "newEventQueue f unmarshal d = loadLocked f unmarshal emptyQueue d"

definition retryLoadNowLocked ::
  "qfaults \<Rightarrow> unmarshalFn \<Rightarrow> eventQueue \<Rightarrow> qdisk \<Rightarrow> eventQueue \<times> qdisk" where
  "retryLoadNowLocked f unmarshal q d =
     (if \<not> eq_loadErr q then (q, d) else loadLocked f unmarshal q d)"

definition retryLoadLocked ::
  "qfaults \<Rightarrow> unmarshalFn \<Rightarrow> eventQueue \<Rightarrow> qdisk \<Rightarrow> eventQueue \<times> qdisk" where
  "retryLoadLocked f unmarshal q d =
     (if \<not> eq_loadErr q then (q, d)
      else if \<not> qf_retryDue f then (q, d)
      else retryLoadNowLocked f unmarshal q d)"

subsection \<open>Enqueueing\<close>

definition resetCursorBeforeFreshAppendLocked ::
  "qfaults \<Rightarrow> eventQueue \<Rightarrow> qdisk \<Rightarrow> queueError option \<times> qdisk" where
  "resetCursorBeforeFreshAppendLocked f q d =
     (if eq_pending q \<noteq> 0 \<or> eq_offset q \<noteq> 0 \<or> eq_size q \<noteq> 0 then (None, d)
      else if qf_cursorLink f then (Some ErrQueueLink, d)
      else if qf_removeCursor f \<and> dk_cursor d \<noteq> None
      then (if qf_cursorWrite f then (Some ErrCursorWrite, d)
            else (None, d\<lparr>dk_cursor := Some ''0''\<rparr>))
      else (None, d\<lparr>dk_cursor := None\<rparr>))"

text \<open>The loop of the overflow drop: an error, or where the cursor ends and how many it dropped.\<close>

function dropLoop ::
  "qfaults \<Rightarrow> unmarshalFn \<Rightarrow> qdisk \<Rightarrow> nat \<Rightarrow> nat \<Rightarrow> nat \<Rightarrow> nat \<Rightarrow> queueError option \<times> nat \<times> nat \<times> nat" where
  "dropLoop f unmarshal d sz off pending dropped =
     (if \<not> (pending > watcherQueueMaxEvents \<or> sz - off > watcherQueueMaxBytes) \<or> pending \<le> 1
      then (None, off, pending, dropped)
      else (case readEventAtLocked f unmarshal d off of
              ReadOk ev n \<Rightarrow> dropLoop f unmarshal d sz (off + n) (pending - 1) (Suc dropped)
            | r \<Rightarrow> (Some (readError r), off, pending, dropped)))"
  by pat_completeness auto
termination by (relation "measure (\<lambda>(f, u, d, sz, off, pending, dropped). pending)") auto

declare dropLoop.simps [simp del]

definition dropOldestOverCapsLocked ::
  "qfaults \<Rightarrow> unmarshalFn \<Rightarrow> eventQueue \<Rightarrow> qdisk \<Rightarrow> queueError option \<times> eventQueue \<times> qdisk" where
  "dropOldestOverCapsLocked f unmarshal q d =
     (let (e, off, pending, droppedNow) = dropLoop f unmarshal d (eq_size q) (eq_offset q) (eq_pending q) 0;
          q1 = q\<lparr>eq_offset := off, eq_pending := pending\<rparr>
      in if e \<noteq> None then (e, q1, d)
         else if droppedNow = 0 then (None, q1, d)
         else
           (let q2 = q1\<lparr>eq_dropped := eq_dropped q1 + droppedNow\<rparr>;
                (e', d') = persistCursorLocked f q2 d
            in (e', q2, d')))"

definition enforceCapsLocked ::
  "qfaults \<Rightarrow> unmarshalFn \<Rightarrow> eventQueue \<Rightarrow> qdisk \<Rightarrow> queueError option \<times> eventQueue \<times> qdisk" where
  "enforceCapsLocked f unmarshal q d =
     (if limitProtectedLocked q then (None, q, d) else dropOldestOverCapsLocked f unmarshal q d)"

fun joinErrors :: "queueError option \<Rightarrow> queueError option \<Rightarrow> queueError list" where
  "joinErrors a b = (case a of None \<Rightarrow> [] | Some e \<Rightarrow> [e]) @ (case b of None \<Rightarrow> [] | Some e \<Rightarrow> [e])"

text \<open>
  The append of one record: retained or not, and what happened to the file. An append that fails
  before its first byte leaves the file as it was.
\<close>

definition appendEventLocked ::
  "qfaults \<Rightarrow> marshalFn \<Rightarrow> unmarshalFn \<Rightarrow> gtime \<Rightarrow> string \<Rightarrow> queueError option \<Rightarrow> eventQueue \<Rightarrow> qdisk \<Rightarrow>
   (bool \<times> queueError list) \<times> eventQueue \<times> qdisk" where
  "appendEventLocked f marshal unmarshal now line markerErr q d =
     (let q1 = q\<lparr>eq_seq := eq_seq q + 1\<rparr>;
          rec = marshal \<lparr>qe_Seq = eq_seq q1, qe_TS = now, qe_Line = line\<rparr> @ [nl];
          old = (case dk_file d of None \<Rightarrow> [] | Some s \<Rightarrow> s)
      in case qf_append f of
           None \<Rightarrow>
             (let q2 = q1\<lparr>eq_size := eq_size q1 + length rec, eq_pending := Suc (eq_pending q1)\<rparr>;
                  d2 = d\<lparr>dk_file := Some (old @ rec)\<rparr>;
                  (e, q3, d3) = enforceCapsLocked f unmarshal q2 d2
              in ((True, joinErrors markerErr e), q3, d3))
         | Some n \<Rightarrow>
             (if n \<ge> length rec then
                (let q2 = q1\<lparr>eq_size := eq_size q1 + length rec, eq_pending := Suc (eq_pending q1)\<rparr>;
                     d2 = d\<lparr>dk_file := Some (old @ rec)\<rparr>;
                     (e, q3, d3) = enforceCapsLocked f unmarshal q2 d2
                 in ((True, joinErrors markerErr (Some ErrAppend)), q3, d3))
              else if n > 0 then
                (let d2 = d\<lparr>dk_file := Some (old @ take n rec)\<rparr>
                 in if qf_truncate f
                    then (let (q3, d3) = recoverTornRecordLocked f n False q1 d2
                          in ((False, [ErrAppend]), q3, d3))
                    else ((False, [ErrAppend]), q1, d2\<lparr>dk_file := Some (take (eq_size q1) (old @ take n rec))\<rparr>))
              else ((False, [ErrAppend]), q1, d)))"

definition enqueueWithParkedStatus ::
  "qfaults \<Rightarrow> marshalFn \<Rightarrow> unmarshalFn \<Rightarrow> gtime \<Rightarrow> string \<Rightarrow> bool \<Rightarrow> bool \<Rightarrow> eventQueue \<Rightarrow> qdisk \<Rightarrow>
   (bool \<times> queueError list) \<times> eventQueue \<times> qdisk" where
  "enqueueWithParkedStatus f marshal unmarshal now line parkThisEvent statusRecorded q d =
     (let (q1, d1) = retryLoadNowLocked f unmarshal q d in
      if eq_loadErr q1 then ((False, [ErrQueueLoadFailed]), q1, d1)
      else
        (case (if eq_pending q1 = 0 \<and> \<not> parkThisEvent then clearStaleProtectionLocked f q1 d1
               else (None, q1, d1)) of
           (Some e, q2, d2) \<Rightarrow> ((False, [e]), q2, d2)
         | (None, q2, d2) \<Rightarrow>
             (let statusSeq = (if parkThisEvent \<and> statusRecorded \<and> eq_pending q2 = 0
                               then eq_seq q2 + 1 else eq_parkedStatusSeq q2);
                  (markerErr, undo, q3, d3) =
                    (if parkThisEvent then protectParkedEnqueueLocked f statusSeq q2 d2
                     else (None, UndoNothing, q2, d2));
                  ((retained, errs), q4, d4) =
                    (case resetCursorBeforeFreshAppendLocked f q3 d3 of
                       (Some e, d') \<Rightarrow> ((False, [e]), q3, d')
                     | (None, d') \<Rightarrow> appendEventLocked f marshal unmarshal now line markerErr q3 d');
                  (q5, d5) = (if retained then (q4, d4) else undoMarker f undo q4 d4)
              in ((retained, errs), q5, d5))))"

definition enqueue ::
  "qfaults \<Rightarrow> marshalFn \<Rightarrow> unmarshalFn \<Rightarrow> gtime \<Rightarrow> string \<Rightarrow> bool \<Rightarrow> eventQueue \<Rightarrow> qdisk \<Rightarrow>
   queueError list \<times> eventQueue \<times> qdisk" where
  "enqueue f marshal unmarshal now line limitParked q d =
     (case enqueueWithParkedStatus f marshal unmarshal now line limitParked False q d of
        ((_, errs), q', d') \<Rightarrow> (errs, q', d'))"

subsection \<open>Draining\<close>

definition removeDrainedFilesLocked ::
  "qfaults \<Rightarrow> eventQueue \<Rightarrow> qdisk \<Rightarrow> (queueError + bool) \<times> eventQueue \<times> qdisk" where
  "removeDrainedFilesLocked f q d =
     (if qf_cursorLink f \<or> qf_markerLink f then (Inl ErrQueueLink, q, d)
      else if qf_removeFile f \<and> dk_file d \<noteq> None then (Inl ErrQueueRemove, q, d)
      else
        (let d1 = d\<lparr>dk_file := None\<rparr>;
             finish = (\<lambda>d2. let (e, q2, d3) = clearLimitParkedLocked f q d2
                           in (Inr True, q2\<lparr>eq_offset := 0, eq_size := 0\<rparr>, d3))
         in if qf_removeCursor f \<and> dk_cursor d1 \<noteq> None
            then (if qf_cursorWrite f
                  then (Inl ErrCursorWrite, q\<lparr>eq_offset := 0, eq_size := 0\<rparr>, d1)
                  else finish (d1\<lparr>dk_cursor := Some ''0''\<rparr>))
            else finish (d1\<lparr>dk_cursor := None\<rparr>)))"

function peekLoop ::
  "qfaults \<Rightarrow> unmarshalFn \<Rightarrow> eventQueue \<Rightarrow> qdisk \<Rightarrow>
   (queueError + (queuedEvent \<times> eventQueueCursor) option) \<times> eventQueue \<times> qdisk" where
  "peekLoop f unmarshal q d =
     (if eq_pending q = 0 then (Inr None, q, d)
      else
        (case readEventAtLocked f unmarshal d (eq_offset q) of
           ReadOk ev n \<Rightarrow>
             (Inr (Some (ev, \<lparr>cu_offset = eq_offset q, cu_length = n, cu_seq = qe_Seq ev\<rparr>)), q, d)
         | ReadCorrupt n \<Rightarrow>
             (let q1 = q\<lparr>eq_offset := eq_offset q + n, eq_pending := eq_pending q - 1\<rparr>
              in if eq_pending q1 = 0 then
                   (case removeDrainedFilesLocked f q1 d of
                      (Inl e, q2, d2) \<Rightarrow> (Inl e, q2, d2)
                    | (Inr _, q2, d2) \<Rightarrow> (Inr None, q2, d2))
                 else
                   (case persistCursorLocked f q1 d of
                      (Some e, d2) \<Rightarrow> (Inl e, q1, d2)
                    | (None, d2) \<Rightarrow> peekLoop f unmarshal q1 d2))
         | r \<Rightarrow> (Inl (readError r), q, d)))"
  by pat_completeness auto
termination by (relation "measure (\<lambda>(f, u, q, d). eq_pending q)") auto

declare peekLoop.simps [simp del]

definition peek ::
  "qfaults \<Rightarrow> unmarshalFn \<Rightarrow> eventQueue \<Rightarrow> qdisk \<Rightarrow>
   (queueError + (queuedEvent \<times> eventQueueCursor) option) \<times> eventQueue \<times> qdisk" where
  "peek f unmarshal q d =
     (let (q1, d1) = retryLoadLocked f unmarshal q d in
      if eq_loadErr q1 then (Inl ErrQueueLoadFailed, q1, d1)
      else peekLoop f unmarshal q1 d1)"

text \<open>
  The disks a crash during compaction can leave, in order: untouched, the cursor reset before
  the rename, the compacted file beside it.
\<close>

definition compactCursorDisk :: "qdisk \<Rightarrow> qdisk" where
  "compactCursorDisk d = d\<lparr>dk_cursor := Some (itoa 0)\<rparr>"

definition compactedDisk :: "eventQueue \<Rightarrow> qdisk \<Rightarrow> qdisk" where
  "compactedDisk q d =
     (compactCursorDisk d)\<lparr>dk_file := map_option (drop (eq_offset q)) (dk_file d)\<rparr>"

definition compactLocked ::
  "qfaults \<Rightarrow> eventQueue \<Rightarrow> qdisk \<Rightarrow> queueError option \<times> eventQueue \<times> qdisk" where
  "compactLocked f q d =
     (if qf_compact f = CompactOpenFails \<or> dk_file d = None then (Some ErrQueueRead, q, d)
      else if qf_compact f = CompactCursorFails then (Some ErrCursorWrite, q, d)
      else
        (let d1 = compactCursorDisk d in
         if qf_compact f = CompactSyncFails \<or> qf_compact f = CompactTempFails
         then (Some ErrQueueRead, q, d1)
         else if qf_compact f = CompactRenameRestoreFails then (Some ErrCursorWrite, q, d1)
         else if qf_compact f = CompactRenameFails
         then (Some ErrQueueRead, q, d1\<lparr>dk_cursor := Some (itoa (int (eq_offset q)))\<rparr>)
         else
           (let d2 = compactedDisk q d;
                q2 = q\<lparr>eq_offset := 0, eq_size := eq_size q - eq_offset q\<rparr>
            in (if qf_compact f = CompactLastSyncFails then Some ErrQueueRead else None, q2, d2))))"

definition advance ::
  "qfaults \<Rightarrow> unmarshalFn \<Rightarrow> eventQueueCursor \<Rightarrow> eventQueue \<Rightarrow> qdisk \<Rightarrow>
   (queueError + bool) \<times> eventQueue \<times> qdisk" where
  "advance f unmarshal cursor q d =
     (if eq_loadErr q then (Inl ErrQueueLoadFailed, q, d)
      else if eq_pending q = 0 then (Inr False, q, d)
      else if cu_length cursor = 0 then (Inl ErrCursorLength, q, d)
      else if eq_offset q \<noteq> cu_offset cursor then (Inr False, q, d)
      else
        (case readEventAtLocked f unmarshal d (eq_offset q) of
           ReadOk ev n \<Rightarrow>
             (if qe_Seq ev \<noteq> cu_seq cursor \<or> n \<noteq> cu_length cursor then (Inr False, q, d)
              else
                (let q1 = q\<lparr>eq_offset := eq_offset q + cu_length cursor, eq_pending := eq_pending q - 1\<rparr>
                 in if eq_pending q1 = 0 then removeDrainedFilesLocked f q1 d
                    else
                      (let (_, q2, d2) = (if eq_offset q1 > watcherQueueCompactBytes
                                          then compactLocked f q1 d else (None, q1, d));
                           (e, d3) = persistCursorLocked f q2 d2
                       in (case e of None \<Rightarrow> Inr True | Some err \<Rightarrow> Inl err, q2, d3))))
         | r \<Rightarrow> (Inl (readError r), q, d)))"

subsection \<open>Observers and the parked status\<close>

definition pendingCount :: "qfaults \<Rightarrow> unmarshalFn \<Rightarrow> eventQueue \<Rightarrow> qdisk \<Rightarrow> nat \<times> eventQueue \<times> qdisk" where
  "pendingCount f unmarshal q d =
     (let (q1, d1) = retryLoadLocked f unmarshal q d in (eq_pending q1, q1, d1))"

definition pendingState ::
  "qfaults \<Rightarrow> unmarshalFn \<Rightarrow> eventQueue \<Rightarrow> qdisk \<Rightarrow> (nat \<times> bool) \<times> eventQueue \<times> qdisk" where
  "pendingState f unmarshal q d =
     (let (q1, d1) = retryLoadLocked f unmarshal q d in ((eq_pending q1, eq_loadErr q1), q1, d1))"

definition replayNeeded :: "qfaults \<Rightarrow> unmarshalFn \<Rightarrow> eventQueue \<Rightarrow> qdisk \<Rightarrow> bool \<times> eventQueue \<times> qdisk" where
  "replayNeeded f unmarshal q d =
     (let (q1, d1) = retryLoadLocked f unmarshal q d in (eq_pending q1 > 0 \<or> eq_loadErr q1, q1, d1))"

definition pendingCountFresh :: "qfaults \<Rightarrow> unmarshalFn \<Rightarrow> eventQueue \<Rightarrow> qdisk \<Rightarrow> nat \<times> eventQueue \<times> qdisk" where
  "pendingCountFresh f unmarshal q d =
     (let (q1, d1) = retryLoadNowLocked f unmarshal q d in (eq_pending q1, q1, d1))"

definition loadFailed :: "eventQueue \<Rightarrow> bool" where
  "loadFailed q \<longleftrightarrow> eq_loadErr q"

definition loadFailedFresh :: "qfaults \<Rightarrow> unmarshalFn \<Rightarrow> eventQueue \<Rightarrow> qdisk \<Rightarrow> bool \<times> eventQueue \<times> qdisk" where
  "loadFailedFresh f unmarshal q d =
     (let (q1, d1) = retryLoadNowLocked f unmarshal q d in (eq_loadErr q1, q1, d1))"

definition parkedStatusRecorded ::
  "qfaults \<Rightarrow> unmarshalFn \<Rightarrow> eventQueueCursor \<Rightarrow> eventQueue \<Rightarrow> qdisk \<Rightarrow> bool \<times> eventQueue \<times> qdisk" where
  "parkedStatusRecorded f unmarshal cursor q d =
     (let (q1, d1) = retryLoadLocked f unmarshal q d
      in (\<not> eq_loadErr q1 \<and> eq_offset q1 = cu_offset cursor \<and> eq_parkedStatusSeq q1 = cu_seq cursor, q1, d1))"

definition headParkedStatusRecorded ::
  "qfaults \<Rightarrow> unmarshalFn \<Rightarrow> eventQueue \<Rightarrow> qdisk \<Rightarrow> (queueError + bool) \<times> eventQueue \<times> qdisk" where
  "headParkedStatusRecorded f unmarshal q d =
     (let (q1, d1) = retryLoadNowLocked f unmarshal q d in
      if eq_loadErr q1 then (Inl ErrQueueLoadFailed, q1, d1)
      else if eq_pending q1 = 0 \<or> eq_parkedStatusSeq q1 = 0 then (Inr False, q1, d1)
      else
        (case readEventAtLocked f unmarshal d1 (eq_offset q1) of
           ReadOk ev n \<Rightarrow> (Inr (qe_Seq ev = eq_parkedStatusSeq q1), q1, d1)
         | r \<Rightarrow> (Inl (readError r), q1, d1)))"

definition retainLimitParked :: "qfaults \<Rightarrow> unmarshalFn \<Rightarrow> eventQueue \<Rightarrow> qdisk \<Rightarrow> bool \<times> eventQueue \<times> qdisk" where
  "retainLimitParked f unmarshal q d =
     (let (q1, d1) = retryLoadLocked f unmarshal q d
      in (\<not> eq_loadErr q1 \<and> limitProtectedLocked q1, q1, d1))"

definition markLimitParked ::
  "qfaults \<Rightarrow> unmarshalFn \<Rightarrow> eventQueue \<Rightarrow> qdisk \<Rightarrow> queueError option \<times> eventQueue \<times> qdisk" where
  "markLimitParked f unmarshal q d =
     (let (q1, d1) = retryLoadNowLocked f unmarshal q d in
      if eq_loadErr q1 then (Some ErrQueueLoadFailed, q1, d1)
      else if eq_limitParked q1 then (None, q1, d1)
      else persistLimitParkedLocked f (eq_parkedStatusSeq q1) q1 d1)"

definition recordParkedStatus ::
  "qfaults \<Rightarrow> unmarshalFn \<Rightarrow> eventQueueCursor \<Rightarrow> eventQueue \<Rightarrow> qdisk \<Rightarrow>
   (queueError + bool) \<times> eventQueue \<times> qdisk" where
  "recordParkedStatus f unmarshal cursor q d =
     (let (q1, d1) = retryLoadNowLocked f unmarshal q d in
      if eq_loadErr q1 then (Inl ErrQueueLoadFailed, q1, d1)
      else if eq_pending q1 = 0 \<or> eq_offset q1 \<noteq> cu_offset cursor then (Inr False, q1, d1)
      else
        (case readEventAtLocked f unmarshal d1 (eq_offset q1) of
           ReadOk ev n \<Rightarrow>
             (if qe_Seq ev \<noteq> cu_seq cursor \<or> n \<noteq> cu_length cursor then (Inr False, q1, d1)
              else if eq_limitParked q1 \<and> eq_parkedStatusSeq q1 = cu_seq cursor then (Inr True, q1, d1)
              else
                (case persistLimitParkedLocked f (cu_seq cursor) q1 d1 of
                   (Some e, q2, d2) \<Rightarrow> (Inl e, q2\<lparr>eq_parkedStatusSeq := cu_seq cursor\<rparr>, d2)
                 | (None, q2, d2) \<Rightarrow> (Inr True, q2, d2)))
         | r \<Rightarrow> (Inl (readError r), q1, d1)))"

definition retryLimitMarkerLocked ::
  "qfaults \<Rightarrow> eventQueue \<Rightarrow> qdisk \<Rightarrow> queueError option \<times> eventQueue \<times> qdisk" where
  "retryLimitMarkerLocked f q d =
     (if \<not> eq_limitParkedErr q then (None, q, d)
      else if \<not> qf_retryDue f then (Some ErrMarkerWrite, q, d)
      else persistLimitParkedLocked f (eq_parkedStatusSeq q) q d)"

definition limitBackpressureState ::
  "qfaults \<Rightarrow> unmarshalFn \<Rightarrow> eventQueue \<Rightarrow> qdisk \<Rightarrow> (bool \<times> bool) \<times> eventQueue \<times> qdisk" where
  "limitBackpressureState f unmarshal q d =
     (let (q1, d1) = retryLoadLocked f unmarshal q d in
      if eq_loadErr q1 then ((True, True), q1, d1)
      else
        (case (if eq_limitParkedErr q1
               then (if eq_pending q1 = 0 then (None, q1\<lparr>eq_limitParkedErr := False\<rparr>, d1)
                     else retryLimitMarkerLocked f q1 d1)
               else (None, q1, d1)) of
           (Some _, q2, d2) \<Rightarrow> ((True, True), q2, d2)
         | (None, q2, d2) \<Rightarrow>
             (if \<not> eq_limitParked q2 then ((False, False), q2, d2)
              else ((eq_pending q2 \<ge> watcherQueueMaxEvents \<or>
                     eq_size q2 - eq_offset q2 \<ge> watcherQueueMaxBytes, False), q2, d2))))"

end
