(* ===== verification/Queue_Lemmas.thy ===== *)
theory Queue_Lemmas
  imports Event_Queue
begin

text \<open>
  The lemmas of the event queue. The bytes of the file are cut into lines; \<open>aligned\<close> is a record
  boundary, \<open>pendingLines\<close> the undelivered lines, \<open>memInv\<close> and \<open>diskInv\<close> relate the in-memory record
  to the disk. Each operation is then described on \<open>pendingLines\<close>: what a load recovers
  (\<open>load_spec\<close>), what an append adds and the caps evict (\<open>appendEvent_spec\<close>, \<open>enqueue_spec\<close>), what
  a peek skips (\<open>peekLoop_spec\<close>) and what an advance consumes (\<open>advance_named\<close>,
  \<open>advance_unnamed\<close>).
\<close>

subsection \<open>Vocabulary\<close>

definition aligned :: "string \<Rightarrow> nat \<Rightarrow> bool" where
  "aligned s k \<longleftrightarrow> k \<le> length s \<and> (k = 0 \<or> s ! (k - 1) = nl)"

definition cursorVal :: "string option \<Rightarrow> nat" where
  "cursorVal c = (case c of None \<Rightarrow> 0
     | Some raw \<Rightarrow> (case Atoi (TrimSpace raw) of Some v \<Rightarrow> if v \<ge> 0 then nat v else 0 | None \<Rightarrow> 0))"

definition fileBytes :: "qdisk \<Rightarrow> string" where
  "fileBytes d = (case dk_file d of None \<Rightarrow> [] | Some s \<Rightarrow> s)"

definition pendingLines :: "eventQueue \<Rightarrow> qdisk \<Rightarrow> string list" where
  "pendingLines q d = fst (linesOf (drop (eq_offset q) (fileBytes d)))"

text \<open>The disk alone: a cursor beside a queue file stands on a record boundary.\<close>

definition diskInv :: "qdisk \<Rightarrow> bool" where
  "diskInv d \<longleftrightarrow> (dk_file d \<noteq> None \<longrightarrow> aligned (fileBytes d) (cursorVal (dk_cursor d)))"

text \<open>Memory and disk: exact size and count, record boundaries, and a cursor never ahead of memory.\<close>

definition memInv :: "eventQueue \<Rightarrow> qdisk \<Rightarrow> bool" where
  "memInv q d \<longleftrightarrow>
     eq_size q = length (fileBytes d) \<and> aligned (fileBytes d) (eq_offset q) \<and>
     aligned (fileBytes d) (length (fileBytes d)) \<and> eq_pending q = length (pendingLines q d) \<and>
     (dk_file d \<noteq> None \<longrightarrow> cursorVal (dk_cursor d) \<le> eq_offset q)"

definition queueInv :: "eventQueue \<times> qdisk \<Rightarrow> bool" where
  "queueInv qd \<longleftrightarrow> diskInv (snd qd) \<and> (\<not> eq_loadErr (fst qd) \<longrightarrow> memInv (fst qd) (snd qd))"

text \<open>
  The faults the consistency of a queue survives. Two are left out, and \<open>Queue_Props\<close> shows that each breaks it:
  a torn record that neither the truncate nor the boundary newline can repair (the code logs it and goes on
  with a size it can no longer confirm), and a cursor that a load cannot read (the queue then replays from its
  start, behind the cursor that is still on disk).
\<close>

definition okFaults :: "qfaults \<Rightarrow> bool" where
  "okFaults f \<longleftrightarrow> \<not> (qf_truncate f \<and> qf_boundary f) \<and> \<not> qf_cursorRead f"

definition nlFree :: "marshalFn \<Rightarrow> bool" where
  "nlFree marshal \<longleftrightarrow> (\<forall>e. nl \<notin> set (marshal e))"

subsection \<open>Lines\<close>

lemma linesOf_append:
  "snd (linesOf a) = [] \<Longrightarrow> linesOf (a @ b) = (fst (linesOf a) @ fst (linesOf b), snd (linesOf b))"
proof (induction a)
  case (Cons c a)
  then show ?case
    by (auto simp: Let_def split_beta split: list.splits if_splits)
qed simp

lemma linesOf_line: "nl \<notin> set w \<Longrightarrow> linesOf (w @ [nl]) = ([w @ [nl]], [])"
  by (induction w) auto

lemma concat_linesOf: "concat (fst (linesOf s)) @ snd (linesOf s) = s"
  by (induction s) (auto simp: Let_def split_beta split: list.splits)

lemma linesOf_lines: "l \<in> set (fst (linesOf s)) \<Longrightarrow> \<exists>w. l = w @ [nl] \<and> nl \<notin> set w"
proof (induction s arbitrary: l)
  case (Cons c s)
  then show ?case
    by (auto simp: Let_def split_beta split: list.splits if_splits) (metis append_Cons set_ConsD)+
qed simp

lemma linesOf_tail: "nl \<notin> set (snd (linesOf s))"
  by (induction s) (auto simp: Let_def split_beta split: list.splits)

lemma linesOf_notail_iff: "snd (linesOf s) = [] \<longleftrightarrow> s = [] \<or> last s = nl"
proof
  assume "snd (linesOf s) = []"
  then have s: "s = concat (fst (linesOf s))" using concat_linesOf [of s] by simp
  show "s = [] \<or> last s = nl"
  proof (cases "fst (linesOf s)" rule: rev_cases)
    case (snoc ls l)
    then obtain w where "l = w @ [nl]" using linesOf_lines [of l s] by auto
    then have "s = concat ls @ w @ [nl]" using s snoc by (metis append.right_neutral concat.simps concat_append)
    then show ?thesis by simp
  qed (use s in simp)
next
  assume "s = [] \<or> last s = nl"
  then show "snd (linesOf s) = []"
  proof
    assume l: "last s = nl"
    show ?thesis
    proof (rule ccontr)
      assume n: "snd (linesOf s) \<noteq> []"
      then have "last s = last (snd (linesOf s))" using concat_linesOf [of s] by (metis last_append)
      then show False using l n linesOf_tail [of s] last_in_set [OF n] by simp
    qed
  qed simp
qed

lemma aligned_take_iff: "k \<le> length s \<Longrightarrow> aligned s k \<longleftrightarrow> snd (linesOf (take k s)) = []"
proof (cases "k = 0")
  case False
  moreover assume "k \<le> length s"
  ultimately have n: "take k s \<noteq> []" by auto
  have "last (take k s) = s ! (k - 1)"
    using False \<open>k \<le> length s\<close> by (simp add: last_conv_nth [OF n])
  with n False \<open>k \<le> length s\<close> show ?thesis by (simp add: aligned_def linesOf_notail_iff)
qed (simp add: aligned_def)

lemma aligned_le: "aligned s k \<Longrightarrow> k \<le> length s"
  by (simp add: aligned_def)

lemma aligned_zero [simp]: "aligned s 0"
  by (simp add: aligned_def)

lemma aligned_length: "aligned s (length s) \<longleftrightarrow> snd (linesOf s) = []"
  using aligned_take_iff [of "length s" s] by simp

lemma aligned_take: "aligned s k \<Longrightarrow> snd (linesOf (take k s)) = []"
  using aligned_take_iff [OF aligned_le] by blast

lemma linesOf_split:
  assumes "aligned s k"
  shows "linesOf s = (fst (linesOf (take k s)) @ fst (linesOf (drop k s)), snd (linesOf (drop k s)))"
  using linesOf_append [OF aligned_take [OF assms], of "drop k s"] by simp

lemma aligned_drop:
  assumes "aligned s j" "j \<le> k" "k \<le> length s"
  shows "aligned (drop j s) (k - j) \<longleftrightarrow> aligned s k"
proof (cases "k = j")
  case False
  then have "drop j s ! (k - j - 1) = s ! (k - 1)" using assms by (subst nth_drop) auto
  then show ?thesis using assms False by (auto simp: aligned_def)
qed (use assms in simp)

lemma linesOf_drop_tail:
  "aligned s k \<Longrightarrow> aligned s (length s) \<Longrightarrow> snd (linesOf (drop k s)) = []"
  using linesOf_split [of s k] by (simp add: aligned_length)

lemma aligned_append: "aligned s k \<Longrightarrow> aligned (s @ t) k"
  by (auto simp: aligned_def nth_append)

text \<open>The lines behind an earlier record boundary end with the lines behind a later one.\<close>

lemma linesOf_suffix:
  assumes "aligned s j" "aligned s k" "j \<le> k"
  shows "\<exists>pre. fst (linesOf (drop j s)) = pre @ fst (linesOf (drop k s))"
proof -
  have "aligned (drop j s) (k - j)" using assms by (subst aligned_drop) (auto simp: aligned_def)
  from linesOf_split [OF this] assms(3) show ?thesis by auto
qed

text \<open>Reading one line moves to the next boundary.\<close>

lemma aligned_next:
  assumes "aligned s k" and "fst (linesOf (drop k s)) = l # ls"
  shows "aligned s (k + length l)" "linesOf (drop (k + length l) s) = (ls, snd (linesOf (drop k s)))"
proof -
  obtain w where l: "l = w @ [nl]" "nl \<notin> set w"
    using linesOf_lines [of l "drop k s"] assms(2) by auto
  have c: "drop k s = l @ concat ls @ snd (linesOf (drop k s))"
    using concat_linesOf [of "drop k s"] assms(2) by simp
  have len: "k + length l \<le> length s"
    using arg_cong [OF c, of length] assms(1) by (auto simp: aligned_def l)
  have d: "drop (k + length l) s = concat ls @ snd (linesOf (drop k s))"
    using arg_cong [OF c, of "drop (length l)"] by (simp add: add.commute)
  have "s ! (k + length w) = nl"
    using arg_cong [OF c, of "\<lambda>x. x ! length w"] len l by (simp add: nth_append)
  then show "aligned s (k + length l)" using len by (auto simp: aligned_def l)
  have "linesOf (drop k s) = (l # fst (linesOf (drop (k + length l) s)), snd (linesOf (drop (k + length l) s)))"
    using linesOf_append [of l "drop (k + length l) s"] c d linesOf_line [OF l(2)] l(1) by simp
  then show "linesOf (drop (k + length l) s) = (ls, snd (linesOf (drop k s)))"
    using assms(2) by (metis fst_conv list.inject prod.collapse snd_conv)
qed


lemma linesOf_tail_drop: "aligned s k \<Longrightarrow> snd (linesOf (drop k s)) = snd (linesOf s)"
  using linesOf_split [of s k] by simp

lemma aligned_scanned:
  assumes "aligned s k" shows "k \<le> length s - length (snd (linesOf s))"
proof -
  have "length (snd (linesOf (drop k s))) \<le> length s - k"
    using arg_cong [OF concat_linesOf [of "drop k s"], of length] by simp
  then show ?thesis using assms aligned_le [of s k] by (simp add: linesOf_tail_drop)
qed

lemma aligned_take_smaller: "aligned s k \<Longrightarrow> k \<le> m \<Longrightarrow> aligned (take m s) k"
  by (cases "k = 0") (auto simp: aligned_def)

lemma take_scanned: "take (length s - length (snd (linesOf s))) s = concat (fst (linesOf s))"
proof -
  have "s = concat (fst (linesOf s)) @ snd (linesOf s)" by (simp add: concat_linesOf)
  then show ?thesis by (metis append_eq_conv_conj diff_add_inverse2 length_append)
qed

subsection \<open>The cursor file\<close>

lemma cursorVal_itoa: "n < 2 ^ 63 \<Longrightarrow> cursorVal (Some (itoa (int n))) = n"
  by (simp add: cursorVal_def itoa_def TrimSpace_digits Atoi_digits)

lemma cursorVal_itoa_cases: "cursorVal (Some (itoa (int n))) \<in> {0, n}"
  by (cases "n < 2 ^ 63")
    (auto simp: cursorVal_def itoa_def TrimSpace_digits Atoi_digits Atoi_digits_range)

lemma cursorVal_none [simp]: "cursorVal None = 0"
  by (simp add: cursorVal_def)

lemma cursorVal_0 [simp]: "cursorVal (Some ''0'') = 0"
  by code_simp

text \<open>What the operations on the marker leave alone.\<close>

definition sameQueue :: "eventQueue \<times> qdisk \<Rightarrow> eventQueue \<times> qdisk \<Rightarrow> bool" where
  "sameQueue a b \<longleftrightarrow>
     eq_offset (fst a) = eq_offset (fst b) \<and> eq_size (fst a) = eq_size (fst b) \<and>
     eq_pending (fst a) = eq_pending (fst b) \<and> eq_seq (fst a) = eq_seq (fst b) \<and>
     eq_loadErr (fst a) = eq_loadErr (fst b) \<and> eq_dropped (fst a) = eq_dropped (fst b) \<and>
     dk_file (snd a) = dk_file (snd b) \<and> dk_cursor (snd a) = dk_cursor (snd b)"

lemma sameQueue_refl [simp]: "sameQueue a a"
  by (simp add: sameQueue_def)

lemma sameQueue_trans: "sameQueue a b \<Longrightarrow> sameQueue b c \<Longrightarrow> sameQueue a c"
  by (simp add: sameQueue_def)

lemma sameQueue_lines: "sameQueue (q, d) (q', d') \<Longrightarrow> pendingLines q' d' = pendingLines q d"
  by (simp add: sameQueue_def pendingLines_def fileBytes_def)

lemma sameQueue_memInv: "sameQueue (q, d) (q', d') \<Longrightarrow> memInv q' d' = memInv q d"
  by (frule sameQueue_lines) (simp add: sameQueue_def memInv_def fileBytes_def)

lemma sameQueue_diskInv: "sameQueue (q, d) (q', d') \<Longrightarrow> diskInv d' = diskInv d"
  by (simp add: sameQueue_def diskInv_def fileBytes_def)

lemma same_clearLimitParked: "sameQueue (q, d) (snd (clearLimitParkedLocked f q d))"
  by (simp add: clearLimitParkedLocked_def sameQueue_def)

lemma same_persistLimitParked: "sameQueue (q, d) (snd (persistLimitParkedLocked f n q d))"
  by (simp add: persistLimitParkedLocked_def sameQueue_def)

lemma same_loadLimitParked: "sameQueue (q, d) (snd (loadLimitParkedLocked f q d))"
  by (auto simp: loadLimitParkedLocked_def clearLimitParkedLocked_def sameQueue_def Let_def split: option.splits)

lemma same_clearStaleProtection: "sameQueue (q, d) (snd (clearStaleProtectionLocked f q d))"
  by (auto simp: clearStaleProtectionLocked_def clearLimitParkedLocked_def sameQueue_def)

lemma same_protectParked: "sameQueue (q, d) (snd (snd (protectParkedEnqueueLocked f n q d)))"
  by (auto simp: protectParkedEnqueueLocked_def persistLimitParkedLocked_def sameQueue_def)

lemma same_undoMarker: "sameQueue (q, d) (undoMarker f u q d)"
  using same_clearLimitParked [of q d f]
  by (cases u) (auto simp: undoMarker_def sameQueue_def)

lemma same_retryLimitMarker: "sameQueue (q, d) (snd (retryLimitMarkerLocked f q d))"
  by (auto simp: retryLimitMarkerLocked_def persistLimitParkedLocked_def sameQueue_def)

lemmas same_marker = same_clearLimitParked same_persistLimitParked same_loadLimitParked
  same_clearStaleProtection same_protectParked same_undoMarker same_retryLimitMarker

subsection \<open>Loading\<close>

lemma cursorOffset_ok:
  assumes "aligned s (cursorVal c)" "\<not> qf_cursorRead f"
  shows "cursorOffset f c (length s) = cursorVal c"
  using aligned_le [OF assms(1)] assms(2)
  by (auto simp: cursorOffset_def cursorVal_def split: option.splits if_splits)

lemma boundary_aligned: "aligned s k \<Longrightarrow> offsetIsRecordBoundaryLocked s k"
  by (auto simp: offsetIsRecordBoundaryLocked_def aligned_def)

lemma linesOf_concat: "linesOf (concat (fst (linesOf s))) = (fst (linesOf s), [])"
proof -
  have "\<forall>l\<in>set ls. \<exists>w. l = w @ [nl] \<and> nl \<notin> set w \<Longrightarrow> linesOf (concat ls) = (ls, [])" for ls
  proof (induction ls)
    case (Cons l ls)
    then obtain w where w: "l = w @ [nl]" "nl \<notin> set w" by auto
    show ?case using linesOf_append [of l "concat ls"] linesOf_line [OF w(2)] Cons by (simp add: w(1))
  qed simp
  then show ?thesis using linesOf_lines by blast
qed

lemma linesOf_append_nl:
  "linesOf (s @ [nl]) = (fst (linesOf s) @ [snd (linesOf s) @ [nl]], [])"
proof -
  have "snd (linesOf (concat (fst (linesOf s)))) = []" by (simp add: linesOf_concat)
  from linesOf_append [OF this, of "snd (linesOf s) @ [nl]"]
  show ?thesis by (simp add: linesOf_concat linesOf_line linesOf_tail flip: append_assoc)
     (simp add: concat_linesOf)
qed

text \<open>
  A load that reads the disk recovers every complete line behind the cursor; at most the torn
  bytes are added as a line of their own.
\<close>

definition tornLine :: "qfaults \<Rightarrow> string \<Rightarrow> string list" where
  "tornLine f s = (if snd (linesOf s) \<noteq> [] \<and> qf_truncate f then [snd (linesOf s) @ [nl]] else [])"

lemma scan_spec:
  assumes ok: "okFaults f" and inv: "diskInv d" and rd: "\<not> qf_unreadable f"
    and q0: "eq_offset q = 0" "eq_size q = 0" "eq_pending q = 0"
    and scan: "scanDiskStateLocked f u q d = (e, q', d')"
  shows "e = None \<and> memInv q' d' \<and> diskInv d' \<and> dk_cursor d' = dk_cursor d \<and>
         (dk_file d = None \<longleftrightarrow> dk_file d' = None) \<and>
         (dk_file d \<noteq> None \<longrightarrow> eq_offset q' = cursorVal (dk_cursor d)) \<and>
         eq_loadErr q' = eq_loadErr q \<and>
         (dk_file d \<noteq> None \<longrightarrow> pendingLines q' d' =
            fst (linesOf (drop (cursorVal (dk_cursor d)) (fileBytes d))) @ tornLine f (fileBytes d))"
proof (cases "dk_file d")
  case None
  then show ?thesis using assms
    by (auto simp: scanDiskStateLocked_def memInv_def fileBytes_def pendingLines_def diskInv_def)
next
  case (Some s)
  define c where "c = cursorVal (dk_cursor d)"
  have al: "aligned s c" using inv Some by (simp add: diskInv_def fileBytes_def c_def)
  have cr: "\<not> qf_cursorRead f" using ok by (simp add: okFaults_def)
  have off: "cursorOffset f (dk_cursor d) (length s) = c"
    using cursorOffset_ok [OF al [unfolded c_def] cr] by (simp add: c_def)
  have tl: "snd (linesOf (drop c s)) = snd (linesOf s)" by (rule linesOf_tail_drop [OF al])
  have sc: "c \<le> length s - length (snd (linesOf s))" by (rule aligned_scanned [OF al])
  note base = scan [unfolded scanDiskStateLocked_def, simplified rd Some off if_True if_False option.case
      Let_def boundary_aligned [OF al] split_beta tl]
  show ?thesis
  proof (cases "snd (linesOf s) = []")
    case True
    then have "aligned s (length s)" by (simp add: aligned_length)
    then show ?thesis using base True Some al
      by (auto simp: memInv_def fileBytes_def pendingLines_def diskInv_def tornLine_def c_def)
  next
    case torn: False
    show ?thesis
    proof (cases "qf_truncate f")
      case True
      then have nb: "\<not> qf_boundary f" using ok by (simp add: okFaults_def)
      have dr: "drop c (s @ [nl]) = drop c s @ [nl]" using aligned_le [OF al] by simp
      have l: "linesOf (drop c s @ [nl]) = (fst (linesOf (drop c s)) @ [snd (linesOf s) @ [nl]], [])"
        using linesOf_append_nl [of "drop c s"] torn tl by simp
      have "aligned (s @ [nl]) (length (s @ [nl]))" by (simp add: aligned_def)
      then show ?thesis using base True nb torn Some al aligned_append [OF al, of "[nl]"] dr l
        by (auto simp: recoverTornRecordLocked_def memInv_def fileBytes_def pendingLines_def diskInv_def
            tornLine_def c_def)
    next
      case False
      let ?k = "length s - length (snd (linesOf s))"
      have tk: "take ?k s = concat (fst (linesOf s))" by (rule take_scanned)
      have a1: "aligned (take ?k s) c" by (rule aligned_take_smaller [OF al sc])
      have a2: "aligned (take ?k s) (length (take ?k s))"
        unfolding aligned_length tk by (simp add: linesOf_concat)
      have "linesOf (take ?k s) = (fst (linesOf s), [])" by (simp add: tk linesOf_concat)
      then have l: "fst (linesOf (drop c (take ?k s))) = fst (linesOf (drop c s))"
        using linesOf_split [OF al] linesOf_split [OF a1] sc by (simp add: min_def)
      show ?thesis using base False torn Some al a1 a2 l
        by (auto simp: memInv_def fileBytes_def pendingLines_def diskInv_def tornLine_def c_def)
    qed
  qed
qed

text \<open>What a load does to the queue: it stays on a record boundary, and reading is recovering.\<close>

lemma same_pairE:
  assumes "sameQueue (q, d) r" "r = (q', d')"
  shows "memInv q' d' = memInv q d" "diskInv d' = diskInv d" "pendingLines q' d' = pendingLines q d"
    "eq_loadErr q' = eq_loadErr q" "eq_offset q' = eq_offset q" "dk_file d' = dk_file d"
    "dk_cursor d' = dk_cursor d" "eq_pending q' = eq_pending q" "eq_size q' = eq_size q"
    "eq_seq q' = eq_seq q"
  using assms sameQueue_memInv [of q d q' d'] sameQueue_diskInv [of q d q' d'] sameQueue_lines [of q d q' d']
  by (auto simp: sameQueue_def)

abbreviation zeroed :: "eventQueue \<Rightarrow> eventQueue" where
  "zeroed q \<equiv> q\<lparr>eq_offset := 0, eq_size := 0, eq_pending := 0, eq_loadErr := False\<rparr>"

lemma load_unreadable:
  "qf_unreadable f \<Longrightarrow> loadLocked f u q d = (q\<lparr>eq_offset := 0, eq_size := 0, eq_pending := 0, eq_loadErr := True\<rparr>, d)"
  by (simp add: loadLocked_def scanDiskStateLocked_def)

lemma load_spec:
  assumes ok: "okFaults f" and inv: "diskInv d" and l: "loadLocked f u q d = (q', d')"
  shows "diskInv d' \<and> (\<not> eq_loadErr q' \<longrightarrow> memInv q' d' \<and>
     (dk_file d \<noteq> None \<longrightarrow> pendingLines q' d' =
            fst (linesOf (drop (cursorVal (dk_cursor d)) (fileBytes d))) @ tornLine f (fileBytes d)) \<and>
     (dk_file d = None \<longrightarrow> dk_file d' = None))"
proof (cases "qf_unreadable f")
    case True
    then show ?thesis using l inv by (auto simp: load_unreadable)
  next
    case False
    obtain e1 q1 d1 where sc: "scanDiskStateLocked f u (zeroed q) d = (e1, q1, d1)"
      using prod_cases3 by blast
    from scan_spec [OF ok inv False _ _ _ sc]
    have s: "e1 = None" "memInv q1 d1" "diskInv d1" "\<not> eq_loadErr q1" "dk_file d = None \<longleftrightarrow> dk_file d1 = None"
      "dk_file d \<noteq> None \<longrightarrow> pendingLines q1 d1 =
            fst (linesOf (drop (cursorVal (dk_cursor d)) (fileBytes d))) @ tornLine f (fileBytes d)"
      by auto
    obtain e2 q2 d2 where ld: "loadLimitParkedLocked f q1 d1 = (e2, q2, d2)"
      using prod_cases3 by blast
    have "sameQueue (q1, d1) (q2, d2)" using same_loadLimitParked [of q1 d1 f] ld by simp
    note sm = same_pairE [OF this refl]
    have r: "(q', d') = (if e2 \<noteq> None
         then (q2\<lparr>eq_offset := 0, eq_size := 0, eq_pending := 0, eq_loadErr := True\<rparr>, d2) else (q2, d2))"
      using l sc ld s(1) by (simp add: loadLocked_def)
    show ?thesis using r s sm by (auto split: if_splits)
qed

lemma load_inv: "okFaults f \<Longrightarrow> diskInv d \<Longrightarrow> queueInv (loadLocked f u q d)"
  using load_spec [of f d u q "fst (loadLocked f u q d)" "snd (loadLocked f u q d)"]
  by (simp add: queueInv_def)

lemma retryNow_inv: "okFaults f \<Longrightarrow> queueInv (q, d) \<Longrightarrow> queueInv (retryLoadNowLocked f u q d)"
  using load_inv [of f d u q] by (auto simp: retryLoadNowLocked_def queueInv_def)

lemma retry_inv: "okFaults f \<Longrightarrow> queueInv (q, d) \<Longrightarrow> queueInv (retryLoadLocked f u q d)"
  using retryNow_inv [of f q d u] by (auto simp: retryLoadLocked_def)

lemma retry_loaded [simp]:
  "\<not> eq_loadErr q \<Longrightarrow> retryLoadNowLocked f u q d = (q, d)"
  "\<not> eq_loadErr q \<Longrightarrow> retryLoadLocked f u q d = (q, d)"
  by (simp_all add: retryLoadNowLocked_def retryLoadLocked_def)

subsection \<open>Moving the cursor\<close>

lemma fileBytes_cursor [simp]: "fileBytes (d\<lparr>dk_cursor := c\<rparr>) = fileBytes d"
  by (simp add: fileBytes_def)

lemma pendingLines_cursor [simp]: "pendingLines q (d\<lparr>dk_cursor := c\<rparr>) = pendingLines q d"
  by (simp add: pendingLines_def)

lemma persist_cases:
  assumes "persistCursorLocked f q d = (e, d')"
  shows "d' = d \<or> d' = d\<lparr>dk_cursor := Some (itoa (int (eq_offset q)))\<rparr>"
  using assms by (auto simp: persistCursorLocked_def persistCursorValueLocked_def split: if_splits)

lemma persist_inv:
  assumes "memInv q d" "diskInv d" "persistCursorLocked f q d = (e, d')"
  shows "memInv q d' \<and> diskInv d' \<and> pendingLines q d' = pendingLines q d \<and> dk_file d' = dk_file d"
  using persist_cases [OF assms(3)] assms(1,2) cursorVal_itoa_cases [of "eq_offset q"]
  by (auto simp: memInv_def diskInv_def)

text \<open>Consuming the head line moves the queue to the rest of the lines.\<close>

abbreviation consume :: "nat \<Rightarrow> eventQueue \<Rightarrow> eventQueue" where
  "consume n q \<equiv> q\<lparr>eq_offset := eq_offset q + n, eq_pending := eq_pending q - 1\<rparr>"

lemma consume_inv:
  assumes "memInv q d" "pendingLines q d = l # ls"
  shows "memInv (consume (length l) q) d" "pendingLines (consume (length l) q) d = ls"
proof -
  have al: "aligned (fileBytes d) (eq_offset q)" using assms(1) by (simp add: memInv_def)
  have ls: "fst (linesOf (drop (eq_offset q) (fileBytes d))) = l # ls"
    using assms(2) by (simp add: pendingLines_def)
  note nx = aligned_next [OF al ls]
  show p: "pendingLines (consume (length l) q) d = ls" using nx(2) by (simp add: pendingLines_def)
  show "memInv (consume (length l) q) d" using assms p nx(1) by (auto simp: memInv_def)
qed

text \<open>What a read answers, in terms of the pending lines.\<close>

lemma read_spec:
  assumes "memInv q d"
  shows "readEventAtLocked f u d (eq_offset q) = ReadOk ev n \<longleftrightarrow>
      \<not> qf_read f \<and> (\<exists>l ls. pendingLines q d = l # ls \<and> u l = Some ev \<and> n = length l)"
    "readEventAtLocked f u d (eq_offset q) = ReadCorrupt n \<longleftrightarrow>
      \<not> qf_read f \<and> (\<exists>l ls. pendingLines q d = l # ls \<and> u l = None \<and> n = length l)"
  using assms
  by (auto simp: readEventAtLocked_def pendingLines_def fileBytes_def memInv_def split: option.splits list.splits)

subsection \<open>Draining the files\<close>

lemma pendingLines_empty:
  assumes "memInv q d" "eq_pending q = 0"
  shows "eq_offset q = length (fileBytes d)"
proof -
  have al: "aligned (fileBytes d) (eq_offset q)" "aligned (fileBytes d) (length (fileBytes d))"
    and l: "fst (linesOf (drop (eq_offset q) (fileBytes d))) = []"
    using assms by (auto simp: memInv_def pendingLines_def)
  have "drop (eq_offset q) (fileBytes d) = []"
    using concat_linesOf [of "drop (eq_offset q) (fileBytes d)"] l linesOf_drop_tail [OF al] by simp
  then show ?thesis using aligned_le [OF al(1)] by simp
qed

lemma removeDrained_inv:
  assumes inv: "memInv q d" "diskInv d" "eq_pending q = 0" "\<not> eq_loadErr q"
    and r: "removeDrainedFilesLocked f q d = (res, q', d')"
  shows "memInv q' d' \<and> diskInv d' \<and> \<not> eq_loadErr q' \<and> pendingLines q' d' = [] \<and>
         (case res of Inl e \<Rightarrow> True | Inr b \<Rightarrow> b)"
proof -
  have p: "pendingLines q d = []" using inv by (simp add: memInv_def)
  let ?q = "q\<lparr>eq_offset := 0, eq_size := 0\<rparr>"
  let ?d = "d\<lparr>dk_file := None, dk_cursor := dk_cursor d'\<rparr>"
  consider (kept) e where "res = Inl e" "q' = q" "d' = d"
    | (gone) "sameQueue (?q, ?d) (q', d')"
        "case res of Inl e \<Rightarrow> True | Inr b \<Rightarrow> b"
    using r
    by (auto simp: removeDrainedFilesLocked_def clearLimitParkedLocked_def Let_def sameQueue_def
        split: if_splits)
  then show ?thesis
  proof cases
    case kept
    then show ?thesis using inv p by simp
  next
    case gone
    have "memInv ?q ?d" "diskInv ?d" "pendingLines ?q ?d = []"
      using inv(3) by (simp_all add: memInv_def fileBytes_def pendingLines_def diskInv_def)
    then show ?thesis using same_pairE [OF gone(1) refl] inv(4) gone(2) by simp
  qed
qed

subsection \<open>Enforcing the caps\<close>

abbreviation overCaps :: "nat \<Rightarrow> nat \<Rightarrow> bool" where
  "overCaps pending bytes \<equiv> pending > watcherQueueMaxEvents \<or> bytes > watcherQueueMaxBytes"

text \<open>The drop loop walks along the lines and always leaves the newest.\<close>

lemma dropLoop_spec:
  assumes "aligned s off" "dk_file d = Some s" "pending = length (fst (linesOf (drop off s)))"
    and "dropLoop f u d sz off pending dropped = (e, off', pending', dropped')"
  shows "\<exists>k. off \<le> off' \<and> aligned s off' \<and> dropped' = dropped + k \<and> pending' = pending - k \<and>
     fst (linesOf (drop off' s)) = drop k (fst (linesOf (drop off s))) \<and> (0 < pending \<longrightarrow> k < pending) \<and>
     (e = None \<longrightarrow> \<not> overCaps pending' (sz - off') \<or> pending' \<le> 1) \<and>
     (k > 0 \<longrightarrow> overCaps pending (sz - off)) \<and>
     (e \<noteq> None \<longrightarrow> qf_read f \<or> (\<exists>l\<in>set (fst (linesOf (drop off s))). u l = None))"
  using assms
proof (induction f u d sz off pending dropped arbitrary: e off' pending' dropped' rule: dropLoop.induct)
  case (1 f u d sz off pending dropped)
  let ?ls = "fst (linesOf (drop off s))"
  show ?case
  proof (cases "\<not> overCaps pending (sz - off) \<or> pending \<le> 1")
    case True
    then have "dropLoop f u d sz off pending dropped = (None, off, pending, dropped)"
      by (subst dropLoop.simps) simp
    then show ?thesis using 1 True by (intro exI [of _ 0]) auto
  next
    case go: False
    then obtain l ls where l: "?ls = l # ls" using 1 by (cases ?ls) auto
    note nx = aligned_next [OF 1(2) l]
    show ?thesis
    proof (cases "qf_read f \<or> u l = None")
      case True
      then have "dropLoop f u d sz off pending dropped =
          (Some (readError (readEventAtLocked f u d off)), off, pending, dropped)"
        using go 1(3) l by (subst dropLoop.simps) (auto simp: readEventAtLocked_def)
      then show ?thesis using 1 go l True by (intro exI [of _ 0]) auto
    next
      case False
      then obtain ev where ev: "readEventAtLocked f u d off = ReadOk ev (length l)"
        using 1(3) l by (auto simp: readEventAtLocked_def)
      then have "dropLoop f u d sz off pending dropped = dropLoop f u d sz (off + length l) (pending - 1) (Suc dropped)"
        using go by (subst dropLoop.simps) simp
      then have dl: "dropLoop f u d sz (off + length l) (pending - 1) (Suc dropped) = (e, off', pending', dropped')"
        using 1(5) by simp
      have fe: "fst (linesOf (drop (off + length l) s)) = ls" using nx(2) by simp
      have pe: "pending - 1 = length (fst (linesOf (drop (off + length l) s)))"
        using fe l 1(4) by simp
      from "1.IH" [OF go ev nx(1) 1(3) pe dl, unfolded fe] show ?thesis
      proof (elim exE conjE)
        fix k
        assume "off + length l \<le> off'" "aligned s off'" "dropped' = Suc dropped + k"
          "pending' = pending - 1 - k" "fst (linesOf (drop off' s)) = drop k ls"
          "0 < pending - 1 \<longrightarrow> k < pending - 1"
          "e = None \<longrightarrow> \<not> overCaps pending' (sz - off') \<or> pending' \<le> 1"
          "e \<noteq> None \<longrightarrow> qf_read f \<or> (\<exists>l\<in>set ls. u l = None)"
        then show ?thesis using go l by (intro exI [of _ "Suc k"]) auto
      qed
    qed
  qed
qed

lemma enforceCaps_spec:
  assumes inv: "memInv q d" "diskInv d" "0 < eq_pending q"
    and r: "enforceCapsLocked f u q d = (e, q', d')"
  shows "\<exists>k. memInv q' d' \<and> diskInv d' \<and> eq_loadErr q' = eq_loadErr q \<and> eq_seq q' = eq_seq q \<and>
     pendingLines q' d' = drop k (pendingLines q d) \<and> k < eq_pending q \<and>
     (limitProtectedLocked q \<longrightarrow> k = 0) \<and> (k > 0 \<longrightarrow> overCaps (eq_pending q) (eq_size q - eq_offset q)) \<and>
     (\<not> limitProtectedLocked q \<and> \<not> qf_read f \<and> (\<forall>l\<in>set (pendingLines q d). u l \<noteq> None) \<longrightarrow>
        \<not> overCaps (eq_pending q') (eq_size q' - eq_offset q') \<or> eq_pending q' \<le> 1)"
proof (cases "limitProtectedLocked q")
  case True
  then show ?thesis using assms by (intro exI [of _ 0]) (simp add: enforceCapsLocked_def)
next
  case False
  obtain s where s: "dk_file d = Some s" "fileBytes d = s"
    using inv by (cases "dk_file d") (auto simp: memInv_def fileBytes_def pendingLines_def)
  obtain e1 off' pend' dr where dl: "dropLoop f u d (eq_size q) (eq_offset q) (eq_pending q) 0 = (e1, off', pend', dr)"
    using prod_cases4 by blast
  have pl: "pendingLines q d = fst (linesOf (drop (eq_offset q) s))" by (simp add: pendingLines_def s)
  obtain k where k: "eq_offset q \<le> off'" "aligned s off'" "dr = k" "pend' = eq_pending q - k"
     "fst (linesOf (drop off' s)) = drop k (pendingLines q d)" "0 < eq_pending q \<longrightarrow> k < eq_pending q"
     "e1 = None \<longrightarrow> \<not> overCaps pend' (eq_size q - off') \<or> pend' \<le> 1"
     "k > 0 \<longrightarrow> overCaps (eq_pending q) (eq_size q - eq_offset q)"
     "e1 \<noteq> None \<longrightarrow> qf_read f \<or> (\<exists>l\<in>set (pendingLines q d). u l = None)"
    using dropLoop_spec [OF _ s(1) _ dl] inv(1) s pl by (auto simp: memInv_def)
  define q1 where "q1 = q\<lparr>eq_offset := off', eq_pending := pend'\<rparr>"
  define q2 where "q2 = q1\<lparr>eq_dropped := eq_dropped q1 + dr\<rparr>"
  have m1: "memInv q1 d" "pendingLines q1 d = drop k (pendingLines q d)"
    using inv(1) k s by (auto simp: memInv_def q1_def pendingLines_def)
  then have m2: "memInv q2 d" "pendingLines q2 d = drop k (pendingLines q d)"
    by (simp_all add: memInv_def q2_def pendingLines_def)
  have r': "dropOldestOverCapsLocked f u q d = (e, q', d')" using r False by (simp add: enforceCapsLocked_def)
  consider "e1 \<noteq> None \<or> dr = 0" "q' = q1" "d' = d" "e = e1"
    | "e1 = None" "q' = q2" "persistCursorLocked f q2 d = (e, d')"
    using r' dl by (cases "persistCursorLocked f q2 d")
      (auto simp: dropOldestOverCapsLocked_def q1_def q2_def Let_def split: if_splits)
  then show ?thesis
  proof cases
    case 1
    then show ?thesis using m1 inv k False by (intro exI [of _ k]) (auto simp: q1_def memInv_def)
  next
    case 2
    from persist_inv [OF m2(1) inv(2) 2(3)] show ?thesis
      using 2 m2 k inv False by (intro exI [of _ k]) (auto simp: q2_def q1_def memInv_def)
  qed
qed

subsection \<open>Appending\<close>

lemma resetCursor_spec:
  assumes "memInv q d" "diskInv d" "resetCursorBeforeFreshAppendLocked f q d = (e, d')"
  shows "memInv q d' \<and> diskInv d' \<and> pendingLines q d' = pendingLines q d \<and> dk_file d' = dk_file d \<and>
         (e = None \<longrightarrow> dk_file d' = None \<longrightarrow> cursorVal (dk_cursor d') = 0)"
proof (cases "eq_pending q \<noteq> 0 \<or> eq_offset q \<noteq> 0 \<or> eq_size q \<noteq> 0")
  case True
  moreover have "dk_file d \<noteq> None"
    using True assms(1) by (cases "dk_file d") (auto simp: memInv_def fileBytes_def pendingLines_def aligned_def)
  ultimately show ?thesis using assms by (auto simp: resetCursorBeforeFreshAppendLocked_def)
next
  case False
  then consider "d' = d" "e \<noteq> None" | "d' = d\<lparr>dk_cursor := Some ''0''\<rparr>" | "d' = d\<lparr>dk_cursor := None\<rparr>"
    using assms(3) by (auto simp: resetCursorBeforeFreshAppendLocked_def split: if_splits)
  then show ?thesis using assms(1,2) False by cases (auto simp: memInv_def diskInv_def)
qed

abbreviation grown :: "string \<Rightarrow> eventQueue \<Rightarrow> eventQueue" where
  "grown r q \<equiv> q\<lparr>eq_size := eq_size q + length r, eq_pending := Suc (eq_pending q)\<rparr>"

abbreviation appended :: "string \<Rightarrow> qdisk \<Rightarrow> qdisk" where
  "appended r d \<equiv> d\<lparr>dk_file := Some (fileBytes d @ r)\<rparr>"

lemma append_line:
  assumes inv: "memInv q d" "diskInv d" and c: "dk_file d = None \<longrightarrow> cursorVal (dk_cursor d) = 0"
    and w: "nl \<notin> set w"
  shows "memInv (grown (w @ [nl]) q) (appended (w @ [nl]) d)" "diskInv (appended (w @ [nl]) d)"
    "pendingLines (grown (w @ [nl]) q) (appended (w @ [nl]) d) = pendingLines q d @ [w @ [nl]]"
proof -
  let ?s = "fileBytes d"
  have al: "aligned ?s (eq_offset q)" "aligned ?s (length ?s)" using inv by (simp_all add: memInv_def)
  have dr: "drop (eq_offset q) (?s @ w @ [nl]) = drop (eq_offset q) ?s @ w @ [nl]"
    using aligned_le [OF al(1)] by simp
  have "linesOf (drop (eq_offset q) ?s @ w @ [nl]) = (fst (linesOf (drop (eq_offset q) ?s)) @ [w @ [nl]], [])"
    using linesOf_append [OF linesOf_drop_tail [OF al], of "w @ [nl]"] linesOf_line [OF w] by simp
  then show p: "pendingLines (grown (w @ [nl]) q) (appended (w @ [nl]) d) = pendingLines q d @ [w @ [nl]]"
    using dr by (simp add: pendingLines_def fileBytes_def)
  have b: "fileBytes (appended (w @ [nl]) d) = ?s @ w @ [nl]" by (simp add: fileBytes_def)
  have e: "aligned (?s @ w @ [nl]) (length (?s @ w @ [nl]))" by (simp add: aligned_def nth_append)
  have cv: "cursorVal (dk_cursor d) \<le> eq_offset q" "aligned ?s (cursorVal (dk_cursor d))"
    using inv c by (auto simp: memInv_def diskInv_def)
  show "diskInv (appended (w @ [nl]) d)"
    using aligned_append [OF cv(2), of "w @ [nl]"] by (simp add: diskInv_def b)
  show "memInv (grown (w @ [nl]) q) (appended (w @ [nl]) d)"
    using inv(1) p b e cv aligned_append [OF al(1), of "w @ [nl]"] by (simp add: memInv_def)
qed

lemma memInv_seq [simp]: "memInv (q\<lparr>eq_seq := n\<rparr>) d = memInv q d"
  by (simp add: memInv_def pendingLines_def)

lemma pendingLines_seq [simp]: "pendingLines (q\<lparr>eq_seq := n\<rparr>) d = pendingLines q d"
  by (simp add: pendingLines_def)

text \<open>The record an append writes.\<close>

definition recordFor :: "marshalFn \<Rightarrow> gtime \<Rightarrow> string \<Rightarrow> eventQueue \<Rightarrow> string" where
  "recordFor marshal now line q =
     marshal \<lparr>qe_Seq = eq_seq q + 1, qe_TS = now, qe_Line = line\<rparr> @ [nl]"

text \<open>The effect of an append on the pending lines: the new record, behind what the caps evicted; or
  nothing, but for the torn bytes that became a line.\<close>

definition appendEffect ::
  "qfaults \<Rightarrow> unmarshalFn \<Rightarrow> bool \<Rightarrow> bool \<Rightarrow> string \<Rightarrow> string list \<Rightarrow> nat \<Rightarrow> string list \<Rightarrow> bool" where
  "appendEffect f u retained protected r old oldBytes new \<longleftrightarrow>
     (if retained
      then \<exists>k \<le> length old. new = drop k (old @ [r]) \<and> (protected \<longrightarrow> k = 0) \<and>
             (k > 0 \<longrightarrow> overCaps (Suc (length old)) (oldBytes + length r))
      else new = old \<or> (qf_truncate f \<and> (\<exists>n. new = old @ [take n r @ [nl]])))"

lemma recoverTorn_eq:
  "\<not> qf_boundary f \<Longrightarrow> recoverTornRecordLocked f (length w) False q (appended w d) =
     (grown (w @ [nl]) q, appended (w @ [nl]) d)"
  by (simp add: recoverTornRecordLocked_def)

lemma append_truncated:
  assumes inv: "memInv q d" "diskInv d" and c: "dk_file d = None \<longrightarrow> cursorVal (dk_cursor d) = 0"
  shows "memInv q (d\<lparr>dk_file := Some (fileBytes d)\<rparr>)" "diskInv (d\<lparr>dk_file := Some (fileBytes d)\<rparr>)"
    "pendingLines q (d\<lparr>dk_file := Some (fileBytes d)\<rparr>) = pendingLines q d"
proof -
  have "fileBytes (d\<lparr>dk_file := Some (fileBytes d)\<rparr>) = fileBytes d" by (simp add: fileBytes_def)
  then show "memInv q (d\<lparr>dk_file := Some (fileBytes d)\<rparr>)" "diskInv (d\<lparr>dk_file := Some (fileBytes d)\<rparr>)"
    "pendingLines q (d\<lparr>dk_file := Some (fileBytes d)\<rparr>) = pendingLines q d"
    using inv c by (auto simp: memInv_def diskInv_def pendingLines_def)
qed

lemma pendingBytes: "memInv q d \<Longrightarrow> eq_size q - eq_offset q = length (concat (pendingLines q d))"
proof -
  assume inv: "memInv q d"
  then have "snd (linesOf (drop (eq_offset q) (fileBytes d))) = []"
    by (intro linesOf_drop_tail) (simp_all add: memInv_def)
  then have "concat (pendingLines q d) = drop (eq_offset q) (fileBytes d)"
    using concat_linesOf [of "drop (eq_offset q) (fileBytes d)"] by (simp add: pendingLines_def)
  then show ?thesis using inv by (simp add: memInv_def)
qed

lemma appendEvent_landed:
  assumes inv: "memInv q d" "diskInv d" and c: "dk_file d = None \<longrightarrow> cursorVal (dk_cursor d) = 0"
    and nf: "nlFree marshal" and r: "r = recordFor marshal now line q"
    and cap: "enforceCapsLocked f u (grown r (q\<lparr>eq_seq := eq_seq q + 1\<rparr>)) (appended r d) = (e, q', d')"
  shows "memInv q' d' \<and> diskInv d' \<and> eq_loadErr q' = eq_loadErr q \<and> eq_seq q' = eq_seq q + 1 \<and>
     appendEffect f u True (eq_limitParked q \<or> eq_limitParkedErr q) r (pendingLines q d)
       (length (concat (pendingLines q d))) (pendingLines q' d') \<and>
     (\<not> eq_limitParked q \<and> \<not> eq_limitParkedErr q \<and> \<not> qf_read f \<and>
      (\<forall>l\<in>set (pendingLines q d @ [r]). u l \<noteq> None) \<longrightarrow>
        \<not> overCaps (eq_pending q') (eq_size q' - eq_offset q') \<or> eq_pending q' \<le> 1)"
proof -
  let ?q = "q\<lparr>eq_seq := eq_seq q + 1\<rparr>"
  obtain w where w: "r = w @ [nl]" "nl \<notin> set w" using nf r by (auto simp: recordFor_def nlFree_def)
  have a: "memInv (grown r ?q) (appended r d)" "diskInv (appended r d)"
    "pendingLines (grown r ?q) (appended r d) = pendingLines q d @ [r]"
    using append_line [of ?q d w, OF _ inv(2) c w(2)] inv(1) unfolding w(1) by simp_all
  have lp: "limitProtectedLocked (grown r ?q) = (eq_limitParked q \<or> eq_limitParkedErr q)"
    by (simp add: limitProtectedLocked_def)
  have pb: "eq_size q + length r - eq_offset q = length (concat (pendingLines q d)) + length r"
    using pendingBytes [OF inv(1)] inv(1) aligned_le by (force simp: memInv_def)
  have pl: "eq_pending q = length (pendingLines q d)" using inv(1) by (simp add: memInv_def)
  from enforceCaps_spec [OF a(1,2) _ cap] obtain k where
    k: "memInv q' d' \<and> diskInv d' \<and> eq_loadErr q' = eq_loadErr (grown r ?q) \<and> eq_seq q' = eq_seq (grown r ?q) \<and>
     pendingLines q' d' = drop k (pendingLines (grown r ?q) (appended r d)) \<and> k < eq_pending (grown r ?q) \<and>
     (limitProtectedLocked (grown r ?q) \<longrightarrow> k = 0) \<and>
     (k > 0 \<longrightarrow> overCaps (eq_pending (grown r ?q)) (eq_size (grown r ?q) - eq_offset (grown r ?q))) \<and>
     (\<not> limitProtectedLocked (grown r ?q) \<and> \<not> qf_read f \<and>
      (\<forall>l\<in>set (pendingLines (grown r ?q) (appended r d)). u l \<noteq> None) \<longrightarrow>
        \<not> overCaps (eq_pending q') (eq_size q' - eq_offset q') \<or> eq_pending q' \<le> 1)"
    by auto
  show ?thesis
    using k unfolding a(3) lp appendEffect_def
    by (auto simp: pb pl intro!: exI [of _ k])
qed


lemma appendEvent_spec:
  assumes ok: "okFaults f" and inv: "memInv q d" "diskInv d"
    and c: "dk_file d = None \<longrightarrow> cursorVal (dk_cursor d) = 0" and nf: "nlFree marshal"
    and a: "appendEventLocked f marshal u now line me q d = ((retained, errs), q', d')"
  shows "memInv q' d' \<and> diskInv d' \<and> eq_loadErr q' = eq_loadErr q \<and> eq_seq q' = eq_seq q + 1 \<and>
     appendEffect f u retained (eq_limitParked q \<or> eq_limitParkedErr q) (recordFor marshal now line q)
       (pendingLines q d) (length (concat (pendingLines q d))) (pendingLines q' d') \<and>
     (retained \<and> \<not> eq_limitParked q \<and> \<not> eq_limitParkedErr q \<and> \<not> qf_read f \<and>
      (\<forall>l\<in>set (pendingLines q d @ [recordFor marshal now line q]). u l \<noteq> None) \<longrightarrow>
        \<not> overCaps (eq_pending q') (eq_size q' - eq_offset q') \<or> eq_pending q' \<le> 1) \<and>
     (qf_append f = None \<longrightarrow> retained)"
proof -
  let ?q = "q\<lparr>eq_seq := eq_seq q + 1\<rparr>"
  define r where "r = recordFor marshal now line q"
  obtain w where w: "r = w @ [nl]" "nl \<notin> set w" using nf by (auto simp: recordFor_def nlFree_def r_def)
  have rec: "marshal \<lparr>qe_Seq = eq_seq ?q, qe_TS = now, qe_Line = line\<rparr> @ [nl] = r"
    by (simp add: r_def recordFor_def)
  have old: "(case dk_file d of None \<Rightarrow> [] | Some s \<Rightarrow> s) = fileBytes d" by (simp add: fileBytes_def)
  consider (landed) e where "retained"
      "enforceCapsLocked f u (grown r ?q) (appended r d) = (e, q', d')"
    | (torn) n where "\<not> retained" "qf_append f = Some n" "0 < n" "n < length r"
        "if qf_truncate f then (q', d') = recoverTornRecordLocked f n False ?q (appended (take n r) d)
         else q' = ?q \<and> d' = d\<lparr>dk_file := Some (take (eq_size q) (fileBytes d @ take n r))\<rparr>"
    | (nothing) n where "\<not> retained" "qf_append f = Some n" "q' = ?q" "d' = d"
    using a unfolding appendEventLocked_def Let_def rec old
    by (cases "qf_append f"; cases "enforceCapsLocked f u (grown r ?q) (appended r d)")
      (auto split: if_splits prod.splits)
  then show ?thesis
  proof cases
    case landed
    from appendEvent_landed [OF inv c nf r_def landed(2)] landed(1) show ?thesis by (simp add: r_def)
  next
    case torn
    have tk: "length (take n r) = n" "nl \<notin> set (take n r)"
      using torn w by (auto dest: in_set_takeD)
    show ?thesis
    proof (cases "qf_truncate f")
      case True
      then have nb: "\<not> qf_boundary f" using ok by (simp add: okFaults_def)
      have qd: "q' = grown (take n r @ [nl]) ?q" "d' = appended (take n r @ [nl]) d"
        using torn(5) True recoverTorn_eq [OF nb, of "take n r" ?q d] tk(1) by simp_all
      have "memInv ?q d" using inv(1) by simp
      from append_line [OF this inv(2) c tk(2)] torn(1,2) True show ?thesis
        by (auto simp: qd appendEffect_def r_def)
    next
      case False
      have "eq_size q = length (fileBytes d)" using inv(1) by (simp add: memInv_def)
      then have qd: "q' = ?q" "d' = d\<lparr>dk_file := Some (fileBytes d)\<rparr>" using torn(5) False by simp_all
      from append_truncated [OF inv c] torn(1,2) show ?thesis by (simp add: qd appendEffect_def)
    qed
  next
    case nothing
    then show ?thesis using inv by (simp add: appendEffect_def)
  qed
qed

subsection \<open>Enqueue\<close>

lemma sameQueue_record: "eq_seq q' = eq_seq q \<Longrightarrow> recordFor m now line q' = recordFor m now line q"
  by (simp add: recordFor_def)

lemma persist_protects:
  "persistLimitParkedLocked f n q d = (e, q', d') \<Longrightarrow> eq_limitParked q' \<or> eq_limitParkedErr q'"
  by (auto simp: persistLimitParkedLocked_def split: if_splits)

lemma protect_protects:
  "protectParkedEnqueueLocked f n q d = (e, u, q', d') \<Longrightarrow> eq_limitParked q' \<or> eq_limitParkedErr q'"
  using persist_protects [of f n q d]
  by (cases "persistLimitParkedLocked f n q d")
    (auto simp: protectParkedEnqueueLocked_def split: if_splits option.splits)

lemma clearStale_clears:
  "clearStaleProtectionLocked f q d = (None, q', d') \<Longrightarrow> \<not> eq_limitParked q' \<and> \<not> eq_limitParkedErr q'"
  by (auto simp: clearStaleProtectionLocked_def clearLimitParkedLocked_def split: if_splits)

text \<open>Whether the backlog is protected from the caps when this event is appended.\<close>

definition protectedFor :: "bool \<Rightarrow> eventQueue \<Rightarrow> bool" where
  "protectedFor park q \<longleftrightarrow> park \<or> (eq_pending q > 0 \<and> (eq_limitParked q \<or> eq_limitParkedErr q))"

definition enqueueEffect ::
  "qfaults \<Rightarrow> marshalFn \<Rightarrow> unmarshalFn \<Rightarrow> gtime \<Rightarrow> string \<Rightarrow> bool \<Rightarrow> eventQueue \<times> qdisk \<Rightarrow> bool \<Rightarrow>
   eventQueue \<times> qdisk \<Rightarrow> bool" where
  "enqueueEffect f marshal u now line park qd retained qd' \<longleftrightarrow>
     (let q = fst qd; old = pendingLines q (snd qd); new = pendingLines (fst qd') (snd qd');
          r = recordFor marshal now line q
      in appendEffect f u retained (protectedFor park q) r old (length (concat old)) new \<and>
         (retained \<and> \<not> protectedFor park q \<and> \<not> qf_read f \<and> (\<forall>l\<in>set (old @ [r]). u l \<noteq> None) \<longrightarrow>
            \<not> overCaps (length new) (length (concat new)) \<or> length new \<le> 1))"

lemma appendEffect_kept: "appendEffect f u False p r old n old"
  by (simp add: appendEffect_def)

text \<open>Storage on which an append lands; writing the usage-limit marker may still fail.\<close>

definition appendable :: "qfaults \<Rightarrow> bool" where
  "appendable f \<longleftrightarrow> qf_append f = None \<and> \<not> qf_cursorLink f \<and> \<not> (qf_removeCursor f \<and> qf_cursorWrite f) \<and>
     \<not> qf_markerLink f \<and> \<not> qf_markerRemove f"

text \<open>The cursor reset and the append, as one step.\<close>

definition resetAppend ::
  "qfaults \<Rightarrow> marshalFn \<Rightarrow> unmarshalFn \<Rightarrow> gtime \<Rightarrow> string \<Rightarrow> queueError option \<Rightarrow> eventQueue \<Rightarrow> qdisk \<Rightarrow>
   (bool \<times> queueError list) \<times> eventQueue \<times> qdisk" where
  "resetAppend f marshal u now line me q d =
     (case resetCursorBeforeFreshAppendLocked f q d of
        (Some e, d') \<Rightarrow> ((False, [e]), q, d')
      | (None, d') \<Rightarrow> appendEventLocked f marshal u now line me q d')"

lemma resetAppend_spec:
  assumes ok: "okFaults f" and inv: "memInv q d" "diskInv d" "\<not> eq_loadErr q" and nf: "nlFree marshal"
    and r: "resetAppend f marshal u now line me q d = ((ret, errs), q', d')"
    and pr: "eq_limitParked q \<or> eq_limitParkedErr q \<longleftrightarrow> prot"
  shows "memInv q' d' \<and> diskInv d' \<and> \<not> eq_loadErr q' \<and>
     appendEffect f u ret prot (recordFor marshal now line q) (pendingLines q d)
       (length (concat (pendingLines q d))) (pendingLines q' d') \<and>
     (ret \<and> \<not> prot \<and> \<not> qf_read f \<and> (\<forall>l\<in>set (pendingLines q d @ [recordFor marshal now line q]). u l \<noteq> None) \<longrightarrow>
        \<not> overCaps (length (pendingLines q' d')) (length (concat (pendingLines q' d'))) \<or>
        length (pendingLines q' d') \<le> 1) \<and>
     (appendable f \<longrightarrow> ret \<and> eq_seq q' = eq_seq q + 1)"
proof -
  obtain e d1 where s: "resetCursorBeforeFreshAppendLocked f q d = (e, d1)" by fastforce
  note i = resetCursor_spec [OF inv(1,2) s]
  show ?thesis
  proof (cases e)
    case (Some err)
    then have "\<not> appendable f"
      using s by (auto simp: resetCursorBeforeFreshAppendLocked_def appendable_def split: if_splits)
    then show ?thesis using Some r s i inv(3) by (simp add: resetAppend_def appendEffect_kept)
  next
    case None
    then have "appendEventLocked f marshal u now line me q d1 = ((ret, errs), q', d')"
      using r s by (simp add: resetAppend_def)
    from appendEvent_spec [OF ok _ _ _ nf this] i None
    have a: "memInv q' d' \<and> diskInv d' \<and> eq_loadErr q' = eq_loadErr q \<and>
       appendEffect f u ret prot (recordFor marshal now line q)
         (pendingLines q d) (length (concat (pendingLines q d))) (pendingLines q' d') \<and>
       (ret \<and> \<not> prot \<and> \<not> qf_read f \<and>
        (\<forall>l\<in>set (pendingLines q d @ [recordFor marshal now line q]). u l \<noteq> None) \<longrightarrow>
          \<not> overCaps (eq_pending q') (eq_size q' - eq_offset q') \<or> eq_pending q' \<le> 1) \<and>
       (appendable f \<longrightarrow> ret \<and> eq_seq q' = eq_seq q + 1)"
      unfolding pr [symmetric] appendable_def by simp
    then have "eq_size q' - eq_offset q' = length (concat (pendingLines q' d'))"
      "eq_pending q' = length (pendingLines q' d')" using pendingBytes by (auto simp: memInv_def)
    then show ?thesis using a inv(3) by simp
  qed
qed

lemma enqueue_spec:
  assumes ok: "okFaults f" and inv: "memInv q d" "diskInv d" "\<not> eq_loadErr q" and nf: "nlFree marshal"
    and e: "enqueueWithParkedStatus f marshal u now line park rec q d = ((retained, errs), q', d')"
  shows "memInv q' d' \<and> diskInv d' \<and> \<not> eq_loadErr q' \<and>
         enqueueEffect f marshal u now line park (q, d) retained (q', d') \<and>
         (appendable f \<longrightarrow> retained \<and> eq_seq q' = eq_seq q + 1)"
proof -
  obtain e1 q2 d2 where s1: "(if eq_pending q = 0 \<and> \<not> park then clearStaleProtectionLocked f q d
      else (None, q, d)) = (e1, q2, d2)" using prod_cases3 by blast
  have sm2: "sameQueue (q, d) (q2, d2)"
    using s1 same_clearStaleProtection [of q d f] by (auto split: if_splits)
  show ?thesis
  proof (cases e1)
    case (Some err)
    then have "((retained, errs), q', d') = ((False, [err]), q2, d2)"
      using e s1 inv(3) by (simp add: enqueueWithParkedStatus_def)
    moreover have "\<not> appendable f" using s1 Some
      by (auto simp: clearStaleProtectionLocked_def clearLimitParkedLocked_def appendable_def split: if_splits)
    ultimately show ?thesis using same_pairE [OF sm2 refl] inv by (simp add: enqueueEffect_def appendEffect_kept)
  next
    case None
    let ?seq = "if park \<and> rec \<and> eq_pending q2 = 0 then eq_seq q2 + 1 else eq_parkedStatusSeq q2"
    obtain me undo q3 d3 where s2: "(if park then protectParkedEnqueueLocked f ?seq q2 d2
       else (None, UndoNothing, q2, d2)) = (me, undo, q3, d3)" using prod_cases4 by blast
    have sm3: "sameQueue (q, d) (q3, d3)"
      using s2 same_protectParked [of q2 d2 f ?seq] sm2
      by (auto split: if_splits intro: sameQueue_trans)
    note i3 = same_pairE [OF sm3 refl]
    have pr: "(eq_limitParked q3 \<or> eq_limitParkedErr q3) = protectedFor park q"
      using s1 s2 None clearStale_clears [of f q d q2 d2] protect_protects [of f ?seq q2 d2 me undo q3 d3]
      by (auto simp: protectedFor_def split: if_splits)
    obtain r q4 d4 where s4: "resetAppend f marshal u now line me q3 d3 = (r, q4, d4)"
      using prod_cases3 by blast
    obtain ret errs' where rr: "r = (ret, errs')" by fastforce
    have "memInv q3 d3" "diskInv d3" "\<not> eq_loadErr q3" using i3 inv by simp_all
    note i5 = resetAppend_spec [OF ok this nf s4 [unfolded rr] pr]
    have out: "((retained, errs), q', d') = (let (q5, d5) = (if ret then (q4, d4) else undoMarker f undo q4 d4)
        in ((ret, errs'), q5, d5))"
      using e inv(3) s1 None s2 s4 [unfolded resetAppend_def rr]
      by (cases retained) (simp_all add: enqueueWithParkedStatus_def split: prod.splits)
    have sm: "sameQueue (q4, d4) (q', d')" "ret = retained"
      using out same_undoMarker [of q4 d4 f undo] by (auto split: if_splits prod.splits)
    show ?thesis using i5 same_pairE [OF sm(1) refl] sm(2) i3 sameQueue_record [of q3 q]
      by (simp add: enqueueEffect_def Let_def)
  qed
qed

subsection \<open>Peek\<close>

lemma memInv_file: "memInv q d \<Longrightarrow> pendingLines q d \<noteq> [] \<Longrightarrow> dk_file d = Some (fileBytes d)"
  by (cases "dk_file d") (auto simp: pendingLines_def fileBytes_def)

lemma read_head:
  assumes "memInv q d" "pendingLines q d = l # ls"
  shows "readEventAtLocked f u d (eq_offset q) =
    (if qf_read f then ReadFailed
     else (case u l of Some ev \<Rightarrow> ReadOk ev (length l) | None \<Rightarrow> ReadCorrupt (length l)))"
proof -
  have "dk_file d = Some (fileBytes d)" "fst (linesOf (drop (eq_offset q) (fileBytes d))) = l # ls"
    using memInv_file [OF assms(1)] assms(2) by (simp_all add: pendingLines_def)
  then show ?thesis by (simp add: readEventAtLocked_def)
qed

text \<open>One turn of the peek loop, in terms of the pending lines.\<close>

lemma peekLoop_nil: "memInv q d \<Longrightarrow> pendingLines q d = [] \<Longrightarrow> peekLoop f u q d = (Inr None, q, d)"
  by (subst peekLoop.simps) (simp add: memInv_def)

lemma peekLoop_head:
  assumes "memInv q d" "pendingLines q d = l # ls"
  shows "peekLoop f u q d =
    (if qf_read f then (Inl ErrQueueRead, q, d)
     else (case u l of
        Some ev \<Rightarrow>
          (Inr (Some (ev, \<lparr>cu_offset = eq_offset q, cu_length = length l, cu_seq = qe_Seq ev\<rparr>)), q, d)
      | None \<Rightarrow>
          (if ls = [] then
             (case removeDrainedFilesLocked f (consume (length l) q) d of
                (Inl e, q2, d2) \<Rightarrow> (Inl e, q2, d2)
              | (Inr _, q2, d2) \<Rightarrow> (Inr None, q2, d2))
           else
             (case persistCursorLocked f (consume (length l) q) d of
                (Some e, d2) \<Rightarrow> (Inl e, consume (length l) q, d2)
              | (None, d2) \<Rightarrow> peekLoop f u (consume (length l) q) d2))))"
proof -
  have "eq_pending q = Suc (length ls)" using assms by (simp add: memInv_def)
  then show ?thesis
    by (subst peekLoop.simps) (simp add: read_head [OF assms] Let_def split: option.split prod.split)
qed

text \<open>
  The effect of a peek: it drops \<open>k\<close> unreadable lines at the head; when it returns an event, that
  is the line then at the head, and the cursor names it.
\<close>

definition peekResult ::
  "unmarshalFn \<Rightarrow> eventQueue \<Rightarrow> string list \<Rightarrow> queueError + (queuedEvent \<times> eventQueueCursor) option \<Rightarrow> bool" where
  "peekResult u q ls res =
     (case res of
        Inl e \<Rightarrow> True
      | Inr None \<Rightarrow> ls = []
      | Inr (Some (ev, c)) \<Rightarrow>
          ls \<noteq> [] \<and> u (hd ls) = Some ev \<and>
          c = \<lparr>cu_offset = eq_offset q, cu_length = length (hd ls), cu_seq = qe_Seq ev\<rparr>)"

definition peekEffect ::
  "unmarshalFn \<Rightarrow> string list \<Rightarrow> queueError + (queuedEvent \<times> eventQueueCursor) option \<Rightarrow>
   eventQueue \<Rightarrow> qdisk \<Rightarrow> bool" where
  "peekEffect u old res q d \<longleftrightarrow>
     (\<exists>k. pendingLines q d = drop k old \<and> (\<forall>l\<in>set (take k old). u l = None)) \<and>
     peekResult u q (pendingLines q d) res"

lemma peekEffect_here: "peekResult u q old res \<Longrightarrow> pendingLines q d = old \<Longrightarrow> peekEffect u old res q d"
  by (auto simp: peekEffect_def intro: exI [of _ 0])

lemma peekEffect_skip: "u l = None \<Longrightarrow> peekEffect u ls res q d \<Longrightarrow> peekEffect u (l # ls) res q d"
  unfolding peekEffect_def by (metis drop_Suc_Cons set_ConsD take_Suc_Cons)

lemma peekLoop_spec:
  assumes "memInv q d" "diskInv d" "\<not> eq_loadErr q" "peekLoop f u q d = (res, q', d')"
  shows "memInv q' d' \<and> diskInv d' \<and> \<not> eq_loadErr q' \<and> peekEffect u (pendingLines q d) res q' d'"
  using assms
proof (induction "pendingLines q d" arbitrary: q d)
  case Nil
  then show ?case by (auto simp: peekLoop_nil peekResult_def intro!: peekEffect_here)
next
  case (Cons l ls)
  let ?q = "consume (length l) q"
  note pl = Cons.hyps(2) [symmetric]
  note h = peekLoop_head [OF Cons.prems(1) pl, of f u]
  note c = consume_inv [OF Cons.prems(1) pl]
  have ne: "\<not> eq_loadErr ?q" using Cons.prems(3) by simp
  consider (stop) "qf_read f \<or> u l \<noteq> None" | (drained) "\<not> qf_read f" "u l = None" "ls = []"
    | (on) "\<not> qf_read f" "u l = None" "ls \<noteq> []" by blast
  then show ?case
  proof cases
    case stop
    then have "q' = q" "d' = d" "peekResult u q (l # ls) res"
      using Cons.prems(4) h by (auto simp: peekResult_def split: if_splits option.splits)
    then show ?thesis using Cons.prems pl by (auto intro!: peekEffect_here)
  next
    case drained
    obtain r q2 d2 where rd: "removeDrainedFilesLocked f ?q d = (r, q2, d2)" using prod_cases3 by blast
    have "eq_pending ?q = 0" using c drained by (simp add: memInv_def)
    note i = removeDrained_inv [OF c(1) Cons.prems(2) this ne rd]
    have "q' = q2" "d' = d2" "res = (case r of Inl e \<Rightarrow> Inl e | Inr _ \<Rightarrow> Inr None)"
      using h Cons.prems(4) drained rd by (auto split: sum.splits)
    then have "peekEffect u [] res q' d'"
      using i by (intro peekEffect_here) (auto simp: peekResult_def split: sum.splits)
    then show ?thesis using i drained peekEffect_skip [of u l "[]"] \<open>q' = q2\<close> \<open>d' = d2\<close> unfolding pl by simp
  next
    case on
    obtain e d2 where pc: "persistCursorLocked f ?q d = (e, d2)" by fastforce
    note pi = persist_inv [OF c(1) Cons.prems(2) pc]
    show ?thesis
    proof (cases e)
      case (Some err)
      then have "q' = ?q" "d' = d2" "res = Inl err" using h Cons.prems(4) on pc by simp_all
      moreover have "peekEffect u ls (Inl err) ?q d2"
        using pi c by (intro peekEffect_here) (simp_all add: peekResult_def)
      ultimately show ?thesis using ne on(2) pi peekEffect_skip [of u l ls] unfolding pl by simp
    next
      case None
      have "peekLoop f u ?q d2 = (res, q', d')" using h Cons.prems(4) on pc None by simp
      from Cons.hyps(1) [OF _ _ _ ne this] pi c
      show ?thesis using on unfolding pl by (auto intro: peekEffect_skip)
    qed
  qed
qed

subsection \<open>Compaction and advance\<close>

lemma aligned_compacted: "aligned s off \<Longrightarrow> aligned s (length s) \<Longrightarrow> aligned (drop off s) (length s - off)"
  using aligned_drop [of s off "length s"] aligned_le [of s off] by simp

lemma compact_inv:
  assumes inv: "memInv q d" "diskInv d" and c: "compactLocked f q d = (e, q', d')"
  shows "memInv q' d' \<and> diskInv d' \<and> eq_loadErr q' = eq_loadErr q \<and> pendingLines q' d' = pendingLines q d"
proof -
  have cv: "cursorVal (Some (itoa 0)) = 0" using cursorVal_itoa [of 0] by simp
  let ?d0 = "d\<lparr>dk_cursor := Some (itoa 0)\<rparr>" and ?dq = "d\<lparr>dk_cursor := Some (itoa (int (eq_offset q)))\<rparr>"
  have d0: "memInv q ?d0" "diskInv ?d0" "memInv q ?dq" "diskInv ?dq"
    using inv cv cursorVal_itoa_cases [of "eq_offset q"] by (auto simp: memInv_def diskInv_def)
  consider "q' = q" "d' \<in> {d, ?d0, ?dq}"
    | (compacted) s where "dk_file d = Some s" "q' = q\<lparr>eq_offset := 0, eq_size := eq_size q - eq_offset q\<rparr>"
       "d' = ?d0\<lparr>dk_file := Some (drop (eq_offset q) s)\<rparr>"
    using c by (cases "dk_file d")
      (auto simp: compactLocked_def compactCursorDisk_def compactedDisk_def Let_def split: if_splits)
  then show ?thesis
  proof cases
    case 1
    then show ?thesis using inv d0 by auto
  next
    case compacted
    have s: "fileBytes d = s" "fileBytes d' = drop (eq_offset q) s" using compacted by (simp_all add: fileBytes_def)
    have p: "pendingLines q' d' = pendingLines q d" using compacted by (simp add: pendingLines_def fileBytes_def)
    show ?thesis using inv compacted s p cv aligned_compacted [of s "eq_offset q"]
      by (auto simp: memInv_def diskInv_def)
  qed
qed

text \<open>A successful advance consumes exactly the head, and a cursor that no longer names it changes nothing.\<close>

definition names :: "unmarshalFn \<Rightarrow> eventQueueCursor \<Rightarrow> eventQueue \<Rightarrow> string list \<Rightarrow> bool" where
  "names u c q ls \<longleftrightarrow> ls \<noteq> [] \<and> cu_offset c = eq_offset q \<and> cu_length c = length (hd ls) \<and>
     (\<exists>ev. u (hd ls) = Some ev \<and> qe_Seq ev = cu_seq c)"

lemma line_nonempty: "pendingLines q d = l # ls \<Longrightarrow> length l \<noteq> 0"
  using linesOf_lines [of l "drop (eq_offset q) (fileBytes d)"] by (auto simp: pendingLines_def)

lemma advance_named:
  assumes inv: "memInv q d" "diskInv d" "\<not> eq_loadErr q" and n: "names u c q (pendingLines q d)" "\<not> qf_read f"
    and a: "advance f u c q d = (res, q', d')"
  shows "memInv q' d' \<and> diskInv d' \<and> \<not> eq_loadErr q' \<and> pendingLines q' d' = tl (pendingLines q d) \<and> res \<noteq> Inr False"
proof -
  obtain l ls ev where l: "pendingLines q d = l # ls" "cu_offset c = eq_offset q" "cu_length c = length l"
    "u l = Some ev" "qe_Seq ev = cu_seq c"
    using n by (cases "pendingLines q d") (auto simp: names_def)
  have pe: "eq_pending q = Suc (length ls)" using inv(1) l(1) by (simp add: memInv_def)
  let ?q = "q\<lparr>eq_offset := eq_offset q + length l, eq_pending := length ls\<rparr>"
  have ci: "memInv ?q d" "pendingLines ?q d = ls" using consume_inv [OF inv(1) l(1)] pe by simp_all
  have ne: "\<not> eq_loadErr ?q" using inv(3) by simp
  obtain e1 q2 d2 where cp: "(if eq_offset ?q > watcherQueueCompactBytes then compactLocked f ?q d
      else (None, ?q, d)) = (e1, q2, d2)" using prod_cases3 by blast
  obtain e3 d3 where pc: "persistCursorLocked f q2 d2 = (e3, d3)" by fastforce
  have adv: "advance f u c q d =
    (if ls = [] then removeDrainedFilesLocked f ?q d
     else (case e3 of None \<Rightarrow> Inr True | Some err \<Rightarrow> Inl err, q2, d3))"
    using inv(3) n(2) pe l line_nonempty [OF l(1)] cp pc
    by (auto simp: advance_def read_head [OF inv(1) l(1)] Let_def)
  show ?thesis
  proof (cases "ls = []")
    case True
    then show ?thesis using removeDrained_inv [OF ci(1) inv(2) _ ne, of f res q' d'] pe adv a l(1)
      by (auto split: sum.splits)
  next
    case False
    have "memInv q2 d2 \<and> diskInv d2 \<and> \<not> eq_loadErr q2 \<and> pendingLines q2 d2 = ls"
    proof (cases "eq_offset ?q > watcherQueueCompactBytes")
      case True
      then show ?thesis using cp compact_inv [OF ci(1) inv(2), of f e1 q2 d2] ci ne by simp
    next
      case False
      then have "q2 = ?q" "d2 = d" using cp by auto
      then show ?thesis using ci inv(2) ne by simp
    qed
    then show ?thesis using persist_inv [OF _ _ pc] False adv a l(1) ne by (auto split: option.splits)
  qed
qed

lemma advance_unnamed:
  assumes inv: "memInv q d" "\<not> eq_loadErr q" and n: "\<not> names u c q (pendingLines q d) \<or> qf_read f"
    and a: "advance f u c q d = (res, q', d')"
  shows "q' = q \<and> d' = d \<and> res \<noteq> Inr True"
proof (cases "pendingLines q d")
  case Nil
  then show ?thesis using inv a by (auto simp: advance_def memInv_def)
next
  case (Cons l ls)
  show ?thesis
    using inv(2) a n Cons read_head [OF inv(1) Cons, of f u]
    by (auto simp: advance_def names_def split: if_splits option.splits)
qed

end
