(* ===== verification/Queue_Steps.thy ===== *)
theory Queue_Steps
  imports Queue_Lemmas
begin

text \<open>
  The event queue under every sequence of operations, faults, crashes and restarts: each operation
  keeps the queue consistent, the disks that crash points leave are consistent and still hold the
  undelivered lines, and \<open>queueOps\<close> interprets the contract of an invariant on the whole step.
\<close>

subsection \<open>Every operation keeps the queue consistent\<close>

lemma queueInv_loaded: "\<not> eq_loadErr q \<Longrightarrow> queueInv (q, d) \<longleftrightarrow> memInv q d \<and> diskInv d"
  by (auto simp: queueInv_def)

lemma queueInv_unloaded: "eq_loadErr q \<Longrightarrow> queueInv (q, d) \<longleftrightarrow> diskInv d"
  by (simp add: queueInv_def)

lemma same_queueInv: "sameQueue (q, d) qd \<Longrightarrow> queueInv (q, d) \<Longrightarrow> queueInv qd"
  using sameQueue_memInv [of q d "fst qd" "snd qd"] sameQueue_diskInv [of q d "fst qd" "snd qd"]
  by (auto simp: queueInv_def sameQueue_def)

lemma enqueue_inv:
  assumes "okFaults f" "nlFree marshal" "queueInv (q, d)"
  shows "queueInv (snd (enqueueWithParkedStatus f marshal u now line park rec q d))"
proof -
  obtain q1 d1 where r: "retryLoadNowLocked f u q d = (q1, d1)" by fastforce
  have i: "queueInv (q1, d1)" using retryNow_inv [OF assms(1,3), of u] r by simp
  have e: "enqueueWithParkedStatus f marshal u now line park rec q d =
      (if eq_loadErr q1 then ((False, [ErrQueueLoadFailed]), q1, d1)
       else enqueueWithParkedStatus f marshal u now line park rec q1 d1)"
    by (simp add: enqueueWithParkedStatus_def r)
  show ?thesis
  proof (cases "eq_loadErr q1")
    case False
    obtain x y q2 d2 where eq: "enqueueWithParkedStatus f marshal u now line park rec q1 d1 = ((x, y), q2, d2)"
      by (metis surj_pair)
    have "memInv q1 d1" "diskInv d1" using i False by (simp_all add: queueInv_def)
    from enqueue_spec [OF assms(1) this False assms(2) eq] show ?thesis
      using False e eq by (simp add: queueInv_def)
  qed (use i e in simp)
qed

lemma peek_inv:
  assumes "okFaults f" "queueInv (q, d)"
  shows "queueInv (snd (peek f u q d))"
proof -
  obtain q1 d1 where r: "retryLoadLocked f u q d = (q1, d1)" by fastforce
  have i: "queueInv (q1, d1)" using retry_inv [OF assms, of u] r by simp
  show ?thesis
  proof (cases "eq_loadErr q1")
    case False
    obtain x q2 d2 where eq: "peekLoop f u q1 d1 = (x, q2, d2)" using prod_cases3 by blast
    have "memInv q1 d1" "diskInv d1" using i False by (simp_all add: queueInv_def)
    from peekLoop_spec [OF this False eq] show ?thesis using False eq by (simp add: peek_def r queueInv_def)
  qed (use i in \<open>simp add: peek_def r\<close>)
qed

lemma advance_inv:
  assumes "queueInv (q, d)"
  shows "queueInv (snd (advance f u c q d))"
proof (cases "eq_loadErr q")
  case True
  then show ?thesis using assms by (simp add: advance_def)
next
  case False
  obtain x q2 d2 where a: "advance f u c q d = (x, q2, d2)" using prod_cases3 by blast
  have i: "memInv q d" "diskInv d" using assms False by (simp_all add: queueInv_def)
  show ?thesis
    using advance_named [OF i False _ _ a] advance_unnamed [OF i(1) False _ a] a assms
    by (auto simp: queueInv_def)
qed

lemma mark_inv:
  assumes "okFaults f" "queueInv (q, d)"
  shows "queueInv (snd (markLimitParked f u q d))"
  using retryNow_inv [OF assms, of u] same_queueInv [OF same_persistLimitParked]
  by (auto simp: markLimitParked_def split: prod.splits)

lemma backpressure_inv:
  assumes "okFaults f" "queueInv (q, d)"
  shows "queueInv (snd (limitBackpressureState f u q d))"
proof -
  obtain q1 d1 where r: "retryLoadLocked f u q d = (q1, d1)" by fastforce
  have i: "queueInv (q1, d1)" using retry_inv [OF assms, of u] r by simp
  let ?m = "if eq_limitParkedErr q1
               then (if eq_pending q1 = 0 then (None, q1\<lparr>eq_limitParkedErr := False\<rparr>, d1)
                     else retryLimitMarkerLocked f q1 d1)
               else (None, q1, d1)"
  have "sameQueue (q1, d1) (snd ?m)"
    using same_retryLimitMarker [of q1 d1 f] by (auto simp: sameQueue_def)
  then have j: "queueInv (snd ?m)" using i by (rule same_queueInv)
  obtain e q2 d2 where m: "?m = (e, q2, d2)" using prod_cases3 by blast
  show ?thesis using i j unfolding limitBackpressureState_def r Let_def prod.case m
    by (auto split: option.splits)
qed

lemma recordStatus_inv:
  assumes "okFaults f" "queueInv (q, d)"
  shows "queueInv (snd (recordParkedStatus f u c q d))"
proof -
  obtain q1 d1 where r: "retryLoadNowLocked f u q d = (q1, d1)" by fastforce
  have i: "queueInv (q1, d1)" using retryNow_inv [OF assms, of u] r by simp
  obtain e q2 d2 where p: "persistLimitParkedLocked f (cu_seq c) q1 d1 = (e, q2, d2)" using prod_cases3 by blast
  have j: "queueInv (q2, d2)" using same_queueInv [OF same_persistLimitParked i, of f "cu_seq c"] p by simp
  have k: "queueInv (q2\<lparr>eq_parkedStatusSeq := n\<rparr>, d2)" for n
    using j by (intro same_queueInv [OF _ j]) (simp add: sameQueue_def)
  show ?thesis using i j k
    by (auto simp: recordParkedStatus_def r p Let_def split: readResult.splits option.splits)
qed

subsection \<open>Crashes\<close>

text \<open>The disk a crash leaves after \<open>n\<close> bytes of an append.\<close>

definition crashAppendDisk ::
  "qfaults \<Rightarrow> marshalFn \<Rightarrow> gtime \<Rightarrow> string \<Rightarrow> nat \<Rightarrow> eventQueue \<Rightarrow> qdisk \<Rightarrow> qdisk" where
  "crashAppendDisk f marshal now line n q d =
     (case resetCursorBeforeFreshAppendLocked f q d of
        (Some _, d') \<Rightarrow> d'
      | (None, d') \<Rightarrow> (if n = 0 then d' else appended (take n (recordFor marshal now line q)) d'))"

text \<open>The disks a crash leaves while an advance consumes the head: drained files or a compaction.\<close>

definition crashAdvanceDisk :: "nat \<Rightarrow> eventQueue \<Rightarrow> qdisk \<Rightarrow> qdisk" where
  "crashAdvanceDisk k q d =
     (case pendingLines q d of
        [] \<Rightarrow> d
      | l # ls \<Rightarrow>
          (if k = 0 then d
           else if ls = [] then
             (if k = 1 then d\<lparr>dk_file := None\<rparr> else d\<lparr>dk_file := None, dk_cursor := None\<rparr>)
           else if k = 1 then compactCursorDisk d
           else if k = 2 then compactedDisk (consume (length l) q) d
           else d\<lparr>dk_cursor := Some (itoa (int (eq_offset q + length l)))\<rparr>))"

text \<open>What a restart finds behind the cursor of the disk.\<close>

definition diskLines :: "qdisk \<Rightarrow> string list" where
  "diskLines d = (if dk_file d = None then [] else fst (linesOf (drop (cursorVal (dk_cursor d)) (fileBytes d))))"

lemma diskLines_behind:
  assumes "memInv q d" "diskInv d"
  shows "\<exists>pre. diskLines d = pre @ pendingLines q d"
proof (cases "dk_file d")
  case None
  then show ?thesis using assms by (simp add: diskLines_def pendingLines_def fileBytes_def)
next
  case (Some s)
  then show ?thesis
    using assms linesOf_suffix [of s "cursorVal (dk_cursor d)" "eq_offset q"]
    by (auto simp: memInv_def diskInv_def diskLines_def pendingLines_def fileBytes_def)
qed

lemma crashAdvance_disk:
  assumes inv: "memInv q d" "diskInv d"
  shows "diskInv (crashAdvanceDisk k q d) \<and>
         (\<exists>pre. diskLines (crashAdvanceDisk k q d) = pre @ tl (pendingLines q d))"
proof (cases "pendingLines q d")
  case Nil
  then show ?thesis using inv by (simp add: crashAdvanceDisk_def)
next
  case (Cons l ls)
  let ?q = "consume (length l) q"
  have ci: "memInv ?q d" "pendingLines ?q d = ls" using consume_inv [OF inv(1) Cons] by simp_all
  have here: "diskInv d \<and> (\<exists>pre. diskLines d = pre @ ls)" using diskLines_behind [OF ci(1) inv(2)] ci(2) inv(2) by simp
  have gone: "diskInv (d\<lparr>dk_file := None, dk_cursor := c\<rparr>) \<and> diskLines (d\<lparr>dk_file := None, dk_cursor := c\<rparr>) = []"
    "diskInv (d\<lparr>dk_file := None\<rparr>) \<and> diskLines (d\<lparr>dk_file := None\<rparr>) = []" for c
    by (simp_all add: diskInv_def diskLines_def)
  have compact: "memInv (fst r) (snd r) \<and> diskInv (snd r) \<and> pendingLines (fst r) (snd r) = ls"
    if "r = snd (compactLocked f ?q d)" for f r
    using compact_inv [OF ci(1) inv(2), of f "fst (compactLocked f ?q d)" "fst r" "snd r"] ci(2) that by simp
  have moved: "diskInv x \<and> (\<exists>pre. diskLines x = pre @ ls)" if "memInv qq x" "diskInv x" "pendingLines qq x = ls" for qq x
    using diskLines_behind [OF that(1,2)] that by simp
  obtain s where s: "dk_file d = Some s" using memInv_file [OF inv(1)] Cons by auto
  have c1: "memInv ?q (compactCursorDisk d) \<and> diskInv (compactCursorDisk d)"
    using ci(1) inv(2) cursorVal_itoa [of 0] by (auto simp: compactCursorDisk_def memInv_def diskInv_def)
  have p1: "pendingLines ?q (compactCursorDisk d) = ls" using ci(2) by (simp add: compactCursorDisk_def)
  obtain f :: qfaults where f: "qf_compact f = CompactOk" by (metis qfaults.select_convs(15))
  have c2: "\<exists>qq. memInv qq (compactedDisk ?q d) \<and> diskInv (compactedDisk ?q d) \<and> pendingLines qq (compactedDisk ?q d) = ls"
    using compact [OF refl, of f] f s by (auto simp: compactLocked_def Let_def)
  have c3: "memInv ?q x \<and> diskInv x \<and> pendingLines ?q x = ls" if "x = d\<lparr>dk_cursor := Some (itoa (int (eq_offset ?q)))\<rparr>" for x
    using that ci inv(2) cursorVal_itoa_cases [of "eq_offset ?q"] by (auto simp: memInv_def diskInv_def)
  show ?thesis
    using Cons here gone moved c1 p1 c2 c3 by (auto simp: crashAdvanceDisk_def)
qed


lemma linesOf_nonl: "nl \<notin> set w \<Longrightarrow> linesOf w = ([], w)"
  by (induction w) auto

lemma crashAppend_disk:
  assumes inv: "memInv q d" "diskInv d" and nf: "nlFree marshal"
  shows "diskInv (crashAppendDisk f marshal now line n q d) \<and>
    (\<exists>pre post. diskLines (crashAppendDisk f marshal now line n q d) = pre @ pendingLines q d @ post \<and>
       post \<in> {[], [recordFor marshal now line q]})"
proof -
  obtain e d1 where r: "resetCursorBeforeFreshAppendLocked f q d = (e, d1)" by fastforce
  note i = resetCursor_spec [OF inv r]
  have kept: "diskInv d1 \<and> (\<exists>pre. diskLines d1 = pre @ pendingLines q d)"
    using diskLines_behind [of q d1] i by simp
  define w where "w = marshal \<lparr>qe_Seq = eq_seq q + 1, qe_TS = now, qe_Line = line\<rparr>"
  have w: "recordFor marshal now line q = w @ [nl]" "nl \<notin> set w"
    using nf by (simp_all add: recordFor_def w_def nlFree_def)
  show ?thesis
  proof (cases "e = None \<and> n \<noteq> 0")
    case False
    then have "crashAppendDisk f marshal now line n q d = d1"
      using r by (auto simp: crashAppendDisk_def split: option.splits)
    then show ?thesis using kept by fastforce
  next
    case True
    let ?t = "take n (w @ [nl])" and ?s = "fileBytes d1"
    have c: "dk_file d1 = None \<longrightarrow> cursorVal (dk_cursor d1) = 0" using i True by simp
    have al: "aligned ?s (cursorVal (dk_cursor d1))" "aligned ?s (length ?s)"
      using i c by (auto simp: diskInv_def memInv_def)
    have d: "crashAppendDisk f marshal now line n q d = appended ?t d1" using r True w by (simp add: crashAppendDisk_def)
    have l: "linesOf ?t = (if n \<ge> length (w @ [nl]) then ([w @ [nl]], []) else ([], ?t))"
      using linesOf_line [OF w(2)] linesOf_nonl [of "take n w"] w(2) by (auto dest: in_set_takeD)
    have "diskInv (appended ?t d1)" using aligned_append [OF al(1)] by (simp add: diskInv_def fileBytes_def)
    moreover have "diskLines (appended ?t d1) = fst (linesOf (drop (cursorVal (dk_cursor d1)) ?s)) @ fst (linesOf ?t)"
      using linesOf_append [OF linesOf_drop_tail [OF al], of ?t] aligned_le [OF al(1)]
      by (simp add: diskLines_def fileBytes_def)
    moreover have "\<exists>pre. fst (linesOf (drop (cursorVal (dk_cursor d1)) ?s)) = pre @ pendingLines q d"
      using kept c i by (auto simp: diskLines_def pendingLines_def fileBytes_def split: if_splits)
    moreover have "fst (linesOf ?t) \<in> {[], [w @ [nl]]}" unfolding l by simp
    ultimately show ?thesis unfolding d w by (metis append_assoc)
  qed
qed

text \<open>A restart on readable storage succeeds, and it finds everything behind the cursor.\<close>

definition readable :: "qfaults \<Rightarrow> bool" where
  "readable f \<longleftrightarrow> \<not> qf_unreadable f \<and> \<not> qf_markerUnreadable f \<and> \<not> qf_markerLink f \<and> \<not> qf_markerRemove f"

lemma load_succeeds:
  assumes "okFaults f" "readable f" "diskInv d"
  shows "\<not> eq_loadErr (fst (loadLocked f u q d))"
proof -
  obtain e1 q1 d1 where sc: "scanDiskStateLocked f u (zeroed q) d = (e1, q1, d1)" using prod_cases3 by blast
  have ur: "\<not> qf_unreadable f" using assms(2) by (simp add: readable_def)
  from scan_spec [OF assms(1,3) ur _ _ _ sc] have s: "e1 = None" "\<not> eq_loadErr q1" by simp_all
  obtain e2 q2 d2 where l: "loadLimitParkedLocked f q1 d1 = (e2, q2, d2)" using prod_cases3 by blast
  have "e2 = None" using l assms(2)
    by (auto simp: loadLimitParkedLocked_def clearLimitParkedLocked_def readable_def Let_def split: option.splits if_splits)
  moreover have "eq_loadErr q2 = eq_loadErr q1" using same_pairE(4) [OF same_loadLimitParked l [THEN arg_cong [of _ _ snd], simplified]] .
  ultimately show ?thesis using s sc l by (simp add: loadLocked_def)
qed

lemma restart_finds:
  assumes "okFaults f" "readable f" "diskInv d" "newEventQueue f u d = (q', d')"
  shows "\<not> eq_loadErr q' \<and> queueInv (q', d') \<and>
         (\<exists>torn. pendingLines q' d' = diskLines d @ torn \<and> length torn \<le> 1 \<and>
           (torn \<noteq> [] \<longrightarrow> qf_truncate f \<and> snd (linesOf (fileBytes d)) \<noteq> []))"
proof -
  have l: "loadLocked f u emptyQueue d = (q', d')" using assms(4) by (simp add: newEventQueue_def)
  have ne: "\<not> eq_loadErr q'" using load_succeeds [OF assms(1-3), of u emptyQueue] l by simp
  have "pendingLines q' d' = diskLines d @ (if dk_file d = None then [] else tornLine f (fileBytes d))"
    using load_spec [OF assms(1,3) l] ne by (auto simp: diskLines_def pendingLines_def fileBytes_def)
  then show ?thesis using ne load_inv [OF assms(1,3), of u emptyQueue] l
    by (auto simp: tornLine_def)
qed


subsection \<open>All operations, crashes and restarts as one step\<close>

datatype queueOp =
    DoEnqueue gtime string bool bool | DoPeek | DoAdvance eventQueueCursor | DoMark
  | DoRecordStatus eventQueueCursor | DoBackpressure | DoPendingState | DoRestart
  | DoCrashAppend gtime string nat | DoCrashAdvance nat

definition queueStep ::
  "marshalFn \<Rightarrow> unmarshalFn \<Rightarrow> eventQueue \<times> qdisk \<Rightarrow> qfaults \<times> queueOp \<Rightarrow> eventQueue \<times> qdisk" where
  "queueStep marshal u qd fo =
     (let (q, d) = qd; (f, opn) = fo in
      case opn of
        DoEnqueue now line park rec \<Rightarrow> snd (enqueueWithParkedStatus f marshal u now line park rec q d)
      | DoPeek \<Rightarrow> snd (peek f u q d)
      | DoAdvance c \<Rightarrow> snd (advance f u c q d)
      | DoMark \<Rightarrow> snd (markLimitParked f u q d)
      | DoRecordStatus c \<Rightarrow> snd (recordParkedStatus f u c q d)
      | DoBackpressure \<Rightarrow> snd (limitBackpressureState f u q d)
      | DoPendingState \<Rightarrow> snd (pendingState f u q d)
      | DoRestart \<Rightarrow> newEventQueue f u d
      | DoCrashAppend now line n \<Rightarrow>
          newEventQueue f u (if eq_loadErr q then d else crashAppendDisk f marshal now line n q d)
      | DoCrashAdvance k \<Rightarrow>
          newEventQueue f u (if eq_loadErr q then d else crashAdvanceDisk k q d))"

lemma pendingState_snd: "snd (pendingState f u q d) = retryLoadLocked f u q d"
  by (simp add: pendingState_def split_beta)

lemma queueStep_inv:
  assumes nf: "nlFree marshal" and inv: "queueInv qd" and "okFaults (fst fo)"
  shows "queueInv (queueStep marshal u qd fo)"
proof -
  obtain q d where qd: "qd = (q, d)" by fastforce
  obtain f opn where fo: "fo = (f, opn)" by fastforce
  have ok: "okFaults f" using assms(3) by (simp add: fo)
  have di: "diskInv d" and mi: "\<not> eq_loadErr q \<Longrightarrow> memInv q d" using inv by (auto simp: qd queueInv_def)
  have iq: "queueInv (q, d)" using inv qd by simp
  note lo = load_inv [OF ok, of _ u emptyQueue]
  show ?thesis
    using enqueue_inv [OF ok nf iq] peek_inv [OF ok iq] advance_inv [OF iq] mark_inv [OF ok iq]
      recordStatus_inv [OF ok iq] backpressure_inv [OF ok iq] retry_inv [OF ok iq] lo di
      crashAppend_disk [OF mi di nf] crashAdvance_disk [OF mi di]
    by (cases opn) (simp_all add: queueStep_def qd fo newEventQueue_def pendingState_snd)
qed

interpretation queueOps: guarded_ops "queueStep marshal u" "\<lambda>qd. nlFree marshal \<longrightarrow> queueInv qd" "\<lambda>_ fo. okFaults (fst fo)"
  for marshal u
  by unfold_locales (auto intro: queueStep_inv)

end
