(* ===== verification/Queue_Props.thy ===== *)
theory Queue_Props
  imports Queue_Steps
begin

text \<open>
  The properties of the event queue, each with a concrete run that meets its hypotheses.
\<close>

subsection \<open>Runs without faults\<close>

definition noFaults :: qfaults where
  "noFaults = \<lparr>qf_unreadable = False, qf_cursorRead = False, qf_markerUnreadable = False, qf_append = None,
     qf_truncate = False, qf_boundary = False, qf_read = False, qf_cursorLink = False, qf_cursorWrite = False,
     qf_removeFile = False, qf_removeCursor = False, qf_markerLink = False, qf_markerWrite = False,
     qf_markerRemove = False, qf_compact = CompactOk, qf_retryDue = True\<rparr>"

lemma noFaults_ok [simp]:
  "okFaults noFaults" "readable noFaults" "appendable noFaults" "\<not> qf_read noFaults" "qf_append noFaults = None"
  by (simp_all add: noFaults_def okFaults_def readable_def appendable_def)

text \<open>Enqueueing a batch of parked lines, and draining the queue by peek and advance.\<close>

fun enqueueAll :: "marshalFn \<Rightarrow> unmarshalFn \<Rightarrow> gtime \<Rightarrow> string list \<Rightarrow> eventQueue \<times> qdisk \<Rightarrow> eventQueue \<times> qdisk" where
  "enqueueAll marshal u now [] qd = qd"
| "enqueueAll marshal u now (l # ls) qd =
     enqueueAll marshal u now ls (snd (enqueueWithParkedStatus noFaults marshal u now l True False (fst qd) (snd qd)))"

fun drain :: "nat \<Rightarrow> unmarshalFn \<Rightarrow> eventQueue \<times> qdisk \<Rightarrow> queuedEvent list \<times> eventQueue \<times> qdisk" where
  "drain 0 u qd = ([], qd)"
| "drain (Suc n) u qd =
     (case peek noFaults u (fst qd) (snd qd) of
        (Inr (Some (ev, c)), q1, d1) \<Rightarrow>
          (let (evs, qd') = drain n u (snd (advance noFaults u c q1 d1)) in (ev # evs, qd'))
      | (_, q1, d1) \<Rightarrow> ([], q1, d1))"

fun numbered :: "int \<Rightarrow> gtime \<Rightarrow> string list \<Rightarrow> queuedEvent list" where
  "numbered s now [] = []"
| "numbered s now (l # ls) = \<lparr>qe_Seq = s + 1, qe_TS = now, qe_Line = l\<rparr> # numbered (s + 1) now ls"

lemma numbered_lines [simp]: "map qe_Line (numbered s now ls) = ls"
  by (induction ls arbitrary: s) auto

lemma numbered_seqs: "e \<in> set (numbered s now ls) \<Longrightarrow> s < qe_Seq e"
  by (induction ls arbitrary: s) force+

lemma numbered_sorted: "sorted_wrt (<) (map qe_Seq (numbered s now ls))"
  by (induction ls arbitrary: s) (auto dest: numbered_seqs)

lemma numbered_length [simp]: "length (numbered s now ls) = length ls"
  by (induction ls arbitrary: s) auto

lemma enqueue_parked_retained:
  assumes inv: "queueInv (q, d)" "\<not> eq_loadErr q" and nf: "nlFree marshal"
    and e: "enqueueWithParkedStatus noFaults marshal u now line True False q d = (r, q', d')"
  shows "queueInv (q', d') \<and> \<not> eq_loadErr q' \<and> eq_seq q' = eq_seq q + 1 \<and>
         pendingLines q' d' = pendingLines q d @ [recordFor marshal now line q]"
proof -
  obtain ret errs where r: "r = (ret, errs)" by fastforce
  have "memInv q d" "diskInv d" using inv by (simp_all add: queueInv_def)
  from enqueue_spec [OF noFaults_ok(1) this inv(2) nf e [unfolded r]] show ?thesis
    by (auto simp: queueInv_def enqueueEffect_def appendEffect_def protectedFor_def Let_def)
qed

lemma enqueueAll_lines:
  assumes "queueInv (q, d)" "\<not> eq_loadErr q" and nf: "nlFree marshal"
  shows "case enqueueAll marshal u now lines (q, d) of (q', d') \<Rightarrow> queueInv (q', d') \<and> \<not> eq_loadErr q' \<and>
     pendingLines q' d' = pendingLines q d @ map (\<lambda>e. marshal e @ [nl]) (numbered (eq_seq q) now lines)"
  using assms(1,2)
proof (induction lines arbitrary: q d)
  case (Cons l ls)
  obtain r q1 d1 where e: "enqueueWithParkedStatus noFaults marshal u now l True False q d = (r, q1, d1)"
    using prod_cases3 by blast
  note i = enqueue_parked_retained [OF Cons.prems nf e]
  from Cons.IH [of q1 d1] i show ?case by (simp add: e recordFor_def)
qed simp

lemma drain_lines:
  assumes "queueInv (q, d)" "\<not> eq_loadErr q" and "pendingLines q d = map (\<lambda>e. marshal e @ [nl]) evs"
    and "\<forall>e\<in>set evs. u (marshal e @ [nl]) = Some e"
  shows "case drain (length evs) u (q, d) of (out, q', d') \<Rightarrow> out = evs \<and> pendingLines q' d' = []"
  using assms
proof (induction evs arbitrary: q d)
  case (Cons e es)
  have i: "memInv q d" "diskInv d" using Cons.prems(1,2) by (simp_all add: queueInv_def)
  let ?l = "marshal e @ [nl]" and ?ls = "map (\<lambda>e. marshal e @ [nl]) es"
  have pl: "pendingLines q d = ?l # ?ls" and u: "u ?l = Some e" using Cons.prems by simp_all
  let ?c = "\<lparr>cu_offset = eq_offset q, cu_length = length ?l, cu_seq = qe_Seq e\<rparr>"
  have pk: "peek noFaults u q d = (Inr (Some (e, ?c)), q, d)"
    using Cons.prems(2) by (simp add: peek_def peekLoop_head [OF i(1) pl] u)
  obtain x q1 d1 where ad: "advance noFaults u ?c q d = (x, q1, d1)" using prod_cases3 by blast
  have "names u ?c q (pendingLines q d)" using pl u by (simp add: names_def)
  from advance_named [OF i Cons.prems(2) this _ ad] pl
  have "queueInv (q1, d1)" "\<not> eq_loadErr q1" "pendingLines q1 d1 = ?ls" by (simp_all add: queueInv_def)
  from Cons.IH [OF this] Cons.prems(4) pk ad show ?case by (auto simp: Let_def split_beta)
qed simp

subsection \<open>Concrete runs\<close>

text \<open>A wire format for the concrete runs: the sequence number, a colon and the line.\<close>

definition plainMarshal :: marshalFn where
  "plainMarshal e = itoa (qe_Seq e) @ '':'' @ filter (\<lambda>c. c \<noteq> nl) (qe_Line e)"

definition plainUnmarshal :: unmarshalFn where
  "plainUnmarshal raw =
     (case (Atoi (takeWhile (\<lambda>c. c \<noteq> CHR '':'') raw), dropWhile (\<lambda>c. c \<noteq> CHR '':'') raw) of
        (Some n, _ # rest) \<Rightarrow> Some \<lparr>qe_Seq = n, qe_TS = 0, qe_Line = filter (\<lambda>c. c \<noteq> nl) rest\<rparr>
      | _ \<Rightarrow> None)"

definition emptyDisk :: qdisk where
  "emptyDisk = \<lparr>dk_file = None, dk_cursor = None, dk_marker = None\<rparr>"

lemma natDigits_no_nl: "nl \<notin> set (natDigits n)"
  using natDigits_digits [of n] by (auto simp: list_all_iff isDigit_def)

lemma plain_nlFree: "nlFree plainMarshal"
  using natDigits_no_nl by (auto simp: nlFree_def plainMarshal_def itoa_def)

lemma cursor_8: "cursorOffset noFaults (Some ''8'') 4 = 0" "cursorOffset noFaults (Some ''8'') 8 = 8"
  by code_simp+

lemma plain_1a: "plainUnmarshal (''1:a'' @ [nl]) = Some \<lparr>qe_Seq = 1, qe_TS = 0, qe_Line = ''a''\<rparr>"
  by code_simp

lemma plain_2b: "plainMarshal \<lparr>qe_Seq = 2, qe_TS = 0, qe_Line = ''b''\<rparr> = ''2:b''"
  by code_simp

definition oneDisk :: qdisk where
  "oneDisk = \<lparr>dk_file = Some (''1:a'' @ [nl]), dk_cursor = None, dk_marker = None\<rparr>"

definition oneQueue :: eventQueue where
  "oneQueue = emptyQueue\<lparr>eq_size := 4, eq_pending := 1, eq_seq := 1\<rparr>"

lemma oneQueue_lines: "pendingLines oneQueue oneDisk = [''1:a'' @ [nl]]"
  by code_simp

lemma oneQueue_cursor: "cursorVal (dk_cursor oneDisk) = eq_offset oneQueue"
  by code_simp

lemma oneQueue_ok: "queueInv (oneQueue, oneDisk)" "\<not> eq_loadErr oneQueue"
  using oneQueue_lines oneQueue_cursor
  by (simp_all add: queueInv_def memInv_def diskInv_def oneDisk_def oneQueue_def emptyQueue_def fileBytes_def aligned_def)

subsection \<open>Properties\<close>

text \<open>
  The two faults outside \<open>okFaults\<close> on concrete runs. A torn record that can be neither cut off nor ended with a
  newline leaves a file longer than the size in memory; a load that cannot read the cursor starts behind it.
\<close>

definition tornForGood :: qfaults where
  "tornForGood = noFaults\<lparr>qf_append := Some 2, qf_truncate := True, qf_boundary := True\<rparr>"

definition blindCursor :: qfaults where
  "blindCursor = noFaults\<lparr>qf_cursorRead := True\<rparr>"

definition deliveredDisk :: qdisk where
  "deliveredDisk = oneDisk\<lparr>dk_cursor := Some ''4''\<rparr>"

lemma torn_for_good_breaks:
  "\<not> queueInv (queueStep plainMarshal plainUnmarshal (emptyQueue, emptyDisk) (tornForGood, DoEnqueue 0 ''a'' False False))"
  by code_simp

lemma blind_cursor_breaks:
  "diskInv deliveredDisk" "\<not> queueInv (newEventQueue blindCursor plainUnmarshal deliveredDisk)"
  by code_simp+

text \<open>C4. The queue stays consistent: from any load of a consistent disk, through every sequence of
  operations, crashes and restarts, and every fault of the storage but two, a loaded queue knows its file's
  size, stands on a record boundary, counts exactly the lines behind it, and no cursor on disk is ahead of it.
  The two faults left out (\<open>okFaults\<close>) are a torn record whose truncate and whose boundary newline both
  fail, and a cursor file that a load cannot read.
\<close>
theorem queue_consistent:
  assumes "nlFree marshal" and "diskInv d" and "okFaults f" and "list_all (\<lambda>(f', opn). okFaults f') ops"
  shows "queueInv (run_ops (queueStep marshal unmarshal) (newEventQueue f unmarshal d) ops)"
proof -
  have "queueInv (newEventQueue f unmarshal d)" using load_inv [OF assms(3,2)] by (simp add: newEventQueue_def)
  moreover have "run_ok (queueStep marshal unmarshal) (\<lambda>_ fo. okFaults (fst fo)) (newEventQueue f unmarshal d) ops"
    using assms(4) by (simp add: run_ok_stateless case_prod_unfold)
  ultimately show ?thesis
    using queueOps.inv_run_ok [of marshal "newEventQueue f unmarshal d" unmarshal ops] assms(1) by simp
qed

text \<open>A short write that the truncate cannot undo, a crash in the middle of an append, and a restart.\<close>

theorem queue_consistent_witness:
  "queueInv (run_ops (queueStep plainMarshal plainUnmarshal) (newEventQueue noFaults plainUnmarshal emptyDisk)
     [(noFaults, DoEnqueue 0 ''a'' False False),
      (noFaults\<lparr>qf_append := Some 2, qf_truncate := True\<rparr>, DoEnqueue 0 ''b'' False False),
      (noFaults, DoCrashAppend 0 ''b'' 2), (noFaults\<lparr>qf_cursorWrite := True\<rparr>, DoPeek), (noFaults, DoRestart)])"
  by (rule queue_consistent [OF plain_nlFree]) (simp_all add: diskInv_def emptyDisk_def noFaults_def okFaults_def)

text \<open>C5. At least once: a restart on readable storage succeeds and finds every undelivered line in
  order, after a crash in the middle of an append too; after a crash at any point of an advance it
  finds every line but possibly the delivered head. With the cursor on disk nothing is repeated.
\<close>
theorem crash_never_loses:
  assumes "queueInv (q, d)" "\<not> eq_loadErr q" "nlFree marshal" "okFaults f" "readable f"
  shows "(case newEventQueue f unmarshal (crashAppendDisk fa marshal now line n q d) of (q', d') \<Rightarrow>
            \<not> eq_loadErr q' \<and> (\<exists>pre post. pendingLines q' d' = pre @ pendingLines q d @ post)) \<and>
         (case newEventQueue f unmarshal (crashAdvanceDisk k q d) of (q', d') \<Rightarrow>
            \<not> eq_loadErr q' \<and> (\<exists>pre post. pendingLines q' d' = pre @ tl (pendingLines q d) @ post)) \<and>
         (case newEventQueue f unmarshal d of (q', d') \<Rightarrow>
            \<not> eq_loadErr q' \<and> (\<exists>pre. pendingLines q' d' = pre @ pendingLines q d \<and>
              (cursorVal (dk_cursor d) = eq_offset q \<longrightarrow> pre = [])))"
proof -
  have i: "memInv q d" "diskInv d" using assms(1,2) by (simp_all add: queueInv_def)
  have found: "\<not> eq_loadErr (fst (newEventQueue f unmarshal x)) \<and>
      (\<exists>torn. pendingLines (fst (newEventQueue f unmarshal x)) (snd (newEventQueue f unmarshal x)) = diskLines x @ torn \<and>
        (snd (linesOf (fileBytes x)) = [] \<longrightarrow> torn = []))" if "diskInv x" for x
    using restart_finds [OF assms(4,5) that, of unmarshal "fst (newEventQueue f unmarshal x)" "snd (newEventQueue f unmarshal x)"]
    by auto
  have "snd (linesOf (fileBytes d)) = []" using i(1) by (simp add: memInv_def aligned_length)
  moreover have "cursorVal (dk_cursor d) = eq_offset q \<Longrightarrow> diskLines d = pendingLines q d"
    by (simp add: diskLines_def pendingLines_def fileBytes_def)
  ultimately have "case newEventQueue f unmarshal d of (q', d') \<Rightarrow>
      \<not> eq_loadErr q' \<and> (\<exists>pre. pendingLines q' d' = pre @ pendingLines q d \<and>
        (cursorVal (dk_cursor d) = eq_offset q \<longrightarrow> pre = []))"
    using found [OF i(2)] diskLines_behind [OF i] by (force simp: split_beta)
  moreover obtain p1 s1 where "diskInv (crashAppendDisk fa marshal now line n q d)"
      "diskLines (crashAppendDisk fa marshal now line n q d) = p1 @ pendingLines q d @ s1"
    using crashAppend_disk [OF i assms(3)] by blast
  moreover obtain p2 where "diskInv (crashAdvanceDisk k q d)"
      "diskLines (crashAdvanceDisk k q d) = p2 @ tl (pendingLines q d)"
    using crashAdvance_disk [OF i] by blast
  ultimately show ?thesis
    using found [of "crashAppendDisk fa marshal now line n q d"] found [of "crashAdvanceDisk k q d"]
    by (auto simp: split_beta)
qed

theorem crash_never_loses_witness:
  "(case newEventQueue noFaults plainUnmarshal (crashAppendDisk noFaults plainMarshal 0 ''b'' 2 oneQueue oneDisk)
      of (q', d') \<Rightarrow> \<not> eq_loadErr q' \<and> (\<exists>pre post. pendingLines q' d' = pre @ [''1:a'' @ [nl]] @ post)) \<and>
   (case newEventQueue noFaults plainUnmarshal oneDisk of (q', d') \<Rightarrow> pendingLines q' d' = [''1:a'' @ [nl]])"
  using crash_never_loses [OF oneQueue_ok plain_nlFree noFaults_ok(1,2), where unmarshal = plainUnmarshal
      and fa = noFaults and now = 0 and line = "''b''" and n = 2]
    oneQueue_lines oneQueue_cursor by (auto simp: split_beta)

text \<open>C28. What an enqueue does to the backlog: a retained event is at its end, in front of it at most
  the oldest lines are gone, none while the backlog is protected by a usage limit, and only when a
  cap was exceeded; afterwards a readable, unprotected backlog is within the caps, the newest event
  excepted. An event that is not retained leaves every line in place. Working storage retains it.
\<close>
theorem enqueue_keeps_newest:
  assumes "queueInv (q, d)" "\<not> eq_loadErr q" "nlFree marshal" "okFaults f"
    and "enqueueWithParkedStatus f marshal unmarshal now line park statusRecorded q d = ((retained, errs), q', d')"
    and "old = pendingLines q d" and "new = pendingLines q' d'"
    and "limited \<longleftrightarrow> park \<or> (eq_pending q > 0 \<and> (eq_limitParked q \<or> eq_limitParkedErr q))"
  shows "(retained \<longrightarrow> (\<exists>k. k \<le> length old \<and> new = drop k (old @ [recordFor marshal now line q]) \<and>
            (k > 0 \<longrightarrow> \<not> limited \<and> (length old \<ge> watcherQueueMaxEvents \<or>
                length (concat old) + length (recordFor marshal now line q) > watcherQueueMaxBytes)))) \<and>
         (retained \<and> \<not> limited \<and> \<not> qf_read f \<and> (\<forall>l\<in>set (old @ [recordFor marshal now line q]). unmarshal l \<noteq> None) \<longrightarrow>
            (length new \<le> watcherQueueMaxEvents \<and> length (concat new) \<le> watcherQueueMaxBytes) \<or> length new \<le> 1) \<and>
         (\<not> retained \<longrightarrow> (\<exists>torn. new = old @ torn)) \<and>
         (appendable f \<longrightarrow> retained)"
proof -
  have "memInv q d" "diskInv d" using assms(1,2) by (simp_all add: queueInv_def)
  from enqueue_spec [OF assms(4) this assms(2,3,5)]
  have e: "enqueueEffect f marshal unmarshal now line park (q, d) retained (q', d')" "appendable f \<longrightarrow> retained"
    by simp_all
  have p: "protectedFor park q = limited" using assms(8) by (simp add: protectedFor_def)
  show ?thesis
    using e unfolding enqueueEffect_def appendEffect_def Let_def fst_conv snd_conv p assms(6,7) [symmetric]
    by (auto split: if_splits)
qed

theorem enqueue_keeps_newest_witness:
  "fst (fst (enqueueWithParkedStatus noFaults plainMarshal plainUnmarshal 0 ''b'' True False oneQueue oneDisk))"
proof -
  obtain ret errs q' d' where e: "enqueueWithParkedStatus noFaults plainMarshal plainUnmarshal 0 ''b'' True False
      oneQueue oneDisk = ((ret, errs), q', d')" by (metis surj_pair)
  show ?thesis
    using enqueue_keeps_newest [OF oneQueue_ok plain_nlFree noFaults_ok(1) e refl refl refl] e by simp
qed

text \<open>Delivery is exact: an event that peek returns is the oldest readable line, only unreadable
  lines in front of it are skipped, and advancing with its cursor consumes exactly that line;
  advancing with a cursor that no longer names the head changes nothing.
\<close>
theorem peek_then_advance:
  assumes "queueInv (q, d)" "\<not> eq_loadErr q"
    and "peek f unmarshal q d = (Inr (Some (ev, c)), q1, d1)"
    and "advance f unmarshal c' q1 d1 = (res, q2, d2)"
  shows "(\<exists>bad l rest. pendingLines q d = bad @ l # rest \<and> (\<forall>b\<in>set bad. unmarshal b = None) \<and>
            unmarshal l = Some ev \<and> pendingLines q1 d1 = l # rest \<and>
            (c' = c \<longrightarrow> pendingLines q2 d2 = rest \<and> res \<noteq> Inr False) \<and>
            (cu_offset c' \<noteq> cu_offset c \<or> cu_length c' \<noteq> cu_length c \<or> cu_seq c' \<noteq> cu_seq c \<longrightarrow>
               q2 = q1 \<and> d2 = d1 \<and> res \<noteq> Inr True))"
proof -
  have i: "memInv q d" "diskInv d" using assms(1,2) by (simp_all add: queueInv_def)
  have pk: "peekLoop f unmarshal q d = (Inr (Some (ev, c)), q1, d1)" using assms(2,3) by (simp add: peek_def)
  note s = peekLoop_spec [OF i assms(2) pk]
  obtain k l rest where k: "pendingLines q1 d1 = drop k (pendingLines q d)"
      "\<forall>b\<in>set (take k (pendingLines q d)). unmarshal b = None" "pendingLines q1 d1 = l # rest"
      "unmarshal l = Some ev" "c = \<lparr>cu_offset = eq_offset q1, cu_length = length l, cu_seq = qe_Seq ev\<rparr>"
    using s by (cases "pendingLines q1 d1") (auto simp: peekEffect_def peekResult_def)
  have rd: "\<not> qf_read f"
    using pk by (subst (asm) peekLoop.simps) (auto simp: readEventAtLocked_def split: if_splits)
  have i1: "memInv q1 d1" "diskInv d1" "\<not> eq_loadErr q1" using s by simp_all
  have split: "pendingLines q d = take k (pendingLines q d) @ l # rest" using k(1,3) by (metis append_take_drop_id)
  have "names unmarshal c q1 (pendingLines q1 d1)" using k(4,5) unfolding k(3) by (simp add: names_def)
  then have a: "c' = c \<longrightarrow> pendingLines q2 d2 = rest \<and> res \<noteq> Inr False"
    using advance_named [OF i1 _ rd] assms(4) k(3) by fastforce
  have b: "q2 = q1 \<and> d2 = d1 \<and> res \<noteq> Inr True"
    if "cu_offset c' \<noteq> cu_offset c \<or> cu_length c' \<noteq> cu_length c \<or> cu_seq c' \<noteq> cu_seq c"
  proof -
    have "\<not> names unmarshal c' q1 (pendingLines q1 d1)" using that k(4,5) unfolding k(3) by (auto simp: names_def)
    then show ?thesis using advance_unnamed [OF i1(1,3) _ assms(4)] by blast
  qed
  show ?thesis using split k a b by blast
qed

theorem peek_then_advance_witness:
  "\<exists>q2 d2 res. advance noFaults plainUnmarshal \<lparr>cu_offset = 0, cu_length = 4, cu_seq = 1\<rparr> oneQueue oneDisk = (res, q2, d2) \<and>
     pendingLines q2 d2 = []"
proof -
  have p: "peek noFaults plainUnmarshal oneQueue oneDisk =
      (Inr (Some (\<lparr>qe_Seq = 1, qe_TS = 0, qe_Line = ''a''\<rparr>, \<lparr>cu_offset = 0, cu_length = 4, cu_seq = 1\<rparr>)), oneQueue, oneDisk)"
    by code_simp
  obtain res q2 d2 where a: "advance noFaults plainUnmarshal \<lparr>cu_offset = 0, cu_length = 4, cu_seq = 1\<rparr>
      oneQueue oneDisk = (res, q2, d2)" using prod_cases3 by blast
  show ?thesis using peek_then_advance [OF oneQueue_ok p a] a oneQueue_lines by auto
qed

text \<open>C29. Store and deliver: on working storage, lines parked one after the other on an empty queue
  come out in the same order, with strictly increasing sequence numbers, and leave it empty.
\<close>
theorem fifo_roundtrip:
  assumes "queueInv (q, d)" "\<not> eq_loadErr q" "pendingLines q d = []" and "nlFree marshal"
    and "\<forall>e\<in>set (numbered (eq_seq q) now lines). unmarshal (marshal e @ [nl]) = Some e"
  shows "case drain (length lines) unmarshal (enqueueAll marshal unmarshal now lines (q, d)) of
     (evs, q', d') \<Rightarrow>
       map qe_Line evs = lines \<and> sorted_wrt (<) (map qe_Seq evs) \<and> pendingLines q' d' = []"
proof -
  obtain q1 d1 where e: "enqueueAll marshal unmarshal now lines (q, d) = (q1, d1)" by fastforce
  let ?evs = "numbered (eq_seq q) now lines"
  have i: "queueInv (q1, d1)" "\<not> eq_loadErr q1" "pendingLines q1 d1 = map (\<lambda>e. marshal e @ [nl]) ?evs"
    using enqueueAll_lines [OF assms(1,2,4), where u = unmarshal and now = now and lines = lines] e assms(3) by simp_all
  from drain_lines [OF i assms(5)] show ?thesis
    using numbered_sorted [of "eq_seq q" now lines] by (auto simp: e)
qed

theorem fifo_roundtrip_witness:
  "map qe_Line (fst (drain 2 plainUnmarshal (enqueueAll plainMarshal plainUnmarshal 0 [''a'', ''b''] (emptyQueue, emptyDisk)))) =
     [''a'', ''b'']"
proof -
  have i: "queueInv (emptyQueue, emptyDisk)" "\<not> eq_loadErr emptyQueue" "pendingLines emptyQueue emptyDisk = []"
    by (simp_all add: queueInv_def memInv_def diskInv_def emptyQueue_def emptyDisk_def fileBytes_def pendingLines_def)
  have "\<forall>e\<in>set (numbered (eq_seq emptyQueue) 0 [''a'', ''b'']). plainUnmarshal (plainMarshal e @ [nl]) = Some e"
    by code_simp
  from fifo_roundtrip [OF i plain_nlFree this] show ?thesis by (simp add: split_beta numeral_2_eq_2)
qed

text \<open>Unknown is not empty: while the storage cannot be read, every operation that would consume,
  append or mark refuses with an error, the queue stays unknown and the disk is not touched.
\<close>
theorem unreadable_refuses:
  assumes "eq_loadErr q" and "qf_unreadable f"
  shows "(case enqueueWithParkedStatus f marshal unmarshal now line park statusRecorded q d of ((retained, errs), q', d') \<Rightarrow>
            \<not> retained \<and> errs = [ErrQueueLoadFailed] \<and> eq_loadErr q' \<and> d' = d) \<and>
         (case peek f unmarshal q d of (r, q', d') \<Rightarrow> r = Inl ErrQueueLoadFailed \<and> eq_loadErr q' \<and> d' = d) \<and>
         advance f unmarshal c q d = (Inl ErrQueueLoadFailed, q, d) \<and>
         (case markLimitParked f unmarshal q d of (r, q', d') \<Rightarrow> r = Some ErrQueueLoadFailed \<and> eq_loadErr q' \<and> d' = d) \<and>
         (case recordParkedStatus f unmarshal c q d of (r, q', d') \<Rightarrow> r = Inl ErrQueueLoadFailed \<and> eq_loadErr q' \<and> d' = d) \<and>
         fst (limitBackpressureState f unmarshal q d) = (True, True) \<and>
         snd (fst (pendingState f unmarshal q d))"
  using assms
  by (simp add: enqueueWithParkedStatus_def peek_def advance_def markLimitParked_def recordParkedStatus_def
      limitBackpressureState_def pendingState_def retryLoadNowLocked_def retryLoadLocked_def load_unreadable)

theorem unreadable_refuses_witness:
  "advance (noFaults\<lparr>qf_unreadable := True\<rparr>) plainUnmarshal \<lparr>cu_offset = 0, cu_length = 4, cu_seq = 1\<rparr>
     (oneQueue\<lparr>eq_loadErr := True\<rparr>) oneDisk = (Inl ErrQueueLoadFailed, oneQueue\<lparr>eq_loadErr := True\<rparr>, oneDisk)"
  using unreadable_refuses [of "oneQueue\<lparr>eq_loadErr := True\<rparr>" "noFaults\<lparr>qf_unreadable := True\<rparr>"] by simp

subsection \<open>A cursor behind the end of the file\<close>

text \<open>
  A cursor file that points behind the end of the queue file is read as \<open>0\<close> but left on disk: after
  two appends the same cursor is in range, and the next restart skips events nobody delivered.
\<close>
theorem stale_cursor_revives:
  "let d0 = \<lparr>dk_file = Some (''1:a'' @ [nl]), dk_cursor = Some ''8'', dk_marker = None\<rparr>;
       (q1, d1) = newEventQueue noFaults plainUnmarshal d0;
       (_, q2, d2) = enqueueWithParkedStatus noFaults plainMarshal plainUnmarshal 0 ''b'' False False q1 d1;
       (q3, d3) = newEventQueue noFaults plainUnmarshal d2
   in eq_pending q1 = 1 \<and> eq_pending q2 = 2 \<and> eq_pending q3 = 0 \<and> d3 = d2"
proof -
  let ?d0 = "\<lparr>dk_file = Some (''1:a'' @ [nl]), dk_cursor = Some ''8'', dk_marker = None\<rparr>"
  let ?q1 = "emptyQueue\<lparr>eq_size := 4, eq_pending := 1, eq_seq := 1\<rparr>"
  let ?d2 = "?d0\<lparr>dk_file := Some (''1:a'' @ [nl] @ ''2:b'' @ [nl])\<rparr>"
  let ?q2 = "emptyQueue\<lparr>eq_size := 8, eq_pending := 2, eq_seq := 2\<rparr>"
  have l: "newEventQueue noFaults plainUnmarshal ?d0 = (?q1, ?d0)" by code_simp
  have a: "enqueueWithParkedStatus noFaults plainMarshal plainUnmarshal 0 ''b'' False False ?q1 ?d0 =
      ((True, []), ?q2, ?d2)"
    by (simp add: enqueueWithParkedStatus_def resetCursorBeforeFreshAppendLocked_def appendEventLocked_def plain_2b
        enforceCapsLocked_def dropOldestOverCapsLocked_def limitProtectedLocked_def emptyQueue_def
        dropLoop.simps watcherQueueMaxEvents_def watcherQueueMaxBytes_def)
  have r: "newEventQueue noFaults plainUnmarshal ?d2 = (emptyQueue\<lparr>eq_offset := 8, eq_size := 8\<rparr>, ?d2)"
    by code_simp
  show ?thesis by (simp only: Let_def l a r prod.case) (simp add: emptyQueue_def)
qed

end
