(* ===== verification/Frame_Codec.thy ===== *)
theory Frame_Codec
  imports Go_Strings
begin

text \<open>
  The binary frames of the PTY stream, \<^verbatim>\<open>src/agentproto/frame.go\<close>: opcodes, the frame record, its
  constructors, \<^verbatim>\<open>Encode\<close> and \<^verbatim>\<open>DecodeFrame\<close>. A byte is an \<^typ>\<open>8 word\<close>; Go's
  \<^verbatim>\<open>binary.BigEndian\<close> accessors are written out on words. \<open>frameCodec\<close> interprets the contract of
  an encoder and its decoder on the two functions.
\<close>

unbundle bit_operations_syntax

type_synonym gbyte = "8 word"
type_synonym Opcode = gbyte

definition OpPTYOut :: Opcode where "OpPTYOut = 0x00"

definition OpInput :: Opcode where "OpInput = 0x01"

definition OpResize :: Opcode where "OpResize = 0x02"

definition OpRepaint :: Opcode where "OpRepaint = 0x03"

definition OpHello :: Opcode where "OpHello = 0x04"

lemmas opcode_defs = OpPTYOut_def OpInput_def OpResize_def OpRepaint_def OpHello_def

definition resizePayloadLen :: nat where "resizePayloadLen = 4"

definition helloPayloadLen :: nat where "helloPayloadLen = 8"

definition hexDigit :: "nat \<Rightarrow> char" where
  "hexDigit n = (if n < 10 then byte (48 + n) else byte (87 + n))"

definition Opcode_String :: "Opcode \<Rightarrow> string" where
  "Opcode_String o' =
     (if o' = OpPTYOut then ''PTY_OUT''
      else if o' = OpInput then ''INPUT''
      else if o' = OpResize then ''RESIZE''
      else if o' = OpRepaint then ''REPAINT''
      else if o' = OpHello then ''HELLO''
      else ''Opcode(0x'' @ [hexDigit (unat o' div 16), hexDigit (unat o' mod 16)] @ '')'')"

record Frame =
  fr_Op :: Opcode
  fr_Data :: "gbyte list"
  fr_Rows :: "16 word"
  fr_Cols :: "16 word"
  fr_Seq :: "64 word"

definition emptyFrame :: Frame where
  "emptyFrame = \<lparr>fr_Op = 0, fr_Data = [], fr_Rows = 0, fr_Cols = 0, fr_Seq = 0\<rparr>"

definition PTYOutFrame :: "gbyte list \<Rightarrow> Frame" where
  "PTYOutFrame b = emptyFrame\<lparr>fr_Op := OpPTYOut, fr_Data := b\<rparr>"

definition HelloFrame :: "64 word \<Rightarrow> Frame" where
  "HelloFrame seq = emptyFrame\<lparr>fr_Op := OpHello, fr_Seq := seq\<rparr>"

definition RepaintFrame :: "gbyte list \<Rightarrow> Frame" where
  "RepaintFrame b = emptyFrame\<lparr>fr_Op := OpRepaint, fr_Data := b\<rparr>"

definition InputFrame :: "gbyte list \<Rightarrow> Frame" where
  "InputFrame b = emptyFrame\<lparr>fr_Op := OpInput, fr_Data := b\<rparr>"

definition ResizeFrame :: "16 word \<Rightarrow> 16 word \<Rightarrow> Frame" where
  "ResizeFrame rows cols = emptyFrame\<lparr>fr_Op := OpResize, fr_Rows := rows, fr_Cols := cols\<rparr>"

text \<open>\<^verbatim>\<open>binary.BigEndian\<close>: the most significant byte first.\<close>

definition PutUint16 :: "16 word \<Rightarrow> gbyte list" where
  "PutUint16 v = [ucast (drop_bit 8 v), ucast v]"

definition Uint16 :: "gbyte list \<Rightarrow> 16 word" where
  "Uint16 b = ucast (b ! 1) OR push_bit 8 (ucast (b ! 0))"

definition PutUint64 :: "64 word \<Rightarrow> gbyte list" where
  "PutUint64 v = map (\<lambda>i. ucast (drop_bit (56 - 8 * i) v)) [0..<8]"

definition Uint64 :: "gbyte list \<Rightarrow> 64 word" where
  "Uint64 b = foldl (\<lambda>acc x. push_bit 8 acc OR ucast x) 0 (take 8 b)"

definition Encode :: "Frame \<Rightarrow> gbyte list" where
  "Encode f =
     (if fr_Op f = OpResize then OpResize # PutUint16 (fr_Rows f) @ PutUint16 (fr_Cols f)
      else if fr_Op f = OpHello then OpHello # PutUint64 (fr_Seq f)
      else fr_Op f # fr_Data f)"

datatype frameError = ErrEmptyFrame | ErrResizeBody nat | ErrHelloBody nat | ErrUnknownOpcode gbyte

definition DecodeFrame :: "gbyte list \<Rightarrow> frameError + Frame" where
  "DecodeFrame raw =
     (case raw of
        [] \<Rightarrow> Inl ErrEmptyFrame
      | op # body \<Rightarrow>
          (if op = OpPTYOut \<or> op = OpInput \<or> op = OpRepaint
           then Inr (emptyFrame\<lparr>fr_Op := op, fr_Data := body\<rparr>)
           else if op = OpResize then
             (if length body \<noteq> resizePayloadLen then Inl (ErrResizeBody (length body))
              else Inr (emptyFrame\<lparr>fr_Op := OpResize, fr_Rows := Uint16 (take 2 body),
                          fr_Cols := Uint16 (take 2 (drop 2 body))\<rparr>))
           else if op = OpHello then
             (if length body \<noteq> helloPayloadLen then Inl (ErrHelloBody (length body))
              else Inr (emptyFrame\<lparr>fr_Op := OpHello, fr_Seq := Uint64 (take 8 body)\<rparr>))
           else Inl (ErrUnknownOpcode op)))"

subsection \<open>Laws\<close>

text \<open>The frames the constructors build: a known opcode and only that opcode's fields.\<close>

definition wfFrame :: "Frame \<Rightarrow> bool" where
  "wfFrame f \<longleftrightarrow>
     (\<exists>b. f = PTYOutFrame b) \<or> (\<exists>b. f = InputFrame b) \<or> (\<exists>b. f = RepaintFrame b) \<or>
     (\<exists>r c. f = ResizeFrame r c) \<or> (\<exists>s. f = HelloFrame s)"

lemmas frame_defs = PTYOutFrame_def InputFrame_def RepaintFrame_def ResizeFrame_def HelloFrame_def emptyFrame_def

lemma PutUint16_length [simp]: "length (PutUint16 v) = 2"
  by (simp add: PutUint16_def)

lemma PutUint64_length [simp]: "length (PutUint64 v) = 8"
  by (simp add: PutUint64_def)

lemma Uint16_Put: "Uint16 (PutUint16 v) = v"
  by (rule bit_word_eqI) (auto simp: Uint16_def PutUint16_def bit_simps)

lemma byte_bit_False [simp]: "\<not> bit (w :: gbyte) (8 + n)"
  by (auto dest: bit_imp_le_length)

lemma Put_Uint16: "length b = 2 \<Longrightarrow> PutUint16 (Uint16 b) = b"
  by (auto simp: Uint16_def PutUint16_def length_Suc_conv numeral_2_eq_2 bit_simps intro!: bit_word_eqI)

text \<open>The bits of a big-endian number, eight at a time.\<close>

lemma bit_bigEndian:
  "bit (foldl (\<lambda>acc x. push_bit 8 acc OR ucast (x :: gbyte)) (a :: 64 word) bs) n \<longleftrightarrow>
     n < 64 \<and> (if n < 8 * length bs then bit (bs ! (length bs - 1 - n div 8)) (n mod 8)
               else bit a (n - 8 * length bs))"
proof (induction bs arbitrary: a)
  case Nil
  then show ?case by (auto dest: bit_imp_le_length)
next
  case (Cons x xs)
  let ?a = "push_bit 8 a OR ucast x :: 64 word"
  have a: "bit ?a m \<longleftrightarrow> m < 64 \<and> (if m < 8 then bit x m else bit a (m - 8))" for m
    by (cases "m < 8") (auto simp: bit_simps dest: bit_imp_le_length)
  consider (low) "n < 8 * length xs" | (mid) r where "n = 8 * length xs + r" "r < 8"
    | (high) r where "n = 8 * length xs + 8 + r"
    by (metis add.assoc le_Suc_ex not_less)
  then show ?case
  proof cases
    case low
    then have "(x # xs) ! (length xs - n div 8) = xs ! (length xs - 1 - n div 8)"
      by (subst nth_Cons_pos) (auto simp: less_mult_imp_div_less mult.commute)
    then show ?thesis using low Cons.IH [of ?a] by simp
  next
    case mid
    then show ?thesis using Cons.IH [of ?a] a [of r] by auto
  next
    case high
    then show ?thesis using Cons.IH [of ?a] a [of "8 + r"] by (auto simp: algebra_simps dest: bit_imp_le_length)
  qed
qed

lemma Uint64_Put: "Uint64 (PutUint64 v) = v"
proof (rule bit_word_eqI)
  fix n assume n: "n < LENGTH(64)"
  have k: "[0..<8] ! (7 - n div 8) = 7 - n div 8" by (subst nth_upt) auto
  have "56 + n mod 8 - 8 * (7 - n div 8) = n" using n by simp presburger
  then show "bit (Uint64 (PutUint64 v)) n \<longleftrightarrow> bit v n"
    using n k by (simp add: Uint64_def bit_bigEndian PutUint64_def bit_simps)
qed

lemma Put_Uint64:
  assumes "length b = 8"
  shows "PutUint64 (Uint64 b) = b"
proof (rule nth_equalityI)
  fix i assume "i < length (PutUint64 (Uint64 b))"
  then have i: "i < 8" by simp
  have "bit (ucast (drop_bit (56 - 8 * i) (Uint64 b)) :: gbyte) n \<longleftrightarrow> bit (b ! i) n" if n: "n < 8" for n
  proof -
    have e: "n + 56 - 8 * i = n + (7 - i) * 8" using i by simp
    have "(n + 56 - 8 * i) div 8 = 7 - i" "(n + 56 - 8 * i) mod 8 = n" "n + 56 - 8 * i < 64"
      unfolding e using n i by simp_all
    then show ?thesis using n i assms by (simp add: bit_simps Uint64_def bit_bigEndian add.commute)
  qed
  then show "PutUint64 (Uint64 b) ! i = b ! i"
    using i by (auto simp: PutUint64_def intro!: bit_word_eqI)
qed (simp add: assms)


lemma opcodes_distinct [simp]:
  "OpPTYOut \<noteq> OpResize" "OpPTYOut \<noteq> OpHello" "OpInput \<noteq> OpResize" "OpInput \<noteq> OpHello"
  "OpRepaint \<noteq> OpResize" "OpRepaint \<noteq> OpHello" "OpResize \<noteq> OpPTYOut" "OpResize \<noteq> OpInput"
  "OpResize \<noteq> OpRepaint" "OpResize \<noteq> OpHello" "OpHello \<noteq> OpPTYOut" "OpHello \<noteq> OpInput"
  "OpHello \<noteq> OpRepaint" "OpHello \<noteq> OpResize"
  by (simp_all add: opcode_defs)

lemma decode_encode: "wfFrame f \<Longrightarrow> DecodeFrame (Encode f) = Inr f"
  by (auto simp: wfFrame_def DecodeFrame_def Encode_def frame_defs resizePayloadLen_def helloPayloadLen_def
      Uint16_Put Uint64_Put)

lemma encode_decode:
  assumes "DecodeFrame raw = Inr f"
  shows "wfFrame f \<and> Encode f = raw"
proof -
  obtain op body where raw: "raw = op # body" using assms by (cases raw) (auto simp: DecodeFrame_def)
  consider (data) "op \<in> {OpPTYOut, OpInput, OpRepaint}" "f = emptyFrame\<lparr>fr_Op := op, fr_Data := body\<rparr>"
    | (resize) "op = OpResize" "length body = 4" "f = ResizeFrame (Uint16 (take 2 body)) (Uint16 (take 2 (drop 2 body)))"
    | (hello) "op = OpHello" "length body = 8" "f = HelloFrame (Uint64 body)"
    using assms
    by (auto simp: raw DecodeFrame_def frame_defs resizePayloadLen_def helloPayloadLen_def split: if_splits)
  then show ?thesis
  proof cases
    case data
    then show ?thesis by (auto simp: raw wfFrame_def frame_defs Encode_def)
  next
    case resize
    then have "PutUint16 (Uint16 (take 2 body)) @ PutUint16 (Uint16 (take 2 (drop 2 body))) = take 2 body @ take 2 (drop 2 body)"
      by (simp add: Put_Uint16)
    also have "\<dots> = body" using resize(2) by (simp flip: take_add)
    finally show ?thesis using resize by (auto simp: raw wfFrame_def frame_defs Encode_def)
  next
    case hello
    then show ?thesis by (auto simp: raw wfFrame_def frame_defs Encode_def Put_Uint64)
  qed
qed

lemma opcode_large:
  fixes op :: Opcode
  assumes "op \<noteq> OpPTYOut" "op \<noteq> OpInput" "op \<noteq> OpResize" "op \<noteq> OpRepaint" "op \<noteq> OpHello"
  shows "4 < op"
proof -
  have "unat op \<noteq> unat (0 :: Opcode)" "unat op \<noteq> unat (1 :: Opcode)" "unat op \<noteq> unat (2 :: Opcode)"
    "unat op \<noteq> unat (3 :: Opcode)" "unat op \<noteq> unat (4 :: Opcode)"
    using assms unfolding opcode_defs word_unat_eq_iff by simp_all
  then show ?thesis by (simp add: word_less_nat_alt)
qed

definition decodeOption :: "gbyte list \<Rightarrow> Frame option" where
  "decodeOption raw = (case DecodeFrame raw of Inr f \<Rightarrow> Some f | Inl _ \<Rightarrow> None)"

lemma decodeOption_Some: "decodeOption raw = Some f \<longleftrightarrow> DecodeFrame raw = Inr f"
  by (simp add: decodeOption_def split: sum.split)

interpretation frameCodec: exact_codec Encode decodeOption wfFrame
  by unfold_locales (simp_all add: decodeOption_Some decode_encode encode_decode)


text \<open>C30. The stream frames: a byte string decodes to a frame exactly when it is the encoding of a
  frame that the constructors build, two such frames are never confused on the wire, and what does
  not decode is empty, has an unknown opcode or a resize or hello body of the wrong length.
\<close>
theorem frame_codec_exact:
  "(DecodeFrame raw = Inr f \<longleftrightarrow> wfFrame f \<and> Encode f = raw) \<and>
   (wfFrame f \<and> wfFrame g \<and> Encode f = Encode g \<longrightarrow> f = g) \<and>
   (DecodeFrame raw = Inl e \<longrightarrow>
      (case e of
         ErrEmptyFrame \<Rightarrow> raw = []
       | ErrResizeBody n \<Rightarrow> raw \<noteq> [] \<and> hd raw = OpResize \<and> n = length raw - 1 \<and> n \<noteq> 4
       | ErrHelloBody n \<Rightarrow> raw \<noteq> [] \<and> hd raw = OpHello \<and> n = length raw - 1 \<and> n \<noteq> 8
       | ErrUnknownOpcode op \<Rightarrow> raw \<noteq> [] \<and> hd raw = op \<and> 4 < op))"
proof (intro conjI impI)
  show "DecodeFrame raw = Inr f \<longleftrightarrow> wfFrame f \<and> Encode f = raw"
    using frameCodec.dec_iff by (simp add: decodeOption_Some)
next
  assume "wfFrame f \<and> wfFrame g \<and> Encode f = Encode g"
  then show "f = g" using frameCodec.enc_inj by blast
next
  assume "DecodeFrame raw = Inl e"
  then show "case e of
         ErrEmptyFrame \<Rightarrow> raw = []
       | ErrResizeBody n \<Rightarrow> raw \<noteq> [] \<and> hd raw = OpResize \<and> n = length raw - 1 \<and> n \<noteq> 4
       | ErrHelloBody n \<Rightarrow> raw \<noteq> [] \<and> hd raw = OpHello \<and> n = length raw - 1 \<and> n \<noteq> 8
       | ErrUnknownOpcode op \<Rightarrow> raw \<noteq> [] \<and> hd raw = op \<and> 4 < op"
    by (cases raw) (auto simp: DecodeFrame_def resizePayloadLen_def helloPayloadLen_def dest: opcode_large split: if_splits)
qed

theorem frame_codec_exact_witness:
  "DecodeFrame [0x02, 0x00, 0x18, 0x00, 0x50] = Inr (ResizeFrame 24 80) \<and>
   Encode (ResizeFrame 24 80) = [0x02, 0x00, 0x18, 0x00, 0x50]"
proof -
  have "Encode (ResizeFrame 24 80) = [0x02, 0x00, 0x18, 0x00, 0x50]" by code_simp
  moreover have "wfFrame (ResizeFrame 24 80)" by (auto simp: wfFrame_def)
  ultimately show ?thesis
    using frame_codec_exact [of "[0x02, 0x00, 0x18, 0x00, 0x50]" "ResizeFrame 24 80"] by simp
qed

end
