(* ===== verification/Pty_Broker.thy ===== *)
theory Pty_Broker
  imports Go_Strings
begin

text \<open>
  The PTY broker of \<^verbatim>\<open>src/session/ptybroker.go\<close>, \<^verbatim>\<open>ptybroker_sub.go\<close>, \<^verbatim>\<open>ptybroker_recovery.go\<close> and
  \<^verbatim>\<open>ptybroker_repaint.go\<close>, with the terminal modes of \<^verbatim>\<open>src/terminal/modes.go\<close>. Bytes are
  \<^typ>\<open>char\<close>s. \<^verbatim>\<open>Seq\<close>, \<^verbatim>\<open>resizeGen\<close> and the subscriber ids are \<^typ>\<open>nat\<close>s: all three only count up
  from 0 and do not reach \<open>2 ^ 64\<close>.

  The Go code runs concurrently. Everything between \<^verbatim>\<open>b.mu.Lock\<close> and \<^verbatim>\<open>b.mu.Unlock\<close> is one
  definition here, named after its function and its place in it; what the channel
  (\<^verbatim>\<open>clientlessChannel\<close>) answers between two sections is an argument. The interleavings are
  in \<open>Pty_Steps\<close>. The subscribers a broker has are the ids in \<open>br_subs\<close>; \<open>br_objs\<close> holds every
  subscriber object, a detached one included, which its reader may still use.
\<close>

subsection \<open>Terminal modes and snapshots\<close>

record Modes =
  md_AlternateScreen :: bool
  md_MouseTracking :: bool
  md_MouseStandard :: bool
  md_MouseButton :: bool
  md_MouseAll :: bool
  md_MouseUTF8 :: bool
  md_MouseSGR :: bool

definition MouseTrackingEnabled :: "Modes \<Rightarrow> bool" where
  "MouseTrackingEnabled m \<longleftrightarrow>
     md_MouseTracking m \<or> md_MouseStandard m \<or> md_MouseButton m \<or> md_MouseAll m"

abbreviation esc :: char where
  "esc \<equiv> CHR 0x1B"

definition csi :: "string \<Rightarrow> string" where
  "csi s = esc # ''['' @ s"

definition RestoreSequence :: "Modes \<Rightarrow> string" where
  "RestoreSequence m =
     csi ''?1049l'' @
     csi ''?9l'' @ csi ''?1000l'' @ csi ''?1001l'' @ csi ''?1002l'' @ csi ''?1003l'' @ csi ''?1005l'' @ csi ''?1006l'' @
     (if md_AlternateScreen m then csi ''?1049h'' else []) @
     (if md_MouseStandard m then csi ''?1000h'' else []) @
     (if md_MouseButton m then csi ''?1002h'' else []) @
     (if md_MouseAll m then csi ''?1003h'' else []) @
     (if md_MouseTracking m \<and> \<not> md_MouseStandard m \<and> \<not> md_MouseButton m \<and> \<not> md_MouseAll m
      then csi ''?1000h'' else []) @
     (if md_MouseUTF8 m then csi ''?1005h'' else []) @
     (if md_MouseSGR m then csi ''?1006h'' else [])"

record PaneSnapshot =
  sn_Screen :: string
  sn_CursorRow :: int
  sn_CursorCol :: int
  sn_HasCursor :: bool
  sn_CursorVisible :: bool
  sn_HasVisibility :: bool
  sn_Modes :: Modes
  sn_HasModes :: bool
  sn_Rows :: "16 word"
  sn_Cols :: "16 word"
  sn_HasSize :: bool

datatype PTYRepaintProvenance = PTYRepaintFresh | PTYRepaintRecovery

record repaintSnapshot =
  rp_data :: string
  rp_modes :: Modes
  rp_hasModes :: bool
  rp_provenance :: PTYRepaintProvenance

text \<open>\<^verbatim>\<open>strings.TrimSuffix\<close> for one newline.\<close>

definition trimSuffixNl :: "string \<Rightarrow> string" where
  "trimSuffixNl s = (if s \<noteq> [] \<and> last s = CHR 0x0A then butlast s else s)"

fun repaintRows :: "nat \<Rightarrow> string list \<Rightarrow> string" where
  "repaintRows i [] = []"
| "repaintRows i (l # ls) = csi (itoa (int i + 1) @ '';1H'') @ csi ''K'' @ l @ repaintRows (Suc i) ls"

definition buildRepaint :: "PaneSnapshot \<Rightarrow> string" where
  "buildRepaint snap =
     (if sn_HasModes snap then RestoreSequence (sn_Modes snap) else []) @
     csi ''2J'' @
     repaintRows 0 (splitOn (CHR 0x0A) (trimSuffixNl (sn_Screen snap))) @
     (if sn_HasVisibility snap then (if sn_CursorVisible snap then csi ''?25h'' else csi ''?25l'') else []) @
     (if sn_HasCursor snap
      then csi (itoa (sn_CursorRow snap + 1) @ '';'' @ itoa (sn_CursorCol snap + 1) @ ''H'') else [])"

definition buildRepaintSnapshot :: "PaneSnapshot \<Rightarrow> repaintSnapshot" where
  "buildRepaintSnapshot snap =
     \<lparr>rp_data = buildRepaint snap, rp_modes = sn_Modes snap, rp_hasModes = sn_HasModes snap,
      rp_provenance = PTYRepaintFresh\<rparr>"

definition snapshotHasRepaintState :: "PaneSnapshot \<Rightarrow> bool" where
  "snapshotHasRepaintState snap \<longleftrightarrow>
     sn_Screen snap \<noteq> [] \<or> sn_HasCursor snap \<or> sn_HasModes snap \<or> sn_HasVisibility snap"

definition paneDeadMarker :: string where
  "paneDeadMarker = ''Pane is dead''"

text \<open>\<open>strip\<close> is \<^verbatim>\<open>xansi.Strip\<close> of the terminal library.\<close>

definition deadPaneMarkerPresent :: "(string \<Rightarrow> string) \<Rightarrow> string list \<Rightarrow> bool" where
  "deadPaneMarkerPresent strip lines \<longleftrightarrow>
     (\<exists>l\<in>set lines. take (length paneDeadMarker) (strip (TrimSpace l)) = paneDeadMarker)"

definition deadPaneScreen :: "(string \<Rightarrow> string) \<Rightarrow> string \<Rightarrow> int \<Rightarrow> string" where
  "deadPaneScreen strip capture paneH0 =
     (let lines = splitOn (CHR 0x0A) (trimSuffixNl capture);
          paneH = (if paneH0 \<le> 0 then length lines else nat paneH0);
          marked = (if deadPaneMarkerPresent strip lines then lines
                    else lines @ replicate (paneH - 1 - length lines) [] @ [paneDeadMarker]);
          shown = (if length marked > paneH then drop (length marked - paneH) marked else marked)
      in joinStr [CHR 0x0A] shown @ [CHR 0x0A])"

subsection \<open>The broker and its subscribers\<close>

record ptySub =
  ps_cursor :: nat
  ps_resizeSeen :: nat
  ps_pendingRepaint :: "repaintSnapshot option"
  ps_repaintArmed :: bool

record ptyBroker =
  br_maxBytes :: nat
  br_buf :: string
  br_base :: nat
  br_recoveryDiscardAt :: nat
  br_subs :: "nat list"
  br_objs :: "nat \<Rightarrow> ptySub option"
  br_nextSubID :: nat
  br_rows :: "16 word"
  br_cols :: "16 word"
  br_hasSize :: bool
  br_resizeGen :: nat
  br_warnedSessionGone :: bool
  br_capturing :: bool
  br_captureEnded :: bool
  br_captureStarted :: gtime
  br_redialing :: bool
  br_redialAttempts :: nat
  br_closed :: bool
  br_tabClosed :: bool

definition ptyRingMaxBytes :: nat where
  "ptyRingMaxBytes = 256 * 1024"

definition newPTYBroker :: ptyBroker where
  "newPTYBroker = \<lparr>br_maxBytes = ptyRingMaxBytes, br_buf = [], br_base = 0, br_recoveryDiscardAt = 0,
     br_subs = [], br_objs = (\<lambda>_. None), br_nextSubID = 0, br_rows = 0, br_cols = 0, br_hasSize = False,
     br_resizeGen = 0, br_warnedSessionGone = False, br_capturing = False, br_captureEnded = False,
     br_captureStarted = zeroTime, br_redialing = False, br_redialAttempts = 0, br_closed = False,
     br_tabClosed = False\<rparr>"

definition headLocked :: "ptyBroker \<Rightarrow> nat" where
  "headLocked b = br_base b + length (br_buf b)"

text \<open>Changing one subscriber object; an unknown id has none.\<close>

definition updSub :: "nat \<Rightarrow> (ptySub \<Rightarrow> ptySub) \<Rightarrow> ptyBroker \<Rightarrow> ptyBroker" where
  "updSub i f b = b\<lparr>br_objs := (br_objs b)(i := map_option f (br_objs b i))\<rparr>"

subsection \<open>Output, size and the subscriber's event loop\<close>

definition feed :: "string \<Rightarrow> ptyBroker \<Rightarrow> ptyBroker" where
  "feed p b =
     (let buf = br_buf b @ p;
          drp = length buf - br_maxBytes b
      in if length buf > br_maxBytes b
         then b\<lparr>br_buf := drop drp buf, br_base := br_base b + drp\<rparr>
         else b\<lparr>br_buf := buf\<rparr>)"

datatype applyError = ErrSessionGone | ErrOtherResize

text \<open>The size is recorded and echoed whether or not the pane accepts it.\<close>

definition resize :: "16 word \<Rightarrow> 16 word \<Rightarrow> ptyBroker \<Rightarrow> ptyBroker" where
  "resize rows cols b =
     b\<lparr>br_rows := rows, br_cols := cols, br_hasSize := True, br_resizeGen := Suc (br_resizeGen b)\<rparr>"

definition shouldWarnResizeFailure :: "applyError \<Rightarrow> ptyBroker \<Rightarrow> bool \<times> ptyBroker" where
  "shouldWarnResizeFailure err b =
     (if err \<noteq> ErrSessionGone then (True, b)
      else if br_warnedSessionGone b then (False, b)
      else (True, b\<lparr>br_warnedSessionGone := True\<rparr>))"

definition adoptSnapshotSize :: "PaneSnapshot \<Rightarrow> nat \<Rightarrow> ptyBroker \<Rightarrow> ptyBroker" where
  "adoptSnapshotSize snap genBefore b =
     (if \<not> sn_HasSize snap then b
      else if br_resizeGen b \<noteq> genBefore then b
      else if br_hasSize b \<and> br_rows b = sn_Rows snap \<and> br_cols b = sn_Cols snap then b
      else b\<lparr>br_rows := sn_Rows snap, br_cols := sn_Cols snap, br_hasSize := True,
             br_resizeGen := Suc (br_resizeGen b)\<rparr>)"

datatype PTYEvent = PTYData string | PTYResize "16 word" "16 word" | PTYRepaint repaintSnapshot | PTYCursor nat

datatype nextResult = Emit PTYEvent | Wait | ErrTabClosed | ErrEOF

text \<open>One pass of \<^verbatim>\<open>NextEvent\<close> under the lock: an event, the end of the stream, or waiting for the doorbell.\<close>

definition nextEventObj :: "ptyBroker \<Rightarrow> ptySub \<Rightarrow> nextResult \<times> ptySub" where
  "nextEventObj b s =
     (if br_closed b then (if br_tabClosed b then ErrTabClosed else ErrEOF, s)
      else if br_hasSize b \<and> ps_resizeSeen s \<noteq> br_resizeGen b
      then (Emit (PTYResize (br_rows b) (br_cols b)), s\<lparr>ps_resizeSeen := br_resizeGen b\<rparr>)
      else
        (case ps_pendingRepaint s of
           Some rp \<Rightarrow> (Emit (PTYRepaint rp), s\<lparr>ps_pendingRepaint := None\<rparr>)
         | None \<Rightarrow>
             (if ps_repaintArmed s then (Wait, s)
              else if ps_cursor s < br_base b
              then (Emit (PTYCursor (br_base b)), s\<lparr>ps_cursor := br_base b\<rparr>)
              else if ps_cursor s < headLocked b
              then (Emit (PTYData (drop (ps_cursor s - br_base b) (br_buf b))), s\<lparr>ps_cursor := headLocked b\<rparr>)
              else (Wait, s))))"

definition NextEvent :: "nat \<Rightarrow> ptyBroker \<Rightarrow> nextResult \<times> ptyBroker" where
  "NextEvent i b =
     (case br_objs b i of
        None \<Rightarrow> (ErrEOF, b)
      | Some s \<Rightarrow> (case nextEventObj b s of (r, s') \<Rightarrow> (r, b\<lparr>br_objs := (br_objs b)(i \<mapsto> s')\<rparr>)))"

definition Seq :: "nat \<Rightarrow> ptyBroker \<Rightarrow> nat option" where
  "Seq i b = map_option ps_cursor (br_objs b i)"

subsection \<open>Subscribing\<close>

definition needsRepaint :: "ptyBroker \<Rightarrow> nat \<Rightarrow> bool" where
  "needsRepaint b since \<longleftrightarrow>
     since = 0 \<or> since < br_base b \<or> (since = br_base b \<and> br_recoveryDiscardAt b = br_base b)"

definition startCursor :: "ptyBroker \<Rightarrow> nat \<Rightarrow> nat" where
  "startCursor b since =
     (if since = 0 \<or> since < br_base b then headLocked b
      else if since > headLocked b then headLocked b else since)"

text \<open>The first section of \<^verbatim>\<open>subscribe\<close>: refuse on a closed broker, or register.\<close>

definition subscribeRegister :: "nat \<Rightarrow> ptyBroker \<Rightarrow> (nat \<times> bool) option \<times> ptyBroker" where
  "subscribeRegister since b =
     (if br_closed b then (None, b)
      else
        (let i = Suc (br_nextSubID b);
             sub = \<lparr>ps_cursor = startCursor b since,
                    ps_resizeSeen = (if br_hasSize b then br_resizeGen b - 1 else br_resizeGen b),
                    ps_pendingRepaint = None, ps_repaintArmed = False\<rparr>
         in (Some (i, needsRepaint b since),
             b\<lparr>br_nextSubID := i, br_subs := br_subs b @ [i], br_objs := (br_objs b)(i \<mapsto> sub)\<rparr>)))"

text \<open>The section after the capture is up: the decision again, and where a repainted subscriber resumes.\<close>

definition subscribeRecheck :: "nat \<Rightarrow> bool \<Rightarrow> ptyBroker \<Rightarrow> bool \<times> nat" where
  "subscribeRecheck i needRepaint b =
     (case br_objs b i of
        None \<Rightarrow> (needRepaint, headLocked b)
      | Some s \<Rightarrow>
          (needRepaint \<or> ps_cursor s < br_base b \<or>
             (ps_cursor s = br_base b \<and> br_recoveryDiscardAt b = br_base b),
           headLocked b))"

definition installRepaint :: "nat \<Rightarrow> nat \<Rightarrow> repaintSnapshot \<Rightarrow> ptyBroker \<Rightarrow> ptyBroker" where
  "installRepaint i tail rp b =
     updSub i (\<lambda>s. s\<lparr>ps_cursor := tail, ps_pendingRepaint := Some rp\<rparr>) b"

text \<open>
  The snapshot subscribe takes, \<open>None\<close> being a failed capture: the measured size is adopted, and the
  result is the repaint to install, if the snapshot has anything to paint.
\<close>

definition subscribeAdopt ::
  "nat \<Rightarrow> PaneSnapshot option \<Rightarrow> ptyBroker \<Rightarrow> repaintSnapshot option \<times> ptyBroker" where
  "subscribeAdopt genBefore snap b =
     (case snap of
        None \<Rightarrow> (None, b)
      | Some sn \<Rightarrow>
          (if snapshotHasRepaintState sn then Some (buildRepaintSnapshot sn) else None,
           adoptSnapshotSize sn genBefore b))"

definition remove :: "nat \<Rightarrow> ptyBroker \<Rightarrow> bool \<times> ptyBroker" where
  "remove i b =
     (if i \<notin> set (br_subs b) then (False, b)
      else
        (let b1 = b\<lparr>br_subs := remove1 i (br_subs b)\<rparr>
         in (br_subs b1 = [], b1)))"

definition liveSubscribers :: "ptyBroker \<Rightarrow> nat" where
  "liveSubscribers b = length (br_subs b)"

subsection \<open>The capture\<close>

abbreviation healthy :: "ptyBroker \<Rightarrow> bool" where
  "healthy b \<equiv> br_capturing b \<and> \<not> br_captureEnded b"

datatype ensureStep = EnsureClosed | EnsureRunning | EnsureDial

text \<open>
  \<^verbatim>\<open>ensureCaptureStartedLocked\<close>: its first section, and the section that installs the capture the
  channel then started.
\<close>

definition ensureBegin :: "ptyBroker \<Rightarrow> ensureStep \<times> ptyBroker" where
  "ensureBegin b =
     (if br_closed b then (EnsureClosed, b)
      else if healthy b then (EnsureRunning, b)
      else (EnsureDial, b\<lparr>br_capturing := False, br_captureEnded := False\<rparr>))"

definition ensureInstall :: "gtime \<Rightarrow> ptyBroker \<Rightarrow> ptyBroker" where
  "ensureInstall now b = b\<lparr>br_capturing := True, br_captureStarted := now\<rparr>"

text \<open>The section of \<^verbatim>\<open>maybeStopCapture\<close>: whether it goes on to stop the capture.\<close>

definition maybeStopCapture :: "ptyBroker \<Rightarrow> bool \<times> ptyBroker" where
  "maybeStopCapture b =
     (if br_subs b \<noteq> [] \<or> \<not> br_capturing b then (False, b)
      else (True, b\<lparr>br_capturing := False\<rparr>))"

definition redialInitialBackoff :: duration where
  "redialInitialBackoff = 500000000"

definition redialMaxBackoff :: duration where
  "redialMaxBackoff = 30 * second"

definition redialHealthySpan :: duration where
  "redialHealthySpan = 60 * second"

text \<open>The last section of \<^verbatim>\<open>readLoop\<close>: latch the end, and whether to start a recovery loop.\<close>

definition readLoopExit :: "gtime \<Rightarrow> ptyBroker \<Rightarrow> bool \<times> ptyBroker" where
  "readLoopExit now b =
     (let b1 = b\<lparr>br_captureEnded := True\<rparr>;
          b2 = (if br_captureStarted b1 \<noteq> zeroTime \<and> now - br_captureStarted b1 \<ge> redialHealthySpan
                then b1\<lparr>br_redialAttempts := 0\<rparr> else b1)
      in if br_capturing b2 \<and> \<not> br_closed b2 \<and> \<not> br_redialing b2
         then (True, b2\<lparr>br_redialing := True\<rparr>)
         else (False, b2))"

text \<open>The section of \<^verbatim>\<open>shutdown\<close>: whether a capture is left to stop.\<close>

definition shutdown :: "bool \<Rightarrow> ptyBroker \<Rightarrow> bool \<times> ptyBroker" where
  "shutdown tabClosed b =
     (if br_closed b then (False, b)
      else (br_capturing b, b\<lparr>br_closed := True, br_tabClosed := tabClosed, br_capturing := False\<rparr>))"

subsection \<open>Recovery\<close>

definition armRecoveryRepaintLocked :: "ptyBroker \<Rightarrow> nat list \<times> ptyBroker" where
  "armRecoveryRepaintLocked b =
     (br_subs b, fold (\<lambda>i. updSub i (\<lambda>s. s\<lparr>ps_repaintArmed := True\<rparr>)) (br_subs b) b)"

text \<open>
  \<^verbatim>\<open>recoverCapture\<close>, first section: \<open>None\<close> when it returns at once, else the subscribers it armed and
  whether a capture is left to stop.
\<close>

definition recoverBegin :: "bool \<Rightarrow> ptyBroker \<Rightarrow> (nat list \<times> bool) option \<times> ptyBroker" where
  "recoverBegin onlyIfNoHealthyCapture b =
     (if br_closed b then (None, b)
      else if onlyIfNoHealthyCapture \<and> healthy b then (None, b)
      else
        (let (armed, b1) = armRecoveryRepaintLocked b
         in (Some (armed, br_capturing b1), b1\<lparr>br_capturing := False\<rparr>)))"

text \<open>Second section, once the old read loop has been joined: discard, and whether to resume.\<close>

definition recoverDiscard :: "bool \<Rightarrow> ptyBroker \<Rightarrow> bool \<times> ptyBroker" where
  "recoverDiscard onlyIfNoHealthyCapture b =
     (let b1 = b\<lparr>br_base := headLocked b, br_buf := []\<rparr>;
          b2 = b1\<lparr>br_recoveryDiscardAt := br_base b1\<rparr>;
          b3 = (if \<not> onlyIfNoHealthyCapture then b2\<lparr>br_hasSize := False\<rparr> else b2);
          b4 = b3\<lparr>br_warnedSessionGone := False\<rparr>
      in (\<not> br_closed b4 \<and> br_subs b4 \<noteq> [], b4))"

text \<open>The snapshot of the recovered screen.\<close>

definition recoveryRepaint ::
  "nat \<Rightarrow> PaneSnapshot option \<Rightarrow> ptyBroker \<Rightarrow> repaintSnapshot option \<times> ptyBroker" where
  "recoveryRepaint genBefore snap b =
     (case snap of
        None \<Rightarrow> (None, b)
      | Some sn \<Rightarrow>
          (let b1 = adoptSnapshotSize sn genBefore b
           in (if snapshotHasRepaintState sn
               then Some ((buildRepaintSnapshot sn)\<lparr>rp_provenance := PTYRepaintRecovery\<rparr>) else None, b1)))"

definition releaseSub :: "bool \<Rightarrow> nat \<Rightarrow> repaintSnapshot option \<Rightarrow> ptySub \<Rightarrow> ptySub" where
  "releaseSub replays base rp s =
     (let s1 = (case rp of
                  None \<Rightarrow> s
                | Some r \<Rightarrow> (if rp_data r \<noteq> [] \<and> \<not> (replays \<and> ps_cursor s \<ge> base)
                            then s\<lparr>ps_pendingRepaint := Some r\<rparr> else s))
      in s1\<lparr>ps_repaintArmed := False\<rparr>)"

definition releaseRecoveryRepaint ::
  "bool \<Rightarrow> nat list \<Rightarrow> repaintSnapshot option \<Rightarrow> ptyBroker \<Rightarrow> ptyBroker" where
  "releaseRecoveryRepaint replays armed rp b =
     fold (\<lambda>i. updSub i (releaseSub replays (br_base b) rp)) armed b"

fun redialLadder :: "nat \<Rightarrow> duration \<Rightarrow> duration" where
  "redialLadder 0 d = d"
| "redialLadder (Suc n) d = (if d < redialMaxBackoff then redialLadder n (d * 2) else d)"

definition redialDelay :: "nat \<Rightarrow> duration" where
  "redialDelay attempt =
     (let d = redialLadder attempt redialInitialBackoff
      in if d > redialMaxBackoff then redialMaxBackoff else d)"

text \<open>The section of \<^verbatim>\<open>redialLoop\<close> that decides: \<open>None\<close> when it stops driving, else how long it sleeps.\<close>

definition redialDecide :: "ptyBroker \<Rightarrow> duration option \<times> ptyBroker" where
  "redialDecide b =
     (if br_closed b \<or> healthy b \<or> br_subs b = [] then (None, b\<lparr>br_redialing := False\<rparr>)
      else (Some (redialDelay (br_redialAttempts b)), b\<lparr>br_redialAttempts := Suc (br_redialAttempts b)\<rparr>))"

text \<open>The clear of its other two exits: a dead pane, or the broker closing while it sleeps.\<close>

definition redialClear :: "ptyBroker \<Rightarrow> ptyBroker" where
  "redialClear b = b\<lparr>br_redialing := False\<rparr>"

text \<open>The section of \<^verbatim>\<open>watchPaneDeath\<close> after the pane answered dead.\<close>

definition watchLatch :: "ptyBroker \<Rightarrow> bool \<times> ptyBroker" where
  "watchLatch b =
     (if br_closed b \<or> \<not> br_capturing b then (False, b)
      else (True, b\<lparr>br_captureEnded := True\<rparr>))"

end
