(* ===== verification/Pty_Steps.thy ===== *)
theory Pty_Steps
  imports Pty_Broker
begin

text \<open>
  The interleavings of the PTY broker. A world is the broker, whether the read loop of the current
  capture runs, who holds \<^verbatim>\<open>captureMu\<close> and where, the recovery loop's place, the
  \<^verbatim>\<open>subscribe\<close> calls that have not returned (waiting for the capture in \<open>w_pend\<close>, later in
  \<open>w_paint\<close>), the pending \<^verbatim>\<open>maybeStopCapture\<close> goroutines and the
  pane-death watchers about to recover. One step is one critical section of one of them; the
  channel's answers (a dial that works or fails, a snapshot, a dead pane) are free, and a resize
  generation read in a section of its own is any the broker had since the step before. Only the
  discard of a recovery and the first section of its restart are one step: the holder of
  \<^verbatim>\<open>captureMu\<close> has no capture in between, and no other section can tell. Two ghosts are
  added: every byte ever fed, and the cursor each client derives from what it was sent. With
  \<open>canDie\<close> false the channel never reports a dead pane.
\<close>

subsection \<open>Worlds\<close>

datatype recoverer = ByReset | ByRedial | ByRedialDead | ByWatch

definition guarded :: "recoverer \<Rightarrow> bool" where
  "guarded r \<longleftrightarrow> r \<noteq> ByReset"

datatype capPC =
    CapFree
  | CapSubDial nat bool
  | CapStopping
  | CapJoin recoverer "nat list"
  | CapDial recoverer "nat list"
  | CapSnap recoverer "nat list" nat
  | CapRelease recoverer "nat list" "repaintSnapshot option"

datatype redialPC = RNone | RTop | RSleep | RWant | RBusy | RDeadWant | RDeadBusy | RDeadClear

text \<open>
  A \<^verbatim>\<open>subscribe\<close> call past the capture: about to decide on a repaint, to take the snapshot, to install
  the repaint, or to remove its subscriber and fail.
\<close>

datatype paintPC = PaintCheck bool | PaintSnap nat | PaintInstall repaintSnapshot | PaintGone

text \<open>Where a repainted subscriber resumes: at the tail it read, or, for a dead pane, at the head.\<close>

definition resumeAt :: "nat option \<Rightarrow> ptyBroker \<Rightarrow> nat" where
  "resumeAt t b = (case t of Some n \<Rightarrow> n | None \<Rightarrow> headLocked b)"

record ptyWorld =
  w_b :: ptyBroker
  w_loop :: bool
  w_cap :: capPC
  w_redial :: redialPC
  w_pend :: "(nat \<times> bool) list"
  w_paint :: "(nat \<times> nat option \<times> paintPC) list"
  w_stops :: nat
  w_watch :: nat
  w_out :: string
  w_client :: "nat \<Rightarrow> nat option"

definition initWorld :: ptyWorld where
  "initWorld = \<lparr>w_b = newPTYBroker, w_loop = False, w_cap = CapFree, w_redial = RNone, w_pend = [], w_paint = [],
     w_stops = 0, w_watch = 0, w_out = [], w_client = (\<lambda>_. None)\<rparr>"

text \<open>What a client makes of an event: it counts output bytes and adopts an announced cursor.\<close>

fun clientAfter :: "nextResult \<Rightarrow> nat \<Rightarrow> nat" where
  "clientAfter (Emit (PTYData p)) c = c + length p"
| "clientAfter (Emit (PTYCursor n)) c = n"
| "clientAfter r c = c"

text \<open>A \<^verbatim>\<open>subscribe\<close> call returns: the client learns the subscription's cursor.\<close>

definition subReturn :: "nat \<Rightarrow> ptyWorld \<Rightarrow> ptyWorld" where
  "subReturn i w = w\<lparr>w_client := (w_client w)(i := Seq i (w_b w))\<rparr>"

text \<open>A \<^verbatim>\<open>subscribe\<close> call whose capture is up: go on to the snapshot, or return.\<close>

definition subContinue :: "nat \<Rightarrow> bool \<Rightarrow> ptyWorld \<Rightarrow> ptyWorld" where
  "subContinue i need w =
     (let (need', tail) = subscribeRecheck i need (w_b w)
      in if need' then w\<lparr>w_paint := (i, Some tail, PaintSnap (br_resizeGen (w_b w))) # w_paint w\<rparr> else subReturn i w)"

text \<open>Where a recovery loop goes when its \<^verbatim>\<open>recoverCapture\<close> returns.\<close>

definition afterRecover :: "recoverer \<Rightarrow> redialPC \<Rightarrow> redialPC" where
  "afterRecover r pc = (case r of ByRedial \<Rightarrow> RTop | ByRedialDead \<Rightarrow> RDeadClear | _ \<Rightarrow> pc)"

subsection \<open>Steps\<close>

inductive ptyStep :: "bool \<Rightarrow> ptyWorld \<Rightarrow> (nat \<times> nextResult) option \<Rightarrow> ptyWorld \<Rightarrow> bool" for canDie where
  feedS: "w_loop w \<Longrightarrow> p \<noteq> [] \<Longrightarrow>
    ptyStep canDie w None (w\<lparr>w_b := feed p (w_b w), w_out := w_out w @ p\<rparr>)"
| loopExitS: "w_loop w \<Longrightarrow> readLoopExit now (w_b w) = (start, b) \<Longrightarrow>
    ptyStep canDie w None (w\<lparr>w_b := b, w_loop := False, w_redial := (if start then RTop else w_redial w)\<rparr>)"
| nextS: "w_client w i = Some c \<Longrightarrow> NextEvent i (w_b w) = (r, b) \<Longrightarrow>
    ptyStep canDie w (Some (i, r)) (w\<lparr>w_b := b, w_client := (w_client w)(i \<mapsto> clientAfter r c)\<rparr>)"
| resizeS: "ptyStep canDie w None (w\<lparr>w_b := resize rows cols (w_b w)\<rparr>)"
| registerS: "subscribeRegister since (w_b w) = (Some (i, need), b) \<Longrightarrow>
    ptyStep canDie w None (w\<lparr>w_b := b, w_pend := (i, need) # w_pend w\<rparr>)"
| subClosedS: "w_cap w = CapFree \<Longrightarrow> (i, need) \<in> set (w_pend w) \<Longrightarrow> ensureBegin (w_b w) = (EnsureClosed, b) \<Longrightarrow>
    pc = PaintGone \<or> canDie \<and> pc = PaintSnap (br_resizeGen b) \<Longrightarrow>
    ptyStep canDie w None (w\<lparr>w_b := b, w_pend := remove1 (i, need) (w_pend w), w_paint := (i, None, pc) # w_paint w\<rparr>)"
| subRunningS: "w_cap w = CapFree \<Longrightarrow> (i, need) \<in> set (w_pend w) \<Longrightarrow> ensureBegin (w_b w) = (EnsureRunning, b) \<Longrightarrow>
    ptyStep canDie w None (w\<lparr>w_b := b, w_pend := remove1 (i, need) (w_pend w), w_paint := (i, None, PaintCheck need) # w_paint w\<rparr>)"
| subDialS: "w_cap w = CapFree \<Longrightarrow> (i, need) \<in> set (w_pend w) \<Longrightarrow> ensureBegin (w_b w) = (EnsureDial, b) \<Longrightarrow>
    ptyStep canDie w None (w\<lparr>w_b := b, w_cap := CapSubDial i need\<rparr>)"
| subDialOkS: "w_cap w = CapSubDial i need \<Longrightarrow> \<not> w_loop w \<Longrightarrow>
    ptyStep canDie w None
      (w\<lparr>w_b := ensureInstall now (w_b w), w_loop := True, w_cap := CapFree,
         w_pend := remove1 (i, need) (w_pend w), w_paint := (i, None, PaintCheck need) # w_paint w\<rparr>)"
| subDialFailS: "w_cap w = CapSubDial i need \<Longrightarrow> \<not> w_loop w \<Longrightarrow>
    pc = PaintGone \<or> canDie \<and> pc = PaintSnap (br_resizeGen (w_b w)) \<Longrightarrow>
    ptyStep canDie w None (w\<lparr>w_cap := CapFree, w_pend := remove1 (i, need) (w_pend w), w_paint := (i, None, pc) # w_paint w\<rparr>)"
| subCheckS: "(i, t, PaintCheck need) \<in> set (w_paint w) \<Longrightarrow>
    ptyStep canDie w None (subContinue i need (w\<lparr>w_paint := remove1 (i, t, PaintCheck need) (w_paint w)\<rparr>))"
| subSnapS: "(i, t, PaintSnap gen) \<in> set (w_paint w) \<Longrightarrow> gen \<le> gen' \<Longrightarrow> gen' \<le> br_resizeGen (w_b w) \<Longrightarrow>
    subscribeAdopt gen' snap (w_b w) = (Some rp, b) \<Longrightarrow>
    ptyStep canDie w None (w\<lparr>w_b := b, w_paint := (i, t, PaintInstall rp) # remove1 (i, t, PaintSnap gen) (w_paint w)\<rparr>)"
| subBlankS: "(i, t, PaintSnap gen) \<in> set (w_paint w) \<Longrightarrow> gen \<le> gen' \<Longrightarrow> gen' \<le> br_resizeGen (w_b w) \<Longrightarrow>
    subscribeAdopt gen' snap (w_b w) = (None, b) \<Longrightarrow> t \<noteq> None \<or> snap \<noteq> None \<Longrightarrow>
    ptyStep canDie w None (subReturn i (w\<lparr>w_b := b, w_paint := remove1 (i, t, PaintSnap gen) (w_paint w)\<rparr>))"
| subInstallS: "(i, t, PaintInstall rp) \<in> set (w_paint w) \<Longrightarrow>
    ptyStep canDie w None (subReturn i
      (w\<lparr>w_b := installRepaint i (resumeAt t (w_b w)) rp (w_b w), w_paint := remove1 (i, t, PaintInstall rp) (w_paint w)\<rparr>))"
| subGoneS: "(i, t, pc) \<in> set (w_paint w) \<Longrightarrow> pc = PaintGone \<or> t = None \<and> (\<exists>gen. pc = PaintSnap gen) \<Longrightarrow>
    remove i (w_b w) = (lst, b) \<Longrightarrow>
    ptyStep canDie w None (w\<lparr>w_b := b, w_paint := remove1 (i, t, pc) (w_paint w), w_stops := w_stops w + (if lst then 1 else 0)\<rparr>)"
| closeS: "w_client w i \<noteq> None \<Longrightarrow> remove i (w_b w) = (lst, b) \<Longrightarrow>
    ptyStep canDie w None (w\<lparr>w_b := b, w_stops := w_stops w + (if lst then 1 else 0)\<rparr>)"
| maybeStopS: "w_cap w = CapFree \<Longrightarrow> 0 < w_stops w \<Longrightarrow> maybeStopCapture (w_b w) = (stop, b) \<Longrightarrow>
    ptyStep canDie w None (w\<lparr>w_b := b, w_stops := w_stops w - 1, w_cap := (if stop then CapStopping else CapFree)\<rparr>)"
| shutdownS: "w_cap w = CapFree \<Longrightarrow> shutdown tab (w_b w) = (stop, b) \<Longrightarrow>
    ptyStep canDie w None (w\<lparr>w_b := b, w_cap := (if stop then CapStopping else CapFree)\<rparr>)"
| stoppedS: "w_cap w = CapStopping \<Longrightarrow> \<not> w_loop w \<Longrightarrow> ptyStep canDie w None (w\<lparr>w_cap := CapFree\<rparr>)"
| resetS: "w_cap w = CapFree \<Longrightarrow> recoverBegin False (w_b w) = (Some (armed, stop), b) \<Longrightarrow>
    ptyStep canDie w None (w\<lparr>w_b := b, w_cap := CapJoin ByReset armed\<rparr>)"
| redialStopS: "w_redial w = RTop \<Longrightarrow> redialDecide (w_b w) = (None, b) \<Longrightarrow>
    ptyStep canDie w None (w\<lparr>w_b := b, w_redial := RNone\<rparr>)"
| redialSleepS: "w_redial w = RTop \<Longrightarrow> redialDecide (w_b w) = (Some delay, b) \<Longrightarrow>
    ptyStep canDie w None (w\<lparr>w_b := b, w_redial := RSleep\<rparr>)"
| redialClosedS: "w_redial w = RSleep \<Longrightarrow> br_closed (w_b w) \<Longrightarrow>
    ptyStep canDie w None (w\<lparr>w_b := redialClear (w_b w), w_redial := RNone\<rparr>)"
| redialWakeS: "w_redial w = RSleep \<Longrightarrow> ptyStep canDie w None (w\<lparr>w_redial := RWant\<rparr>)"
| redialDeadS: "canDie \<Longrightarrow> w_redial w = RTop \<Longrightarrow> ptyStep canDie w None (w\<lparr>w_redial := RDeadWant\<rparr>)"
| redialSkipS: "w_cap w = CapFree \<Longrightarrow> w_redial w = RWant \<Longrightarrow> recoverBegin True (w_b w) = (None, b) \<Longrightarrow>
    ptyStep canDie w None (w\<lparr>w_redial := RTop\<rparr>)"
| redialRecoverS: "w_cap w = CapFree \<Longrightarrow> w_redial w = RWant \<Longrightarrow> recoverBegin True (w_b w) = (Some (armed, stop), b) \<Longrightarrow>
    ptyStep canDie w None (w\<lparr>w_b := b, w_cap := CapJoin ByRedial armed, w_redial := RBusy\<rparr>)"
| redialDeadSkipS: "w_cap w = CapFree \<Longrightarrow> w_redial w = RDeadWant \<Longrightarrow> recoverBegin True (w_b w) = (None, b) \<Longrightarrow>
    ptyStep canDie w None (w\<lparr>w_redial := RDeadClear\<rparr>)"
| redialDeadRecoverS: "w_cap w = CapFree \<Longrightarrow> w_redial w = RDeadWant \<Longrightarrow>
    recoverBegin True (w_b w) = (Some (armed, stop), b) \<Longrightarrow>
    ptyStep canDie w None (w\<lparr>w_b := b, w_cap := CapJoin ByRedialDead armed, w_redial := RDeadBusy\<rparr>)"
| redialDeadClearS: "w_redial w = RDeadClear \<Longrightarrow>
    ptyStep canDie w None (w\<lparr>w_b := redialClear (w_b w), w_redial := RNone\<rparr>)"
| watchS: "canDie \<Longrightarrow> watchLatch (w_b w) = (True, b) \<Longrightarrow>
    ptyStep canDie w None (w\<lparr>w_b := b, w_watch := Suc (w_watch w)\<rparr>)"
| watchSkipS: "w_cap w = CapFree \<Longrightarrow> 0 < w_watch w \<Longrightarrow> recoverBegin True (w_b w) = (None, b) \<Longrightarrow>
    ptyStep canDie w None (w\<lparr>w_watch := w_watch w - 1\<rparr>)"
| watchRecoverS: "w_cap w = CapFree \<Longrightarrow> 0 < w_watch w \<Longrightarrow> recoverBegin True (w_b w) = (Some (armed, stop), b) \<Longrightarrow>
    ptyStep canDie w None (w\<lparr>w_b := b, w_cap := CapJoin ByWatch armed, w_watch := w_watch w - 1\<rparr>)"
| discardS: "w_cap w = CapJoin r armed \<Longrightarrow> \<not> w_loop w \<Longrightarrow> recoverDiscard (guarded r) (w_b w) = (resume, b) \<Longrightarrow>
    ptyStep canDie w None (w\<lparr>w_b := snd (if resume then ensureBegin b else (EnsureDial, b)),
      w_cap := (if resume then CapDial r armed else CapRelease r armed None)\<rparr>)"
| dialOkS: "w_cap w = CapDial r armed \<Longrightarrow>
    ptyStep canDie w None (w\<lparr>w_b := ensureInstall now (w_b w), w_loop := True,
      w_cap := CapSnap r armed (br_resizeGen (w_b w))\<rparr>)"
| dialFailS: "w_cap w = CapDial r armed \<Longrightarrow> ptyStep canDie w None (w\<lparr>w_cap := CapRelease r armed None\<rparr>)"
| dialDeadS: "canDie \<Longrightarrow> w_cap w = CapDial r armed \<Longrightarrow>
    ptyStep canDie w None (w\<lparr>w_cap := CapSnap r armed (br_resizeGen (w_b w))\<rparr>)"
| snapS: "w_cap w = CapSnap r armed gen \<Longrightarrow> gen \<le> gen' \<Longrightarrow> gen' \<le> br_resizeGen (w_b w) \<Longrightarrow>
    recoveryRepaint gen' snap (w_b w) = (rp, b) \<Longrightarrow>
    ptyStep canDie w None (w\<lparr>w_b := b, w_cap := CapRelease r armed rp\<rparr>)"
| releaseS: "w_cap w = CapRelease r armed rp \<Longrightarrow>
    ptyStep canDie w None (w\<lparr>w_b := releaseRecoveryRepaint replays armed rp (w_b w), w_cap := CapFree,
      w_redial := afterRecover r (w_redial w)\<rparr>)"

end
