(* ===== verification/Pty_Ring.thy ===== *)
theory Pty_Ring
  imports Pty_Steps
begin

text \<open>
  The ring of the PTY broker and the cursors of its clients: which sections leave both alone, what
  the others do, and the invariant of every world: the ring is a suffix of the output, and a
  client's own count of its position is the cursor the broker keeps for it.
\<close>

subsection \<open>What the sections leave alone\<close>

lemma updSub_fields [simp]:
  "br_buf (updSub i f b) = br_buf b" "br_base (updSub i f b) = br_base b" "br_maxBytes (updSub i f b) = br_maxBytes b"
  "br_subs (updSub i f b) = br_subs b" "br_nextSubID (updSub i f b) = br_nextSubID b"
  "br_hasSize (updSub i f b) = br_hasSize b" "br_resizeGen (updSub i f b) = br_resizeGen b"
  "br_capturing (updSub i f b) = br_capturing b" "br_captureEnded (updSub i f b) = br_captureEnded b"
  "br_closed (updSub i f b) = br_closed b" "br_redialing (updSub i f b) = br_redialing b"
  by (simp_all add: updSub_def)

lemma foldSub_fields [simp]:
  "br_buf (fold (\<lambda>i. updSub i f) is b) = br_buf b" "br_base (fold (\<lambda>i. updSub i f) is b) = br_base b"
  "br_maxBytes (fold (\<lambda>i. updSub i f) is b) = br_maxBytes b"
  "br_subs (fold (\<lambda>i. updSub i f) is b) = br_subs b" "br_nextSubID (fold (\<lambda>i. updSub i f) is b) = br_nextSubID b"
  "br_hasSize (fold (\<lambda>i. updSub i f) is b) = br_hasSize b" "br_resizeGen (fold (\<lambda>i. updSub i f) is b) = br_resizeGen b"
  "br_capturing (fold (\<lambda>i. updSub i f) is b) = br_capturing b"
  "br_captureEnded (fold (\<lambda>i. updSub i f) is b) = br_captureEnded b"
  "br_closed (fold (\<lambda>i. updSub i f) is b) = br_closed b" "br_redialing (fold (\<lambda>i. updSub i f) is b) = br_redialing b"
  by (induction "is" arbitrary: b) simp_all

lemma Seq_updSub: "(\<And>s. ps_cursor (f s) = ps_cursor s) \<Longrightarrow> Seq j (updSub i f b) = Seq j b"
  by (cases "br_objs b i") (auto simp: Seq_def updSub_def)

lemma Seq_foldSub: "(\<And>s. ps_cursor (f s) = ps_cursor s) \<Longrightarrow> Seq j (fold (\<lambda>i. updSub i f) is b) = Seq j b"
  by (induction "is" arbitrary: b) (simp_all add: Seq_updSub)

lemma releaseSub_cursor [simp]: "ps_cursor (releaseSub rep base rp s) = ps_cursor s"
  by (simp add: releaseSub_def Let_def split: option.split)

lemma Seq_frame [simp]:
  "Seq j (b\<lparr>br_buf := x1\<rparr>) = Seq j b" "Seq j (b\<lparr>br_base := x2\<rparr>) = Seq j b" "Seq j (b\<lparr>br_recoveryDiscardAt := x2\<rparr>) = Seq j b"
  "Seq j (b\<lparr>br_subs := x3\<rparr>) = Seq j b" "Seq j (b\<lparr>br_nextSubID := x2\<rparr>) = Seq j b" "Seq j (b\<lparr>br_rows := x4\<rparr>) = Seq j b"
  "Seq j (b\<lparr>br_cols := x4\<rparr>) = Seq j b" "Seq j (b\<lparr>br_hasSize := x5\<rparr>) = Seq j b" "Seq j (b\<lparr>br_resizeGen := x2\<rparr>) = Seq j b"
  "Seq j (b\<lparr>br_warnedSessionGone := x5\<rparr>) = Seq j b" "Seq j (b\<lparr>br_capturing := x5\<rparr>) = Seq j b"
  "Seq j (b\<lparr>br_captureEnded := x5\<rparr>) = Seq j b" "Seq j (b\<lparr>br_captureStarted := x6\<rparr>) = Seq j b"
  "Seq j (b\<lparr>br_redialing := x5\<rparr>) = Seq j b" "Seq j (b\<lparr>br_redialAttempts := x2\<rparr>) = Seq j b"
  "Seq j (b\<lparr>br_closed := x5\<rparr>) = Seq j b" "Seq j (b\<lparr>br_tabClosed := x5\<rparr>) = Seq j b"
  by (simp_all add: Seq_def)

text \<open>The broker's part that the ring and the cursors are read from.\<close>

definition sameRing :: "ptyBroker \<Rightarrow> ptyBroker \<Rightarrow> bool" where
  "sameRing b b' \<longleftrightarrow> br_buf b' = br_buf b \<and> br_base b' = br_base b \<and> br_maxBytes b' = br_maxBytes b \<and>
     br_nextSubID b' = br_nextSubID b \<and> (\<forall>j. Seq j b' = Seq j b)"

lemma sameRing_refl [simp]: "sameRing b b"
  by (simp add: sameRing_def)

lemma sameRing_trans: "sameRing a b \<Longrightarrow> sameRing b c \<Longrightarrow> sameRing a c"
  by (simp add: sameRing_def)

lemma ring_resize [simp]: "sameRing b (resize r c b)"
  by (simp add: sameRing_def resize_def)

lemma ring_adopt [simp]: "sameRing b (adoptSnapshotSize sn g b)"
  by (simp add: sameRing_def adoptSnapshotSize_def)

lemma ring_remove [simp]: "sameRing b (snd (remove i b))"
  by (simp add: sameRing_def remove_def)

lemma ring_loopExit [simp]: "sameRing b (snd (readLoopExit now b))"
  by (simp add: sameRing_def readLoopExit_def Let_def)

lemma ring_ensureBegin [simp]: "sameRing b (snd (ensureBegin b))"
  by (simp add: sameRing_def ensureBegin_def)

lemma ring_ensureInstall [simp]: "sameRing b (ensureInstall now b)"
  by (simp add: sameRing_def ensureInstall_def)

lemma ring_maybeStop [simp]: "sameRing b (snd (maybeStopCapture b))"
  by (simp add: sameRing_def maybeStopCapture_def)

lemma ring_shutdown [simp]: "sameRing b (snd (shutdown t b))"
  by (simp add: sameRing_def shutdown_def)

lemma ring_recoverBegin [simp]: "sameRing b (snd (recoverBegin g b))"
  by (simp add: sameRing_def recoverBegin_def armRecoveryRepaintLocked_def Seq_foldSub)

lemma ring_redialDecide [simp]: "sameRing b (snd (redialDecide b))"
  by (simp add: sameRing_def redialDecide_def)

lemma ring_redialClear [simp]: "sameRing b (redialClear b)"
  by (simp add: sameRing_def redialClear_def)

lemma ring_watchLatch [simp]: "sameRing b (snd (watchLatch b))"
  by (simp add: sameRing_def watchLatch_def)

lemma ring_recoveryRepaint [simp]: "sameRing b (snd (recoveryRepaint g sn b))"
  by (simp add: recoveryRepaint_def Let_def split: option.split)

lemma ring_subscribeAdopt [simp]: "sameRing b (snd (subscribeAdopt g sn b))"
  by (simp add: subscribeAdopt_def split: option.split)

lemma ring_release [simp]: "sameRing b (releaseRecoveryRepaint rep armed rp b)"
  by (simp add: sameRing_def releaseRecoveryRepaint_def Seq_foldSub)

lemmas ring_sections = ring_resize ring_adopt ring_remove ring_loopExit ring_ensureBegin ring_ensureInstall
  ring_maybeStop ring_shutdown ring_recoverBegin ring_redialDecide ring_redialClear ring_watchLatch
  ring_recoveryRepaint ring_release

text \<open>From the equation of a section to its effect on the ring.\<close>

lemma ringI: "sameRing b (snd r) \<Longrightarrow> r = (x, b') \<Longrightarrow> sameRing b b'"
  by simp

lemmas ring_eqs = ring_remove [THEN ringI] ring_loopExit [THEN ringI] ring_ensureBegin [THEN ringI] ring_maybeStop [THEN ringI]
  ring_shutdown [THEN ringI] ring_recoverBegin [THEN ringI] ring_redialDecide [THEN ringI] ring_watchLatch [THEN ringI]
  ring_recoveryRepaint [THEN ringI] ring_subscribeAdopt [THEN ringI]

subsection \<open>The ring is a suffix of the output, and clients know their cursors\<close>

definition ringInv :: "ptyBroker \<Rightarrow> string \<Rightarrow> bool" where
  "ringInv b out \<longleftrightarrow> br_base b \<le> length out \<and> br_buf b = drop (br_base b) out \<and> length (br_buf b) \<le> br_maxBytes b \<and>
     (\<forall>i c. Seq i b = Some c \<longrightarrow> i \<le> br_nextSubID b \<and> c \<le> length out)"

lemma ringInv_same: "sameRing b b' \<Longrightarrow> ringInv b out \<Longrightarrow> ringInv b' out"
  by (auto simp: sameRing_def ringInv_def)

lemma ringInv_head: "ringInv b out \<Longrightarrow> headLocked b = length out"
  by (simp add: ringInv_def headLocked_def)

lemma ringInv_feed: "ringInv b out \<Longrightarrow> ringInv (feed p b) (out @ p)"
  by (fastforce simp: ringInv_def feed_def Let_def)

lemma ringInv_discard: "ringInv b out \<Longrightarrow> ringInv (snd (recoverDiscard g b)) out"
  by (simp add: ringInv_def recoverDiscard_def Let_def headLocked_def)

lemma ringInv_install: "ringInv b out \<Longrightarrow> tail \<le> length out \<Longrightarrow> ringInv (installRepaint i tail rp b) out"
  by (auto simp: ringInv_def installRepaint_def Seq_def updSub_def split: if_splits option.splits)

lemma Seq_install:
  "Seq j (installRepaint i tail rp b) = (if j = i \<and> Seq i b \<noteq> None then Some tail else Seq j b)"
  by (auto simp: installRepaint_def Seq_def updSub_def)

lemma ringInv_register:
  assumes "ringInv b out" "subscribeRegister since b = (Some (i, need), b')"
  shows "ringInv b' out" "i = Suc (br_nextSubID b)" "br_nextSubID b' = i"
    "Seq j b' = (if j = i then Some (startCursor b since) else Seq j b)"
proof -
  have c: "startCursor b since \<le> length out" using ringInv_head [OF assms(1)] by (simp add: startCursor_def)
  show e: "i = Suc (br_nextSubID b)" "br_nextSubID b' = i"
    "Seq j b' = (if j = i then Some (startCursor b since) else Seq j b)" for j
    using assms(2) by (auto simp: subscribeRegister_def Let_def Seq_def split: if_splits)
  show "ringInv b' out" using assms c e
    by (fastforce simp: ringInv_def subscribeRegister_def Let_def split: if_splits)
qed

lemma nextEventObj_cursor:
  assumes "nextEventObj b s = (r, s')" "br_base b \<le> headLocked b" "ps_cursor s \<le> headLocked b"
  shows "ps_cursor s' = clientAfter r (ps_cursor s) \<and> ps_cursor s' \<le> headLocked b"
  using assms by (auto simp: nextEventObj_def headLocked_def split: if_splits option.splits)

lemma ringInv_next:
  assumes inv: "ringInv b out" and n: "NextEvent i b = (r, b')" and c: "Seq i b = Some c"
  shows "ringInv b' out \<and> Seq i b' = Some (clientAfter r c) \<and> (\<forall>j. j \<noteq> i \<longrightarrow> Seq j b' = Seq j b) \<and>
         br_nextSubID b' = br_nextSubID b"
proof -
  obtain s where s: "br_objs b i = Some s" "ps_cursor s = c" using c by (auto simp: Seq_def)
  obtain s' where e: "nextEventObj b s = (r, s')" "b' = b\<lparr>br_objs := (br_objs b)(i \<mapsto> s')\<rparr>"
    using n s by (auto simp: NextEvent_def split: prod.splits)
  have h: "headLocked b = length out" "br_base b \<le> headLocked b" "c \<le> headLocked b"
    using ringInv_head [OF inv] inv c by (auto simp: ringInv_def)
  have k: "ps_cursor s' = clientAfter r c" "ps_cursor s' \<le> length out"
    using nextEventObj_cursor [OF e(1) h(2)] s h by simp_all
  have sq: "Seq j b' = (if j = i then Some (clientAfter r c) else Seq j b)" for j
    using e(2) k(1) by (simp add: Seq_def)
  have "i \<le> br_nextSubID b" using inv c by (auto simp: ringInv_def)
  then have "ringInv b' out" using inv e(2) sq k unfolding ringInv_def by auto
  then show ?thesis using sq e(2) by simp
qed

text \<open>What an event that moves the cursor carries.\<close>

lemma next_content:
  assumes inv: "ringInv b out" and n: "NextEvent i b = (Emit ev, b')" and c: "Seq i b = Some c"
  shows "case ev of PTYData p \<Rightarrow> p \<noteq> [] \<and> p = drop c out \<and> br_base b \<le> c
     | PTYCursor m \<Rightarrow> c < m \<and> m = br_base b
     | _ \<Rightarrow> True"
proof -
  obtain s where s: "br_objs b i = Some s" "ps_cursor s = c" using c by (auto simp: Seq_def)
  have e: "fst (nextEventObj b s) = Emit ev" using n s by (auto simp: NextEvent_def split: prod.splits)
  have "br_buf b = drop (br_base b) out" using inv by (simp add: ringInv_def)
  then show ?thesis using e s(2)
    by (auto simp: nextEventObj_def headLocked_def split: if_splits option.splits)
qed

subsection \<open>The world invariant\<close>

text \<open>The subscribers whose \<^verbatim>\<open>subscribe\<close> call has not returned.\<close>

definition openIds :: "ptyWorld \<Rightarrow> nat list" where
  "openIds w = map fst (w_pend w) @ map fst (w_paint w)"

definition clientInv :: "ptyWorld \<Rightarrow> bool" where
  "clientInv w \<longleftrightarrow>
     (\<forall>i c. w_client w i = Some c \<longrightarrow> Seq i (w_b w) = Some c) \<and>
     (\<forall>i\<in>set (openIds w). i \<le> br_nextSubID (w_b w) \<and> w_client w i = None) \<and> distinct (openIds w) \<and>
     (\<forall>x\<in>set (w_paint w). \<forall>n. fst (snd x) = Some n \<longrightarrow> n \<le> length (w_out w)) \<and>
     (\<forall>i need. w_cap w = CapSubDial i need \<longrightarrow> (i, need) \<in> set (w_pend w))"

definition worldInv :: "ptyWorld \<Rightarrow> bool" where
  "worldInv w \<longleftrightarrow> ringInv (w_b w) (w_out w) \<and> clientInv w"

text \<open>A step that changes neither ring nor cursors, clients or pending calls.\<close>

lemma worldInv_quiet:
  assumes "worldInv w" "sameRing (w_b w) (w_b w')" "w_out w' = w_out w" "w_client w' = w_client w"
    "w_pend w' = w_pend w" "w_paint w' = w_paint w"
    "\<And>i need. w_cap w' = CapSubDial i need \<Longrightarrow> (i, need) \<in> set (w_pend w)"
  shows "worldInv w'"
  using assms ringInv_same [of "w_b w" "w_b w'"] by (simp add: worldInv_def clientInv_def sameRing_def openIds_def)

lemma map_fst_remove1:
  assumes "distinct (map fst xs)" "(i, x) \<in> set xs"
  shows "map fst (remove1 (i, x) xs) = remove1 i (map fst xs)"
  using assms by (induction xs) (auto simp: rev_image_eqI)

lemma worldInv_pendD:
  assumes "worldInv w" "(i, need) \<in> set (w_pend w)"
  shows "w_client w i = None" "i \<le> br_nextSubID (w_b w)"
    "openIds (w\<lparr>w_pend := remove1 (i, need) (w_pend w)\<rparr>) = remove1 i (openIds w)"
proof -
  have i: "i \<in> set (map fst (w_pend w))" using assms(2) by force
  then have o: "i \<in> set (openIds w)" by (simp add: openIds_def)
  then show "w_client w i = None" "i \<le> br_nextSubID (w_b w)" using assms(1) by (auto simp: worldInv_def clientInv_def)
  have "distinct (map fst (w_pend w))" using assms(1) by (simp add: worldInv_def clientInv_def openIds_def)
  from map_fst_remove1 [OF this assms(2)] i
  show "openIds (w\<lparr>w_pend := remove1 (i, need) (w_pend w)\<rparr>) = remove1 i (openIds w)"
    by (simp add: openIds_def remove1_append)
qed

lemma openIds_more [simp]:
  "openIds (w\<lparr>w_b := x1\<rparr>) = openIds w" "openIds (w\<lparr>w_loop := x2\<rparr>) = openIds w" "openIds (w\<lparr>w_cap := x3\<rparr>) = openIds w"
  "openIds (w\<lparr>w_redial := x4\<rparr>) = openIds w" "openIds (w\<lparr>w_stops := x5\<rparr>) = openIds w"
  "openIds (w\<lparr>w_watch := x5\<rparr>) = openIds w" "openIds (w\<lparr>w_out := x6\<rparr>) = openIds w"
  "openIds (w\<lparr>w_client := x7\<rparr>) = openIds w"
  by (simp_all add: openIds_def)

text \<open>A \<^verbatim>\<open>subscribe\<close> call leaves the pending list; nobody then dials for it.\<close>

lemma worldInv_dropPend:
  assumes inv: "worldInv w" and i: "(i, need) \<in> set (w_pend w)"
  shows "worldInv (w\<lparr>w_cap := CapFree, w_pend := remove1 (i, need) (w_pend w)\<rparr>)"
    "i \<notin> set (openIds (w\<lparr>w_cap := CapFree, w_pend := remove1 (i, need) (w_pend w)\<rparr>))"
proof -
  let ?w = "w\<lparr>w_cap := CapFree, w_pend := remove1 (i, need) (w_pend w)\<rparr>"
  have o: "openIds ?w = remove1 i (openIds w)" using worldInv_pendD(3) [OF inv i] by (simp add: openIds_def)
  have d: "distinct (openIds w)" using inv by (simp add: worldInv_def clientInv_def)
  show "i \<notin> set (openIds ?w)" unfolding o using d by simp
  have "\<forall>j\<in>set (openIds ?w). j \<le> br_nextSubID (w_b w) \<and> w_client w j = None" "distinct (openIds ?w)"
    using inv d by (auto simp: o worldInv_def clientInv_def)
  then show "worldInv ?w" using inv by (simp add: worldInv_def clientInv_def)
qed

lemma worldInv_sub:
  assumes "worldInv w" "w_client w i = None" "ringInv b (w_out w)" "\<And>j. j \<noteq> i \<Longrightarrow> Seq j b = Seq j (w_b w)"
    "br_nextSubID b = br_nextSubID (w_b w)"
  shows "worldInv (w\<lparr>w_b := b\<rparr>)"
proof -
  have "Seq j b = Some c" if "w_client w j = Some c" for j c
    using that assms(1,2) assms(4) [of j] by (cases "j = i") (auto simp: worldInv_def clientInv_def)
  then show ?thesis using assms by (simp add: worldInv_def clientInv_def)
qed

lemma worldInv_subReturn:
  assumes "worldInv w" "i \<notin> set (openIds w)"
  shows "worldInv (subReturn i w)"
  using assms by (auto simp: worldInv_def clientInv_def subReturn_def)

lemma worldInv_paintAdd:
  assumes "worldInv w" "i \<notin> set (openIds w)" "w_client w i = None" "i \<le> br_nextSubID (w_b w)"
    "\<And>n. t = Some n \<Longrightarrow> n \<le> length (w_out w)"
  shows "worldInv (w\<lparr>w_paint := (i, t, pc) # w_paint w\<rparr>)"
proof -
  have "set (openIds (w\<lparr>w_paint := (i, t, pc) # w_paint w\<rparr>)) = insert i (set (openIds w))"
    "distinct (openIds (w\<lparr>w_paint := (i, t, pc) # w_paint w\<rparr>)) \<longleftrightarrow> i \<notin> set (openIds w) \<and> distinct (openIds w)"
    by (auto simp: openIds_def)
  with assms show ?thesis by (auto simp: worldInv_def clientInv_def)
qed

lemma worldInv_subContinue:
  assumes "worldInv w" "i \<notin> set (openIds w)" "w_client w i = None" "i \<le> br_nextSubID (w_b w)"
  shows "worldInv (subContinue i need w)"
proof -
  obtain nd n where r: "subscribeRecheck i need (w_b w) = (nd, n)" by fastforce
  have "n = length (w_out w)"
    using assms(1) ringInv_head r by (auto simp: subscribeRecheck_def worldInv_def split: option.splits)
  then show ?thesis
    using worldInv_subReturn [OF assms(1-2)] worldInv_paintAdd [OF assms, of "Some n" "PaintSnap (br_resizeGen (w_b w))"] r
    by (simp add: subContinue_def)
qed

lemma worldInv_paintD:
  assumes inv: "worldInv w" and i: "(i, t, pc) \<in> set (w_paint w)"
  shows "w_client w i = None" "i \<le> br_nextSubID (w_b w)" "resumeAt t (w_b w) \<le> length (w_out w)"
    "worldInv (w\<lparr>w_paint := remove1 (i, t, pc) (w_paint w)\<rparr>)"
    "i \<notin> set (openIds (w\<lparr>w_paint := remove1 (i, t, pc) (w_paint w)\<rparr>))"
proof -
  let ?w = "w\<lparr>w_paint := remove1 (i, t, pc) (w_paint w)\<rparr>"
  have m: "i \<in> set (map fst (w_paint w))" using i by force
  then have "i \<in> set (openIds w)" by (simp add: openIds_def)
  then show "w_client w i = None" "i \<le> br_nextSubID (w_b w)" "resumeAt t (w_b w) \<le> length (w_out w)"
    using inv i ringInv_head [of "w_b w" "w_out w"] by (fastforce simp: worldInv_def clientInv_def resumeAt_def split: option.split)+
  have d: "distinct (openIds w)" using inv by (simp add: worldInv_def clientInv_def)
  then have "i \<notin> set (map fst (w_pend w))" "distinct (map fst (w_paint w))" using m by (auto simp: openIds_def)
  with map_fst_remove1 [OF this(2) i] have o: "openIds ?w = remove1 i (openIds w)"
    by (simp add: openIds_def remove1_append)
  show "i \<notin> set (openIds ?w)" unfolding o using d by simp
  have "\<forall>j\<in>set (openIds ?w). j \<le> br_nextSubID (w_b w) \<and> w_client w j = None" "distinct (openIds ?w)"
    using inv d by (auto simp: o worldInv_def clientInv_def)
  then show "worldInv ?w" using inv by (auto simp: worldInv_def clientInv_def dest: notin_set_remove1 [rotated])
qed

lemma worldInv_paintT: "worldInv w \<Longrightarrow> (i, t, pc) \<in> set (w_paint w) \<Longrightarrow> t = Some n \<Longrightarrow> n \<le> length (w_out w)"
  by (fastforce simp: worldInv_def clientInv_def)

lemma worldInv_register:
  assumes inv: "worldInv w" and r: "subscribeRegister since (w_b w) = (Some (i, need), b)"
  shows "worldInv (w\<lparr>w_b := b, w_pend := (i, need) # w_pend w\<rparr>)"
proof -
  let ?w = "w\<lparr>w_b := b, w_pend := (i, need) # w_pend w\<rparr>"
  have ri: "ringInv (w_b w) (w_out w)" using inv by (simp add: worldInv_def)
  note e = ringInv_register [OF ri r]
  have new: "w_client w i = None"
    using inv ri e(2) by (cases "w_client w i") (fastforce simp: worldInv_def clientInv_def ringInv_def)+
  have o: "set (openIds ?w) = insert i (set (openIds w))" "distinct (openIds ?w) \<longleftrightarrow> i \<notin> set (openIds w) \<and> distinct (openIds w)"
    by (auto simp: openIds_def)
  have fresh: "i \<notin> set (openIds w)" using inv e(2) by (auto simp: worldInv_def clientInv_def)
  have sq: "Seq j b = Some c" if "w_client w j = Some c" for j c
    using that new inv e(4) [of j] by (cases "j = i") (auto simp: worldInv_def clientInv_def)
  have le: "\<forall>j\<in>set (openIds ?w). j \<le> br_nextSubID b \<and> w_client w j = None"
    using inv new e(2,3) o(1) by (auto simp: worldInv_def clientInv_def)
  show ?thesis using inv e(1) sq le o(2) fresh by (auto simp: worldInv_def clientInv_def)
qed

lemma worldInv_cong:
  assumes "worldInv w" "w_b w' = w_b w" "w_out w' = w_out w" "w_client w' = w_client w" "w_pend w' = w_pend w"
    "w_paint w' = w_paint w" "w_cap w' = w_cap w"
  shows "worldInv w'"
  using assms by (simp add: worldInv_def clientInv_def openIds_def)

lemma worldInv_cap: "worldInv w \<Longrightarrow> (\<And>i need. x \<noteq> CapSubDial i need) \<Longrightarrow> worldInv (w\<lparr>w_cap := x\<rparr>)"
  by (simp add: worldInv_def clientInv_def)

lemma worldInv_ring: "worldInv w \<Longrightarrow> sameRing (w_b w) b \<Longrightarrow> worldInv (w\<lparr>w_b := b\<rparr>)"
  by (rule worldInv_quiet) (auto simp: worldInv_def clientInv_def)

lemma worldInv_others:
  "worldInv (w\<lparr>w_loop := x1\<rparr>) = worldInv w" "worldInv (w\<lparr>w_redial := x2\<rparr>) = worldInv w"
  "worldInv (w\<lparr>w_stops := x3\<rparr>) = worldInv w" "worldInv (w\<lparr>w_watch := x3\<rparr>) = worldInv w"
  by (simp_all add: worldInv_def clientInv_def)

lemma worldInv_feed:
  assumes "worldInv w"
  shows "worldInv (w\<lparr>w_b := feed p (w_b w), w_out := w_out w @ p\<rparr>)"
proof -
  have "Seq j (feed p (w_b w)) = Seq j (w_b w)" "br_nextSubID (feed p (w_b w)) = br_nextSubID (w_b w)" for j
    by (simp_all add: feed_def Let_def)
  with assms ringInv_feed [of "w_b w" "w_out w" p] show ?thesis
    by (auto simp: worldInv_def clientInv_def)
qed

lemma worldInv_next:
  assumes inv: "worldInv w" and c: "w_client w i = Some c" and n: "NextEvent i (w_b w) = (r, b)"
  shows "worldInv (w\<lparr>w_b := b, w_client := (w_client w)(i \<mapsto> clientAfter r c)\<rparr>)"
proof -
  have s: "Seq i (w_b w) = Some c" "ringInv (w_b w) (w_out w)" using inv c by (auto simp: worldInv_def clientInv_def)
  note r = ringInv_next [OF s(2) n s(1)]
  have "i \<notin> set (openIds w)" using inv c by (auto simp: worldInv_def clientInv_def)
  then show ?thesis using inv r by (auto simp: worldInv_def clientInv_def)
qed

text \<open>A \<^verbatim>\<open>subscribe\<close> call is done with the capture.\<close>

lemma worldInv_pendPaint:
  assumes inv: "worldInv w" and i: "(i, need) \<in> set (w_pend w)" and s: "sameRing (w_b w) b"
    and w': "w_b w' = b" "w_out w' = w_out w" "w_client w' = w_client w" "w_cap w' = CapFree"
      "w_pend w' = remove1 (i, need) (w_pend w)" "w_paint w' = (i, None, pc) # w_paint w"
  shows "worldInv w'"
proof -
  let ?v = "w\<lparr>w_cap := CapFree, w_pend := remove1 (i, need) (w_pend w)\<rparr>"
  note d = worldInv_dropPend [OF inv i]
  have "worldInv (?v\<lparr>w_b := b\<rparr>)" using d(1) by (rule worldInv_ring) (simp add: s)
  moreover have "i \<notin> set (openIds (?v\<lparr>w_b := b\<rparr>))" using d(2) by simp
  moreover have "w_client (?v\<lparr>w_b := b\<rparr>) i = None" "i \<le> br_nextSubID (w_b (?v\<lparr>w_b := b\<rparr>))"
    using worldInv_pendD(1,2) [OF inv i] s by (simp_all add: sameRing_def)
  ultimately have "worldInv (?v\<lparr>w_b := b, w_paint := (i, None, pc) # w_paint (?v\<lparr>w_b := b\<rparr>)\<rparr>)"
    by (rule worldInv_paintAdd) simp
  then show ?thesis by (rule worldInv_cong) (simp_all add: w')
qed

text \<open>The later sections of a \<^verbatim>\<open>subscribe\<close> call.\<close>

lemma worldInv_painted:
  assumes inv: "worldInv w" and i: "(i, t, pc) \<in> set (w_paint w)" and b: "b = w_b w \<or> b = installRepaint i (resumeAt t (w_b w)) rp (w_b w) \<or> sameRing (w_b w) b"
  shows "worldInv (w\<lparr>w_b := b, w_paint := remove1 (i, t, pc) (w_paint w)\<rparr>)"
    "i \<notin> set (openIds (w\<lparr>w_b := b, w_paint := remove1 (i, t, pc) (w_paint w)\<rparr>))"
    "i \<le> br_nextSubID b"
proof -
  let ?w = "w\<lparr>w_paint := remove1 (i, t, pc) (w_paint w)\<rparr>"
  note d = worldInv_paintD [OF inv i]
  have r: "ringInv (w_b w) (w_out w)" using inv by (simp add: worldInv_def)
  have n: "ringInv b (w_out w)" "br_nextSubID b = br_nextSubID (w_b w)" "\<And>j. j \<noteq> i \<Longrightarrow> Seq j b = Seq j (w_b w)"
    using b r ringInv_install [OF r d(3)] ringInv_same [OF _ r] Seq_install
    by (auto simp: sameRing_def installRepaint_def)
  have "worldInv (?w\<lparr>w_b := b\<rparr>)" using worldInv_sub [OF d(4), of i b] d(1) n by simp
  then show "worldInv (w\<lparr>w_b := b, w_paint := remove1 (i, t, pc) (w_paint w)\<rparr>)" by (rule worldInv_cong) simp_all
  show "i \<notin> set (openIds (w\<lparr>w_b := b, w_paint := remove1 (i, t, pc) (w_paint w)\<rparr>))" using d(5) by (simp add: openIds_def)
  show "i \<le> br_nextSubID b" using d(2) n(2) by simp
qed

lemma worldInv_discard:
  assumes inv: "worldInv w" and d: "recoverDiscard g (w_b w) = (resume, b)" and s: "sameRing b b'"
  shows "worldInv (w\<lparr>w_b := b'\<rparr>)"
proof -
  have r: "ringInv b (w_out w)" using ringInv_discard [of "w_b w" "w_out w" g] inv d by (simp add: worldInv_def)
  have "Seq j b = Seq j (w_b w)" "br_nextSubID b = br_nextSubID (w_b w)" for j
    using d by (cases g; auto simp: recoverDiscard_def Let_def)+
  then have "worldInv (w\<lparr>w_b := b\<rparr>)" using inv r by (simp add: worldInv_def clientInv_def)
  from worldInv_ring [OF this, of b'] s show ?thesis by simp
qed

lemma capDial_pend: "worldInv w \<Longrightarrow> w_cap w = CapSubDial i need \<Longrightarrow> (i, need) \<in> set (w_pend w)"
  by (simp add: worldInv_def clientInv_def)

lemma ensureBegin_keeps: "ensureBegin b = (EnsureClosed, b') \<Longrightarrow> b' = b"
  by (simp add: ensureBegin_def split: if_splits)

lemma worldInv_step:
  assumes "ptyStep canDie w l w'" "worldInv w"
  shows "worldInv w'"
  using assms
proof (cases rule: ptyStep.cases)
  case (feedS p) then show ?thesis using worldInv_feed [OF assms(2)] by simp
next
  case (nextS i c r b) then show ?thesis using worldInv_next [OF assms(2)] by simp
next
  case (registerS since i need b) then show ?thesis using worldInv_register [OF assms(2)] by simp
next
  case (subClosedS i need b pc)
  then show ?thesis using worldInv_pendPaint [OF assms(2) subClosedS(4) ring_eqs(3) [OF subClosedS(5)]] by simp
next
  case (subRunningS i need b)
  then show ?thesis using worldInv_pendPaint [OF assms(2) subRunningS(4) ring_eqs(3) [OF subRunningS(5)]] by simp
next
  case (subDialS i need b)
  then show ?thesis using assms(2) ring_ensureBegin [of "w_b w"] by (intro worldInv_quiet [OF assms(2)]) auto
next
  case (subDialOkS i need now)
  then show ?thesis using worldInv_pendPaint [OF assms(2) capDial_pend [OF assms(2)] ring_ensureInstall] by simp
next
  case (subDialFailS i need pc)
  then show ?thesis using worldInv_pendPaint [OF assms(2) capDial_pend [OF assms(2)] sameRing_refl] by simp
next
  case (subCheckS i t need)
  let ?v = "w\<lparr>w_paint := remove1 (i, t, PaintCheck need) (w_paint w)\<rparr>"
  note d = worldInv_paintD [OF assms(2) subCheckS(3)]
  have "worldInv (subContinue i need ?v)" using d by (intro worldInv_subContinue) simp_all
  then show ?thesis using subCheckS(2) by simp
next
  case (subSnapS i t gen gen' snap rp b)
  note d = worldInv_paintD [OF assms(2) subSnapS(3)] and s = ring_eqs(10) [OF subSnapS(6)]
  note v = worldInv_painted [OF assms(2) subSnapS(3), of b] 
  show ?thesis using worldInv_paintAdd [OF v(1,2), where t = t and pc = "PaintInstall rp"] v(3) d(1) s subSnapS(2) worldInv_paintT [OF assms(2) subSnapS(3)]
    by simp
next
  case (subBlankS i t gen gen' snap b)
  note v = worldInv_painted [OF assms(2) subBlankS(3), of b]
  show ?thesis using worldInv_subReturn [OF v(1,2)] ring_eqs(10) [OF subBlankS(6)] subBlankS(2) by simp
next
  case (subInstallS i t rp)
  note v = worldInv_painted [OF assms(2) subInstallS(3), of "installRepaint i (resumeAt t (w_b w)) rp (w_b w)" rp]
  show ?thesis using worldInv_subReturn [OF v(1,2)] subInstallS(2) by simp
next
  case (subGoneS i t pc lst b)
  have "worldInv (w\<lparr>w_b := b, w_paint := remove1 (i, t, pc) (w_paint w)\<rparr>)"
    using worldInv_painted(1) [OF assms(2) subGoneS(3), of b] ring_eqs(1) [OF subGoneS(5)] by simp
  then show ?thesis unfolding subGoneS(2) by (rule worldInv_cong) simp_all
next
  case (discardS r armed resume b)
  have "worldInv (w\<lparr>w_b := snd (if resume then ensureBegin b else (EnsureDial, b))\<rparr>)"
    using worldInv_discard [OF assms(2) discardS(5)] by simp
  from worldInv_cap [OF this] show ?thesis unfolding discardS(2) by simp
qed (rule worldInv_quiet [OF assms(2)]; auto dest: ring_eqs capDial_pend [OF assms(2)] split: if_splits)+

end
