(* ===== verification/Labelled_Systems.thy ===== *)
theory Labelled_Systems
  imports Main
begin

text \<open>
  Labelled transition systems: their runs, invariants over runs, and the contract of a forward
  simulation, which carries every run of a detailed system over to a run of its specification.
\<close>

fun runs :: "('s \<Rightarrow> 'l \<Rightarrow> 's \<Rightarrow> bool) \<Rightarrow> 's \<Rightarrow> 'l list \<Rightarrow> 's \<Rightarrow> bool" where
  "runs R s [] s' \<longleftrightarrow> s' = s"
| "runs R s (l # ls) s' \<longleftrightarrow> (\<exists>t. R s l t \<and> runs R t ls s')"

lemma runs_append: "runs R s (xs @ ys) s' \<longleftrightarrow> (\<exists>t. runs R s xs t \<and> runs R t ys s')"
  by (induction xs arbitrary: s) auto

lemma runs_snoc: "runs R s xs t \<Longrightarrow> R t l t' \<Longrightarrow> runs R s (xs @ [l]) t'"
  by (auto simp: runs_append)

locale step_invariant =
  fixes inv :: "'s \<Rightarrow> bool" and step :: "'s \<Rightarrow> 'l \<Rightarrow> 's \<Rightarrow> bool"
  assumes step_keeps: "step s l s' \<Longrightarrow> inv s \<Longrightarrow> inv s'"
begin

lemma run_keeps: "runs step s ls s' \<Longrightarrow> inv s \<Longrightarrow> inv s'"
  by (induction ls arbitrary: s) (auto dest: step_keeps)

end

text \<open>A specification over the same labels, related by an abstraction on the states that satisfy an invariant.\<close>

locale forward_simulation = step_invariant inv step
  for inv :: "'s \<Rightarrow> bool" and step :: "'s \<Rightarrow> 'l \<Rightarrow> 's \<Rightarrow> bool" +
  fixes absf :: "'s \<Rightarrow> 'a" and spec :: "'a \<Rightarrow> 'l \<Rightarrow> 'a \<Rightarrow> bool"
  assumes step_simulates: "step s l s' \<Longrightarrow> inv s \<Longrightarrow> spec (absf s) l (absf s')"
begin

lemma run_refines: "runs step s ls s' \<Longrightarrow> inv s \<Longrightarrow> runs spec (absf s) ls (absf s')"
proof (induction ls arbitrary: s)
  case (Cons l ls)
  then obtain t where "step s l t" "runs step t ls s'" by auto
  with Cons show ?case using step_keeps step_simulates by fastforce
qed simp

end

end
