(* ===== verification/Pty_Stream.thy ===== *)
theory Pty_Stream
  imports Pty_Ring Labelled_Systems
begin

text \<open>
  What the PTY broker promises its subscribers, as a system of its own: an output stream that only
  grows and a position per client that is moved by contiguous bytes or by an announced jump. Every
  run of the broker's interleaved sections is a run of this system.
\<close>

subsection \<open>The specification: a stream and positions in it\<close>

record streamSpec =
  ss_out :: string
  ss_pos :: "nat \<Rightarrow> nat option"

fun movesCursor :: "nextResult \<Rightarrow> bool" where
  "movesCursor (Emit (PTYData p)) = True"
| "movesCursor (Emit (PTYCursor n)) = True"
| "movesCursor r = False"

inductive streamStep :: "streamSpec \<Rightarrow> (nat \<times> nextResult) option \<Rightarrow> streamSpec \<Rightarrow> bool" where
  quiet: "streamStep s None s"
| grow: "streamStep s None (s\<lparr>ss_out := ss_out s @ p\<rparr>)"
| join: "ss_pos s i = None \<Longrightarrow> n \<le> length (ss_out s) \<Longrightarrow> streamStep s None (s\<lparr>ss_pos := (ss_pos s)(i \<mapsto> n)\<rparr>)"
| deliver: "ss_pos s i = Some c \<Longrightarrow> p \<noteq> [] \<Longrightarrow> c + length p \<le> length (ss_out s) \<Longrightarrow> p = take (length p) (drop c (ss_out s)) \<Longrightarrow>
    streamStep s (Some (i, Emit (PTYData p))) (s\<lparr>ss_pos := (ss_pos s)(i \<mapsto> c + length p)\<rparr>)"
| skip: "ss_pos s i = Some c \<Longrightarrow> c < n \<Longrightarrow> n \<le> length (ss_out s) \<Longrightarrow>
    streamStep s (Some (i, Emit (PTYCursor n))) (s\<lparr>ss_pos := (ss_pos s)(i \<mapsto> n)\<rparr>)"
| other: "ss_pos s i = Some c \<Longrightarrow> \<not> movesCursor r \<Longrightarrow> streamStep s (Some (i, r)) s"

inductive_simps streamStep_silent: "streamStep s None s'"
inductive_cases streamStep_labelE: "streamStep s (Some x) s'"

definition absStream :: "ptyWorld \<Rightarrow> streamSpec" where
  "absStream w = \<lparr>ss_out = w_out w, ss_pos = w_client w\<rparr>"

lemma absStream_same: "w_out w' = w_out w \<Longrightarrow> w_client w' = w_client w \<Longrightarrow> streamStep (absStream w) None (absStream w')"
  by (simp add: absStream_def streamStep.quiet)

lemma absStream_join:
  assumes "w_client w i = None" "w_out w' = w_out w" "w_client w' = (w_client w)(i := x)" "\<And>n. x = Some n \<Longrightarrow> n \<le> length (w_out w)"
  shows "streamStep (absStream w) None (absStream w')"
proof (cases x)
  case None
  then show ?thesis using assms by (simp add: absStream_same fun_upd_idem)
next
  case (Some n)
  then show ?thesis using assms streamStep.join [of "absStream w" i n] by (simp add: absStream_def)
qed

lemma absStream_next:
  assumes inv: "worldInv w" and c: "w_client w i = Some c" and n: "NextEvent i (w_b w) = (r, b)"
  shows "streamStep (absStream w) (Some (i, r)) (absStream (w\<lparr>w_b := b, w_client := (w_client w)(i \<mapsto> clientAfter r c)\<rparr>))"
proof -
  have s: "Seq i (w_b w) = Some c" "ringInv (w_b w) (w_out w)" using inv c by (auto simp: worldInv_def clientInv_def)
  have b: "c \<le> length (w_out w)" "br_base (w_b w) \<le> length (w_out w)" using s by (auto simp: ringInv_def)
  have p: "ss_pos (absStream w) i = Some c" "ss_out (absStream w) = w_out w" using c by (simp_all add: absStream_def)
  show ?thesis
  proof (cases r)
    case (Emit ev)
    note content = next_content [OF s(2) n [unfolded Emit] s(1)]
    show ?thesis
    proof (cases ev)
      case (PTYData d)
      have d: "d \<noteq> []" "d = drop c (w_out w)" using content unfolding PTYData by auto
      then have "c + length d \<le> length (ss_out (absStream w))" "d = take (length d) (drop c (ss_out (absStream w)))"
        using b p by simp_all
      from streamStep.deliver [OF p(1) d(1) this] show ?thesis by (simp add: Emit PTYData absStream_def)
    next
      case (PTYCursor m)
      with streamStep.skip [OF p(1), of m] content b show ?thesis by (simp add: Emit absStream_def)
    qed (use streamStep.other [OF p(1), of r] c in \<open>simp_all add: Emit absStream_def fun_upd_idem\<close>)
  qed (use streamStep.other [OF p(1), of r] c in \<open>simp_all add: absStream_def fun_upd_idem\<close>)
qed

lemma subReturn_stream:
  assumes "worldInv (subReturn i w')" "w_client w i = None" "w_out w' = w_out w" "w_client w' = w_client w"
  shows "streamStep (absStream w) None (absStream (subReturn i w'))"
proof (rule absStream_join [OF assms(2)])
  show "w_out (subReturn i w') = w_out w" "w_client (subReturn i w') = (w_client w)(i := Seq i (w_b w'))"
    using assms(3,4) by (simp_all add: subReturn_def)
  show "n \<le> length (w_out w)" if "Seq i (w_b w') = Some n" for n
    using assms(1,3) that by (auto simp: worldInv_def ringInv_def subReturn_def)
qed

lemma subContinue_stream:
  assumes "worldInv (subContinue i need w')" "w_client w i = None" "w_out w' = w_out w" "w_client w' = w_client w"
  shows "streamStep (absStream w) None (absStream (subContinue i need w'))"
proof (cases "fst (subscribeRecheck i need (w_b w'))")
  case True
  then show ?thesis using assms by (intro absStream_same) (simp_all add: subContinue_def split_beta)
next
  case False
  then have "subContinue i need w' = subReturn i w'" by (simp add: subContinue_def split_beta)
  then show ?thesis using subReturn_stream assms by simp
qed

lemma ptyStep_stream:
  assumes st: "ptyStep canDie w l w'" and inv: "worldInv w"
  shows "streamStep (absStream w) l (absStream w')"
proof -
  have inv': "worldInv w'" by (rule worldInv_step [OF st inv])
  from st show ?thesis
  proof (cases rule: ptyStep.cases)
    case (feedS p)
    then show ?thesis using streamStep.grow [of "absStream w" p] by (simp add: absStream_def)
  next
    case (nextS i c r b) then show ?thesis using absStream_next [OF inv] by simp
  next
    case (subCheckS i t need)
    then show ?thesis using subContinue_stream [OF inv' [unfolded subCheckS(2)], of w] worldInv_paintD(1) [OF inv] by simp
  next
    case (subBlankS i t gen gen' snap b)
    then show ?thesis using subReturn_stream [OF inv' [unfolded subBlankS(2)], of w] worldInv_paintD(1) [OF inv] by simp
  next
    case (subInstallS i t rp)
    then show ?thesis using subReturn_stream [OF inv' [unfolded subInstallS(2)], of w] worldInv_paintD(1) [OF inv] by simp
  qed (auto intro!: absStream_same)
qed

lemma worldInv_init: "worldInv initWorld"
  by (simp add: worldInv_def clientInv_def ringInv_def initWorld_def newPTYBroker_def Seq_def openIds_def)

interpretation ptyStream: forward_simulation worldInv "ptyStep canDie" absStream streamStep for canDie
  by unfold_locales (auto intro: worldInv_step ptyStep_stream)

subsection \<open>What a client of the specification can put together\<close>

fun dataTo :: "nat \<Rightarrow> (nat \<times> nextResult) option list \<Rightarrow> string" where
  "dataTo i [] = []"
| "dataTo i (Some (j, Emit (PTYData p)) # ls) = (if j = i then p else []) @ dataTo i ls"
| "dataTo i (l # ls) = dataTo i ls"

definition jumped :: "nat \<Rightarrow> (nat \<times> nextResult) option list \<Rightarrow> bool" where
  "jumped i ls \<longleftrightarrow> (\<exists>n. Some (i, Emit (PTYCursor n)) \<in> set ls)"

lemma dataTo_Cons: "dataTo i (l # ls) = dataTo i [l] @ dataTo i ls"
  by (cases "(i, l # ls)" rule: dataTo.cases) auto

lemma streamStep_pos:
  assumes "streamStep s l s'" "ss_pos s i = Some c" "c \<le> length (ss_out s)"
  shows "\<exists>c' ext. ss_pos s' i = Some c' \<and> ss_out s' = ss_out s @ ext \<and> c \<le> c' \<and> c' \<le> length (ss_out s') \<and>
    (\<not> jumped i [l] \<longrightarrow> c' = c + length (dataTo i [l]) \<and> dataTo i [l] = take (length (dataTo i [l])) (drop c (ss_out s')))"
  using assms
proof cases
  case (other j c r)
  then show ?thesis using assms by (cases r; cases "(i, [l])" rule: dataTo.cases) (auto simp: jumped_def)
qed (auto simp: jumped_def)

lemma stream_run:
  assumes "runs streamStep s ls s'" "ss_pos s i = Some c" "c \<le> length (ss_out s)"
  shows "\<exists>c' ext. ss_pos s' i = Some c' \<and> ss_out s' = ss_out s @ ext \<and> c \<le> c' \<and> c' \<le> length (ss_out s') \<and>
    (\<not> jumped i ls \<longrightarrow> c' = c + length (dataTo i ls) \<and> dataTo i ls = take (length (dataTo i ls)) (drop c (ss_out s')))"
  using assms
proof (induction ls arbitrary: s c)
  case (Cons l ls)
  then obtain t where t: "streamStep s l t" "runs streamStep t ls s'" by auto
  obtain d e where d: "ss_pos t i = Some d" "ss_out t = ss_out s @ e" "c \<le> d" "d \<le> length (ss_out t)"
    "\<not> jumped i [l] \<longrightarrow> d = c + length (dataTo i [l]) \<and> dataTo i [l] = take (length (dataTo i [l])) (drop c (ss_out t))"
    using streamStep_pos [OF t(1) Cons.prems(2,3)] by blast
  obtain c' ext where c': "ss_pos s' i = Some c'" "ss_out s' = ss_out t @ ext" "d \<le> c'" "c' \<le> length (ss_out s')"
    "\<not> jumped i ls \<longrightarrow> c' = d + length (dataTo i ls) \<and> dataTo i ls = take (length (dataTo i ls)) (drop d (ss_out s'))"
    using Cons.IH [OF t(2) d(1,4)] by blast
  have j: "jumped i (l # ls) \<longleftrightarrow> jumped i [l] \<or> jumped i ls" by (auto simp: jumped_def)
  have "dataTo i [l] @ dataTo i ls = take (length (dataTo i [l]) + length (dataTo i ls)) (drop c (ss_out s'))"
    if "\<not> jumped i (l # ls)"
  proof -
    let ?a = "dataTo i [l]" and ?b = "dataTo i ls"
    have a: "d = c + length ?a" "?a = take (length ?a) (drop c (ss_out t))" using d(5) that j by blast+
    have b: "?b = take (length ?b) (drop d (ss_out s'))" using c'(5) that j by blast
    have "length ?a \<le> length (drop c (ss_out t))" using a(1) d(4) by simp
    then have "?a = take (length ?a) (drop c (ss_out s'))" using a(2) c'(2) d(3,4) by simp
    then show ?thesis using b a(1) by (metis take_add drop_drop add.commute)
  qed
  then have "\<not> jumped i (l # ls) \<longrightarrow> c' = c + length (dataTo i (l # ls)) \<and>
      dataTo i (l # ls) = take (length (dataTo i (l # ls))) (drop c (ss_out s'))"
    using c'(5) d(5) j unfolding dataTo_Cons [of i l ls] length_append by (metis add.assoc)
  then show ?case using c'(1-4) d(2,3) by auto
qed simp

end
