(* ===== verification/Pty_Recovery.thy ===== *)
theory Pty_Recovery
  imports Pty_Stream
begin

text \<open>
  The recovery of a dead capture: somebody always drives it, subscribers are held behind a barrier
  while it runs, and the repaint they are owed reaches them before any output does.
\<close>

subsection \<open>Nobody waits for a recovery that nobody drives\<close>

text \<open>Who holds \<^verbatim>\<open>captureMu\<close>, what the capture flags then say, and whether the read loop runs.\<close>

fun capFlags :: "capPC \<Rightarrow> bool \<Rightarrow> bool \<Rightarrow> bool \<Rightarrow> bool" where
  "capFlags (CapSubDial i need) capturing ended loop \<longleftrightarrow> \<not> capturing \<and> \<not> ended \<and> \<not> loop"
| "capFlags (CapDial r a) capturing ended loop \<longleftrightarrow> \<not> capturing \<and> \<not> ended \<and> \<not> loop"
| "capFlags CapStopping capturing ended loop \<longleftrightarrow> \<not> capturing"
| "capFlags (CapJoin r a) capturing ended loop \<longleftrightarrow> \<not> capturing"
| "capFlags _ capturing ended loop \<longleftrightarrow> (capturing \<and> \<not> ended \<longleftrightarrow> loop)"

fun capBy :: "capPC \<Rightarrow> recoverer option" where
  "capBy (CapJoin r a) = Some r"
| "capBy (CapDial r a) = Some r"
| "capBy (CapSnap r a g) = Some r"
| "capBy (CapRelease r a rp) = Some r"
| "capBy _ = None"

definition driveInv :: "ptyWorld \<Rightarrow> bool" where
  "driveInv w \<longleftrightarrow>
     capFlags (w_cap w) (br_capturing (w_b w)) (br_captureEnded (w_b w)) (w_loop w) \<and>
     (w_loop w \<longrightarrow> \<not> br_captureEnded (w_b w)) \<and>
     (br_redialing (w_b w) \<longleftrightarrow> w_redial w \<noteq> RNone) \<and>
     w_redial w \<notin> {RDeadWant, RDeadBusy, RDeadClear} \<and>
     capBy (w_cap w) \<notin> {Some ByRedialDead, Some ByWatch} \<and>
     (capBy (w_cap w) = Some ByRedial \<longrightarrow> w_redial w = RBusy) \<and>
     (w_redial w = RBusy \<longrightarrow> capBy (w_cap w) = Some ByRedial) \<and>
     w_watch w = 0 \<and>
     (\<not> br_closed (w_b w) \<and> br_capturing (w_b w) \<and> br_captureEnded (w_b w) \<and> br_subs (w_b w) \<noteq> [] \<longrightarrow>
        w_redial w \<noteq> RNone \<or> w_pend w \<noteq> [])"

lemma sections_flags [simp]:
  "br_capturing (feed p b) = br_capturing b" "br_captureEnded (feed p b) = br_captureEnded b" "br_redialing (feed p b) = br_redialing b"
  "br_closed (feed p b) = br_closed b" "br_subs (feed p b) = br_subs b"
  "br_capturing (adoptSnapshotSize sn g b) = br_capturing b" "br_captureEnded (adoptSnapshotSize sn g b) = br_captureEnded b"
  "br_redialing (adoptSnapshotSize sn g b) = br_redialing b" "br_closed (adoptSnapshotSize sn g b) = br_closed b"
  "br_subs (adoptSnapshotSize sn g b) = br_subs b"
  by (simp_all add: feed_def Let_def adoptSnapshotSize_def)

lemma NextEvent_flags:
  assumes "NextEvent i b = (r, b')"
  shows "br_capturing b' = br_capturing b" "br_captureEnded b' = br_captureEnded b" "br_redialing b' = br_redialing b"
    "br_closed b' = br_closed b" "br_subs b' = br_subs b"
  using assms by (auto simp: NextEvent_def split: option.splits prod.splits)

lemma install_flags [simp]:
  "br_capturing (installRepaint i n rp b) = br_capturing b" "br_captureEnded (installRepaint i n rp b) = br_captureEnded b"
  "br_redialing (installRepaint i n rp b) = br_redialing b" "br_closed (installRepaint i n rp b) = br_closed b"
  "br_subs (installRepaint i n rp b) = br_subs b"
  by (simp_all add: installRepaint_def)

lemma adopt_flags:
  assumes "subscribeAdopt g sn b = (rp, b')"
  shows "br_capturing b' = br_capturing b" "br_captureEnded b' = br_captureEnded b" "br_redialing b' = br_redialing b"
    "br_closed b' = br_closed b" "br_subs b' = br_subs b"
  using assms by (auto simp: subscribeAdopt_def split: option.splits)

lemma subContinue_flags [simp]:
  "w_b (subContinue i need w) = w_b w" "w_cap (subContinue i need w) = w_cap w" "w_loop (subContinue i need w) = w_loop w"
  "w_redial (subContinue i need w) = w_redial w" "w_watch (subContinue i need w) = w_watch w" "w_pend (subContinue i need w) = w_pend w"
  by (simp_all add: subContinue_def subReturn_def split: prod.split)

lemma subReturn_flags [simp]:
  "w_b (subReturn i w) = w_b w" "w_cap (subReturn i w) = w_cap w" "w_loop (subReturn i w) = w_loop w"
  "w_redial (subReturn i w) = w_redial w" "w_watch (subReturn i w) = w_watch w" "w_pend (subReturn i w) = w_pend w"
  by (simp_all add: subReturn_def)

lemma register_flags:
  assumes "subscribeRegister since b = (Some (i, need), b')"
  shows "br_capturing b' = br_capturing b" "br_captureEnded b' = br_captureEnded b" "br_redialing b' = br_redialing b" "br_closed b' = br_closed b" "br_subs b' = br_subs b @ [i]"
  using assms by (auto simp: subscribeRegister_def Let_def split: if_splits option.splits)

lemma ensureClosed_flags:
  assumes "ensureBegin b = (EnsureClosed, b')"
  shows "br_closed b" "b' = b"
  using assms by (auto simp: ensureBegin_def Let_def split: if_splits option.splits)

lemma ensureRunning_flags:
  assumes "ensureBegin b = (EnsureRunning, b')"
  shows "br_capturing b" "\<not> br_captureEnded b" "b' = b"
  using assms by (auto simp: ensureBegin_def Let_def split: if_splits option.splits)

lemma ensureDial_flags:
  assumes "ensureBegin b = (EnsureDial, b')"
  shows "br_redialing b' = br_redialing b" "br_closed b' = br_closed b" "br_subs b' = br_subs b" "\<not> br_capturing b'" "\<not> br_captureEnded b'" "\<not> br_closed b" "\<not> (br_capturing b \<and> \<not> br_captureEnded b)"
  using assms by (auto simp: ensureBegin_def Let_def split: if_splits option.splits)

lemma remove_flags:
  assumes "remove i b = (lst, b')"
  shows "br_capturing b' = br_capturing b" "br_captureEnded b' = br_captureEnded b" "br_redialing b' = br_redialing b" "br_closed b' = br_closed b" "br_subs b' \<noteq> [] \<Longrightarrow> br_subs b \<noteq> []"
  using assms by (auto simp: remove_def Let_def split: if_splits option.splits)

lemma maybeStop_flags:
  assumes "maybeStopCapture b = (stop, b')"
  shows "br_captureEnded b' = br_captureEnded b" "br_redialing b' = br_redialing b" "br_closed b' = br_closed b" "br_subs b' = br_subs b" "br_capturing b' \<longleftrightarrow> br_capturing b \<and> \<not> stop"
  using assms by (auto simp: maybeStopCapture_def Let_def split: if_splits option.splits)

lemma shutdown_flags:
  assumes "shutdown tab b = (stop, b')"
  shows "br_captureEnded b' = br_captureEnded b" "br_redialing b' = br_redialing b" "br_subs b' = br_subs b" "br_closed b'" "stop \<Longrightarrow> \<not> br_capturing b'" "\<not> stop \<Longrightarrow> br_capturing b' = br_capturing b"
  using assms by (auto simp: shutdown_def Let_def split: if_splits option.splits)

lemma recoverBegin_flags:
  assumes "recoverBegin g b = (Some (armed, stop), b')"
  shows "br_captureEnded b' = br_captureEnded b" "br_redialing b' = br_redialing b" "br_closed b' = br_closed b" "br_subs b' = br_subs b" "\<not> br_capturing b'"
  using assms by (auto simp: recoverBegin_def armRecoveryRepaintLocked_def Let_def split: if_splits option.splits)

lemma discard_flags:
  assumes "recoverDiscard g b = (resume, b')"
  shows "br_capturing b' = br_capturing b" "br_captureEnded b' = br_captureEnded b" "br_redialing b' = br_redialing b" "br_closed b' = br_closed b" "br_subs b' = br_subs b" "resume \<longleftrightarrow> \<not> br_closed b \<and> br_subs b \<noteq> []"
  using assms by (auto simp: recoverDiscard_def Let_def split: if_splits option.splits)

lemma redialStop_flags:
  assumes "redialDecide b = (None, b')"
  shows "br_capturing b' = br_capturing b" "br_captureEnded b' = br_captureEnded b" "br_closed b' = br_closed b" "br_subs b' = br_subs b" "\<not> br_redialing b'" "br_closed b \<or> (br_capturing b \<and> \<not> br_captureEnded b) \<or> br_subs b = []"
  using assms by (auto simp: redialDecide_def Let_def split: if_splits option.splits)

lemma redialSleep_flags:
  assumes "redialDecide b = (Some d, b')"
  shows "br_capturing b' = br_capturing b" "br_captureEnded b' = br_captureEnded b" "br_redialing b' = br_redialing b" "br_closed b' = br_closed b" "br_subs b' = br_subs b"
  using assms by (auto simp: redialDecide_def Let_def split: if_splits option.splits)

lemma recoveryRepaint_flags:
  assumes "recoveryRepaint g sn b = (rp, b')"
  shows "br_capturing b' = br_capturing b" "br_captureEnded b' = br_captureEnded b" "br_redialing b' = br_redialing b" "br_closed b' = br_closed b" "br_subs b' = br_subs b"
  using assms by (auto simp: recoveryRepaint_def Let_def split: if_splits option.splits)

lemma simple_flags [simp]:
  "br_capturing (resize r c b) = br_capturing b" "br_captureEnded (resize r c b) = br_captureEnded b"
  "br_redialing (resize r c b) = br_redialing b" "br_closed (resize r c b) = br_closed b" "br_subs (resize r c b) = br_subs b"
  "br_capturing (ensureInstall now b)" "br_captureEnded (ensureInstall now b) = br_captureEnded b"
  "br_redialing (ensureInstall now b) = br_redialing b" "br_closed (ensureInstall now b) = br_closed b"
  "br_subs (ensureInstall now b) = br_subs b"
  "br_capturing (redialClear b) = br_capturing b" "br_captureEnded (redialClear b) = br_captureEnded b"
  "\<not> br_redialing (redialClear b)" "br_closed (redialClear b) = br_closed b" "br_subs (redialClear b) = br_subs b"
  "br_capturing (releaseRecoveryRepaint rep a rp b) = br_capturing b"
  "br_captureEnded (releaseRecoveryRepaint rep a rp b) = br_captureEnded b"
  "br_redialing (releaseRecoveryRepaint rep a rp b) = br_redialing b"
  "br_closed (releaseRecoveryRepaint rep a rp b) = br_closed b" "br_subs (releaseRecoveryRepaint rep a rp b) = br_subs b"
  by (simp_all add: resize_def ensureInstall_def redialClear_def releaseRecoveryRepaint_def)

lemma discardEnsure_flags:
  assumes "recoverDiscard g b = (resume, b')" "b'' = snd (if resume then ensureBegin b' else (EnsureDial, b'))" "\<not> br_capturing b"
  shows "\<not> br_capturing b''" "resume \<Longrightarrow> \<not> br_captureEnded b''" "br_redialing b'' = br_redialing b"
  using assms discard_flags [OF assms(1)] by (auto simp: ensureBegin_def)

lemma loopExit_flags:
  assumes "readLoopExit now b = (start, b')"
  shows "br_captureEnded b'" "br_capturing b' = br_capturing b" "br_closed b' = br_closed b" "br_subs b' = br_subs b"
    "start \<longleftrightarrow> br_capturing b \<and> \<not> br_closed b \<and> \<not> br_redialing b" "br_redialing b' \<longleftrightarrow> br_redialing b \<or> start"
  using assms by (auto simp: readLoopExit_def Let_def split: if_splits)

lemma capFlags_ended: "capFlags c x False True \<Longrightarrow> capFlags c x True False"
  by (cases c) auto

lemma driveInv_step:
  assumes "ptyStep False w l w'" "driveInv w"
  shows "driveInv w'"
  using assms(1)
proof (cases rule: ptyStep.cases)
  case (nextS i c r b)
  then show ?thesis using assms(2) NextEvent_flags [OF nextS(4)] by (simp add: driveInv_def)
next
  case (loopExitS now start b)
  have "capFlags (w_cap w) (br_capturing b) True False" "\<not> br_captureEnded (w_b w)"
    using assms(2) loopExitS(3) capFlags_ended loopExit_flags(2) [OF loopExitS(4)] by (auto simp: driveInv_def)
  then show ?thesis using assms(2) loopExitS(2) loopExit_flags [OF loopExitS(4)] by (simp add: driveInv_def)
next
  case (registerS since i need b)
  then show ?thesis using assms(2) register_flags [OF registerS(3)] by (simp add: driveInv_def)
next
  case (subClosedS i need b pc)
  then show ?thesis using assms(2) ensureClosed_flags [OF subClosedS(5)] by (simp add: driveInv_def)
next
  case (subRunningS i need b)
  then show ?thesis using assms(2) ensureRunning_flags [OF subRunningS(5)] by (simp add: driveInv_def)
next
  case (subDialS i need b)
  then show ?thesis using assms(2) ensureDial_flags [OF subDialS(5)] by (simp add: driveInv_def)
next
  case (subDialOkS i need now)
  then show ?thesis using assms(2) by (simp add: driveInv_def)
next
  case (subDialFailS i need pc)
  then show ?thesis using assms(2) by (simp add: driveInv_def)
next
  case (subSnapS i t gen gen' snap rp b)
  then show ?thesis using assms(2) adopt_flags [OF subSnapS(6)] by (simp add: driveInv_def)
next
  case (subBlankS i t gen gen' snap b)
  then show ?thesis using assms(2) adopt_flags [OF subBlankS(6)] by (simp add: driveInv_def)
next
  case (subGoneS i t pc lst b)
  then show ?thesis using assms(2) remove_flags [OF subGoneS(5)] by (simp add: driveInv_def)
next
  case (closeS i lst b)
  then show ?thesis using assms(2) remove_flags [OF closeS(4)] by (simp add: driveInv_def)
next
  case (maybeStopS stop b)
  then show ?thesis using assms(2) maybeStop_flags [OF maybeStopS(5)] by (simp add: driveInv_def)
next
  case (shutdownS tab stop b)
  then show ?thesis using assms(2) shutdown_flags [OF shutdownS(4)] by (simp add: driveInv_def)
next
  case (resetS armed stop b)
  then show ?thesis using assms(2) recoverBegin_flags [OF resetS(4)] by (simp add: driveInv_def)
next
  case (redialRecoverS armed stop b)
  then show ?thesis using assms(2) recoverBegin_flags [OF redialRecoverS(5)] by (simp add: driveInv_def)
next
  case (discardS r armed resume b)
  have "\<not> br_capturing (w_b w)" using assms(2) discardS(3) by (simp add: driveInv_def)
  with assms(2) discardS(2-4) discardEnsure_flags [OF discardS(5) refl] show ?thesis by (simp add: driveInv_def)
next
  case (redialStopS b)
  then show ?thesis using assms(2) redialStop_flags [OF redialStopS(4)] by (simp add: driveInv_def) blast
next
  case (redialSleepS delay b)
  then show ?thesis using assms(2) redialSleep_flags [OF redialSleepS(4)] by (simp add: driveInv_def)
next
  case (snapS r armed gen gen' snap rp b)
  then show ?thesis using assms(2) recoveryRepaint_flags [OF snapS(6)] by (simp add: driveInv_def)
next
  case (releaseS r armed rp replays)
  then show ?thesis using assms(2) by (cases r) (simp_all add: driveInv_def afterRecover_def)
qed (insert assms(2), auto simp: driveInv_def)

lemma driveInv_init: "driveInv initWorld"
  by (simp add: driveInv_def initWorld_def newPTYBroker_def)

interpretation ptyDrive: step_invariant driveInv "ptyStep False"
  by unfold_locales (rule driveInv_step)

subsection \<open>The repaint barrier of a recovery\<close>

fun capArmed :: "capPC \<Rightarrow> nat list" where
  "capArmed (CapJoin r a) = a"
| "capArmed (CapDial r a) = a"
| "capArmed (CapSnap r a g) = a"
| "capArmed (CapRelease r a rp) = a"
| "capArmed _ = []"

definition armedIn :: "ptyBroker \<Rightarrow> nat \<Rightarrow> bool" where
  "armedIn b i \<longleftrightarrow> (\<exists>s. br_objs b i = Some s \<and> ps_repaintArmed s)"

definition owed :: "ptyBroker \<Rightarrow> nat \<Rightarrow> bool" where
  "owed b i \<longleftrightarrow> (\<exists>s rp. br_objs b i = Some s \<and> ps_pendingRepaint s = Some rp \<and> rp_provenance rp = PTYRepaintRecovery)"

definition armInv :: "ptyWorld \<Rightarrow> bool" where
  "armInv w \<longleftrightarrow>
     (\<forall>i\<in>set (br_subs (w_b w)). br_objs (w_b w) i \<noteq> None) \<and>
     (\<forall>i\<in>set (capArmed (w_cap w)). armedIn (w_b w) i) \<and>
     (\<forall>r a rp. w_cap w = CapRelease r a (Some rp) \<longrightarrow> rp_provenance rp = PTYRepaintRecovery)"

lemma objs_sections [simp]:
  "br_objs (feed p b) = br_objs b" "br_objs (resize r c b) = br_objs b" "br_objs (adoptSnapshotSize sn g b) = br_objs b"
  "br_objs (snd (remove i b)) = br_objs b" "br_objs (snd (readLoopExit now b)) = br_objs b"
  "br_objs (snd (ensureBegin b)) = br_objs b" "br_objs (ensureInstall now b) = br_objs b"
  "br_objs (snd (maybeStopCapture b)) = br_objs b" "br_objs (snd (shutdown t b)) = br_objs b"
  "br_objs (snd (recoverDiscard only b)) = br_objs b" "br_objs (snd (redialDecide b)) = br_objs b"
  "br_objs (redialClear b) = br_objs b" "br_objs (snd (watchLatch b)) = br_objs b"
  "br_objs (snd (recoveryRepaint g sn' b)) = br_objs b" "br_objs (snd (subscribeAdopt g sn' b)) = br_objs b"
  by (simp_all add: subscribeAdopt_def feed_def resize_def adoptSnapshotSize_def remove_def readLoopExit_def ensureBegin_def ensureInstall_def
      maybeStopCapture_def shutdown_def recoverDiscard_def redialDecide_def redialClear_def watchLatch_def
      recoveryRepaint_def Let_def split: option.split)

lemma subs_sections:
  "br_subs (feed p b) = br_subs b" "br_subs (resize r c b) = br_subs b" "br_subs (adoptSnapshotSize sn g b) = br_subs b"
  "set (br_subs (snd (remove i b))) \<subseteq> set (br_subs b)" "br_subs (snd (readLoopExit now b)) = br_subs b"
  "br_subs (snd (ensureBegin b)) = br_subs b" "br_subs (ensureInstall now b) = br_subs b"
  "br_subs (snd (maybeStopCapture b)) = br_subs b" "br_subs (snd (shutdown t b)) = br_subs b"
  "br_subs (snd (recoverDiscard only b)) = br_subs b" "br_subs (snd (redialDecide b)) = br_subs b"
  "br_subs (redialClear b) = br_subs b" "br_subs (snd (watchLatch b)) = br_subs b"
  "br_subs (snd (recoveryRepaint g sn' b)) = br_subs b" "br_subs (snd (subscribeAdopt g sn' b)) = br_subs b"
  using set_remove1_subset [of i "br_subs b"]
  by (simp_all add: subscribeAdopt_def feed_def resize_def adoptSnapshotSize_def remove_def readLoopExit_def ensureBegin_def ensureInstall_def
      maybeStopCapture_def shutdown_def recoverDiscard_def redialDecide_def redialClear_def watchLatch_def
      recoveryRepaint_def Let_def split: option.split)

lemma armInv_same:
  assumes "armInv w" "br_objs (w_b w') = br_objs (w_b w)" "set (br_subs (w_b w')) \<subseteq> set (br_subs (w_b w))"
    "set (capArmed (w_cap w')) \<subseteq> set (capArmed (w_cap w))"
    "\<And>r a rp. w_cap w' = CapRelease r a (Some rp) \<Longrightarrow> rp_provenance rp = PTYRepaintRecovery"
  shows "armInv w'"
  using assms by (auto simp: armInv_def armedIn_def)

lemma objsI: "br_objs (snd r) = br_objs b \<Longrightarrow> r = (x, b') \<Longrightarrow> br_objs b' = br_objs b"
  by simp

lemma subsI: "set (br_subs (snd r)) \<subseteq> set (br_subs b) \<Longrightarrow> r = (x, b') \<Longrightarrow> set (br_subs b') \<subseteq> set (br_subs b)"
  by simp

lemma foldSub_inv:
  assumes "\<And>s. P s \<Longrightarrow> P (f s)" "\<exists>s. br_objs b i = Some s \<and> P s"
  shows "\<exists>s. br_objs (fold (\<lambda>i. updSub i f) ids b) i = Some s \<and> P s"
  using assms(2)
proof (induction ids arbitrary: b)
  case (Cons j js)
  have "\<exists>s. br_objs (updSub j f b) i = Some s \<and> P s" using Cons.prems assms(1) by (auto simp: updSub_def)
  from Cons.IH [OF this] show ?case by simp
qed simp

lemma foldSub_hit:
  assumes "\<And>s. P s \<Longrightarrow> P (f s)" "\<And>s. Q s \<Longrightarrow> P (f s)" "\<And>s. Q s \<Longrightarrow> Q (f s)"
    "i \<in> set ids" "\<exists>s. br_objs b i = Some s \<and> Q s"
  shows "\<exists>s. br_objs (fold (\<lambda>i. updSub i f) ids b) i = Some s \<and> P s"
  using assms(4,5)
proof (induction ids arbitrary: b)
  case (Cons j js)
  show ?case
  proof (cases "j = i")
    case True
    then have "\<exists>s. br_objs (updSub j f b) i = Some s \<and> P s" using Cons.prems(2) assms(2) by (auto simp: updSub_def)
    from foldSub_inv [of P, OF assms(1) this] show ?thesis by simp
  next
    case False
    then show ?thesis using Cons assms(3) by (simp add: updSub_def)
  qed
qed simp

lemma arm_all:
  assumes "recoverBegin g b = (Some (armed, stop), b')" "\<forall>i\<in>set (br_subs b). br_objs b i \<noteq> None"
  shows "\<forall>i\<in>set armed. armedIn b' i" "br_subs b' = br_subs b" "br_objs b i \<noteq> None \<Longrightarrow> br_objs b' i \<noteq> None"
    "owed b i \<Longrightarrow> owed b' i"
proof -
  have e: "armed = br_subs b"
    "b' = (fold (\<lambda>i. updSub i (\<lambda>s. s\<lparr>ps_repaintArmed := True\<rparr>)) (br_subs b) b)\<lparr>br_capturing := False\<rparr>"
    using assms(1) by (auto simp: recoverBegin_def armRecoveryRepaintLocked_def split: if_splits)
  show "\<forall>i\<in>set armed. armedIn b' i"
  proof
    fix i assume i: "i \<in> set armed"
    have "\<exists>s. br_objs b i = Some s \<and> True" using i assms(2) e(1) by auto
    from foldSub_hit [where Q = "\<lambda>_. True" and P = ps_repaintArmed, OF _ _ _ _ this] i e
    show "armedIn b' i" by (simp add: armedIn_def)
  qed
  show "br_subs b' = br_subs b" using e by simp
  show "br_objs b' i \<noteq> None" if "br_objs b i \<noteq> None"
    using foldSub_inv [where P = "\<lambda>_. True" and b = b and i = i] that e(2) by fastforce
  show "owed b' i" if "owed b i"
    using foldSub_inv [where P = "\<lambda>s. \<exists>rp. ps_pendingRepaint s = Some rp \<and> rp_provenance rp = PTYRepaintRecovery" and b = b and i = i
        and f = "\<lambda>s. s\<lparr>ps_repaintArmed := True\<rparr>"] that e(2) by (auto simp: owed_def)
qed

lemma release_objs:
  assumes "\<And>r. rp = Some r \<Longrightarrow> rp_provenance r = PTYRepaintRecovery"
  shows "br_subs (releaseRecoveryRepaint rep armed rp b) = br_subs b"
    "br_objs b i \<noteq> None \<Longrightarrow> br_objs (releaseRecoveryRepaint rep armed rp b) i \<noteq> None"
    "owed b i \<Longrightarrow> owed (releaseRecoveryRepaint rep armed rp b) i"
proof -
  let ?f = "releaseSub rep (br_base b) rp" and ?P = "\<lambda>s. \<exists>rp. ps_pendingRepaint s = Some rp \<and> rp_provenance rp = PTYRepaintRecovery"
  show "br_subs (releaseRecoveryRepaint rep armed rp b) = br_subs b" by (simp add: releaseRecoveryRepaint_def)
  show "br_objs (releaseRecoveryRepaint rep armed rp b) i \<noteq> None" if "br_objs b i \<noteq> None"
    using foldSub_inv [where P = "\<lambda>_. True" and b = b and i = i and f = ?f] that by (fastforce simp: releaseRecoveryRepaint_def)
  show "owed (releaseRecoveryRepaint rep armed rp b) i" if "owed b i"
    unfolding owed_def releaseRecoveryRepaint_def
    using foldSub_inv [where P = ?P and b = b and i = i and f = ?f and ids = armed] that assms
    by (auto simp: owed_def releaseSub_def Let_def split: option.split)
qed

lemma release_owed:
  assumes "rp_provenance r = PTYRepaintRecovery" "rp_data r \<noteq> []" "i \<in> set armed" "br_objs b i \<noteq> None"
  shows "owed (releaseRecoveryRepaint False armed (Some r) b) i"
proof -
  have "\<exists>s. br_objs b i = Some s \<and> True" using assms(4) by auto
  from foldSub_hit [where Q = "\<lambda>_. True" and f = "releaseSub False (br_base b) (Some r)" and i = i and ids = armed
      and P = "\<lambda>s. \<exists>rp. ps_pendingRepaint s = Some rp \<and> rp_provenance rp = PTYRepaintRecovery", OF _ _ _ assms(3) this]
  show ?thesis using assms(1,2) by (auto simp: owed_def releaseRecoveryRepaint_def releaseSub_def)
qed

lemma next_armed:
  assumes "NextEvent i b = (r, b')"
  shows "br_subs b' = br_subs b" "br_objs b j \<noteq> None \<Longrightarrow> br_objs b' j \<noteq> None" "armedIn b j \<Longrightarrow> armedIn b' j"
    "armedIn b i \<Longrightarrow> \<not> movesCursor r" "owed b i \<Longrightarrow> \<not> movesCursor r"
    "j \<noteq> i \<Longrightarrow> owed b j \<Longrightarrow> owed b' j"
    "owed b i \<Longrightarrow> (case r of Emit (PTYRepaint rp) \<Rightarrow> rp_provenance rp = PTYRepaintRecovery | _ \<Rightarrow> owed b' i)"
proof -
  show "br_subs b' = br_subs b" by (rule NextEvent_flags(5) [OF assms])
  obtain s s' where o: "br_objs b i = None \<and> b' = b \<and> r = ErrEOF \<or>
     br_objs b i = Some s \<and> nextEventObj b s = (r, s') \<and> b' = b\<lparr>br_objs := (br_objs b)(i \<mapsto> s')\<rparr>"
    using assms by (auto simp: NextEvent_def split: option.splits prod.splits)
  show "br_objs b' j \<noteq> None" if "br_objs b j \<noteq> None" using o that by auto
  have k: "ps_repaintArmed s' = ps_repaintArmed s" "ps_repaintArmed s \<Longrightarrow> \<not> movesCursor r"
    "ps_pendingRepaint s \<noteq> None \<Longrightarrow> \<not> movesCursor r"
    "ps_pendingRepaint s = Some rp \<Longrightarrow> r = Emit (PTYRepaint rp) \<or> (\<forall>x. r \<noteq> Emit (PTYRepaint x)) \<and> ps_pendingRepaint s' = Some rp"
    if "nextEventObj b s = (r, s')" for rp
    using that by (auto simp: nextEventObj_def split: if_splits option.splits)
  show "armedIn b' j" if "armedIn b j" using o k(1) that by (auto simp: armedIn_def)
  show "\<not> movesCursor r" if "armedIn b i" using o k(2) that by (auto simp: armedIn_def)
  show "\<not> movesCursor r" if "owed b i" using o k(3) that by (auto simp: owed_def)
  show "owed b' j" if "j \<noteq> i" "owed b j" using o that by (auto simp: owed_def)
  show "case r of Emit (PTYRepaint rp) \<Rightarrow> rp_provenance rp = PTYRepaintRecovery | _ \<Rightarrow> owed b' i" if "owed b i"
  proof -
    from that o obtain rp where rp: "nextEventObj b s = (r, s')" "ps_pendingRepaint s = Some rp" "rp_provenance rp = PTYRepaintRecovery"
      "b' = b\<lparr>br_objs := (br_objs b)(i \<mapsto> s')\<rparr>" by (auto simp: owed_def)
    from k(4) [OF rp(1,2)] rp(3,4) show ?thesis by (auto simp: owed_def split: nextResult.split PTYEvent.split)
  qed
qed

lemma install_armed:
  "armedIn b j \<Longrightarrow> armedIn (installRepaint i t rp b) j" "br_objs b j \<noteq> None \<Longrightarrow> br_objs (installRepaint i t rp b) j \<noteq> None"
  "br_subs (installRepaint i t rp b) = br_subs b" "j \<noteq> i \<Longrightarrow> br_objs (installRepaint i t rp b) j = br_objs b j"
  by (auto simp: armedIn_def installRepaint_def updSub_def)

lemmas objs_eqs = objs_sections(4) [THEN objsI] objs_sections(5) [THEN objsI] objs_sections(6) [THEN objsI]
  objs_sections(8) [THEN objsI] objs_sections(9) [THEN objsI] objs_sections(11) [THEN objsI] objs_sections(13) [THEN objsI]
  objs_sections(14) [THEN objsI] objs_sections(15) [THEN objsI]

lemma subsI': "br_subs (snd r) = br_subs b \<Longrightarrow> r = (x, b') \<Longrightarrow> br_subs b' = br_subs b"
  by simp

lemmas subs_eqs = subs_sections(5) [THEN subsI'] subs_sections(6) [THEN subsI']
  subs_sections(8) [THEN subsI'] subs_sections(9) [THEN subsI'] subs_sections(11) [THEN subsI'] subs_sections(13) [THEN subsI']
  subs_sections(14) [THEN subsI'] subs_sections(15) [THEN subsI']

lemma subContinue_cap [simp]: "w_client (subContinue i need w) = w_client w \<or> w_client (subContinue i need w) = (w_client w)(i := Seq i (w_b w))"
  by (simp add: subContinue_def subReturn_def split: prod.split)

lemma armInv_keep:
  assumes "armInv w" "\<And>j. br_objs (w_b w) j \<noteq> None \<Longrightarrow> br_objs (w_b w') j \<noteq> None"
    "\<And>j. armedIn (w_b w) j \<Longrightarrow> armedIn (w_b w') j" "br_subs (w_b w') = br_subs (w_b w)"
    "w_cap w' = w_cap w \<or> w_cap w' = CapFree"
  shows "armInv w'"
  using assms by (elim disjE) (simp_all add: armInv_def)

lemma register_objs:
  assumes "ringInv b out" "subscribeRegister since b = (Some (i, need), b')"
  shows "br_objs b i = None" "j \<noteq> i \<Longrightarrow> br_objs b' j = br_objs b j" "br_objs b' i \<noteq> None" "br_subs b' = br_subs b @ [i]"
proof -
  have "i = Suc (br_nextSubID b)" by (rule ringInv_register(2) [OF assms])
  then show "br_objs b i = None" using assms(1) by (cases "br_objs b i") (fastforce simp: ringInv_def Seq_def)+
  show "j \<noteq> i \<Longrightarrow> br_objs b' j = br_objs b j" "br_objs b' i \<noteq> None" "br_subs b' = br_subs b @ [i]"
    using assms(2) by (auto simp: subscribeRegister_def Let_def split: if_splits)
qed

lemma armInv_step:
  assumes st: "ptyStep canDie w l w'" and inv: "worldInv w" and arm: "armInv w"
  shows "armInv w'"
  using st
proof (cases rule: ptyStep.cases)
  case (nextS i c r b)
  then show ?thesis using next_armed(1-3) [OF nextS(4)] by (intro armInv_keep [OF arm]) simp_all
next
  case (registerS since i need b)
  have "ringInv (w_b w) (w_out w)" using inv by (simp add: worldInv_def)
  note e = register_objs [OF this registerS(3)]
  have "armedIn b j" if "armedIn (w_b w) j" for j using that e(1) e(2) [of j] by (cases "j = i") (auto simp: armedIn_def)
  moreover have "br_objs b j \<noteq> None" if "br_objs (w_b w) j \<noteq> None" for j using that e(1) e(2) [of j] by (cases "j = i") auto
  ultimately show ?thesis using arm registerS(2) e(3,4) by (auto simp: armInv_def)
next
  case (subInstallS i t rp)
  then show ?thesis using install_armed by (intro armInv_keep [OF arm]) simp_all
next
  case (subGoneS i t pc lst b)
  then show ?thesis using objs_sections(4) [of i "w_b w"] subs_sections(4) [of i "w_b w"] arm
    by (intro armInv_same [OF arm]) (auto simp: armInv_def)
next
  case (closeS i lst b)
  then show ?thesis using objs_sections(4) [of i "w_b w"] subs_sections(4) [of i "w_b w"] arm
    by (intro armInv_same [OF arm]) (auto simp: armInv_def)
next
  case (resetS armed stop b)
  then show ?thesis using arm arm_all(1-3) [OF resetS(4)] by (simp add: armInv_def)
next
  case (redialRecoverS armed stop b)
  then show ?thesis using arm arm_all(1-3) [OF redialRecoverS(5)] by (simp add: armInv_def)
next
  case (redialDeadRecoverS armed stop b)
  then show ?thesis using arm arm_all(1-3) [OF redialDeadRecoverS(5)] by (simp add: armInv_def)
next
  case (watchRecoverS armed stop b)
  then show ?thesis using arm arm_all(1-3) [OF watchRecoverS(5)] by (simp add: armInv_def)
next
  case (discardS r armed resume b)
  have "b = snd (recoverDiscard (guarded r) (w_b w))" using discardS(5) by simp
  then show ?thesis using discardS(2,3) by (intro armInv_same [OF arm]) (simp_all add: subs_sections split: if_splits)
next
  case (snapS r armed gen gen' snap rp b)
  then show ?thesis using arm objs_sections(14) [of gen' snap "w_b w"] subs_sections(14) [of gen' snap "w_b w"]
    by (intro armInv_same [OF arm]) (auto simp: recoveryRepaint_def Let_def split: option.splits if_splits)
next
  case (releaseS r armed rp replays)
  have p: "\<And>x. rp = Some x \<Longrightarrow> rp_provenance x = PTYRepaintRecovery" using arm releaseS(3) by (simp add: armInv_def)
  then show ?thesis using arm releaseS(2) release_objs(1,2) [OF p] by (simp add: armInv_def)
qed (rule armInv_same [OF arm]; use arm in \<open>auto simp: armInv_def subs_sections dest: objs_eqs subs_eqs split: if_splits\<close>)+

text \<open>A recovery repaint that a client is owed stays owed until it is sent, and holds the output back.\<close>

fun sentOr :: "nat \<Rightarrow> (nat \<times> nextResult) option \<Rightarrow> bool \<Rightarrow> bool" where
  "sentOr i (Some (j, Emit (PTYRepaint rp))) P \<longleftrightarrow> (if j = i then rp_provenance rp = PTYRepaintRecovery else P)"
| "sentOr i (Some (j, r)) P \<longleftrightarrow> P \<and> (j = i \<longrightarrow> \<not> movesCursor r)"
| "sentOr i None P \<longleftrightarrow> P"

lemma owed_cong: "br_objs b' i = br_objs b i \<Longrightarrow> owed b i \<Longrightarrow> owed b' i"
  by (simp add: owed_def)

lemma owed_step:
  assumes st: "ptyStep canDie w l w'" and inv: "worldInv w" "armInv w" and i: "w_client w i \<noteq> None" and ow: "owed (w_b w) i"
  shows "sentOr i l (owed (w_b w') i)"
proof -
  have ni: "i \<notin> set (openIds w)" using inv(1) i by (auto simp: worldInv_def clientInv_def)
  have npt: "j \<noteq> i" if "(j, x) \<in> set (w_paint w)" for j x using that ni by (force simp: openIds_def)
  from st show ?thesis
  proof (cases rule: ptyStep.cases)
    case (nextS j c r b)
    note n = next_armed [OF nextS(4)]
    show ?thesis
    proof (cases "j = i")
      case True
      then show ?thesis using n(5) n(7) ow nextS(1,2)
        by (cases r) (auto split: PTYEvent.splits)
    next
      case False
      then show ?thesis using n(6) [of i] ow nextS(1,2) by (cases "(i, l, True)" rule: sentOr.cases) auto
    qed
  next
    case (registerS since j need b)
    have "ringInv (w_b w) (w_out w)" using inv by (simp add: worldInv_def)
    note e = register_objs [OF this registerS(3)]
    have "j \<noteq> i" using e(1) ow by (auto simp: owed_def)
    then show ?thesis using e(2) [of i] ow registerS(1,2) by (simp add: owed_def)
  next
    case (resetS armed stop b)
    then show ?thesis using inv(2) arm_all(4) [OF resetS(4)] ow by (simp add: armInv_def)
  next
    case (redialRecoverS armed stop b)
    then show ?thesis using inv(2) arm_all(4) [OF redialRecoverS(5)] ow by (simp add: armInv_def)
  next
    case (redialDeadRecoverS armed stop b)
    then show ?thesis using inv(2) arm_all(4) [OF redialDeadRecoverS(5)] ow by (simp add: armInv_def)
  next
    case (watchRecoverS armed stop b)
    then show ?thesis using inv(2) arm_all(4) [OF watchRecoverS(5)] ow by (simp add: armInv_def)
  next
    case (releaseS r armed rp replays)
    have "\<And>x. rp = Some x \<Longrightarrow> rp_provenance x = PTYRepaintRecovery" using inv(2) releaseS(3) by (simp add: armInv_def)
    from release_objs(3) [OF this ow] releaseS(1,2) show ?thesis by simp
  next
    case (subInstallS j t rp)
    have "j \<noteq> i" using npt subInstallS(3) by blast
    with subInstallS(1,2) install_armed(4) [of i j] ow show ?thesis by (simp add: owed_def)
  next
    case (discardS r armed resume b)
    have "b = snd (recoverDiscard (guarded r) (w_b w))" using discardS(5) by simp
    then show ?thesis using discardS(1,2) ow by (simp add: owed_def)
  qed (use ow in \<open>auto simp: owed_def dest: objs_eqs split: if_splits\<close>)
qed

definition barrierInv :: "ptyWorld \<Rightarrow> bool" where
  "barrierInv w \<longleftrightarrow> worldInv w \<and> armInv w"

lemma barrierInv_init: "barrierInv initWorld"
  using worldInv_init by (simp add: barrierInv_def armInv_def initWorld_def newPTYBroker_def)

interpretation ptyBarrier: step_invariant barrierInv "ptyStep canDie" for canDie
  by unfold_locales (auto simp: barrierInv_def intro: worldInv_step armInv_step)

text \<open>The first event a client is sent that paints something or moves its cursor.\<close>

fun firstContent :: "nat \<Rightarrow> (nat \<times> nextResult) option list \<Rightarrow> PTYEvent option" where
  "firstContent i [] = None"
| "firstContent i (Some (j, Emit (PTYResize r c)) # ls) = firstContent i ls"
| "firstContent i (Some (j, Emit ev) # ls) = (if j = i then Some ev else firstContent i ls)"
| "firstContent i (l # ls) = firstContent i ls"

definition recoveryFirst :: "PTYEvent option \<Rightarrow> bool" where
  "recoveryFirst e \<longleftrightarrow> e = None \<or> (\<exists>rp. e = Some (PTYRepaint rp) \<and> rp_provenance rp = PTYRepaintRecovery)"

lemma client_stays:
  assumes "ptyStep canDie w l w'" "worldInv w" "w_client w i = Some c"
  shows "w_client w' i \<noteq> None"
proof -
  have "c \<le> length (w_out w)" using assms(2,3) by (auto simp: worldInv_def clientInv_def ringInv_def)
  with streamStep_pos [OF ptyStep_stream [OF assms(1,2)], of i c] assms(3) show ?thesis by (auto simp: absStream_def)
qed

lemma firstContent_sent:
  "sentOr i l P \<Longrightarrow> (P \<Longrightarrow> recoveryFirst (firstContent i ls)) \<Longrightarrow> recoveryFirst (firstContent i (l # ls))"
  by (cases "(i, l # ls)" rule: firstContent.cases) (auto simp: recoveryFirst_def split: if_splits)

lemma owed_run:
  assumes "runs (ptyStep canDie) w ls w'" "barrierInv w" "w_client w i \<noteq> None" "owed (w_b w) i"
  shows "recoveryFirst (firstContent i ls)"
  using assms
proof (induction ls arbitrary: w)
  case (Cons l ls)
  then obtain t where t: "ptyStep canDie w l t" "runs (ptyStep canDie) t ls w'" by auto
  have b: "worldInv w" "armInv w" "barrierInv t" using Cons.prems(2) ptyBarrier.step_keeps [OF t(1)] by (simp_all add: barrierInv_def)
  have "w_client t i \<noteq> None" using client_stays [OF t(1) b(1)] Cons.prems(3) by auto
  from Cons.IH [OF t(2) b(3) this] have "owed (w_b t) i \<Longrightarrow> recoveryFirst (firstContent i ls)" .
  with owed_step [OF t(1) b(1,2) Cons.prems(3,4)] show ?case by (rule firstContent_sent)
qed (simp add: recoveryFirst_def)

subsection \<open>The ring's bound and the size generation\<close>

definition sizeInv :: "ptyWorld \<Rightarrow> bool" where
  "sizeInv w \<longleftrightarrow> br_maxBytes (w_b w) = ptyRingMaxBytes \<and> (br_hasSize (w_b w) \<longrightarrow> 0 < br_resizeGen (w_b w))"

definition sizeKept :: "ptyBroker \<Rightarrow> ptyBroker \<Rightarrow> bool" where
  "sizeKept b b' \<longleftrightarrow> br_maxBytes b' = br_maxBytes b \<and>
     (br_hasSize b' \<longrightarrow> br_hasSize b \<and> br_resizeGen b' = br_resizeGen b \<or> 0 < br_resizeGen b')"

lemma size_sections:
  "sizeKept b (feed p b)" "sizeKept b (resize r c b)" "sizeKept b (adoptSnapshotSize sn g b)" "sizeKept b (snd (remove i b))"
  "sizeKept b (snd (readLoopExit now b))" "sizeKept b (snd (ensureBegin b))" "sizeKept b (ensureInstall now b)"
  "sizeKept b (snd (maybeStopCapture b))" "sizeKept b (snd (shutdown t b))" "sizeKept b (snd (recoverDiscard only b))"
  "sizeKept b (snd (redialDecide b))" "sizeKept b (redialClear b)" "sizeKept b (snd (watchLatch b))"
  "sizeKept b (snd (recoveryRepaint g sn' b))" "sizeKept b (snd (recoverBegin only b))"
  "sizeKept b (releaseRecoveryRepaint rep a rp b)" "sizeKept b (snd (subscribeAdopt g sn' b))"
  "sizeKept b (installRepaint i n rr b)" "sizeKept b (snd (subscribeRegister since b))" "sizeKept b (snd (NextEvent i b))"
  by (simp_all add: sizeKept_def feed_def resize_def adoptSnapshotSize_def remove_def readLoopExit_def ensureBegin_def
      ensureInstall_def maybeStopCapture_def shutdown_def recoverDiscard_def redialDecide_def redialClear_def watchLatch_def
      recoveryRepaint_def recoverBegin_def armRecoveryRepaintLocked_def releaseRecoveryRepaint_def subscribeAdopt_def
      installRepaint_def subscribeRegister_def NextEvent_def Let_def split: option.split prod.split)

lemma sizeI: "sizeKept b (snd r) \<Longrightarrow> r = (x, b') \<Longrightarrow> sizeKept b b'"
  by simp

lemmas size_eqs = size_sections(4) [THEN sizeI] size_sections(5) [THEN sizeI] size_sections(6) [THEN sizeI] size_sections(8) [THEN sizeI]
  size_sections(9) [THEN sizeI] size_sections(11) [THEN sizeI] size_sections(13) [THEN sizeI] size_sections(14) [THEN sizeI]
  size_sections(15) [THEN sizeI] size_sections(17) [THEN sizeI] size_sections(19) [THEN sizeI] size_sections(20) [THEN sizeI]

lemma sizeKept_refl: "sizeKept b b"
  by (simp add: sizeKept_def)

lemma sizeInv_kept: "sizeInv w \<Longrightarrow> sizeKept (w_b w) (w_b w') \<Longrightarrow> sizeInv w'"
  by (auto simp: sizeInv_def sizeKept_def)

lemma sizeKept_trans: "sizeKept a b \<Longrightarrow> sizeKept b c \<Longrightarrow> sizeKept a c"
  by (auto simp: sizeKept_def)

lemma sizeInv_step:
  assumes "ptyStep canDie w l w'" "sizeInv w"
  shows "sizeInv w'"
proof (rule sizeInv_kept [OF assms(2)])
  show "sizeKept (w_b w) (w_b w')" using assms(1)
  proof (cases rule: ptyStep.cases)
    case (discardS r armed resume b)
    then show ?thesis using sizeKept_trans [OF sizeI [OF size_sections(10) discardS(5)] size_sections(6)] sizeI [OF size_sections(10) discardS(5)]
      by simp
  qed (auto simp: size_sections sizeKept_refl dest: size_eqs)
qed

lemma sizeInv_init: "sizeInv initWorld"
  by (simp add: sizeInv_def initWorld_def newPTYBroker_def)

interpretation ptySize: step_invariant sizeInv "ptyStep canDie" for canDie
  by unfold_locales (rule sizeInv_step)

end
