(* ===== verification/Pty_Props.thy ===== *)
theory Pty_Props
  imports Pty_Recovery
begin

text \<open>
  The properties of the PTY broker, with a small run that the witnesses use: one subscriber, two
  bytes of output, a capture that ends and its recovery.
\<close>

abbreviation ptyRun :: "bool \<Rightarrow> (nat \<times> nextResult) option list \<Rightarrow> ptyWorld \<Rightarrow> bool" where
  "ptyRun canDie ls w \<equiv> runs (ptyStep canDie) initWorld ls w"

definition emptyStream :: streamSpec where
  "emptyStream = \<lparr>ss_out = [], ss_pos = (\<lambda>_. None)\<rparr>"

lemma absStream_init: "absStream initWorld = emptyStream"
  by (simp add: absStream_def initWorld_def emptyStream_def)

lemma redialLadder_min: "0 < d \<Longrightarrow> min (redialLadder n d) redialMaxBackoff = min (d * 2 ^ n) redialMaxBackoff"
proof (induction n arbitrary: d)
  case (Suc n)
  have "redialMaxBackoff \<le> d \<Longrightarrow> redialMaxBackoff \<le> d * 2 ^ Suc n"
    using Suc.prems mult_left_mono [of 1 "2 ^ Suc n" d] one_le_power [of "2 :: int" "Suc n"] by linarith
  then show ?case using Suc.IH [of "d * 2"] Suc.prems by (auto simp: ac_simps)
qed simp

subsection \<open>A run\<close>

definition demoSub :: ptySub where
  "demoSub = \<lparr>ps_cursor = 0, ps_resizeSeen = 0, ps_pendingRepaint = None, ps_repaintArmed = False\<rparr>"

definition demoBroker :: "bool \<Rightarrow> ptyBroker" where
  "demoBroker up = newPTYBroker\<lparr>br_nextSubID := 1, br_subs := [1], br_objs := [1 \<mapsto> demoSub], br_capturing := up,
     br_captureStarted := (if up then 5 else 0)\<rparr>"

definition demoWorld :: ptyWorld where
  "demoWorld = initWorld\<lparr>w_b := demoBroker True, w_loop := True, w_client := [1 \<mapsto> 0]\<rparr>"

lemmas demo_simps = initWorld_def newPTYBroker_def demoBroker_def demoSub_def demoWorld_def

lemma demo_run: "ptyRun canDie [None, None, None, None, None] demoWorld"
proof -
  let ?w1 = "initWorld\<lparr>w_b := demoBroker False, w_pend := [(1, True)]\<rparr>"
  let ?w2 = "?w1\<lparr>w_cap := CapSubDial 1 True\<rparr>"
  let ?w3 = "initWorld\<lparr>w_b := demoBroker True, w_loop := True, w_paint := [(1, None, PaintCheck True)]\<rparr>"
  let ?w4 = "?w3\<lparr>w_paint := [(1, Some 0, PaintSnap 0)]\<rparr>"
  have "ptyStep canDie initWorld None ?w1"
    using ptyStep.registerS [of 0 initWorld 1 True "demoBroker False" canDie]
    by (simp add: demo_simps subscribeRegister_def startCursor_def needsRepaint_def headLocked_def)
  moreover have "ptyStep canDie ?w1 None ?w2"
    using ptyStep.subDialS [of ?w1 1 True "demoBroker False" canDie] by (simp add: demo_simps ensureBegin_def)
  moreover have "ptyStep canDie ?w2 None ?w3"
    using ptyStep.subDialOkS [of ?w2 1 True canDie 5] by (simp add: demo_simps ensureInstall_def)
  moreover have "ptyStep canDie ?w3 None ?w4"
    using ptyStep.subCheckS [of 1 None True ?w3 canDie]
    by (simp add: demo_simps subContinue_def subscribeRecheck_def headLocked_def)
  moreover have "ptyStep canDie ?w4 None demoWorld"
    using ptyStep.subBlankS [of 1 "Some 0" 0 ?w4 0 None "demoBroker True" canDie]
    by (simp add: demo_simps subscribeAdopt_def subReturn_def Seq_def)
  ultimately show ?thesis by auto
qed

text \<open>Two bytes of output, then delivered.\<close>

definition demoFed :: "nat \<Rightarrow> ptyWorld" where
  "demoFed c = demoWorld\<lparr>w_b := (demoBroker True)\<lparr>br_buf := ''hi'', br_objs := [1 \<mapsto> demoSub\<lparr>ps_cursor := c\<rparr>]\<rparr>,
     w_out := ''hi'', w_client := [1 \<mapsto> c]\<rparr>"

lemma demo_fed: "runs (ptyStep canDie) demoWorld [None, Some (1, Emit (PTYData ''hi''))] (demoFed 2)"
proof -
  have "ptyStep canDie demoWorld None (demoFed 0)"
    using ptyStep.feedS [of demoWorld "''hi''" canDie] by (simp add: demo_simps demoFed_def feed_def ptyRingMaxBytes_def)
  moreover have "ptyStep canDie (demoFed 0) (Some (1, Emit (PTYData ''hi''))) (demoFed 2)"
    using ptyStep.nextS [of "demoFed 0" 1 0 "Emit (PTYData ''hi'')" "w_b (demoFed 2)" canDie]
    by (simp add: demo_simps demoFed_def NextEvent_def nextEventObj_def headLocked_def numeral_2_eq_2)
  ultimately show ?thesis by auto
qed

text \<open>The capture ends: the read loop hands over to a recovery loop.\<close>

definition demoEnded :: ptyWorld where
  "demoEnded = demoWorld\<lparr>w_b := (demoBroker True)\<lparr>br_captureEnded := True, br_redialing := True\<rparr>, w_loop := False, w_redial := RTop\<rparr>"

lemma demo_ended: "ptyRun canDie ([None, None, None, None, None] @ [None]) demoEnded"
proof (rule runs_snoc [OF demo_run])
  show "ptyStep canDie demoWorld None demoEnded"
    using ptyStep.loopExitS [of demoWorld 6 True "w_b demoEnded" canDie]
    by (simp add: demo_simps demoEnded_def readLoopExit_def redialHealthySpan_def second_def)
qed

text \<open>The recovery up to its release, with the subscriber armed.\<close>

definition armedBroker :: "bool \<Rightarrow> nat \<Rightarrow> ptyBroker" where
  "armedBroker up n = (demoBroker True)\<lparr>br_objs := [1 \<mapsto> demoSub\<lparr>ps_repaintArmed := True\<rparr>], br_capturing := up, br_captureEnded := False,
     br_redialing := True, br_redialAttempts := n, br_captureStarted := (if up then 7 else 5)\<rparr>"

definition demoSnapshot :: PaneSnapshot where
  "demoSnapshot = \<lparr>sn_Screen = ''ok'', sn_CursorRow = 0, sn_CursorCol = 2, sn_HasCursor = True, sn_CursorVisible = True,
     sn_HasVisibility = False, sn_Modes = \<lparr>md_AlternateScreen = False, md_MouseTracking = False, md_MouseStandard = False,
     md_MouseButton = False, md_MouseAll = False, md_MouseUTF8 = False, md_MouseSGR = False\<rparr>, sn_HasModes = False, sn_Rows = 0,
     sn_Cols = 0, sn_HasSize = False\<rparr>"

definition demoRepaint :: repaintSnapshot where
  "demoRepaint = (buildRepaintSnapshot demoSnapshot)\<lparr>rp_provenance := PTYRepaintRecovery\<rparr>"

definition releasing :: "recoverer \<Rightarrow> redialPC \<Rightarrow> nat \<Rightarrow> repaintSnapshot option \<Rightarrow> ptyWorld" where
  "releasing by pc n rp = demoWorld\<lparr>w_b := armedBroker True n, w_cap := CapRelease by [1] rp, w_redial := pc\<rparr>"

lemma demo_recover:
  assumes "by \<noteq> ByReset"
  shows "runs (ptyStep canDie) (demoEnded\<lparr>w_b := (armedBroker False n)\<lparr>br_captureEnded := True\<rparr>, w_cap := CapJoin by [1], w_redial := pc\<rparr>)
    [None, None, None] (releasing by pc n (Some demoRepaint))"
proof -
  let ?w1 = "demoEnded\<lparr>w_b := (armedBroker False n)\<lparr>br_captureEnded := True\<rparr>, w_cap := CapJoin by [1], w_redial := pc\<rparr>"
  let ?w2 = "demoEnded\<lparr>w_b := armedBroker False n, w_cap := CapDial by [1], w_redial := pc\<rparr>"
  let ?w3 = "demoWorld\<lparr>w_b := armedBroker True n, w_cap := CapSnap by [1] 0, w_redial := pc\<rparr>"
  have "ptyStep canDie ?w1 None ?w2"
    using assms ptyStep.discardS [of ?w1 "by" "[1]" True "snd (recoverDiscard (guarded by) (w_b ?w1))" canDie]
    by (simp add: demo_simps demoEnded_def armedBroker_def recoverDiscard_def guarded_def ensureBegin_def headLocked_def)
  moreover have "ptyStep canDie ?w2 None ?w3"
    using ptyStep.dialOkS [of ?w2 "by" "[1]" canDie 7] by (simp add: demo_simps demoEnded_def armedBroker_def ensureInstall_def)
  moreover have "ptyStep canDie ?w3 None (releasing by pc n (Some demoRepaint))"
    using ptyStep.snapS [of ?w3 "by" "[1]" 0 0 "Some demoSnapshot" "Some demoRepaint" "armedBroker True n" canDie]
    by (simp add: releasing_def recoveryRepaint_def demoRepaint_def adoptSnapshotSize_def snapshotHasRepaintState_def demoSnapshot_def armedBroker_def demo_simps)
  ultimately show ?thesis by auto
qed

lemma demo_redial:
  "\<exists>ls. ptyRun canDie ls (releasing ByRedial RBusy 1 (Some demoRepaint))"
proof -
  let ?w1 = "demoEnded\<lparr>w_b := (w_b demoEnded)\<lparr>br_redialAttempts := 1\<rparr>, w_redial := RSleep\<rparr>"
  let ?w2 = "?w1\<lparr>w_redial := RWant\<rparr>"
  let ?w3 = "demoEnded\<lparr>w_b := (armedBroker False 1)\<lparr>br_captureEnded := True\<rparr>, w_cap := CapJoin ByRedial [1], w_redial := RBusy\<rparr>"
  have "ptyStep canDie demoEnded None ?w1"
    using ptyStep.redialSleepS [of demoEnded "redialDelay 0" "w_b ?w1" canDie]
    by (simp add: demo_simps demoEnded_def redialDecide_def)
  moreover have "ptyStep canDie ?w1 None ?w2"
    using ptyStep.redialWakeS [of ?w1 canDie] by (simp add: demo_simps demoEnded_def)
  moreover have "ptyStep canDie ?w2 None ?w3"
    using ptyStep.redialRecoverS [of ?w2 "[1]" True "w_b ?w3" canDie]
    by (simp add: demo_simps demoEnded_def recoverBegin_def armRecoveryRepaintLocked_def updSub_def armedBroker_def)
  ultimately have "runs (ptyStep canDie) demoEnded [None, None, None] ?w3" by auto
  with demo_ended demo_recover [of ByRedial canDie RBusy 1] show ?thesis by (meson recoverer.distinct runs_append)
qed

subsection \<open>Properties\<close>

text \<open>C31. The broker refines its specification: whatever the interleaving of reads, subscribers,
  recoveries, pane deaths and shutdowns, the events its clients are sent are those of a stream that
  only grows, of which each client is sent contiguous bytes from its position, or told to jump forward.
\<close>
theorem pty_refines_stream:
  assumes "ptyRun canDie ls w"
  shows "runs streamStep emptyStream ls \<lparr>ss_out = w_out w, ss_pos = w_client w\<rparr>"
  using ptyStream.run_refines [OF assms worldInv_init] by (simp add: absStream_init) (simp add: absStream_def)

theorem pty_refines_stream_witness:
  "runs streamStep emptyStream ([None, None, None, None, None] @ [None, Some (1, Emit (PTYData ''hi''))])
     \<lparr>ss_out = ''hi'', ss_pos = [1 \<mapsto> 2]\<rparr>"
proof -
  have "ptyRun False ([None, None, None, None, None] @ [None, Some (1, Emit (PTYData ''hi''))]) (demoFed 2)"
    using demo_run demo_fed by (simp only: runs_append) blast
  from pty_refines_stream [OF this] show ?thesis by (simp add: demoFed_def demo_simps)
qed

text \<open>C32. A subscriber that was not told to jump holds exactly the output between the cursor it
  started from and the cursor it has: nothing lost, repeated or reordered. The cursor it counts itself is
  the one the broker would resume it from, never beyond the output.
\<close>
theorem subscriber_stream_exact:
  assumes "ptyRun canDie pre w" "w_client w i = Some c" "runs (ptyStep canDie) w ls w'"
  shows "\<exists>c' more. w_client w' i = Some c' \<and> Seq i (w_b w') = Some c' \<and> w_out w' = w_out w @ more \<and>
           c \<le> c' \<and> c' \<le> length (w_out w') \<and>
           (\<not> jumped i ls \<longrightarrow> dataTo i ls = take (c' - c) (drop c (w_out w')))"
proof -
  have inv: "worldInv w" "worldInv w'"
    using ptyStream.run_keeps [OF assms(1) worldInv_init] ptyStream.run_keeps [OF assms(3)] by auto
  have "c \<le> length (w_out w)" using inv(1) assms(2) by (auto simp: worldInv_def clientInv_def ringInv_def)
  with stream_run [OF ptyStream.run_refines [OF assms(3) inv(1)], of i c] assms(2)
  obtain c' more where "w_client w' i = Some c'" "w_out w' = w_out w @ more" "c \<le> c'" "c' \<le> length (w_out w')"
    "\<not> jumped i ls \<longrightarrow> c' = c + length (dataTo i ls) \<and> dataTo i ls = take (length (dataTo i ls)) (drop c (w_out w'))"
    unfolding absStream_def by fastforce
  then show ?thesis using inv(2) by (auto simp: worldInv_def clientInv_def)
qed

theorem subscriber_stream_exact_witness:
  "Seq 1 (w_b (demoFed 2)) = Some 2 \<and> dataTo 1 [None, Some (1, Emit (PTYData ''hi''))] = take 2 (w_out (demoFed 2))"
proof -
  have "w_client demoWorld 1 = Some 0" by (simp add: demo_simps)
  from subscriber_stream_exact [OF demo_run this demo_fed [of False]]
  obtain c' where "w_client (demoFed 2) 1 = Some c'" "Seq 1 (w_b (demoFed 2)) = Some c'"
    "\<not> jumped 1 [None, Some (1, Emit (PTYData ''hi''))] \<longrightarrow>
       dataTo 1 [None, Some (1, Emit (PTYData ''hi''))] = take (c' - 0) (drop 0 (w_out (demoFed 2)))" by blast
  moreover have "w_client (demoFed 2) 1 = Some 2" "\<not> jumped 1 [None, Some (1, Emit (PTYData ''hi''))]"
    by (simp_all add: demoFed_def jumped_def)
  ultimately show ?thesis by simp
qed

text \<open>The ring is the suffix of the output that starts at its base, its head is the number of
  bytes ever read, it never holds more than 256 KiB, and a recorded size has a positive generation, so
  that registering a subscriber just before it does not underflow.
\<close>
theorem ring_bounded_suffix:
  assumes "ptyRun canDie ls w"
  shows "br_buf (w_b w) = drop (br_base (w_b w)) (w_out w) \<and> headLocked (w_b w) = length (w_out w) \<and>
         length (br_buf (w_b w)) \<le> 256 * 1024 \<and> (br_hasSize (w_b w) \<longrightarrow> 0 < br_resizeGen (w_b w))"
proof -
  have "worldInv w" "sizeInv w"
    using ptyStream.run_keeps [OF assms worldInv_init] ptySize.run_keeps [OF assms sizeInv_init] by simp_all
  then show ?thesis by (auto simp: worldInv_def ringInv_def sizeInv_def ptyRingMaxBytes_def headLocked_def)
qed

theorem ring_bounded_suffix_witness:
  "headLocked (w_b demoWorld) = length (w_out demoWorld)"
  using ring_bounded_suffix [OF demo_run] by blast

text \<open>C33. No lost wakeup: while the channel reports no dead pane, an open broker whose capture has
  ended and that still has subscribers has a recovery loop, or a subscribe call that is about to dial.
\<close>
theorem recovery_never_abandoned:
  assumes "ptyRun False ls w" "\<not> br_closed (w_b w)" "br_subs (w_b w) \<noteq> []" "br_capturing (w_b w)" "br_captureEnded (w_b w)"
  shows "w_redial w \<noteq> RNone \<or> w_pend w \<noteq> []"
  using ptyDrive.run_keeps [OF assms(1) driveInv_init] assms(2-5) by (auto simp: driveInv_def)

theorem recovery_never_abandoned_witness:
  "w_pend demoEnded = [] \<and> w_redial demoEnded \<noteq> RNone"
proof -
  have "w_redial demoEnded \<noteq> RNone \<or> w_pend demoEnded \<noteq> []"
    by (rule recovery_never_abandoned [OF demo_ended]) (simp_all add: demoEnded_def demo_simps)
  then show ?thesis by (simp add: demoEnded_def demo_simps)
qed

text \<open>C34. While a recovery runs, a subscriber it found is sent no output and no cursor. When that recovery built a
  non-empty repaint and its channel does not replay, then from the release on the first thing the subscriber is
  sent, window sizes apart, is a recovery repaint, whatever else happens meanwhile. Nothing is claimed for a
  release without a repaint (a failed re-dial or snapshot) or with an empty one, nor for a replaying channel,
  which repaints by itself.
\<close>
theorem recovery_repaints_first:
  assumes "ptyRun canDie pre w" "i \<in> set (capArmed (w_cap w))"
  shows "(\<forall>r w'. ptyStep canDie w (Some (i, r)) w' \<longrightarrow> \<not> movesCursor r) \<and>
    (\<forall>by armed rp w' ls w''. w_cap w = CapRelease by armed (Some rp) \<and> rp_data rp \<noteq> [] \<and> w_client w i \<noteq> None \<and>
       w' = w\<lparr>w_b := releaseRecoveryRepaint False armed (Some rp) (w_b w), w_cap := CapFree, w_redial := afterRecover by (w_redial w)\<rparr> \<and>
       runs (ptyStep canDie) w' ls w'' \<longrightarrow> recoveryFirst (firstContent i ls))"
proof -
  have inv: "barrierInv w" by (rule ptyBarrier.run_keeps [OF assms(1) barrierInv_init])
  have armed: "armedIn (w_b w) i" using inv assms(2) by (simp add: barrierInv_def armInv_def)
  have "\<not> movesCursor r" if "ptyStep canDie w (Some (i, r)) w'" for r w'
    using that next_armed(4) armed by (cases rule: ptyStep.cases) auto
  moreover have "recoveryFirst (firstContent i ls)"
    if h: "w_cap w = CapRelease by armed (Some rp)" "rp_data rp \<noteq> []" "w_client w i \<noteq> None"
      "w' = w\<lparr>w_b := releaseRecoveryRepaint False armed (Some rp) (w_b w), w_cap := CapFree, w_redial := afterRecover by (w_redial w)\<rparr>"
      "runs (ptyStep canDie) w' ls w''" for "by" armed rp w' ls w''
  proof -
    have "ptyStep canDie w None w'" unfolding h(4) by (rule ptyStep.releaseS [OF h(1)])
    then have b: "barrierInv w'" using inv by (rule ptyBarrier.step_keeps)
    have "rp_provenance rp = PTYRepaintRecovery" "br_objs (w_b w) i \<noteq> None" "i \<in> set armed"
      using inv h(1) armed assms(2) by (auto simp: barrierInv_def armInv_def armedIn_def)
    from release_owed [OF this(1) h(2) this(3,2)] have "owed (w_b w') i" by (simp add: h(4))
    from owed_run [OF h(5) b _ this] h(3,4) show ?thesis by simp
  qed
  ultimately show ?thesis by blast
qed

theorem recovery_repaints_first_witness:
  "\<exists>w r w''. w_cap w = CapRelease ByRedial [1] (Some demoRepaint) \<and>
     \<not> (\<exists>r w'. ptyStep False w (Some (1, r)) w' \<and> movesCursor r) \<and>
     runs (ptyStep False) (w\<lparr>w_b := releaseRecoveryRepaint False [1] (Some demoRepaint) (w_b w), w_cap := CapFree,
         w_redial := afterRecover ByRedial (w_redial w)\<rparr>) [Some (1, Emit (PTYRepaint r))] w'' \<and>
     rp_provenance r = PTYRepaintRecovery"
proof -
  let ?w = "releasing ByRedial RBusy 1 (Some demoRepaint)"
  let ?v = "?w\<lparr>w_b := releaseRecoveryRepaint False [1] (Some demoRepaint) (w_b ?w), w_cap := CapFree,
      w_redial := afterRecover ByRedial (w_redial ?w)\<rparr>"
  obtain ls where run: "ptyRun False ls ?w" using demo_redial by blast
  have w: "w_cap ?w = CapRelease ByRedial [1] (Some demoRepaint)" "w_client ?w 1 \<noteq> None" "rp_data demoRepaint \<noteq> []"
    by (simp_all add: releasing_def demo_simps demoRepaint_def buildRepaintSnapshot_def demoSnapshot_def buildRepaint_def csi_def)
  have armed: "1 \<in> set (capArmed (w_cap ?w))" by (simp add: releasing_def)
  note first = recovery_repaints_first [OF run armed]
  obtain r b where ev: "NextEvent 1 (w_b ?v) = (Emit (PTYRepaint r), b)"
    using w(3) by (simp add: NextEvent_def nextEventObj_def releasing_def releaseRecoveryRepaint_def releaseSub_def updSub_def
        armedBroker_def demo_simps)
  have c: "w_client ?v 1 = Some 0" by (simp add: releasing_def demo_simps)
  let ?u = "?v\<lparr>w_b := b, w_client := (w_client ?v)(1 \<mapsto> clientAfter (Emit (PTYRepaint r)) 0)\<rparr>"
  have emits: "runs (ptyStep False) ?v [Some (1, Emit (PTYRepaint r))] ?u"
    using ptyStep.nextS [OF c ev, of False] by simp
  with first w have "recoveryFirst (firstContent 1 [Some (1, Emit (PTYRepaint r))])" by blast
  then have "rp_provenance r = PTYRepaintRecovery" by (simp add: recoveryFirst_def)
  with first w(1) emits show ?thesis by (intro exI [of _ ?w] exI [of _ r] exI [of _ ?u]) blast
qed

text \<open>The delay before the n-th attempt of a recovery loop is half a second doubled n times, capped
  at thirty seconds.
\<close>
theorem redial_backoff_doubles:
  "redialDelay n = min (redialInitialBackoff * 2 ^ n) redialMaxBackoff"
  using redialLadder_min [of redialInitialBackoff n]
  by (simp add: redialDelay_def Let_def redialInitialBackoff_def min_def split: if_splits)

text \<open>
  With a pane that can die the same exit is not safe: the branch of \<^verbatim>\<open>redialLoop\<close> for a dead pane clears
  \<^verbatim>\<open>redialing\<close> in a section of its own. When the capture its recovery started ends before that section,
  the read loop does not start another recovery loop, and an open broker with a subscriber and an ended
  capture is left with nobody to recover it.
\<close>
theorem dead_pane_exit_freezes:
  "\<exists>ls w. ptyRun True ls w \<and> \<not> br_closed (w_b w) \<and> br_subs (w_b w) \<noteq> [] \<and> br_capturing (w_b w) \<and> br_captureEnded (w_b w) \<and>
     w_redial w = RNone \<and> w_pend w = [] \<and> w_cap w = CapFree \<and> w_watch w = 0"
proof -
  let ?w1 = "demoEnded\<lparr>w_redial := RDeadWant\<rparr>"
  let ?w2 = "demoEnded\<lparr>w_b := (armedBroker False 0)\<lparr>br_captureEnded := True\<rparr>, w_cap := CapJoin ByRedialDead [1], w_redial := RDeadBusy\<rparr>"
  let ?w3 = "releasing ByRedialDead RDeadBusy 0 (Some demoRepaint)"
  let ?w4 = "?w3\<lparr>w_b := releaseRecoveryRepaint False [1] (Some demoRepaint) (w_b ?w3), w_cap := CapFree, w_redial := RDeadClear\<rparr>"
  let ?w5 = "?w4\<lparr>w_b := (w_b ?w4)\<lparr>br_captureEnded := True\<rparr>, w_loop := False\<rparr>"
  let ?w6 = "?w5\<lparr>w_b := redialClear (w_b ?w5), w_redial := RNone\<rparr>"
  have "ptyStep True demoEnded None ?w1"
    using ptyStep.redialDeadS [of True demoEnded] by (simp add: demoEnded_def)
  moreover have "ptyStep True ?w1 None ?w2"
    using ptyStep.redialDeadRecoverS [of ?w1 "[1]" True "w_b ?w2" True]
    by (simp add: demo_simps demoEnded_def recoverBegin_def armRecoveryRepaintLocked_def updSub_def armedBroker_def)
  ultimately have r2: "runs (ptyStep True) demoEnded [None, None] ?w2" by auto
  have "ptyStep True ?w3 None ?w4"
    using ptyStep.releaseS [of ?w3 ByRedialDead "[1]" "Some demoRepaint" True False] by (simp add: releasing_def afterRecover_def)
  moreover have "ptyStep True ?w4 None ?w5"
    using ptyStep.loopExitS [of ?w4 8 False "w_b ?w5" True]
    by (simp add: releasing_def armedBroker_def readLoopExit_def demo_simps redialHealthySpan_def second_def
        releaseRecoveryRepaint_def updSub_def releaseSub_def)
  moreover have "ptyStep True ?w5 None ?w6"
    using ptyStep.redialDeadClearS [of ?w5 True] by simp
  ultimately have r3: "runs (ptyStep True) ?w3 [None, None, None] ?w6" by auto
  have "ptyRun True (((([None, None, None, None, None] @ [None]) @ [None, None]) @ [None, None, None]) @ [None, None, None]) ?w6"
    using demo_ended r2 demo_recover [of ByRedialDead True RDeadBusy 0] r3 by (meson recoverer.distinct runs_append)
  moreover have "\<not> br_closed (w_b ?w6) \<and> br_subs (w_b ?w6) \<noteq> [] \<and> br_capturing (w_b ?w6) \<and> br_captureEnded (w_b ?w6) \<and>
     w_redial ?w6 = RNone \<and> w_pend ?w6 = [] \<and> w_cap ?w6 = CapFree \<and> w_watch ?w6 = 0"
    by (simp add: releasing_def armedBroker_def demo_simps releaseRecoveryRepaint_def updSub_def redialClear_def)
  ultimately show ?thesis by blast
qed

end
