(* ===== verification/Cron_Expr.thy ===== *)
theory Cron_Expr
  imports Go_Strings
begin

text \<open>
  Cron expressions of the task store, \<^verbatim>\<open>src/task/cron.go\<close>: the validator, the expansion of a field and
  the rewriting of day-of-week 7. A nil slice is the empty list. \<^verbatim>\<open>int\<close> has 64 bits: the loops that
  enumerate a field wrap around, which \<open>wrapInt\<close> writes out. They may run forever for a step that is not
  positive, so that the expansion is partial and \<^const>\<open>None\<close> is a call that does not return. The
  parser of \<^verbatim>\<open>robfig/cron\<close> that receives the rewritten expression is an argument.
\<close>

subsection \<open>Validation\<close>

text \<open>\<^verbatim>\<open>strings.Index\<close> of one byte and the two slices around it.\<close>

definition cutByte :: "char \<Rightarrow> string \<Rightarrow> (string \<times> string) option" where
  "cutByte c s = (if c \<in> set s then Some (takeWhile (\<lambda>x. x \<noteq> c) s, tl (dropWhile (\<lambda>x. x \<noteq> c) s)) else None)"

datatype cronError =
    ErrFieldCount nat
  | ErrEmptyStep
  | ErrInvalidStep string
  | ErrStepNotPositive int
  | ErrInvalidRangeStart string
  | ErrInvalidRangeEnd string
  | ErrRangeStartBounds int
  | ErrRangeEndBounds int
  | ErrRangeOrder int int
  | ErrInvalidValue string
  | ErrValueBounds int
  | ErrInvalidField string string cronError

text \<open>What \<^verbatim>\<open>validatePart\<close> does once the step is off.\<close>

definition validateBase :: "string \<Rightarrow> int \<Rightarrow> int \<Rightarrow> cronError option" where
  "validateBase part mn mx =
     (if part = ''*'' then None
      else
        (case cutByte (CHR ''-'') part of
           Some (startStr, endStr) \<Rightarrow>
             (case Atoi startStr of
                None \<Rightarrow> Some (ErrInvalidRangeStart startStr)
              | Some start \<Rightarrow>
                  (case Atoi endStr of
                     None \<Rightarrow> Some (ErrInvalidRangeEnd endStr)
                   | Some end' \<Rightarrow>
                       (if start < mn \<or> start > mx then Some (ErrRangeStartBounds start)
                        else if end' < mn \<or> end' > mx then Some (ErrRangeEndBounds end')
                        else if start > end' then Some (ErrRangeOrder start end') else None)))
         | None \<Rightarrow>
             (case Atoi part of
                None \<Rightarrow> Some (ErrInvalidValue part)
              | Some val \<Rightarrow> (if val < mn \<or> val > mx then Some (ErrValueBounds val) else None))))"

definition validatePart :: "string \<Rightarrow> int \<Rightarrow> int \<Rightarrow> cronError option" where
  "validatePart part mn mx =
     (case cutByte (CHR ''/'') part of
        None \<Rightarrow> validateBase part mn mx
      | Some (base, step) \<Rightarrow>
          (if step = [] then Some ErrEmptyStep
           else
             (case Atoi step of
                None \<Rightarrow> Some (ErrInvalidStep step)
              | Some stepVal \<Rightarrow>
                  (if stepVal \<le> 0 then Some (ErrStepNotPositive stepVal) else validateBase base mn mx))))"

fun validateParts :: "string list \<Rightarrow> int \<Rightarrow> int \<Rightarrow> cronError option" where
  "validateParts [] mn mx = None"
| "validateParts (p # ps) mn mx = (case validatePart p mn mx of Some e \<Rightarrow> Some e | None \<Rightarrow> validateParts ps mn mx)"

definition validateField :: "string \<Rightarrow> int \<Rightarrow> int \<Rightarrow> cronError option" where
  "validateField field mn mx = validateParts (splitOn (CHR '','') field) mn mx"

definition cronSpecs :: "(string \<times> int \<times> int) list" where
  "cronSpecs = [(''minute'', 0, 59), (''hour'', 0, 23), (''day-of-month'', 1, 31), (''month'', 1, 12), (''day-of-week'', 0, 7)]"

fun validateFields :: "string list \<Rightarrow> (string \<times> int \<times> int) list \<Rightarrow> cronError option" where
  "validateFields (f # fs) ((name, mn, mx) # specs) =
     (case validateField f mn mx of
        Some e \<Rightarrow> Some (ErrInvalidField name f e)
      | None \<Rightarrow> validateFields fs specs)"
| "validateFields fs specs = None"

definition ValidateCronExpr :: "string \<Rightarrow> cronError option" where
  "ValidateCronExpr expr =
     (let fields = Fields expr
      in if length fields \<noteq> 5 then Some (ErrFieldCount (length fields)) else validateFields fields cronSpecs)"

subsection \<open>Expansion\<close>

definition wrapInt :: "int \<Rightarrow> int" where
  "wrapInt x = (x + 2 ^ 63) mod 2 ^ 64 - 2 ^ 63"

text \<open>The loop \<^verbatim>\<open>for i := start; i <= end; i += step\<close> that collects its values.\<close>

partial_function (option) stepLoop :: "int \<Rightarrow> int \<Rightarrow> int \<Rightarrow> int list option" where
  "stepLoop i mx step =
     (if i \<le> mx then Option.bind (stepLoop (wrapInt (i + step)) mx step) (\<lambda>vs. Some (i # vs)) else Some [])"

text \<open>An expansion that returns: an error, or the values.\<close>

abbreviation loopVals :: "int \<Rightarrow> int \<Rightarrow> int \<Rightarrow> (cronError + int list) option" where
  "loopVals i mx step \<equiv> map_option Inr (stepLoop i mx step)"

definition expandBase :: "string \<Rightarrow> int \<Rightarrow> bool \<Rightarrow> int \<Rightarrow> int \<Rightarrow> (cronError + int list) option" where
  "expandBase part step hasStep mn mx =
     (if part = ''*'' then loopVals mn mx step
      else
        (case cutByte (CHR ''-'') part of
           Some (startStr, endStr) \<Rightarrow>
             (case Atoi startStr of
                None \<Rightarrow> Some (Inl (ErrInvalidRangeStart startStr))
              | Some start \<Rightarrow>
                  (case Atoi endStr of
                     None \<Rightarrow> Some (Inl (ErrInvalidRangeEnd endStr))
                   | Some end' \<Rightarrow> loopVals start end' step))
         | None \<Rightarrow>
             (case Atoi part of
                None \<Rightarrow> Some (Inl (ErrInvalidValue part))
              | Some val \<Rightarrow> (if hasStep then loopVals val mx step else Some (Inr [val])))))"

definition expandCronPart :: "string \<Rightarrow> int \<Rightarrow> int \<Rightarrow> (cronError + int list) option" where
  "expandCronPart part mn mx =
     (case cutByte (CHR ''/'') part of
        None \<Rightarrow> expandBase part 1 False mn mx
      | Some (base, stepStr) \<Rightarrow>
          (case Atoi stepStr of
             None \<Rightarrow> Some (Inl (ErrInvalidStep stepStr))
           | Some step \<Rightarrow> expandBase base step True mn mx))"

fun expandParts :: "string list \<Rightarrow> int \<Rightarrow> int \<Rightarrow> (cronError + int list) option" where
  "expandParts [] mn mx = Some (Inr [])"
| "expandParts (p # ps) mn mx =
     (case expandCronPart p mn mx of
        None \<Rightarrow> None
      | Some (Inl e) \<Rightarrow> Some (Inl e)
      | Some (Inr vs) \<Rightarrow>
          (case expandParts ps mn mx of
             Some (Inr ws) \<Rightarrow> Some (Inr (vs @ ws))
           | r \<Rightarrow> r))"

text \<open>The loop that keeps the first occurrence of each value.\<close>

fun dedupe :: "int list \<Rightarrow> int list \<Rightarrow> int list" where
  "dedupe seen [] = []"
| "dedupe seen (v # vs) = (if v \<in> set seen then dedupe seen vs else v # dedupe (v # seen) vs)"

definition uniqueSorted :: "int list \<Rightarrow> int list" where
  "uniqueSorted vs = sort (dedupe [] vs)"

definition expandCronField :: "string \<Rightarrow> int \<Rightarrow> int \<Rightarrow> (cronError + int list) option" where
  "expandCronField field mn mx =
     (if field = ''*'' then Some (Inr [])
      else
        (case expandParts (splitOn (CHR '','') field) mn mx of
           Some (Inr vs) \<Rightarrow> Some (Inr (uniqueSorted vs))
         | r \<Rightarrow> r))"

subsection \<open>Day-of-week 7\<close>

definition containsSeven :: "int list \<Rightarrow> bool" where
  "containsSeven vals \<longleftrightarrow> 7 \<in> set vals"

definition normalizeDOWStepBase :: "string \<Rightarrow> string" where
  "normalizeDOWStepBase part =
     (case cutByte (CHR ''/'') part of
        None \<Rightarrow> part
      | Some (base, step) \<Rightarrow>
          (case Atoi base of
             None \<Rightarrow> part
           | Some val \<Rightarrow> (if val = 7 then ''0/'' @ step else part)))"

definition rangeEndsAtSeven :: "string \<Rightarrow> bool" where
  "rangeEndsAtSeven part0 =
     (let part = (case cutByte (CHR ''/'') part0 of Some (base, step) \<Rightarrow> base | None \<Rightarrow> part0)
      in case cutByte (CHR ''-'') part of
           None \<Rightarrow> False
         | Some (startStr, endStr) \<Rightarrow> Atoi endStr = Some 7)"

definition normalizeDOWValues :: "int list \<Rightarrow> int list" where
  "normalizeDOWValues vals = uniqueSorted (map (\<lambda>v. if v = 7 then 0 else v) vals)"

definition normalizeDOWField :: "string \<Rightarrow> string option" where
  "normalizeDOWField field0 =
     (if field0 = ''*'' then Some field0
      else if CHR '','' \<notin> set field0 \<and> take 2 field0 = ''*/'' then Some field0
      else
        (let parts = splitOn (CHR '','') field0;
             normed = map normalizeDOWStepBase parts;
             rewroteStepBase = (normed \<noteq> parts);
             rangeToSeven = (\<exists>p\<in>set parts. rangeEndsAtSeven p);
             field = joinStr '','' normed
         in case expandCronField field 0 7 of
              None \<Rightarrow> None
            | Some (Inl e) \<Rightarrow> Some field
            | Some (Inr vals) \<Rightarrow>
                (if vals = [] then Some field
                 else if \<not> containsSeven vals \<and> \<not> rewroteStepBase \<and> \<not> rangeToSeven then Some field
                 else Some (joinStr '','' (map itoa (normalizeDOWValues vals))))))"

definition ParseCron :: "(string \<Rightarrow> 'e + 'schedule) \<Rightarrow> string \<Rightarrow> ((cronError + 'e) + 'schedule) option" where
  "ParseCron parse expr =
     (case ValidateCronExpr expr of
        Some e \<Rightarrow> Some (Inl (Inl e))
      | None \<Rightarrow>
          (let fields = Fields expr
           in case normalizeDOWField (fields ! 4) of
                None \<Rightarrow> None
              | Some dow \<Rightarrow>
                  (case parse (joinStr '' '' (fields[4 := dow])) of
                     Inl e \<Rightarrow> Some (Inl (Inr e))
                   | Inr s \<Rightarrow> Some (Inr s))))"

end
