(* ===== verification/Cron_Lemmas.thy ===== *)
theory Cron_Lemmas
  imports Cron_Expr
begin

text \<open>
  The expansion of cron fields: the enumerating loop ends for every positive step, wrap-around included;
  what a validated part denotes; and the days a day-of-week field means before and after 7 is rewritten.
\<close>

subsection \<open>The enumerating loop\<close>

lemma wrapInt_id: "- (2 ^ 63) \<le> x \<Longrightarrow> x < 2 ^ 63 \<Longrightarrow> wrapInt x = x"
  by (simp add: wrapInt_def)

lemma wrapInt_over: "2 ^ 63 \<le> x \<Longrightarrow> x < 2 ^ 64 \<Longrightarrow> wrapInt x = x - 2 ^ 64"
proof -
  assume "2 ^ 63 \<le> x" "x < 2 ^ 64"
  then have "(x + 2 ^ 63) mod 2 ^ 64 = x + 2 ^ 63 - 2 ^ 64" by (simp add: mod_pos_geq)
  then show ?thesis by (simp add: wrapInt_def)
qed

lemma stepLoop_stop: "mx < i \<Longrightarrow> stepLoop i mx step = Some []"
  by (subst stepLoop.simps) simp

lemma stepLoop_more: "i \<le> mx \<Longrightarrow> stepLoop i mx step = map_option ((#) i) (stepLoop (wrapInt (i + step)) mx step)"
  by (subst stepLoop.simps) (simp add: map_option_case split: option.split bind_split)

text \<open>A step that cannot overflow: the loop enumerates an arithmetic progression.\<close>

lemma stepLoop_progression:
  assumes "0 < step" "mx + step < 2 ^ 63" "- (2 ^ 63) \<le> i" "i < 2 ^ 63"
  shows "\<exists>vs. stepLoop i mx step = Some vs \<and> set vs = {v. i \<le> v \<and> v \<le> mx \<and> step dvd v - i}"
  using assms(3,4)
proof (induction "nat (mx - i + 1)" arbitrary: i rule: less_induct)
  case less
  show ?case
  proof (cases "i \<le> mx")
    case True
    have w: "wrapInt (i + step) = i + step" using True less.prems assms by (intro wrapInt_id) simp_all
    have "nat (mx - (i + step) + 1) < nat (mx - i + 1)" using True assms(1) by simp
    from less.hyps [OF this] True less.prems assms obtain vs where
      vs: "stepLoop (i + step) mx step = Some vs" "set vs = {v. i + step \<le> v \<and> v \<le> mx \<and> step dvd v - (i + step)}" by auto
    have "v = i \<or> i + step \<le> v \<and> step dvd v - (i + step) \<longleftrightarrow> i \<le> v \<and> step dvd v - i" if "v \<le> mx" for v
    proof -
      have "step dvd v - (i + step) \<longleftrightarrow> step dvd v - i" using dvd_diff_right_iff [of step step "v - i"]
        by (metis diff_diff_eq dvd_refl dvd_diff_left_iff)
      moreover have "i + step \<le> v" if "i < v" "step dvd v - i" using zdvd_imp_le [OF that(2)] that(1) by simp
      ultimately show ?thesis using assms(1) by auto
    qed
    then have "insert i (set vs) = {v. i \<le> v \<and> v \<le> mx \<and> step dvd v - i}" using vs(2) True by auto
    then show ?thesis using stepLoop_more [OF True, of step] vs(1) w by simp
  next
    case False
    then show ?thesis using stepLoop_stop by auto
  qed
qed

text \<open>A step that can overflow: two rounds lower the counter, so the loop ends all the same.\<close>

lemma stepLoop_wraps:
  assumes "step < 2 ^ 63" "2 ^ 63 \<le> mx + step" "mx < 1000"
  shows "- 1000 \<le> i \<Longrightarrow> i \<le> mx \<Longrightarrow> \<exists>vs. stepLoop i mx step = Some vs"
proof (induction "nat (i + 1000)" arbitrary: i rule: less_induct)
  case less
  show ?case
  proof (cases "i + step < 2 ^ 63")
    case True
    then have "wrapInt (i + step) = i + step" using less.prems assms by (intro wrapInt_id) simp_all
    moreover have "mx < i + step" using assms less.prems by simp
    ultimately show ?thesis using stepLoop_more [OF less.prems(2), of step] stepLoop_stop [of mx "i + step"] by simp
  next
    case False
    let ?a = "i + step - 2 ^ 64" and ?b = "i + 2 * step - 2 ^ 64"
    have a: "wrapInt (i + step) = ?a" using False less.prems assms by (intro wrapInt_over) simp_all
    have "wrapInt (?a + step) = ?a + step" using False less.prems assms by (intro wrapInt_id) simp_all
    then have b: "wrapInt (?a + step) = ?b" by simp
    have "?a \<le> mx" using less.prems assms by simp
    from stepLoop_more [OF less.prems(2), of step] stepLoop_more [OF this, of step] a b
    have "stepLoop i mx step = map_option ((#) i) (map_option ((#) ?a) (stepLoop ?b mx step))" by simp
    moreover have "nat (?b + 1000) < nat (i + 1000)" "- 1000 \<le> ?b" "?b \<le> mx" using False less.prems assms by simp_all
    ultimately show ?thesis using less.hyps [of ?b] by auto
  qed
qed

lemma stepLoop_returns:
  assumes "0 < step" "step < 2 ^ 63" "mx < 1000" "0 \<le> i"  "i < 2 ^ 63"
  shows "\<exists>vs. stepLoop i mx step = Some vs"
proof (cases "i \<le> mx")
  case True
  then show ?thesis using stepLoop_progression [OF assms(1), of mx i] stepLoop_wraps [OF assms(2) _ assms(3), of i] assms(4,5)
    by (cases "mx + step < 2 ^ 63") auto
next
  case False
  then show ?thesis by (simp add: stepLoop_stop)
qed

subsection \<open>What a validated part denotes\<close>

definition progression :: "int \<Rightarrow> int \<Rightarrow> int \<Rightarrow> int set" where
  "progression i mx step = {v. i \<le> v \<and> v \<le> mx \<and> step dvd v - i}"

definition baseVals :: "string \<Rightarrow> int \<Rightarrow> bool \<Rightarrow> int \<Rightarrow> int \<Rightarrow> int set" where
  "baseVals part step hasStep mn mx =
     (if part = ''*'' then progression mn mx step
      else (case cutByte (CHR ''-'') part of
              Some (a, b) \<Rightarrow> progression (the (Atoi a)) (the (Atoi b)) step
            | None \<Rightarrow> if hasStep then progression (the (Atoi part)) mx step else {the (Atoi part)}))"

definition partVals :: "string \<Rightarrow> int \<Rightarrow> int \<Rightarrow> int set" where
  "partVals part mn mx =
     (case cutByte (CHR ''/'') part of
        None \<Rightarrow> baseVals part 1 False mn mx
      | Some (base, st) \<Rightarrow> baseVals base (the (Atoi st)) True mn mx)"

text \<open>The step of a part leaves room below the largest \<^verbatim>\<open>int\<close>.\<close>

definition smallStep :: "string \<Rightarrow> bool" where
  "smallStep part \<longleftrightarrow> (case cutByte (CHR ''/'') part of None \<Rightarrow> True | Some (base, st) \<Rightarrow> the (Atoi st) < 2 ^ 63 - 1000)"

lemma Atoi_range: "Atoi s = Some n \<Longrightarrow> - (2 ^ 63) \<le> n \<and> n < 2 ^ 63"
  by (auto simp: Atoi_def Let_def split: if_splits list.splits prod.splits)

lemma validBase_cases:
  assumes "validateBase part mn mx = None"
  obtains "part = ''*''"
  | a b s e where "part \<noteq> ''*''" "cutByte (CHR ''-'') part = Some (a, b)" "Atoi a = Some s" "Atoi b = Some e" "mn \<le> s" "s \<le> e" "e \<le> mx"
  | v where "part \<noteq> ''*''" "cutByte (CHR ''-'') part = None" "Atoi part = Some v" "mn \<le> v" "v \<le> mx"
  using assms by (auto simp: validateBase_def split: if_splits option.splits prod.splits)

lemma loop_progression:
  "0 < step \<Longrightarrow> mx + step < 2 ^ 63 \<Longrightarrow> - (2 ^ 63) \<le> i \<Longrightarrow> i < 2 ^ 63 \<Longrightarrow>
   \<exists>vs. loopVals i mx step = Some (Inr vs) \<and> set vs = progression i mx step"
  using stepLoop_progression [of step mx i] by (auto simp: progression_def)

lemma expandBase_vals:
  assumes v: "validateBase part mn mx = None" and b: "0 \<le> mn" "mn \<le> mx" "mx < 1000" and s: "0 < step" "step < 2 ^ 63 - 1000"
  shows "\<exists>vs. expandBase part step hasStep mn mx = Some (Inr vs) \<and> set vs = baseVals part step hasStep mn mx"
proof (rule validBase_cases [OF v])
  assume "part = ''*''"
  then show ?thesis using loop_progression [of step mx mn] b s by (simp add: expandBase_def baseVals_def)
next
  fix a c i e
  assume "part \<noteq> ''*''" "cutByte (CHR ''-'') part = Some (a, c)" "Atoi a = Some i" "Atoi c = Some e" "mn \<le> i" "i \<le> e" "e \<le> mx"
  then show ?thesis using loop_progression [of step e i] b s by (simp add: expandBase_def baseVals_def)
next
  fix i
  assume "part \<noteq> ''*''" "cutByte (CHR ''-'') part = None" "Atoi part = Some i" "mn \<le> i" "i \<le> mx"
  then show ?thesis using loop_progression [of step mx i] b s by (simp add: expandBase_def baseVals_def)
qed

lemma expandBase_returns:
  assumes v: "validateBase part mn mx = None" and b: "0 \<le> mn" "mn \<le> mx" "mx < 1000" and s: "0 < step" "step < 2 ^ 63"
  shows "\<exists>vs. expandBase part step hasStep mn mx = Some (Inr vs)"
proof (rule validBase_cases [OF v])
  assume "part = ''*''"
  then show ?thesis using stepLoop_returns [OF s, of mx mn] b by (auto simp: expandBase_def)
next
  fix a c i e
  assume "part \<noteq> ''*''" "cutByte (CHR ''-'') part = Some (a, c)" "Atoi a = Some i" "Atoi c = Some e" "mn \<le> i" "i \<le> e" "e \<le> mx"
  then show ?thesis using stepLoop_returns [OF s, of e i] b by (auto simp: expandBase_def)
next
  fix i
  assume "part \<noteq> ''*''" "cutByte (CHR ''-'') part = None" "Atoi part = Some i" "mn \<le> i" "i \<le> mx"
  then show ?thesis using stepLoop_returns [OF s, of mx i] b by (auto simp: expandBase_def)
qed

lemma validPart_cases:
  assumes "validatePart part mn mx = None"
  obtains "cutByte (CHR ''/'') part = None" "validateBase part mn mx = None"
  | base st step where "cutByte (CHR ''/'') part = Some (base, st)" "Atoi st = Some step" "0 < step" "step < 2 ^ 63"
      "validateBase base mn mx = None"
  using assms Atoi_range by (auto simp: validatePart_def split: if_splits option.splits prod.splits)

lemma expandPart_vals:
  assumes "validatePart part mn mx = None" "0 \<le> mn" "mn \<le> mx" "mx < 1000" "smallStep part"
  shows "\<exists>vs. expandCronPart part mn mx = Some (Inr vs) \<and> set vs = partVals part mn mx"
  using assms(1)
proof (cases rule: validPart_cases)
  case 1
  then show ?thesis using expandBase_vals [OF 1(2) assms(2-4), of 1 False] by (simp add: expandCronPart_def partVals_def)
next
  case (2 base st step)
  then show ?thesis using expandBase_vals [OF 2(5) assms(2-4), of step True] assms(5)
    by (simp add: expandCronPart_def partVals_def smallStep_def)
qed

lemma expandPart_returns:
  assumes "validatePart part mn mx = None" "0 \<le> mn" "mn \<le> mx" "mx < 1000"
  shows "\<exists>vs. expandCronPart part mn mx = Some (Inr vs)"
  using assms(1)
proof (cases rule: validPart_cases)
  case 1
  then show ?thesis using expandBase_returns [OF 1(2) assms(2-4), of 1 False] by (simp add: expandCronPart_def)
next
  case (2 base st step)
  then show ?thesis using expandBase_returns [OF 2(5) assms(2-4), of step True] by (simp add: expandCronPart_def)
qed

lemma validateParts_None: "validateParts ps mn mx = None \<longleftrightarrow> (\<forall>p\<in>set ps. validatePart p mn mx = None)"
  by (induction ps) (auto split: option.split)

lemma expandParts_vals:
  assumes "\<forall>p\<in>set ps. validatePart p mn mx = None \<and> smallStep p" "0 \<le> mn" "mn \<le> mx" "mx < 1000"
  shows "\<exists>vs. expandParts ps mn mx = Some (Inr vs) \<and> set vs = (\<Union>p\<in>set ps. partVals p mn mx)"
  using assms(1)
proof (induction ps)
  case (Cons p ps)
  then obtain vs ws where "expandCronPart p mn mx = Some (Inr vs)" "set vs = partVals p mn mx"
    "expandParts ps mn mx = Some (Inr ws)" "set ws = (\<Union>p\<in>set ps. partVals p mn mx)"
    using expandPart_vals [OF _ assms(2-4), of p] by auto
  then show ?case by simp
qed simp

lemma expandParts_returns:
  assumes "\<forall>p\<in>set ps. validatePart p mn mx = None" "0 \<le> mn" "mn \<le> mx" "mx < 1000"
  shows "\<exists>vs. expandParts ps mn mx = Some (Inr vs)"
  using assms(1)
proof (induction ps)
  case (Cons p ps)
  then obtain vs ws where "expandCronPart p mn mx = Some (Inr vs)" "expandParts ps mn mx = Some (Inr ws)"
    using expandPart_returns [OF _ assms(2-4), of p] by auto
  then show ?case by simp
qed simp

lemma dedupe_set: "set (dedupe seen vs) = set vs - set seen"
  by (induction vs arbitrary: seen) auto

lemma dedupe_distinct: "distinct (dedupe seen vs)"
  by (induction vs arbitrary: seen) (auto simp: dedupe_set)

lemma uniqueSorted_set [simp]: "set (uniqueSorted vs) = set vs"
  by (simp add: uniqueSorted_def dedupe_set)

lemma splitOn_no_sep: "w \<in> set (splitOn d s) \<Longrightarrow> d \<notin> set w"
  by (induction s arbitrary: w) (auto split: if_splits list.splits)

lemma joinStr_Cons: "ws \<noteq> [] \<Longrightarrow> joinStr sep (w # ws) = w @ sep @ joinStr sep ws"
  by (cases ws) auto

lemma joinStr_splitOn: "joinStr [d] (splitOn d s) = s"
proof (induction s)
  case (Cons c s)
  obtain w ws where e: "splitOn d s = w # ws" using splitOn_not_Nil by (cases "splitOn d s") auto
  with Cons show ?case by (cases ws) auto
qed simp

text \<open>\<open>part = base @ ''/'' @ step\<close> when the byte occurs.\<close>

lemma cutByte_Some: "cutByte c s = Some (a, b) \<Longrightarrow> s = a @ c # b \<and> c \<notin> set a"
proof -
  assume a: "cutByte c s = Some (a, b)"
  then have "c \<in> set s" "a = takeWhile (\<lambda>x. x \<noteq> c) s" "b = tl (dropWhile (\<lambda>x. x \<noteq> c) s)" by (auto simp: cutByte_def split: if_splits)
  moreover have "dropWhile (\<lambda>x. x \<noteq> c) s \<noteq> []" "hd (dropWhile (\<lambda>x. x \<noteq> c) s) = c"
    using calculation(1) hd_dropWhile [of "\<lambda>x. x \<noteq> c" s] by auto
  ultimately show ?thesis using takeWhile_dropWhile_id [of "\<lambda>x. x \<noteq> c" s] by (metis list.collapse set_takeWhileD)
qed

lemma cutByte_None: "cutByte c s = None \<longleftrightarrow> c \<notin> set s"
  by (simp add: cutByte_def)

lemma cutByte_append: "c \<notin> set a \<Longrightarrow> cutByte c (a @ c # b) = Some (a, b)"
  by (induction a) (auto simp: cutByte_def)

lemma cutByte_zero: "cutByte (CHR ''/'') (CHR ''0'' # CHR ''/'' # st) = Some (''0'', st)"
  using cutByte_append [of "CHR ''/''" "''0''" st] by simp

lemma Atoi_zero: "Atoi ''0'' = Some 0"
  by (simp add: Atoi_def isDigit_def digitsVal_def digitVal_def)

lemma validateBase_zero: "0 \<le> mx \<Longrightarrow> validateBase ''0'' 0 mx = None"
  by (simp add: validateBase_def cutByte_def Atoi_zero)

lemma stepBase_valid:
  assumes "validatePart p 0 7 = None"
  shows "validatePart (normalizeDOWStepBase p) 0 7 = None" "smallStep p \<Longrightarrow> smallStep (normalizeDOWStepBase p)"
    "set (normalizeDOWStepBase p) \<subseteq> insert (CHR ''0'') (set p)"
proof -
  have *: "validatePart (normalizeDOWStepBase p) 0 7 = None \<and> (smallStep p \<longrightarrow> smallStep (normalizeDOWStepBase p)) \<and>
     set (normalizeDOWStepBase p) \<subseteq> insert (CHR ''0'') (set p)"
  proof (cases "cutByte (CHR ''/'') p")
    case None
    then show ?thesis using assms by (auto simp: normalizeDOWStepBase_def)
  next
    case (Some x)
    obtain b st where x: "x = (b, st)" by (cases x)
    show ?thesis
    proof (cases "Atoi b = Some 7")
      case True
      then have "normalizeDOWStepBase p = ''0/'' @ st" using Some x by (simp add: normalizeDOWStepBase_def)
      moreover have "p = b @ CHR ''/'' # st" using cutByte_Some Some x by blast
      ultimately show ?thesis using assms Some x
        by (auto simp: validatePart_def smallStep_def cutByte_zero validateBase_zero split: if_splits option.splits)
    next
      case False
      then have "normalizeDOWStepBase p = p" using Some x by (auto simp: normalizeDOWStepBase_def split: option.split)
      then show ?thesis using assms by auto
    qed
  qed
  then show "validatePart (normalizeDOWStepBase p) 0 7 = None" "smallStep p \<Longrightarrow> smallStep (normalizeDOWStepBase p)"
    "set (normalizeDOWStepBase p) \<subseteq> insert (CHR ''0'') (set p)" by auto
qed

lemma split_normed:
  assumes "validateField field 0 7 = None"
  shows "splitOn (CHR '','') (joinStr '','' (map normalizeDOWStepBase (splitOn (CHR '','') field))) =
    map normalizeDOWStepBase (splitOn (CHR '','') field)"
proof (rule splitOn_joinStr)
  have "CHR '','' \<notin> set (normalizeDOWStepBase p)" if "p \<in> set (splitOn (CHR '','') field)" for p
    using that assms stepBase_valid(3) [of p] splitOn_no_sep [OF that] by (auto simp: validateField_def validateParts_None)
  then show "\<forall>w\<in>set (map normalizeDOWStepBase (splitOn (CHR '','') field)). CHR '','' \<notin> set w" by simp
qed simp

lemma expandField_returns:
  assumes "validateField field mn mx = None" "0 \<le> mn" "mn \<le> mx" "mx < 1000"
  shows "\<exists>vs. expandCronField field mn mx = Some (Inr vs)"
  using assms expandParts_returns [of "splitOn (CHR '','') field" mn mx]
  by (auto simp: expandCronField_def validateField_def validateParts_None)

lemma normalize_returns:
  assumes "validateField field 0 7 = None"
  shows "\<exists>f. normalizeDOWField field = Some f"
proof -
  have "validateField (joinStr '','' (map normalizeDOWStepBase (splitOn (CHR '','') field))) 0 7 = None"
    unfolding validateField_def split_normed [OF assms]
    using assms stepBase_valid(1) by (auto simp: validateField_def validateParts_None)
  from expandField_returns [OF this] show ?thesis by (auto simp: normalizeDOWField_def Let_def)
qed

lemma validExpr_dow:
  assumes "ValidateCronExpr expr = None"
  shows "length (Fields expr) = 5" "validateField (Fields expr ! 4) 0 7 = None"
proof -
  show l: "length (Fields expr) = 5" using assms by (simp add: ValidateCronExpr_def Let_def split: if_splits)
  then obtain a b c d e where "Fields expr = [a, b, c, d, e]" by (auto simp: length_Suc_conv numeral_eq_Suc)
  then show "validateField (Fields expr ! 4) 0 7 = None"
    using assms by (simp add: ValidateCronExpr_def cronSpecs_def split: option.splits)
qed

subsection \<open>The days a day-of-week field means\<close>

text \<open>
  7 is Sunday, and a step from 7 is a step from Sunday; every other part means the weekdays of the values
  it enumerates up to 7.
\<close>

definition dowDays :: "string \<Rightarrow> int set" where
  "dowDays part =
     (case cutByte (CHR ''/'') part of
        Some (base, st) \<Rightarrow>
          (if Atoi base = Some 7 then {v. 0 \<le> v \<and> v \<le> 6 \<and> the (Atoi st) dvd v} else (\<lambda>v. v mod 7) ` partVals part 0 7)
      | None \<Rightarrow> (\<lambda>v. v mod 7) ` partVals part 0 7)"

lemma mod7_cases: "0 \<le> v \<Longrightarrow> v \<le> 7 \<Longrightarrow> v mod 7 = (if v = 7 then 0 else (v :: int))"
  by (simp add: mod_pos_pos_trivial)

lemma dash_zero: "cutByte (CHR ''-'') ''0'' = None"
  by (simp add: cutByte_def)

lemma dowDays_normed: "dowDays p = (\<lambda>v. v mod 7) ` partVals (normalizeDOWStepBase p) 0 7"
proof (cases "\<exists>b st. cutByte (CHR ''/'') p = Some (b, st) \<and> Atoi b = Some 7")
  case True
  then obtain b st where c: "cutByte (CHR ''/'') p = Some (b, st)" "Atoi b = Some 7" by blast
  let ?n = "the (Atoi st)"
  have n: "partVals (normalizeDOWStepBase p) 0 7 = progression 0 7 ?n"
    using c dash_zero by (simp add: normalizeDOWStepBase_def partVals_def cutByte_zero baseVals_def Atoi_zero)
  have "(\<lambda>v. v mod 7) ` progression 0 7 ?n = {v. 0 \<le> v \<and> v \<le> 6 \<and> ?n dvd v}" (is "?L = ?R")
  proof
    show "?L \<subseteq> ?R" by (auto simp: progression_def mod7_cases)
    show "?R \<subseteq> ?L"
    proof
      fix v assume "v \<in> ?R"
      then have "v \<in> progression 0 7 ?n" "v mod 7 = v" by (auto simp: progression_def)
      then show "v \<in> ?L" by (metis image_eqI)
    qed
  qed
  then show ?thesis using c n by (simp add: dowDays_def)
next
  case False
  then have "normalizeDOWStepBase p = p" by (auto simp: normalizeDOWStepBase_def split: option.split)
  then show ?thesis using False by (auto simp: dowDays_def split: option.split)
qed

lemma baseVals_range:
  assumes "validateBase part mn mx = None" "mn \<le> mx"
  shows "v \<in> baseVals part step hs mn mx \<Longrightarrow> mn \<le> v \<and> v \<le> mx" "baseVals part step hs mn mx \<noteq> {}"
proof -
  have "baseVals part step hs mn mx \<subseteq> {mn..mx} \<and> baseVals part step hs mn mx \<noteq> {}"
    using assms(1) by (rule validBase_cases) (use assms(2) in \<open>auto simp: baseVals_def progression_def\<close>)
  then show "v \<in> baseVals part step hs mn mx \<Longrightarrow> mn \<le> v \<and> v \<le> mx" "baseVals part step hs mn mx \<noteq> {}" by auto
qed

lemma partVals_range:
  assumes "validatePart part mn mx = None" "mn \<le> mx"
  shows "v \<in> partVals part mn mx \<Longrightarrow> mn \<le> v \<and> v \<le> mx" "partVals part mn mx \<noteq> {}"
proof -
  have "(v \<in> partVals part mn mx \<longrightarrow> mn \<le> v \<and> v \<le> mx) \<and> partVals part mn mx \<noteq> {}"
    using assms(1)
  proof (cases rule: validPart_cases)
    case 1
    then show ?thesis using baseVals_range(1) [OF 1(2) assms(2), of v 1 False] baseVals_range(2) [OF 1(2) assms(2), of 1 False] by (simp add: partVals_def)
  next
    case (2 base st step)
    then show ?thesis using baseVals_range(1) [OF 2(5) assms(2), of v step True] baseVals_range(2) [OF 2(5) assms(2), of step True] by (simp add: partVals_def)
  qed
  then show "v \<in> partVals part mn mx \<Longrightarrow> mn \<le> v \<and> v \<le> mx" "partVals part mn mx \<noteq> {}" by blast+
qed

text \<open>A part that never reaches 7 is valid, and means the same, with the bounds 0 to 6.\<close>

lemma progression_cut: "7 \<notin> progression i 7 step \<Longrightarrow> progression i 7 step = progression i 6 step"
proof -
  assume "7 \<notin> progression i 7 step"
  then have "v \<le> 7 \<longleftrightarrow> v \<le> 6" if "i \<le> v" "step dvd v - i" for v
    using that by (cases "v = 7") (auto simp: progression_def)
  then show ?thesis by (auto simp: progression_def)
qed

lemma baseVals_six:
  assumes v: "validateBase b 0 7 = None" and n7: "7 \<notin> baseVals b step hs 0 7" and e: "\<And>x y. cutByte (CHR ''-'') b = Some (x, y) \<Longrightarrow> Atoi y \<noteq> Some 7"
    and s: "\<not> hs \<Longrightarrow> step = 1" and s7: "hs \<Longrightarrow> Atoi b \<noteq> Some 7"
  shows "validateBase b 0 6 = None" "baseVals b step hs 0 7 = baseVals b step hs 0 6"
proof -
  have "validateBase b 0 6 = None \<and> baseVals b step hs 0 7 = baseVals b step hs 0 6"
  proof (rule validBase_cases [OF v])
    assume "b = ''*''"
    then show ?thesis using n7 progression_cut by (auto simp: validateBase_def baseVals_def)
  next
    fix x y s' e'
    assume h: "b \<noteq> ''*''" "cutByte (CHR ''-'') b = Some (x, y)" "Atoi x = Some s'" "Atoi y = Some e'" "0 \<le> s'" "s' \<le> e'" "e' \<le> 7"
    then have "e' \<le> 6" using e [of x y] by (cases "e' = 7") auto
    then show ?thesis using h by (simp add: validateBase_def baseVals_def)
  next
    fix n
    assume h: "b \<noteq> ''*''" "cutByte (CHR ''-'') b = None" "Atoi b = Some n" "0 \<le> n" "n \<le> 7"
    then have "n \<noteq> 7" using n7 s7 by (auto simp: baseVals_def split: if_splits)
    then show ?thesis using h n7 progression_cut by (auto simp: validateBase_def baseVals_def)
  qed
  then show "validateBase b 0 6 = None" "baseVals b step hs 0 7 = baseVals b step hs 0 6" by auto
qed

lemma partVals_six:
  assumes v: "validatePart p 0 7 = None" and n7: "7 \<notin> partVals p 0 7" and e: "\<not> rangeEndsAtSeven p" and nb: "normalizeDOWStepBase p = p"
  shows "validatePart p 0 6 = None \<and> partVals p 0 7 = partVals p 0 6"
  using v
proof (cases rule: validPart_cases)
  case 1
  have "7 \<notin> baseVals p 1 False 0 7" using n7 1(1) by (simp add: partVals_def)
  moreover have "Atoi y \<noteq> Some 7" if "cutByte (CHR ''-'') p = Some (x, y)" for x y
    using that e 1(1) by (simp add: rangeEndsAtSeven_def)
  ultimately show ?thesis using baseVals_six [OF 1(2), of 1 False] 1(1) by (simp add: validatePart_def partVals_def)
next
  case (2 base st step)
  have "Atoi base \<noteq> Some 7"
  proof
    assume a: "Atoi base = Some 7"
    then have "p = ''0/'' @ st" using nb 2(1) by (simp add: normalizeDOWStepBase_def)
    then have "base = ''0''" using 2(1) cutByte_zero by simp
    then show False using a Atoi_zero by simp
  qed
  moreover have "7 \<notin> baseVals base step True 0 7" using n7 2(1,2) by (simp add: partVals_def)
  moreover have "Atoi y \<noteq> Some 7" if "cutByte (CHR ''-'') base = Some (x, y)" for x y
    using that e 2(1) by (simp add: rangeEndsAtSeven_def)
  moreover have "st \<noteq> []" using 2(2) by (auto simp: Atoi_def)
  ultimately show ?thesis using baseVals_six [OF 2(5), of step True] 2(1-3) by (simp add: validatePart_def partVals_def)
qed

lemma digit_chars: "c \<in> set (natDigits n) \<Longrightarrow> isDigit c"
  using natDigits_digits [of n] by (simp add: list_all_iff)

lemma itoa_chars: "0 \<le> n \<Longrightarrow> c \<in> set (itoa n) \<Longrightarrow> isDigit c"
  by (simp add: itoa_def digit_chars)

lemma itoa_free:
  assumes "0 \<le> n"
  shows "CHR ''/'' \<notin> set (itoa n)" "CHR ''-'' \<notin> set (itoa n)" "CHR '','' \<notin> set (itoa n)" "CHR ''*'' \<notin> set (itoa n)"
  using itoa_chars [OF assms] by (fastforce simp: isDigit_def)+

lemma itoa_part:
  assumes "0 \<le> n" "mn \<le> n" "n \<le> mx" "mx < 1000"
  shows "validatePart (itoa n) mn mx = None" "expandCronPart (itoa n) mn mx = Some (Inr [n])"
proof -
  have c: "cutByte (CHR ''/'') (itoa n) = None" "cutByte (CHR ''-'') (itoa n) = None" "itoa n \<noteq> ''*''" "Atoi (itoa n) = Some n"
    using itoa_free [OF assms(1)] Atoi_itoa [of n] assms by (auto simp: cutByte_None)
  show "validatePart (itoa n) mn mx = None" "expandCronPart (itoa n) mn mx = Some (Inr [n])"
    using c assms by (simp_all add: validatePart_def validateBase_def expandCronPart_def expandBase_def)
qed

lemma split_list_field:
  assumes "ws \<noteq> []" "\<forall>w\<in>set ws. 0 \<le> w"
  shows "splitOn (CHR '','') (joinStr '','' (map itoa ws)) = map itoa ws" "joinStr '','' (map itoa ws) \<noteq> ''*''"
proof -
  show s: "splitOn (CHR '','') (joinStr '','' (map itoa ws)) = map itoa ws"
    by (rule splitOn_joinStr) (use assms itoa_free(3) in auto)
  show "joinStr '','' (map itoa ws) \<noteq> ''*''"
  proof
    assume "joinStr '','' (map itoa ws) = ''*''"
    with s have "map itoa ws = [''*'']" by simp
    then obtain w where "w \<in> set ws" "itoa w = ''*''" by auto
    then show False using itoa_free(4) [of w] assms(2) by auto
  qed
qed

lemma expand_list:
  "\<forall>w\<in>set ws. 0 \<le> w \<and> mn \<le> w \<and> w \<le> mx \<Longrightarrow> mx < 1000 \<Longrightarrow> expandParts (map itoa ws) mn mx = Some (Inr ws)"
  by (induction ws) (simp_all add: itoa_part(2))

lemma list_field:
  assumes "ws \<noteq> []" "\<forall>w\<in>set ws. 0 \<le> w \<and> w \<le> 6"
  shows "validateField (joinStr '','' (map itoa ws)) 0 6 = None"
    "expandCronField (joinStr '','' (map itoa ws)) 0 6 = Some (Inr (uniqueSorted ws))"
proof -
  have s: "splitOn (CHR '','') (joinStr '','' (map itoa ws)) = map itoa ws" "joinStr '','' (map itoa ws) \<noteq> ''*''"
    using split_list_field assms by auto
  show "validateField (joinStr '','' (map itoa ws)) 0 6 = None"
    unfolding validateField_def s(1) using assms itoa_part(1) by (auto simp: validateParts_None)
  show "expandCronField (joinStr '','' (map itoa ws)) 0 6 = Some (Inr (uniqueSorted ws))"
    unfolding expandCronField_def s(1) using s(2) assms expand_list [of ws 0 6] by simp
qed

lemma normalizeDOWValues_set:
  assumes "\<forall>v\<in>set vals. 0 \<le> v \<and> v \<le> 7"
  shows "set (normalizeDOWValues vals) = (\<lambda>v. v mod 7) ` set vals"
  using assms by (force simp: normalizeDOWValues_def mod7_cases image_iff)

lemma map_eq_self: "map f xs = xs \<Longrightarrow> x \<in> set xs \<Longrightarrow> f x = x"
  by (induction xs) auto

lemma normalize_eq:
  assumes "field \<noteq> ''*''" "CHR '','' \<in> set field \<or> take 2 field \<noteq> ''*/''"
    and "ps = splitOn (CHR '','') field" "ns = map normalizeDOWStepBase ps" "expandCronField (joinStr '','' ns) 0 7 = Some (Inr vs)" "vs \<noteq> []"
  shows "normalizeDOWField field =
    Some (if \<not> containsSeven vs \<and> ns = ps \<and> \<not> (\<exists>p\<in>set ps. rangeEndsAtSeven p) then joinStr '','' ns
          else joinStr '','' (map itoa (normalizeDOWValues vs)))"
proof -
  have "\<not> (CHR '','' \<notin> set field \<and> take 2 field = ''*/'')" using assms(2) by blast
  then show ?thesis unfolding normalizeDOWField_def Let_def assms(3,4) [symmetric] assms(5)
    using assms(1,6) by (cases "CHR '','' \<in> set field") simp_all
qed

text \<open>A field whose parts never reach 7 is left as it is.\<close>

lemma dow_kept:
  assumes "\<forall>p\<in>set ps. validatePart p 0 7 = None \<and> smallStep p \<and> normalizeDOWStepBase p = p \<and> \<not> rangeEndsAtSeven p \<and> 7 \<notin> partVals p 0 7"
  shows "\<forall>p\<in>set ps. validatePart p 0 6 = None" "\<exists>ws. expandParts ps 0 6 = Some (Inr ws) \<and> set ws = (\<Union>p\<in>set ps. dowDays p)"
proof -
  have six: "validatePart p 0 6 = None \<and> partVals p 0 7 = partVals p 0 6" if "p \<in> set ps" for p
    using bspec [OF assms that] by (intro partVals_six) simp_all
  then show "\<forall>p\<in>set ps. validatePart p 0 6 = None" by blast
  have "dowDays p = partVals p 0 6" if p: "p \<in> set ps" for p
  proof -
    have "v mod 7 = v" if "v \<in> partVals p 0 6" for v
      using partVals_range(1) [of p 0 6 v] six [OF p] that by simp
    then have "(\<lambda>v. v mod 7) ` partVals p 0 6 = partVals p 0 6" by force
    then show ?thesis using dowDays_normed [of p] six [OF p] assms p by simp
  qed
  then show "\<exists>ws. expandParts ps 0 6 = Some (Inr ws) \<and> set ws = (\<Union>p\<in>set ps. dowDays p)"
    using expandParts_vals [of ps 0 6] six assms by auto
qed

text \<open>What the expansion of the rewritten parts finds.\<close>

lemma dow_expand:
  assumes v: "validateField field 0 7 = None" and small: "\<forall>p\<in>set (splitOn (CHR '','') field). smallStep p" and ns: "field \<noteq> ''*''"
    and ps: "ps = splitOn (CHR '','') field" "qs = map normalizeDOWStepBase ps"
  shows "\<exists>vals. expandCronField (joinStr '','' qs) 0 7 = Some (Inr vals) \<and> vals \<noteq> [] \<and> set vals = (\<Union>p\<in>set qs. partVals p 0 7) \<and>
           (\<forall>x\<in>set vals. 0 \<le> x \<and> x \<le> 7) \<and> (\<Union>p\<in>set ps. dowDays p) = (\<lambda>v. v mod 7) ` set vals"
proof -
  have ok: "\<forall>p\<in>set qs. validatePart p 0 7 = None \<and> smallStep p"
    using v small stepBase_valid(1,2) ps by (auto simp: validateField_def validateParts_None)
  obtain vals where vals: "expandParts qs 0 7 = Some (Inr vals)" "set vals = (\<Union>p\<in>set qs. partVals p 0 7)"
    using expandParts_vals [OF ok] by auto
  have split: "splitOn (CHR '','') (joinStr '','' qs) = qs" using split_normed [OF v] ps by simp
  have "joinStr '','' qs \<noteq> ''*''"
  proof
    assume "joinStr '','' qs = ''*''"
    then have "map normalizeDOWStepBase (splitOn (CHR '','') field) = [''*'']" using split ps by simp
    then obtain p where p: "splitOn (CHR '','') field = [p]" "normalizeDOWStepBase p = ''*''" by auto
    then have "p = ''*''" by (auto simp: normalizeDOWStepBase_def split: option.splits if_splits)
    then show False using p(1) ns joinStr_splitOn [of "CHR '',''" field] by simp
  qed
  then have "expandCronField (joinStr '','' qs) 0 7 = Some (Inr (uniqueSorted vals))"
    using vals(1) split by (simp add: expandCronField_def)
  moreover have "0 \<le> x \<and> x \<le> 7" if x: "x \<in> set vals" for x
  proof -
    from x obtain p where "p \<in> set qs" "x \<in> partVals p 0 7" using vals(2) by blast
    then show ?thesis using partVals_range(1) [of p 0 7 x] ok by auto
  qed
  moreover have "qs \<noteq> []" using ps by simp
  then obtain q where q: "q \<in> set qs" by (meson last_in_set)
  then have "partVals q 0 7 \<noteq> {}" using partVals_range(2) [of q 0 7] ok by auto
  then have "uniqueSorted vals \<noteq> []" using vals(2) q uniqueSorted_set [of vals] by (metis SUP_bot_conv(1) set_empty)
  moreover have "(\<Union>p\<in>set ps. dowDays p) = (\<lambda>v. v mod 7) ` set vals" using vals(2) ps(2) by (auto simp: dowDays_normed)
  ultimately show ?thesis using vals(2) by (intro exI [of _ "uniqueSorted vals"]) simp
qed

end
