(* ===== verification/Schedule_Picker.thy ===== *)
theory Schedule_Picker
  imports Cron_Expr
begin

text \<open>
  The schedule picker of \<^verbatim>\<open>src/schedule/schedule.go\<close>: preset schedules, their cron expressions and
  descriptions, and the way back. \<^verbatim>\<open>Type\<close> is a Go string type, so a schedule may carry one that is
  no preset; a \<^verbatim>\<open>time.Weekday\<close> is an \<^verbatim>\<open>int\<close>.
\<close>

definition EveryNMinutes :: string where
  "EveryNMinutes = ''everyNMinutes''"

definition EveryNHours :: string where
  "EveryNHours = ''everyNHours''"

definition Hourly :: string where
  "Hourly = ''hourly''"

definition Daily :: string where
  "Daily = ''daily''"

definition Weekly :: string where
  "Weekly = ''weekly''"

definition Monthly :: string where
  "Monthly = ''monthly''"

definition Custom :: string where
  "Custom = ''custom''"

lemmas type_defs = EveryNMinutes_def EveryNHours_def Hourly_def Daily_def Weekly_def Monthly_def Custom_def

record Schedule =
  sc_Type :: string
  sc_Interval :: int
  sc_Hour :: int
  sc_Minute :: int
  sc_Weekdays :: "int list"
  sc_DayOfMonth :: int
  sc_Raw :: string

definition zeroSchedule :: Schedule where
  "zeroSchedule = \<lparr>sc_Type = [], sc_Interval = 0, sc_Hour = 0, sc_Minute = 0, sc_Weekdays = [], sc_DayOfMonth = 0, sc_Raw = []\<rparr>"

text \<open>Go's \<^verbatim>\<open>%\<close> takes the sign of its left operand.\<close>

definition goMod :: "int \<Rightarrow> int \<Rightarrow> int" where
  "goMod a b = sgn a * (\<bar>a\<bar> mod b)"

definition normalizeWeekdays :: "int list \<Rightarrow> int list" where
  "normalizeWeekdays days =
     uniqueSorted (map (\<lambda>d. let n = goMod d 7 in if n < 0 then n + 7 else n) days)"

definition weekdayField :: "int list \<Rightarrow> string" where
  "weekdayField days =
     (let nums = normalizeWeekdays days
      in if nums = [] then ''*'' else joinStr '','' (map itoa nums))"

subsection \<open>Cron and its description\<close>

definition Cron :: "Schedule \<Rightarrow> string" where
  "Cron s =
     (if sc_Type s = EveryNMinutes then ''*/'' @ itoa (sc_Interval s) @ '' * * * *''
      else if sc_Type s = EveryNHours then ''0 */'' @ itoa (sc_Interval s) @ '' * * *''
      else if sc_Type s = Hourly then itoa (sc_Minute s) @ '' * * * *''
      else if sc_Type s = Daily then itoa (sc_Minute s) @ '' '' @ itoa (sc_Hour s) @ '' * * *''
      else if sc_Type s = Weekly
      then itoa (sc_Minute s) @ '' '' @ itoa (sc_Hour s) @ '' * * '' @ weekdayField (sc_Weekdays s)
      else if sc_Type s = Monthly
      then itoa (sc_Minute s) @ '' '' @ itoa (sc_Hour s) @ '' '' @ itoa (sc_DayOfMonth s) @ '' * *''
      else sc_Raw s)"

text \<open>The verb \<^verbatim>\<open>%02d\<close>.\<close>

definition pad2 :: "int \<Rightarrow> string" where
  "pad2 n = (if 0 \<le> n \<and> n < 10 then ''0'' @ itoa n else itoa n)"

definition clockTime :: "int \<Rightarrow> int \<Rightarrow> string" where
  "clockTime hr mnt =
     (let (h, suffix) = (if hr = 0 then (12, ''AM'') else if hr = 12 then (hr, ''PM'')
                         else if hr > 12 then (hr - 12, ''PM'') else (hr, ''AM''))
      in itoa h @ '':'' @ pad2 mnt @ '' '' @ suffix)"

definition ordinal :: "int \<Rightarrow> string" where
  "ordinal n =
     itoa n @
     (if goMod n 100 < 11 \<or> goMod n 100 > 13
      then (if goMod n 10 = 1 then ''st'' else if goMod n 10 = 2 then ''nd'' else if goMod n 10 = 3 then ''rd'' else ''th'')
      else ''th'')"

definition weekdayAbbrevs :: "string list" where
  "weekdayAbbrevs = [''Sun'', ''Mon'', ''Tue'', ''Wed'', ''Thu'', ''Fri'', ''Sat'']"

text \<open>The normalized numbers are 0 to 6, so that the index below is in range.\<close>

definition weekdayNames :: "int list \<Rightarrow> string" where
  "weekdayNames days = joinStr '', '' (map (\<lambda>n. weekdayAbbrevs ! nat n) (normalizeWeekdays days))"

definition Describe :: "Schedule \<Rightarrow> string" where
  "Describe s =
     (if sc_Type s = EveryNMinutes
      then (if sc_Interval s = 1 then ''Every minute'' else ''Every '' @ itoa (sc_Interval s) @ '' minutes'')
      else if sc_Type s = EveryNHours
      then (if sc_Interval s = 1 then ''Every hour'' else ''Every '' @ itoa (sc_Interval s) @ '' hours'')
      else if sc_Type s = Hourly then ''Every hour at :'' @ pad2 (sc_Minute s)
      else if sc_Type s = Daily then ''Every day at '' @ clockTime (sc_Hour s) (sc_Minute s)
      else if sc_Type s = Weekly
      then ''Every week on '' @ weekdayNames (sc_Weekdays s) @ '' at '' @ clockTime (sc_Hour s) (sc_Minute s)
      else if sc_Type s = Monthly
      then ''Every month on the '' @ ordinal (sc_DayOfMonth s) @ '' at '' @ clockTime (sc_Hour s) (sc_Minute s)
      else ''Custom: '' @ sc_Raw s)"

subsection \<open>The way back\<close>

definition stepOfStar :: "string \<Rightarrow> int \<Rightarrow> int option" where
  "stepOfStar field mx =
     (if take 2 field \<noteq> ''*/'' then None
      else (case Atoi (drop 2 field) of
              None \<Rightarrow> None
            | Some n \<Rightarrow> if n < 1 \<or> n > mx then None else Some n))"

definition singleInt :: "string \<Rightarrow> int \<Rightarrow> int \<Rightarrow> int option" where
  "singleInt field mn mx =
     (case Atoi field of None \<Rightarrow> None | Some n \<Rightarrow> if n < mn \<or> n > mx then None else Some n)"

text \<open>The loop of \<^verbatim>\<open>weekdayList\<close>: \<open>None\<close> as soon as a part is no weekday.\<close>

fun weekdayNums :: "string list \<Rightarrow> int list option" where
  "weekdayNums [] = Some []"
| "weekdayNums (p # ps) =
     (case singleInt p 0 7 of
        None \<Rightarrow> None
      | Some n \<Rightarrow> map_option ((#) (if n = 7 then 0 else n)) (weekdayNums ps))"

definition weekdayList :: "string \<Rightarrow> int list option" where
  "weekdayList field =
     (if field = ''*'' then None
      else (case weekdayNums (splitOn (CHR '','') field) of
              None \<Rightarrow> None
            | Some nums \<Rightarrow> if nums = [] then None else Some (uniqueSorted nums)))"

definition custom :: "string \<Rightarrow> Schedule" where
  "custom expr = zeroSchedule\<lparr>sc_Type := Custom, sc_Raw := expr\<rparr>"

text \<open>The presets that pin a single minute and hour.\<close>

definition parsePinned :: "string \<Rightarrow> string \<Rightarrow> string \<Rightarrow> string \<Rightarrow> Schedule option" where
  "parsePinned mnt hr dy dow =
     (case (singleInt mnt 0 59, singleInt hr 0 23) of
        (Some m, Some h) \<Rightarrow>
          (let at = zeroSchedule\<lparr>sc_Hour := h, sc_Minute := m\<rparr>
           in if dy = ''*'' \<and> dow = ''*'' then Some (at\<lparr>sc_Type := Daily\<rparr>)
              else if dy = ''*''
              then map_option (\<lambda>days. at\<lparr>sc_Type := Weekly, sc_Weekdays := days\<rparr>) (weekdayList dow)
              else if dow = ''*''
              then map_option (\<lambda>d. at\<lparr>sc_Type := Monthly, sc_DayOfMonth := d\<rparr>) (singleInt dy 1 31)
              else None)
      | _ \<Rightarrow> None)"

definition parseFields :: "string \<Rightarrow> string \<Rightarrow> string \<Rightarrow> string \<Rightarrow> string \<Rightarrow> Schedule option" where
  "parseFields mnt hr dy month dow =
     (if month \<noteq> ''*'' then None
      else if stepOfStar mnt 59 \<noteq> None \<and> hr = ''*'' \<and> dy = ''*'' \<and> dow = ''*''
      then Some (zeroSchedule\<lparr>sc_Type := EveryNMinutes, sc_Interval := the (stepOfStar mnt 59)\<rparr>)
      else if stepOfStar hr 23 \<noteq> None \<and> dy = ''*'' \<and> dow = ''*'' \<and> singleInt mnt 0 59 = Some 0
      then Some (zeroSchedule\<lparr>sc_Type := EveryNHours, sc_Interval := the (stepOfStar hr 23)\<rparr>)
      else if singleInt mnt 0 59 \<noteq> None \<and> hr = ''*'' \<and> dy = ''*'' \<and> dow = ''*''
      then Some (zeroSchedule\<lparr>sc_Type := Hourly, sc_Minute := the (singleInt mnt 0 59)\<rparr>)
      else parsePinned mnt hr dy dow)"

definition schedule_ParseCron :: "string \<Rightarrow> Schedule \<times> bool" where
  "schedule_ParseCron expr =
     (case Fields (TrimSpace expr) of
        [mnt, hr, dy, month, dow] \<Rightarrow>
          (case parseFields mnt hr dy month dow of
             Some s \<Rightarrow> (s, True)
           | None \<Rightarrow> (custom expr, False))
      | _ \<Rightarrow> (custom expr, False))"

end
