(* ===== verification/Schedule_Lemmas.thy ===== *)
theory Schedule_Lemmas
  imports Cron_Lemmas Schedule_Picker
begin

text \<open>
  The presets of the schedule picker: splitting an expression made of plain words, the well-formed
  presets, and that each renders to an expression that parses back and that the task store accepts.
\<close>

subsection \<open>Fields of ASCII words\<close>

text \<open>A byte that neither is white space nor starts or continues a wider rune.\<close>

definition plainChar :: "char \<Rightarrow> bool" where
  "plainChar c \<longleftrightarrow> code c < (128 :: nat) \<and> \<not> asciiSpace c"

lemma wideSpace_high: "wideSpace s \<Longrightarrow> \<exists>c\<in>set s. \<not> code c < (128 :: nat)"
  by (cases s) (auto simp: wideSpace_def)

lemma wideSpace_hd: "wideSpace (c # s) \<Longrightarrow> \<not> code c < (128 :: nat)"
  by (auto simp: wideSpace_def)

lemma spaceLen_plain: "plainChar c \<Longrightarrow> spaceLen (c # cs) = 0"
  using wideSpace_hd [of c] by (auto simp: spaceLen_def plainChar_def numeral_2_eq_2 numeral_3_eq_3)

lemma fieldsAcc_word: "\<forall>c\<in>set v. plainChar c \<Longrightarrow> fieldsAcc w (v @ s) = fieldsAcc (w @ v) s"
  by (induction v arbitrary: w) (simp_all add: spaceLen_plain)

lemma fieldsAcc_space: "w \<noteq> [] \<Longrightarrow> fieldsAcc w (CHR '' '' # s) = w # fieldsAcc [] s"
  by (simp add: spaceLen_def asciiSpace_def)

lemma Fields_join:
  assumes "\<forall>w\<in>set ws. w \<noteq> [] \<and> (\<forall>c\<in>set w. plainChar c)"
  shows "Fields (joinStr '' '' ws) = ws"
  using assms
proof (induction "'' ''" ws rule: joinStr.induct)
  case (2 x)
  then show ?case using fieldsAcc_word [of x "[]" "[]"] by (simp add: Fields_def)
next
  case (3 x y ys)
  then show ?case using fieldsAcc_word [of x "[]" "'' '' @ joinStr '' '' (y # ys)"] fieldsAcc_space [of x] by (simp add: Fields_def)
qed (simp add: Fields_def)

lemma TrimSpace_ascii:
  assumes "s \<noteq> []" "\<forall>c\<in>set s. code c < (128 :: nat)" "\<not> asciiSpace (hd s)" "\<not> asciiSpace (last s)"
  shows "TrimSpace s = s"
proof -
  have w: "\<not> wideSpace u" if "set u \<subseteq> set s" for u using wideSpace_high [of u] that assms(2) by blast
  have "spaceLen s = 0" using assms(1-3) spaceLen_plain by (cases s) (auto simp: plainChar_def)
  moreover have "spaceLenEnd s = 0" using assms(4) w [OF set_drop_subset] by (simp add: spaceLenEnd_def)
  ultimately show ?thesis by (simp add: TrimSpace_def trimLeftSpace_nospace trimRightSpace_nospace)
qed

lemma joinStr_ends:
  assumes "ws \<noteq> []" "\<forall>w\<in>set ws. w \<noteq> []"
  shows "joinStr sep ws \<noteq> []" "hd (joinStr sep ws) = hd (hd ws)" "last (joinStr sep ws) = last (last ws)"
proof -
  have "joinStr sep ws \<noteq> [] \<and> hd (joinStr sep ws) = hd (hd ws) \<and> last (joinStr sep ws) = last (last ws)"
    using assms by (induction sep ws rule: joinStr.induct) auto
  then show "joinStr sep ws \<noteq> []" "hd (joinStr sep ws) = hd (hd ws)" "last (joinStr sep ws) = last (last ws)" by auto
qed

lemma joinStr_chars: "c \<in> set (joinStr sep ws) \<Longrightarrow> c \<in> set sep \<or> (\<exists>w\<in>set ws. c \<in> set w)"
  by (induction sep ws rule: joinStr.induct) auto

lemma Fields_trimmed:
  assumes "ws \<noteq> []" "\<forall>w\<in>set ws. w \<noteq> [] \<and> (\<forall>c\<in>set w. plainChar c)"
  shows "Fields (TrimSpace (joinStr '' '' ws)) = ws"
proof -
  have p: "code c < (128 :: nat)" if "c \<in> set (joinStr '' '' ws)" for c
    using joinStr_chars [OF that] assms(2) by (auto simp: plainChar_def)
  have "hd (hd ws) \<in> set (hd ws)" "hd ws \<in> set ws" "last (last ws) \<in> set (last ws)" "last ws \<in> set ws"
    using assms by (simp_all add: last_in_set)
  then have "\<not> asciiSpace (hd (hd ws))" "\<not> asciiSpace (last (last ws))" using assms(2) by (auto simp: plainChar_def)
  then have "TrimSpace (joinStr '' '' ws) = joinStr '' '' ws"
    using TrimSpace_ascii p joinStr_ends [OF assms(1)] assms(2) by auto
  then show ?thesis using Fields_join assms(2) by simp
qed

subsection \<open>Presets\<close>

definition wfSchedule :: "Schedule \<Rightarrow> bool" where
  "wfSchedule s \<longleftrightarrow>
     (\<exists>n. 1 \<le> n \<and> n \<le> 59 \<and> s = zeroSchedule\<lparr>sc_Type := EveryNMinutes, sc_Interval := n\<rparr>) \<or>
     (\<exists>n. 1 \<le> n \<and> n \<le> 23 \<and> s = zeroSchedule\<lparr>sc_Type := EveryNHours, sc_Interval := n\<rparr>) \<or>
     (\<exists>m. 0 \<le> m \<and> m \<le> 59 \<and> s = zeroSchedule\<lparr>sc_Type := Hourly, sc_Minute := m\<rparr>) \<or>
     (\<exists>m h. 0 \<le> m \<and> m \<le> 59 \<and> 0 \<le> h \<and> h \<le> 23 \<and>
        (s = zeroSchedule\<lparr>sc_Type := Daily, sc_Hour := h, sc_Minute := m\<rparr> \<or>
         (\<exists>ds. ds \<noteq> [] \<and> sorted ds \<and> distinct ds \<and> set ds \<subseteq> {0..6} \<and>
            s = zeroSchedule\<lparr>sc_Type := Weekly, sc_Hour := h, sc_Minute := m, sc_Weekdays := ds\<rparr>) \<or>
         (\<exists>d. 1 \<le> d \<and> d \<le> 31 \<and> s = zeroSchedule\<lparr>sc_Type := Monthly, sc_Hour := h, sc_Minute := m, sc_DayOfMonth := d\<rparr>)))"

lemma uniqueSorted_id: "sorted ds \<Longrightarrow> distinct ds \<Longrightarrow> uniqueSorted ds = ds"
proof -
  have "distinct (uniqueSorted ds)" "sorted (uniqueSorted ds)" by (simp_all add: uniqueSorted_def dedupe_distinct)
  then show "sorted ds \<Longrightarrow> distinct ds \<Longrightarrow> uniqueSorted ds = ds" using sorted_distinct_set_unique uniqueSorted_set by metis
qed

lemma uniqueSorted_ok: "sorted (uniqueSorted vs)" "distinct (uniqueSorted vs)" "uniqueSorted vs = [] \<longleftrightarrow> vs = []"
  using uniqueSorted_set [of vs] by (simp_all add: uniqueSorted_def dedupe_distinct) (metis set_empty uniqueSorted_set uniqueSorted_def)

lemma goMod_id: "0 \<le> n \<Longrightarrow> n < b \<Longrightarrow> goMod n b = n"
  by (cases "n = 0") (simp_all add: goMod_def)

lemma normalizeWeekdays_id:
  assumes "sorted ds" "distinct ds" "set ds \<subseteq> {0..6}"
  shows "normalizeWeekdays ds = ds"
proof -
  have "(let n = goMod d 7 in if n < 0 then n + 7 else n) = d" if "d \<in> set ds" for d
  proof -
    have "0 \<le> d" "d \<le> 6" using that assms(3) by auto
    then show ?thesis by (simp add: goMod_id)
  qed
  then have "map (\<lambda>d. let n = goMod d 7 in if n < 0 then n + 7 else n) ds = ds" by (simp add: map_idI)
  then show ?thesis using uniqueSorted_id assms by (simp add: normalizeWeekdays_def)
qed

lemma singleInt_itoa: "0 \<le> n \<Longrightarrow> mn \<le> n \<Longrightarrow> n \<le> mx \<Longrightarrow> mx < 1000 \<Longrightarrow> singleInt (itoa n) mn mx = Some n"
  using Atoi_itoa [of n] by (simp add: singleInt_def)

lemma weekdayNums_itoa: "set ds \<subseteq> {0..6} \<Longrightarrow> weekdayNums (map itoa ds) = Some ds"
  by (induction ds) (simp_all add: singleInt_itoa)

lemma weekdayList_field:
  assumes "ds \<noteq> []" "sorted ds" "distinct ds" "set ds \<subseteq> {0..6}"
  shows "weekdayList (joinStr '','' (map itoa ds)) = Some ds" "joinStr '','' (map itoa ds) \<noteq> ''*''"
proof -
  have s: "splitOn (CHR '','') (joinStr '','' (map itoa ds)) = map itoa ds" "joinStr '','' (map itoa ds) \<noteq> ''*''"
    using split_list_field [OF assms(1)] assms(4) by (auto simp: subset_iff)
  then show "weekdayList (joinStr '','' (map itoa ds)) = Some ds" "joinStr '','' (map itoa ds) \<noteq> ''*''"
    using weekdayNums_itoa [OF assms(4)] assms(1-3) by (simp_all add: weekdayList_def uniqueSorted_id)
qed

definition plainWord :: "string \<Rightarrow> bool" where
  "plainWord w \<longleftrightarrow> w \<noteq> [] \<and> (\<forall>c\<in>set w. plainChar c)"

lemma digit_plain: "isDigit c \<Longrightarrow> plainChar c"
  by (auto simp: isDigit_def plainChar_def asciiSpace_def)

lemma itoa_nonempty: "itoa n \<noteq> []"
  by (simp add: itoa_def)

lemma plain_words:
  "0 \<le> n \<Longrightarrow> plainWord (itoa n)" "plainWord ''*''" "plainWord ''0''" "0 \<le> n \<Longrightarrow> plainWord (''*/'' @ itoa n)"
  using itoa_chars [of n] digit_plain itoa_nonempty [of n] by (auto simp: plainWord_def plainChar_def asciiSpace_def)

lemma plain_list:
  assumes "ds \<noteq> []" "set ds \<subseteq> {0..6}"
  shows "plainWord (joinStr '','' (map itoa ds))"
proof -
  have "joinStr '','' (map itoa ds) \<noteq> []" using joinStr_ends(1) [of "map itoa ds"] assms(1) itoa_nonempty by simp
  moreover have "plainChar c" if "c \<in> set (joinStr '','' (map itoa ds))" for c
  proof -
    have "c = CHR '','' \<or> (\<exists>d\<in>set ds. c \<in> set (itoa d))" using joinStr_chars [OF that] by auto
    moreover have "plainChar c" if "d \<in> set ds" "c \<in> set (itoa d)" for d
      using itoa_chars [OF _ that(2)] digit_plain that(1) assms(2) by fastforce
    ultimately show ?thesis by (auto simp: plainChar_def asciiSpace_def)
  qed
  ultimately show ?thesis by (simp add: plainWord_def)
qed

lemma itoa_not_star: "0 \<le> n \<Longrightarrow> itoa n \<noteq> ''*''"
  using itoa_free(4) [of n] by auto

lemma stepOfStar_itoa: "1 \<le> n \<Longrightarrow> n \<le> mx \<Longrightarrow> mx < 1000 \<Longrightarrow> stepOfStar (''*/'' @ itoa n) mx = Some n"
  using Atoi_itoa [of n] by (simp add: stepOfStar_def)

lemma stepOfStar_number: "0 \<le> n \<Longrightarrow> stepOfStar (itoa n) mx = None"
proof -
  assume "0 \<le> n"
  then have "CHR ''*'' \<notin> set (take 2 (itoa n))" using itoa_free(4) [of n] by (meson in_set_takeD)
  then show ?thesis by (auto simp: stepOfStar_def)
qed

lemma stepOfStar_star: "stepOfStar ''*'' mx = None"
  by (simp add: stepOfStar_def)

lemma singleInt_star: "singleInt ''*'' mn mx = None"
  by (simp add: singleInt_def Atoi_def isDigit_def)

text \<open>A well-formed preset renders as five plain words, which parse back and pass the validator.\<close>

lemma parse_words:
  assumes "Cron s = joinStr '' '' [a, b, c, d, e]" "plainWord a" "plainWord b" "plainWord c" "plainWord d" "plainWord e"
    "parseFields a b c d e = Some s"
    "validateField a 0 59 = None" "validateField b 0 23 = None" "validateField c 1 31 = None" "validateField d 1 12 = None" "validateField e 0 7 = None"
  shows "schedule_ParseCron (Cron s) = (s, True) \<and> ValidateCronExpr (Cron s) = None"
proof -
  have w: "\<forall>w\<in>set [a, b, c, d, e]. w \<noteq> [] \<and> (\<forall>c\<in>set w. plainChar c)" using assms(2-6) by (simp add: plainWord_def)
  have "Fields (TrimSpace (Cron s)) = [a, b, c, d, e]" unfolding assms(1) by (rule Fields_trimmed [OF _ w]) simp
  moreover have "Fields (Cron s) = [a, b, c, d, e]" unfolding assms(1) by (rule Fields_join [OF w])
  ultimately show ?thesis using assms(7-12) by (simp add: schedule_ParseCron_def ValidateCronExpr_def cronSpecs_def)
qed

lemma validateField_star: "validateField ''*'' mn mx = None"
  by (simp add: validateField_def validatePart_def validateBase_def cutByte_def)

lemma validateField_itoa: "0 \<le> n \<Longrightarrow> mn \<le> n \<Longrightarrow> n \<le> mx \<Longrightarrow> mx < 1000 \<Longrightarrow> validateField (itoa n) mn mx = None"
  using itoa_free(3) [of n] by (simp add: validateField_def splitOn_nosep itoa_part(1))

lemma validateField_step:
  assumes "1 \<le> n" "n < 1000"
  shows "validateField (''*/'' @ itoa n) mn mx = None"
proof -
  have "cutByte (CHR ''/'') (''*'' @ CHR ''/'' # itoa n) = Some (''*'', itoa n)" by (rule cutByte_append) simp
  moreover have "splitOn (CHR '','') (''*/'' @ itoa n) = [''*/'' @ itoa n]"
    by (rule splitOn_nosep) (use itoa_free(3) [of n] assms in simp)
  ultimately show ?thesis using Atoi_itoa [of n] assms itoa_nonempty [of n]
    by (simp add: validateField_def validatePart_def validateBase_def)
qed

lemma validateField_days:
  assumes "ds \<noteq> []" "set ds \<subseteq> {0..6}"
  shows "validateField (joinStr '','' (map itoa ds)) 0 7 = None"
proof -
  have "splitOn (CHR '','') (joinStr '','' (map itoa ds)) = map itoa ds"
    using split_list_field(1) [OF assms(1)] assms(2) by (auto simp: subset_iff)
  moreover have "\<forall>d\<in>set ds. validatePart (itoa d) 0 7 = None" using itoa_part(1) [of _ 0 7] assms(2) by fastforce
  ultimately show ?thesis by (simp add: validateField_def validateParts_None)
qed

lemmas validate_words = validateField_star validateField_itoa validateField_step validateField_days
lemmas parse_facts = stepOfStar_itoa stepOfStar_number stepOfStar_star singleInt_itoa singleInt_star itoa_not_star

lemma itoa_0: "itoa 0 = ''0''"
  by code_simp

lemma roundtrip_minutes:
  assumes "1 \<le> n" "n \<le> 59" "s = zeroSchedule\<lparr>sc_Type := EveryNMinutes, sc_Interval := n\<rparr>"
  shows "schedule_ParseCron (Cron s) = (s, True) \<and> ValidateCronExpr (Cron s) = None"
  by (rule parse_words [where a = "''*/'' @ itoa n" and b = "''*''" and c = "''*''" and d = "''*''" and e = "''*''"])
    (use assms stepOfStar_itoa [of n 59] validateField_step [of n] plain_words(4) [of n] in
      \<open>simp_all add: Cron_def type_defs zeroSchedule_def plain_words(2) validateField_star parseFields_def\<close>)

lemma roundtrip_hours:
  assumes "1 \<le> n" "n \<le> 23" "s = zeroSchedule\<lparr>sc_Type := EveryNHours, sc_Interval := n\<rparr>"
  shows "schedule_ParseCron (Cron s) = (s, True) \<and> ValidateCronExpr (Cron s) = None"
  by (rule parse_words [where a = "itoa 0" and b = "''*/'' @ itoa n" and c = "''*''" and d = "''*''" and e = "''*''"])
    (use assms stepOfStar_itoa [of n 23] stepOfStar_number [of 0] singleInt_itoa [of 0 0 59] validateField_step [of n]
        plain_words(4) [of n] validateField_itoa [of 0 0 59] in
      \<open>simp_all add: Cron_def type_defs zeroSchedule_def plain_words(2,3) validateField_star parseFields_def itoa_0\<close>)

lemma roundtrip_hourly:
  assumes "0 \<le> m" "m \<le> 59" "s = zeroSchedule\<lparr>sc_Type := Hourly, sc_Minute := m\<rparr>"
  shows "schedule_ParseCron (Cron s) = (s, True) \<and> ValidateCronExpr (Cron s) = None"
  by (rule parse_words [where a = "itoa m" and b = "''*''" and c = "''*''" and d = "''*''" and e = "''*''"])
    (use assms in \<open>simp_all add: Cron_def type_defs zeroSchedule_def plain_words validate_words parseFields_def parse_facts\<close>)

lemma roundtrip_daily:
  assumes "0 \<le> m" "m \<le> 59" "0 \<le> h" "h \<le> 23" "s = zeroSchedule\<lparr>sc_Type := Daily, sc_Hour := h, sc_Minute := m\<rparr>"
  shows "schedule_ParseCron (Cron s) = (s, True) \<and> ValidateCronExpr (Cron s) = None"
  by (rule parse_words [where a = "itoa m" and b = "itoa h" and c = "''*''" and d = "''*''" and e = "''*''"])
    (use assms in \<open>simp_all add: Cron_def type_defs zeroSchedule_def plain_words validate_words parseFields_def parsePinned_def parse_facts\<close>)

lemma roundtrip_weekly:
  assumes "0 \<le> m" "m \<le> 59" "0 \<le> h" "h \<le> 23" "ds \<noteq> []" "sorted ds" "distinct ds" "set ds \<subseteq> {0..6}"
    "s = zeroSchedule\<lparr>sc_Type := Weekly, sc_Hour := h, sc_Minute := m, sc_Weekdays := ds\<rparr>"
  shows "schedule_ParseCron (Cron s) = (s, True) \<and> ValidateCronExpr (Cron s) = None"
  by (rule parse_words [where a = "itoa m" and b = "itoa h" and c = "''*''" and d = "''*''" and e = "joinStr '','' (map itoa ds)"])
    (use assms weekdayList_field [OF assms(5-8)] normalizeWeekdays_id [OF assms(6-8)] plain_list [OF assms(5,8)] in
      \<open>simp_all add: Cron_def type_defs zeroSchedule_def plain_words validate_words parseFields_def parsePinned_def parse_facts weekdayField_def\<close>)

lemma roundtrip_monthly:
  assumes "0 \<le> m" "m \<le> 59" "0 \<le> h" "h \<le> 23" "1 \<le> d" "d \<le> 31"
    "s = zeroSchedule\<lparr>sc_Type := Monthly, sc_Hour := h, sc_Minute := m, sc_DayOfMonth := d\<rparr>"
  shows "schedule_ParseCron (Cron s) = (s, True) \<and> ValidateCronExpr (Cron s) = None"
  by (rule parse_words [where a = "itoa m" and b = "itoa h" and c = "itoa d" and d = "''*''" and e = "''*''"])
    (use assms in \<open>simp_all add: Cron_def type_defs zeroSchedule_def plain_words validate_words parseFields_def parsePinned_def parse_facts\<close>)

lemma singleInt_Some: "singleInt f mn mx = Some n \<Longrightarrow> mn \<le> n \<and> n \<le> mx"
  by (auto simp: singleInt_def split: option.splits if_splits)

lemma stepOfStar_Some: "stepOfStar f mx = Some n \<Longrightarrow> 1 \<le> n \<and> n \<le> mx"
  by (auto simp: stepOfStar_def split: option.splits if_splits)

lemma weekdayNums_range: "weekdayNums ps = Some ns \<Longrightarrow> set ns \<subseteq> {0..6}"
proof (induction ps arbitrary: ns)
  case (Cons p ps)
  then obtain n ms where "singleInt p 0 7 = Some n" "weekdayNums ps = Some ms" "ns = (if n = 7 then 0 else n) # ms"
    by (auto split: option.splits)
  then show ?case using Cons.IH singleInt_Some [of p 0 7 n] by auto
qed simp

lemma weekdayList_Some:
  assumes "weekdayList f = Some ds"
  shows "ds \<noteq> [] \<and> sorted ds \<and> distinct ds \<and> set ds \<subseteq> {0..6}"
proof -
  obtain ns where "weekdayNums (splitOn (CHR '','') f) = Some ns" "ns \<noteq> []" "ds = uniqueSorted ns"
    using assms by (auto simp: weekdayList_def split: if_splits option.splits)
  then show ?thesis using weekdayNums_range uniqueSorted_ok by simp
qed

lemma parsePinned_wf: "parsePinned mnt hr dy dow = Some s \<Longrightarrow> wfSchedule s"
proof -
  assume a: "parsePinned mnt hr dy dow = Some s"
  then obtain m h where mh: "singleInt mnt 0 59 = Some m" "singleInt hr 0 23 = Some h" by (auto simp: parsePinned_def split: option.splits)
  then have b: "0 \<le> m" "m \<le> 59" "0 \<le> h" "h \<le> 23" using singleInt_Some by blast+
  let ?at = "zeroSchedule\<lparr>sc_Hour := h, sc_Minute := m\<rparr>"
  from a mh consider "s = ?at\<lparr>sc_Type := Daily\<rparr>"
    | ds where "weekdayList dow = Some ds" "s = ?at\<lparr>sc_Type := Weekly, sc_Weekdays := ds\<rparr>"
    | d where "singleInt dy 1 31 = Some d" "s = ?at\<lparr>sc_Type := Monthly, sc_DayOfMonth := d\<rparr>"
    by (auto simp: parsePinned_def Let_def split: if_splits)
  then show ?thesis
  proof cases
    case 1
    then have "s = zeroSchedule\<lparr>sc_Type := Daily, sc_Hour := h, sc_Minute := m\<rparr>" by (simp add: zeroSchedule_def)
    then show ?thesis using b unfolding wfSchedule_def by blast
  next
    case (2 ds)
    then have "s = zeroSchedule\<lparr>sc_Type := Weekly, sc_Hour := h, sc_Minute := m, sc_Weekdays := ds\<rparr>" by (simp add: zeroSchedule_def)
    then show ?thesis using b weekdayList_Some [OF 2(1)] unfolding wfSchedule_def by blast
  next
    case (3 d)
    then have "s = zeroSchedule\<lparr>sc_Type := Monthly, sc_Hour := h, sc_Minute := m, sc_DayOfMonth := d\<rparr>" by (simp add: zeroSchedule_def)
    then show ?thesis using b singleInt_Some [OF 3(1)] unfolding wfSchedule_def by blast
  qed
qed

lemma wf_presets:
  "1 \<le> n \<Longrightarrow> n \<le> 59 \<Longrightarrow> wfSchedule (zeroSchedule\<lparr>sc_Type := EveryNMinutes, sc_Interval := n\<rparr>)"
  "1 \<le> n \<Longrightarrow> n \<le> 23 \<Longrightarrow> wfSchedule (zeroSchedule\<lparr>sc_Type := EveryNHours, sc_Interval := n\<rparr>)"
  "0 \<le> n \<Longrightarrow> n \<le> 59 \<Longrightarrow> wfSchedule (zeroSchedule\<lparr>sc_Type := Hourly, sc_Minute := n\<rparr>)"
  unfolding wfSchedule_def by blast+

lemma parseFields_wf:
  assumes "parseFields mnt hr dy month dow = Some s"
  shows "wfSchedule s"
proof -
  consider n where "stepOfStar mnt 59 = Some n" "s = zeroSchedule\<lparr>sc_Type := EveryNMinutes, sc_Interval := n\<rparr>"
    | n where "stepOfStar hr 23 = Some n" "s = zeroSchedule\<lparr>sc_Type := EveryNHours, sc_Interval := n\<rparr>"
    | n where "singleInt mnt 0 59 = Some n" "s = zeroSchedule\<lparr>sc_Type := Hourly, sc_Minute := n\<rparr>"
    | "parsePinned mnt hr dy dow = Some s"
    using assms by (auto simp: parseFields_def split: if_splits)
  then show ?thesis by cases (use wf_presets stepOfStar_Some singleInt_Some parsePinned_wf in blast)+
qed

end
