(* ===== verification/Cron_Props.thy ===== *)
theory Cron_Props
  imports Schedule_Lemmas
begin

text \<open>The properties of the cron expressions and of the schedule picker.\<close>

text \<open>C39. Parsing an expression always returns: validation comes first, and the loops that enumerate a
  validated field end for every step, the steps near the largest \<^verbatim>\<open>int\<close> that make the counter wrap
  around included.
\<close>
theorem cron_parse_returns: "\<exists>r. ParseCron parse expr = Some r"
proof (cases "ValidateCronExpr expr")
  case None
  from normalize_returns [OF validExpr_dow(2) [OF None]] None show ?thesis
    by (auto simp: ParseCron_def Let_def split: sum.split)
qed (simp add: ParseCron_def)

text \<open>The rewriting of day-of-week 7: a validated field that is neither a wildcard nor a single wildcard
  step is turned into one that is valid with the days 0 to 6 and enumerates exactly the weekdays meant,
  7 being Sunday and a step from 7 a step from Sunday.
\<close>
theorem dow_normalized:
  assumes v: "validateField field 0 7 = None" and small: "\<forall>p\<in>set (splitOn (CHR '','') field). smallStep p"
    and shape: "field \<noteq> ''*''" "CHR '','' \<in> set field \<or> take 2 field \<noteq> ''*/''"
  shows "\<exists>f vs. normalizeDOWField field = Some f \<and> validateField f 0 6 = None \<and> expandCronField f 0 6 = Some (Inr vs) \<and>
           set vs = (\<Union>p\<in>set (splitOn (CHR '','') field). dowDays p)"
proof -
  define ps where "ps = splitOn (CHR '','') field"
  define qs where "qs = map normalizeDOWStepBase ps"
  obtain vals where ex: "expandCronField (joinStr '','' qs) 0 7 = Some (Inr vals)" "vals \<noteq> []"
    and vals: "set vals = (\<Union>p\<in>set qs. partVals p 0 7)" "\<forall>x\<in>set vals. 0 \<le> x \<and> x \<le> 7"
    and days: "(\<Union>p\<in>set ps. dowDays p) = (\<lambda>v. v mod 7) ` set vals"
    using dow_expand [OF v small shape(1) ps_def qs_def] by blast
  note n = normalize_eq [OF shape ps_def qs_def ex]
  show ?thesis unfolding ps_def [symmetric]
  proof (cases "\<not> containsSeven vals \<and> qs = ps \<and> \<not> (\<exists>p\<in>set ps. rangeEndsAtSeven p)")
    case True
    have f: "normalizeDOWField field = Some field"
      by (rule trans [OF n]) (use True joinStr_splitOn [of "CHR '',''" field] ps_def in simp)
    have "normalizeDOWStepBase p = p" if "p \<in> set ps" for p using True that qs_def map_eq_self [of normalizeDOWStepBase ps] by simp
    moreover have "7 \<notin> partVals p 0 7" if "p \<in> set ps" for p using True that vals(1) by (auto simp: containsSeven_def)
    ultimately have "\<forall>p\<in>set ps. validatePart p 0 7 = None \<and> smallStep p \<and> normalizeDOWStepBase p = p \<and> \<not> rangeEndsAtSeven p \<and> 7 \<notin> partVals p 0 7"
      using True v small ps_def by (auto simp: validateField_def validateParts_None)
    note k = dow_kept [OF this]
    have "validateField field 0 6 = None" using k(1) ps_def by (simp add: validateField_def validateParts_None)
    moreover have "\<exists>vs. expandCronField field 0 6 = Some (Inr vs) \<and> set vs = (\<Union>p\<in>set ps. dowDays p)"
      using k(2) shape(1) ps_def by (auto simp: expandCronField_def)
    ultimately show "\<exists>f vs. normalizeDOWField field = Some f \<and> validateField f 0 6 = None \<and> expandCronField f 0 6 = Some (Inr vs) \<and>
           set vs = (\<Union>p\<in>set ps. dowDays p)" using f by blast
  next
    case False
    let ?ws = "normalizeDOWValues vals"
    have f: "normalizeDOWField field = Some (joinStr '','' (map itoa ?ws))" by (rule trans [OF n]) (simp only: if_not_P [OF False])
    have ws: "set ?ws = (\<lambda>v. v mod 7) ` set vals" by (rule normalizeDOWValues_set [OF vals(2)])
    have "?ws \<noteq> []" using ws ex(2) by (metis image_is_empty set_empty)
    moreover have "\<forall>w\<in>set ?ws. 0 \<le> w \<and> w \<le> 6" using ws by auto
    ultimately show "\<exists>f vs. normalizeDOWField field = Some f \<and> validateField f 0 6 = None \<and> expandCronField f 0 6 = Some (Inr vs) \<and>
           set vs = (\<Union>p\<in>set ps. dowDays p)" using f list_field [of ?ws] ws days by auto
  qed
qed

theorem dow_normalized_witness:
  "\<exists>f vs. normalizeDOWField ''5-7'' = Some f \<and> validateField f 0 6 = None \<and> expandCronField f 0 6 = Some (Inr vs) \<and>
     set vs = dowDays ''5-7''"
proof -
  have "validateField ''5-7'' 0 7 = None" "splitOn (CHR '','') ''5-7'' = [''5-7'']" "smallStep ''5-7''"
    by (simp_all add: validateField_def validatePart_def validateBase_def cutByte_def Atoi_def isDigit_def digitsVal_def digitVal_def smallStep_def)
  with dow_normalized [of "''5-7''"] show ?thesis by simp
qed

text \<open>C40. The picker and the task store agree: every well-formed preset renders to an expression that the
  picker opens as the same preset and that the task store accepts.
\<close>
theorem schedule_roundtrip:
  assumes "wfSchedule s"
  shows "schedule_ParseCron (Cron s) = (s, True) \<and> ValidateCronExpr (Cron s) = None"
  using assms unfolding wfSchedule_def
  by (elim disjE exE conjE)
     (rule roundtrip_minutes roundtrip_hours roundtrip_hourly roundtrip_daily roundtrip_weekly roundtrip_monthly; assumption)+

theorem schedule_roundtrip_witness:
  "Cron (zeroSchedule\<lparr>sc_Type := Weekly, sc_Hour := 9, sc_Weekdays := [1, 3]\<rparr>) = ''0 9 * * 1,3'' \<and>
   schedule_ParseCron ''0 9 * * 1,3'' = (zeroSchedule\<lparr>sc_Type := Weekly, sc_Hour := 9, sc_Weekdays := [1, 3]\<rparr>, True)"
proof -
  let ?s = "zeroSchedule\<lparr>sc_Type := Weekly, sc_Hour := 9, sc_Weekdays := [1, 3]\<rparr>"
  have "Cron ?s = ''0 9 * * 1,3''" by code_simp
  moreover have "?s = zeroSchedule\<lparr>sc_Type := Weekly, sc_Hour := 9, sc_Minute := 0, sc_Weekdays := [1, 3]\<rparr>"
    by (simp add: zeroSchedule_def)
  then have "wfSchedule ?s" unfolding wfSchedule_def
    by (intro disjI2 exI [of _ 0] exI [of _ 9] conjI disjI1 exI [of _ "[1, 3]"]) simp_all
  ultimately show ?thesis using schedule_roundtrip [of ?s] by simp
qed

text \<open>Whatever the expression, what the picker opens is a well-formed preset, or the expression itself,
  unchanged, for the raw editor.
\<close>
theorem picker_parse_wf:
  "(case schedule_ParseCron expr of (s, ok) \<Rightarrow> if ok then wfSchedule s else s = custom expr \<and> Cron s = expr)"
  using parseFields_wf
  by (auto simp: schedule_ParseCron_def custom_def Cron_def zeroSchedule_def type_defs split: list.split option.split)

text \<open>
  Two corners. A step near the largest \<^verbatim>\<open>int\<close> in a range that ends at 7 is accepted by the validator, and
  the wrapped counter leaves a negative day in the rewritten field. \<^verbatim>\<open>-0\<close> is a minute for the picker and not
  for the validator.
\<close>

lemma bigCut: "cutByte (CHR ''/'') ''2-7/9223372036854775807'' = Some (''2-7'', ''9223372036854775807'')"
  "cutByte (CHR ''-'') ''2-7'' = Some (''2'', ''7'')"
  "splitOn (CHR '','') ''2-7/9223372036854775807'' = [''2-7/9223372036854775807'']"
  by (simp_all add: cutByte_def)

lemma bigAtoi: "Atoi ''9223372036854775807'' = Some 9223372036854775807" "Atoi ''2'' = Some 2" "Atoi ''7'' = Some 7"
  "Atoi ''2-7'' = None"
  by (simp_all add: Atoi_def isDigit_def digitsVal_def digitVal_def)

lemma bigValid: "validateField ''2-7/9223372036854775807'' 0 7 = None"
  by (simp add: validateField_def bigCut bigAtoi validatePart_def validateBase_def)

lemma digits_str: "digitChar 0 = CHR ''0''" "digitChar 1 = CHR ''1''" "digitChar 2 = CHR ''2''" "digitChar 3 = CHR ''3''" "digitChar 4 = CHR ''4''"
  "digitChar 5 = CHR ''5''" "digitChar 6 = CHR ''6''" "digitChar 7 = CHR ''7''" "digitChar 8 = CHR ''8''" "digitChar 9 = CHR ''9''"
  by code_simp+

lemma bigJoin: "joinStr '','' (map itoa [-9223372036854775807, 0, 2]) = ''-9223372036854775807,0,2''"
  by (simp add: itoa_def natDigits.simps digits_str digits_str [unfolded One_nat_def])

lemma bigLoop: "stepLoop 2 7 9223372036854775807 = Some [2, -9223372036854775807, 0]"
  by (simp add: stepLoop.simps wrapInt_def)


lemma bigField: "normalizeDOWField ''2-7/9223372036854775807'' = Some ''-9223372036854775807,0,2''"
  using bigCut bigAtoi bigLoop bigJoin
  by (simp add: normalizeDOWField_def normalizeDOWStepBase_def rangeEndsAtSeven_def expandCronField_def expandCronPart_def expandBase_def
      uniqueSorted_def normalizeDOWValues_def containsSeven_def)

lemma minus_zero: "singleInt ''-0'' 0 59 = Some 0 \<and> validateField ''-0'' 0 59 = Some (ErrInvalidRangeStart [])"
  by code_simp

end
