(* ===== verification/Handoff_Edges.thy ===== *)
theory Handoff_Edges
  imports Handoff_Decide "HOL-Library.List_Lexorder" "HOL-Library.Char_ord"
begin

text \<open>
  The edge-trigger discipline of the handoff log, \<^verbatim>\<open>src/handoff/edges.go\<close>: the tracker of the last
  verdict a session announced, the signature of a verdict, and the filter that lets an event set
  through when its signature is new or the heartbeat is due. \<^verbatim>\<open>sort.Strings\<close> is \<^const>\<open>sort\<close> in the
  bytewise lexicographic order.
\<close>

fun EventKind_String :: "EventKind \<Rightarrow> string" where
  "EventKind_String EventWall = ''wall''"
| "EventKind_String EventMove = ''move''"
| "EventKind_String EventMoved = ''moved''"
| "EventKind_String EventNoAccount = ''no-account''"
| "EventKind_String EventMoveFailed = ''move-failed''"
| "EventKind_String EventSwitchLoop = ''switch-loop''"
| "EventKind_String EventDraftBlocked = ''draft-blocked''"
| "EventKind_String EventIgnored = ''ignored''"
| "EventKind_String EventHalted = ''halted''"
| "EventKind_String EventPinnedIneligible = ''pinned-ineligible''"
| "EventKind_String EventConfigDrift = ''config-drift''"
| "EventKind_String EventGoalNotCopied = ''goal-not-copied''"

record edgeState =
  es_sig :: string
  es_at :: gtime

record EdgeTracker =
  et_last :: "edgeState gomap"

definition NewEdgeTracker :: EdgeTracker where
  "NewEdgeTracker = \<lparr>et_last = []\<rparr>"

definition signatureParams :: "string list" where
  "signatureParams =
     [''confirmed'', ''trigger'', ''skipped'', ''halt_reason'', ''halted_at'', ''until'']"

text \<open>A missing key of a map to strings reads as the empty string.\<close>

definition getStr :: "string gomap \<Rightarrow> string \<Rightarrow> string" where
  "getStr m k = (case map_of m k of None \<Rightarrow> [] | Some v \<Rightarrow> v)"

definition signatureLine :: "Event \<Rightarrow> string" where
  "signatureLine e =
     (let keys = sort (filter (\<lambda>k. k \<in> set signatureParams) (map fst (ev_Params e))) in
      EventKind_String (ev_Kind e) @ ''|'' @ ev_Reason e @ ''|'' @ ev_From e @ ''|'' @ ev_To e @ ''|'' @
      concat (map (\<lambda>k. k @ ''='' @ getStr (ev_Params e) k @ '';'') keys) @ [CHR 0x0A])"

definition eventSignature :: "Event list \<Rightarrow> string" where
  "eventSignature events = concat (map signatureLine events)"

text \<open>The events to log and the tracker after recording them.\<close>

definition Filter ::
  "string \<Rightarrow> Event list \<Rightarrow> gtime \<Rightarrow> duration \<Rightarrow> EdgeTracker \<Rightarrow> Event list \<times> EdgeTracker" where
  "Filter sessionKey events now reannounce t =
     (let sig = eventSignature events in
      if (case map_of (et_last t) sessionKey of
            None \<Rightarrow> False
          | Some prev \<Rightarrow> es_sig prev = sig \<and> (sig = [] \<or> now - es_at prev < reannounce))
      then ([], t)
      else (events, t\<lparr>et_last := AList.update sessionKey \<lparr>es_sig = sig, es_at = now\<rparr> (et_last t)\<rparr>))"

definition Prune :: "string list \<Rightarrow> EdgeTracker \<Rightarrow> EdgeTracker" where
  "Prune live t = t\<lparr>et_last := filter (\<lambda>(k, v). k \<in> set live) (et_last t)\<rparr>"

end
