(* ===== verification/Handoff_Engine.thy ===== *)
theory Handoff_Engine
  imports Handoff_Edges Handoff_Rails
begin

text \<open>
  The shadow engine of \<^verbatim>\<open>src/internal/handoffengine/engine.go\<close>: one pass assembles the facts of every
  governed session, applies the decision core, and writes, edge-triggered, the rows of the shadow log
  and the reports about them.

  The record \<open>Deps\<close> holds the engine's injected reads. A read may answer differently each time: it is
  a function of the log of the reads made before it, and every read the pass makes is appended to that
  log. \<open>dp_ComposerDraft\<close> stands for the pane analysis \<^verbatim>\<open>tmux.ComposerDraftPresent\<close>. A dependency that
  writes is the success of the call. What a pass did is its \<open>tickResult\<close>. Go's maps from strings are
  association lists or lists without repetition; the warnings carry no state.
\<close>

subsection \<open>Inputs and dependencies\<close>

definition Reannounce :: duration where
  "Reannounce = 30 * minute"

definition Freshness :: duration where
  "Freshness = 60 * second"

definition driftUnverifiable :: string where
  "driftUnverifiable = ''unverifiable''"

definition moverRowKey :: string where
  "moverRowKey = ''mover''"

record SessionInput =
  in_Key :: string
  in_Title :: string
  in_RepoID :: string
  in_RepoRoot :: string
  in_Agent :: string
  in_Account :: string
  in_Auto :: bool
  in_Started :: bool
  in_Live :: bool
  in_Working :: bool
  in_Parked :: bool
  in_Attached :: bool
  in_VSCodeTab :: bool
  in_PendingOp :: bool
  in_SwapCapable :: bool
  in_CarryPossible :: bool
  in_HomeDir :: string
  in_Program :: string
  in_LimitAccount :: string
  in_WallObservedAt :: gtime
  in_Captured :: bool
  in_CapturedAt :: gtime
  in_Content :: string
  in_Persisted :: bool

text \<open>The two fields of \<^verbatim>\<open>config.ResolvedConfig\<close> the engine reads.\<close>

record ResolvedConfig =
  rc_AccountHandoff :: AccountHandoffConfig
  rc_LimitAccountCandidates :: "string list"

datatype envRead =
    ReadConfig string
  | ReadState
  | ReadRegistered string
  | ReadLimited string
  | ReadAccountDir string string
  | ReadUsageOf string "int gomap"
  | ReadDrift string string string string

record EventRow =
  er_TS :: gtime
  er_Kind :: EventKind
  er_SessionKey :: string
  er_Agent :: string
  er_Title :: string
  er_From :: string
  er_To :: string
  er_ReasonCode :: string
  er_Params :: "string gomap"
  er_Mode :: string

text \<open>\<open>None\<close> is the error of a read; a resolved configuration may be the nil pointer too.\<close>

record Deps =
  dp_Now :: gtime
  dp_ResolveConfig :: "envRead list \<Rightarrow> string \<Rightarrow> ResolvedConfig option option"
  dp_LoadState :: "envRead list \<Rightarrow> Snapshot option"
  dp_Registered :: "envRead list \<Rightarrow> string \<Rightarrow> string list option"
  dp_LimitedAccounts :: "envRead list \<Rightarrow> string \<Rightarrow> bool gomap option"
  dp_AccountDir :: "envRead list \<Rightarrow> string \<Rightarrow> string \<Rightarrow> string option"
  dp_ReadUsage :: "envRead list \<Rightarrow> string \<Rightarrow> int gomap \<Rightarrow> ReadingFacts"
  dp_DriftKey :: "envRead list \<Rightarrow> string \<Rightarrow> string \<Rightarrow> string \<Rightarrow> string \<Rightarrow> string \<times> bool"
  dp_DetectWall :: "string \<Rightarrow> string \<Rightarrow> bool"
  dp_ComposerDraft :: "string \<Rightarrow> bool \<times> bool"
  dp_HasPruneRails :: bool
  dp_HasDeliverReport :: bool
  dp_WriteRows :: "EventRow list \<Rightarrow> bool"
  dp_ResetGrace :: duration
  dp_ProofMargin :: duration
  dp_fmt :: formatters

record governedSession =
  g_in :: SessionInput
  g_cfg :: ResolvedConfig

abbreviation g_hc :: "governedSession \<Rightarrow> AccountHandoffConfig" where
  "g_hc g \<equiv> rc_AccountHandoff (g_cfg g)"

record namespace =
  ns_registered :: "string list"
  ns_limited :: "bool gomap"
  ns_failed :: bool

text \<open>The reads made so far and the two caches of a pass.\<close>

record evidence =
  en_log :: "envRead list"
  en_namespaces :: "namespace gomap"
  en_readings :: "ReadingFacts gomap"

datatype tickError = ErrLoadState | ErrWriteRows

record report =
  rp_spec :: string
  rp_recipient :: SessionInput
  rp_rows :: "EventRow list"

record tickResult =
  tk_count :: nat
  tk_error :: "tickError option"
  tk_edges :: EdgeTracker
  tk_log :: "envRead list"
  tk_prune :: "(duration \<times> gtime) option"
  tk_rows :: "EventRow list"
  tk_reports :: "report list"

subsection \<open>Scope\<close>

definition excludedTitle :: "string list \<Rightarrow> string \<Rightarrow> bool" where
  "excludedTitle excludes title \<longleftrightarrow> list_ex (\<lambda>entry. TrimSpace entry = title) excludes"

definition outOfScope :: "governedSession \<Rightarrow> bool" where
  "outOfScope g \<longleftrightarrow>
     (let i = g_in g; cfg = g_hc g in
      if \<not> in_Started i \<or> \<not> in_Live i then True
      else if in_Agent i = [] then True
      else if \<not> in_SwapCapable i then True
      else if excludedTitle (hc_ExcludeSessions cfg) (in_Title i) then True
      else if in_Account i \<noteq> [] \<and> \<not> in_Auto i \<and> \<not> hc_IncludePinned cfg then True
      else if in_Account i = [] \<and> hc_DefaultLogin cfg \<noteq> ''move'' then True
      else False)"

definition noReading :: "ReadingStatus \<Rightarrow> ReadingFacts" where
  "noReading st = \<lparr>rf_Status = st, rf_Windows = [], rf_RecordedAt = zeroTime, rf_Complete = False\<rparr>"

definition bareFacts :: "Deps \<Rightarrow> governedSession \<Rightarrow> Snapshot \<Rightarrow> Facts" where
  "bareFacts d g snap =
     (let i = g_in g in
      \<lparr>f_Now = dp_Now d, f_ResetGrace = dp_ResetGrace d, f_ProofMargin = dp_ProofMargin d,
       f_Session =
         \<lparr>sf_Key = in_Key i, sf_Title = in_Title i, sf_Agent = in_Agent i, sf_Account = in_Account i,
          sf_AutoSelected = in_Auto i, sf_Started = in_Started i, sf_Live = in_Live i,
          sf_Parked = in_Parked i, sf_WallBanner = False, sf_WallObservedAt = zeroTime,
          sf_LimitAccount = [], sf_Captured = False, sf_Working = False, sf_Draft = False,
          sf_DraftCertain = False, sf_Attached = False, sf_VSCodeTab = False, sf_PendingOp = False,
          sf_SwapCapable = in_SwapCapable i, sf_CarryPossible = False,
          sf_Reading = noReading ReadingNone\<rparr>,
       f_Accounts = [],
       f_Rails = \<lparr>rl_Halted = (st_Halted (sn_State snap) \<noteq> None), rl_HaltReason = [],
                  rl_MovesInWindow = 0, rl_RefusedUntil = zeroTime\<rparr>,
       f_Config = g_hc g\<rparr>)"

subsection \<open>Evidence\<close>

definition noteRead :: "envRead \<Rightarrow> evidence \<Rightarrow> evidence" where
  "noteRead r en = en\<lparr>en_log := en_log en @ [r]\<rparr>"

text \<open>The evidence of an agent's account registry, read once per pass.\<close>

definition nsFor :: "Deps \<Rightarrow> string \<Rightarrow> evidence \<Rightarrow> namespace \<times> evidence" where
  "nsFor d agent en =
     (case map_of (en_namespaces en) agent of
        Some ns \<Rightarrow> (ns, en)
      | None \<Rightarrow>
          (let names = dp_Registered d (en_log en) agent;
               en1 = noteRead (ReadRegistered agent) en;
               lim = dp_LimitedAccounts d (en_log en1) agent;
               en2 = noteRead (ReadLimited agent) en1;
               ns = \<lparr>ns_registered = (case names of None \<Rightarrow> [] | Some xs \<Rightarrow> xs),
                     ns_limited = (case lim of None \<Rightarrow> [] | Some m \<Rightarrow> m),
                     ns_failed = (lim = None)\<rparr>
           in (ns, en2\<lparr>en_namespaces := AList.update agent ns (en_namespaces en2)\<rparr>)))"

text \<open>The usage of an account home, read once per pass; a home under quarantine is not read.\<close>

definition readUsage :: "Deps \<Rightarrow> Snapshot \<Rightarrow> string \<Rightarrow> int gomap \<Rightarrow> evidence \<Rightarrow> ReadingFacts \<times> evidence" where
  "readUsage d snap dir carried en =
     (case map_of (en_readings en) dir of
        Some r \<Rightarrow> (r, en)
      | None \<Rightarrow>
          (let (r, en1) =
                 (if AccountUntrusted snap dir then (noReading ReadingUnknown, en)
                  else (dp_ReadUsage d (en_log en) dir carried, noteRead (ReadUsageOf dir carried) en))
           in (r, en1\<lparr>en_readings := AList.update dir r (en_readings en1)\<rparr>)))"

text \<open>The sessions an account carries, by the key of its agent and name.\<close>

definition seatKey :: "string \<Rightarrow> string \<Rightarrow> string" where
  "seatKey agent account = agent @ [CHR 0x00] @ account"

definition occupancy :: "SessionInput list \<Rightarrow> int gomap" where
  "occupancy sessions =
     foldl (\<lambda>m i. if in_Account i \<noteq> [] \<and> in_Started i \<and> in_Live i
                   then AList.update (seatKey (in_Agent i) (in_Account i))
                          (get0 m (seatKey (in_Agent i) (in_Account i)) + 1) m
                   else m) [] sessions"

definition inWindow :: "duration \<Rightarrow> gtime \<Rightarrow> gtime \<Rightarrow> bool" where
  "inWindow window now t \<longleftrightarrow> window \<le> 0 \<or> \<not> t < now - window"

text \<open>\<^verbatim>\<open>time.ParseDuration\<close>'s value, \<open>0\<close> when it fails.\<close>

definition durationOr0 :: "string \<Rightarrow> duration" where
  "durationOr0 s = (case ParseDuration s of None \<Rightarrow> 0 | Some w \<Rightarrow> w)"

definition railsFacts :: "governedSession \<Rightarrow> Snapshot \<Rightarrow> gtime \<Rightarrow> RailsFacts" where
  "railsFacts g snap now =
     (let i = g_in g; window = durationOr0 (hc_MaxMovesWindow (g_hc g));
          halted = st_Halted (sn_State snap)
      in \<lparr>rl_Halted = (halted \<noteq> None),
          rl_HaltReason = (case halted of None \<Rightarrow> [] | Some h \<Rightarrow> hl_Reason h),
          rl_MovesInWindow =
            int (length (filter (\<lambda>mv. rm_SessionKey mv = in_Key i \<and> inWindow window now (rm_At mv))
                           (ra_RecentMoves (sn_Rails snap)))),
          rl_RefusedUntil =
            (case map_of (ra_RefusedUntil (sn_Rails snap)) (in_Key i) of
               None \<Rightarrow> zeroTime
             | Some until \<Rightarrow> if until > now then until else zeroTime)\<rparr>)"

text \<open>One configured candidate against the registry, its own home and the rails.\<close>

definition candidateReading ::
  "Deps \<Rightarrow> governedSession \<Rightarrow> Snapshot \<Rightarrow> string \<Rightarrow> string \<Rightarrow> evidence \<Rightarrow> (ReadingFacts \<times> string) \<times> evidence"
where
  "candidateReading d g snap srcDir name en =
     (let i = g_in g; carried = EffectiveCarriedPrefixes snap;
          dir = dp_AccountDir d (en_log en) (in_Agent i) name;
          en1 = noteRead (ReadAccountDir (in_Agent i) name) en
      in if dir = None \<or> dir = Some [] then
           ((noReading ReadingUnknown, if in_Agent i = ''codex'' then driftUnverifiable else []), en1)
         else if in_Agent i = ''codex'' then
           (let (r, en2) = readUsage d snap (the dir) carried en1 in
            if srcDir = [] then ((r, driftUnverifiable), en2)
            else
              (let (key, incomparable) = dp_DriftKey d (en_log en2) (in_Agent i) srcDir (the dir) (in_Program i);
                   en3 = noteRead (ReadDrift (in_Agent i) srcDir (the dir) (in_Program i)) en2
               in ((r, if incomparable then driftUnverifiable else key), en3)))
         else ((noReading ReadingNone, []), en1))"

definition candidateFacts ::
  "Deps \<Rightarrow> governedSession \<Rightarrow> namespace \<Rightarrow> int gomap \<Rightarrow> Snapshot \<Rightarrow> string \<Rightarrow> string \<Rightarrow> evidence \<Rightarrow>
   AccountFacts \<times> evidence"
where
  "candidateFacts d g ns occ snap srcDir name en =
     (let i = g_in g; window = durationOr0 (hc_MaxMovesWindow (g_hc g));
          ((r, drift), en') = candidateReading d g snap srcDir name en
      in (\<lparr>af_Name = name, af_Registered = (name \<in> set (ns_registered ns)),
           af_Limited = (map_of (ns_limited ns) name = Some True), af_Drift = drift,
           af_Occupancy = get0 occ (seatKey (in_Agent i) name),
           af_RecentMoveCredits =
             int (length (filter (\<lambda>mv. rm_Agent mv = in_Agent i \<and> rm_Account mv = name \<and>
                                       inWindow window (dp_Now d) (rm_At mv))
                            (ra_RecentMoves (sn_Rails snap)))),
           af_Reading = r\<rparr>, en'))"

fun candidatesFacts ::
  "Deps \<Rightarrow> governedSession \<Rightarrow> namespace \<Rightarrow> int gomap \<Rightarrow> Snapshot \<Rightarrow> string \<Rightarrow> string list \<Rightarrow> evidence \<Rightarrow>
   AccountFacts list \<times> evidence"
where
  "candidatesFacts d g ns occ snap srcDir [] en = ([], en)"
| "candidatesFacts d g ns occ snap srcDir (name # names) en =
     (let (af, en1) = candidateFacts d g ns occ snap srcDir name en;
          (afs, en2) = candidatesFacts d g ns occ snap srcDir names en1
      in (af # afs, en2))"

text \<open>The session's own reading: only an agent with a home that records its usage has one.\<close>

definition ownReading :: "Deps \<Rightarrow> governedSession \<Rightarrow> Snapshot \<Rightarrow> evidence \<Rightarrow> ReadingFacts \<times> evidence" where
  "ownReading d g snap en =
     (let i = g_in g in
      if in_Agent i = ''codex'' then
        (if in_HomeDir i \<noteq> [] then readUsage d snap (in_HomeDir i) (EffectiveCarriedPrefixes snap) en
         else (noReading ReadingUnknown, en))
      else (noReading ReadingNone, en))"

definition freshCapture :: "SessionInput \<Rightarrow> gtime \<Rightarrow> bool" where
  "freshCapture i now \<longleftrightarrow> in_Captured i \<and> \<not> isZero (in_CapturedAt i) \<and> now - in_CapturedAt i \<le> Freshness"

definition factsFor ::
  "Deps \<Rightarrow> governedSession \<Rightarrow> namespace \<Rightarrow> int gomap \<Rightarrow> Snapshot \<Rightarrow> evidence \<Rightarrow> Facts \<times> evidence" where
  "factsFor d g ns occ snap en =
     (let i = g_in g; fresh = freshCapture i (dp_Now d);
          (draft, certain) = (if fresh then dp_ComposerDraft d (in_Content i) else (False, False));
          (own, en1) = ownReading d g snap en;
          srcDir = (if in_Agent i = ''codex'' then in_HomeDir i else []);
          (accounts, en2) = candidatesFacts d g ns occ snap srcDir (rc_LimitAccountCandidates (g_cfg g)) en1
      in (\<lparr>f_Now = dp_Now d, f_ResetGrace = dp_ResetGrace d, f_ProofMargin = dp_ProofMargin d,
           f_Session =
             \<lparr>sf_Key = in_Key i, sf_Title = in_Title i, sf_Agent = in_Agent i, sf_Account = in_Account i,
              sf_AutoSelected = in_Auto i, sf_Started = in_Started i, sf_Live = in_Live i,
              sf_Parked = in_Parked i, sf_WallBanner = (fresh \<and> dp_DetectWall d (in_Content i) (in_Agent i)),
              sf_WallObservedAt = in_WallObservedAt i, sf_LimitAccount = in_LimitAccount i,
              sf_Captured = fresh, sf_Working = in_Working i, sf_Draft = draft, sf_DraftCertain = certain,
              sf_Attached = in_Attached i, sf_VSCodeTab = in_VSCodeTab i, sf_PendingOp = in_PendingOp i,
              sf_SwapCapable = in_SwapCapable i, sf_CarryPossible = in_CarryPossible i, sf_Reading = own\<rparr>,
           f_Accounts = accounts, f_Rails = railsFacts g snap (dp_Now d), f_Config = g_hc g\<rparr>, en2))"

subsection \<open>Recipients\<close>

text \<open>Cutting a string at its last occurrence of a character.\<close>

definition cutLast :: "char \<Rightarrow> string \<Rightarrow> (string \<times> string) option" where
  "cutLast c s =
     (let tail = takeWhile (\<lambda>x. x \<noteq> c) (rev s) in
      if c \<in> set s then Some (take (length s - length tail - 1) s, rev tail) else None)"

definition matchesSpec :: "string \<Rightarrow> SessionInput \<Rightarrow> bool" where
  "matchesSpec spec i =
     (case cutLast (CHR ''/'') spec of
        None \<Rightarrow> in_Title i = spec
      | Some (project, title) \<Rightarrow>
          (let base = (case cutLast (CHR ''/'') (in_RepoRoot i) of
                         None \<Rightarrow> in_RepoRoot i | Some (_, b) \<Rightarrow> b)
           in in_Title i = title \<and>
              (project = in_RepoID i \<or> project = in_RepoRoot i \<or>
               (CHR ''/'' \<notin> set project \<and> project = base))))"

text \<open>The one session a \<^verbatim>\<open>report_to\<close> value names, and whether it is live.\<close>

definition resolveRecipient :: "string \<Rightarrow> SessionInput list \<Rightarrow> (SessionInput \<times> bool) option" where
  "resolveRecipient spec inputs =
     (let first = filter (matchesSpec spec) inputs;
          matches = (if first = [] \<and> CHR ''/'' \<in> set spec
                     then filter (\<lambda>i. in_Title i = spec) inputs else first)
      in case matches of
           [r] \<Rightarrow> Some (r, in_Live r \<and> in_Started r)
         | _ \<Rightarrow> None)"

subsection \<open>The pass\<close>

text \<open>
  The configurations, resolved once per repository root: the sessions that opted in, whether a
  resolution failed, and the reads made.
\<close>

fun resolveConfigs ::
  "Deps \<Rightarrow> SessionInput list \<Rightarrow> ResolvedConfig option gomap \<Rightarrow> bool \<Rightarrow> envRead list \<Rightarrow>
   governedSession list \<times> bool \<times> envRead list"
where
  "resolveConfigs d [] resolved failed reads = ([], failed, reads)"
| "resolveConfigs d (i # ins) resolved failed reads =
     (if in_Persisted i then resolveConfigs d ins resolved failed reads
      else
        (let (cfg, resolved', failed', reads') =
               (case map_of resolved (in_RepoRoot i) of
                  Some c \<Rightarrow> (c, resolved, failed, reads)
                | None \<Rightarrow>
                    (let reads1 = reads @ [ReadConfig (in_RepoRoot i)] in
                     case dp_ResolveConfig d reads (in_RepoRoot i) of
                       None \<Rightarrow> (None, AList.update (in_RepoRoot i) None resolved, True, reads1)
                     | Some c \<Rightarrow> (c, AList.update (in_RepoRoot i) c resolved, failed, reads1)));
             (gov, failed'', reads'') = resolveConfigs d ins resolved' failed' reads'
         in case cfg of
              None \<Rightarrow> (gov, failed'', reads'')
            | Some c \<Rightarrow>
                if hc_Mode (rc_AccountHandoff c) \<noteq> ''shadow'' then (gov, failed'', reads'')
                else (\<lparr>g_in = i, g_cfg = c\<rparr> # gov, failed'', reads'')))"

text \<open>The widest window of the governed sessions; \<open>None\<close> when some window is unbounded or none is positive.\<close>

definition windowUnbounded :: "governedSession \<Rightarrow> bool" where
  "windowUnbounded g \<longleftrightarrow> durationOr0 (hc_MaxMovesWindow (g_hc g)) \<le> 0"

definition pruneWindow :: "governedSession list \<Rightarrow> duration option" where
  "pruneWindow gov =
     (let maxWindow = foldl (\<lambda>m g. let w = durationOr0 (hc_MaxMovesWindow (g_hc g)) in
                                    if w > m then w else m) 0 gov
      in if \<not> list_ex windowUnbounded gov \<and> maxWindow > 0 then Some maxWindow else None)"

definition specByKey :: "governedSession list \<Rightarrow> string gomap" where
  "specByKey gov = foldl (\<lambda>m g. AList.update (in_Key (g_in g)) (hc_ReportTo (g_hc g)) m) [] gov"

definition reportSpecs :: "governedSession list \<Rightarrow> string list" where
  "reportSpecs gov = remdups (filter (\<lambda>s. s \<noteq> []) (map (\<lambda>g. hc_ReportTo (g_hc g)) gov))"

definition appendRow :: "string \<Rightarrow> EventRow \<Rightarrow> EventRow list gomap \<Rightarrow> EventRow list gomap" where
  "appendRow spec row m =
     AList.update spec ((case map_of m spec of None \<Rightarrow> [] | Some rs \<Rightarrow> rs) @ [row]) m"

definition sessionRow :: "Deps \<Rightarrow> SessionInput \<Rightarrow> Event \<Rightarrow> EventRow" where
  "sessionRow d i e =
     \<lparr>er_TS = dp_Now d, er_Kind = ev_Kind e, er_SessionKey = in_Key i, er_Agent = in_Agent i,
      er_Title = in_Title i, er_From = ev_From e, er_To = ev_To e, er_ReasonCode = ev_Reason e,
      er_Params = ev_Params e, er_Mode = ''shadow''\<rparr>"

definition moverRow :: "Deps \<Rightarrow> Event \<Rightarrow> EventRow" where
  "moverRow d e =
     \<lparr>er_TS = dp_Now d, er_Kind = ev_Kind e, er_SessionKey = moverRowKey, er_Agent = [], er_Title = [],
      er_From = [], er_To = [], er_ReasonCode = ev_Reason e, er_Params = ev_Params e,
      er_Mode = ''shadow''\<rparr>"

definition haltEvent :: "Deps \<Rightarrow> Halt \<Rightarrow> Event" where
  "haltEvent d h =
     event EventHalted ''mover-halted'' [] []
       [(''halt_reason'', hl_Reason h), (''halted_at'', fmtTime (dp_fmt d) (hl_At h))]"

text \<open>What the two announcing loops carry: the pending edges, the rows and the rows by report target.\<close>

record passState =
  ps_pending :: EdgeTracker
  ps_rows :: "EventRow list"
  ps_reportRows :: "EventRow list gomap"
  ps_evidence :: evidence

definition announceHalt :: "Deps \<Rightarrow> Snapshot \<Rightarrow> string list \<Rightarrow> passState \<Rightarrow> passState" where
  "announceHalt d snap specs ps =
     (case st_Halted (sn_State snap) of
        None \<Rightarrow> ps
      | Some h \<Rightarrow>
          (let (evs, pending) = Filter moverRowKey [haltEvent d h] (dp_Now d) Reannounce (ps_pending ps);
               rows = map (moverRow d) evs
           in ps\<lparr>ps_pending := pending, ps_rows := ps_rows ps @ rows,
                 ps_reportRows := fold (\<lambda>row m. fold (\<lambda>spec m. appendRow spec row m) specs m) rows
                                    (ps_reportRows ps)\<rparr>))"

text \<open>The facts a session reaches the decision with; \<open>None\<close> when its registry's evidence failed.\<close>

definition sessionFacts ::
  "Deps \<Rightarrow> int gomap \<Rightarrow> Snapshot \<Rightarrow> governedSession \<Rightarrow> evidence \<Rightarrow> Facts option \<times> evidence" where
  "sessionFacts d occ snap g en =
     (if outOfScope g then (Some (bareFacts d g snap), en)
      else
        (let (ns, en1) = nsFor d (in_Agent (g_in g)) en in
         if ns_failed ns then (None, en1)
         else (let (f, en2) = factsFor d g ns occ snap en1 in (Some f, en2))))"

definition sessionPass ::
  "Deps \<Rightarrow> int gomap \<Rightarrow> Snapshot \<Rightarrow> string gomap \<Rightarrow> governedSession \<Rightarrow> passState \<Rightarrow> passState" where
  "sessionPass d occ snap specOf g ps =
     (let (mf, en) = sessionFacts d occ snap g (ps_evidence ps) in
      case mf of
        None \<Rightarrow> ps\<lparr>ps_evidence := en\<rparr>
      | Some f \<Rightarrow>
          (let key = in_Key (g_in g);
               (evs, pending) = Filter key (d_Events (Decide (dp_fmt d) f)) (dp_Now d) Reannounce
                                  (ps_pending ps);
               rows = map (sessionRow d (g_in g)) evs;
               spec = getStr specOf key
           in ps\<lparr>ps_pending := pending, ps_rows := ps_rows ps @ rows,
                 ps_reportRows := (if spec \<noteq> [] then fold (appendRow spec) rows (ps_reportRows ps)
                                   else ps_reportRows ps),
                 ps_evidence := en\<rparr>))"

definition recipientKeys :: "SessionInput list \<Rightarrow> string list \<Rightarrow> string list" where
  "recipientKeys sessions specs =
     concat (map (\<lambda>spec. case resolveRecipient spec sessions of
                            Some (r, True) \<Rightarrow> [in_Key r] | _ \<Rightarrow> []) specs)"

definition deliverReports ::
  "SessionInput list \<Rightarrow> string list \<Rightarrow> EventRow list gomap \<Rightarrow> report list" where
  "deliverReports sessions specs reportRows =
     concat (map (\<lambda>(spec, specRows).
        case resolveRecipient spec sessions of
          Some (r, True) \<Rightarrow>
            (let own = filter (\<lambda>row. er_SessionKey row \<notin> set (recipientKeys sessions specs)) specRows
             in if own \<noteq> [] then [\<lparr>rp_spec = spec, rp_recipient = r, rp_rows = own\<rparr>] else [])
        | _ \<Rightarrow> []) reportRows)"

text \<open>The two loops over the governed sessions, from the tracker's clone.\<close>

definition runPass ::
  "Deps \<Rightarrow> SessionInput list \<Rightarrow> governedSession list \<Rightarrow> Snapshot \<Rightarrow> EdgeTracker \<Rightarrow> envRead list \<Rightarrow> passState" where
  "runPass d sessions gov snap edges reads =
     fold (sessionPass d (occupancy sessions) snap (specByKey gov)) gov
       (announceHalt d snap (reportSpecs gov)
          \<lparr>ps_pending = edges, ps_rows = [], ps_reportRows = [],
           ps_evidence = \<lparr>en_log = reads, en_namespaces = [], en_readings = []\<rparr>\<rparr>)"

definition Tick :: "Deps \<Rightarrow> SessionInput list \<Rightarrow> EdgeTracker \<Rightarrow> tickResult" where
  "Tick d sessions edges0 =
     (let (gov, resolutionFailed, reads) = resolveConfigs d sessions [] False [];
          edges = Prune (map (in_Key \<circ> g_in) gov @ [moverRowKey]) edges0;
          res = \<lparr>tk_count = length gov, tk_error = None, tk_edges = edges, tk_log = reads,
                 tk_prune = None, tk_rows = [], tk_reports = []\<rparr>
      in if gov = [] then res
         else
           (let reads1 = reads @ [ReadState] in
            case dp_LoadState d reads of
              None \<Rightarrow> res\<lparr>tk_error := Some ErrLoadState, tk_log := reads1\<rparr>
            | Some snap \<Rightarrow>
                (let prune = (if dp_HasPruneRails d \<and> \<not> resolutionFailed
                              then map_option (\<lambda>w. (w, dp_Now d)) (pruneWindow gov) else None);
                     ps = runPass d sessions gov snap edges reads1;
                     res1 = res\<lparr>tk_log := en_log (ps_evidence ps), tk_prune := prune,
                                tk_rows := ps_rows ps\<rparr>
                 in if ps_rows ps \<noteq> [] \<and> \<not> dp_WriteRows d (ps_rows ps)
                    then res1\<lparr>tk_error := Some ErrWriteRows\<rparr>
                    else res1\<lparr>tk_edges := ps_pending ps,
                              tk_reports := (if dp_HasDeliverReport d
                                             then deliverReports sessions (reportSpecs gov) (ps_reportRows ps)
                                             else [])\<rparr>)))"

end
