(* ===== verification/Go_Utf8.thy ===== *)
theory Go_Utf8
  imports Go_Strings
begin

text \<open>
  The part of Go's \<^verbatim>\<open>unicode/utf8\<close> and \<^verbatim>\<open>unicode\<close> the event log uses, on strings as byte lists: decoding
  a string rune by rune, where every byte that starts no well-formed rune is \<^verbatim>\<open>utf8.RuneError\<close> of width
  one; validity; \<^verbatim>\<open>strings.Map\<close> with a mapping that keeps or drops runes; and the control and format
  characters of Unicode 15, the tables of the Go release the module requires.
\<close>

definition RuneError :: nat where
  "RuneError = 0xFFFD"

definition contByte :: "nat \<Rightarrow> bool" where
  "contByte n \<longleftrightarrow> 0x80 \<le> n \<and> n \<le> 0xBF"

text \<open>The accepted range of the second byte, by the first.\<close>

definition secondByte :: "nat \<Rightarrow> nat \<Rightarrow> bool" where
  "secondByte b n \<longleftrightarrow>
     (if b = 0xE0 then 0xA0 else if b = 0xF0 then 0x90 else 0x80) \<le> n \<and>
     n \<le> (if b = 0xED then 0x9F else if b = 0xF4 then 0x8F else 0xBF)"

text \<open>The rune a string starts with and its width; \<open>(RuneError, 1)\<close> for an ill-formed byte.\<close>

fun decodeRune :: "string \<Rightarrow> nat \<times> nat" where
  "decodeRune [] = (RuneError, 0)"
| "decodeRune (a # s) =
     (let b = code a in
      if b < 0x80 then (b, 1)
      else if 0xC2 \<le> b \<and> b \<le> 0xDF then
        (case s of
           c # _ \<Rightarrow> if contByte (code c) then ((b - 0xC0) * 64 + (code c - 0x80), 2) else (RuneError, 1)
         | _ \<Rightarrow> (RuneError, 1))
      else if 0xE0 \<le> b \<and> b \<le> 0xEF then
        (case s of
           c # d # _ \<Rightarrow>
             if secondByte b (code c) \<and> contByte (code d)
             then (((b - 0xE0) * 64 + (code c - 0x80)) * 64 + (code d - 0x80), 3) else (RuneError, 1)
         | _ \<Rightarrow> (RuneError, 1))
      else if 0xF0 \<le> b \<and> b \<le> 0xF4 then
        (case s of
           c # d # e # _ \<Rightarrow>
             if secondByte b (code c) \<and> contByte (code d) \<and> contByte (code e)
             then ((((b - 0xF0) * 64 + (code c - 0x80)) * 64 + (code d - 0x80)) * 64 + (code e - 0x80), 4)
             else (RuneError, 1)
         | _ \<Rightarrow> (RuneError, 1))
      else (RuneError, 1))"

abbreviation illFormed :: "nat \<times> nat \<Rightarrow> bool" where
  "illFormed rw \<equiv> rw = (RuneError, 1)"

lemma decodeRune_width: "0 < snd (decodeRune (a # s)) \<and> snd (decodeRune (a # s)) \<le> Suc (length s)"
  by (auto simp: Let_def split: list.splits)

text \<open>The runes of a string, each with its bytes.\<close>

function runes :: "string \<Rightarrow> (nat \<times> string) list" where
  "runes [] = []"
| "runes (a # s) =
     (let (r, w) = decodeRune (a # s) in (r, take w (a # s)) # runes (drop w (a # s)))"
  by pat_completeness auto
termination
proof (relation "measure length")
  fix a s x r w
  assume "x = decodeRune (a # s)" "(r, w) = x"
  then have "w = snd (decodeRune (a # s))" by (metis snd_conv)
  with decodeRune_width [of a s] show "(drop w (a # s), a # s) \<in> measure length" by (cases w) auto
qed simp

declare decodeRune.simps(2) [simp del]

definition badRune :: "nat \<times> string \<Rightarrow> bool" where
  "badRune x \<longleftrightarrow> fst x = RuneError \<and> length (snd x) = 1"

definition validString :: "string \<Rightarrow> bool" where
  "validString s \<longleftrightarrow> list_all (\<lambda>x. \<not> badRune x) (runes s)"

text \<open>\<^verbatim>\<open>strings.Map\<close> dropping the runes of \<open>drp\<close>: a kept ill-formed byte becomes the encoding of \<open>RuneError\<close>.\<close>

definition keepRune :: "(nat \<Rightarrow> bool) \<Rightarrow> nat \<times> string \<Rightarrow> string" where
  "keepRune drp x =
     (if drp (fst x) then [] else if badRune x then [CHR 0xEF, CHR 0xBF, CHR 0xBD] else snd x)"

definition mapDrop :: "(nat \<Rightarrow> bool) \<Rightarrow> string \<Rightarrow> string" where
  "mapDrop drp s = concat (map (keepRune drp) (runes s))"

definition IsControl :: "nat \<Rightarrow> bool" where
  "IsControl r \<longleftrightarrow> r \<le> 0x1F \<or> 0x7F \<le> r \<and> r \<le> 0x9F"

text \<open>The category \<^verbatim>\<open>Cf\<close>.\<close>

definition formatRanges :: "(nat \<times> nat) list" where
  "formatRanges =
     [(0xAD, 0xAD), (0x600, 0x605), (0x61C, 0x61C), (0x6DD, 0x6DD), (0x70F, 0x70F), (0x890, 0x891),
      (0x8E2, 0x8E2), (0x180E, 0x180E), (0x200B, 0x200F), (0x202A, 0x202E), (0x2060, 0x2064),
      (0x2066, 0x206F), (0xFEFF, 0xFEFF), (0xFFF9, 0xFFFB), (0x110BD, 0x110BD), (0x110CD, 0x110CD),
      (0x13430, 0x1343F), (0x1BCA0, 0x1BCA3), (0x1D173, 0x1D17A), (0xE0001, 0xE0001),
      (0xE0020, 0xE007F)]"

definition IsFormat :: "nat \<Rightarrow> bool" where
  "IsFormat r \<longleftrightarrow> list_ex (\<lambda>(lo, hi). lo \<le> r \<and> r \<le> hi) formatRanges"

subsection \<open>Decoding and concatenation\<close>

lemma runes_Cons:
  "runes (a # s) = (let rw = decodeRune (a # s) in (fst rw, take (snd rw) (a # s)) # runes (drop (snd rw) (a # s)))"
  by (simp add: Let_def split_beta)

declare runes.simps(2) [simp del]

lemma decodeRune_append:
  "\<not> illFormed (decodeRune (a # s)) \<Longrightarrow> decodeRune (a # s @ t) = decodeRune (a # s)"
  by (auto simp: decodeRune.simps Let_def split: list.splits if_splits)

lemma decodeRune_take:
  "\<not> illFormed (decodeRune (a # s)) \<Longrightarrow>
     decodeRune (take (snd (decodeRune (a # s))) (a # s)) = decodeRune (a # s)"
proof -
  assume ok: "\<not> illFormed (decodeRune (a # s))"
  let ?b = "code a"
  consider "?b < 0x80" | "0xC2 \<le> ?b" "?b \<le> 0xDF" | "0xE0 \<le> ?b" "?b \<le> 0xEF" | "0xF0 \<le> ?b" "?b \<le> 0xF4"
    | "\<not> ?b < 0x80" "\<not> (0xC2 \<le> ?b \<and> ?b \<le> 0xDF)" "\<not> (0xE0 \<le> ?b \<and> ?b \<le> 0xEF)" "\<not> (0xF0 \<le> ?b \<and> ?b \<le> 0xF4)"
    by linarith
  then show ?thesis
  proof cases
    case 1
    then show ?thesis by (simp add: decodeRune.simps(2))
  next
    case 2
    with ok obtain c s1 where "s = c # s1" "contByte (code c)"
      by (cases s) (auto simp: decodeRune.simps(2) Let_def split: if_splits)
    with 2 show ?thesis by (simp add: decodeRune.simps(2) Let_def)
  next
    case 3
    with ok obtain c d s1 where "s = c # d # s1" "secondByte ?b (code c)" "contByte (code d)"
      by (cases s; cases "tl s") (auto simp: decodeRune.simps(2) Let_def split: if_splits)
    with 3 show ?thesis by (simp add: decodeRune.simps(2) Let_def)
  next
    case 4
    with ok obtain c d e s1 where "s = c # d # e # s1" "secondByte ?b (code c)" "contByte (code d)" "contByte (code e)"
      by (cases s; cases "tl s"; cases "tl (tl s)") (auto simp: decodeRune.simps(2) Let_def split: if_splits)
    with 4 show ?thesis by (simp add: decodeRune.simps(2) Let_def)
  next
    case 5
    with ok show ?thesis by (simp add: decodeRune.simps(2) Let_def)
  qed
qed

lemma runes_induct [case_names Nil Cons]:
  assumes "P []" "\<And>a s. P (drop (snd (decodeRune (a # s))) (a # s)) \<Longrightarrow> P (a # s)"
  shows "P s"
  by (induction s rule: runes.induct) (use assms in \<open>simp_all add: prod_eq_iff\<close>)

lemma runes_concat: "concat (map snd (runes s)) = s"
  by (induction s rule: runes_induct) (simp_all add: runes_Cons Let_def)

lemma runes_not_Nil [simp]: "runes s = [] \<longleftrightarrow> s = []"
  by (cases s) (simp_all add: runes_Cons Let_def)

lemma first_rune:
  "badRune (fst (decodeRune (a # s)), take (snd (decodeRune (a # s))) (a # s)) \<longleftrightarrow> illFormed (decodeRune (a # s))"
proof -
  have "length (take (snd (decodeRune (a # s))) (a # s)) = snd (decodeRune (a # s))"
    using decodeRune_width [of a s] by simp
  then show ?thesis by (simp only: badRune_def fst_conv snd_conv prod_eq_iff)
qed

lemma runes_append: "validString s \<Longrightarrow> runes (s @ t) = runes s @ runes t"
proof (induction s rule: runes_induct)
  case (Cons a s)
  let ?rw = "decodeRune (a # s)"
  have ok: "\<not> illFormed ?rw" and rest: "validString (drop (snd ?rw) (a # s))"
    using Cons.prems first_rune [of a s] by (simp_all add: validString_def runes_Cons Let_def)
  have le: "snd ?rw \<le> Suc (length s)" using decodeRune_width [of a s] by blast
  then have "drop (snd ?rw) (a # s @ t) = drop (snd ?rw) (a # s) @ t"
    "take (snd ?rw) (a # s @ t) = take (snd ?rw) (a # s)"
    by (simp_all flip: append_Cons)
  with Cons.IH [OF rest] decodeRune_append [OF ok, of t] show ?case by (simp add: runes_Cons Let_def)
qed simp

lemma validString_append: "validString s \<Longrightarrow> validString (s @ t) \<longleftrightarrow> validString t"
  by (simp add: validString_def runes_append)

text \<open>A well-formed chunk decodes to itself in every context.\<close>

lemma chunk_runes:
  assumes "x \<in> set (runes s)" "\<not> badRune x"
  shows "runes (snd x) = [x]"
  using assms
proof (induction s rule: runes_induct)
  case (Cons a s)
  let ?rw = "decodeRune (a # s)"
  show ?case
  proof (cases "x = (fst ?rw, take (snd ?rw) (a # s))")
    case True
    have w: "0 < snd ?rw" "snd ?rw \<le> Suc (length s)" using decodeRune_width [of a s] by blast+
    then obtain b where b: "take (snd ?rw) (a # s) = a # b" by (cases "snd ?rw") auto
    have "decodeRune (a # b) = ?rw"
      using decodeRune_take [of a s] first_rune [of a s] Cons.prems(2) True b by simp
    moreover have "length (a # b) = snd ?rw" using arg_cong [OF b, of length] w by simp
    ultimately show ?thesis using True b by (simp add: runes_Cons Let_def)
  next
    case False
    then show ?thesis using Cons by (simp add: runes_Cons Let_def)
  qed
qed simp

subsection \<open>Dropping runes\<close>

lemma runes_error [simp]: "runes [CHR 0xEF, CHR 0xBF, CHR 0xBD] = [(RuneError, [CHR 0xEF, CHR 0xBF, CHR 0xBD])]"
  by (simp add: runes_Cons decodeRune.simps(2) secondByte_def contByte_def RuneError_def Let_def)

definition fixRune :: "nat \<times> string \<Rightarrow> nat \<times> string" where
  "fixRune x = (if badRune x then (RuneError, [CHR 0xEF, CHR 0xBF, CHR 0xBD]) else x)"

lemma fixRune_fst [simp]: "fst (fixRune x) = fst x"
  by (simp add: fixRune_def badRune_def)

lemma fixRune_ok [simp]: "\<not> badRune (fixRune x)"
  by (simp add: fixRune_def badRune_def)

lemma runes_pieces:
  assumes "\<And>p. p \<in> set ps \<Longrightarrow> validString p"
  shows "runes (concat ps) = concat (map runes ps)"
  using assms by (induction ps) (simp_all add: runes_append)

lemma runes_keep:
  assumes "x \<in> set (runes s)"
  shows "runes (keepRune drp x) = (if drp (fst x) then [] else [fixRune x])"
  using chunk_runes [OF assms] by (simp add: keepRune_def fixRune_def)

lemma concat_map_filter: "concat (map (\<lambda>x. if P x then [] else [f x]) xs) = map f (filter (\<lambda>x. \<not> P x) xs)"
  by (induction xs) simp_all

lemma runes_mapDrop: "runes (mapDrop drp s) = map fixRune (filter (\<lambda>x. \<not> drp (fst x)) (runes s))"
proof -
  have "validString p" if "p \<in> set (map (keepRune drp) (runes s))" for p
    using that by (auto simp: validString_def runes_keep)
  then have "runes (mapDrop drp s) = concat (map runes (map (keepRune drp) (runes s)))"
    unfolding mapDrop_def by (rule runes_pieces)
  also have "\<dots> = concat (map (\<lambda>x. if drp (fst x) then [] else [fixRune x]) (runes s))"
    by (simp add: runes_keep cong: map_cong)
  also have "\<dots> = map fixRune (filter (\<lambda>x. \<not> drp (fst x)) (runes s))"
    by (rule concat_map_filter)
  finally show ?thesis .
qed

lemma validString_mapDrop [simp]: "validString (mapDrop drp s)"
  by (simp add: validString_def runes_mapDrop list_all_iff)

lemma mapDrop_runes: "x \<in> set (runes (mapDrop drp s)) \<Longrightarrow> \<not> drp (fst x)"
  by (auto simp: runes_mapDrop)

lemma mapDrop_id:
  assumes "validString s" "\<And>x. x \<in> set (runes s) \<Longrightarrow> \<not> drp (fst x)"
  shows "mapDrop drp s = s"
proof -
  have "map (keepRune drp) (runes s) = map snd (runes s)"
    using assms by (auto simp: keepRune_def validString_def list_all_iff)
  then show ?thesis by (simp only: mapDrop_def runes_concat)
qed

subsection \<open>ASCII bytes\<close>

text \<open>An ASCII byte is always a rune of its own.\<close>

lemma decodeRune_shape:
  "decodeRune (a # s) = (code a, 1) \<and> code a < 0x80 \<or>
   0x80 \<le> code a \<and> (\<exists>b t r. s = b @ t \<and> decodeRune (a # s) = (r, Suc (length b)) \<and> (\<forall>c\<in>set b. 0x80 \<le> code c))"
proof (cases "code a < 0x80 \<or> illFormed (decodeRune (a # s))")
  case True
  then show ?thesis by (auto simp: decodeRune.simps(2))
next
  case False
  let ?b = "code a"
  have lo: "contByte n \<Longrightarrow> 0x80 \<le> n" "secondByte m n \<Longrightarrow> 0x80 \<le> n" for m n
    by (auto simp: contByte_def secondByte_def split: if_splits)
  from False consider "0xC2 \<le> ?b" "?b \<le> 0xDF" | "0xE0 \<le> ?b" "?b \<le> 0xEF" | "0xF0 \<le> ?b" "?b \<le> 0xF4"
    by (auto simp: decodeRune.simps(2) Let_def split: if_splits)
  then obtain b t r where "s = b @ t" "decodeRune (a # s) = (r, Suc (length b))" "\<forall>c\<in>set b. 0x80 \<le> code c"
  proof cases
    case 1
    with False obtain c s1 where s: "s = c # s1" "contByte (code c)"
      by (cases s) (auto simp: decodeRune.simps(2) Let_def split: if_splits)
    with 1 lo show ?thesis by (intro that [of "[c]" s1]) (simp_all add: decodeRune.simps(2) Let_def)
  next
    case 2
    with False obtain c d s1 where s: "s = c # d # s1" "secondByte ?b (code c)" "contByte (code d)"
      by (cases s; cases "tl s") (auto simp: decodeRune.simps(2) Let_def split: if_splits)
    with 2 lo show ?thesis by (intro that [of "[c, d]" s1]) (simp_all add: decodeRune.simps(2) Let_def)
  next
    case 3
    with False obtain c d e s1 where s: "s = c # d # e # s1" "secondByte ?b (code c)" "contByte (code d)" "contByte (code e)"
      by (cases s; cases "tl s"; cases "tl (tl s)") (auto simp: decodeRune.simps(2) Let_def split: if_splits)
    with 3 lo show ?thesis by (intro that [of "[c, d, e]" s1]) (simp_all add: decodeRune.simps(2) Let_def)
  qed
  with False show ?thesis by auto
qed

lemma ascii_rune:
  "c \<in> set s \<Longrightarrow> code c < 0x80 \<Longrightarrow> (code c, [c]) \<in> set (runes s)"
proof (induction s rule: runes_induct)
  case (Cons a s)
  let ?rw = "decodeRune (a # s)"
  from decodeRune_shape [of a s] show ?case
  proof
    assume "?rw = (code a, 1) \<and> code a < 0x80"
    with Cons show ?thesis by (auto simp: runes_Cons Let_def)
  next
    assume "0x80 \<le> code a \<and> (\<exists>b t r. s = b @ t \<and> ?rw = (r, Suc (length b)) \<and> (\<forall>c\<in>set b. 0x80 \<le> code c))"
    then obtain b t r where h: "0x80 \<le> code a" "s = b @ t" "?rw = (r, Suc (length b))" "\<forall>c\<in>set b. 0x80 \<le> code c"
      by blast
    with Cons.prems have "c \<in> set t" by auto
    with Cons.IH Cons.prems(2) h show ?thesis by (simp add: runes_Cons Let_def)
  qed
qed simp

end
