(* ===== verification/Handoff_Report.thy ===== *)
theory Handoff_Report
  imports Handoff_Engine Go_Utf8
begin

text \<open>
  What leaves the handoff engine as text: the label normalizer of \<^verbatim>\<open>src/handoff/events.go\<close> and the report
  lines and digests of \<^verbatim>\<open>src/handoff/report.go\<close>. The ellipsis of the overflow marker is its three
  UTF-8 bytes.
\<close>

subsection \<open>Labels\<close>

definition eventLabelCap :: nat where
  "eventLabelCap = 120"

definition droppedRune :: "nat \<Rightarrow> bool" where
  "droppedRune r \<longleftrightarrow> IsControl r \<or> IsFormat r \<or> r = 0x2028 \<or> r = 0x2029"

text \<open>The longest well-formed prefix of at most \<open>width\<close> bytes.\<close>

primrec cutLabel :: "string \<Rightarrow> nat \<Rightarrow> string" where
  "cutLabel s 0 = []"
| "cutLabel s (Suc width) = (if validString (take (Suc width) s) then take (Suc width) s else cutLabel s width)"

definition sanitizeEventLabel :: "string \<Rightarrow> string" where
  "sanitizeEventLabel s =
     (let t = mapDrop droppedRune s in if length t > eventLabelCap then cutLabel t eventLabelCap else t)"

subsection \<open>Report lines\<close>

text \<open>\<^verbatim>\<open>strings.ReplaceAll\<close> of one byte.\<close>

definition replaceByte :: "char \<Rightarrow> string \<Rightarrow> string \<Rightarrow> string" where
  "replaceByte c new s = concat (map (\<lambda>x. if x = c then new else [x]) s)"

definition escapeReportQuoted :: "string \<Rightarrow> string" where
  "escapeReportQuoted s =
     replaceByte (CHR 0x22) [CHR 0x5C, CHR 0x22] (replaceByte (CHR 0x5C) [CHR 0x5C, CHR 0x5C] (sanitizeEventLabel s))"

definition reportField :: "string \<Rightarrow> string \<Rightarrow> string" where
  "reportField name v = (if v \<noteq> [] then name @ sanitizeEventLabel v else [])"

definition reportTitle :: "string \<Rightarrow> string" where
  "reportTitle title =
     (if title \<noteq> [] then '' session='' @ [CHR 0x22] @ escapeReportQuoted title @ [CHR 0x22] else [])"

definition reportParams :: "string gomap \<Rightarrow> string" where
  "reportParams ps =
     (if ps = [] then []
      else '' params='' @
        joinStr '';'' (map (\<lambda>k. sanitizeEventLabel k @ ''='' @ sanitizeEventLabel (getStr ps k)) (sort (map fst ps))))"

definition ReportLine :: "EventRow \<Rightarrow> string" where
  "ReportLine r =
     ''[af handoff] kind='' @ sanitizeEventLabel (EventKind_String (er_Kind r)) @
     '' reason='' @ sanitizeEventLabel (er_ReasonCode r) @
     reportTitle (er_Title r) @
     reportField '' key='' (er_SessionKey r) @
     reportField '' agent='' (er_Agent r) @
     reportField '' from='' (er_From r) @
     reportField '' to='' (er_To r) @
     '' mode='' @ sanitizeEventLabel (er_Mode r) @
     reportParams (er_Params r)"

subsection \<open>Digests\<close>

definition reportDigestMaxRows :: nat where
  "reportDigestMaxRows = 24"

definition reportDigestMaxBytes :: nat where
  "reportDigestMaxBytes = 8192"

definition digestHeader :: "nat \<Rightarrow> string" where
  "digestHeader n =
     ''[af handoff digest] '' @ itoa (int n) @ (if n = 1 then '' event'' else '' events'') @ [CHR 0x0A]"

text \<open>The loop over the rows: the text so far and the rows shown.\<close>

fun digestLoop :: "EventRow list \<Rightarrow> string \<Rightarrow> nat \<Rightarrow> string \<times> nat" where
  "digestLoop [] b shown = (b, shown)"
| "digestLoop (row # rows) b shown =
     (if shown \<ge> reportDigestMaxRows then (b, shown)
      else
        (let line = ReportLine row in
         if length b + length line + 1 > reportDigestMaxBytes then (b, shown)
         else digestLoop rows (b @ (if shown > 0 then [CHR 0x0A] else []) @ line) (Suc shown)))"

definition overflowMarker :: "nat \<Rightarrow> string" where
  "overflowMarker n =
     [CHR 0x0A, CHR 0xE2, CHR 0x80, CHR 0xA6] @ '' +'' @ itoa (int n) @ '' more not shown''"

definition ReportDigest :: "EventRow list \<Rightarrow> string" where
  "ReportDigest rows =
     (let (b, shown) = digestLoop rows (digestHeader (length rows)) 0 in
      if shown < length rows then b @ overflowMarker (length rows - shown) else b)"

subsection \<open>Labels are clean\<close>

lemma cutLabel_prefix: "\<exists>n\<le>width. cutLabel s width = take n s \<and> validString (take n s)"
proof (induction width)
  case 0
  show ?case by (intro exI [of _ 0]) (simp add: validString_def)
next
  case (Suc width)
  then show ?case by (cases "validString (take (Suc width) s)") (auto intro: le_SucI)
qed

text \<open>A clean label: capped, well formed, without any rune the normalizer drops.\<close>

definition cleanLabel :: "string \<Rightarrow> bool" where
  "cleanLabel s \<longleftrightarrow> length s \<le> eventLabelCap \<and> validString s \<and> (\<forall>x\<in>set (runes s). \<not> droppedRune (fst x))"

lemma sanitize_clean: "cleanLabel (sanitizeEventLabel s)"
proof -
  let ?t = "mapDrop droppedRune s"
  have t: "\<forall>x\<in>set (runes ?t). \<not> droppedRune (fst x)" by (auto dest: mapDrop_runes)
  obtain n where n: "n \<le> eventLabelCap" "cutLabel ?t eventLabelCap = take n ?t" "validString (take n ?t)"
    using cutLabel_prefix by blast
  have "runes ?t = runes (take n ?t) @ runes (drop n ?t)"
    using runes_append [OF n(3), of "drop n ?t"] by simp
  with t n show ?thesis by (simp add: cleanLabel_def sanitizeEventLabel_def Let_def)
qed

text \<open>What evaluates a label.\<close>

lemmas label_eval = sanitizeEventLabel_def mapDrop_def runes_Cons decodeRune.simps(2) keepRune_def badRune_def
  droppedRune_def IsControl_def IsFormat_def formatRanges_def RuneError_def eventLabelCap_def Let_def

lemma sanitize_id: "cleanLabel s \<Longrightarrow> sanitizeEventLabel s = s"
  by (simp add: cleanLabel_def sanitizeEventLabel_def Let_def mapDrop_id)

lemma clean_no_control:
  assumes "cleanLabel s" "c \<in> set s"
  shows "\<not> code c \<le> 0x1F" "code c \<noteq> 0x7F"
  using assms ascii_rune [of c s] by (fastforce simp: cleanLabel_def droppedRune_def IsControl_def)+

end
