(* ===== verification/Report_Props.thy ===== *)
theory Report_Props
  imports Handoff_Report
begin

text \<open>
  The properties of the handoff reports: a line cannot be broken or its quoted title closed early, and a
  digest stays within its caps and shows whole lines only.
\<close>

subsection \<open>One line per row\<close>

definition oneLine :: "string \<Rightarrow> bool" where
  "oneLine s \<longleftrightarrow> list_all (\<lambda>c. \<not> code c \<le> (0x1F :: nat) \<and> code c \<noteq> (0x7F :: nat)) s"

lemma oneLine_simps [simp]:
  "oneLine []" "oneLine (s @ t) \<longleftrightarrow> oneLine s \<and> oneLine t"
  "oneLine (c # s) \<longleftrightarrow> \<not> code c \<le> (0x1F :: nat) \<and> code c \<noteq> (0x7F :: nat) \<and> oneLine s"
  by (simp_all add: oneLine_def)

lemma oneLine_sanitize [simp]: "oneLine (sanitizeEventLabel s)"
  using sanitize_clean [of s] clean_no_control by (auto simp: oneLine_def list_all_iff)

lemma oneLine_replace: "oneLine s \<Longrightarrow> oneLine new \<Longrightarrow> oneLine (replaceByte c new s)"
  by (induction s) (simp_all add: replaceByte_def)

lemma oneLine_escape [simp]: "oneLine (escapeReportQuoted s)"
  unfolding escapeReportQuoted_def by (intro oneLine_replace) simp_all

lemma oneLine_join: "oneLine d \<Longrightarrow> (\<And>x. x \<in> set xs \<Longrightarrow> oneLine x) \<Longrightarrow> oneLine (joinStr d xs)"
  by (induction d xs rule: joinStr.induct) simp_all

lemma oneLine_parts [simp]: "oneLine (reportTitle v)" "oneLine name \<Longrightarrow> oneLine (reportField name v)" "oneLine (reportParams ps)"
proof -
  show "oneLine (reportParams ps)"
    unfolding reportParams_def by (auto intro!: oneLine_join)
qed (simp_all add: reportTitle_def reportField_def)

lemma oneLine_ReportLine: "oneLine (ReportLine r)"
  unfolding ReportLine_def by simp

subsection \<open>The quoted title\<close>

text \<open>A reader of the quoted slot: up to the first quote that no backslash escapes.\<close>

fun readQuoted :: "string \<Rightarrow> (string \<times> string) option" where
  "readQuoted [] = None"
| "readQuoted (c # s) =
     (if c = CHR 0x22 then Some ([], s)
      else if c = CHR 0x5C then
        (case s of [] \<Rightarrow> None | d # t \<Rightarrow> map_option (\<lambda>(v, rest). (d # v, rest)) (readQuoted t))
      else map_option (\<lambda>(v, rest). (c # v, rest)) (readQuoted s))"

lemma replaceByte_simps [simp]:
  "replaceByte c new [] = []"
  "replaceByte c new (x # s) = (if x = c then new else [x]) @ replaceByte c new s"
  "replaceByte c new (s @ t) = replaceByte c new s @ replaceByte c new t"
  by (simp_all add: replaceByte_def)

lemma readQuoted_escape:
  "readQuoted (replaceByte (CHR 0x22) [CHR 0x5C, CHR 0x22] (replaceByte (CHR 0x5C) [CHR 0x5C, CHR 0x5C] s) @
     CHR 0x22 # rest) = Some (s, rest)"
  by (induction s) simp_all

text \<open>C23. A row cannot break out of its report line: the line holds no control byte, so it is one line; and
  when the row has a title, reading the quoted slot up to the first unescaped quote gives back exactly
  the sanitized title and leaves exactly the fields the template writes after it, whatever quotes,
  backslashes or field-like text the title contains.\<close>

theorem report_line_unforgeable:
  assumes "er_Title r \<noteq> []"
  shows "(\<forall>c\<in>set (ReportLine r). \<not> code c \<le> (0x1F :: nat) \<and> code c \<noteq> (0x7F :: nat)) \<and>
    (\<exists>slot. ReportLine r =
        ''[af handoff] kind='' @ sanitizeEventLabel (EventKind_String (er_Kind r)) @
        '' reason='' @ sanitizeEventLabel (er_ReasonCode r) @ '' session='' @ CHR 0x22 # slot \<and>
      readQuoted slot = Some (sanitizeEventLabel (er_Title r),
        reportField '' key='' (er_SessionKey r) @ reportField '' agent='' (er_Agent r) @
        reportField '' from='' (er_From r) @ reportField '' to='' (er_To r) @
        '' mode='' @ sanitizeEventLabel (er_Mode r) @ reportParams (er_Params r)))"
proof
  show "\<forall>c\<in>set (ReportLine r). \<not> code c \<le> (0x1F :: nat) \<and> code c \<noteq> (0x7F :: nat)"
    using oneLine_ReportLine [of r] by (simp add: oneLine_def list_all_iff)
qed (use assms in \<open>simp add: ReportLine_def reportTitle_def escapeReportQuoted_def readQuoted_escape\<close>)

theorem report_line_unforgeable_witness:
  "\<exists>slot. readQuoted slot = Some (''x'' @ [CHR 0x22] @ '' kind=halted'', '' key=k'' @ '' mode=shadow'')"
proof -
  let ?r = "\<lparr>er_TS = 1, er_Kind = EventWall, er_SessionKey = ''k'', er_Agent = [],
    er_Title = ''x'' @ [CHR 0x22, CHR 0x0A] @ '' kind=halted'', er_From = [], er_To = [], er_ReasonCode = ''c'',
    er_Params = [], er_Mode = ''shadow''\<rparr>"
  have "er_Title ?r \<noteq> []" by simp
  from report_line_unforgeable [OF this] obtain slot where "readQuoted slot = Some (sanitizeEventLabel (er_Title ?r),
        reportField '' key='' (er_SessionKey ?r) @ reportField '' agent='' (er_Agent ?r) @
        reportField '' from='' (er_From ?r) @ reportField '' to='' (er_To ?r) @
        '' mode='' @ sanitizeEventLabel (er_Mode ?r) @ reportParams (er_Params ?r))" by blast
  moreover have "sanitizeEventLabel (er_Title ?r) = ''x'' @ [CHR 0x22] @ '' kind=halted''"
    "reportField '' key='' (er_SessionKey ?r) = '' key=k''" "sanitizeEventLabel (er_Mode ?r) = ''shadow''"
    by (simp_all add: label_eval reportField_def)
  ultimately show ?thesis by (auto simp: reportField_def reportParams_def)
qed

subsection \<open>Digests\<close>

abbreviation newline :: string where
  "newline \<equiv> [CHR 0x0A]"

text \<open>The loop shows \<open>m\<close> rows, whole and separated by newlines, within both caps, and stops only at one of them.\<close>

definition digestShape :: "EventRow list \<Rightarrow> string \<Rightarrow> nat \<Rightarrow> nat \<Rightarrow> bool" where
  "digestShape rows b shown m \<longleftrightarrow>
     m \<le> length rows \<and>
     digestLoop rows b shown =
       (b @ (if 0 < shown \<and> 0 < m then newline else []) @ joinStr newline (map ReportLine (take m rows)), shown + m) \<and>
     (0 < m \<longrightarrow> shown + m \<le> reportDigestMaxRows \<and> length (fst (digestLoop rows b shown)) \<le> reportDigestMaxBytes) \<and>
     (m < length rows \<longrightarrow> shown + m < reportDigestMaxRows \<longrightarrow>
        reportDigestMaxBytes \<le> length (fst (digestLoop rows b shown)) + length (ReportLine (rows ! m)))"

lemma digestLoop_shape: "\<exists>m. digestShape rows b shown m"
proof (induction rows arbitrary: b shown)
  case Nil
  show ?case by (intro exI [of _ 0]) (simp add: digestShape_def)
next
  case (Cons row rows)
  let ?line = "ReportLine row"
  show ?case
  proof (cases "shown \<ge> reportDigestMaxRows \<or> length b + length ?line + 1 > reportDigestMaxBytes")
    case True
    then have "digestLoop (row # rows) b shown = (b, shown)" by (auto simp: Let_def)
    with True show ?thesis by (intro exI [of _ 0]) (auto simp: digestShape_def)
  next
    case False
    let ?b = "b @ (if shown > 0 then newline else []) @ ?line"
    have step: "digestLoop (row # rows) b shown = digestLoop rows ?b (Suc shown)" using False by (auto simp: Let_def)
    obtain m where m: "digestShape rows ?b (Suc shown) m" using Cons by blast
    note m = m [unfolded digestShape_def]
    have join: "?line @ (if 0 < m then newline else []) @ joinStr newline (map ReportLine (take m rows)) =
        joinStr newline (map ReportLine (take (Suc m) (row # rows)))"
      using m by (cases m; cases rows) auto
    have "length (fst (digestLoop rows ?b (Suc shown))) \<le> reportDigestMaxBytes"
    proof (cases "0 < m")
      case False
      with m have "fst (digestLoop rows ?b (Suc shown)) = ?b" by simp
      with \<open>\<not> (shown \<ge> reportDigestMaxRows \<or> length b + length ?line + 1 > reportDigestMaxBytes)\<close>
      show ?thesis by simp
    qed (use m in blast)
    moreover have "digestLoop rows ?b (Suc shown) = (b @ (if 0 < shown then newline else []) @
        joinStr newline (map ReportLine (take (Suc m) (row # rows))), shown + Suc m)"
      using m unfolding join [symmetric] by simp
    moreover have "shown + Suc m \<le> reportDigestMaxRows" using m False by (cases m) auto
    ultimately have "digestShape (row # rows) b shown (Suc m)"
      unfolding digestShape_def step using m by auto
    then show ?thesis by blast
  qed
qed

lemma length_natDigits: "0 < k \<Longrightarrow> n < 10 ^ k \<Longrightarrow> length (natDigits n) \<le> k"
proof (induction k arbitrary: n)
  case (Suc k)
  show ?case
  proof (cases "n < 10")
    case True
    then show ?thesis by (subst natDigits.simps) simp
  next
    case False
    with Suc.prems have "n div 10 < 10 ^ k" "0 < k" by (cases k; simp add: less_mult_imp_div_less mult.commute)+
    with Suc.IH [of "n div 10"] False show ?thesis by (subst natDigits.simps) simp
  qed
qed simp

text \<open>A digest is its header, then the lines of the first \<open>m\<close> rows, whole and each on a line of its own, and,
  when rows are left, a marker with exactly their number. It shows at most 24 rows and, the marker
  apart, at most 8192 bytes, and it leaves a row out only when the next one would not fit. Only the
  marker may go past the byte cap, by its own length.\<close>

theorem digest_bounded:
  assumes "length rows < 10 ^ k" "0 < k" "k \<le> 100"
  shows "\<exists>m\<le>length rows. m \<le> reportDigestMaxRows \<and>
    (let body = digestHeader (length rows) @ joinStr newline (map ReportLine (take m rows)) in
     ReportDigest rows = body @ (if m < length rows then overflowMarker (length rows - m) else []) \<and>
     length body \<le> reportDigestMaxBytes \<and>
     (m < length rows \<and> m < reportDigestMaxRows \<longrightarrow>
        reportDigestMaxBytes \<le> length body + length (ReportLine (rows ! m)))) \<and>
    length (ReportDigest rows) \<le> reportDigestMaxBytes + 21 + k"
proof -
  let ?n = "length rows"
  obtain m where m: "digestShape rows (digestHeader ?n) 0 m" using digestLoop_shape by blast
  let ?text = "digestHeader ?n @ joinStr newline (map ReportLine (take m rows))"
  from m have le: "m \<le> ?n" and loop: "digestLoop rows (digestHeader ?n) 0 = (?text, m)"
    and rows: "m \<le> reportDigestMaxRows"
    and next': "m < ?n \<Longrightarrow> m < reportDigestMaxRows \<Longrightarrow> reportDigestMaxBytes \<le> length ?text + length (ReportLine (rows ! m))"
    unfolding digestShape_def by (cases m; simp)+
  have "length (if ?n = 1 then '' event'' else '' events'') \<le> (7::nat)" by simp
  then have "length (digestHeader ?n) \<le> 28 + k"
    using length_natDigits [OF assms(2,1)] unfolding digestHeader_def itoa_def length_append by simp
  then have fits: "length ?text \<le> reportDigestMaxBytes"
    using m assms(3) loop by (cases m) (simp_all add: digestShape_def reportDigestMaxBytes_def)
  have digest: "ReportDigest rows = ?text @ (if m < ?n then overflowMarker (?n - m) else [])"
    by (simp add: ReportDigest_def loop)
  have "length (overflowMarker (?n - m)) \<le> 21 + k"
    using length_natDigits [OF assms(2), of "?n - m"] assms(1) by (simp add: overflowMarker_def itoa_def)
  with fits have "length (ReportDigest rows) \<le> reportDigestMaxBytes + 21 + k"
    unfolding digest by auto
  with le rows digest fits next' show ?thesis unfolding Let_def by blast
qed

theorem digest_bounded_witness:
  "\<exists>row m. m \<le> 1 \<and> er_SessionKey row = ''k'' \<and>
     ReportDigest [row] = digestHeader 1 @ joinStr newline (map ReportLine (take m [row])) @
       (if m < 1 then overflowMarker (1 - m) else [])"
proof -
  let ?r = "\<lparr>er_TS = 1, er_Kind = EventWall, er_SessionKey = ''k'', er_Agent = [], er_Title = ''t'', er_From = [],
    er_To = [], er_ReasonCode = ''c'', er_Params = [], er_Mode = ''shadow''\<rparr>"
  have "length [?r] < 10 ^ 1" "0 < (1::nat)" "(1::nat) \<le> 100" by simp_all
  from digest_bounded [OF this] obtain m where "m \<le> length [?r]"
    "ReportDigest [?r] = (digestHeader (length [?r]) @ joinStr newline (map ReportLine (take m [?r]))) @
       (if m < length [?r] then overflowMarker (length [?r] - m) else [])"
    unfolding Let_def by blast
  then have "m \<le> 1 \<and> er_SessionKey ?r = ''k'' \<and>
     ReportDigest [?r] = digestHeader 1 @ joinStr newline (map ReportLine (take m [?r])) @
       (if m < 1 then overflowMarker (1 - m) else [])"
    unfolding append_assoc by (simp only: One_nat_def list.size add_0 EventRow.simps)
  then show ?thesis by blast
qed

end
