(* ===== verification/Event_Log.thy ===== *)
theory Event_Log
  imports Handoff_Report
begin

text \<open>
  The shadow event log of \<^verbatim>\<open>src/handoff/events.go\<close>: day files of one row per line, appended under their
  locks with the tail repair, and the retention pass. The directory maps names to entries. An append
  meets the faults of \<open>appendIO\<close>: the lock, the open, the recheck after it, the repair's reads and
  truncation, a short write and the close. How an instant is stamped, how a stamp is parsed and the
  retention cutoff (\<^verbatim>\<open>time.Format\<close>, \<^verbatim>\<open>time.Parse\<close>, \<^verbatim>\<open>AddDate\<close>) are the record \<open>calendar\<close>, and the JSON
  encoding of a row is an argument.
\<close>

definition EventFilePrefix :: string where
  "EventFilePrefix = ''auto-handoff-events-''"

definition eventDayMaxBytes :: nat where
  "eventDayMaxBytes = 4194304"

definition eventTailWindow :: nat where
  "eventTailWindow = 65536"

datatype dirEntry = EntFile string | EntSymlink

type_synonym eventDir = "dirEntry gomap"

record calendar =
  cal_Stamp :: "gtime \<Rightarrow> string"
  cal_Parse :: "string \<Rightarrow> gtime option"
  cal_Cutoff :: "gtime \<Rightarrow> gtime"

record appendIO =
  ai_lock :: bool
  ai_open :: bool
  ai_same :: bool
  ai_repair :: bool
  ai_short :: "nat option"
  ai_close :: bool

text \<open>The bytes up to and with the last newline.\<close>

definition wholeLines :: "string \<Rightarrow> string" where
  "wholeLines s = rev (dropWhile (\<lambda>c. c \<noteq> CHR 0x0A) (rev s))"

text \<open>The repaired content; \<open>None\<close> when the partial line outruns the window.\<close>

definition repairEventTail :: "string \<Rightarrow> string option" where
  "repairEventTail s =
     (if s = [] then Some s
      else
        (let size = length s; n = min size eventTailWindow; buf = drop (size - n) s in
         if last buf = CHR 0x0A then Some s
         else if CHR 0x0A \<in> set buf then Some (take (size - n + length (wholeLines buf)) s)
         else if n = size then Some []
         else None))"

definition eventDayFile :: "calendar \<Rightarrow> gtime \<Rightarrow> string" where
  "eventDayFile cal t = EventFilePrefix @ cal_Stamp cal t @ ''.jsonl''"

text \<open>The lines of a batch; \<open>None\<close> when a row does not encode.\<close>

definition sanitizeRow :: "EventRow \<Rightarrow> EventRow" where
  "sanitizeRow r = r\<lparr>er_Title := sanitizeEventLabel (er_Title r), er_SessionKey := sanitizeEventLabel (er_SessionKey r)\<rparr>"

fun payloadLines :: "(EventRow \<Rightarrow> string option) \<Rightarrow> EventRow list \<Rightarrow> string list option" where
  "payloadLines marshal [] = Some []"
| "payloadLines marshal (r # rs) =
     (case marshal (sanitizeRow r) of
        None \<Rightarrow> None
      | Some raw \<Rightarrow> map_option ((#) raw) (payloadLines marshal rs))"

definition payloadOf :: "string list \<Rightarrow> string" where
  "payloadOf ls = concat (map (\<lambda>l. l @ [CHR 0x0A]) ls)"

text \<open>The locked section for one day file: success, and the entry it leaves.\<close>

definition appendDay :: "appendIO \<Rightarrow> string \<Rightarrow> dirEntry option \<Rightarrow> bool \<times> dirEntry option" where
  "appendDay io payload entry =
     (if entry = Some EntSymlink then (False, entry)
      else
        (let content = (case entry of Some (EntFile s) \<Rightarrow> s | _ \<Rightarrow> []) in
         if entry \<noteq> None \<and> length content \<ge> eventDayMaxBytes then (False, entry)
         else if \<not> ai_open io then (False, entry)
         else if entry \<noteq> None \<and> \<not> ai_same io then (False, entry)
         else
           (case (if ai_repair io then repairEventTail content else None) of
              None \<Rightarrow> (False, Some (EntFile content))
            | Some repaired \<Rightarrow>
                (case ai_short io of
                   Some n \<Rightarrow> (False, Some (EntFile (repaired @ take n payload)))
                 | None \<Rightarrow> (ai_close io, Some (EntFile (repaired @ payload)))))))"

definition setEntry :: "string \<Rightarrow> dirEntry option \<Rightarrow> eventDir \<Rightarrow> eventDir" where
  "setEntry name e dir = (case e of None \<Rightarrow> dir | Some x \<Rightarrow> AList.update name x dir)"

text \<open>Taking a file's lock leaves the lock file beside it.\<close>

definition touchLock :: "string \<Rightarrow> eventDir \<Rightarrow> eventDir" where
  "touchLock file dir =
     (if has_key dir (file @ ''.lock'') then dir else AList.update (file @ ''.lock'') (EntFile []) dir)"

fun appendFiles ::
  "(EventRow \<Rightarrow> string option) \<Rightarrow> (string \<Rightarrow> appendIO) \<Rightarrow> (string \<Rightarrow> EventRow list) \<Rightarrow> string list \<Rightarrow> eventDir \<Rightarrow>
   bool \<times> eventDir"
where
  "appendFiles marshal io byDay [] dir = (True, dir)"
| "appendFiles marshal io byDay (file # files) dir =
     (case payloadLines marshal (byDay file) of
        None \<Rightarrow> (False, dir)
      | Some ls \<Rightarrow>
          if \<not> ai_lock (io file) then (False, dir)
          else
            (let (ok, e) = appendDay (io file) (payloadOf ls) (map_of dir file);
                 dir' = setEntry file e (touchLock file dir)
             in if ok then appendFiles marshal io byDay files dir' else (False, dir')))"

text \<open>The retention pass. \<open>rm\<close> tells which removals succeed, \<open>readable\<close> whether the directory could be read.\<close>

definition hasSuffix :: "string \<Rightarrow> string \<Rightarrow> bool" where
  "hasSuffix suf s \<longleftrightarrow> length suf \<le> length s \<and> drop (length s - length suf) s = suf"

definition eventStamp :: "string \<Rightarrow> string option" where
  "eventStamp name =
     (if take (length EventFilePrefix) name \<noteq> EventFilePrefix then None
      else
        (let rest = drop (length EventFilePrefix) name in
         if hasSuffix ''.jsonl.lock'' name then
           Some (if hasSuffix ''.jsonl.lock'' rest then take (length rest - 11) rest else rest)
         else if hasSuffix ''.jsonl'' name then
           Some (if hasSuffix ''.jsonl'' rest then take (length rest - 6) rest else rest)
         else None))"

definition expired :: "calendar \<Rightarrow> gtime \<Rightarrow> string \<Rightarrow> bool" where
  "expired cal now name =
     (case eventStamp name of
        None \<Rightarrow> False
      | Some stamp \<Rightarrow> (case cal_Parse cal stamp of None \<Rightarrow> False | Some day \<Rightarrow> day < cal_Cutoff cal now))"

fun pruneEntries :: "(string \<Rightarrow> bool) \<Rightarrow> (string \<Rightarrow> bool) \<Rightarrow> string list \<Rightarrow> eventDir \<Rightarrow> bool \<times> eventDir" where
  "pruneEntries old rm [] dir = (True, dir)"
| "pruneEntries old rm (name # names) dir =
     (if old name then
        (if rm name then pruneEntries old rm names (AList.delete name dir) else (False, dir))
      else pruneEntries old rm names dir)"

record logIO =
  li_mkdir :: bool
  li_files :: "string \<Rightarrow> appendIO"
  li_readdir :: bool
  li_remove :: "string \<Rightarrow> bool"
  li_pruneLock :: bool

definition pruneLog :: "calendar \<Rightarrow> logIO \<Rightarrow> gtime \<Rightarrow> eventDir \<Rightarrow> bool \<times> eventDir" where
  "pruneLog cal io now dir =
     (if \<not> li_pruneLock io then (False, dir)
      else
        (let dir' = touchLock (eventDayFile cal now) dir in
         if \<not> li_readdir io then (False, dir')
         else pruneEntries (expired cal now) (li_remove io) (sort (map fst dir')) dir'))"

text \<open>\<^verbatim>\<open>EventLog.Append\<close>, with the log's own clock reading \<open>now\<close>.\<close>

definition Append ::
  "calendar \<Rightarrow> (EventRow \<Rightarrow> string option) \<Rightarrow> logIO \<Rightarrow> gtime \<Rightarrow> EventRow list \<Rightarrow> eventDir \<Rightarrow> bool \<times> eventDir" where
  "Append cal marshal io now rows dir =
     (if rows = [] then (True, dir)
      else if \<not> li_mkdir io then (False, dir)
      else
        (let byDay = (\<lambda>file. filter (\<lambda>r. eventDayFile cal (er_TS r) = file) rows);
             files = sort (remdups (map (\<lambda>r. eventDayFile cal (er_TS r)) rows));
             (ok, dir') = appendFiles marshal (li_files io) byDay files dir
         in if ok then pruneLog cal io now dir' else (False, dir')))"

end
