(* ===== verification/Engine_Pass.thy ===== *)
theory Engine_Pass
  imports Decide_Lemmas Rails_Lemmas Handoff_Engine
begin

text \<open>
  The pass of the shadow engine taken apart. The locale \<open>keyed_filter\<close> is what the engine relies on of
  the edge tracker: a key's events are judged by the key's own state and nothing else changes. With it
  a pass is the list of verdicts the evidence leads to, each filtered on its own.
\<close>

subsection \<open>Scope\<close>

lemma factsFor_fields:
  fixes d g ns occ snap en
  defines "f \<equiv> fst (factsFor d g ns occ snap en)"
  shows "sf_Started (f_Session f) = in_Started (g_in g)" "sf_Live (f_Session f) = in_Live (g_in g)"
    "sf_Agent (f_Session f) = in_Agent (g_in g)" "sf_SwapCapable (f_Session f) = in_SwapCapable (g_in g)"
    "sf_Title (f_Session f) = in_Title (g_in g)" "sf_Account (f_Session f) = in_Account (g_in g)"
    "sf_AutoSelected (f_Session f) = in_Auto (g_in g)" "f_Config f = g_hc g"
    "f_Rails f = railsFacts g snap (dp_Now d)"
    "sf_Reading (f_Session f) = fst (ownReading d g snap en)"
  unfolding f_def factsFor_def Let_def split_beta by simp_all

lemma bareFacts_fields:
  fixes d g snap
  defines "f \<equiv> bareFacts d g snap"
  shows "sf_Started (f_Session f) = in_Started (g_in g)" "sf_Live (f_Session f) = in_Live (g_in g)"
    "sf_Agent (f_Session f) = in_Agent (g_in g)" "sf_SwapCapable (f_Session f) = in_SwapCapable (g_in g)"
    "sf_Title (f_Session f) = in_Title (g_in g)" "sf_Account (f_Session f) = in_Account (g_in g)"
    "sf_AutoSelected (f_Session f) = in_Auto (g_in g)" "f_Config f = g_hc g"
    "rl_Halted (f_Rails f) = (st_Halted (sn_State snap) \<noteq> None)"
  unfolding f_def bareFacts_def Let_def by simp_all

lemma factsFor_scope: "decideScope (fst (factsFor d g ns occ snap en)) = decideScope (bareFacts d g snap)"
  by (simp add: decideScope_def pinnedSession_def Let_def factsFor_fields bareFacts_fields)

lemma outOfScope_bare: "outOfScope g \<longleftrightarrow> decideScope (bareFacts d g snap) \<noteq> None"
  by (simp add: outOfScope_def decideScope_def pinnedSession_def Let_def bareFacts_fields
      excludedTitle_def excludedSession_def list_ex_iff)

lemma Decide_scope_only: "decideScope f = Some v \<Longrightarrow> decideScope f' = Some v \<Longrightarrow> Decide fmt f = Decide fmt f'"
  by (simp add: Decide_def)

lemma factsFor_halted: "rl_Halted (f_Rails (fst (factsFor d g ns occ snap en))) = (st_Halted (sn_State snap) \<noteq> None)"
  by (simp add: factsFor_fields railsFacts_def Let_def)

subsection \<open>The filter\<close>

text \<open>A verdict that needs no announcement: the edge holds it, and it is silence or the heartbeat is not due.\<close>

definition standing :: "gtime \<Rightarrow> string \<Rightarrow> edgeState option \<Rightarrow> bool" where
  "standing now sig prev \<longleftrightarrow>
     (case prev of None \<Rightarrow> False
      | Some p \<Rightarrow> es_sig p = sig \<and> (sig = [] \<or> now - es_at p < Reannounce))"

text \<open>One key's step: the events let through and the state recorded for the key.\<close>

definition filterStep :: "gtime \<Rightarrow> Event list \<Rightarrow> edgeState option \<Rightarrow> Event list \<times> edgeState option" where
  "filterStep now es prev =
     (if standing now (eventSignature es) prev then ([], prev)
      else (es, Some \<lparr>es_sig = eventSignature es, es_at = now\<rparr>))"

locale keyed_filter =
  fixes filt :: "'k \<Rightarrow> 'e list \<Rightarrow> 't \<Rightarrow> 'e list \<times> 't"
    and look :: "'t \<Rightarrow> 'k \<Rightarrow> 'v option"
    and step :: "'e list \<Rightarrow> 'v option \<Rightarrow> 'e list \<times> 'v option"
  assumes filt_events: "fst (filt k es t) = fst (step es (look t k))"
    and filt_look: "look (snd (filt k es t)) k' = (if k' = k then snd (step es (look t k)) else look t k')"
begin

primrec filtAll :: "('k \<times> 'e list) list \<Rightarrow> 't \<Rightarrow> ('k \<times> 'e list) list \<times> 't" where
  "filtAll [] t = ([], t)"
| "filtAll (x # xs) t =
     (let r = filt (fst x) (snd x) t; rest = filtAll xs (snd r) in ((fst x, fst r) # fst rest, snd rest))"

lemma filtAll_other: "k \<notin> fst ` set xs \<Longrightarrow> look (snd (filtAll xs t)) k = look t k"
  by (induction xs arbitrary: t) (simp_all add: Let_def filt_look)

lemma filtAll_events:
  "distinct (map fst xs) \<Longrightarrow> fst (filtAll xs t) = map (\<lambda>x. (fst x, fst (step (snd x) (look t (fst x))))) xs"
proof (induction xs arbitrary: t)
  case (Cons x xs)
  have "\<forall>y\<in>set xs. fst y \<noteq> fst x" using Cons.prems by (auto simp: image_iff)
  with Cons show ?case by (simp add: Let_def filt_events filt_look)
qed simp

lemma filtAll_look:
  "distinct (map fst xs) \<Longrightarrow> (k, es) \<in> set xs \<Longrightarrow> look (snd (filtAll xs t)) k = snd (step es (look t k))"
proof (induction xs arbitrary: t)
  case (Cons x xs)
  show ?case
  proof (cases "(k, es) = x")
    case True
    then have "fst x = k" "snd x = es" by auto
    with Cons.prems show ?thesis by (simp add: Let_def filtAll_other filt_look)
  next
    case False
    then have "(k, es) \<in> set xs" using Cons.prems by simp
    moreover from this have "k \<noteq> fst x" using Cons.prems by (auto simp: image_iff)
    ultimately show ?thesis using Cons by (simp add: Let_def filt_look)
  qed
qed simp

end

interpretation edgeFilter: keyed_filter "\<lambda>k es t. Filter k es now Reannounce t" "\<lambda>t. map_of (et_last t)" "filterStep now"
  for now
proof
  fix k es t k'
  show "fst (Filter k es now Reannounce t) = fst (filterStep now es (map_of (et_last t) k))"
    by (simp add: Filter_def filterStep_def standing_def Let_def)
  show "map_of (et_last (snd (Filter k es now Reannounce t))) k' =
      (if k' = k then snd (filterStep now es (map_of (et_last t) k)) else map_of (et_last t) k')"
    by (simp add: Filter_def filterStep_def standing_def Let_def gomap_update)
qed

subsection \<open>The pass as verdicts and filters\<close>

text \<open>The facts every governed session reaches the decision with, along the evidence of the pass.\<close>

primrec verdicts ::
  "Deps \<Rightarrow> int gomap \<Rightarrow> Snapshot \<Rightarrow> governedSession list \<Rightarrow> evidence \<Rightarrow>
   (governedSession \<times> Facts option) list \<times> evidence"
where
  "verdicts d occ snap [] en = ([], en)"
| "verdicts d occ snap (g # gs) en =
     (let r = sessionFacts d occ snap g en; rest = verdicts d occ snap gs (snd r)
      in ((g, fst r) # fst rest, snd rest))"

definition decided :: "formatters \<Rightarrow> (governedSession \<times> Facts option) list \<Rightarrow> (governedSession \<times> Event list) list" where
  "decided fmt vs =
     concat (map (\<lambda>(g, mf). case mf of None \<Rightarrow> [] | Some f \<Rightarrow> [(g, d_Events (Decide fmt f))]) vs)"

abbreviation gkey :: "governedSession \<Rightarrow> string" where
  "gkey g \<equiv> in_Key (g_in g)"

abbreviation keyedEvents :: "(governedSession \<times> Event list) list \<Rightarrow> (string \<times> Event list) list" where
  "keyedEvents xs \<equiv> map (\<lambda>x. (gkey (fst x), snd x)) xs"

definition rowsOf :: "EventRow list gomap \<Rightarrow> string \<Rightarrow> EventRow list" where
  "rowsOf m spec = (case map_of m spec of None \<Rightarrow> [] | Some rs \<Rightarrow> rs)"

lemma decided_simps [simp]:
  "decided fmt [] = []"
  "decided fmt ((g, None) # vs) = decided fmt vs"
  "decided fmt ((g, Some f) # vs) = (g, d_Events (Decide fmt f)) # decided fmt vs"
  by (simp_all add: decided_def)

lemma set_decided: "(g, es) \<in> set (decided fmt vs) \<longleftrightarrow> (\<exists>f. (g, Some f) \<in> set vs \<and> es = d_Events (Decide fmt f))"
  by (auto simp: decided_def split: option.splits)

lemma map_fst_verdicts: "map fst (fst (verdicts d occ snap gs en)) = gs"
  by (induction gs arbitrary: en) (simp_all add: Let_def)

lemma decided_keys: "distinct (map (f \<circ> fst) vs) \<Longrightarrow> distinct (map (f \<circ> fst) (decided fmt vs))"
proof (induction vs)
  case (Cons v vs)
  have "(f \<circ> fst) ` set (decided fmt vs) \<subseteq> (f \<circ> fst) ` set vs"
    by (force simp: decided_def split: option.splits)
  with Cons show ?case by (cases v; cases "snd v") auto
qed simp

lemma sessionPass_some:
  fixes specOf
  assumes "fst (sessionFacts d occ snap g (ps_evidence ps)) = Some f"
  defines "r \<equiv> Filter (gkey g) (d_Events (Decide (dp_fmt d) f)) (dp_Now d) Reannounce (ps_pending ps)"
  defines "ps' \<equiv> sessionPass d occ snap specOf g ps"
  shows "ps_pending ps' = snd r" "ps_rows ps' = ps_rows ps @ map (sessionRow d (g_in g)) (fst r)"
    "ps_reportRows ps' =
       (if getStr specOf (gkey g) \<noteq> []
        then fold (appendRow (getStr specOf (gkey g))) (map (sessionRow d (g_in g)) (fst r)) (ps_reportRows ps)
        else ps_reportRows ps)"
  using assms(1) unfolding ps'_def r_def sessionPass_def Let_def split_beta by simp_all

lemma sessionPass_none:
  fixes specOf
  assumes "fst (sessionFacts d occ snap g (ps_evidence ps)) = None"
  defines "ps' \<equiv> sessionPass d occ snap specOf g ps"
  shows "ps_pending ps' = ps_pending ps" "ps_rows ps' = ps_rows ps" "ps_reportRows ps' = ps_reportRows ps"
  using assms(1) unfolding ps'_def sessionPass_def Let_def split_beta by simp_all

lemma sessionPass_evidence:
  "ps_evidence (sessionPass d occ snap specOf g ps) = snd (sessionFacts d occ snap g (ps_evidence ps))"
  unfolding sessionPass_def Let_def split_beta by (simp split: option.split)

lemma fold_evidence:
  "ps_evidence (fold (sessionPass d occ snap specOf) gs ps) = snd (verdicts d occ snap gs (ps_evidence ps))"
  by (induction gs arbitrary: ps) (simp_all add: Let_def sessionPass_evidence)

lemma fold_pending_rows:
  fixes d occ snap specOf gs ps
  defines "xs \<equiv> decided (dp_fmt d) (fst (verdicts d occ snap gs (ps_evidence ps)))"
  defines "outs \<equiv> edgeFilter.filtAll (dp_Now d) (keyedEvents xs) (ps_pending ps)"
  defines "ps' \<equiv> fold (sessionPass d occ snap specOf) gs ps"
  shows "ps_pending ps' = snd outs \<and>
    ps_rows ps' = ps_rows ps @
      concat (map (\<lambda>(x, out). map (sessionRow d (g_in (fst x))) (snd out)) (zip xs (fst outs)))"
  unfolding ps'_def outs_def xs_def
proof (induction gs arbitrary: ps)
  case (Cons g gs)
  let ?ps = "sessionPass d occ snap specOf g ps"
  note IH = Cons [of ?ps, unfolded sessionPass_evidence]
  show ?case
  proof (cases "fst (sessionFacts d occ snap g (ps_evidence ps))")
    case None
    with IH show ?thesis by (simp add: Let_def sessionPass_none [OF None])
  next
    case (Some f)
    with IH show ?thesis by (simp add: Let_def sessionPass_some [OF Some])
  qed
qed simp

lemma fold_rows:
  fixes d occ snap specOf gs ps
  defines "xs \<equiv> decided (dp_fmt d) (fst (verdicts d occ snap gs (ps_evidence ps)))"
  assumes "distinct (map gkey gs)"
  shows "ps_rows (fold (sessionPass d occ snap specOf) gs ps) = ps_rows ps @
    concat (map (\<lambda>x. map (sessionRow d (g_in (fst x)))
      (fst (filterStep (dp_Now d) (snd x) (map_of (et_last (ps_pending ps)) (gkey (fst x)))))) xs)"
proof -
  have "distinct (map (gkey \<circ> fst) (fst (verdicts d occ snap gs (ps_evidence ps))))"
    using assms(2) by (metis list.map_comp map_fst_verdicts)
  then have "distinct (map (gkey \<circ> fst) xs)" unfolding xs_def by (rule decided_keys)
  then have dist: "distinct (map fst (keyedEvents xs))" by (simp add: comp_def)
  show ?thesis
    using fold_pending_rows [of d occ snap specOf gs ps]
    by (simp add: xs_def [symmetric] edgeFilter.filtAll_events [OF dist] zip_map2 zip_same_conv_map
        comp_def split_beta)
qed

lemma fold_edges:
  assumes "distinct (map gkey gs)"
    and "(g, Some f) \<in> set (fst (verdicts d occ snap gs (ps_evidence ps)))"
  shows "map_of (et_last (ps_pending (fold (sessionPass d occ snap specOf) gs ps))) (gkey g) =
    snd (filterStep (dp_Now d) (d_Events (Decide (dp_fmt d) f)) (map_of (et_last (ps_pending ps)) (gkey g)))"
proof -
  let ?vs = "fst (verdicts d occ snap gs (ps_evidence ps))"
  let ?xs = "decided (dp_fmt d) ?vs"
  have "distinct (map (gkey \<circ> fst) ?vs)" using assms(1) by (metis list.map_comp map_fst_verdicts)
  then have "distinct (map (gkey \<circ> fst) ?xs)" by (rule decided_keys)
  then have dist: "distinct (map fst (keyedEvents ?xs))" by (simp add: comp_def)
  have "(g, d_Events (Decide (dp_fmt d) f)) \<in> set ?xs" using assms(2) by (auto simp: set_decided)
  then have "(gkey g, d_Events (Decide (dp_fmt d) f)) \<in> set (keyedEvents ?xs)" by force
  from edgeFilter.filtAll_look [OF dist this] show ?thesis
    using fold_pending_rows [of d occ snap specOf gs ps] by simp
qed

lemma fold_edges_other:
  assumes "k \<notin> gkey ` set gs"
  shows "map_of (et_last (ps_pending (fold (sessionPass d occ snap specOf) gs ps))) k =
    map_of (et_last (ps_pending ps)) k"
proof -
  let ?vs = "fst (verdicts d occ snap gs (ps_evidence ps))"
  have "fst ` set ?vs = set gs" using map_fst_verdicts [of d occ snap gs "ps_evidence ps"] by (metis set_map)
  then have "k \<notin> fst ` set (keyedEvents (decided (dp_fmt d) ?vs))"
    using assms by (auto simp: set_decided) (metis fst_conv imageI)
  from edgeFilter.filtAll_other [OF this] show ?thesis
    using fold_pending_rows [of d occ snap specOf gs ps] by simp
qed

subsection \<open>Report rows\<close>

lemma rowsOf_append [simp]: "rowsOf (appendRow s row m) s' = rowsOf m s' @ (if s' = s then [row] else [])"
  by (simp add: rowsOf_def appendRow_def gomap_update)

lemma rowsOf_appends [simp]:
  "rowsOf (fold (appendRow s) rows m) s' = rowsOf m s' @ (if s' = s then rows else [])"
  by (induction rows arbitrary: m) simp_all

lemma appendRow_keys: "fst ` set (appendRow s row m) = insert s (fst ` set m)"
  by (simp add: appendRow_def dom_map_of_conv_image_fst [symmetric] gomap_update)

lemma appendRows_keys: "fst ` set (fold (appendRow s) rows m) \<subseteq> insert s (fst ` set m)"
proof (induction rows arbitrary: m)
  case (Cons row rows)
  from Cons [of "appendRow s row m"] show ?case by (simp add: appendRow_keys)
qed auto

lemma wf_appendRow: "wf_gomap m \<Longrightarrow> wf_gomap (appendRow s row m)"
  unfolding appendRow_def by (rule wf_gomap_update)

lemma wf_appendRows: "wf_gomap m \<Longrightarrow> wf_gomap (fold (appendRow s) rows m)"
  by (induction rows arbitrary: m) (auto intro: wf_appendRow)

lemma fold_specs:
  "distinct specs \<Longrightarrow> rowsOf (fold (\<lambda>spec m. appendRow spec row m) specs m) s =
     rowsOf m s @ (if s \<in> set specs then [row] else [])"
  by (induction specs arbitrary: m) auto

lemma fold_specs_keys: "fst ` set (fold (\<lambda>spec m. appendRow spec row m) specs m) = fst ` set m \<union> set specs"
  by (induction specs arbitrary: m) (auto simp: appendRow_keys)

lemma wf_fold_specs: "wf_gomap m \<Longrightarrow> wf_gomap (fold (\<lambda>spec m. appendRow spec row m) specs m)"
  by (induction specs arbitrary: m) (auto intro: wf_appendRow)

lemma wf_rowsOf: "wf_gomap m \<Longrightarrow> (s, rows) \<in> set m \<Longrightarrow> rowsOf m s = rows"
  by (simp add: rowsOf_def)

lemma rowsOf_in: "rowsOf m s \<noteq> [] \<Longrightarrow> (s, rowsOf m s) \<in> set m"
  by (auto simp: rowsOf_def split: option.splits dest: map_of_SomeD)

lemma sessionRow_key [simp]: "er_SessionKey (sessionRow d i e) = in_Key i"
  by (simp add: sessionRow_def)

lemma moverRow_key [simp]: "er_SessionKey (moverRow d e) = moverRowKey"
  by (simp add: moverRow_def)

text \<open>The rows kept for a report target are the rows of the sessions that name it.\<close>

lemma sessionPass_reports:
  fixes specOf
  assumes "s \<noteq> []"
    and "rowsOf (ps_reportRows ps) s = pre @ filter (\<lambda>row. getStr specOf (er_SessionKey row) = s) rows"
    and "ps_rows ps = hs @ rows"
  shows "\<exists>rows'. ps_rows (sessionPass d occ snap specOf g ps) = hs @ rows' \<and>
    rowsOf (ps_reportRows (sessionPass d occ snap specOf g ps)) s =
      pre @ filter (\<lambda>row. getStr specOf (er_SessionKey row) = s) rows'"
proof (cases "fst (sessionFacts d occ snap g (ps_evidence ps))")
  case None
  with assms show ?thesis by (simp add: sessionPass_none [OF None])
next
  case (Some f)
  with assms show ?thesis by (auto simp: sessionPass_some [OF Some] filter_map comp_def)
qed

lemma fold_reports:
  fixes specOf
  assumes "s \<noteq> []"
    and "rowsOf (ps_reportRows ps) s = pre @ filter (\<lambda>row. getStr specOf (er_SessionKey row) = s) rows"
    and "ps_rows ps = hs @ rows"
  shows "\<exists>rows'. ps_rows (fold (sessionPass d occ snap specOf) gs ps) = hs @ rows' \<and>
    rowsOf (ps_reportRows (fold (sessionPass d occ snap specOf) gs ps)) s =
      pre @ filter (\<lambda>row. getStr specOf (er_SessionKey row) = s) rows'"
  using assms(2,3)
proof (induction gs arbitrary: ps rows)
  case (Cons g gs)
  from sessionPass_reports [OF assms(1) Cons.prems] Cons.IH show ?case by fastforce
qed auto

lemma sessionPass_wf:
  assumes "wf_gomap (ps_reportRows ps)"
  shows "wf_gomap (ps_reportRows (sessionPass d occ snap specOf g ps))"
proof (cases "fst (sessionFacts d occ snap g (ps_evidence ps))")
  case None
  with assms show ?thesis by (simp add: sessionPass_none [OF None])
next
  case (Some f)
  with assms show ?thesis by (simp add: sessionPass_some [OF Some] wf_appendRows)
qed

lemma fold_wf:
  "wf_gomap (ps_reportRows ps) \<Longrightarrow> wf_gomap (ps_reportRows (fold (sessionPass d occ snap specOf) gs ps))"
  by (induction gs arbitrary: ps) (auto intro: sessionPass_wf)

lemma sessionPass_report_keys:
  "fst ` set (ps_reportRows (sessionPass d occ snap specOf g ps)) \<subseteq>
     fst ` set (ps_reportRows ps) \<union> ({getStr specOf (gkey g)} - {[]})"
proof (cases "fst (sessionFacts d occ snap g (ps_evidence ps))")
  case None
  then show ?thesis by (auto simp: sessionPass_none [OF None])
next
  case (Some f)
  show ?thesis
    using appendRows_keys [of "getStr specOf (gkey g)" _ "ps_reportRows ps"]
    by (auto simp: sessionPass_some [OF Some])
qed

lemma fold_report_keys:
  "fst ` set (ps_reportRows (fold (sessionPass d occ snap specOf) gs ps)) \<subseteq>
     fst ` set (ps_reportRows ps) \<union> ((\<lambda>g. getStr specOf (gkey g)) ` set gs - {[]})"
proof (induction gs arbitrary: ps)
  case (Cons g gs)
  from Cons [of "sessionPass d occ snap specOf g ps"] sessionPass_report_keys [of d occ snap specOf g ps]
  show ?case by auto
qed simp

subsection \<open>Report targets\<close>

lemma specByKey_foldl:
  "map_of (foldl (\<lambda>m g. AList.update (gkey g) (hc_ReportTo (g_hc g)) m) m0 gs) k =
     (case map_of (rev (map (\<lambda>g. (gkey g, hc_ReportTo (g_hc g))) gs)) k of None \<Rightarrow> map_of m0 k | Some s \<Rightarrow> Some s)"
  by (induction gs arbitrary: m0) (simp_all add: gomap_update map_add_def split: option.splits)

lemma specByKey_distinct:
  assumes "distinct (map gkey gov)" "g \<in> set gov"
  shows "getStr (specByKey gov) (gkey g) = hc_ReportTo (g_hc g)"
proof -
  let ?kv = "map (\<lambda>g. (gkey g, hc_ReportTo (g_hc g))) gov"
  have "distinct (map fst (rev ?kv))" using assms(1) by (simp add: rev_map comp_def flip: rev_map)
  moreover have "(gkey g, hc_ReportTo (g_hc g)) \<in> set (rev ?kv)" using assms(2) by auto
  ultimately have "map_of (rev ?kv) (gkey g) = Some (hc_ReportTo (g_hc g))" by simp
  then show ?thesis by (simp add: getStr_def specByKey_def specByKey_foldl)
qed

lemma specByKey_other: "k \<notin> gkey ` set gov \<Longrightarrow> getStr (specByKey gov) k = []"
proof -
  assume "k \<notin> gkey ` set gov"
  then have "map_of (rev (map (\<lambda>g. (gkey g, hc_ReportTo (g_hc g))) gov)) k = None"
    by (auto simp: map_of_eq_None_iff)
  then show ?thesis by (simp add: getStr_def specByKey_def specByKey_foldl)
qed

lemma set_reportSpecs: "s \<in> set (reportSpecs gov) \<longleftrightarrow> s \<noteq> [] \<and> (\<exists>g\<in>set gov. hc_ReportTo (g_hc g) = s)"
  by (auto simp: reportSpecs_def)

lemma distinct_reportSpecs [simp]: "distinct (reportSpecs gov)"
  by (simp add: reportSpecs_def)

lemma set_recipientKeys:
  "k \<in> set (recipientKeys sessions specs) \<longleftrightarrow>
     (\<exists>spec\<in>set specs. \<exists>r. resolveRecipient spec sessions = Some (r, True) \<and> k = in_Key r)"
  by (force simp: recipientKeys_def split: option.splits prod.splits bool.splits)

lemma set_deliverReports:
  "x \<in> set (deliverReports sessions specs rr) \<longleftrightarrow>
     (\<exists>spec rows r. (spec, rows) \<in> set rr \<and> resolveRecipient spec sessions = Some (r, True) \<and>
        filter (\<lambda>row. er_SessionKey row \<notin> set (recipientKeys sessions specs)) rows \<noteq> [] \<and>
        x = \<lparr>rp_spec = spec, rp_recipient = r,
             rp_rows = filter (\<lambda>row. er_SessionKey row \<notin> set (recipientKeys sessions specs)) rows\<rparr>)"
  unfolding deliverReports_def Let_def
  by (auto split: option.splits prod.splits bool.splits if_splits) (fastforce split: option.splits)+

lemma deliverReports_Cons:
  "deliverReports sessions specs (x # rr) =
     deliverReports sessions specs [x] @ deliverReports sessions specs rr"
  by (simp add: deliverReports_def)

lemma deliverReports_one:
  "deliverReports sessions specs [x] = [] \<or> map rp_spec (deliverReports sessions specs [x]) = [fst x]"
  by (cases x) (simp add: deliverReports_def Let_def split: option.splits bool.splits)

lemma deliverReports_keys: "rp_spec ` set (deliverReports sessions specs rr) \<subseteq> fst ` set rr"
  by (force simp: set_deliverReports)

lemma deliverReports_distinct: "wf_gomap rr \<Longrightarrow> distinct (map rp_spec (deliverReports sessions specs rr))"
proof (induction rr)
  case (Cons x rr)
  then have ih: "distinct (map rp_spec (deliverReports sessions specs rr))"
    and new: "fst x \<notin> rp_spec ` set (deliverReports sessions specs rr)"
    using deliverReports_keys [of sessions specs rr] by auto
  from deliverReports_one [of sessions specs x] show ?case
    using ih new by (auto simp only: deliverReports_Cons [of _ _ x rr] map_append append_Nil list.map distinct_append)
      (simp_all add: ih)
qed (simp add: deliverReports_def)

subsection \<open>The announcement of a halt\<close>

definition haltEvents :: "Deps \<Rightarrow> Snapshot \<Rightarrow> EdgeTracker \<Rightarrow> Event list" where
  "haltEvents d snap t =
     (case st_Halted (sn_State snap) of None \<Rightarrow> []
      | Some h \<Rightarrow> fst (filterStep (dp_Now d) [haltEvent d h] (map_of (et_last t) moverRowKey)))"

lemma fold_halt_rows:
  "distinct specs \<Longrightarrow>
     rowsOf (fold (\<lambda>row m. fold (\<lambda>spec m. appendRow spec row m) specs m) rows m) s =
       rowsOf m s @ (if s \<in> set specs then rows else [])"
  by (induction rows arbitrary: m) (auto simp: fold_specs)

lemma fold_halt_keys:
  "fst ` set (fold (\<lambda>row m. fold (\<lambda>spec m. appendRow spec row m) specs m) rows m) \<subseteq> fst ` set m \<union> set specs"
proof (induction rows arbitrary: m)
  case (Cons row rows)
  from Cons [of "fold (\<lambda>spec m. appendRow spec row m) specs m"] show ?case by (simp add: fold_specs_keys)
qed auto

lemma wf_fold_halt:
  "wf_gomap m \<Longrightarrow> wf_gomap (fold (\<lambda>row m. fold (\<lambda>spec m. appendRow spec row m) specs m) rows m)"
  by (induction rows arbitrary: m) (auto intro: wf_fold_specs)

lemma announceHalt_fields:
  fixes d snap specs ps
  defines "ps' \<equiv> announceHalt d snap specs ps"
  defines "rows \<equiv> map (moverRow d) (haltEvents d snap (ps_pending ps))"
  shows "ps_rows ps' = ps_rows ps @ rows"
    "ps_reportRows ps' = fold (\<lambda>row m. fold (\<lambda>spec m. appendRow spec row m) specs m) rows (ps_reportRows ps)"
    "ps_evidence ps' = ps_evidence ps"
    "k \<noteq> moverRowKey \<Longrightarrow> map_of (et_last (ps_pending ps')) k = map_of (et_last (ps_pending ps)) k"
    "map_of (et_last (ps_pending ps')) moverRowKey =
       (case st_Halted (sn_State snap) of None \<Rightarrow> map_of (et_last (ps_pending ps)) moverRowKey
        | Some h \<Rightarrow> snd (filterStep (dp_Now d) [haltEvent d h] (map_of (et_last (ps_pending ps)) moverRowKey)))"
  unfolding ps'_def rows_def announceHalt_def haltEvents_def Let_def split_beta
  by (simp_all add: edgeFilter.filt_events edgeFilter.filt_look split: option.split)

subsection \<open>The tick\<close>

text \<open>The parts of a tick: the governed sessions, the reads so far, the pruned edges and the pass.\<close>

definition tickGov :: "Deps \<Rightarrow> SessionInput list \<Rightarrow> governedSession list" where
  "tickGov d sessions = fst (resolveConfigs d sessions [] False [])"

definition tickReads :: "Deps \<Rightarrow> SessionInput list \<Rightarrow> envRead list" where
  "tickReads d sessions = snd (snd (resolveConfigs d sessions [] False []))"

definition tickEdges :: "Deps \<Rightarrow> SessionInput list \<Rightarrow> EdgeTracker \<Rightarrow> EdgeTracker" where
  "tickEdges d sessions edges = Prune (map (in_Key \<circ> g_in) (tickGov d sessions) @ [moverRowKey]) edges"

definition tickSnap :: "Deps \<Rightarrow> SessionInput list \<Rightarrow> Snapshot option" where
  "tickSnap d sessions = (if tickGov d sessions = [] then None else dp_LoadState d (tickReads d sessions))"

definition tickPass :: "Deps \<Rightarrow> SessionInput list \<Rightarrow> EdgeTracker \<Rightarrow> Snapshot \<Rightarrow> passState" where
  "tickPass d sessions edges snap =
     runPass d sessions (tickGov d sessions) snap (tickEdges d sessions edges) (tickReads d sessions @ [ReadState])"

lemmas tick_parts = tickGov_def tickReads_def tickEdges_def tickSnap_def tickPass_def

lemma Tick_no_pass:
  fixes edges
  assumes "tickSnap d sessions = None"
  defines "res \<equiv> Tick d sessions edges"
  shows "tk_rows res = []" "tk_reports res = []" "tk_edges res = tickEdges d sessions edges" "tk_prune res = None"
    "tk_log res = tickReads d sessions @ (if tickGov d sessions = [] then [] else [ReadState])"
    "tk_error res = (if tickGov d sessions = [] then None else Some ErrLoadState)"
  using assms(1) unfolding res_def Tick_def tick_parts Let_def split_beta
  by (auto split: if_splits)

lemma Tick_pass:
  fixes edges
  assumes "tickSnap d sessions = Some snap"
  defines "res \<equiv> Tick d sessions edges" and "ps \<equiv> tickPass d sessions edges snap"
  shows "tk_rows res = ps_rows ps" "tk_log res = en_log (ps_evidence ps)"
    "tk_error res = (if ps_rows ps \<noteq> [] \<and> \<not> dp_WriteRows d (ps_rows ps) then Some ErrWriteRows else None)"
    "tk_edges res = (if tk_error res = None then ps_pending ps else tickEdges d sessions edges)"
    "tk_reports res =
       (if tk_error res = None \<and> dp_HasDeliverReport d
        then deliverReports sessions (reportSpecs (tickGov d sessions)) (ps_reportRows ps) else [])"
  using assms(1) unfolding res_def ps_def Tick_def tick_parts Let_def split_beta
  by (simp_all split: if_splits)

lemma Tick_count: "tk_count (Tick d sessions edges) = length (tickGov d sessions)"
  unfolding Tick_def tick_parts Let_def split_beta by (simp split: option.split)

text \<open>The verdicts of a tick: the facts each governed session was decided on, or none.\<close>

definition tickVerdicts :: "Deps \<Rightarrow> SessionInput list \<Rightarrow> Snapshot \<Rightarrow> (governedSession \<times> Facts option) list" where
  "tickVerdicts d sessions snap =
     fst (verdicts d (occupancy sessions) snap (tickGov d sessions)
            \<lparr>en_log = tickReads d sessions @ [ReadState], en_namespaces = [], en_readings = []\<rparr>)"

lemma tickVerdicts_gov: "map fst (tickVerdicts d sessions snap) = tickGov d sessions"
  by (simp add: tickVerdicts_def map_fst_verdicts)

lemma verdict_gov: "(g, mf) \<in> set (tickVerdicts d sessions snap) \<Longrightarrow> g \<in> set (tickGov d sessions)"
  by (metis fst_conv image_eqI set_map tickVerdicts_gov)

lemma decided_gov: "x \<in> set (decided fmt (tickVerdicts d sessions snap)) \<Longrightarrow> fst x \<in> set (tickGov d sessions)"
  by (metis prod.collapse set_decided verdict_gov)

lemma Prune_look: "map_of (et_last (Prune live t)) k = (if k \<in> set live then map_of (et_last t) k else None)"
  by (simp add: Prune_def map_of_filter_keys)

lemma tickEdges_look:
  "map_of (et_last (tickEdges d sessions edges)) k =
     (if k \<in> gkey ` set (tickGov d sessions) \<or> k = moverRowKey then map_of (et_last edges) k else None)"
  by (auto simp: tickEdges_def Prune_look)

lemma tickPass_rows:
  assumes "distinct (map gkey (tickGov d sessions))" "moverRowKey \<notin> gkey ` set (tickGov d sessions)"
  shows "ps_rows (tickPass d sessions edges snap) =
    map (moverRow d) (haltEvents d snap (tickEdges d sessions edges)) @
    concat (map (\<lambda>x. map (sessionRow d (g_in (fst x)))
      (fst (filterStep (dp_Now d) (snd x) (map_of (et_last edges) (gkey (fst x))))))
      (decided (dp_fmt d) (tickVerdicts d sessions snap)))"
proof -
  let ?xs = "decided (dp_fmt d) (tickVerdicts d sessions snap)"
  have "map_of (et_last (tickEdges d sessions edges)) (gkey (fst x)) = map_of (et_last edges) (gkey (fst x)) \<and>
      gkey (fst x) \<noteq> moverRowKey" if "x \<in> set ?xs" for x
  proof -
    have "gkey (fst x) \<in> gkey ` set (tickGov d sessions)" using decided_gov [OF that] by (rule imageI)
    with assms(2) show ?thesis by (auto simp: tickEdges_look)
  qed
  then show ?thesis
    unfolding tickPass_def runPass_def fold_rows [OF assms(1)]
    by (simp add: announceHalt_fields tickVerdicts_def cong: map_cong)
qed

end
