(* ===== verification/Engine_Lemmas.thy ===== *)
theory Engine_Lemmas
  imports Engine_Pass "HOL-Library.Sublist"
begin

text \<open>
  What a pass of the shadow engine guarantees: which evidence it reads, that an edge is kept only with
  the rows that announced it, the rows of one session, the rows of one report, and where a row of a
  move comes from.
\<close>

subsection \<open>Evidence\<close>

fun usageDir :: "envRead \<Rightarrow> string option" where
  "usageDir (ReadUsageOf dir _) = Some dir"
| "usageDir _ = None"

fun registryAgent :: "envRead \<Rightarrow> string option" where
  "registryAgent (ReadRegistered a) = Some a"
| "registryAgent _ = None"

text \<open>A read that the agents \<open>A\<close> in scope justify.\<close>

fun readOk :: "Snapshot \<Rightarrow> string set \<Rightarrow> envRead \<Rightarrow> bool" where
  "readOk snap A (ReadConfig _) \<longleftrightarrow> True"
| "readOk snap A ReadState \<longleftrightarrow> True"
| "readOk snap A (ReadRegistered a) \<longleftrightarrow> a \<in> A"
| "readOk snap A (ReadLimited a) \<longleftrightarrow> a \<in> A"
| "readOk snap A (ReadAccountDir a name) \<longleftrightarrow> a \<in> A"
| "readOk snap A (ReadUsageOf dir carried) \<longleftrightarrow>
     ''codex'' \<in> A \<and> \<not> AccountUntrusted snap dir \<and> carried = EffectiveCarriedPrefixes snap"
| "readOk snap A (ReadDrift a src dir program) \<longleftrightarrow> a = ''codex'' \<and> a \<in> A"

definition evInv :: "Snapshot \<Rightarrow> string set \<Rightarrow> evidence \<Rightarrow> bool" where
  "evInv snap A en \<longleftrightarrow>
     (\<forall>r\<in>set (en_log en). readOk snap A r) \<and>
     distinct (List.map_filter usageDir (en_log en)) \<and>
     (\<forall>dir\<in>set (List.map_filter usageDir (en_log en)). has_key (en_readings en) dir) \<and>
     (\<forall>dir r. map_of (en_readings en) dir = Some r \<longrightarrow> AccountUntrusted snap dir \<longrightarrow> r = noReading ReadingUnknown) \<and>
     distinct (List.map_filter registryAgent (en_log en)) \<and>
     (\<forall>a\<in>set (List.map_filter registryAgent (en_log en)). has_key (en_namespaces en) a)"

lemma map_filter_app: "List.map_filter f (xs @ ys) = List.map_filter f xs @ List.map_filter f ys"
  by (simp add: List.map_filter_def)

lemmas log_simps = map_filter_app map_filter_simps

lemma evInv_note:
  "evInv snap A en \<Longrightarrow> readOk snap A r \<Longrightarrow> usageDir r = None \<Longrightarrow> registryAgent r = None \<Longrightarrow>
     evInv snap A (noteRead r en)"
  by (simp add: evInv_def noteRead_def log_simps)

lemma evInv_nsFor:
  assumes "evInv snap A en" "agent \<in> A"
  shows "evInv snap A (snd (nsFor d agent en))"
proof (cases "map_of (en_namespaces en) agent")
  case None
  then have "agent \<notin> set (List.map_filter registryAgent (en_log en))" using assms(1) by (auto simp: evInv_def)
  with assms None show ?thesis
    by (auto simp: nsFor_def noteRead_def Let_def evInv_def log_simps gomap_update)
next
  case (Some ns)
  with assms show ?thesis by (simp add: nsFor_def)
qed

lemma evInv_readUsage:
  assumes "evInv snap A en" "''codex'' \<in> A"
  shows "evInv snap A (snd (readUsage d snap dir (EffectiveCarriedPrefixes snap) en))"
proof (cases "map_of (en_readings en) dir")
  case None
  then have new: "dir \<notin> set (List.map_filter usageDir (en_log en))" using assms(1) by (auto simp: evInv_def)
  show ?thesis
  proof (cases "AccountUntrusted snap dir")
    case True
    with assms None show ?thesis
      by (auto simp: readUsage_def Let_def evInv_def gomap_update)
  next
    case False
    with assms None new show ?thesis
      by (auto simp: readUsage_def noteRead_def Let_def evInv_def log_simps gomap_update)
  qed
next
  case (Some r)
  with assms show ?thesis by (simp add: readUsage_def)
qed

lemma readUsage_untrusted:
  "evInv snap A en \<Longrightarrow> AccountUntrusted snap dir \<Longrightarrow>
     fst (readUsage d snap dir carried en) = noReading ReadingUnknown"
  by (auto simp: readUsage_def evInv_def Let_def split: option.split)

lemma evInv_candidateReading:
  assumes "evInv snap A en" "in_Agent (g_in g) \<in> A"
  shows "evInv snap A (snd (candidateReading d g snap srcDir name en))"
proof -
  let ?en1 = "noteRead (ReadAccountDir (in_Agent (g_in g)) name) en"
  have 1: "evInv snap A ?en1" using assms by (simp add: evInv_note)
  show ?thesis
  proof (cases "in_Agent (g_in g) = ''codex''")
    case True
    with assms(2) have "evInv snap A (snd (readUsage d snap dir (EffectiveCarriedPrefixes snap) ?en1))" for dir
      using 1 by (simp add: evInv_readUsage)
    with 1 True assms(2) show ?thesis
      unfolding candidateReading_def Let_def split_beta by (simp add: evInv_note)
  next
    case False
    with 1 show ?thesis unfolding candidateReading_def Let_def by simp
  qed
qed

lemma candidateFacts_evidence: "snd (candidateFacts d g ns occ snap srcDir name en) = snd (candidateReading d g snap srcDir name en)"
  unfolding candidateFacts_def Let_def split_beta by simp

lemma evInv_candidates:
  "evInv snap A en \<Longrightarrow> in_Agent (g_in g) \<in> A \<Longrightarrow> evInv snap A (snd (candidatesFacts d g ns occ snap srcDir names en))"
  by (induction names arbitrary: en) (simp_all add: Let_def split_beta candidateFacts_evidence evInv_candidateReading)

lemma evInv_ownReading:
  "evInv snap A en \<Longrightarrow> in_Agent (g_in g) \<in> A \<Longrightarrow> evInv snap A (snd (ownReading d g snap en))"
  by (auto simp: ownReading_def Let_def intro: evInv_readUsage)

lemma factsFor_evidence:
  "snd (factsFor d g ns occ snap en) =
     snd (candidatesFacts d g ns occ snap (if in_Agent (g_in g) = ''codex'' then in_HomeDir (g_in g) else [])
            (rc_LimitAccountCandidates (g_cfg g)) (snd (ownReading d g snap en)))"
  unfolding factsFor_def Let_def split_beta by simp

lemma evInv_factsFor:
  "evInv snap A en \<Longrightarrow> in_Agent (g_in g) \<in> A \<Longrightarrow> evInv snap A (snd (factsFor d g ns occ snap en))"
  by (simp add: factsFor_evidence evInv_candidates evInv_ownReading)

lemma evInv_sessionFacts:
  assumes "evInv snap A en" "\<not> outOfScope g \<Longrightarrow> in_Agent (g_in g) \<in> A"
  shows "evInv snap A (snd (sessionFacts d occ snap g en))"
  using assms evInv_nsFor [of snap A en "in_Agent (g_in g)" d]
  unfolding sessionFacts_def Let_def split_beta by (simp add: evInv_factsFor)

definition scopeAgents :: "governedSession list \<Rightarrow> string set" where
  "scopeAgents gov = {in_Agent (g_in g) |g. g \<in> set gov \<and> \<not> outOfScope g}"

lemma evInv_verdicts:
  "evInv snap A en \<Longrightarrow> scopeAgents gs \<subseteq> A \<Longrightarrow> evInv snap A (snd (verdicts d occ snap gs en))"
proof (induction gs arbitrary: en)
  case (Cons g gs)
  then have "evInv snap A (snd (sessionFacts d occ snap g en))"
    by (intro evInv_sessionFacts) (auto simp: scopeAgents_def)
  moreover have "scopeAgents gs \<subseteq> A" using Cons.prems(2) by (auto simp: scopeAgents_def)
  ultimately show ?case using Cons.IH by (simp add: Let_def)
qed simp

lemma resolveConfigs_reads:
  "set (snd (snd (resolveConfigs d ss resolved fl reads))) \<subseteq> set reads \<union> range ReadConfig"
proof (induction ss arbitrary: resolved fl reads)
  case (Cons i ss)
  let ?out = "\<lambda>resolved fl reads. set (snd (snd (resolveConfigs d ss resolved fl reads)))"
  have "?out resolved' fl' (reads @ [ReadConfig (in_RepoRoot i)]) \<subseteq> set reads \<union> range ReadConfig" for resolved' fl'
    using Cons [of resolved' fl' "reads @ [ReadConfig (in_RepoRoot i)]"] by auto
  with Cons [of resolved fl reads] show ?case by (simp add: Let_def split_beta split: option.split)
qed simp

lemma map_filter_none: "(\<And>x. x \<in> set xs \<Longrightarrow> f x = None) \<Longrightarrow> List.map_filter f xs = []"
  by (auto simp: List.map_filter_def filter_empty_conv)

lemma evInv_initial:
  assumes "set reads \<subseteq> range ReadConfig \<union> {ReadState}"
  shows "evInv snap A \<lparr>en_log = reads, en_namespaces = [], en_readings = []\<rparr>"
proof -
  have none: "usageDir r = None" "registryAgent r = None" "readOk snap A r" if "r \<in> set reads" for r
    using assms that by force+
  then have "List.map_filter usageDir reads = []" "List.map_filter registryAgent reads = []"
    by (auto intro: map_filter_none)
  with none(3) show ?thesis by (simp add: evInv_def)
qed

lemma runPass_evInv:
  assumes "set reads \<subseteq> range ReadConfig \<union> {ReadState}"
  shows "evInv snap (scopeAgents gov) (ps_evidence (runPass d sessions gov snap edges reads))"
  unfolding runPass_def fold_evidence announceHalt_fields
  using evInv_initial [OF assms] by (simp add: evInv_verdicts)

subsection \<open>Durable edges\<close>

definition rowEvent :: "EventRow \<Rightarrow> Event" where
  "rowEvent r = event (er_Kind r) (er_ReasonCode r) (er_From r) (er_To r) (er_Params r)"

text \<open>A verdict of a key that a batch of rows announces.\<close>

definition announces :: "EventRow list \<Rightarrow> string \<Rightarrow> edgeState \<Rightarrow> bool" where
  "announces rows k e \<longleftrightarrow>
     (\<exists>ann. sublist ann rows \<and> (\<forall>r\<in>set ann. er_SessionKey r = k \<and> er_TS r = es_at e) \<and>
        eventSignature (map rowEvent ann) = es_sig e)"

lemma announces_mono: "announces rows k e \<Longrightarrow> announces (rows @ later) k e"
  unfolding announces_def by (meson sublist_appendI sublist_order.order.trans prefix_imp_sublist prefixI)

lemma announces_new:
  assumes "\<forall>r\<in>set new. er_SessionKey r = k \<and> er_TS r = es_at e" "eventSignature (map rowEvent new) = es_sig e"
  shows "announces (rows @ new) k e"
  unfolding announces_def using assms by (intro exI [of _ new]) (simp add: suffix_imp_sublist)

lemma rowEvent_session [simp]: "rowEvent (sessionRow d i e) = e"
  by (simp add: rowEvent_def sessionRow_def)

lemma rowEvent_halt [simp]: "rowEvent (moverRow d (haltEvent d h)) = haltEvent d h"
  by (simp add: rowEvent_def moverRow_def haltEvent_def)

lemma sessionRow_TS [simp]: "er_TS (sessionRow d i e) = dp_Now d"
  by (simp add: sessionRow_def)

lemma moverRow_TS [simp]: "er_TS (moverRow d e) = dp_Now d"
  by (simp add: moverRow_def)

text \<open>Every edge of a pass is one it started with or one its rows announce; silence is never announced.\<close>

definition passDurable :: "EdgeTracker \<Rightarrow> passState \<Rightarrow> bool" where
  "passDurable t0 ps \<longleftrightarrow>
     (\<forall>k e. map_of (et_last (ps_pending ps)) k = Some e \<longrightarrow>
        map_of (et_last t0) k = Some e \<or> announces (ps_rows ps) k e)"

lemma filterStep_cases:
  "snd (filterStep now es prev) = Some e \<Longrightarrow>
     prev = Some e \<or> (fst (filterStep now es prev) = es \<and> e = \<lparr>es_sig = eventSignature es, es_at = now\<rparr>)"
  by (auto simp: filterStep_def split: if_splits)

lemma passDurable_session:
  assumes "passDurable t0 ps"
  shows "passDurable t0 (sessionPass d occ snap specOf g ps)"
proof (cases "fst (sessionFacts d occ snap g (ps_evidence ps))")
  case None
  with assms show ?thesis by (simp add: passDurable_def sessionPass_none [OF None])
next
  case (Some f)
  let ?es = "d_Events (Decide (dp_fmt d) f)" and ?prev = "map_of (et_last (ps_pending ps)) (gkey g)"
  let ?ps = "sessionPass d occ snap specOf g ps"
  have rows: "ps_rows ?ps = ps_rows ps @ map (sessionRow d (g_in g)) (fst (filterStep (dp_Now d) ?es ?prev))"
    by (simp add: sessionPass_some [OF Some] edgeFilter.filt_events)
  show ?thesis unfolding passDurable_def
  proof (intro allI impI)
    fix k e assume look: "map_of (et_last (ps_pending ?ps)) k = Some e"
    show "map_of (et_last t0) k = Some e \<or> announces (ps_rows ?ps) k e"
    proof (cases "map_of (et_last (ps_pending ps)) k = Some e")
      case True
      with assms show ?thesis unfolding rows passDurable_def by (blast intro: announces_mono)
    next
      case False
      with look have k: "k = gkey g" and st: "snd (filterStep (dp_Now d) ?es ?prev) = Some e"
        by (auto simp: sessionPass_some [OF Some] edgeFilter.filt_look split: if_splits)
      with False filterStep_cases [OF st] show ?thesis unfolding rows k by (auto intro!: announces_new simp: comp_def)
    qed
  qed
qed

lemma passDurable_fold:
  "passDurable t0 ps \<Longrightarrow> passDurable t0 (fold (sessionPass d occ snap specOf) gs ps)"
  by (induction gs arbitrary: ps) (auto intro: passDurable_session)

lemma passDurable_halt:
  assumes "ps_rows ps = []"
  shows "passDurable (ps_pending ps) (announceHalt d snap specs ps)"
  unfolding passDurable_def
proof (intro allI impI)
  fix k e
  let ?ps = "announceHalt d snap specs ps" and ?prev = "map_of (et_last (ps_pending ps)) moverRowKey"
  assume look: "map_of (et_last (ps_pending ?ps)) k = Some e"
  show "map_of (et_last (ps_pending ps)) k = Some e \<or> announces (ps_rows ?ps) k e"
  proof (cases "k = moverRowKey")
    case True
    show ?thesis
    proof (cases "st_Halted (sn_State snap)")
      case None
      with look True show ?thesis by (simp add: announceHalt_fields)
    next
      case (Some h)
      with look True have "snd (filterStep (dp_Now d) [haltEvent d h] ?prev) = Some e"
        by (simp add: announceHalt_fields)
      from filterStep_cases [OF this] Some True assms show ?thesis
        using announces_new [of "[moverRow d (haltEvent d h)]" k e "[]"]
        by (auto simp: announceHalt_fields haltEvents_def)
    qed
  next
    case False
    with look show ?thesis by (simp add: announceHalt_fields)
  qed
qed

lemma tick_edge_durable:
  assumes "map_of (et_last (tk_edges (Tick d sessions edges))) k = Some e"
  shows "map_of (et_last edges) k = Some e \<or>
    tk_error (Tick d sessions edges) = None \<and> announces (tk_rows (Tick d sessions edges)) k e"
proof -
  have pruned: "map_of (et_last (tickEdges d sessions edges)) k = Some e \<Longrightarrow> map_of (et_last edges) k = Some e"
    by (simp add: tickEdges_look split: if_splits)
  show ?thesis
  proof (cases "tickSnap d sessions")
    case None
    with assms pruned show ?thesis by (simp add: Tick_no_pass [OF None])
  next
    case (Some snap)
    have dur: "passDurable (tickEdges d sessions edges) (tickPass d sessions edges snap)"
      unfolding tickPass_def runPass_def
      by (intro passDurable_fold) (use passDurable_halt [of "\<lparr>ps_pending = tickEdges d sessions edges, ps_rows = [],
        ps_reportRows = [], ps_evidence = en\<rparr>" for en] in simp)
    show ?thesis
    proof (cases "tk_error (Tick d sessions edges) = None")
      case True
      with assms have "map_of (et_last (ps_pending (tickPass d sessions edges snap))) k = Some e"
        by (simp add: Tick_pass(4) [OF Some])
      with dur have "map_of (et_last (tickEdges d sessions edges)) k = Some e \<or>
          announces (ps_rows (tickPass d sessions edges snap)) k e" by (auto simp: passDurable_def)
      with pruned True show ?thesis by (auto simp only: Tick_pass(1) [OF Some])
    next
      case False
      with assms pruned show ?thesis by (simp add: Tick_pass(4) [OF Some])
    qed
  qed
qed

text \<open>The engine over many ticks, with the batches its log accepted.\<close>

record engineWorld =
  ew_edges :: EdgeTracker
  ew_written :: "EventRow list list"

definition engineStep :: "engineWorld \<Rightarrow> Deps \<times> SessionInput list \<Rightarrow> engineWorld" where
  "engineStep w x =
     (let r = Tick (fst x) (snd x) (ew_edges w) in
      \<lparr>ew_edges = tk_edges r,
       ew_written = ew_written w @ (if tk_error r = None then [tk_rows r] else [])\<rparr>)"

definition engineInv :: "engineWorld \<Rightarrow> bool" where
  "engineInv w \<longleftrightarrow>
     (\<forall>k e. map_of (et_last (ew_edges w)) k = Some e \<longrightarrow> (\<exists>rows\<in>set (ew_written w). announces rows k e))"

interpretation engineTicks: invariant_ops engineStep engineInv
proof
  fix w x assume inv: "engineInv w"
  show "engineInv (engineStep w x)" unfolding engineInv_def
  proof (intro allI impI)
    fix k e assume "map_of (et_last (ew_edges (engineStep w x))) k = Some e"
    from tick_edge_durable [of "fst x" "snd x" "ew_edges w" k e] this inv
    show "\<exists>rows\<in>set (ew_written (engineStep w x)). announces rows k e"
      by (auto simp: engineStep_def Let_def engineInv_def)
  qed
qed

subsection \<open>The rows of one session\<close>

lemma filter_concat_key:
  assumes "distinct (map k xs)" "x \<in> set xs" "\<And>y r. y \<in> set xs \<Longrightarrow> r \<in> set (f y) \<Longrightarrow> key r = k y"
  shows "filter (\<lambda>r. key r = k x) (concat (map f xs)) = f x"
  using assms
proof (induction xs)
  case (Cons y ys)
  show ?case
  proof (cases "x = y")
    case True
    have "filter (\<lambda>r. key r = k x) (concat (map f ys)) = []"
      using Cons.prems True by (auto simp: filter_empty_conv image_iff) (metis)
    with Cons.prems True show ?thesis by (simp add: filter_True)
  next
    case False
    then have x: "x \<in> set ys" using Cons.prems by simp
    then have "k y \<noteq> k x" using Cons.prems by (auto simp: image_iff)
    then have "filter (\<lambda>r. key r = k x) (f y) = []" using Cons.prems(3) [of y] by (auto simp: filter_empty_conv)
    with Cons x show ?thesis by simp
  qed
qed simp

lemma decided_distinct:
  assumes "distinct (map gkey (tickGov d sessions))"
  shows "distinct (map (gkey \<circ> fst) (decided fmt (tickVerdicts d sessions snap)))"
proof (rule decided_keys)
  show "distinct (map (gkey \<circ> fst) (tickVerdicts d sessions snap))"
    using assms by (metis list.map_comp tickVerdicts_gov)
qed

lemma tick_session_rows:
  assumes "distinct (map gkey (tickGov d sessions))" "moverRowKey \<notin> gkey ` set (tickGov d sessions)"
    and "(g, Some f) \<in> set (tickVerdicts d sessions snap)"
  shows "filter (\<lambda>r. er_SessionKey r = gkey g) (ps_rows (tickPass d sessions edges snap)) =
    map (sessionRow d (g_in g))
      (fst (filterStep (dp_Now d) (d_Events (Decide (dp_fmt d) f)) (map_of (et_last edges) (gkey g))))"
proof -
  let ?xs = "decided (dp_fmt d) (tickVerdicts d sessions snap)"
  let ?f = "\<lambda>x. map (sessionRow d (g_in (fst x)))
    (fst (filterStep (dp_Now d) (snd x) (map_of (et_last edges) (gkey (fst x)))))"
  have "g \<in> set (tickGov d sessions)"
    using assms(3) by (rule verdict_gov)
  then have "gkey g \<noteq> moverRowKey" using assms(2) by (metis imageI)
  then have mover: "filter (\<lambda>r. er_SessionKey r = gkey g) (map (moverRow d) hs) = []" for hs
    by (auto simp: filter_empty_conv)
  have "(g, d_Events (Decide (dp_fmt d) f)) \<in> set ?xs" using assms(3) by (auto simp: set_decided)
  moreover have "er_SessionKey r = (gkey \<circ> fst) y" if "r \<in> set (?f y)" for y r using that by auto
  ultimately have "filter (\<lambda>r. er_SessionKey r = gkey g) (concat (map ?f ?xs)) = ?f (g, d_Events (Decide (dp_fmt d) f))"
    using filter_concat_key [OF decided_distinct [OF assms(1)], of _ "dp_fmt d" snap ?f er_SessionKey] by auto
  then show ?thesis unfolding tickPass_rows [OF assms(1,2)] filter_append mover by simp
qed

lemma tick_session_edge:
  assumes "distinct (map gkey (tickGov d sessions))" "moverRowKey \<notin> gkey ` set (tickGov d sessions)"
    and "(g, Some f) \<in> set (tickVerdicts d sessions snap)"
  shows "map_of (et_last (ps_pending (tickPass d sessions edges snap))) (gkey g) =
    snd (filterStep (dp_Now d) (d_Events (Decide (dp_fmt d) f)) (map_of (et_last edges) (gkey g)))"
proof -
  have g: "g \<in> set (tickGov d sessions)"
    using assms(3) by (rule verdict_gov)
  then have "gkey g \<noteq> moverRowKey" using assms(2) by (metis imageI)
  with g show ?thesis
    unfolding tickPass_def runPass_def
    using assms(3) by (subst fold_edges [OF assms(1)]) (auto simp: announceHalt_fields tickVerdicts_def tickEdges_look)
qed

subsection \<open>Reports\<close>

lemma rowsOf_Nil [simp]: "rowsOf [] s = []"
  by (simp add: rowsOf_def)

lemma tickPass_reportRows:
  assumes "distinct (map gkey (tickGov d sessions))" "moverRowKey \<notin> gkey ` set (tickGov d sessions)"
    and "s \<in> set (reportSpecs (tickGov d sessions))"
  shows "rowsOf (ps_reportRows (tickPass d sessions edges snap)) s =
    filter (\<lambda>r. er_SessionKey r = moverRowKey \<or>
      (\<exists>g\<in>set (tickGov d sessions). gkey g = er_SessionKey r \<and> hc_ReportTo (g_hc g) = s))
      (ps_rows (tickPass d sessions edges snap))"
proof -
  let ?gov = "tickGov d sessions" and ?ps = "tickPass d sessions edges snap"
  let ?hs = "map (moverRow d) (haltEvents d snap (tickEdges d sessions edges))"
  have s: "s \<noteq> []" using assms(3) by (simp add: set_reportSpecs)
  have halt: "filter (\<lambda>r. er_SessionKey r = moverRowKey \<or> P r) ?hs = ?hs" for P
    by (auto simp: filter_id_conv)
  let ?en = "\<lparr>en_log = tickReads d sessions @ [ReadState], en_namespaces = [], en_readings = []\<rparr>"
  let ?start = "announceHalt d snap (reportSpecs ?gov)
    \<lparr>ps_pending = tickEdges d sessions edges, ps_rows = [], ps_reportRows = [], ps_evidence = ?en\<rparr>"
  let ?own = "\<lambda>r. getStr (specByKey ?gov) (er_SessionKey r) = s"
  have "rowsOf (ps_reportRows ?start) s = ?hs @ filter ?own []" "ps_rows ?start = ?hs @ []"
    using assms(3) by (simp_all add: announceHalt_fields fold_halt_rows)
  moreover have ps: "fold (sessionPass d (occupancy sessions) snap (specByKey ?gov)) ?gov ?start = ?ps"
    by (simp add: tickPass_def runPass_def)
  ultimately have "\<exists>rows. ps_rows ?ps = ?hs @ rows \<and> rowsOf (ps_reportRows ?ps) s = ?hs @ filter ?own rows"
    using fold_reports [OF s, of ?start ?hs "specByKey ?gov" "[]" ?hs d "occupancy sessions" snap ?gov, unfolded ps] by simp
  then obtain rows where rows: "ps_rows ?ps = ?hs @ rows"
    and rr: "rowsOf (ps_reportRows ?ps) s = ?hs @ filter ?own rows"
    by blast
  have "rows = concat (map (\<lambda>x. map (sessionRow d (g_in (fst x)))
      (fst (filterStep (dp_Now d) (snd x) (map_of (et_last edges) (gkey (fst x))))))
      (decided (dp_fmt d) (tickVerdicts d sessions snap)))"
    using tickPass_rows [OF assms(1,2), of edges snap] rows by simp
  then have keys: "er_SessionKey r \<in> gkey ` set ?gov" if "r \<in> set rows" for r
    using that by (auto dest!: decided_gov)
  have "getStr (specByKey ?gov) (er_SessionKey r) = s \<longleftrightarrow>
      er_SessionKey r = moverRowKey \<or> (\<exists>g\<in>set ?gov. gkey g = er_SessionKey r \<and> hc_ReportTo (g_hc g) = s)"
    if "r \<in> set rows" for r
    using keys [OF that] assms(2) specByKey_distinct [OF assms(1)] by (metis (no_types, lifting) imageE)
  then show ?thesis unfolding rr rows by (simp add: halt cong: filter_cong)
qed

lemma tickPass_report_wf:
  "wf_gomap (ps_reportRows (tickPass d sessions edges snap))"
  unfolding tickPass_def runPass_def by (intro fold_wf) (simp add: announceHalt_fields wf_fold_halt)

lemma tickPass_report_keys:
  assumes "distinct (map gkey (tickGov d sessions))"
  shows "fst ` set (ps_reportRows (tickPass d sessions edges snap)) \<subseteq> set (reportSpecs (tickGov d sessions))"
proof -
  let ?gov = "tickGov d sessions"
  have "(\<lambda>g. getStr (specByKey ?gov) (gkey g)) ` set ?gov - {[]} \<subseteq> set (reportSpecs ?gov)"
    using specByKey_distinct [OF assms] by (auto simp: set_reportSpecs)
  moreover have "fst ` set (ps_reportRows (announceHalt d snap (reportSpecs ?gov)
      \<lparr>ps_pending = t, ps_rows = [], ps_reportRows = [], ps_evidence = en\<rparr>)) \<subseteq> set (reportSpecs ?gov)" for t en
    unfolding announceHalt_fields by (rule order_trans [OF fold_halt_keys]) simp
  ultimately show ?thesis
    unfolding tickPass_def runPass_def by (intro order_trans [OF fold_report_keys] Un_least)
qed

subsection \<open>Moves\<close>

lemma decide_move_event:
  assumes "e \<in> set (d_Events (Decide fmt f))" "ev_Kind e = EventMove"
  shows "d_Kind (Decide fmt f) = KindMove \<and> ev_To e = d_To (Decide fmt f)"
proof -
  have scope: "decideScope f = Some d \<Longrightarrow> e \<in> set (d_Events d) \<Longrightarrow> ev_Kind e \<noteq> EventMove" for d
    by (auto simp: decideScope_def ignored_def Let_def split: if_splits)
  have wall: "ev_Kind (wallEvent fmt f) = EventWall" by (simp add: wallEvent_def Let_def split_beta)
  have drift: "e' \<in> set (driftEvents f) \<Longrightarrow> ev_Kind e' = EventConfigDrift" for e'
    by (auto simp: driftEvents_def Let_def split: if_splits)
  have block: "(k, r, e') \<in> set (blockers fmt f) \<Longrightarrow> ev_Kind e' \<noteq> EventMove" for k r e'
    by (auto simp: blockers_def draftBlockers_def blockIf_def Let_def split: if_splits)
  show ?thesis
  proof (cases "decideScope f")
    case None
    show ?thesis
    proof (cases "blockers fmt f")
      case Nil
      with None assms show ?thesis
        by (auto simp: Decide_def decideCandidates_def moveDecision_def Let_def split_beta wall
            split: if_splits dest: drift)
    next
      case (Cons b bs)
      have no: "ev_Kind (snd (snd x)) \<noteq> EventMove" if "x \<in> set (b # bs)" for x
        using block that unfolding Cons by (metis prod.collapse)
      have "set (d_Events (Decide fmt f)) \<subseteq>
          insert (wallEvent fmt f) ((snd \<circ> snd) ` set (b # bs) \<union> set (driftEvents f))"
        using None Cons by (auto simp: Decide_def Let_def split_beta)
      with assms(1) have "e = wallEvent fmt f \<or> (\<exists>x\<in>set (b # bs). e = snd (snd x)) \<or> e \<in> set (driftEvents f)"
        by (auto dest!: subsetD)
      then show ?thesis using assms(2) wall drift [of e] by (elim disjE bexE) (simp_all add: no)
    qed
  next
    case (Some d)
    with scope [OF Some] assms show ?thesis by (simp add: Decide_def)
  qed
qed

lemma candidates_names: "map af_Name (fst (candidatesFacts d g ns occ snap srcDir names en)) = names"
  by (induction names arbitrary: en) (simp_all add: Let_def split_beta candidateFacts_def)

lemma factsFor_names: "map af_Name (f_Accounts (fst (factsFor d g ns occ snap en))) = rc_LimitAccountCandidates (g_cfg g)"
  unfolding factsFor_def Let_def split_beta by (simp add: candidates_names)

lemma factsFor_blockers:
  fixes d g ns occ snap en
  defines "f \<equiv> fst (factsFor d g ns occ snap en)"
  shows "sf_Captured (f_Session f) = freshCapture (g_in g) (dp_Now d)"
    "sf_PendingOp (f_Session f) = in_PendingOp (g_in g)" "sf_Attached (f_Session f) = in_Attached (g_in g)"
    "sf_VSCodeTab (f_Session f) = in_VSCodeTab (g_in g)"
  unfolding f_def factsFor_def Let_def split_beta by simp_all

lemma sessionFacts_origin:
  assumes "fst (sessionFacts d occ snap g en) = Some f"
  shows "outOfScope g \<and> f = bareFacts d g snap \<or>
    \<not> outOfScope g \<and> (\<exists>ns en'. f = fst (factsFor d g ns occ snap en'))"
  using assms unfolding sessionFacts_def Let_def split_beta by (auto split: if_splits)

lemma verdict_origin:
  assumes "(g, Some f) \<in> set (fst (verdicts d occ snap gs en))"
  shows "outOfScope g \<and> f = bareFacts d g snap \<or>
    \<not> outOfScope g \<and> (\<exists>ns en'. f = fst (factsFor d g ns occ snap en'))"
  using assms
proof (induction gs arbitrary: en)
  case (Cons h gs)
  then consider "g = h" "fst (sessionFacts d occ snap g en) = Some f"
    | "(g, Some f) \<in> set (fst (verdicts d occ snap gs (snd (sessionFacts d occ snap h en))))"
    by (auto simp: Let_def)
  then show ?case by cases (use sessionFacts_origin Cons.IH in blast)+
qed simp

lemma resolveConfigs_gov:
  assumes "g \<in> set (fst (resolveConfigs d ss resolved fl reads))"
  shows "g_in g \<in> set ss \<and> \<not> in_Persisted (g_in g) \<and> hc_Mode (g_hc g) = ''shadow''"
  using assms
proof (induction ss arbitrary: resolved fl reads)
  case (Cons i ss)
  then show ?case by (fastforce simp: Let_def split_beta split: if_splits option.splits)
qed simp

lemma sessionPass_rows_origin:
  assumes "r \<in> set (ps_rows (sessionPass d occ snap specOf g ps))"
  shows "r \<in> set (ps_rows ps) \<or>
    (\<exists>f e. fst (sessionFacts d occ snap g (ps_evidence ps)) = Some f \<and>
       e \<in> set (d_Events (Decide (dp_fmt d) f)) \<and> r = sessionRow d (g_in g) e)"
proof (cases "fst (sessionFacts d occ snap g (ps_evidence ps))")
  case None
  with assms show ?thesis by (simp add: sessionPass_none [OF None])
next
  case (Some f)
  with assms show ?thesis
    by (auto simp: sessionPass_some [OF Some] edgeFilter.filt_events filterStep_def split: if_splits)
qed

lemma fold_rows_origin:
  assumes "r \<in> set (ps_rows (fold (sessionPass d occ snap specOf) gs ps))"
  shows "r \<in> set (ps_rows ps) \<or>
    (\<exists>g f e. (g, Some f) \<in> set (fst (verdicts d occ snap gs (ps_evidence ps))) \<and> g \<in> set gs \<and>
       e \<in> set (d_Events (Decide (dp_fmt d) f)) \<and> r = sessionRow d (g_in g) e)"
  using assms
proof (induction gs arbitrary: ps)
  case (Cons g gs)
  let ?ps = "sessionPass d occ snap specOf g ps"
  from Cons.IH [of ?ps] Cons.prems consider
      "r \<in> set (ps_rows ?ps)"
    | h f e where "(h, Some f) \<in> set (fst (verdicts d occ snap gs (ps_evidence ?ps)))" "h \<in> set gs"
        "e \<in> set (d_Events (Decide (dp_fmt d) f))" "r = sessionRow d (g_in h) e"
    by auto
  then show ?case
  proof cases
    case 1
    from sessionPass_rows_origin [OF this] show ?thesis
    proof
      assume "\<exists>f e. fst (sessionFacts d occ snap g (ps_evidence ps)) = Some f \<and>
        e \<in> set (d_Events (Decide (dp_fmt d) f)) \<and> r = sessionRow d (g_in g) e"
      then obtain f e where "fst (sessionFacts d occ snap g (ps_evidence ps)) = Some f"
        and e: "e \<in> set (d_Events (Decide (dp_fmt d) f))" "r = sessionRow d (g_in g) e" by blast
      then have "(g, Some f) \<in> set (fst (verdicts d occ snap (g # gs) (ps_evidence ps)))"
        by (simp add: Let_def)
      with e show ?thesis by (intro disjI2 exI conjI) auto
    qed simp
  next
    case 2
    then show ?thesis by (auto simp: Let_def sessionPass_evidence)
  qed
qed simp

lemma tick_row_origin:
  assumes "tickSnap d sessions = Some snap" "r \<in> set (tk_rows (Tick d sessions edges))"
  shows "er_Kind r = EventHalted \<or>
    (\<exists>g f e. (g, Some f) \<in> set (tickVerdicts d sessions snap) \<and> g \<in> set (tickGov d sessions) \<and>
       e \<in> set (d_Events (Decide (dp_fmt d) f)) \<and> r = sessionRow d (g_in g) e)"
proof -
  have halt: "er_Kind (moverRow d e) = EventHalted" if "e \<in> set (haltEvents d snap t)" for e t
    using that by (auto simp: haltEvents_def haltEvent_def moverRow_def filterStep_def split: option.splits if_splits)
  have "r \<in> set (ps_rows (tickPass d sessions edges snap))" using assms by (simp add: Tick_pass)
  note this [unfolded tickPass_def runPass_def]
  from fold_rows_origin [OF this, unfolded announceHalt_fields] show ?thesis
  proof
    assume "r \<in> set (ps_rows \<lparr>ps_pending = tickEdges d sessions edges, ps_rows = [], ps_reportRows = [],
        ps_evidence = \<lparr>en_log = tickReads d sessions @ [ReadState], en_namespaces = [], en_readings = []\<rparr>\<rparr> @
      map (moverRow d) (haltEvents d snap (ps_pending \<lparr>ps_pending = tickEdges d sessions edges, ps_rows = [],
        ps_reportRows = [],
        ps_evidence = \<lparr>en_log = tickReads d sessions @ [ReadState], en_namespaces = [], en_readings = []\<rparr>\<rparr>)))"
    then show ?thesis using halt by auto
  qed (simp add: tickVerdicts_def)
qed

lemma recipientKeys_gov:
  "k \<in> set (recipientKeys sessions (reportSpecs gov)) \<longleftrightarrow>
     (\<exists>g\<in>set gov. hc_ReportTo (g_hc g) \<noteq> [] \<and>
        (\<exists>r. resolveRecipient (hc_ReportTo (g_hc g)) sessions = Some (r, True) \<and> k = in_Key r))"
  unfolding set_recipientKeys by (simp only: set_reportSpecs Bex_def) blast

lemma deliverReports_iff:
  assumes "wf_gomap rr" "fst ` set rr \<subseteq> set specs"
  shows "x \<in> set (deliverReports sessions specs rr) \<longleftrightarrow>
    rp_spec x \<in> set specs \<and> resolveRecipient (rp_spec x) sessions = Some (rp_recipient x, True) \<and>
    rp_rows x = filter (\<lambda>row. er_SessionKey row \<notin> set (recipientKeys sessions specs)) (rowsOf rr (rp_spec x)) \<and>
    rp_rows x \<noteq> []" (is "?L \<longleftrightarrow> ?R")
proof
  assume ?L
  then obtain spec rows r where "(spec, rows) \<in> set rr" "resolveRecipient spec sessions = Some (r, True)"
    "filter (\<lambda>row. er_SessionKey row \<notin> set (recipientKeys sessions specs)) rows \<noteq> []"
    "x = \<lparr>rp_spec = spec, rp_recipient = r,
      rp_rows = filter (\<lambda>row. er_SessionKey row \<notin> set (recipientKeys sessions specs)) rows\<rparr>"
    unfolding set_deliverReports by blast
  moreover from this(1) have "rowsOf rr spec = rows" "spec \<in> set specs"
    using wf_rowsOf [OF assms(1)] assms(2) by auto
  ultimately show ?R by simp
next
  assume R: ?R
  then have "rowsOf rr (rp_spec x) \<noteq> []" by auto
  then have "(rp_spec x, rowsOf rr (rp_spec x)) \<in> set rr" by (rule rowsOf_in)
  moreover have "x = \<lparr>rp_spec = rp_spec x, rp_recipient = rp_recipient x,
      rp_rows = filter (\<lambda>row. er_SessionKey row \<notin> set (recipientKeys sessions specs)) (rowsOf rr (rp_spec x))\<rparr>"
    using R by (intro report.equality) simp_all
  ultimately show ?L using R unfolding set_deliverReports by metis
qed

end
