(* ===== verification/Engine_Props.thy ===== *)
theory Engine_Props
  imports Engine_Lemmas
begin

text \<open>
  The properties of the shadow engine. The sample pass governs two sessions of one project: \<^verbatim>\<open>w\<close>, parked on
  an account whose own usage stands at 98 percent, and \<^verbatim>\<open>o\<close>, an idle session titled \<^verbatim>\<open>obs\<close> that the
  project's \<^verbatim>\<open>report_to\<close> names.
\<close>

definition sampleUsage :: "string \<Rightarrow> ReadingFacts" where
  "sampleUsage dir =
     \<lparr>rf_Status = ReadingObserved,
      rf_Windows = [\<lparr>wf_Name = ''5h'', wf_UsedPercent = (if dir = ''/h/work'' then 98 else 20), wf_ResetsAt = Some 900\<rparr>],
      rf_RecordedAt = 90, rf_Complete = True\<rparr>"

definition sampleConfig :: ResolvedConfig where
  "sampleConfig =
     \<lparr>rc_AccountHandoff = defaultAccountHandoffConfig\<lparr>hc_Mode := ''shadow'', hc_ReportTo := ''obs''\<rparr>,
      rc_LimitAccountCandidates = [''spare'']\<rparr>"

definition sampleInput :: "string \<Rightarrow> string \<Rightarrow> string \<Rightarrow> bool \<Rightarrow> SessionInput" where
  "sampleInput key title account parked =
     \<lparr>in_Key = key, in_Title = title, in_RepoID = ''r'', in_RepoRoot = ''/r'', in_Agent = ''codex'',
      in_Account = account, in_Auto = True, in_Started = True, in_Live = True, in_Working = False,
      in_Parked = parked, in_Attached = False, in_VSCodeTab = False, in_PendingOp = False,
      in_SwapCapable = True, in_CarryPossible = True, in_HomeDir = ''/h/'' @ account, in_Program = ''codex'',
      in_LimitAccount = [], in_WallObservedAt = 50, in_Captured = True, in_CapturedAt = 99,
      in_Content = [], in_Persisted = False\<rparr>"

definition sampleSnap :: "Halt option \<Rightarrow> Snapshot" where
  "sampleSnap h = \<lparr>sn_State = \<lparr>st_SchemaVersion = 1, st_CarriedPrefixes = [], st_Halted = h\<rparr>, sn_Rails = emptyRails\<rparr>"

definition sampleDeps :: "bool \<Rightarrow> Deps" where
  "sampleDeps wr =
     \<lparr>dp_Now = 100, dp_ResolveConfig = (\<lambda>_ _. Some (Some sampleConfig)),
      dp_LoadState = (\<lambda>_. Some (sampleSnap None)), dp_Registered = (\<lambda>_ _. Some [''work'', ''spare'']),
      dp_LimitedAccounts = (\<lambda>_ _. Some []), dp_AccountDir = (\<lambda>_ _ name. Some (''/h/'' @ name)),
      dp_ReadUsage = (\<lambda>_ dir _. sampleUsage dir), dp_DriftKey = (\<lambda>_ _ _ _ _. ([], False)),
      dp_DetectWall = (\<lambda>_ _. False), dp_ComposerDraft = (\<lambda>_. (False, True)),
      dp_HasPruneRails = True, dp_HasDeliverReport = True, dp_WriteRows = (\<lambda>_. wr),
      dp_ResetGrace = 5, dp_ProofMargin = 10, dp_fmt = \<lparr>fmtFloat = (\<lambda>_. ''p''), fmtTime = (\<lambda>_. ''t'')\<rparr>\<rparr>"

definition sampleSessions :: "SessionInput list" where
  "sampleSessions = [sampleInput ''w'' ''task'' ''work'' True, sampleInput ''o'' ''obs'' ''spare'' False]"

text \<open>The engine's early scope check agrees with the decision core: it skips the evidence of exactly the
  sessions the core's own scope phase turns away, and the decision on the evidence-free facts is the
  one the full facts would have given.\<close>

theorem engine_scope_lockstep:
  "(outOfScope g \<longleftrightarrow> decideScope (fst (factsFor d g ns occ snap en)) \<noteq> None) \<and>
   Decide fmt (if outOfScope g then bareFacts d g snap else fst (factsFor d g ns occ snap en)) =
     Decide fmt (fst (factsFor d g ns occ snap en))"
proof (cases "outOfScope g")
  case True
  then obtain v where "decideScope (bareFacts d g snap) = Some v" by (auto simp: outOfScope_bare [of g d snap])
  with True show ?thesis
    using Decide_scope_only [of "bareFacts d g snap" v "fst (factsFor d g ns occ snap en)" fmt]
    by (simp add: factsFor_scope)
next
  case False
  then show ?thesis by (simp add: factsFor_scope outOfScope_bare [of g d snap])
qed

text \<open>C9. In a pass over sessions with distinct keys, a governed session whose evidence was readable is
  announced exactly when its verdict differs from the one its edge holds or the half-hour heartbeat is
  due, with all of its events, whatever the other sessions do. The edge moves to the new verdict when
  the log accepted the rows and stays where it was when the write failed, so that the rows are tried
  again.\<close>

theorem tick_announces:
  assumes "tickSnap d sessions = Some snap"
    and "distinct (map gkey (tickGov d sessions))" "moverRowKey \<notin> gkey ` set (tickGov d sessions)"
    and "(g, Some f) \<in> set (tickVerdicts d sessions snap)"
  shows "let res = Tick d sessions edges; events = d_Events (Decide (dp_fmt d) f);
             prev = map_of (et_last edges) (gkey g); sig = eventSignature events;
             same = standing (dp_Now d) sig prev
         in filter (\<lambda>r. er_SessionKey r = gkey g) (tk_rows res) =
              (if same then [] else map (sessionRow d (g_in g)) events) \<and>
            map_of (et_last (tk_edges res)) (gkey g) =
              (if same \<or> tk_error res \<noteq> None then prev else Some \<lparr>es_sig = sig, es_at = dp_Now d\<rparr>)"
proof -
  have gov: "gkey g \<in> gkey ` set (tickGov d sessions)" using verdict_gov [OF assms(4)] by (rule imageI)
  show ?thesis
    unfolding Let_def Tick_pass(1,4) [OF assms(1)] tick_session_rows [OF assms(2,3,4)]
    using gov by (simp add: tick_session_edge [OF assms(2,3,4)] tickEdges_look filterStep_def)
qed

theorem tick_announces_witness:
  "map er_Kind (filter (\<lambda>r. er_SessionKey r = ''w'') (tk_rows (Tick (sampleDeps False) sampleSessions NewEdgeTracker))) =
     [EventWall, EventMove] \<and>
   map_of (et_last (tk_edges (Tick (sampleDeps False) sampleSessions NewEdgeTracker))) ''w'' = None"
proof -
  let ?d = "sampleDeps False"
  let ?g = "\<lparr>g_in = sampleInput ''w'' ''task'' ''work'' True, g_cfg = sampleConfig\<rparr>"
  let ?f = "the (snd (hd (tickVerdicts ?d sampleSessions (sampleSnap None))))"
  have "tickSnap ?d sampleSessions = Some (sampleSnap None)"
    "distinct (map gkey (tickGov ?d sampleSessions))" "moverRowKey \<notin> gkey ` set (tickGov ?d sampleSessions)"
    "(?g, Some ?f) \<in> set (tickVerdicts ?d sampleSessions (sampleSnap None))" by code_simp+
  note app = tick_announces [OF this, of NewEdgeTracker]
  have "map ev_Kind (d_Events (Decide (dp_fmt ?d) ?f)) = [EventWall, EventMove]"
    "tk_error (Tick ?d sampleSessions NewEdgeTracker) \<noteq> None" "gkey ?g = ''w''" by code_simp+
  with app show ?thesis by (simp add: Let_def NewEdgeTracker_def sessionRow_def comp_def standing_def)
qed

text \<open>C8. An edge is kept only with the rows that announced it: through every sequence of ticks from a
  fresh engine, with failed state loads and failed writes anywhere in it, each verdict the tracker
  holds for a key was released as rows of that key, stamped with the edge's instant, in one batch the
  log accepted. A failed write therefore never suppresses a retry.\<close>

theorem edges_durable:
  assumes "w = run_ops engineStep \<lparr>ew_edges = NewEdgeTracker, ew_written = []\<rparr> ticks"
    and "map_of (et_last (ew_edges w)) k = Some e"
  shows "\<exists>rows\<in>set (ew_written w). \<exists>ann. sublist ann rows \<and>
    (\<forall>r\<in>set ann. er_SessionKey r = k \<and> er_TS r = es_at e) \<and> eventSignature (map rowEvent ann) = es_sig e"
proof -
  have "engineInv \<lparr>ew_edges = NewEdgeTracker, ew_written = []\<rparr>" by (simp add: engineInv_def NewEdgeTracker_def)
  from engineTicks.inv_run [OF this, of ticks] assms show ?thesis by (auto simp: engineInv_def announces_def)
qed

theorem edges_durable_witness:
  "\<exists>rows\<in>set (ew_written (run_ops engineStep \<lparr>ew_edges = NewEdgeTracker, ew_written = []\<rparr>
      [(sampleDeps False, sampleSessions), (sampleDeps True, sampleSessions)])).
    \<exists>ann. sublist ann rows \<and> ann \<noteq> []"
proof -
  let ?w = "run_ops engineStep \<lparr>ew_edges = NewEdgeTracker, ew_written = []\<rparr>
      [(sampleDeps False, sampleSessions), (sampleDeps True, sampleSessions)]"
  let ?e = "the (map_of (et_last (ew_edges ?w)) ''w'')"
  have "map_of (et_last (ew_edges ?w)) ''w'' = Some ?e" and sig: "es_sig ?e \<noteq> []" by code_simp+
  from edges_durable [OF refl this(1)] sig show ?thesis by (fastforce simp: eventSignature_def)
qed

text \<open>C7. Reports never feed back. With distinct session keys, the reports of a tick are exactly these: for
  each configured \<^verbatim>\<open>report_to\<close> value that names one session, and a live one, the rows the log accepted
  in this tick that are the mover's own or are about a session configured with that value, less every
  row about any session that some configured value resolves to. At most one report goes out per value,
  and none when a load or the write failed.\<close>

theorem reports_never_echo:
  assumes "distinct (map gkey (tickGov d sessions))" "moverRowKey \<notin> gkey ` set (tickGov d sessions)"
  shows "let res = Tick d sessions edges; gov = tickGov d sessions;
             payload = (\<lambda>spec. filter (\<lambda>row.
               (er_SessionKey row = moverRowKey \<or>
                (\<exists>g\<in>set gov. gkey g = er_SessionKey row \<and> hc_ReportTo (g_hc g) = spec)) \<and>
               \<not> (\<exists>g\<in>set gov. hc_ReportTo (g_hc g) \<noteq> [] \<and>
                  (\<exists>r. resolveRecipient (hc_ReportTo (g_hc g)) sessions = Some (r, True) \<and>
                     er_SessionKey row = in_Key r))) (tk_rows res))
         in distinct (map rp_spec (tk_reports res)) \<and>
            (rep \<in> set (tk_reports res) \<longleftrightarrow>
               tk_error res = None \<and> dp_HasDeliverReport d \<and>
               rp_spec rep \<noteq> [] \<and> (\<exists>g\<in>set gov. hc_ReportTo (g_hc g) = rp_spec rep) \<and>
               resolveRecipient (rp_spec rep) sessions = Some (rp_recipient rep, True) \<and>
               rp_rows rep = payload (rp_spec rep) \<and> rp_rows rep \<noteq> [])"
proof (cases "tickSnap d sessions")
  case None
  then show ?thesis
    by (auto simp: Let_def Tick_no_pass [OF None] tickSnap_def)
next
  case (Some snap)
  let ?res = "Tick d sessions edges" and ?gov = "tickGov d sessions"
  let ?ps = "tickPass d sessions edges snap"
  note wf = tickPass_report_wf [of d sessions edges snap] and keys = tickPass_report_keys [OF assms(1), of edges snap]
  have rows: "filter (\<lambda>row. er_SessionKey row \<notin> set (recipientKeys sessions (reportSpecs ?gov)))
        (rowsOf (ps_reportRows ?ps) spec) =
      filter (\<lambda>row. (er_SessionKey row = moverRowKey \<or>
          (\<exists>g\<in>set ?gov. gkey g = er_SessionKey row \<and> hc_ReportTo (g_hc g) = spec)) \<and>
        \<not> (\<exists>g\<in>set ?gov. hc_ReportTo (g_hc g) \<noteq> [] \<and>
          (\<exists>r. resolveRecipient (hc_ReportTo (g_hc g)) sessions = Some (r, True) \<and>
             er_SessionKey row = in_Key r))) (ps_rows ?ps)"
    if "spec \<in> set (reportSpecs ?gov)" for spec
    unfolding tickPass_reportRows [OF assms that] filter_filter recipientKeys_gov
    by (rule arg_cong [where f = "\<lambda>P. filter P _"]) (simp add: fun_eq_iff conj_commute)
  have "rep \<in> set (deliverReports sessions (reportSpecs ?gov) (ps_reportRows ?ps)) \<longleftrightarrow>
      rp_spec rep \<in> set (reportSpecs ?gov) \<and>
      resolveRecipient (rp_spec rep) sessions = Some (rp_recipient rep, True) \<and>
      rp_rows rep = filter (\<lambda>row. (er_SessionKey row = moverRowKey \<or>
          (\<exists>g\<in>set ?gov. gkey g = er_SessionKey row \<and> hc_ReportTo (g_hc g) = rp_spec rep)) \<and>
        \<not> (\<exists>g\<in>set ?gov. hc_ReportTo (g_hc g) \<noteq> [] \<and>
          (\<exists>r. resolveRecipient (hc_ReportTo (g_hc g)) sessions = Some (r, True) \<and>
             er_SessionKey row = in_Key r))) (ps_rows ?ps) \<and> rp_rows rep \<noteq> []"
    unfolding deliverReports_iff [OF wf keys] by (intro conj_cong refl) (simp only: rows)
  then show ?thesis
    unfolding Let_def Tick_pass(1,5) [OF Some] set_reportSpecs
    using deliverReports_distinct [OF wf] by (cases "tk_error ?res = None \<and> dp_HasDeliverReport d") simp_all
qed

theorem reports_never_echo_witness:
  "let rep = hd (tk_reports (Tick (sampleDeps True) sampleSessions NewEdgeTracker)) in
     rp_spec rep = ''obs'' \<and> resolveRecipient ''obs'' sampleSessions = Some (rp_recipient rep, True) \<and>
     rp_rows rep \<noteq> []"
proof -
  let ?rep = "hd (tk_reports (Tick (sampleDeps True) sampleSessions NewEdgeTracker))"
  have "distinct (map gkey (tickGov (sampleDeps True) sampleSessions))"
    "moverRowKey \<notin> gkey ` set (tickGov (sampleDeps True) sampleSessions)" by code_simp+
  note app = reports_never_echo [OF this, of NewEdgeTracker ?rep]
  have "?rep \<in> set (tk_reports (Tick (sampleDeps True) sampleSessions NewEdgeTracker))" "rp_spec ?rep = ''obs''"
    by code_simp+
  with app show ?thesis unfolding Let_def by metis
qed

text \<open>A tick reads only the evidence it must: a registry and a limit set once per agent, an account home's
  usage at most once, never a home under quarantine, always with the snapshot's carried prefixes, and
  nothing at all for a session the configuration leaves out. Without a session that opted in, or when
  the state cannot be loaded, it reads configurations and at most the state.\<close>

theorem evidence_discipline:
  "let reads = tk_log (Tick d sessions edges); gov = tickGov d sessions in
   distinct (List.map_filter usageDir reads) \<and> distinct (List.map_filter registryAgent reads) \<and>
   (ReadState \<in> set reads \<longrightarrow> gov \<noteq> []) \<and>
   (\<forall>dir carried. ReadUsageOf dir carried \<in> set reads \<longrightarrow>
      (\<exists>snap. tickSnap d sessions = Some snap \<and> \<not> AccountUntrusted snap dir \<and>
         carried = EffectiveCarriedPrefixes snap \<and> ''codex'' \<in> scopeAgents gov)) \<and>
   (\<forall>a. ReadRegistered a \<in> set reads \<or> ReadLimited a \<in> set reads \<or> (\<exists>n. ReadAccountDir a n \<in> set reads) \<longrightarrow>
      tickSnap d sessions \<noteq> None \<and> a \<in> scopeAgents gov)"
proof -
  have reads: "set (tickReads d sessions) \<subseteq> range ReadConfig"
    using resolveConfigs_reads [of d sessions "[]" False "[]"] by (simp add: tickReads_def)
  have none: "List.map_filter usageDir xs = []" "List.map_filter registryAgent xs = []"
    if "set xs \<subseteq> range ReadConfig \<union> {ReadState}" for xs
    using that by (intro map_filter_none; force)+
  show ?thesis
  proof (cases "tickSnap d sessions")
    case None
    let ?log = "tk_log (Tick d sessions edges)"
    have "set ?log \<subseteq> range ReadConfig \<union> {ReadState}" and "ReadState \<in> set ?log \<Longrightarrow> tickGov d sessions \<noteq> []"
      using reads by (auto simp: Tick_no_pass [OF None] split: if_splits)
    with none [of ?log] show ?thesis by (auto simp: Let_def)
  next
    case (Some snap)
    have gov: "tickGov d sessions \<noteq> []" using Some by (auto simp: tickSnap_def split: if_splits)
    have "set (tickReads d sessions @ [ReadState]) \<subseteq> range ReadConfig \<union> {ReadState}" using reads by auto
    from runPass_evInv [OF this, of snap "tickGov d sessions" d sessions "tickEdges d sessions edges"]
    have inv: "evInv snap (scopeAgents (tickGov d sessions)) (ps_evidence (tickPass d sessions edges snap))"
      by (simp add: tickPass_def)
    then have ok: "readOk snap (scopeAgents (tickGov d sessions)) r" if "r \<in> set (tk_log (Tick d sessions edges))" for r
      using that by (simp add: Tick_pass(2) [OF Some] evInv_def)
    have "distinct (List.map_filter usageDir (tk_log (Tick d sessions edges)))"
      "distinct (List.map_filter registryAgent (tk_log (Tick d sessions edges)))"
      using inv by (simp_all add: Tick_pass(2) [OF Some] evInv_def)
    with gov Some show ?thesis by (auto simp: Let_def dest: ok)
  qed
qed

theorem evidence_discipline_witness:
  "(\<exists>snap. tickSnap (sampleDeps True) sampleSessions = Some snap \<and> \<not> AccountUntrusted snap ''/h/work'') \<and>
   ''codex'' \<in> scopeAgents (tickGov (sampleDeps True) sampleSessions)"
proof -
  have "ReadUsageOf ''/h/work'' [] \<in> set (tk_log (Tick (sampleDeps True) sampleSessions NewEdgeTracker))" by code_simp
  with evidence_discipline [of "sampleDeps True" sampleSessions NewEdgeTracker] show ?thesis
    unfolding Let_def by blast
qed

text \<open>C6. A logged move is sound from end to end: it is about a session of the fed list whose project runs the
  shadow mode and that is in scope, while the rails hold no halt; the capture was fresh, the session
  neither attached nor in an operation, its moves in the window below the cap, and the target is
  another account among the project's configured candidates.\<close>

theorem shadow_move_sound:
  assumes "r \<in> set (tk_rows (Tick d sessions edges))" "er_Kind r = EventMove"
  shows "\<exists>snap g. tickSnap d sessions = Some snap \<and> st_Halted (sn_State snap) = None \<and>
    g \<in> set (tickGov d sessions) \<and> g_in g \<in> set sessions \<and> \<not> in_Persisted (g_in g) \<and>
    hc_Mode (g_hc g) = ''shadow'' \<and> \<not> outOfScope g \<and> er_SessionKey r = in_Key (g_in g) \<and>
    freshCapture (g_in g) (dp_Now d) \<and> \<not> in_Attached (g_in g) \<and> \<not> in_PendingOp (g_in g) \<and>
    \<not> in_VSCodeTab (g_in g) \<and> rl_MovesInWindow (railsFacts g snap (dp_Now d)) < hc_MaxMoves (g_hc g) \<and>
    er_To r \<in> set (rc_LimitAccountCandidates (g_cfg g)) \<and> er_To r \<noteq> in_Account (g_in g)"
proof -
  obtain snap where snap: "tickSnap d sessions = Some snap"
    using assms(1) Tick_no_pass(1) [of d sessions edges] by (cases "tickSnap d sessions") auto
  with tick_row_origin [OF snap assms(1)] assms(2) obtain g f e where
    v: "(g, Some f) \<in> set (tickVerdicts d sessions snap)" and g: "g \<in> set (tickGov d sessions)" and
    e: "e \<in> set (d_Events (Decide (dp_fmt d) f))" and r: "r = sessionRow d (g_in g) e" by auto
  have "ev_Kind e = EventMove" using assms(2) r by (simp add: sessionRow_def)
  from decide_move_event [OF e this] have move: "d_Kind (Decide (dp_fmt d) f) = KindMove"
    and to: "er_To r = d_To (Decide (dp_fmt d) f)" using r by (simp_all add: sessionRow_def)
  note m = move [unfolded decide_kind_move]
  have "decideScope f = None" using m by (simp add: governed_scope)
  with verdict_origin [OF v [unfolded tickVerdicts_def]] obtain ns en' where
    scope: "\<not> outOfScope g" and f: "f = fst (factsFor d g ns (occupancy sessions) snap en')"
    by (auto simp: outOfScope_bare [of g d snap])
  have unb: "freshCapture (g_in g) (dp_Now d)" "\<not> in_Attached (g_in g)" "\<not> in_PendingOp (g_in g)"
    "\<not> in_VSCodeTab (g_in g)" "\<not> rl_Halted (railsFacts g snap (dp_Now d))"
    "rl_MovesInWindow (railsFacts g snap (dp_Now d)) < hc_MaxMoves (g_hc g)"
    using m unfolding f unblocked_def Let_def factsFor_blockers factsFor_fields by simp_all
  note shape = decide_move_shape [OF move, unfolded Let_def]
  then have "set (d_Candidates (Decide (dp_fmt d) f)) \<subseteq> set (orderCandidates (eligibleCandidates f) (f_Config f))"
    by (simp add: comfortableNames_def split: if_splits)
  then have "d_To (Decide (dp_fmt d) f) \<in> set (orderCandidates (eligibleCandidates f) (f_Config f))"
    using shape by (metis hd_in_set subsetD)
  then obtain a where "a \<in> set (f_Accounts f)" "eligibleAccount f a" "af_Name a = er_To r"
    unfolding ordered_names to by auto
  then have "er_To r \<in> set (map af_Name (f_Accounts f))" "er_To r \<noteq> sf_Account (f_Session f)"
    by (force simp: eligibleAccount_def)+
  then have target: "er_To r \<in> set (rc_LimitAccountCandidates (g_cfg g))" "er_To r \<noteq> in_Account (g_in g)"
    unfolding f factsFor_names factsFor_fields by simp_all
  have "st_Halted (sn_State snap) = None" using unb(5) by (simp add: railsFacts_def Let_def)
  moreover note resolveConfigs_gov [OF g [unfolded tickGov_def]]
  moreover have "er_SessionKey r = in_Key (g_in g)" by (simp add: r)
  ultimately show ?thesis using snap g scope unb target by blast
qed

theorem shadow_move_sound_witness:
  "\<exists>snap g. tickSnap (sampleDeps True) sampleSessions = Some snap \<and> \<not> outOfScope g \<and>
     ''spare'' \<in> set (rc_LimitAccountCandidates (g_cfg g))"
proof -
  let ?r = "last (tk_rows (Tick (sampleDeps True) sampleSessions NewEdgeTracker))"
  have "?r \<in> set (tk_rows (Tick (sampleDeps True) sampleSessions NewEdgeTracker))" "er_Kind ?r = EventMove"
    "er_To ?r = ''spare''" by code_simp+
  from shadow_move_sound [OF this(1,2)] this(3) show ?thesis by metis
qed

end
