(* ===== verification/Event_Log_Props.thy ===== *)
theory Event_Log_Props
  imports Event_Log Engine_Props
begin

text \<open>
  The event log keeps whole rows: what an append leaves of a day file in full lines is what was there
  and a prefix of the new rows, whatever fault it met, and everything when it succeeds.
\<close>

abbreviation nl :: char where
  "nl \<equiv> CHR 0x0A"

subsection \<open>Whole lines\<close>

definition fullLines :: "string \<Rightarrow> string list" where
  "fullLines s = butlast (splitOn nl s)"

lemma wholeLines_split: "\<exists>rest. s = wholeLines s @ rest \<and> nl \<notin> set rest"
proof (intro exI conjI)
  let ?t = "rev (takeWhile (\<lambda>c. c \<noteq> nl) (rev s))"
  show "s = wholeLines s @ ?t"
    unfolding wholeLines_def by (metis rev_append rev_rev_ident takeWhile_dropWhile_id)
  show "nl \<notin> set ?t" by (auto dest: set_takeWhileD)
qed

lemma wholeLines_end: "wholeLines s = [] \<or> last (wholeLines s) = nl"
proof (cases "dropWhile (\<lambda>c. c \<noteq> nl) (rev s)")
  case (Cons c cs)
  have "c = nl" using hd_dropWhile [of "\<lambda>c. c \<noteq> nl" "rev s"] Cons by simp
  with Cons show ?thesis by (simp add: wholeLines_def)
qed (simp add: wholeLines_def)

lemma wholeLines_unique:
  assumes "s = a @ b" "nl \<notin> set b" "a = [] \<or> last a = nl"
  shows "wholeLines s = a"
proof -
  have "dropWhile (\<lambda>c. c \<noteq> nl) (rev b @ rev a) = dropWhile (\<lambda>c. c \<noteq> nl) (rev a)"
    using assms(2) by (intro dropWhile_append2) auto
  moreover have "dropWhile (\<lambda>c. c \<noteq> nl) (rev a) = rev a"
    using assms(3) by (cases a rule: rev_cases) auto
  ultimately show ?thesis by (simp add: wholeLines_def assms(1))
qed

lemma repair_whole:
  assumes "repairEventTail s = Some t"
  shows "t = wholeLines s"
proof (cases "s = []")
  case True
  with assms show ?thesis by (simp add: repairEventTail_def wholeLines_def)
next
  case False
  define n where "n = min (length s) eventTailWindow"
  define buf where "buf = drop (length s - n) s"
  let ?pre = "take (length s - n) s"
  have n: "0 < n" "n \<le> length s" using False by (simp_all add: n_def eventTailWindow_def)
  obtain rest where rest: "buf = wholeLines buf @ rest" "nl \<notin> set rest" using wholeLines_split by blast
  have split: "s = (?pre @ wholeLines buf) @ rest" using rest(1) unfolding buf_def by (metis append.assoc append_take_drop_id)
  have eq: "repairEventTail s =
      (if last buf = nl then Some s else if nl \<in> set buf then Some (take (length s - n + length (wholeLines buf)) s)
       else if n = length s then Some [] else None)"
    using False by (simp only: repairEventTail_def Let_def if_False n_def buf_def)
  consider "last buf = nl" "t = s" | "nl \<in> set buf" "t = take (length s - n + length (wholeLines buf)) s"
    | "nl \<notin> set buf" "n = length s" "t = []"
    using assms unfolding eq by (auto split: if_splits)
  then show ?thesis
  proof cases
    case 1
    have "length s - n < length s" using n by simp
    then have "last buf = last s" unfolding buf_def by (rule last_drop)
    with 1 wholeLines_unique [of s s "[]"] show ?thesis by simp
  next
    case 2
    then have "wholeLines buf \<noteq> []" using rest by (metis append_Nil)
    with wholeLines_end [of buf] have "last (?pre @ wholeLines buf) = nl" by simp
    with split rest(2) have "wholeLines s = ?pre @ wholeLines buf" using wholeLines_unique by blast
    moreover have "take (length s - n + length (wholeLines buf)) s = ?pre @ wholeLines buf"
    proof -
      have "length (?pre @ wholeLines buf) = length s - n + length (wholeLines buf)" by simp
      then show ?thesis using split by (metis append_eq_conv_conj)
    qed
    ultimately show ?thesis using 2 by simp
  next
    case 3
    then have "buf = s" by (simp add: buf_def)
    with 3 wholeLines_unique [of s "[]" s] show ?thesis by simp
  qed
qed

lemma fullLines_line: "nl \<notin> set l \<Longrightarrow> fullLines (l @ nl # s) = l # fullLines s"
  by (simp add: fullLines_def splitOn_append)

lemma fullLines_partial: "nl \<notin> set s \<Longrightarrow> fullLines s = []"
  by (simp add: fullLines_def splitOn_nosep)

lemma fullLines_payload:
  "\<forall>l\<in>set ls. nl \<notin> set l \<Longrightarrow> fullLines (payloadOf ls @ s) = ls @ fullLines s"
  by (induction ls) (simp_all add: payloadOf_def fullLines_line)

lemma line_split: "s = [] \<or> nl \<notin> set s \<or> (\<exists>l r. s = l @ nl # r \<and> nl \<notin> set l)"
  by (metis split_list_first)

lemma whole_payload:
  "wholeLines s = s \<Longrightarrow> \<exists>ls. (\<forall>l\<in>set ls. nl \<notin> set l) \<and> s = payloadOf ls"
proof (induction "length s" arbitrary: s rule: less_induct)
  case less
  show ?case
  proof (cases "s = []")
    case True
    then show ?thesis by (intro exI [of _ "[]"]) (simp add: payloadOf_def)
  next
    case False
    with less.prems wholeLines_end [of s] have "last s = nl" by simp
    with False have "nl \<in> set s" by (metis last_in_set)
    then obtain l r where s: "s = l @ nl # r" "nl \<notin> set l" by (metis split_list_first)
    have "r = [] \<or> last r = nl" using \<open>last s = nl\<close> s(1) by (auto split: if_splits)
    then have "wholeLines r = r" using wholeLines_unique [of r r "[]"] by simp
    with less.hyps [of r] s(1) obtain ls where "\<forall>l\<in>set ls. nl \<notin> set l" "r = payloadOf ls" by auto
    with s show ?thesis by (intro exI [of _ "l # ls"]) (simp add: payloadOf_def)
  qed
qed

lemma fullLines_whole: "fullLines (wholeLines s @ t) = fullLines s @ fullLines t"
proof -
  obtain rest where rest: "s = wholeLines s @ rest" "nl \<notin> set rest" using wholeLines_split by blast
  have "wholeLines (wholeLines s) = wholeLines s"
    using wholeLines_unique [of "wholeLines s" "wholeLines s" "[]"] wholeLines_end [of s] by simp
  then obtain ls where ls: "\<forall>l\<in>set ls. nl \<notin> set l" "wholeLines s = payloadOf ls" using whole_payload by metis
  have "fullLines s = ls @ fullLines rest" using fullLines_payload [OF ls(1), of rest] rest(1) ls(2) by metis
  with ls fullLines_payload [OF ls(1), of t] show ?thesis by (simp add: fullLines_partial [OF rest(2)])
qed

lemma fullLines_take:
  assumes "\<forall>l\<in>set ls. nl \<notin> set l"
  shows "\<exists>p. prefix p ls \<and> fullLines (take n (payloadOf ls)) = p"
  using assms
proof (induction ls arbitrary: n)
  case Nil
  show ?case by (simp add: payloadOf_def fullLines_partial)
next
  case (Cons l ls)
  have split: "payloadOf (l # ls) = l @ nl # payloadOf ls" by (simp add: payloadOf_def)
  show ?case
  proof (cases "n \<le> length l")
    case True
    then have "take n (payloadOf (l # ls)) = take n l" by (simp add: split)
    moreover have "nl \<notin> set (take n l)" using Cons.prems by (auto dest: in_set_takeD)
    ultimately show ?thesis by (intro exI [of _ "[]"]) (simp add: fullLines_partial)
  next
    case False
    then obtain k where "n - length l = Suc k" by (cases "n - length l") auto
    then have "take n (payloadOf (l # ls)) = l @ nl # take k (payloadOf ls)" by (simp add: split)
    moreover obtain p where "prefix p ls" "fullLines (take k (payloadOf ls)) = p"
      using Cons.IH [of k] Cons.prems by auto
    ultimately show ?thesis using Cons.prems by (intro exI [of _ "l # p"]) (simp add: fullLines_line)
  qed
qed

subsection \<open>One day file\<close>

definition entryLines :: "dirEntry option \<Rightarrow> string list" where
  "entryLines e = (case e of Some (EntFile s) \<Rightarrow> fullLines s | _ \<Rightarrow> [])"

lemma entryLines_simps [simp]:
  "entryLines None = []" "entryLines (Some EntSymlink) = []" "entryLines (Some (EntFile s)) = fullLines s"
  by (simp_all add: entryLines_def)

lemma fullLines_Nil [simp]: "fullLines [] = []"
  by (simp add: fullLines_def)

lemma appendDay_lines:
  fixes io entry
  assumes "\<forall>l\<in>set ls. nl \<notin> set l"
  defines "r \<equiv> appendDay io (payloadOf ls) entry"
  shows "\<exists>p. prefix p ls \<and> entryLines (snd r) = entryLines entry @ p \<and> (fst r \<longrightarrow> p = ls)"
proof -
  have same: "\<exists>p. prefix p ls \<and> entryLines e = entryLines e @ p \<and> (False \<longrightarrow> p = ls)" for e
    by (intro exI [of _ "[]"]) simp
  let ?s = "case entry of Some (EntFile s) \<Rightarrow> s | _ \<Rightarrow> []"
  show ?thesis
  proof (cases "entry = Some EntSymlink \<or> entry \<noteq> None \<and> length ?s \<ge> eventDayMaxBytes \<or> \<not> ai_open io \<or>
      entry \<noteq> None \<and> \<not> ai_same io")
    case True
    then have "r = (False, entry)" by (auto simp: r_def appendDay_def Let_def)
    with same show ?thesis by simp
  next
    case False
    have lines: "entryLines entry = fullLines ?s"
      using False by (auto simp: entryLines_def split: option.splits dirEntry.splits)
    show ?thesis
    proof (cases "if ai_repair io then repairEventTail ?s else None")
      case None
      with False have "r = (False, Some (EntFile ?s))" by (auto simp: r_def appendDay_def Let_def)
      with lines show ?thesis by (intro exI [of _ "[]"]) simp
    next
      case (Some t)
      then have t: "t = wholeLines ?s" by (auto dest: repair_whole split: if_splits)
      show ?thesis
      proof (cases "ai_short io")
        case None
        with False Some have "r = (ai_close io, Some (EntFile (t @ payloadOf ls)))"
          by (auto simp: r_def appendDay_def Let_def)
        with fullLines_payload [OF assms(1), of "[]"] show ?thesis
          by (intro exI [of _ ls]) (simp add: t lines fullLines_whole)
      next
        case (Some n)
        with False \<open>(if ai_repair io then repairEventTail ?s else None) = Some t\<close>
        have "r = (False, Some (EntFile (t @ take n (payloadOf ls))))" by (auto simp: r_def appendDay_def Let_def)
        with fullLines_take [OF assms(1), of n] show ?thesis by (simp add: t lines fullLines_whole)
      qed
    qed
  qed
qed

subsection \<open>A whole append\<close>

definition dayLines :: "eventDir \<Rightarrow> string \<Rightarrow> string list" where
  "dayLines dir f = entryLines (map_of dir f)"

text \<open>The encodings of the rows of one day file.\<close>

definition encodedRows :: "(EventRow \<Rightarrow> string option) \<Rightarrow> EventRow list \<Rightarrow> string list" where
  "encodedRows marshal rows = List.map_filter (\<lambda>r. marshal (sanitizeRow r)) rows"

lemma payloadLines_encoded: "payloadLines marshal rows = Some ls \<Longrightarrow> ls = encodedRows marshal rows"
  by (induction rows arbitrary: ls) (auto simp: encodedRows_def map_filter_simps split: option.splits)

lemma payloadLines_all: "payloadLines marshal rows = Some ls \<Longrightarrow> r \<in> set rows \<Longrightarrow> marshal (sanitizeRow r) \<noteq> None"
  by (induction rows arbitrary: ls) (auto split: option.splits)

lemma encodedRows_oneLine:
  "(\<And>r raw. marshal r = Some raw \<Longrightarrow> nl \<notin> set raw) \<Longrightarrow> \<forall>l\<in>set (encodedRows marshal rows). nl \<notin> set l"
  by (auto simp: encodedRows_def List.map_filter_def)

lemma dayLines_touch [simp]: "dayLines (touchLock f dir) g = dayLines dir g"
  by (auto simp: dayLines_def touchLock_def gomap_update)

lemma dayLines_set:
  "(e = None \<Longrightarrow> dayLines dir f = []) \<Longrightarrow>
     dayLines (setEntry f e dir) g = (if g = f then entryLines e else dayLines dir g)"
  by (cases e) (auto simp: dayLines_def setEntry_def gomap_update)

lemma appendDay_none: "snd (appendDay io payload e) = None \<Longrightarrow> e = None"
  by (auto simp: appendDay_def Let_def split: if_splits option.splits)

text \<open>What a step may do to the full lines of a day file.\<close>

definition grows :: "bool \<Rightarrow> string list \<Rightarrow> string list \<Rightarrow> string list \<Rightarrow> bool" where
  "grows ok new before after \<longleftrightarrow> (\<exists>p. prefix p new \<and> after = before @ p \<and> (ok \<longrightarrow> p = new))"

lemma grows_same [simp]: "grows False new s s" "grows True [] s s"
  by (simp_all add: grows_def)

lemma appendFiles_lines:
  fixes byDay
  assumes "\<And>r raw. marshal r = Some raw \<Longrightarrow> nl \<notin> set raw" and "distinct files"
  defines "enc \<equiv> \<lambda>f. encodedRows marshal (byDay f)"
  shows "grows (fst (appendFiles marshal io byDay files dir)) (if f \<in> set files then enc f else [])
    (dayLines dir f) (dayLines (snd (appendFiles marshal io byDay files dir)) f)"
  using assms(2)
proof (induction files arbitrary: dir)
  case (Cons name files)
  show ?case
  proof (cases "payloadLines marshal (byDay name) = None \<or> \<not> ai_lock (io name)")
    case True
    then show ?thesis by (auto split: option.split)
  next
    case False
    then obtain ls where ls: "payloadLines marshal (byDay name) = Some ls" by auto
    then have enc: "enc name = ls" unfolding enc_def by (rule payloadLines_encoded [symmetric])
    let ?r = "appendDay (io name) (payloadOf ls) (map_of dir name)"
    let ?dir = "setEntry name (snd ?r) (touchLock name dir)"
    have step: "appendFiles marshal io byDay (name # files) dir =
        (if fst ?r then appendFiles marshal io byDay files ?dir else (False, ?dir))"
      using False ls by (simp add: Let_def split_beta)
    have "\<forall>l\<in>set ls. nl \<notin> set l" unfolding enc [symmetric] enc_def by (rule encodedRows_oneLine) (rule assms(1))
    from appendDay_lines [OF this, of "io name" "map_of dir name"]
    have one: "grows (fst ?r) ls (dayLines dir name) (entryLines (snd ?r))" by (simp add: grows_def dayLines_def)
    have "snd ?r = None \<Longrightarrow> dayLines dir name = []"
      using appendDay_none [of "io name" "payloadOf ls" "map_of dir name"] by (simp add: dayLines_def)
    then have new: "dayLines ?dir g = (if g = name then entryLines (snd ?r) else dayLines dir g)" for g
      using dayLines_set [of "snd ?r" "touchLock name dir" name g] by simp
    show ?thesis
    proof (cases "fst ?r")
      case True
      from Cons.IH [of ?dir] Cons.prems
      have "grows (fst (appendFiles marshal io byDay files ?dir)) (if f \<in> set files then enc f else [])
          (dayLines ?dir f) (dayLines (snd (appendFiles marshal io byDay files ?dir)) f)" by simp
      with True one Cons.prems show ?thesis unfolding step new by (auto simp: grows_def enc)
    next
      case False
      with one show ?thesis unfolding step by (auto simp: new grows_def enc)
    qed
  qed
qed simp

lemma appendFiles_encodes:
  "fst (appendFiles marshal io byDay files dir) \<Longrightarrow> f \<in> set files \<Longrightarrow> r \<in> set (byDay f) \<Longrightarrow>
     marshal (sanitizeRow r) \<noteq> None"
  by (induction files arbitrary: dir)
     (auto simp: Let_def split_beta split: option.splits if_splits dest: payloadLines_all)

lemma pruneEntries_keeps:
  "map_of (snd (pruneEntries old rm names dir)) f = map_of dir f \<or>
     old f \<and> map_of (snd (pruneEntries old rm names dir)) f = None"
proof (induction names arbitrary: dir)
  case (Cons n names)
  from Cons [of dir] Cons [of "AList.delete n dir"] show ?case by (cases "f = n") (auto simp: gomap_delete)
qed simp

lemma pruneLog_keeps:
  "dayLines (snd (pruneLog cal io now dir)) f = dayLines dir f \<or>
     expired cal now f \<and> map_of (snd (pruneLog cal io now dir)) f = None"
  using pruneEntries_keeps [of "expired cal now" "li_remove io" _ "touchLock (eventDayFile cal now) dir" f]
  by (simp add: pruneLog_def Let_def dayLines_def) (metis dayLines_def dayLines_touch)

abbreviation dayRows :: "calendar \<Rightarrow> EventRow list \<Rightarrow> string \<Rightarrow> EventRow list" where
  "dayRows cal rows f \<equiv> filter (\<lambda>r. eventDayFile cal (er_TS r) = f) rows"

lemma append_phase:
  fixes cal marshal dir
  assumes "rows \<noteq> []" "li_mkdir io"
  defines "files \<equiv> sort (remdups (map (\<lambda>r. eventDayFile cal (er_TS r)) rows))"
  defines "w \<equiv> appendFiles marshal (li_files io) (dayRows cal rows) files dir"
  shows "Append cal marshal io now rows dir = (if fst w then pruneLog cal io now (snd w) else (False, snd w))"
  using assms(1,2) by (simp add: Append_def w_def files_def Let_def split_beta)

lemma append_grows:
  assumes "\<And>r raw. marshal r = Some raw \<Longrightarrow> nl \<notin> set raw"
  shows "(\<exists>p. prefix p (encodedRows marshal (dayRows cal rows f)) \<and> dayLines (snd (Append cal marshal io now rows dir)) f = dayLines dir f @ p \<and> (fst (Append cal marshal io now rows dir) \<longrightarrow> p = encodedRows marshal (dayRows cal rows f))) \<or>
    expired cal now f \<and> map_of (snd (Append cal marshal io now rows dir)) f = None"
proof -
  let ?new = "encodedRows marshal (dayRows cal rows f)"
  have none: "\<exists>p. prefix p ?new \<and> s = s @ p \<and> (False \<longrightarrow> p = ?new)" for s :: "string list"
    by (intro exI [of _ "[]"]) simp
  show ?thesis
  proof (cases "rows \<noteq> [] \<and> li_mkdir io")
    case False
    then have "Append cal marshal io now rows dir = (rows = [], dir)" by (auto simp: Append_def)
    with none show ?thesis by (auto simp: Let_def encodedRows_def map_filter_simps)
  next
    case True
    let ?files = "sort (remdups (map (\<lambda>r. eventDayFile cal (er_TS r)) rows))"
    let ?w = "appendFiles marshal (li_files io) (dayRows cal rows) ?files dir"
    note split = append_phase [of rows io cal marshal now dir]
    have "f \<notin> set ?files \<Longrightarrow> dayRows cal rows f = []" by (auto simp: filter_empty_conv)
    then have "(if f \<in> set ?files then ?new else []) = ?new" by (auto simp: encodedRows_def map_filter_simps)
    with appendFiles_lines [where marshal = marshal and files = ?files and io = "li_files io" and byDay = "dayRows cal rows" and dir = dir and f = f, OF assms]
    have w: "grows (fst ?w) ?new (dayLines dir f) (dayLines (snd ?w) f)" by (simp only: distinct_sort distinct_remdups)
    show ?thesis
    proof (cases "fst ?w")
      case False
      with w True show ?thesis by (simp add: split Let_def grows_def)
    next
      case ok: True
      from pruneLog_keeps [of cal io now "snd ?w" f] show ?thesis
        using w True ok by (auto simp: split Let_def grows_def)
    qed
  qed
qed

text \<open>C22. No append ever breaks a row: whatever day file is looked at, its full lines after \<^verbatim>\<open>Append\<close> are
  its full lines before it followed by a prefix of the encoded rows of that day, with every fault the
  append may meet and whatever torn tail an earlier crash left; all of those rows when the append
  succeeded. Only a file whose stamp is past the retention disappears.\<close>

theorem append_keeps_whole_rows:
  assumes "\<forall>r raw. marshal r = Some raw \<longrightarrow> nl \<notin> set raw"
  shows "let res = Append cal marshal io now rows dir; new = encodedRows marshal (dayRows cal rows f) in
    (\<exists>p. prefix p new \<and> dayLines (snd res) f = dayLines dir f @ p \<and> (fst res \<longrightarrow> p = new)) \<or>
    expired cal now f \<and> map_of (snd res) f = None"
  unfolding Let_def by (rule append_grows) (use assms in blast)

definition sampleCal :: calendar where
  "sampleCal = \<lparr>cal_Stamp = (\<lambda>_. ''20260101''), cal_Parse = (\<lambda>_. Some 50), cal_Cutoff = (\<lambda>now. now - 60)\<rparr>"

definition sampleLogIO :: logIO where
  "sampleLogIO = \<lparr>li_mkdir = True,
     li_files = (\<lambda>_. \<lparr>ai_lock = True, ai_open = True, ai_same = True, ai_repair = True, ai_short = None, ai_close = True\<rparr>),
     li_readdir = True, li_remove = (\<lambda>_. True), li_pruneLock = True\<rparr>"

definition sampleMarshal :: "EventRow \<Rightarrow> string option" where
  "sampleMarshal r = Some (filter (\<lambda>c. c \<noteq> nl) (er_SessionKey r))"

lemma sampleMarshal_oneLine: "\<forall>r raw. sampleMarshal r = Some raw \<longrightarrow> nl \<notin> set raw"
  by (auto simp: sampleMarshal_def)

lemma sample_not_expired: "\<not> expired sampleCal 100 f"
  by (auto simp: expired_def sampleCal_def split: option.split)

lemma pruneEntries_none: "(\<And>n. \<not> old n) \<Longrightarrow> pruneEntries old rm names dir = (True, dir)"
  by (induction names) simp_all

text \<open>A batch of two days in the order it is written, one day file that a crash left torn, and the same batch when
  the second day's write falls short.\<close>

definition sampleRow :: "gtime \<Rightarrow> string \<Rightarrow> EventRow" where
  "sampleRow t key = \<lparr>er_TS = t, er_Kind = EventMove, er_SessionKey = key, er_Agent = ''codex'', er_Title = ''fix'',
     er_From = ''a'', er_To = ''b'', er_ReasonCode = ''limit'', er_Params = [], er_Mode = ''shadow''\<rparr>"

definition twoDays :: calendar where
  "twoDays = sampleCal\<lparr>cal_Stamp := (\<lambda>t. if t < 86400 then ''20260101'' else ''20260102'')\<rparr>"

definition dayA :: string where "dayA = ''auto-handoff-events-20260101.jsonl''"
definition dayB :: string where "dayB = ''auto-handoff-events-20260102.jsonl''"

definition shortIO :: logIO where
  "shortIO = sampleLogIO\<lparr>li_files := (\<lambda>f. (li_files sampleLogIO f)\<lparr>ai_short :=
     (if f = dayB then Some 6 else None)\<rparr>)\<rparr>"

abbreviation sampleBatch :: "EventRow list" where
  "sampleBatch \<equiv> [sampleRow 90000 ''repo/c'', sampleRow 10 (''re'' @ [nl] @ ''po/a''), sampleRow 90001 ''repo/d'', sampleRow 20 ''repo/b'']"

abbreviation sampleDir :: eventDir where
  "sampleDir \<equiv> [(dayA, EntFile (''old'' @ [nl] @ ''torn'')), (''auto-handoff-events-junk.jsonl'', EntSymlink)]"

lemma twoDays_not_expired: "\<not> expired twoDays 100 f"
  by (auto simp: expired_def twoDays_def sampleCal_def split: option.split)

theorem append_keeps_whole_rows_witness:
  "dayLines (snd (Append twoDays sampleMarshal sampleLogIO 100 sampleBatch sampleDir)) dayA =
      [''old'', ''repo/a'', ''repo/b''] \<and>
   prefix (dayLines (snd (Append twoDays sampleMarshal shortIO 100 sampleBatch sampleDir)) dayB) [''repo/c'', ''repo/d'']"
proof
  let ?res = "Append twoDays sampleMarshal sampleLogIO 100 sampleBatch sampleDir"
  let ?rows = "dayRows twoDays sampleBatch"
  have files: "sort (remdups (map (\<lambda>r. eventDayFile twoDays (er_TS r)) sampleBatch)) = [dayA, dayB]" by code_simp
  have rows: "?rows dayA = [sampleRow 10 (''re'' @ [nl] @ ''po/a''), sampleRow 20 ''repo/b'']"
    "?rows dayB = [sampleRow 90000 ''repo/c'', sampleRow 90001 ''repo/d'']" by code_simp+
  have enc: "sampleMarshal (sanitizeRow (sampleRow t (''re'' @ [nl] @ ''po/a''))) = Some ''repo/a''"
    "sampleMarshal (sanitizeRow (sampleRow t ''repo/b'')) = Some ''repo/b''"
    "sampleMarshal (sanitizeRow (sampleRow t ''repo/c'')) = Some ''repo/c''"
    "sampleMarshal (sanitizeRow (sampleRow t ''repo/d'')) = Some ''repo/d''" for t
    by (simp_all add: sampleMarshal_def sanitizeRow_def sampleRow_def label_eval)
  have ls: "payloadLines sampleMarshal (?rows dayA) = Some [''repo/a'', ''repo/b'']"
    "payloadLines sampleMarshal (?rows dayB) = Some [''repo/c'', ''repo/d'']" by (simp_all only: rows payloadLines.simps enc option.case option.map)
  have other: "map_of (setEntry dayA e (touchLock dayA sampleDir)) dayB = None" for e
    by (simp add: setEntry_def touchLock_def gomap_update dayA_def dayB_def split: option.split)
  have "fst (appendDay (li_files sampleLogIO f) p (Some (EntFile (''old'' @ [nl] @ ''torn''))))"
    "fst (appendDay (li_files sampleLogIO f) p None)" for f p
    by (simp_all add: appendDay_def sampleLogIO_def repairEventTail_def eventTailWindow_def eventDayMaxBytes_def Let_def)
  then have "fst (appendFiles sampleMarshal (li_files sampleLogIO) ?rows [dayA, dayB] sampleDir)"
    using other by (simp add: ls split_beta Let_def sampleLogIO_def del: filter.simps append.simps)
  then have ok: "fst ?res"
    by (subst append_phase) (simp_all only: files sampleLogIO_def, simp_all add: pruneLog_def Let_def pruneEntries_none twoDays_not_expired)
  have one: "encodedRows sampleMarshal (?rows dayA) = [''repo/a'', ''repo/b'']"
    "encodedRows sampleMarshal (?rows dayB) = [''repo/c'', ''repo/d'']"
    "dayLines sampleDir dayA = [''old'']" "dayLines sampleDir dayB = []"
    using ls [THEN payloadLines_encoded] by (simp_all add: dayLines_def fullLines_def dayA_def dayB_def)
  show "dayLines (snd ?res) dayA = [''old'', ''repo/a'', ''repo/b'']"
    using append_keeps_whole_rows [OF sampleMarshal_oneLine, of twoDays sampleLogIO 100 sampleBatch sampleDir dayA]
    unfolding Let_def one using ok twoDays_not_expired by auto
  show "prefix (dayLines (snd (Append twoDays sampleMarshal shortIO 100 sampleBatch sampleDir)) dayB) [''repo/c'', ''repo/d'']"
    using append_keeps_whole_rows [OF sampleMarshal_oneLine, of twoDays shortIO 100 sampleBatch sampleDir dayB]
    unfolding Let_def one using twoDays_not_expired by auto
qed
text \<open>C10. What the engine and its log do together: when a tick whose rows go to the event log reports no error,
  each row it released stands as one whole line in the day file of its instant, unless the log's clock
  says that day is already past the retention.\<close>

theorem accepted_rows_on_disk:
  assumes "\<forall>r raw. marshal r = Some raw \<longrightarrow> nl \<notin> set raw"
    and "dp_WriteRows d = (\<lambda>rows. fst (Append cal marshal io now rows dir))"
    and "tk_error (Tick d sessions edges) = None" and "r \<in> set (tk_rows (Tick d sessions edges))"
    and "\<not> expired cal now (eventDayFile cal (er_TS r))"
  shows "\<exists>line. marshal (sanitizeRow r) = Some line \<and>
    line \<in> set (dayLines (snd (Append cal marshal io now (tk_rows (Tick d sessions edges)) dir))
                  (eventDayFile cal (er_TS r)))"
proof -
  let ?rows = "tk_rows (Tick d sessions edges)" and ?f = "eventDayFile cal (er_TS r)"
  let ?res = "Append cal marshal io now ?rows dir"
  obtain snap where snap: "tickSnap d sessions = Some snap"
    using assms(4) Tick_no_pass(1) [of d sessions edges] by (cases "tickSnap d sessions") auto
  have rows: "?rows \<noteq> []" using assms(4) by auto
  then have ok: "fst ?res"
    using assms(3) unfolding Tick_pass(3) [OF snap] Tick_pass(1) [OF snap] assms(2) by (auto split: if_splits)
  then have "li_mkdir io" using rows by (cases "li_mkdir io") (simp_all add: Append_def)
  note split = append_phase [OF rows this, where cal = cal and marshal = marshal and now = now and dir = dir]
  let ?files = "sort (remdups (map (\<lambda>r. eventDayFile cal (er_TS r)) ?rows))"
  have "fst (appendFiles marshal (li_files io) (dayRows cal ?rows) ?files dir)"
    using ok unfolding split by (auto split: if_splits)
  from appendFiles_encodes [OF this, of ?f r] assms(4) obtain line where line: "marshal (sanitizeRow r) = Some line"
    by auto
  then have "line \<in> set (encodedRows marshal (dayRows cal ?rows ?f))"
    using assms(4) by (force simp: encodedRows_def List.map_filter_def)
  moreover have "dayLines (snd ?res) ?f = dayLines dir ?f @ encodedRows marshal (dayRows cal ?rows ?f)"
    using append_grows [where marshal = marshal and cal = cal and io = io and now = now and rows = ?rows and dir = dir and f = ?f, OF assms(1) [rule_format]]
      ok assms(5) by auto
  ultimately show ?thesis using line by auto
qed

lemma payloadLines_sample: "\<exists>ls. payloadLines sampleMarshal rows = Some ls"
  by (induction rows) (auto simp: sampleMarshal_def)

lemma sample_append_ok: "fst (Append sampleCal sampleMarshal sampleLogIO 100 rows [])"
proof (cases "rows = []")
  case False
  let ?f = "eventDayFile sampleCal 0"
  have f: "eventDayFile sampleCal t = ?f" for t by (simp add: eventDayFile_def sampleCal_def)
  have "remdups (map (\<lambda>r. ?f) rows) = [?f]" using False
  proof (induction rows)
    case (Cons r rs)
    then show ?case by (cases rs) auto
  qed simp
  then have files: "sort (remdups (map (\<lambda>r. eventDayFile sampleCal (er_TS r)) rows)) = [?f]" unfolding f [of "er_TS _"] by simp
  obtain ls where "payloadLines sampleMarshal (dayRows sampleCal rows ?f) = Some ls" using payloadLines_sample by blast
  then have "fst (appendFiles sampleMarshal (li_files sampleLogIO) (dayRows sampleCal rows) [?f] [])"
    by (simp add: sampleLogIO_def appendDay_def repairEventTail_def)
  with False show ?thesis
    by (subst append_phase) (simp_all add: files sampleLogIO_def pruneLog_def Let_def pruneEntries_none sample_not_expired)
qed (simp add: Append_def)

theorem accepted_rows_on_disk_witness:
  "\<exists>(r :: EventRow) line. er_Kind r = EventMove \<and> line \<in> set (dayLines
     (snd (Append sampleCal sampleMarshal sampleLogIO 100
        (tk_rows (Tick ((sampleDeps True)\<lparr>dp_WriteRows := \<lambda>rows. fst (Append sampleCal sampleMarshal sampleLogIO 100 rows [])\<rparr>)
           sampleSessions NewEdgeTracker)) []))
     (eventDayFile sampleCal (er_TS r)))"
proof -
  define W where "W = (\<lambda>rows. fst (Append sampleCal sampleMarshal sampleLogIO 100 rows []))"
  let ?d = "(sampleDeps True)\<lparr>dp_WriteRows := W\<rparr>"
  let ?rows = "ps_rows (tickPass ?d sampleSessions NewEdgeTracker (sampleSnap None))"
  have snap: "tickSnap ?d sampleSessions = Some (sampleSnap None)" by code_simp
  have rows: "er_Kind (last ?rows) = EventMove" "?rows \<noteq> []" by code_simp+
  have err: "tk_error (Tick ?d sampleSessions NewEdgeTracker) = None"
    unfolding Tick_pass(3) [OF snap] by (simp add: W_def sample_append_ok)
  have mem: "last ?rows \<in> set (tk_rows (Tick ?d sampleSessions NewEdgeTracker))"
    unfolding Tick_pass(1) [OF snap] using rows(2) by (rule last_in_set)
  have wr: "dp_WriteRows ?d = (\<lambda>rows. fst (Append sampleCal sampleMarshal sampleLogIO 100 rows []))"
    by (simp add: W_def)
  have "\<exists>line. sampleMarshal (sanitizeRow (last ?rows)) = Some line \<and> line \<in> set (dayLines
     (snd (Append sampleCal sampleMarshal sampleLogIO 100 (tk_rows (Tick ?d sampleSessions NewEdgeTracker)) []))
     (eventDayFile sampleCal (er_TS (last ?rows))))"
    by (rule accepted_rows_on_disk [OF sampleMarshal_oneLine wr err mem sample_not_expired])
  then obtain line where line: "line \<in> set (dayLines
     (snd (Append sampleCal sampleMarshal sampleLogIO 100 (tk_rows (Tick ?d sampleSessions NewEdgeTracker)) []))
     (eventDayFile sampleCal (er_TS (last ?rows))))" by (elim exE conjE)
  show ?thesis unfolding W_def [symmetric]
  proof (intro exI conjI)
    show "er_Kind (last ?rows) = EventMove" by (rule rows(1))
  qed (rule line)
qed

end
