(* ===== verification/Usage_Records.thy ===== *)
theory Usage_Records
  imports Go_Strings Handoff_Decide
begin

text \<open>
  Usage records: one line of a Codex rollout (\<^verbatim>\<open>src/quota/rate_limits.go\<close>), what the handoff engine makes
  of a reading (\<^verbatim>\<open>src/daemon/account_handoff.go\<close>) and when a reading proves that an account serves again
  (\<^verbatim>\<open>src/daemon/account_usage_evidence.go\<close>).

  The record \<open>wire\<close> holds what reads the text: \<open>wi_json\<close> is the syntax of \<^verbatim>\<open>encoding/json\<close>, \<open>wi_float\<close>
  \<^verbatim>\<open>strconv.ParseFloat\<close> on a number literal and \<open>wi_time\<close> \<^verbatim>\<open>time.Parse\<close> with \<^verbatim>\<open>time.RFC3339Nano\<close>. How
  \<^verbatim>\<open>encoding/json\<close> stores a value into a struct is written out: a key matches a field up to case, a later
  key overwrites an earlier one, \<^verbatim>\<open>null\<close> leaves a string alone and clears a pointer, and an object is
  merged into a pointer that is already set. A \<^verbatim>\<open>json.RawMessage\<close> is the value, \<open>None\<close> when it is empty.
\<close>

subsection \<open>Storing a value into a struct\<close>

datatype json = JNull | JBool bool | JNum string | JStr string | JArr "json list" | JObj "(string \<times> json) list"

record wire =
  wi_json :: "string \<Rightarrow> json option"
  wi_float :: "string \<Rightarrow> rat option"
  wi_time :: "string \<Rightarrow> gtime option"

definition upperByte :: "char \<Rightarrow> char" where
  "upperByte c = (if 97 \<le> code c \<and> code c \<le> (122 :: nat) then byte (code c - 32) else c)"

text \<open>
  The comparison key of a name: ASCII letters in upper case, and the two runes that fold to an ASCII
  letter, U+017F and U+212A.
\<close>

fun foldName :: "string \<Rightarrow> string" where
  "foldName (a # b # c # s) =
     (if [a, b] = [CHR 0xC5, CHR 0xBF] then CHR ''S'' # foldName (c # s)
      else if [a, b, c] = [CHR 0xE2, CHR 0x84, CHR 0xAA] then CHR ''K'' # foldName s
      else upperByte a # foldName (b # c # s))"
| "foldName [a, b] = (if [a, b] = [CHR 0xC5, CHR 0xBF] then ''S'' else [upperByte a, upperByte b])"
| "foldName [a] = [upperByte a]"
| "foldName [] = []"

definition isField :: "string \<Rightarrow> string \<Rightarrow> bool" where
  "isField field key \<longleftrightarrow> foldName key = foldName field"

text \<open>One key stored into a field; \<open>None\<close> is the type error the decoder reports in the end.\<close>

definition storeString :: "json \<Rightarrow> string \<Rightarrow> string option" where
  "storeString j old = (case j of JStr s \<Rightarrow> Some s | JNull \<Rightarrow> Some old | _ \<Rightarrow> None)"

definition storeFloat :: "wire \<Rightarrow> json \<Rightarrow> rat option option" where
  "storeFloat W j =
     (case j of
        JNull \<Rightarrow> Some None
      | JNum s \<Rightarrow> (case wi_float W s of None \<Rightarrow> None | Some x \<Rightarrow> Some (Some x))
      | _ \<Rightarrow> None)"

definition storeInt :: "json \<Rightarrow> int option option" where
  "storeInt j =
     (case j of
        JNull \<Rightarrow> Some None
      | JNum s \<Rightarrow> (case Atoi s of None \<Rightarrow> None | Some x \<Rightarrow> Some (Some x))
      | _ \<Rightarrow> None)"

text \<open>The keys of an object, one after the other; anything but an object or \<^verbatim>\<open>null\<close> is a type error.\<close>

fun storeKeys :: "(string \<Rightarrow> json \<Rightarrow> 's \<Rightarrow> 's option) \<Rightarrow> (string \<times> json) list \<Rightarrow> 's \<Rightarrow> 's option" where
  "storeKeys st [] s = Some s"
| "storeKeys st ((k, j) # kvs) s =
     (case st k j s of None \<Rightarrow> None | Some s' \<Rightarrow> storeKeys st kvs s')"

definition storeStruct :: "(string \<Rightarrow> json \<Rightarrow> 's \<Rightarrow> 's option) \<Rightarrow> json \<Rightarrow> 's \<Rightarrow> 's option" where
  "storeStruct st j s =
     (case j of JObj kvs \<Rightarrow> storeKeys st kvs s | JNull \<Rightarrow> Some s | _ \<Rightarrow> None)"

subsection \<open>One line of a rollout\<close>

record UsageWindow =
  uw_Name :: string
  uw_UsedPercent :: rat
  uw_WindowMinutes :: "int option"
  uw_ResetsAt :: "gtime option"

record UsageReading =
  ur_Windows :: "UsageWindow list"
  ur_RecordedAt :: gtime

definition noReading :: UsageReading where
  "noReading = \<lparr>ur_Windows = [], ur_RecordedAt = zeroTime\<rparr>"

fun worstFrom :: "UsageWindow list \<Rightarrow> UsageWindow option \<Rightarrow> UsageWindow option" where
  "worstFrom [] acc = acc"
| "worstFrom (w # ws) acc =
     worstFrom ws
       (case acc of
          None \<Rightarrow> Some w
        | Some b \<Rightarrow> (if uw_UsedPercent w > uw_UsedPercent b then Some w else Some b))"

definition Worst :: "UsageReading \<Rightarrow> UsageWindow option" where
  "Worst r = worstFrom (ur_Windows r) None"

datatype RateLimitsVerdict = RateLimitsAbsent | RateLimitsParsed | RateLimitsMalformed

record codexRateLimitWindow =
  cw_UsedPercent :: "rat option"
  cw_WindowMinutes :: "int option"
  cw_ResetsAt :: "int option"

definition codexWindowSlotNames :: "string list" where
  "codexWindowSlotNames = [''primary'', ''secondary'']"

record lineEnvelope =
  le_Type :: string
  le_Timestamp :: "json option"
  le_Payload :: "json option"

definition storeEnvelope :: "string \<Rightarrow> json \<Rightarrow> lineEnvelope \<Rightarrow> lineEnvelope option" where
  "storeEnvelope k j e =
     (if isField ''type'' k then map_option (\<lambda>s. e\<lparr>le_Type := s\<rparr>) (storeString j (le_Type e))
      else if isField ''timestamp'' k then Some (e\<lparr>le_Timestamp := Some j\<rparr>)
      else if isField ''payload'' k then Some (e\<lparr>le_Payload := Some j\<rparr>)
      else Some e)"

record linePayload =
  lp_Type :: string
  lp_RateLimits :: "json option"

definition storePayload :: "string \<Rightarrow> json \<Rightarrow> linePayload \<Rightarrow> linePayload option" where
  "storePayload k j p =
     (if isField ''type'' k then map_option (\<lambda>s. p\<lparr>lp_Type := s\<rparr>) (storeString j (lp_Type p))
      else if isField ''rate_limits'' k then Some (p\<lparr>lp_RateLimits := Some j\<rparr>)
      else Some p)"

definition storeWindow :: "wire \<Rightarrow> string \<Rightarrow> json \<Rightarrow> codexRateLimitWindow \<Rightarrow> codexRateLimitWindow option" where
  "storeWindow W k j w =
     (if isField ''used_percent'' k then map_option (\<lambda>v. w\<lparr>cw_UsedPercent := v\<rparr>) (storeFloat W j)
      else if isField ''window_minutes'' k then map_option (\<lambda>v. w\<lparr>cw_WindowMinutes := v\<rparr>) (storeInt j)
      else if isField ''resets_at'' k then map_option (\<lambda>v. w\<lparr>cw_ResetsAt := v\<rparr>) (storeInt j)
      else Some w)"

definition noWindow :: codexRateLimitWindow where
  "noWindow = \<lparr>cw_UsedPercent = None, cw_WindowMinutes = None, cw_ResetsAt = None\<rparr>"

text \<open>A pointer to a window: \<^verbatim>\<open>null\<close> clears it, an object is stored into the window it points to.\<close>

definition storeSlot ::
    "wire \<Rightarrow> json \<Rightarrow> codexRateLimitWindow option \<Rightarrow> codexRateLimitWindow option option" where
  "storeSlot W j old =
     (if j = JNull then Some None
      else map_option Some
        (storeStruct (storeWindow W) j (case old of None \<Rightarrow> noWindow | Some w \<Rightarrow> w)))"

definition storeSnapshot ::
    "wire \<Rightarrow> string \<Rightarrow> json \<Rightarrow> codexRateLimitWindow option \<times> codexRateLimitWindow option \<Rightarrow>
     (codexRateLimitWindow option \<times> codexRateLimitWindow option) option" where
  "storeSnapshot W k j ps =
     (if isField ''primary'' k then map_option (\<lambda>v. (v, snd ps)) (storeSlot W j (fst ps))
      else if isField ''secondary'' k then map_option (\<lambda>v. (fst ps, v)) (storeSlot W j (snd ps))
      else Some ps)"

text \<open>\<^verbatim>\<open>time.Unix\<close> adds the seconds of the years 1 to 1970 in a 64-bit word.\<close>

definition unixSeconds :: "int \<Rightarrow> gtime" where
  "unixSeconds s = sint (word_of_int (s + 62135596800) :: 64 word) * second"

text \<open>The text of a raw value, as \<^verbatim>\<open>json.Unmarshal\<close> into a fresh \<^verbatim>\<open>string\<close> yields it.\<close>

definition rawText :: "json option \<Rightarrow> string option" where
  "rawText raw = (case raw of None \<Rightarrow> None | Some j \<Rightarrow> storeString j [])"

definition rawTime :: "wire \<Rightarrow> json option \<Rightarrow> gtime option" where
  "rawTime W raw = (case rawText raw of None \<Rightarrow> None | Some s \<Rightarrow> wi_time W s)"

text \<open>The loop over the slots; \<^const>\<open>None\<close> is the malformed snapshot.\<close>

fun windowsFrom :: "(string \<times> codexRateLimitWindow option) list \<Rightarrow> UsageWindow list option" where
  "windowsFrom [] = Some []"
| "windowsFrom ((name, None) # ss) = windowsFrom ss"
| "windowsFrom ((name, Some slot) # ss) =
     (case cw_UsedPercent slot of
        None \<Rightarrow> None
      | Some p \<Rightarrow>
          map_option
            (Cons \<lparr>uw_Name = name, uw_UsedPercent = p, uw_WindowMinutes = cw_WindowMinutes slot,
               uw_ResetsAt = map_option unixSeconds (cw_ResetsAt slot)\<rparr>)
            (windowsFrom ss))"

definition slotOf ::
    "codexRateLimitWindow option \<times> codexRateLimitWindow option \<Rightarrow> string \<Rightarrow> codexRateLimitWindow option" where
  "slotOf ps name = (if name = ''primary'' then fst ps else if name = ''secondary'' then snd ps else None)"

definition lineEnvelopeOf :: "wire \<Rightarrow> string \<Rightarrow> lineEnvelope option" where
  "lineEnvelopeOf W line =
     (case wi_json W line of
        None \<Rightarrow> None
      | Some j \<Rightarrow> storeStruct storeEnvelope j \<lparr>le_Type = [], le_Timestamp = None, le_Payload = None\<rparr>)"

definition linePayloadOf :: "json \<Rightarrow> linePayload option" where
  "linePayloadOf j = storeStruct storePayload j \<lparr>lp_Type = [], lp_RateLimits = None\<rparr>"

definition ParseCodexRateLimitsLine :: "wire \<Rightarrow> string \<Rightarrow> RateLimitsVerdict \<times> UsageReading" where
  "ParseCodexRateLimitsLine W line =
     (case lineEnvelopeOf W line of
        None \<Rightarrow> (RateLimitsAbsent, noReading)
      | Some env \<Rightarrow>
          (if le_Type env \<noteq> ''event_msg'' \<or> le_Payload env = None then (RateLimitsAbsent, noReading)
           else
             (case linePayloadOf (the (le_Payload env)) of
                None \<Rightarrow> (RateLimitsAbsent, noReading)
              | Some pl \<Rightarrow>
                  (if lp_Type pl \<noteq> ''token_count'' \<or> lp_RateLimits pl = None \<or> lp_RateLimits pl = Some JNull
                   then (RateLimitsAbsent, noReading)
                   else
                     (case rawTime W (le_Timestamp env) of
                        None \<Rightarrow> (RateLimitsMalformed, noReading)
                      | Some recordedAt \<Rightarrow>
                          (case storeStruct (storeSnapshot W) (the (lp_RateLimits pl)) (None, None) of
                             None \<Rightarrow> (RateLimitsMalformed, noReading)
                           | Some ps \<Rightarrow>
                               (case windowsFrom (map (\<lambda>n. (n, slotOf ps n)) codexWindowSlotNames) of
                                  None \<Rightarrow> (RateLimitsMalformed, noReading)
                                | Some ws \<Rightarrow>
                                    (RateLimitsParsed, \<lparr>ur_Windows = ws, ur_RecordedAt = recordedAt\<rparr>))))))))"

text \<open>\<^verbatim>\<open>recordTimestamp\<close> of the indexer: only the timestamp of the envelope is read.\<close>

definition storeStamp :: "string \<Rightarrow> json \<Rightarrow> json option \<Rightarrow> json option option" where
  "storeStamp k j t = (if isField ''timestamp'' k then Some (Some j) else Some t)"

definition recordTimestamp :: "wire \<Rightarrow> string \<Rightarrow> gtime option" where
  "recordTimestamp W line =
     (case wi_json W line of
        None \<Rightarrow> None
      | Some j \<Rightarrow>
          (case storeStruct storeStamp j None of None \<Rightarrow> None | Some raw \<Rightarrow> rawTime W raw))"

end
