(* ===== verification/Rate_Index.thy ===== *)
theory Rate_Index
  imports Usage_Records "HOL-Library.List_Lexorder" "HOL-Library.Char_ord"
begin

text \<open>
  The bounded reader of account usage evidence, \<^verbatim>\<open>src/internal/rateindex/rateindex.go\<close>, and its two
  consumers: the facts the handoff engine decides on and the proof that a limit ended.

  One refresh sees one store: the tree under \<^verbatim>\<open><home>/sessions\<close> with what the reads of a directory and the
  stat of a file answer, and what opening a file yields. The clock is a function of the number of readings
  made before it. \<^verbatim>\<open>sort.Slice\<close> on the slate is the argument \<open>rf_order\<close>: it promises an order of the
  modification times and leaves open which of two equal ones comes first. A path is its parent's path, a
  slash and a name, as \<^verbatim>\<open>filepath.Join\<close> forms it under a clean home.
\<close>

subsection \<open>The store\<close>

datatype fileStat = StatGone | StatFailed | StatOk int gtime

datatype storeEntry = FileEntry string fileStat | DirEntry string dirRead
     and dirRead = DirGone | DirFailed | DirEntries "storeEntry list"

datatype fileRead = FileUnreadable | FileIs gtime string

fun entryName :: "storeEntry \<Rightarrow> string" where
  "entryName (FileEntry n _) = n"
| "entryName (DirEntry n _) = n"

definition joinPath :: "string \<Rightarrow> string \<Rightarrow> string" where
  "joinPath p n = p @ ''/'' @ n"

definition hexByte :: "char \<Rightarrow> bool" where
  "hexByte c \<longleftrightarrow> isDigit c \<or> (97 \<le> code (lowerByte c) \<and> code (lowerByte c) \<le> (102 :: nat))"

text \<open>
  \<^verbatim>\<open>codexRolloutFileRE\<close>. Case folding adds U+017F to the letter \<^verbatim>\<open>s\<close> of the suffix; the dot of \<^verbatim>\<open>.+\<close>
  matches every rune but a newline.
\<close>

definition rolloutStem :: "string \<Rightarrow> string option" where
  "rolloutStem n =
     (if 6 \<le> length n \<and> map lowerByte (drop (length n - 6) n) = ''.jsonl'' then Some (take (length n - 6) n)
      else if 7 \<le> length n \<and>
          map lowerByte (drop (length n - 7) n) = ''.j'' @ [CHR 0xC5, CHR 0xBF] @ ''onl''
        then Some (take (length n - 7) n)
      else None)"

definition uuidShape :: "string \<Rightarrow> bool" where
  "uuidShape s \<longleftrightarrow>
     list_all2 (\<lambda>t c. if t = CHR ''h'' then hexByte c else c = t) ''-hhhhhhhh-hhhh-hhhh-hhhh-hhhhhhhhhhhh'' s"

definition isRollout :: "string \<Rightarrow> bool" where
  "isRollout n =
     (case rolloutStem n of
        None \<Rightarrow> False
      | Some b \<Rightarrow>
          46 \<le> length b \<and> map lowerByte (take 8 b) = ''rollout-'' \<and> uuidShape (drop (length b - 37) b) \<and>
          CHR 0x0A \<notin> set (take (length b - 45) (drop 8 b)))"

subsection \<open>Bounds\<close>

record Options =
  op_MaxFiles :: int
  op_MaxTotalBytes :: int
  op_MaxPerFileBytes :: int
  op_Deadline :: duration
  op_CarriedPrefixes :: "int gomap"

definition withDefaults :: "Options \<Rightarrow> Options" where
  "withDefaults op =
     op\<lparr>op_MaxFiles := (if op_MaxFiles op \<le> 0 then 32 else op_MaxFiles op),
        op_MaxTotalBytes := (if op_MaxTotalBytes op \<le> 0 then 4 * 2 ^ 20 else op_MaxTotalBytes op),
        op_MaxPerFileBytes := (if op_MaxPerFileBytes op \<le> 0 then 2 ^ 20 else op_MaxPerFileBytes op),
        op_Deadline := (if op_Deadline op \<le> 0 then 250000000 else op_Deadline op)\<rparr>"

definition stillAppendingHorizon :: duration where
  "stillAppendingHorizon = 30 * 24 * hour"

definition recordOvershootBound :: duration where
  "recordOvershootBound = 24 * hour"

subsection \<open>The newest claim of one file\<close>

record fileClaim =
  fc_verdict :: RateLimitsVerdict
  fc_reading :: UsageReading
  fc_sortAt :: gtime

definition noClaim :: fileClaim where
  "noClaim = \<lparr>fc_verdict = RateLimitsAbsent, fc_reading = noReading, fc_sortAt = zeroTime\<rparr>"

text \<open>What one line claims, \<open>None\<close> when it is blank or claims nothing.\<close>

definition lineClaim :: "wire \<Rightarrow> gtime \<Rightarrow> string \<Rightarrow> fileClaim option" where
  "lineClaim W mtime raw =
     (let line = TrimSpace raw;
          (verdict, reading) = ParseCodexRateLimitsLine W line
      in if line = [] then None
         else (case verdict of
                 RateLimitsAbsent \<Rightarrow> None
               | RateLimitsParsed \<Rightarrow>
                   Some \<lparr>fc_verdict = verdict, fc_reading = reading, fc_sortAt = ur_RecordedAt reading\<rparr>
               | RateLimitsMalformed \<Rightarrow>
                   Some \<lparr>fc_verdict = verdict, fc_reading = reading,
                     fc_sortAt = (case recordTimestamp W line of None \<Rightarrow> mtime | Some t \<Rightarrow> t)\<rparr>))"

fun newestLine :: "wire \<Rightarrow> gtime \<Rightarrow> string list \<Rightarrow> fileClaim \<Rightarrow> bool \<Rightarrow> fileClaim" where
  "newestLine W mtime [] claim found = claim"
| "newestLine W mtime (raw # lines) claim found =
     (case lineClaim W mtime raw of
        None \<Rightarrow> newestLine W mtime lines claim found
      | Some c \<Rightarrow>
          (if \<not> found \<or> \<not> fc_sortAt c < fc_sortAt claim then newestLine W mtime lines c True
           else newestLine W mtime lines claim found))"

text \<open>\<^verbatim>\<open>scanTail\<close>: the claim, whether the scan was bounded and the bytes read; \<open>None\<close> is an error.\<close>

definition scanTail ::
    "wire \<Rightarrow> (string \<Rightarrow> fileRead) \<Rightarrow> string \<Rightarrow> int \<Rightarrow> int \<Rightarrow> int \<Rightarrow> (fileClaim \<times> bool \<times> int) option" where
  "scanTail W rd path fsize watermark window =
     (if fsize \<le> watermark then Some (noClaim, False, 0)
      else
        (let lo0 = fsize - window;
             lo1 = (if lo0 < watermark then watermark else lo0);
             lo = (if lo1 < 0 then 0 else lo1)
         in case rd path of
              FileUnreadable \<Rightarrow> None
            | FileIs mtime content \<Rightarrow>
                (let buf = take (nat (fsize - lo)) (drop (nat lo) content);
                     lines0 = splitOn (CHR 0x0A) buf;
                     lines = (if lo > 0 \<and> lo \<noteq> watermark then tl lines0 else lines0)
                 in Some (newestLine W mtime lines noClaim False, lo > watermark, int (length buf)))))"

subsection \<open>The slate of candidates\<close>

text \<open>
  The slate is in descending order of the modification times, so that the place \<^verbatim>\<open>sort.Search\<close> finds is
  the first entry the new one is after.
\<close>

record candidate =
  cd_path :: string
  cd_size :: int
  cd_modTime :: gtime

fun insertAt :: "candidate list \<Rightarrow> candidate \<Rightarrow> candidate list" where
  "insertAt [] c = [c]"
| "insertAt (d # ds) c = (if cd_modTime c > cd_modTime d then c # d # ds else d # insertAt ds c)"

definition insertCandidate ::
    "candidate list \<Rightarrow> candidate \<Rightarrow> int \<Rightarrow> candidate list \<times> candidate option" where
  "insertCandidate slate c maxFiles =
     (if int (length slate) = maxFiles \<and> \<not> cd_modTime c > cd_modTime (last slate) then (slate, Some c)
      else
        (let slate' = insertAt slate c
         in if int (length slate') > maxFiles then (take (nat maxFiles) slate', Some (slate' ! nat maxFiles))
            else (slate', None)))"

record candidateWalk =
  wk_top :: "candidate list"
  wk_seen :: nat
  wk_stopped :: bool
  wk_hasMissed :: bool
  wk_missedCeiling :: gtime
  wk_ticks :: nat

text \<open>What a walk keeps fixed; \<open>wc_now\<close> answers the clock by the number of its readings so far.\<close>

record walkConfig =
  wc_maxFiles :: int
  wc_deadline :: gtime
  wc_now :: "nat \<Rightarrow> gtime"

datatype walkError = errDeadline | errNotExist | errRead

definition noteMissed :: "gtime \<Rightarrow> candidateWalk \<Rightarrow> candidateWalk" where
  "noteMissed bound w =
     w\<lparr>wk_missedCeiling := (if \<not> wk_hasMissed w \<or> bound > wk_missedCeiling w then bound else wk_missedCeiling w),
       wk_hasMissed := True\<rparr>"

text \<open>\<^verbatim>\<open>time.Date\<close> in UTC: the days since January 1 of the year 1, linear in the day of the month.\<close>

definition leapYear :: "int \<Rightarrow> bool" where
  "leapYear y \<longleftrightarrow> (4 dvd y \<and> \<not> 100 dvd y) \<or> 400 dvd y"

definition monthDays :: "int \<Rightarrow> int list" where
  "monthDays y = [31, if leapYear y then 29 else 28, 31, 30, 31, 30, 31, 31, 30, 31, 30, 31]"

definition daysBefore :: "int \<Rightarrow> int \<Rightarrow> int" where
  "daysBefore y m =
     365 * (y - 1) + (y - 1) div 4 - (y - 1) div 100 + (y - 1) div 400 +
     sum_list (take (nat (m - 1)) (monthDays y))"

definition utcDate :: "int \<Rightarrow> int \<Rightarrow> int \<Rightarrow> gtime" where
  "utcDate y m d = (daysBefore y m + (d - 1)) * (24 * hour)"

definition dayCutoff :: "int \<Rightarrow> int \<Rightarrow> int \<Rightarrow> gtime" where
  "dayCutoff y m d = utcDate y m (d + 1) + stillAppendingHorizon"

definition parseDay :: "string \<Rightarrow> string \<Rightarrow> string \<Rightarrow> (int \<times> int \<times> int) option" where
  "parseDay year month day =
     (case (Atoi year, Atoi month, Atoi day) of
        (Some yy, Some mm, Some dd) \<Rightarrow>
          (if length year \<noteq> 4 \<or> length month \<noteq> 2 \<or> length day \<noteq> 2 \<or> mm < 1 \<or> mm > 12 \<or> dd < 1 \<or> dd > 31
           then None else Some (yy, mm, dd))
      | _ \<Rightarrow> None)"

definition pastHorizon :: "walkConfig \<Rightarrow> candidateWalk \<Rightarrow> string \<Rightarrow> string \<Rightarrow> string \<Rightarrow> gtime \<times> bool" where
  "pastHorizon cfg w year month day =
     (if int (length (wk_top w)) < wc_maxFiles cfg then (zeroTime, False)
      else
        (case parseDay year month day of
           None \<Rightarrow> (zeroTime, False)
         | Some (yy, mm, dd) \<Rightarrow>
             (let cutoff = dayCutoff yy mm dd
              in (cutoff, cutoff < cd_modTime (wk_top w ! nat (wc_maxFiles cfg - 1))))))"

text \<open>The first loop of \<^verbatim>\<open>dir\<close>: a directory's files, each statted into the slate.\<close>

definition statFile ::
    "walkConfig \<Rightarrow> string \<Rightarrow> storeEntry \<Rightarrow> candidateWalk \<Rightarrow> candidateWalk \<times> walkError option" where
  "statFile cfg path e w =
     (case e of
        DirEntry _ _ \<Rightarrow> (w, None)
      | FileEntry name stat \<Rightarrow>
          (if \<not> isRollout name then (w, None)
           else
             (case stat of
                StatGone \<Rightarrow> (w, None)
              | StatFailed \<Rightarrow> (w, Some errRead)
              | StatOk sz mtime \<Rightarrow>
                  (let (slate, dropped) =
                         insertCandidate (wk_top w)
                           \<lparr>cd_path = joinPath path name, cd_size = sz, cd_modTime = mtime\<rparr>
                           (wc_maxFiles cfg);
                       w1 = w\<lparr>wk_top := slate\<rparr>
                   in (case dropped of
                         None \<Rightarrow> w1
                       | Some d \<Rightarrow> noteMissed (cd_modTime d + recordOvershootBound) w1,
                       None)))))"

fun walkFiles ::
    "walkConfig \<Rightarrow> string \<Rightarrow> storeEntry list \<Rightarrow> candidateWalk \<Rightarrow> candidateWalk \<times> walkError option" where
  "walkFiles cfg path [] w = (w, None)"
| "walkFiles cfg path (e # es) w =
     (let w1 = w\<lparr>wk_seen := Suc (wk_seen w)\<rparr>;
          due = (wk_seen w1 mod 256 = 0);
          w2 = (if due then w1\<lparr>wk_ticks := Suc (wk_ticks w1)\<rparr> else w1)
      in if due \<and> wc_now cfg (wk_ticks w1) > wc_deadline cfg then (w2, Some errDeadline)
         else (case statFile cfg path e w2 of
                 (w3, Some err) \<Rightarrow> (w3, Some err)
               | (w3, None) \<Rightarrow> walkFiles cfg path es w3))"

text \<open>The names of a directory in descending order; no two entries of a directory have one name.\<close>

definition descending :: "storeEntry list \<Rightarrow> storeEntry list" where
  "descending es = rev (sort_key entryName es)"

lemma set_descending [simp]: "set (descending es) = set es"
  by (simp add: descending_def)

lemma length_descending [simp]: "length (descending es) = length es"
  by (simp add: descending_def)

lemma mset_descending: "mset (descending es) = mset es"
  by (simp add: descending_def)

lemma size_descending: "size_list size (descending es) = size_list (size :: storeEntry \<Rightarrow> nat) es"
proof -
  have "size_list size xs = sum_mset (image_mset size (mset xs)) + size (mset xs)" for xs :: "storeEntry list"
    by (induction xs) auto
  then show ?thesis
    by (simp add: mset_descending)
qed

text \<open>
  \<^verbatim>\<open>dir\<close> on one directory, and its second loop, over the subdirectories. \<open>year\<close> and \<open>month\<close> are the
  ancestors' names.
\<close>

function walkDir ::
    "walkConfig \<Rightarrow> dirRead \<Rightarrow> string \<Rightarrow> nat \<Rightarrow> string \<Rightarrow> string \<Rightarrow> candidateWalk \<Rightarrow> candidateWalk \<times> walkError option"
  and walkSubs ::
    "walkConfig \<Rightarrow> storeEntry list \<Rightarrow> string \<Rightarrow> nat \<Rightarrow> string \<Rightarrow> string \<Rightarrow> candidateWalk \<Rightarrow> candidateWalk \<times> walkError option"
where
  "walkDir cfg d path depth year month w =
     (if wk_stopped w then (w, None)
      else
        (case d of
           DirGone \<Rightarrow> (w, None)
         | DirFailed \<Rightarrow> (w, Some errRead)
         | DirEntries es \<Rightarrow>
             (case walkFiles cfg path (descending es) w of
                (w1, Some err) \<Rightarrow> (w1, Some err)
              | (w1, None) \<Rightarrow> walkSubs cfg (descending es) path depth year month w1)))"
| "walkSubs cfg [] path depth year month w = (w, None)"
| "walkSubs cfg (e # es) path depth year month w =
     (if wk_stopped w then (w, None)
      else
        (case e of
           FileEntry _ _ \<Rightarrow> walkSubs cfg es path depth year month w
         | DirEntry name sub \<Rightarrow>
             (let (cutoff, certified) = pastHorizon cfg w year month name
              in if depth = 2 \<and> certified
                 then ((noteMissed (cutoff + recordOvershootBound) w)\<lparr>wk_stopped := True\<rparr>, None)
                 else
                   (let w1 = w\<lparr>wk_ticks := Suc (wk_ticks w)\<rparr>
                    in if wc_now cfg (wk_ticks w) > wc_deadline cfg then (w1, Some errDeadline)
                       else
                         (case walkDir cfg sub (joinPath path name) (Suc depth)
                                 (if depth = 0 then name else year) (if depth = 1 then name else month) w1 of
                            (w2, Some err) \<Rightarrow> (w2, Some err)
                          | (w2, None) \<Rightarrow> walkSubs cfg es path depth year month w2)))))"
  by pat_completeness auto

termination
  by (relation "measure (\<lambda>x. case x of
        Inl (cfg, d, path, depth, year, month, w) \<Rightarrow> size d
      | Inr (cfg, es, path, depth, year, month, w) \<Rightarrow> size_list size es)")
    (auto simp: size_descending)

declare walkDir.simps [simp del] walkSubs.simps [simp del]

subsection \<open>Enumeration\<close>

record enumeration =
  en_files :: "candidate list"
  en_bounded :: bool
  en_hasMissed :: bool
  en_missedCeiling :: gtime

definition newWalk :: "nat \<Rightarrow> candidateWalk" where
  "newWalk ticks =
     \<lparr>wk_top = [], wk_seen = 0, wk_stopped = False, wk_hasMissed = False, wk_missedCeiling = zeroTime,
       wk_ticks = ticks\<rparr>"

text \<open>
  \<^verbatim>\<open>candidates\<close>: \<open>None\<close> is an error; with the enumeration comes the number of clock readings. The store
  is the answer for \<^verbatim>\<open><home>/sessions\<close>.
\<close>

definition candidates ::
    "(candidate list \<Rightarrow> candidate list) \<Rightarrow> walkConfig \<Rightarrow> dirRead \<Rightarrow> string \<Rightarrow> nat \<Rightarrow> enumeration option \<times> nat" where
  "candidates order cfg store home ticks =
     (let (walk, err) = walkDir cfg store (joinPath home ''sessions'') 0 [] [] (newWalk ticks);
          listed = \<lparr>en_files = order (wk_top walk), en_bounded = (err = Some errDeadline),
            en_hasMissed = wk_hasMissed walk, en_missedCeiling = wk_missedCeiling walk\<rparr>;
          none = \<lparr>en_files = [], en_bounded = False, en_hasMissed = False, en_missedCeiling = zeroTime\<rparr>
      in ((if err \<noteq> None \<and> err \<noteq> Some errDeadline
           then (if err = Some errNotExist then Some none else None)
           else Some listed),
          wk_ticks walk))"

subsection \<open>The memo\<close>

record fileMemo =
  fm_size :: int
  fm_modTime :: gtime
  fm_watermark :: int
  fm_window :: int
  fm_claim :: fileClaim
  fm_bounded :: bool

text \<open>\<^verbatim>\<open>fileClaim\<close> of the indexer: the scan's result, from the memo when nothing it depends on changed.\<close>

definition memoClaim ::
    "wire \<Rightarrow> (string \<Rightarrow> fileRead) \<Rightarrow> fileMemo gomap \<Rightarrow> candidate \<Rightarrow> Options \<Rightarrow> int \<Rightarrow>
     (fileClaim \<times> bool \<times> int) option \<times> fileMemo gomap" where
  "memoClaim W rd memo c op window =
     (let watermark = get0 (op_CarriedPrefixes op) (cd_path c);
          scan =
            (case scanTail W rd (cd_path c) (cd_size c) watermark window of
               None \<Rightarrow> (None, memo)
             | Some (claim, bounded, bytesRead) \<Rightarrow>
                 (Some (claim, bounded, bytesRead),
                  AList.update (cd_path c)
                    \<lparr>fm_size = cd_size c, fm_modTime = cd_modTime c, fm_watermark = watermark,
                      fm_window = window, fm_claim = claim, fm_bounded = bounded\<rparr> memo))
      in case map_of memo (cd_path c) of
           None \<Rightarrow> scan
         | Some prev \<Rightarrow>
             (if fm_size prev = cd_size c \<and> fm_modTime prev = cd_modTime c \<and>
                 fm_watermark prev = watermark \<and> fm_window prev = window
              then (Some (fm_claim prev, fm_bounded prev, 0), memo)
              else scan))"

subsection \<open>A refresh\<close>

datatype ReadStatus = StatusNone | StatusObserved | StatusUnknown

record AccountReading =
  ar_Status :: ReadStatus
  ar_Reading :: UsageReading
  ar_Reason :: string
  ar_Files :: int
  ar_BytesRead :: int

text \<open>The state of the loop over the slate.\<close>

record refreshLoop =
  rl_suspect :: bool
  rl_ceiling :: gtime
  rl_best :: "fileClaim option"
  rl_bytes :: int
  rl_memo :: "fileMemo gomap"
  rl_ticks :: nat

definition noteSuspect :: "candidate \<Rightarrow> refreshLoop \<Rightarrow> refreshLoop" where
  "noteSuspect c r =
     (let bound = cd_modTime c + recordOvershootBound
      in r\<lparr>rl_ceiling := (if bound > rl_ceiling r then bound else rl_ceiling r), rl_suspect := True\<rparr>)"

definition takeBest :: "fileClaim \<Rightarrow> refreshLoop \<Rightarrow> refreshLoop" where
  "takeBest claim r =
     (if fc_verdict claim = RateLimitsAbsent then r
      else
        (case rl_best r of
           None \<Rightarrow> r\<lparr>rl_best := Some claim\<rparr>
         | Some b \<Rightarrow> (if fc_sortAt claim > fc_sortAt b then r\<lparr>rl_best := Some claim\<rparr> else r)))"

text \<open>One file of the slate that is not skipped. An error leaves the zero claim, which is absent.\<close>

definition scanStep ::
    "wire \<Rightarrow> (string \<Rightarrow> fileRead) \<Rightarrow> Options \<Rightarrow> candidate \<Rightarrow> refreshLoop \<Rightarrow> refreshLoop" where
  "scanStep W rd op c r =
     (let remaining = op_MaxTotalBytes op - rl_bytes r;
          window = (if remaining < op_MaxPerFileBytes op then remaining else op_MaxPerFileBytes op);
          (result, memo) = memoClaim W rd (rl_memo r) c op window;
          r1 = r\<lparr>rl_memo := memo\<rparr>
      in case result of
           None \<Rightarrow> noteSuspect c r1
         | Some (claim, bounded, bytesRead) \<Rightarrow>
             (let r2 = r1\<lparr>rl_bytes := rl_bytes r + bytesRead\<rparr>
              in takeBest claim (if bounded then noteSuspect c r2 else r2)))"

fun scanFiles ::
    "wire \<Rightarrow> (string \<Rightarrow> fileRead) \<Rightarrow> Options \<Rightarrow> walkConfig \<Rightarrow> candidate list \<Rightarrow> refreshLoop \<Rightarrow> refreshLoop" where
  "scanFiles W rd op cfg [] r = r"
| "scanFiles W rd op cfg (c # cs) r =
     (let r1 = r\<lparr>rl_ticks := Suc (rl_ticks r)\<rparr>
      in if wc_now cfg (rl_ticks r) > wc_deadline cfg \<or> rl_bytes r \<ge> op_MaxTotalBytes op
         then noteSuspect c r1
         else scanFiles W rd op cfg cs (scanStep W rd op c r1))"

definition unknownReading :: "string \<Rightarrow> AccountReading" where
  "unknownReading reason =
     \<lparr>ar_Status = StatusUnknown, ar_Reading = noReading, ar_Reason = reason, ar_Files = 0, ar_BytesRead = 0\<rparr>"

definition verdictOf :: "bool \<Rightarrow> refreshLoop \<Rightarrow> ReadStatus \<times> UsageReading \<times> string" where
  "verdictOf indeterminate r =
     (case rl_best r of
        None \<Rightarrow>
          (if indeterminate \<or> rl_suspect r then (StatusUnknown, noReading, ''scan-bounded'')
           else (StatusNone, noReading, []))
      | Some b \<Rightarrow>
          (if fc_verdict b = RateLimitsMalformed then (StatusUnknown, noReading, ''malformed-record'')
           else if indeterminate \<or> (rl_suspect r \<and> rl_ceiling r > fc_sortAt b)
           then (StatusUnknown, noReading, ''scan-bounded'')
           else (StatusObserved, fc_reading b, [])))"

text \<open>
  A refresh, with the store and what its reads answer: the reading and the memo it leaves. The first
  reading of the clock sets the deadline.
\<close>

record rolloutStore =
  rs_sessions :: dirRead
  rs_read :: "string \<Rightarrow> fileRead"
  rs_now :: "nat \<Rightarrow> gtime"
  rs_order :: "candidate list \<Rightarrow> candidate list"

definition configFor :: "rolloutStore \<Rightarrow> Options \<Rightarrow> walkConfig" where
  "configFor st op =
     \<lparr>wc_maxFiles = op_MaxFiles op, wc_deadline = rs_now st 0 + op_Deadline op, wc_now = rs_now st\<rparr>"

definition Refresh ::
    "wire \<Rightarrow> rolloutStore \<Rightarrow> string \<Rightarrow> Options \<Rightarrow> fileMemo gomap \<Rightarrow> AccountReading \<times> fileMemo gomap" where
  "Refresh W st home op0 memo =
     (let op = withDefaults op0;
          cfg = configFor st op
      in case candidates (rs_order st) cfg (rs_sessions st) home 1 of
           (None, _) \<Rightarrow> (unknownReading ''store-unreadable'', memo)
         | (Some en, ticks) \<Rightarrow>
             (let r = scanFiles W (rs_read st) op cfg (en_files en)
                        \<lparr>rl_suspect = en_hasMissed en, rl_ceiling = en_missedCeiling en, rl_best = None,
                          rl_bytes = 0, rl_memo = memo, rl_ticks = ticks\<rparr>;
                  indeterminate = (en_bounded en \<or> wc_now cfg (rl_ticks r) > wc_deadline cfg);
                  (status, reading, reason) = verdictOf indeterminate r
              in (\<lparr>ar_Status = status, ar_Reading = reading, ar_Reason = reason,
                     ar_Files = int (length (en_files en)), ar_BytesRead = rl_bytes r\<rparr>,
                  rl_memo r)))"

subsection \<open>Consumers\<close>

definition readingFactsFrom :: "AccountReading \<Rightarrow> ReadingFacts" where
  "readingFactsFrom reading =
     (case ar_Status reading of
        StatusObserved \<Rightarrow>
          (let ws = ur_Windows (ar_Reading reading)
           in \<lparr>rf_Status = ReadingObserved,
                rf_Windows = map (\<lambda>w. \<lparr>wf_Name = uw_Name w, wf_UsedPercent = uw_UsedPercent w,
                                         wf_ResetsAt = uw_ResetsAt w\<rparr>) ws,
                rf_RecordedAt = ur_RecordedAt (ar_Reading reading),
                rf_Complete = list_all (\<lambda>n. n \<in> set (map uw_Name ws)) codexWindowSlotNames\<rparr>)
      | StatusUnknown \<Rightarrow>
          \<lparr>rf_Status = ReadingUnknown, rf_Windows = [], rf_RecordedAt = zeroTime, rf_Complete = False\<rparr>
      | StatusNone \<Rightarrow>
          \<lparr>rf_Status = ReadingNone, rf_Windows = [], rf_RecordedAt = zeroTime, rf_Complete = False\<rparr>)"

definition usageReadingProof :: "AccountReading \<Rightarrow> int \<Rightarrow> gtime \<Rightarrow> gtime option" where
  "usageReadingProof reading wallPercent now =
     (let recorded = ur_RecordedAt (ar_Reading reading);
          ws = ur_Windows (ar_Reading reading)
      in if ar_Status reading \<noteq> StatusObserved then None
         else if isZero recorded \<or> recorded > now then None
         else if ws = [] then None
         else if list_ex (\<lambda>w. uw_UsedPercent w \<ge> of_int wallPercent) ws then None
         else if \<not> list_all (\<lambda>n. n \<in> set (map uw_Name ws)) codexWindowSlotNames then None
         else Some recorded)"

end
