(* ===== verification/Rate_Walk.thy ===== *)
theory Rate_Walk
  imports Rate_Index
begin

text \<open>
  What one scan of a file finds and what the walk over a store accounts for: every rollout is a candidate,
  or lies under the ceiling the walk reports for what it left unexamined. The order of the days behind
  the early stop is the order of the directory names.
\<close>

subsection \<open>Vocabulary\<close>

text \<open>The rollouts of a store that can be statted, each with the names of its ancestors.\<close>

fun ownFile :: "string \<Rightarrow> storeEntry \<Rightarrow> candidate option" where
  "ownFile path (FileEntry name (StatOk sz mtime)) =
     (if isRollout name then Some \<lparr>cd_path = joinPath path name, cd_size = sz, cd_modTime = mtime\<rparr> else None)"
| "ownFile path (FileEntry name StatGone) = None"
| "ownFile path (FileEntry name StatFailed) = None"
| "ownFile path (DirEntry name d) = None"

function dirFiles :: "string \<Rightarrow> string list \<Rightarrow> dirRead \<Rightarrow> (string list \<times> candidate) list"
  and subFiles :: "string \<Rightarrow> string list \<Rightarrow> storeEntry list \<Rightarrow> (string list \<times> candidate) list" where
  "dirFiles path anc DirGone = []"
| "dirFiles path anc DirFailed = []"
| "dirFiles path anc (DirEntries es) =
     map (Pair anc) (List.map_filter (ownFile path) es) @ subFiles path anc es"
| "subFiles path anc [] = []"
| "subFiles path anc (FileEntry name s # es) = subFiles path anc es"
| "subFiles path anc (DirEntry name d # es) =
     dirFiles (joinPath path name) (anc @ [name]) d @ subFiles path anc es"
  by pat_completeness auto
termination
  by (relation "measure (\<lambda>x. case x of Inl (p, a, d) \<Rightarrow> size d | Inr (p, a, es) \<Rightarrow> size_list size es)") auto

definition storeFiles :: "rolloutStore \<Rightarrow> string \<Rightarrow> (string list \<times> candidate) list" where
  "storeFiles st home = dirFiles (joinPath home ''sessions'') [] (rs_sessions st)"

text \<open>
  The claims of a file that count: those of the lines that begin at or after its watermark, within the
  size the walk saw.
\<close>

definition fileClaims :: "wire \<Rightarrow> (string \<Rightarrow> fileRead) \<Rightarrow> int gomap \<Rightarrow> candidate \<Rightarrow> fileClaim list" where
  "fileClaims W rd carried c =
     (let wm = get0 carried (cd_path c)
      in if cd_size c \<le> wm then []
         else (case rd (cd_path c) of
                 FileUnreadable \<Rightarrow> []
               | FileIs mtime content \<Rightarrow>
                   List.map_filter (lineClaim W mtime)
                     (splitOn (CHR 0x0A) (take (nat (cd_size c - max 0 wm)) (drop (nat wm) content)))))"

text \<open>A file whose part past the watermark could not be read: nobody knows what it claims.\<close>

definition hiddenFile :: "(string \<Rightarrow> fileRead) \<Rightarrow> int gomap \<Rightarrow> candidate \<Rightarrow> bool" where
  "hiddenFile rd carried c \<longleftrightarrow> get0 carried (cd_path c) < cd_size c \<and> rd (cd_path c) = FileUnreadable"

subsection \<open>One file\<close>

lemma scanTail_hidden: "hiddenFile rd carried c \<Longrightarrow> scanTail W rd (cd_path c) (cd_size c) (get0 carried (cd_path c)) window = None"
  by (simp add: hiddenFile_def scanTail_def Let_def)

lemma lineClaim_present: "lineClaim W t l = Some c \<Longrightarrow> fc_verdict c \<noteq> RateLimitsAbsent"
  by (auto simp: lineClaim_def Let_def split: prod.splits if_splits RateLimitsVerdict.splits)

lemma lineClaim_parsed:
  "lineClaim W t l = Some c \<Longrightarrow> fc_verdict c = RateLimitsParsed \<Longrightarrow> fc_sortAt c = ur_RecordedAt (fc_reading c)"
  by (auto simp: lineClaim_def Let_def split: prod.splits if_splits RateLimitsVerdict.splits)

lemma set_map_filter: "set (List.map_filter f xs) = {y. \<exists>x \<in> set xs. f x = Some y}"
  by (force simp: List.map_filter_def)

lemma newestLine_found:
  "newestLine W t lines cl True = r \<Longrightarrow>
     (r = cl \<or> r \<in> set (List.map_filter (lineClaim W t) lines)) \<and> fc_sortAt cl \<le> fc_sortAt r \<and>
     (\<forall>c \<in> set (List.map_filter (lineClaim W t) lines). fc_sortAt c \<le> fc_sortAt r)"
proof (induction lines arbitrary: cl)
  case (Cons l ls)
  then show ?case
    by (fastforce simp: map_filter_simps split: option.splits if_splits)
qed (simp add: map_filter_simps)

lemma newestLine_spec:
  "(List.map_filter (lineClaim W t) lines = [] \<and> newestLine W t lines cl False = cl) \<or>
   (newestLine W t lines cl False \<in> set (List.map_filter (lineClaim W t) lines) \<and>
    (\<forall>c \<in> set (List.map_filter (lineClaim W t) lines). fc_sortAt c \<le> fc_sortAt (newestLine W t lines cl False)))"
proof (induction lines)
  case (Cons l ls)
  then show ?case
    using newestLine_found [of W t ls "the (lineClaim W t l)"]
    by (cases "lineClaim W t l") (auto simp: map_filter_simps)
qed (simp add: map_filter_simps)

lemma splitOn_ne: "splitOn d s \<noteq> []"
  by (cases s) (auto split: list.splits)

lemma splitOn_suffix: "\<exists>m. tl (splitOn d (drop k s)) = drop (Suc m) (splitOn d s)"
proof (induction s arbitrary: k)
  case (Cons c cs)
  show ?case
  proof (cases k)
    case 0
    then show ?thesis by (auto intro: exI [of _ 0] simp: drop_Suc)
  next
    case (Suc n)
    obtain m where m: "tl (splitOn d (drop n cs)) = drop (Suc m) (splitOn d cs)"
      using Cons.IH by blast
    show ?thesis
    proof (cases "c = d")
      case True
      then show ?thesis using m Suc by (auto intro: exI [of _ "Suc m"])
    next
      case False
      then show ?thesis using m Suc splitOn_ne [of d cs]
        by (cases "splitOn d cs") (auto intro: exI [of _ m])
    qed
  qed
qed (auto intro: exI [of _ 0])

text \<open>
  A scan of one file: its claim is one of the claims that count, and unless the scan was bounded it is a
  newest one, absent only when there is none.
\<close>

lemma scanTail_spec:
  assumes "scanTail W rd (cd_path c) (cd_size c) (get0 carried (cd_path c)) window = Some (cl, bounded, n)"
  shows "cl = noClaim \<or> cl \<in> set (fileClaims W rd carried c)"
    and "\<not> bounded \<Longrightarrow> cl' \<in> set (fileClaims W rd carried c) \<Longrightarrow>
      cl \<noteq> noClaim \<and> fc_sortAt cl' \<le> fc_sortAt cl"
proof -
  let ?wm = "get0 carried (cd_path c)"
  define lo where "lo = max 0 (max ?wm (cd_size c - window))"
  have "(cl = noClaim \<or> cl \<in> set (fileClaims W rd carried c)) \<and>
    (\<not> bounded \<longrightarrow> (\<forall>cl' \<in> set (fileClaims W rd carried c). cl \<noteq> noClaim \<and> fc_sortAt cl' \<le> fc_sortAt cl))"
  proof (cases "cd_size c \<le> ?wm")
    case True
    then show ?thesis using assms by (simp add: scanTail_def fileClaims_def)
  next
    case small: False
    show ?thesis
    proof (cases "rd (cd_path c)")
      case FileUnreadable
      then show ?thesis using assms small by (simp add: scanTail_def Let_def)
    next
      case (FileIs mtime content)
      define region where "region = take (nat (cd_size c - max 0 ?wm)) (drop (nat ?wm) content)"
      define buf where "buf = take (nat (cd_size c - lo)) (drop (nat lo) content)"
      define lns where "lns = (if lo > 0 \<and> lo \<noteq> ?wm then tl (splitOn (CHR 0x0A) buf) else splitOn (CHR 0x0A) buf)"
      have cl: "cl = newestLine W mtime lns noClaim False" and b: "bounded \<longleftrightarrow> lo > ?wm"
        using assms small FileIs
        by (auto simp: scanTail_def Let_def lo_def lns_def buf_def max_def split: if_splits)
      have cs: "fileClaims W rd carried c = List.map_filter (lineClaim W mtime) (splitOn (CHR 0x0A) region)"
        using small FileIs by (simp add: fileClaims_def Let_def region_def)
      have buf: "buf = drop (nat (lo - max 0 ?wm)) region"
      proof -
        have "nat (lo - max 0 ?wm) + nat ?wm = nat lo"
          and "nat (cd_size c - max 0 ?wm) - nat (lo - max 0 ?wm) = nat (cd_size c - lo)"
          by (auto simp: lo_def max_def nat_add_distrib nat_diff_distrib)
        then show ?thesis
          by (simp add: region_def buf_def drop_take)
      qed
      have sub: "set lns \<subseteq> set (splitOn (CHR 0x0A) region)"
      proof (cases "lo > 0 \<and> lo \<noteq> ?wm")
        case True
        then show ?thesis
          using splitOn_suffix [of "CHR 0x0A" "nat (lo - max 0 ?wm)" region]
          by (auto simp: lns_def buf dest: in_set_dropD)
      next
        case False
        then have "nat (lo - max 0 ?wm) = 0" by (auto simp: lo_def)
        with False show ?thesis by (auto simp: lns_def buf)
      qed
      have full: "lns = splitOn (CHR 0x0A) region" if "\<not> lo > ?wm"
      proof -
        from that have "lo = ?wm" by (simp add: lo_def)
        then show ?thesis by (simp add: lns_def buf lo_def)
      qed
      show ?thesis
        using newestLine_spec [of W mtime lns noClaim] sub full lineClaim_present
        unfolding cl [symmetric] cs b
        by (fastforce simp: set_map_filter noClaim_def)
    qed
  qed
  then show "cl = noClaim \<or> cl \<in> set (fileClaims W rd carried c)"
    and "\<not> bounded \<Longrightarrow> cl' \<in> set (fileClaims W rd carried c) \<Longrightarrow>
      cl \<noteq> noClaim \<and> fc_sortAt cl' \<le> fc_sortAt cl"
    by blast+
qed

subsection \<open>Dates\<close>

lemma digitsVal_foldl: "foldl (\<lambda>v c. 10 * v + digitVal c) a s = a * 10 ^ length s + digitsVal s"
proof (induction s arbitrary: a)
  case (Cons c cs)
  show ?case
    using Cons.IH [of "10 * a + digitVal c"] Cons.IH [of "digitVal c"]
    by (simp add: digitsVal_def algebra_simps)
qed (simp add: digitsVal_def)

lemma digitsVal_Cons: "digitsVal (c # s) = digitVal c * 10 ^ length s + digitsVal s"
  using digitsVal_foldl [of "digitVal c" s] by (simp add: digitsVal_def)

lemma digitVal_le: "isDigit c \<Longrightarrow> digitVal c \<le> 9"
  by (auto simp: isDigit_def digitVal_def)

lemma digitsVal_bound: "list_all isDigit s \<Longrightarrow> digitsVal s < 10 ^ length s"
proof (induction s)
  case (Cons c cs)
  then have "digitVal c \<le> 9" "digitsVal cs < 10 ^ length cs" by (auto simp: digitVal_le)
  then have "digitVal c * 10 ^ length cs \<le> 9 * 10 ^ length cs" by (intro mult_le_mono1)
  from add_le_less_mono [OF this \<open>digitsVal cs < _\<close>] show ?case by (simp add: digitsVal_Cons)
qed (simp add: digitsVal_def)

lemma char_less: "(c :: char) < d \<longleftrightarrow> code c < (code d :: nat)"
  by (simp add: less_char_def)

lemma digitsVal_mono:
  "length s = length t \<Longrightarrow> list_all isDigit s \<Longrightarrow> list_all isDigit t \<Longrightarrow> s < t \<Longrightarrow> digitsVal s < digitsVal t"
proof (induction s t rule: list_induct2)
  case (Cons a s b t)
  show ?case
  proof (cases "a = b")
    case True
    then show ?thesis using Cons by (simp add: digitsVal_Cons)
  next
    case False
    with Cons.prems have "code a < (code b :: nat)" by (simp add: char_less)
    with Cons.prems have "Suc (digitVal a) \<le> digitVal b" by (auto simp: digitVal_def isDigit_def)
    then have "Suc (digitVal a) * 10 ^ length t \<le> digitVal b * 10 ^ length t" by (rule mult_le_mono1)
    with digitsVal_bound [of s] Cons show ?thesis by (simp add: digitsVal_Cons)
  qed
qed simp

text \<open>Digits are above signs: what is parsed and not below a string of digits consists of digits.\<close>

lemma Atoi_above:
  assumes "length s = length t" "s \<noteq> []" "list_all isDigit s" "s \<le> t" "Atoi t = Some v"
  shows "list_all isDigit t \<and> v = int (digitsVal t)"
proof -
  obtain c cs d ds where st: "s = c # cs" "t = d # ds" "isDigit c"
    using assms by (cases s; cases t) auto
  with assms(4) have "c \<le> d" by auto
  then have "code c \<le> (code d :: nat)" by (simp add: less_eq_char_def)
  with st(3) have "d \<noteq> CHR ''-''" "d \<noteq> CHR ''+''" by (auto simp: isDigit_def)
  with assms(5) st show ?thesis
    by (auto simp: Atoi_def Let_def split: if_splits)
qed

lemma Atoi_numeral: "list_all isDigit s \<Longrightarrow> Atoi s = Some v \<Longrightarrow> v = int (digitsVal s)"
  by (cases s) (auto simp: Atoi_def Let_def isDigit_def split: if_splits)

definition properDay :: "string \<Rightarrow> string \<Rightarrow> string \<Rightarrow> bool" where
  "properDay y m d \<longleftrightarrow>
     list_all isDigit (y @ m @ d) \<and>
     (case parseDay y m d of None \<Rightarrow> False | Some (yy, mm, dd) \<Rightarrow> dd \<le> monthDays yy ! nat (mm - 1))"

definition cutoffOf :: "string \<Rightarrow> string \<Rightarrow> string \<Rightarrow> gtime" where
  "cutoffOf y m d = (case parseDay y m d of None \<Rightarrow> zeroTime | Some (yy, mm, dd) \<Rightarrow> dayCutoff yy mm dd)"

lemma dayCutoff_eq: "dayCutoff y m d = (daysBefore y m + d) * (24 * hour) + stillAppendingHorizon"
  by (simp add: dayCutoff_def utcDate_def)

lemma length_monthDays [simp]: "length (monthDays y) = 12"
  by (simp add: monthDays_def)

lemma monthDays_nonneg: "n \<in> set (monthDays y) \<Longrightarrow> 0 \<le> n"
  by (auto simp: monthDays_def split: if_splits)

lemma sum_monthDays: "sum_list (monthDays y) = (if leapYear y then 366 else 365)"
  by (simp add: monthDays_def)

lemma sum_take_mono:
  fixes xs :: "int list"
  shows "(\<And>x. x \<in> set xs \<Longrightarrow> 0 \<le> x) \<Longrightarrow> i \<le> j \<Longrightarrow> sum_list (take i xs) \<le> sum_list (take j xs)"
proof -
  assume nn: "\<And>x. x \<in> set xs \<Longrightarrow> 0 \<le> x" and "i \<le> j"
  then have "take j xs = take i xs @ take (j - i) (drop i xs)"
    by (metis le_add_diff_inverse take_add)
  moreover have "0 \<le> sum_list (take (j - i) (drop i xs))"
    using nn by (intro sum_list_nonneg) (meson in_set_dropD in_set_takeD)
  ultimately show ?thesis by simp
qed

lemma daysBefore_month: "m \<le> m' \<Longrightarrow> daysBefore y m \<le> daysBefore y m'"
  unfolding daysBefore_def by (intro add_left_mono sum_take_mono) (auto dest: monthDays_nonneg)

lemma daysBefore_next:
  assumes "1 \<le> m" "m \<le> 12"
  shows "daysBefore y m + monthDays y ! nat (m - 1) = daysBefore y (m + 1)"
proof -
  define k where "k = nat (m - 1)"
  then have k: "m = int k + 1" "k < 12" using assms by auto
  then have "nat (m - 1) = k" "nat (m + 1 - 1) = Suc k" by auto
  moreover have "take (Suc k) (monthDays y) = take k (monthDays y) @ [monthDays y ! k]"
    using k by (simp add: take_Suc_conv_app_nth)
  ultimately show ?thesis by (simp add: daysBefore_def)
qed

lemma daysBefore_year: "daysBefore y 13 = daysBefore (y + 1) 1"
proof -
  have leap: "y div k - (y - 1) div k = (if k dvd y then 1 else 0)" if "0 < k" for k :: int
  proof (cases "k dvd y")
    case True
    then obtain q where q: "y = k * q" by (auto elim: dvdE)
    have "(k * q - 1) div k = q - 1"
      using that by (intro int_div_pos_eq [of _ _ _ "k - 1"]) (auto simp: algebra_simps)
    then show ?thesis using q that by simp
  next
    case False
    have "y = k * (y div k) + y mod k" by simp
    moreover have "y mod k \<noteq> 0" "0 \<le> y mod k" "y mod k < k"
      using that False by (simp_all add: dvd_eq_mod_eq_0)
    ultimately have "(y - 1) div k = y div k"
      by (intro int_div_pos_eq [of _ _ _ "y mod k - 1"]) auto
    then show ?thesis using False by simp
  qed
  have l: "(if leapYear y then 1 else 0 :: int) =
      (if 4 dvd y then 1 else 0) - (if 100 dvd y then 1 else 0) + (if 400 dvd y then 1 else 0)"
  proof -
    have "400 dvd y \<Longrightarrow> 100 dvd y" "100 dvd y \<Longrightarrow> 4 dvd y" by presburger+
    then show ?thesis by (auto simp: leapYear_def)
  qed
  have t: "take (nat (13 - 1)) (monthDays y) = monthDays y" by simp
  have t1: "take (nat (1 - 1)) (monthDays (y + 1)) = []" by simp
  have "daysBefore y 13 = 365 * (y - 1) + (y - 1) div 4 - (y - 1) div 100 + (y - 1) div 400 + (if leapYear y then 366 else 365)"
    unfolding daysBefore_def t sum_monthDays by (rule refl)
  also have "\<dots> = 365 * y + y div 4 - y div 100 + y div 400"
  proof -
    have "y div 4 - (y - 1) div 4 = (if 4 dvd y then 1 else 0)"
      "y div 100 - (y - 1) div 100 = (if 100 dvd y then 1 else 0)"
      "y div 400 - (y - 1) div 400 = (if 400 dvd y then 1 else 0)"
      by (rule leap, simp)+
    moreover have "(if leapYear y then 366 else 365 :: int) = 365 + (if leapYear y then 1 else 0)" by simp
    moreover have "a - a' = i \<Longrightarrow> b - b' = j \<Longrightarrow> c - c' = k \<Longrightarrow> M = 365 + L \<Longrightarrow> L = i - j + k \<Longrightarrow>
        365 * (y - 1) + a' - b' + c' + M = 365 * y + a - b + c" for a b c a' b' c' i j k L M :: int
      by (simp add: algebra_simps)
    ultimately show ?thesis using l by blast
  qed
  also have "\<dots> = daysBefore (y + 1) 1"
    unfolding daysBefore_def t1 by simp
  finally show ?thesis .
qed

lemma daysBefore_years: "y \<le> y' \<Longrightarrow> daysBefore y 1 \<le> daysBefore y' 1"
proof (induction y' rule: int_ge_induct)
  case (step i)
  then show ?case
    using daysBefore_month [of 1 13 i] daysBefore_year [of i] by linarith
qed simp

text \<open>A proper day is not cut off later than any day that is not before it in the order of the walk.\<close>

lemma cutoff_order:
  assumes "properDay y m d" and p: "parseDay y' m' d' = Some p"
    and le: "y < y' \<or> y = y' \<and> (m < m' \<or> m = m' \<and> d \<le> d')"
  shows "cutoffOf y m d \<le> cutoffOf y' m' d'"
proof -
  obtain yy mm dd where pd: "parseDay y m d = Some (yy, mm, dd)"
    and dig: "list_all isDigit y" "list_all isDigit m" "list_all isDigit d"
    and dmax: "dd \<le> monthDays yy ! nat (mm - 1)"
    using assms(1) by (auto simp: properDay_def split: option.splits)
  obtain yy' mm' dd' where pd': "parseDay y' m' d' = Some (yy', mm', dd')"
    using p by (cases p) auto
  have len: "length y = 4" "length m = 2" "length d = 2" "length y' = 4" "length m' = 2" "length d' = 2"
    and rng: "1 \<le> mm" "mm \<le> 12" "1 \<le> dd" "1 \<le> mm'" "mm' \<le> 12" "1 \<le> dd'"
    and at: "Atoi y = Some yy" "Atoi m = Some mm" "Atoi d = Some dd"
      "Atoi y' = Some yy'" "Atoi m' = Some mm'" "Atoi d' = Some dd'"
    using pd pd' by (auto simp: parseDay_def split: option.splits if_splits)
  have num: "a \<le> b \<Longrightarrow> length a = length b \<Longrightarrow> 0 < length a \<Longrightarrow> list_all isDigit a \<Longrightarrow> Atoi a = Some i \<Longrightarrow> Atoi b = Some j \<Longrightarrow>
      i \<le> j \<and> (a < b \<longrightarrow> i < j)" for a b i j
  proof -
    assume h: "a \<le> b" "length a = length b" "0 < length a" "list_all isDigit a" "Atoi a = Some i" "Atoi b = Some j"
    from h(3) have ne: "a \<noteq> []" by simp
    from Atoi_above [OF h(2) ne h(4,1,6)] have b: "list_all isDigit b" "j = int (digitsVal b)" by blast+
    from Atoi_numeral [OF h(4,5)] have a: "i = int (digitsVal a)" .
    show ?thesis
    proof (cases "a = b")
      case False
      with h(1) have "a < b" by simp
      with digitsVal_mono [OF h(2,4) b(1)] show ?thesis by (simp add: a b(2))
    qed (simp add: a b(2))
  qed
  have yle: "y \<le> y'" using le by auto
  have "daysBefore yy mm + dd \<le> daysBefore yy' mm' + dd'"
  proof (cases "y = y' \<and> m \<le> m'")
    case True
    then have yeq: "yy = yy'" using at by simp
    show ?thesis
    proof (cases "m = m'")
      case True
      then have "dd \<le> dd'" using le \<open>y = y' \<and> _\<close> num [of d d' dd dd'] len dig at by auto
      then show ?thesis using True yeq at by simp
    next
      case False
      then have "mm < mm'" using \<open>y = y' \<and> _\<close> num [of m m' mm mm'] len dig at by auto
      then have "daysBefore yy (mm + 1) \<le> daysBefore yy mm'" by (intro daysBefore_month) simp
      with daysBefore_next [of mm yy] rng dmax yeq show ?thesis by simp
    qed
  next
    case False
    then have "y < y'" using le by auto
    then have "yy < yy'" using num [of y y' yy yy'] len dig at yle by auto
    then have "daysBefore (yy + 1) 1 \<le> daysBefore yy' 1" by (intro daysBefore_years) simp
    moreover have "daysBefore yy (mm + 1) \<le> daysBefore yy 13" using rng by (intro daysBefore_month) simp
    moreover have "daysBefore yy' 1 \<le> daysBefore yy' mm'" using rng by (intro daysBefore_month)
    ultimately show ?thesis
      using daysBefore_next [of mm yy] daysBefore_year [of yy] rng dmax by linarith
  qed
  then show ?thesis
    using pd pd' by (simp add: cutoffOf_def dayCutoff_eq hour_def minute_def second_def)
qed

subsection \<open>The slate\<close>

abbreviation newestFirst :: "candidate list \<Rightarrow> bool" where
  "newestFirst cs \<equiv> sorted_wrt (\<lambda>a b. cd_modTime b \<le> cd_modTime a) cs"

lemma set_insertAt [simp]: "set (insertAt cs c) = insert c (set cs)"
  by (induction cs) auto

lemma insertAt_sorted: "newestFirst cs \<Longrightarrow> newestFirst (insertAt cs c)"
  by (induction cs) (auto)

lemma sorted_wrt_takeI: "sorted_wrt R xs \<Longrightarrow> sorted_wrt R (take n xs)"
  by (metis append_take_drop_id sorted_wrt_append)

lemma length_insertAt [simp]: "length (insertAt cs c) = Suc (length cs)"
  by (induction cs) auto

text \<open>An insertion keeps the slate in order, within its bound, and loses at most one entry, which it reports.\<close>

lemma insertCandidate_spec:
  assumes "insertCandidate slate c k = (slate', dropped)" "newestFirst slate" "int (length slate) \<le> k"
  shows "newestFirst slate'" "int (length slate') \<le> k" "set slate' \<subseteq> insert c (set slate)"
    and "x \<in> insert c (set slate) \<Longrightarrow> x \<in> set slate' \<or> dropped = Some x"
proof -
  show "newestFirst slate'" "int (length slate') \<le> k" "set slate' \<subseteq> insert c (set slate)"
    using assms insertAt_sorted [of slate c]
    by (auto simp: insertCandidate_def Let_def sorted_wrt_takeI split: if_splits dest: in_set_takeD)
  assume x: "x \<in> insert c (set slate)"
  show "x \<in> set slate' \<or> dropped = Some x"
  proof (cases "int (length slate) = k")
    case False
    then have "slate' = insertAt slate c" using assms by (auto simp: insertCandidate_def Let_def split: if_splits)
    then show ?thesis using x by simp
  next
    case True
    let ?s = "insertAt slate c"
    have "set ?s = set (take (nat k) ?s) \<union> {?s ! nat k}"
    proof -
      have "length ?s = Suc (nat k)" using True by auto
      then have "?s = take (nat k) ?s @ [?s ! nat k]"
        by (metis lessI take_Suc_conv_app_nth take_all_iff order_refl)
      then show ?thesis by (metis Un_insert_right list.simps(15) set_append sup_bot.right_neutral list.set(1))
    qed
    then show ?thesis using x True assms(1)
      by (auto simp: insertCandidate_def Let_def split: if_splits)
  qed
qed

subsection \<open>What a walk accounts for\<close>

text \<open>
  A file is accounted for when it is a candidate or when the walk reports missed content with a ceiling
  that covers it. The ceiling is only claimed under \<open>lay\<close>, the assumption on the layout of the store.
\<close>

definition accounted :: "bool \<Rightarrow> candidateWalk \<Rightarrow> candidate \<Rightarrow> bool" where
  "accounted lay w c \<longleftrightarrow>
     c \<in> set (wk_top w) \<or>
     (wk_hasMissed w \<and> (lay \<longrightarrow> cd_modTime c + recordOvershootBound \<le> wk_missedCeiling w))"

definition slateOk :: "walkConfig \<Rightarrow> candidateWalk \<Rightarrow> bool" where
  "slateOk cfg w \<longleftrightarrow> newestFirst (wk_top w) \<and> int (length (wk_top w)) \<le> wc_maxFiles cfg"

definition walkGrows :: "bool \<Rightarrow> candidateWalk \<Rightarrow> candidateWalk \<Rightarrow> bool" where
  "walkGrows lay w w' \<longleftrightarrow> (\<forall>c. accounted lay w c \<longrightarrow> accounted lay w' c)"

lemma walkGrows_refl [simp]: "walkGrows lay w w"
  by (simp add: walkGrows_def)

lemma walkGrows_trans: "walkGrows lay w v \<Longrightarrow> walkGrows lay v u \<Longrightarrow> walkGrows lay w u"
  by (simp add: walkGrows_def)

lemma walkGrows_mem: "walkGrows lay w v \<Longrightarrow> accounted lay w c \<Longrightarrow> accounted lay v c"
  by (simp add: walkGrows_def)

lemma noteMissed_fields [simp]:
  "wk_top (noteMissed b w) = wk_top w" "wk_seen (noteMissed b w) = wk_seen w"
  "wk_stopped (noteMissed b w) = wk_stopped w" "wk_hasMissed (noteMissed b w)"
  "b \<le> wk_missedCeiling (noteMissed b w)"
  "wk_hasMissed w \<Longrightarrow> wk_missedCeiling w \<le> wk_missedCeiling (noteMissed b w)"
  by (auto simp: noteMissed_def)

lemma accounted_ceiling:
  "wk_hasMissed w \<Longrightarrow> (lay \<longrightarrow> cd_modTime c + recordOvershootBound \<le> wk_missedCeiling w) \<Longrightarrow>
     accounted lay (noteMissed b w) c"
  using noteMissed_fields(6) [of w b] by (auto simp only: accounted_def noteMissed_fields(4) intro: order_trans)

lemma noteMissed_grows: "walkGrows lay w (noteMissed b w)"
  using accounted_ceiling [of w] by (auto simp: walkGrows_def) (auto simp: accounted_def)

lemma statFile_spec:
  assumes "statFile cfg path e w = (w', None)" "slateOk cfg w"
  shows "slateOk cfg w' \<and> walkGrows lay w w' \<and> wk_stopped w' = wk_stopped w \<and>
     set (wk_top w') \<subseteq> set (wk_top w) \<union> set_option (ownFile path e) \<and>
     (\<forall>c \<in> set_option (ownFile path e). accounted lay w' c)"
proof (cases "\<exists>name sz mtime. e = FileEntry name (StatOk sz mtime) \<and> isRollout name")
  case False
  then have "ownFile path e = None \<and> w' = w"
    using assms(1) by (cases "(path, e)" rule: ownFile.cases) (auto simp: statFile_def split: if_splits)
  then show ?thesis using assms(2) by simp
next
  case True
  then obtain name sz mtime where e: "e = FileEntry name (StatOk sz mtime)" "isRollout name" by blast
  define c where "c = \<lparr>cd_path = joinPath path name, cd_size = sz, cd_modTime = mtime\<rparr>"
  obtain slate dropped where ins: "insertCandidate (wk_top w) c (wc_maxFiles cfg) = (slate, dropped)"
    by fastforce
  have w': "w' = (case dropped of None \<Rightarrow> w\<lparr>wk_top := slate\<rparr>
      | Some d \<Rightarrow> noteMissed (cd_modTime d + recordOvershootBound) (w\<lparr>wk_top := slate\<rparr>))"
    using assms(1) e ins by (simp add: statFile_def c_def Let_def)
  note spec = insertCandidate_spec [OF ins]
  have ok: "newestFirst (wk_top w)" "int (length (wk_top w)) \<le> wc_maxFiles cfg"
    using assms(2) by (simp_all add: slateOk_def)
  have tops: "wk_top w' = slate" "wk_stopped w' = wk_stopped w"
    by (simp_all add: w' split: option.split)
  have acc: "accounted lay w' x" if "x \<in> insert c (set (wk_top w))" for x
    using spec(4) [OF ok that] noteMissed_fields(5)
    by (auto simp: accounted_def w' split: option.splits)
  have grows: "walkGrows lay w w'"
  proof (unfold walkGrows_def, intro allI impI)
    fix x assume "accounted lay w x"
    then consider "x \<in> set (wk_top w)"
      | "wk_hasMissed w" "lay \<longrightarrow> cd_modTime x + recordOvershootBound \<le> wk_missedCeiling w"
      by (auto simp: accounted_def)
    then show "accounted lay w' x"
    proof cases
      case 2
      then show ?thesis
        using accounted_ceiling [of "w\<lparr>wk_top := slate\<rparr>" lay x]
        by (cases dropped) (auto simp: w' accounted_def)
    qed (simp add: acc)
  qed
  show ?thesis
    using spec(1,2,3) [OF ok] grows tops acc e by (auto simp: slateOk_def c_def)
qed

lemma walkFiles_spec:
  "walkFiles cfg path es w = (w', None) \<Longrightarrow> slateOk cfg w \<Longrightarrow>
     slateOk cfg w' \<and> walkGrows lay w w' \<and> wk_stopped w' = wk_stopped w \<and>
     set (wk_top w') \<subseteq> set (wk_top w) \<union> set (List.map_filter (ownFile path) es) \<and>
     (\<forall>c \<in> set (List.map_filter (ownFile path) es). accounted lay w' c)"
proof (induction es arbitrary: w)
  case (Cons e es)
  define w2 where "w2 = (if Suc (wk_seen w) mod 256 = 0
    then w\<lparr>wk_seen := Suc (wk_seen w), wk_ticks := Suc (wk_ticks w)\<rparr> else w\<lparr>wk_seen := Suc (wk_seen w)\<rparr>)"
  have w2: "wk_top w2 = wk_top w" "wk_stopped w2 = wk_stopped w" "walkGrows lay w w2" "slateOk cfg w2"
    using Cons.prems(2) by (auto simp: w2_def walkGrows_def accounted_def slateOk_def)
  obtain w3 where w3: "statFile cfg path e w2 = (w3, None)" and run: "walkFiles cfg path es w3 = (w', None)"
    using Cons.prems(1) by (auto simp: Let_def w2_def split: if_splits prod.splits option.splits)
  note s = statFile_spec [OF w3 w2(4), of lay]
  note t = Cons.IH [OF run conjunct1 [OF s]]
  have g: "walkGrows lay w3 w'" using t by blast
  have "walkGrows lay w w'"
    using w2(3) s t by (blast intro: walkGrows_trans)
  moreover have "\<forall>c \<in> set_option (ownFile path e). accounted lay w' c"
    using s walkGrows_mem [OF g] by blast
  ultimately show ?case
    using s t w2(1,2) by (cases "ownFile path e") (auto simp: map_filter_simps)
qed (simp add: map_filter_simps)

subsection \<open>The walk\<close>

text \<open>
  The layout Codex promises: a rollout lies in a directory \<^verbatim>\<open>YYYY/MM/DD\<close> of a proper day and was last
  written within the append horizon of the end of that day; names in a directory are distinct.
\<close>

definition inLayout :: "string list \<times> candidate \<Rightarrow> bool" where
  "inLayout f =
     (case fst f of
        [y, m, d] \<Rightarrow> properDay y m d \<and> cd_modTime (snd f) \<le> cutoffOf y m d
      | _ \<Rightarrow> False)"

function distinctDir :: "dirRead \<Rightarrow> bool" and distinctSubs :: "storeEntry list \<Rightarrow> bool" where
  "distinctDir DirGone = True"
| "distinctDir DirFailed = True"
| "distinctDir (DirEntries es) \<longleftrightarrow> distinct (map entryName es) \<and> distinctSubs es"
| "distinctSubs [] = True"
| "distinctSubs (FileEntry n s # es) = distinctSubs es"
| "distinctSubs (DirEntry n d # es) \<longleftrightarrow> distinctDir d \<and> distinctSubs es"
  by pat_completeness auto
termination
  by (relation "measure (\<lambda>x. case x of Inl d \<Rightarrow> size d | Inr es \<Rightarrow> size_list size es)") auto

definition stopAt :: "string list \<Rightarrow> candidateWalk \<Rightarrow> bool" where
  "stopAt pos w =
     (case pos of
        [y, m, d] \<Rightarrow> parseDay y m d \<noteq> None \<and> wk_hasMissed w \<and> cutoffOf y m d + recordOvershootBound \<le> wk_missedCeiling w
      | _ \<Rightarrow> False)"

lemma append_le_append: "anc @ xs \<le> anc @ ys \<longleftrightarrow> xs \<le> (ys :: 'a :: linorder list)"
  by (induction anc) auto

text \<open>Where the walk stopped, its ceiling covers every file at or below the place in the walk's order.\<close>

lemma stop_covers:
  assumes "stopAt pos w" "lay \<longrightarrow> inLayout (a, c) \<and> a \<le> pos"
  shows "accounted lay w c"
proof -
  obtain y m d p where pos: "pos = [y, m, d]" "parseDay y m d = Some p" "wk_hasMissed w"
    "cutoffOf y m d + recordOvershootBound \<le> wk_missedCeiling w"
    using assms(1) by (auto simp: stopAt_def split: list.splits)
  have "cd_modTime c + recordOvershootBound \<le> wk_missedCeiling w" if lay
  proof -
    from assms(2) that have f: "inLayout (a, c)" "a \<le> pos" by auto
    obtain y' m' d' where a: "a = [y', m', d']" "properDay y' m' d'" "cd_modTime c \<le> cutoffOf y' m' d'"
      using f(1) by (auto simp: inLayout_def split: list.splits)
    have "cutoffOf y' m' d' \<le> cutoffOf y m d"
      using pos(2) f(2) by (intro cutoff_order [OF a(2) pos(2)]) (auto simp: a(1) pos(1))
    then show ?thesis using a(3) pos(4) by linarith
  qed
  then show ?thesis using pos(3) by (simp add: accounted_def)
qed

lemma files_prefix:
  "(a, c) \<in> set (dirFiles path anc d) \<Longrightarrow> \<exists>r. a = anc @ r"
  "(a, c) \<in> set (subFiles path anc es) \<Longrightarrow> \<exists>n r. n \<in> set (map entryName es) \<and> a = anc @ n # r"
  by (induction path anc d and path anc es rule: dirFiles_subFiles.induct) fastforce+

lemma subFiles_set:
  "set (subFiles path anc es) =
     (\<Union>e \<in> set es. case e of FileEntry _ _ \<Rightarrow> {} | DirEntry n d \<Rightarrow> set (dirFiles (joinPath path n) (anc @ [n]) d))"
  by (induction es) (auto split: storeEntry.splits)

lemma distinctSubs_set:
  "distinctSubs es \<longleftrightarrow> (\<forall>e \<in> set es. case e of FileEntry _ _ \<Rightarrow> True | DirEntry n d \<Rightarrow> distinctDir d)"
  by (induction es) (auto split: storeEntry.splits)

lemma subFiles_descending: "set (subFiles path anc (descending es)) = set (subFiles path anc es)"
  by (simp add: subFiles_set)

lemma dirFiles_set:
  "set (dirFiles path anc (DirEntries es)) =
     Pair anc ` set (List.map_filter (ownFile path) (descending es)) \<union> set (subFiles path anc (descending es))"
  by (simp add: subFiles_set set_map_filter)

abbreviation namesFall :: "storeEntry list \<Rightarrow> bool" where
  "namesFall es \<equiv> sorted_wrt (\<lambda>a b. entryName b < entryName a) es"

lemma descending_names: "distinct (map entryName es) \<Longrightarrow> namesFall (descending es)"
proof -
  assume "distinct (map entryName es)"
  then have "distinct (map entryName (sort_key entryName es))"
    by (simp add: distinct_map)
  then have "sorted_wrt (<) (map entryName (sort_key entryName es))"
    by (simp add: strict_sorted_iff)
  then show ?thesis
    by (simp add: descending_def sorted_wrt_rev sorted_wrt_map)
qed

text \<open>What a finished walk over the files \<open>fs\<close> has done.\<close>

definition walked ::
    "bool \<Rightarrow> walkConfig \<Rightarrow> string list \<Rightarrow> (string list \<times> candidate) set \<Rightarrow> candidateWalk \<Rightarrow> candidateWalk \<Rightarrow> bool" where
  "walked lay cfg anc fs w w' \<longleftrightarrow>
     slateOk cfg w' \<and> walkGrows lay w w' \<and> set (wk_top w') \<subseteq> set (wk_top w) \<union> snd ` fs \<and>
     (\<forall>(a, c) \<in> fs. accounted lay w' c) \<and> (wk_stopped w' \<longrightarrow> (\<exists>r. stopAt (anc @ r) w'))"

definition atLevel :: "nat \<Rightarrow> string \<Rightarrow> string \<Rightarrow> string list \<Rightarrow> bool" where
  "atLevel depth year month anc \<longleftrightarrow>
     depth = length anc \<and> (1 \<le> depth \<longrightarrow> year = anc ! 0) \<and> (2 \<le> depth \<longrightarrow> month = anc ! 1)"

lemma atLevel_sub:
  "atLevel depth year month anc \<Longrightarrow>
     atLevel (Suc depth) (if depth = 0 then name else year) (if depth = 1 then name else month) (anc @ [name])"
proof -
  assume h: "atLevel depth year month anc"
  consider "anc = []" | x where "anc = [x]" | x y zs where "anc = x # y # zs"
    by (cases anc; cases "tl anc") auto
  then show ?thesis by cases (use h in \<open>simp_all add: atLevel_def\<close>)
qed

lemma atLevel_two: "atLevel 2 year month anc \<Longrightarrow> anc = [year, month]"
  by (cases anc; cases "tl anc") (auto simp: atLevel_def)

lemma walked_ticks: "walked lay cfg anc fs (w\<lparr>wk_ticks := t\<rparr>) w' = walked lay cfg anc fs w w'"
  by (simp add: walked_def walkGrows_def accounted_def)

lemma walked_weaken: "walked lay cfg (anc @ xs) fs w w' \<Longrightarrow> walked lay cfg anc fs w w'"
  by (auto simp: walked_def)

lemma walked_grows: "walked lay cfg anc fs w v \<Longrightarrow> accounted lay w c \<Longrightarrow> accounted lay v c"
  by (auto simp: walked_def intro: walkGrows_mem)

lemma walked_then:
  assumes "walked lay cfg anc fs w v" "walked lay cfg anc gs v u"
  shows "walked lay cfg anc (fs \<union> gs) w u"
proof -
  have "walkGrows lay w u" using assms by (auto simp: walked_def intro: walkGrows_trans)
  moreover have "accounted lay u c" if "(a, c) \<in> fs \<union> gs" for a c
    using that assms(1) walked_grows [OF assms(2)] assms(2) by (auto simp: walked_def)
  ultimately show ?thesis
    using assms by (simp add: walked_def image_Un) blast
qed

lemma walk_spec:
  shows "\<lbrakk>walkDir cfg d path depth year month w = (w', None); \<not> wk_stopped w; slateOk cfg w;
      atLevel depth year month anc;
      lay \<longrightarrow> distinctDir d \<and> (\<forall>f \<in> set (dirFiles path anc d). inLayout f)\<rbrakk> \<Longrightarrow>
      walked lay cfg anc (set (dirFiles path anc d)) w w'"
    and "\<lbrakk>walkSubs cfg es path depth year month w = (w', None); \<not> wk_stopped w; slateOk cfg w;
      atLevel depth year month anc;
      lay \<longrightarrow> distinctSubs es \<and> namesFall es \<and> (\<forall>f \<in> set (subFiles path anc es). inLayout f)\<rbrakk> \<Longrightarrow>
      walked lay cfg anc (set (subFiles path anc es)) w w'"
proof (induction cfg d path depth year month w and cfg es path depth year month w
    arbitrary: anc w' and anc w' rule: walkDir_walkSubs.induct)
  case (1 cfg d path depth year month w)
  show ?case
  proof (cases d)
    case DirGone
    then show ?thesis using 1(2-) by (simp add: walkDir.simps walked_def)
  next
    case DirFailed
    then show ?thesis using 1(2-) by (simp add: walkDir.simps)
  next
    case (DirEntries es)
    obtain w1 where fs: "walkFiles cfg path (descending es) w = (w1, None)"
      and subs: "walkSubs cfg (descending es) path depth year month w1 = (w', None)"
      using 1(2,3) DirEntries by (auto simp: walkDir.simps split: prod.splits option.splits)
    note f = walkFiles_spec [OF fs 1(4), of lay]
    have "walked lay cfg anc (Pair anc ` set (List.map_filter (ownFile path) (descending es))) w w1"
      using f 1(3) by (auto simp: walked_def image_image)
    moreover have "walked lay cfg anc (set (subFiles path anc (descending es))) w1 w'"
    proof (rule 1(1) [OF 1(3) DirEntries fs [symmetric] refl subs])
      show "lay \<longrightarrow> distinctSubs (descending es) \<and> namesFall (descending es) \<and>
          (\<forall>f \<in> set (subFiles path anc (descending es)). inLayout f)"
        using 1(6) DirEntries by (auto simp: descending_names subFiles_descending distinctSubs_set)
    qed (use 1(3,5) f in auto)
    ultimately show ?thesis
      unfolding DirEntries dirFiles_set by (rule walked_then)
  qed
next
  case (2 cfg path depth year month w)
  then show ?case by (simp add: walkSubs.simps walked_def)
next
  case (3 cfg e es path depth year month w)
  show ?case
  proof (cases e)
    case (FileEntry n s)
    then show ?thesis using 3 by (simp add: walkSubs.simps)
  next
    case (DirEntry name sub)
    obtain cutoff certified where ph: "pastHorizon cfg w year month name = (cutoff, certified)" by fastforce
    note lay = 3(8) [unfolded DirEntry]
    show ?thesis
    proof (cases "depth = 2 \<and> certified")
      case True
      then have anc: "anc = [year, month]" using 3(7) atLevel_two by blast
      have w': "w' = (noteMissed (cutoff + recordOvershootBound) w)\<lparr>wk_stopped := True\<rparr>"
        using 3(4,5) DirEntry ph True by (simp add: walkSubs.simps)
      have "parseDay year month name \<noteq> None" "cutoff = cutoffOf year month name"
        using ph True by (auto simp: pastHorizon_def cutoffOf_def Let_def split: if_splits option.splits prod.splits)
      then have stop: "stopAt (anc @ [name]) w'"
        by (simp add: stopAt_def anc w')
      have "accounted lay w' c" if mem: "(a, c) \<in> set (subFiles path anc (DirEntry name sub # es))" for a c
      proof (rule stop_covers [OF stop], intro impI conjI)
        assume lay
        then show "inLayout (a, c)" using lay mem by auto
        moreover obtain n r where "n \<in> set (map entryName (DirEntry name sub # es))" "a = anc @ n # r"
          using files_prefix(2) [OF mem] by blast
        moreover from this(1) have "n \<le> name" using lay \<open>lay\<close> by auto
        ultimately show "a \<le> anc @ [name]"
          by (cases r) (auto simp: inLayout_def anc)
      qed
      moreover have "walkGrows lay w w'"
        using noteMissed_grows [of lay w] by (simp add: w' walkGrows_def accounted_def)
      ultimately show ?thesis
        using 3(6) stop by (auto simp: DirEntry walked_def w' slateOk_def)
    next
      case False
      let ?w1 = "w\<lparr>wk_ticks := Suc (wk_ticks w)\<rparr>"
      let ?y = "if depth = 0 then name else year" and ?m = "if depth = 1 then name else month"
      obtain w2 where dir: "walkDir cfg sub (joinPath path name) (Suc depth) ?y ?m ?w1 = (w2, None)"
        and live: "\<not> wc_now cfg (wk_ticks w) > wc_deadline cfg"
        and subs: "walkSubs cfg es path depth year month w2 = (w', None)"
        using 3(4,5) DirEntry ph False
        by (auto simp: walkSubs.simps Let_def split: if_splits prod.splits option.splits)
      have sub: "walked lay cfg (anc @ [name]) (set (dirFiles (joinPath path name) (anc @ [name]) sub)) w w2"
      proof (subst walked_ticks [symmetric], rule 3(2) [OF 3(5) DirEntry ph [symmetric] refl False refl live dir])
        show "lay \<longrightarrow> distinctDir sub \<and> (\<forall>f \<in> set (dirFiles (joinPath path name) (anc @ [name]) sub). inLayout f)"
          using lay by auto
      qed (use 3(5,6,7) atLevel_sub in \<open>auto simp: slateOk_def\<close>)
      have "walked lay cfg anc (set (subFiles path anc es)) w2 w'"
      proof (cases "wk_stopped w2")
        case True
        then have w': "w' = w2" using subs by (cases es) (auto simp: walkSubs.simps)
        obtain r where stop: "stopAt ((anc @ [name]) @ r) w2"
          using sub True by (auto simp: walked_def)
        have "accounted lay w2 c" if mem: "(a, c) \<in> set (subFiles path anc es)" for a c
        proof (rule stop_covers [OF stop], intro impI conjI)
          assume lay
          then show "inLayout (a, c)" using lay mem by auto
          obtain n q where "n \<in> set (map entryName es)" "a = anc @ n # q"
            using files_prefix(2) [OF mem] by blast
          moreover from this(1) have "n < name" using lay \<open>lay\<close> by auto
          ultimately show "a \<le> (anc @ [name]) @ r"
            by (simp add: append_le_append)
        qed
        then show ?thesis using w' sub stop by (auto simp: walked_def)
      next
        case False
        show ?thesis
        proof (rule 3(3) [OF 3(5) DirEntry ph [symmetric] refl _ refl live dir [symmetric] refl subs False])
          show "slateOk cfg w2" using sub by (simp add: walked_def)
        qed (use lay 3(7) \<open>\<not> (depth = 2 \<and> certified)\<close> in auto)
      qed
      from walked_then [OF walked_weaken [OF sub] this] show ?thesis
        by (simp add: DirEntry)
    qed
  qed
qed

end
