(* ===== verification/Rate_Lemmas.thy ===== *)
theory Rate_Lemmas
  imports Rate_Walk
begin

text \<open>
  A refresh of the usage index: the memo through any history of refreshes, the loop over the slate, and
  what a known verdict says of the claims of the store. A refresh that meets no bound knows its verdict.
\<close>

lemma walk_never_notExist:
  "snd (walkDir cfg d path depth year month w) \<noteq> Some errNotExist"
  "snd (walkSubs cfg es path depth year month w) \<noteq> Some errNotExist"
proof (induction cfg d path depth year month w and cfg es path depth year month w
    rule: walkDir_walkSubs.induct)
  case (1 cfg d path depth year month w)
  have files: "snd (walkFiles cfg path es v) \<noteq> Some errNotExist" for es v
  proof (induction es arbitrary: v)
    case (Cons e es)
    have "snd (statFile cfg path e u) \<noteq> Some errNotExist" for u
      by (auto simp: statFile_def Let_def split: storeEntry.split fileStat.split prod.split)
    then show ?case using Cons.IH by (auto simp: Let_def split: prod.split option.split) (metis snd_conv)+
  qed simp
  show ?case
    using 1 files by (auto simp: walkDir.simps split: dirRead.split prod.split option.split) (metis snd_conv)+
next
  case (3 cfg e es path depth year month w)
  show ?case
  proof (cases "wk_stopped w")
    case live: False
    show ?thesis
    proof (cases e)
      case (FileEntry n s)
      then show ?thesis using 3(1) [OF live FileEntry] live by (simp add: walkSubs.simps)
    next
      case (DirEntry name sub)
      obtain cutoff certified where ph: "pastHorizon cfg w year month name = (cutoff, certified)" by fastforce
      obtain w2 err where dir: "walkDir cfg sub (joinPath path name) (Suc depth)
          (if depth = 0 then name else year) (if depth = 1 then name else month)
          (w\<lparr>wk_ticks := Suc (wk_ticks w)\<rparr>) = (w2, err)"
        by fastforce
      show ?thesis
      proof (cases "(depth = 2 \<and> certified) \<or> wc_now cfg (wk_ticks w) > wc_deadline cfg")
        case True
        then show ?thesis by (auto simp: walkSubs.simps DirEntry ph Let_def)
      next
        case False
        then have go: "\<not> (depth = 2 \<and> certified)" "\<not> wc_now cfg (wk_ticks w) > wc_deadline cfg" by auto
        have "err \<noteq> Some errNotExist"
          using 3(2) [OF live DirEntry ph [symmetric] refl go(1) refl go(2)] dir by simp
        then show ?thesis
          using 3(3) [OF live DirEntry ph [symmetric] refl go(1) refl go(2) dir [symmetric]] live go
          by (auto simp add: walkSubs.simps DirEntry ph dir Let_def simp del: One_nat_def split: option.split)
      qed
    qed
  qed (simp add: walkSubs.simps)
qed (simp add: walkSubs.simps)

subsection \<open>The memo\<close>

text \<open>The memo's entry for a file is what a scan of the file yields now, unless its stat changed.\<close>

definition memoGood :: "wire \<Rightarrow> (string \<Rightarrow> fileRead) \<Rightarrow> fileMemo gomap \<Rightarrow> candidate \<Rightarrow> bool" where
  "memoGood W rd memo c \<longleftrightarrow>
     (\<forall>m. map_of memo (cd_path c) = Some m \<and> fm_size m = cd_size c \<and> fm_modTime m = cd_modTime c \<longrightarrow>
        (\<exists>n. scanTail W rd (cd_path c) (fm_size m) (fm_watermark m) (fm_window m) =
              Some (fm_claim m, fm_bounded m, n)))"

lemma memoClaim_scan:
  assumes "memoClaim W rd memo c op window = (Some (cl, bounded, n), memo')" "memoGood W rd memo c"
  obtains k where "scanTail W rd (cd_path c) (cd_size c) (get0 (op_CarriedPrefixes op) (cd_path c)) window = Some (cl, bounded, k)"
proof (cases "map_of memo (cd_path c)")
  case None
  then show thesis
    using assms that by (auto simp: memoClaim_def Let_def split: option.splits prod.splits)
next
  case (Some prev)
  show thesis
  proof (cases "fm_size prev = cd_size c \<and> fm_modTime prev = cd_modTime c \<and>
      fm_watermark prev = get0 (op_CarriedPrefixes op) (cd_path c) \<and> fm_window prev = window")
    case True
    then show thesis
      using assms Some that by (auto simp: memoClaim_def memoGood_def Let_def)
  next
    case False
    then show thesis
      using assms Some that by (auto simp: memoClaim_def Let_def split: option.splits prod.splits if_splits)
  qed
qed

lemma memoClaim_memo:
  assumes "memoClaim W rd memo c op window = (res, memo')"
  shows "memo' = memo \<or>
    (\<exists>cl bounded n. scanTail W rd (cd_path c) (cd_size c) (get0 (op_CarriedPrefixes op) (cd_path c)) window = Some (cl, bounded, n) \<and>
       memo' = AList.update (cd_path c)
         \<lparr>fm_size = cd_size c, fm_modTime = cd_modTime c, fm_watermark = get0 (op_CarriedPrefixes op) (cd_path c),
           fm_window = window, fm_claim = cl, fm_bounded = bounded\<rparr> memo)"
  using assms by (auto simp: memoClaim_def Let_def split: option.splits prod.splits if_splits)

lemma memoGood_kept:
  "memoClaim W rd memo c op window = (res, memo') \<Longrightarrow> memoGood W rd memo c' \<Longrightarrow> memoGood W rd memo' c'"
  by (drule memoClaim_memo) (auto simp: memoGood_def gomap_update split: if_splits)

subsection \<open>The loop over the slate\<close>

definition handled ::
    "(candidate \<Rightarrow> bool) \<Rightarrow> (candidate \<Rightarrow> fileClaim list) \<Rightarrow> refreshLoop \<Rightarrow> candidate \<Rightarrow> bool" where
  "handled hid claims r c \<longleftrightarrow>
     (\<not> hid c \<and> (\<forall>cl \<in> set (claims c). \<exists>b. rl_best r = Some b \<and> fc_sortAt cl \<le> fc_sortAt b)) \<or>
     (rl_suspect r \<and> cd_modTime c + recordOvershootBound \<le> rl_ceiling r)"

definition loopGrows :: "refreshLoop \<Rightarrow> refreshLoop \<Rightarrow> bool" where
  "loopGrows r r' \<longleftrightarrow>
     (rl_suspect r \<longrightarrow> rl_suspect r') \<and> rl_ceiling r \<le> rl_ceiling r' \<and>
     (\<forall>b. rl_best r = Some b \<longrightarrow> (\<exists>b'. rl_best r' = Some b' \<and> fc_sortAt b \<le> fc_sortAt b'))"

lemma loopGrows_refl [simp]: "loopGrows r r"
  by (simp add: loopGrows_def)

lemma loopGrows_trans: "loopGrows r s \<Longrightarrow> loopGrows s t \<Longrightarrow> loopGrows r t"
  unfolding loopGrows_def by (meson order_trans)

lemma handled_grows: "loopGrows r r' \<Longrightarrow> handled hid claims r c \<Longrightarrow> handled hid claims r' c"
  unfolding loopGrows_def handled_def by (meson order_trans)

lemma noteSuspect_spec:
  "loopGrows r (noteSuspect c r)"
  "cd_modTime d \<le> cd_modTime c \<Longrightarrow> handled hid claims (noteSuspect c r) d"
  "rl_best (noteSuspect c r) = rl_best r" "rl_memo (noteSuspect c r) = rl_memo r"
  by (auto simp: noteSuspect_def loopGrows_def handled_def Let_def)

lemma takeBest_spec:
  "loopGrows r (takeBest cl r)" "rl_memo (takeBest cl r) = rl_memo r"
  "fc_verdict cl \<noteq> RateLimitsAbsent \<Longrightarrow> \<exists>b. rl_best (takeBest cl r) = Some b \<and> fc_sortAt cl \<le> fc_sortAt b"
  "rl_best (takeBest cl r) = rl_best r \<or> (fc_verdict cl \<noteq> RateLimitsAbsent \<and> rl_best (takeBest cl r) = Some cl)"
  by (auto simp: takeBest_def loopGrows_def split: option.splits)

lemma fileClaims_present: "cl \<in> set (fileClaims W rd carried c) \<Longrightarrow> fc_verdict cl \<noteq> RateLimitsAbsent"
  by (auto simp: fileClaims_def Let_def set_map_filter lineClaim_present split: if_splits fileRead.splits)

lemma scanStep_spec:
  fixes op :: Options
  assumes "memoGood W rd (rl_memo r) c"
  defines "claims \<equiv> fileClaims W rd (op_CarriedPrefixes op)" and "hid \<equiv> hiddenFile rd (op_CarriedPrefixes op)"
  shows "loopGrows r (scanStep W rd op c r)" "handled hid claims (scanStep W rd op c r) c"
    and "rl_best (scanStep W rd op c r) = rl_best r \<or> (\<exists>cl \<in> set (claims c). rl_best (scanStep W rd op c r) = Some cl)"
    and "memoGood W rd (rl_memo r) c' \<Longrightarrow> memoGood W rd (rl_memo (scanStep W rd op c r)) c'"
proof -
  define window where "window = (if op_MaxTotalBytes op - rl_bytes r < op_MaxPerFileBytes op
    then op_MaxTotalBytes op - rl_bytes r else op_MaxPerFileBytes op)"
  obtain res memo where mc: "memoClaim W rd (rl_memo r) c op window = (res, memo)" by fastforce
  have step: "scanStep W rd op c r =
      (case res of
         None \<Rightarrow> noteSuspect c (r\<lparr>rl_memo := memo\<rparr>)
       | Some (claim, bounded, bytesRead) \<Rightarrow>
           takeBest claim
             (if bounded then noteSuspect c (r\<lparr>rl_memo := memo, rl_bytes := rl_bytes r + bytesRead\<rparr>)
              else r\<lparr>rl_memo := memo, rl_bytes := rl_bytes r + bytesRead\<rparr>))"
    using mc by (simp add: scanStep_def window_def [symmetric] Let_def split: option.split prod.split)
  show "memoGood W rd (rl_memo r) c' \<Longrightarrow> memoGood W rd (rl_memo (scanStep W rd op c r)) c'"
    using memoGood_kept [OF mc] by (auto simp: step noteSuspect_spec takeBest_spec split: option.split)
  have "loopGrows r (scanStep W rd op c r) \<and> handled hid claims (scanStep W rd op c r) c \<and>
    (rl_best (scanStep W rd op c r) = rl_best r \<or> (\<exists>cl \<in> set (claims c). rl_best (scanStep W rd op c r) = Some cl))"
  proof (cases res)
    case None
    have "loopGrows r (r\<lparr>rl_memo := memo\<rparr>)" by (simp add: loopGrows_def)
    then show ?thesis
      using None noteSuspect_spec(2) [of c c] noteSuspect_spec(1,3)
      by (auto simp: step intro: loopGrows_trans)
  next
    case (Some v)
    obtain cl bounded n where v: "v = (cl, bounded, n)" by (cases v) auto
    define r2 where "r2 = r\<lparr>rl_memo := memo, rl_bytes := rl_bytes r + n\<rparr>"
    define r3 where "r3 = (if bounded then noteSuspect c r2 else r2)"
    have fin: "scanStep W rd op c r = takeBest cl r3" by (simp add: step Some v r2_def r3_def)
    have g2: "loopGrows r r2" by (simp add: loopGrows_def r2_def)
    have g3: "loopGrows r r3" and b3: "rl_best r3 = rl_best r"
      using g2 by (auto simp: r3_def noteSuspect_spec(3) r2_def intro: loopGrows_trans noteSuspect_spec(1))
    have g: "loopGrows r (takeBest cl r3)" and gt: "loopGrows r3 (takeBest cl r3)"
      using g3 takeBest_spec(1) by (blast intro: loopGrows_trans)+
    obtain k where sc: "scanTail W rd (cd_path c) (cd_size c) (get0 (op_CarriedPrefixes op) (cd_path c)) window = Some (cl, bounded, k)"
      using memoClaim_scan [OF mc [unfolded Some v] assms(1)] by blast
    note scan = scanTail_spec [OF sc, folded claims_def]
    have vis: "\<not> hid c"
      using scanTail_hidden [of rd "op_CarriedPrefixes op" c W window] sc by (auto simp: hid_def)
    have mem: "fc_verdict cl \<noteq> RateLimitsAbsent \<Longrightarrow> cl \<in> set (claims c)"
      using scan(1) by (auto simp: noClaim_def)
    have "handled hid claims (takeBest cl r3) c"
    proof (cases bounded)
      case True
      then show ?thesis
        using handled_grows [OF gt] noteSuspect_spec(2) [of c c] by (simp add: r3_def)
    next
      case False
      show ?thesis
      proof (cases "claims c = []")
        case True
        then show ?thesis using vis by (simp add: handled_def)
      next
        case ne: False
        then obtain x where "x \<in> set (claims c)" by (cases "claims c") auto
        then have "cl \<in> set (claims c)" using scan False by auto
        then have "fc_verdict cl \<noteq> RateLimitsAbsent" by (auto simp: claims_def dest: fileClaims_present)
        then obtain b where b: "rl_best (takeBest cl r3) = Some b" "fc_sortAt cl \<le> fc_sortAt b"
          using takeBest_spec(3) by blast
        have "\<forall>cl' \<in> set (claims c). fc_sortAt cl' \<le> fc_sortAt b"
          using scan(2) [OF False] b(2) by (auto intro: order_trans)
        then show ?thesis using b(1) vis by (auto simp: handled_def)
      qed
    qed
    then show ?thesis
      using g takeBest_spec(4) [of cl r3] b3 mem by (auto simp: fin)
  qed
  then show "loopGrows r (scanStep W rd op c r)" "handled hid claims (scanStep W rd op c r) c"
    "rl_best (scanStep W rd op c r) = rl_best r \<or> (\<exists>cl \<in> set (claims c). rl_best (scanStep W rd op c r) = Some cl)"
    by auto
qed

lemma scanFiles_spec:
  fixes op :: Options and W :: wire and rd :: "string \<Rightarrow> fileRead"
  defines "claims \<equiv> fileClaims W rd (op_CarriedPrefixes op)" and "hid \<equiv> hiddenFile rd (op_CarriedPrefixes op)"
  shows "newestFirst cs \<Longrightarrow> \<forall>c \<in> set cs. memoGood W rd (rl_memo r) c \<Longrightarrow> scanFiles W rd op cfg cs r = r' \<Longrightarrow>
    loopGrows r r' \<and> (\<forall>c \<in> set cs. handled hid claims r' c) \<and>
    (rl_best r' = rl_best r \<or> (\<exists>c \<in> set cs. \<exists>cl \<in> set (claims c). rl_best r' = Some cl))"
proof (induction cs arbitrary: r)
  case (Cons c cs)
  let ?r1 = "r\<lparr>rl_ticks := Suc (rl_ticks r)\<rparr>"
  have g1: "loopGrows r ?r1" by (simp add: loopGrows_def)
  show ?case
  proof (cases "wc_now cfg (rl_ticks r) > wc_deadline cfg \<or> rl_bytes r \<ge> op_MaxTotalBytes op")
    case True
    then have r': "r' = noteSuspect c ?r1" using Cons.prems(3) by (simp add: Let_def)
    have "handled hid claims r' d" if "d \<in> set (c # cs)" for d
      unfolding r' using Cons.prems(1) that by (intro noteSuspect_spec(2)) auto
    then show ?thesis
      using loopGrows_trans [OF g1 noteSuspect_spec(1)] by (simp add: r' noteSuspect_spec(3))
  next
    case False
    define r2 where "r2 = scanStep W rd op c ?r1"
    have mg: "memoGood W rd (rl_memo ?r1) c" using Cons.prems(2) by simp
    note st = scanStep_spec [OF mg, where op = op, folded claims_def hid_def r2_def]
    have run: "scanFiles W rd op cfg cs r2 = r'" using Cons.prems(3) False by (simp add: Let_def r2_def)
    have "\<forall>c \<in> set cs. memoGood W rd (rl_memo r2) c"
      using scanStep_spec(4) [OF mg] Cons.prems(2) by (simp add: r2_def)
    note all = Cons.IH [OF _ this run]
    have nf: "newestFirst cs" using Cons.prems(1) by simp
    note ih = all [OF nf, THEN conjunct1] all [OF nf, THEN conjunct2, THEN conjunct1]
      all [OF nf, THEN conjunct2, THEN conjunct2]
    have "loopGrows r r'" by (rule loopGrows_trans [OF g1 loopGrows_trans [OF st(1) ih(1)]])
    moreover have "handled hid claims r' c" by (rule handled_grows [OF ih(1) st(2)])
    moreover have "rl_best r' = rl_best r \<or> (\<exists>d \<in> set (c # cs). \<exists>cl \<in> set (claims d). rl_best r' = Some cl)"
      using ih(3) st(3) by (elim disjE) auto
    ultimately show ?thesis using ih(2) by simp
  qed
qed simp

subsection \<open>One refresh\<close>

definition ordersSlate :: "rolloutStore \<Rightarrow> bool" where
  "ordersSlate st \<longleftrightarrow> (\<forall>cs. mset (rs_order st cs) = mset cs \<and> newestFirst (rs_order st cs))"

lemma ordersSlateD:
  "ordersSlate st \<Longrightarrow> set (rs_order st cs) = set cs" "ordersSlate st \<Longrightarrow> newestFirst (rs_order st cs)"
  "ordersSlate st \<Longrightarrow> mset (rs_order st cs) = mset cs"
  by (auto simp: ordersSlate_def dest: mset_eq_setD)

text \<open>
  The documented behaviour of the store: the layout of the directories, and that no record is stamped
  later than a day after its file was last written.
\<close>

definition codexStore :: "wire \<Rightarrow> rolloutStore \<Rightarrow> string \<Rightarrow> int gomap \<Rightarrow> bool" where
  "codexStore W st home carried \<longleftrightarrow>
     distinctDir (rs_sessions st) \<and>
     list_all inLayout (storeFiles st home) \<and>
     list_all (\<lambda>(a, c). list_all (\<lambda>cl. fc_sortAt cl \<le> cd_modTime c + recordOvershootBound)
       (fileClaims W (rs_read st) carried c)) (storeFiles st home)"

definition storeClaims :: "wire \<Rightarrow> rolloutStore \<Rightarrow> string \<Rightarrow> int gomap \<Rightarrow> fileClaim list" where
  "storeClaims W st home carried =
     concat (map (\<lambda>(a, c). fileClaims W (rs_read st) carried c) (storeFiles st home))"

definition memoOf :: "wire \<Rightarrow> rolloutStore \<Rightarrow> string \<Rightarrow> fileMemo gomap \<Rightarrow> bool" where
  "memoOf W st home memo \<longleftrightarrow> (\<forall>(a, c) \<in> set (storeFiles st home). memoGood W (rs_read st) memo c)"

lemma withDefaults_fields:
  "1 \<le> op_MaxFiles (withDefaults op)" "op_CarriedPrefixes (withDefaults op) = op_CarriedPrefixes op"
  by (auto simp: withDefaults_def)

text \<open>
  A refresh whose verdict is not unknown: the walk was not cut short, every file of the store is handled,
  and the best claim is one that counts.
\<close>

lemma refresh_known:
  assumes run: "Refresh W st home op memo = (r, memo')" and known: "ar_Status r \<noteq> StatusUnknown"
    and ord: "ordersSlate st" and memo: "memoOf W st home memo"
    and lay: "lay \<longrightarrow> codexStore W st home (op_CarriedPrefixes op)"
  obtains rl where
    "rl_suspect rl \<longrightarrow> rl_best rl \<noteq> None"
    "\<forall>(a, c) \<in> set (storeFiles st home).
       handled (hiddenFile (rs_read st) (op_CarriedPrefixes op)) (fileClaims W (rs_read st) (op_CarriedPrefixes op)) rl c \<or>
       (rl_suspect rl \<and> (lay \<longrightarrow> cd_modTime c + recordOvershootBound \<le> rl_ceiling rl))"
    "\<forall>b. rl_best rl = Some b \<longrightarrow> b \<in> set (storeClaims W st home (op_CarriedPrefixes op)) \<and>
       fc_verdict b = RateLimitsParsed \<and> (rl_suspect rl \<longrightarrow> rl_ceiling rl \<le> fc_sortAt b) \<and>
       ar_Status r = StatusObserved \<and> ar_Reading r = fc_reading b"
    "rl_best rl = None \<longrightarrow> ar_Status r = StatusNone"
proof -
  let ?op = "withDefaults op" and ?sess = "joinPath home ''sessions''"
  let ?claims = "fileClaims W (rs_read st) (op_CarriedPrefixes op)" and ?hid = "hiddenFile (rs_read st) (op_CarriedPrefixes op)"
  define cfg where "cfg = configFor st ?op"
  obtain en ticks where cand: "candidates (rs_order st) cfg (rs_sessions st) home 1 = (Some en, ticks)"
    using run known by (auto simp: Refresh_def cfg_def [symmetric] Let_def unknownReading_def split: prod.splits option.splits)
  define rl0 where "rl0 = \<lparr>rl_suspect = en_hasMissed en, rl_ceiling = en_missedCeiling en, rl_best = None,
      rl_bytes = 0, rl_memo = memo, rl_ticks = ticks\<rparr>"
  define rl where "rl = scanFiles W (rs_read st) ?op cfg (en_files en) rl0"
  define ind where "ind \<longleftrightarrow> en_bounded en \<or> wc_now cfg (rl_ticks rl) > wc_deadline cfg"
  obtain status reading reason where v: "verdictOf ind rl = (status, reading, reason)"
    by (cases "verdictOf ind rl") auto
  have r: "ar_Status r = status" "ar_Reading r = reading"
    using run cand v by (auto simp: Refresh_def cfg_def [symmetric] Let_def rl0_def [symmetric] rl_def [symmetric] ind_def [symmetric] split: prod.splits)
  have verdict: "\<not> ind" "rl_suspect rl \<longrightarrow> rl_best rl \<noteq> None"
      "rl_best rl = None \<Longrightarrow> status = StatusNone"
      "rl_best rl = Some b \<Longrightarrow> status = StatusObserved \<and> reading = fc_reading b \<and>
         fc_verdict b \<noteq> RateLimitsMalformed \<and> (rl_suspect rl \<longrightarrow> rl_ceiling rl \<le> fc_sortAt b)" for b
    using v known r(1) by (auto simp: verdictOf_def split: option.splits if_splits)
  obtain walk err where walk: "walkDir cfg (rs_sessions st) ?sess 0 [] [] (newWalk 1) = (walk, err)"
    by fastforce
  have "err \<noteq> Some errNotExist"
    using walk_never_notExist(1) [of cfg "rs_sessions st" ?sess 0 "[]" "[]" "newWalk 1"] walk by simp
  moreover have "\<not> en_bounded en" using verdict(1) by (simp add: ind_def)
  ultimately have err: "err = None" and en: "en_files en = rs_order st (wk_top walk)"
      "en_hasMissed en = wk_hasMissed walk" "en_missedCeiling en = wk_missedCeiling walk"
    using cand walk by (auto simp: candidates_def Let_def split: if_splits)
  have w: "walked lay cfg [] (set (storeFiles st home)) (newWalk 1) walk"
    unfolding storeFiles_def
  proof (rule walk_spec(1) [OF walk [unfolded err]])
    show "lay \<longrightarrow> distinctDir (rs_sessions st) \<and> (\<forall>f \<in> set (dirFiles ?sess [] (rs_sessions st)). inLayout f)"
      using lay by (auto simp: codexStore_def storeFiles_def list_all_iff)
  qed (simp_all add: newWalk_def slateOk_def atLevel_def cfg_def configFor_def
      order_trans [OF _ withDefaults_fields(1)])
  have files: "set (en_files en) \<subseteq> snd ` set (storeFiles st home)" "newestFirst (en_files en)"
    using w by (auto simp: en walked_def newWalk_def ordersSlateD [OF ord])
  have good: "\<forall>c \<in> set (en_files en). memoGood W (rs_read st) (rl_memo rl0) c"
    using files(1) memo by (fastforce simp: memoOf_def rl0_def)
  note loop = scanFiles_spec [OF files(2) good rl_def [symmetric], unfolded withDefaults_fields]
  show thesis
  proof (rule that [of rl])
    show "rl_suspect rl \<longrightarrow> rl_best rl \<noteq> None" by (rule verdict(2))
    show "rl_best rl = None \<longrightarrow> ar_Status r = StatusNone" using verdict(3) r by simp
    show "\<forall>(a, c) \<in> set (storeFiles st home). handled ?hid ?claims rl c \<or>
       (rl_suspect rl \<and> (lay \<longrightarrow> cd_modTime c + recordOvershootBound \<le> rl_ceiling rl))"
    proof (intro ballI, clarify)
      fix a c
      assume f: "(a, c) \<in> set (storeFiles st home)"
        and nh: "\<not> (rl_suspect rl \<and> (lay \<longrightarrow> cd_modTime c + recordOvershootBound \<le> rl_ceiling rl))"
      have "accounted lay walk c" using w f by (auto simp: walked_def)
      moreover have "rl_suspect rl0 \<longrightarrow> rl_suspect rl" "rl_ceiling rl0 \<le> rl_ceiling rl"
        using loop by (auto simp: loopGrows_def)
      ultimately have "c \<in> set (wk_top walk)"
        using nh by (auto simp: accounted_def rl0_def en)
      then show "handled ?hid ?claims rl c"
        using loop by (auto simp: en ordersSlateD [OF ord])
    qed
    show "\<forall>b. rl_best rl = Some b \<longrightarrow> b \<in> set (storeClaims W st home (op_CarriedPrefixes op)) \<and>
       fc_verdict b = RateLimitsParsed \<and> (rl_suspect rl \<longrightarrow> rl_ceiling rl \<le> fc_sortAt b) \<and>
       ar_Status r = StatusObserved \<and> ar_Reading r = fc_reading b"
    proof (intro allI impI)
    fix b assume b: "rl_best rl = Some b"
    then obtain c where c: "c \<in> set (en_files en)" "b \<in> set (?claims c)"
      using loop by (auto simp: rl0_def)
    then have "b \<in> set (storeClaims W st home (op_CarriedPrefixes op))"
      using files(1) by (fastforce simp: storeClaims_def)
    moreover have "fc_verdict b \<noteq> RateLimitsAbsent"
      using c(2) by (rule fileClaims_present)
    ultimately show "b \<in> set (storeClaims W st home (op_CarriedPrefixes op)) \<and>
       fc_verdict b = RateLimitsParsed \<and> (rl_suspect rl \<longrightarrow> rl_ceiling rl \<le> fc_sortAt b) \<and>
       ar_Status r = StatusObserved \<and> ar_Reading r = fc_reading b"
      using verdict(4) [OF b] r by (cases "fc_verdict b") auto
    qed
  qed
qed

subsection \<open>Histories of refreshes\<close>

text \<open>Whatever its result, a walk holds files of the store only.\<close>

lemma insertCandidate_subset: "set (fst (insertCandidate slate c k)) \<subseteq> insert c (set slate)"
  by (auto simp: insertCandidate_def Let_def dest: in_set_takeD)

lemma statFile_top: "set (wk_top (fst (statFile cfg path e w))) \<subseteq> set (wk_top w) \<union> set_option (ownFile path e)"
proof (cases "(path, e)" rule: ownFile.cases)
  case (1 p name sz mtime)
  then show ?thesis
    using insertCandidate_subset [of "wk_top w" "\<lparr>cd_path = joinPath path name, cd_size = sz, cd_modTime = mtime\<rparr>" "wc_maxFiles cfg"]
    by (auto simp: statFile_def Let_def split: prod.splits option.splits)
qed (auto simp: statFile_def)

lemma walkFiles_top:
  "set (wk_top (fst (walkFiles cfg path es w))) \<subseteq> set (wk_top w) \<union> set (List.map_filter (ownFile path) es)"
proof (induction es arbitrary: w)
  case (Cons e es)
  define w2 where "w2 = (if Suc (wk_seen w) mod 256 = 0
    then w\<lparr>wk_seen := Suc (wk_seen w), wk_ticks := Suc (wk_ticks w)\<rparr> else w\<lparr>wk_seen := Suc (wk_seen w)\<rparr>)"
  have w2: "wk_top w2 = wk_top w" by (simp add: w2_def)
  have sub: "set_option (ownFile path e) \<union> set (List.map_filter (ownFile path) es) = set (List.map_filter (ownFile path) (e # es))"
    by (cases "ownFile path e") (auto simp: map_filter_simps)
  obtain w3 err where st: "statFile cfg path e w2 = (w3, err)" by fastforce
  have t3: "set (wk_top w3) \<subseteq> set (wk_top w) \<union> set_option (ownFile path e)"
    using statFile_top [of cfg path e w2] by (simp add: st w2)
  have "fst (walkFiles cfg path (e # es) w) = w2 \<or> fst (walkFiles cfg path (e # es) w) = w3 \<or>
      fst (walkFiles cfg path (e # es) w) = fst (walkFiles cfg path es w3)"
    using st by (simp add: w2_def [symmetric] Let_def split: option.split prod.split) (auto simp: w2_def)
  then show ?case
    using Cons.IH [of w3] t3 w2 sub by (elim disjE) auto
qed simp

lemma walk_top:
  "set (wk_top (fst (walkDir cfg d path depth year month w))) \<subseteq> set (wk_top w) \<union> snd ` set (dirFiles path anc d)"
  "set (wk_top (fst (walkSubs cfg es path depth year month w))) \<subseteq> set (wk_top w) \<union> snd ` set (subFiles path anc es)"
proof (induction cfg d path depth year month w and cfg es path depth year month w
    arbitrary: anc and anc rule: walkDir_walkSubs.induct)
  case (1 cfg d path depth year month w)
  show ?case
  proof (cases d)
    case (DirEntries es)
    obtain w1 err where fs: "walkFiles cfg path (descending es) w = (w1, err)" by fastforce
    have t: "set (wk_top w1) \<subseteq> set (wk_top w) \<union> set (List.map_filter (ownFile path) (descending es))"
      using walkFiles_top [of cfg path "descending es" w] by (simp add: fs)
    show ?thesis
    proof (cases "wk_stopped w \<or> err \<noteq> None")
      case True
      then show ?thesis
        using t fs unfolding DirEntries dirFiles_set by (auto simp: walkDir.simps image_Un image_image)
    next
      case False
      then show ?thesis
        using 1(1) [OF _ DirEntries fs [symmetric], of anc] t fs
        unfolding DirEntries dirFiles_set by (auto simp: walkDir.simps image_Un image_image)
    qed
  qed (auto simp: walkDir.simps)
next
  case (3 cfg e es path depth year month w)
  show ?case
  proof (cases "wk_stopped w")
    case live: False
    show ?thesis
    proof (cases e)
      case (FileEntry n s)
      then show ?thesis using 3(1) [OF live FileEntry] live by (simp add: walkSubs.simps)
    next
      case (DirEntry name sub)
      obtain cutoff certified where ph: "pastHorizon cfg w year month name = (cutoff, certified)" by fastforce
      obtain w2 err where dir: "walkDir cfg sub (joinPath path name) (Suc depth)
          (if depth = 0 then name else year) (if depth = 1 then name else month)
          (w\<lparr>wk_ticks := Suc (wk_ticks w)\<rparr>) = (w2, err)"
        by fastforce
      show ?thesis
      proof (cases "(depth = 2 \<and> certified) \<or> wc_now cfg (wk_ticks w) > wc_deadline cfg")
        case True
        then show ?thesis by (auto simp: walkSubs.simps DirEntry ph Let_def)
      next
        case False
        then have go: "\<not> (depth = 2 \<and> certified)" "\<not> wc_now cfg (wk_ticks w) > wc_deadline cfg" by auto
        have t: "set (wk_top w2) \<subseteq> set (wk_top w) \<union> snd ` set (dirFiles (joinPath path name) (anc @ [name]) sub)"
          using 3(2) [OF live DirEntry ph [symmetric] refl go(1) refl go(2), of "anc @ [name]"] dir by simp
        show ?thesis
        proof (cases err)
          case None
          then show ?thesis
            using 3(3) [OF live DirEntry ph [symmetric] refl go(1) refl go(2) dir [symmetric] None, of anc] live go t
            by (auto simp: walkSubs.simps DirEntry ph dir Let_def simp del: One_nat_def)
        next
          case (Some x)
          then show ?thesis
            using live go t by (auto simp: walkSubs.simps DirEntry ph dir Let_def simp del: One_nat_def)
        qed
      qed
    qed
  qed (simp add: walkSubs.simps)
qed (simp add: walkSubs.simps)

text \<open>
  Every entry of the memo is the scan of a file some earlier refresh saw, with the stat it saw. The
  history of the indexer's refreshes is kept beside the memo.
\<close>

type_synonym refreshCall = "rolloutStore \<times> string \<times> Options"

definition memoFrom :: "wire \<Rightarrow> refreshCall list \<Rightarrow> fileMemo gomap \<Rightarrow> bool" where
  "memoFrom W hist memo \<longleftrightarrow>
     (\<forall>p m. map_of memo p = Some m \<longrightarrow>
        (\<exists>st home op a n. (st, home, op) \<in> set hist \<and>
           (a, \<lparr>cd_path = p, cd_size = fm_size m, cd_modTime = fm_modTime m\<rparr>) \<in> set (storeFiles st home) \<and>
           scanTail W (rs_read st) p (fm_size m) (fm_watermark m) (fm_window m) = Some (fm_claim m, fm_bounded m, n)))"

definition refreshMemo ::
    "wire \<Rightarrow> fileMemo gomap \<times> refreshCall list \<Rightarrow> refreshCall \<Rightarrow> fileMemo gomap \<times> refreshCall list" where
  "refreshMemo W s call =
     (case call of (st, home, op) \<Rightarrow> (snd (Refresh W st home op (fst s)), snd s @ [call]))"

lemma memoFrom_more: "memoFrom W hist memo \<Longrightarrow> memoFrom W (hist @ calls) memo"
  unfolding memoFrom_def by (metis Un_iff set_append)

lemma scanFiles_memo:
  assumes "memoFrom W hist (rl_memo r)" "(st, home, opx) \<in> set hist" "set cs \<subseteq> snd ` set (storeFiles st home)"
  shows "memoFrom W hist (rl_memo (scanFiles W (rs_read st) op cfg cs r))"
  using assms(1,3)
proof (induction cs arbitrary: r)
  case (Cons c cs)
  have step: "memoFrom W hist (rl_memo (scanStep W (rs_read st) op c q))"
    if q: "memoFrom W hist (rl_memo q)" for q
  proof -
    define window where "window = (if op_MaxTotalBytes op - rl_bytes q < op_MaxPerFileBytes op
      then op_MaxTotalBytes op - rl_bytes q else op_MaxPerFileBytes op)"
    obtain res memo where mc: "memoClaim W (rs_read st) (rl_memo q) c op window = (res, memo)" by fastforce
    have "rl_memo (scanStep W (rs_read st) op c q) = memo"
      using mc by (simp add: scanStep_def window_def [symmetric] Let_def noteSuspect_spec takeBest_spec split: option.split prod.split)
    moreover have "memoFrom W hist memo"
    proof (cases "memo = rl_memo q")
      case False
      then obtain cl bounded n where sc: "scanTail W (rs_read st) (cd_path c) (cd_size c) (get0 (op_CarriedPrefixes op) (cd_path c)) window = Some (cl, bounded, n)"
        and memo: "memo = AList.update (cd_path c)
         \<lparr>fm_size = cd_size c, fm_modTime = cd_modTime c, fm_watermark = get0 (op_CarriedPrefixes op) (cd_path c),
           fm_window = window, fm_claim = cl, fm_bounded = bounded\<rparr> (rl_memo q)"
        using memoClaim_memo [OF mc] by auto
      obtain a where "(a, c) \<in> set (storeFiles st home)" using Cons.prems(2) by auto
      then have "(a, \<lparr>cd_path = cd_path c, cd_size = cd_size c, cd_modTime = cd_modTime c\<rparr>) \<in> set (storeFiles st home)"
        by (cases c) simp
      then show ?thesis
        using q sc assms(2) unfolding memoFrom_def memo gomap_update by (auto split: if_splits)
    qed (use q in simp)
    ultimately show ?thesis by simp
  qed
  then show ?case
    using Cons.IH Cons.prems by (auto simp: Let_def noteSuspect_spec)
qed simp

lemma refresh_memo:
  assumes "memoFrom W hist memo" "ordersSlate st"
  shows "memoFrom W (hist @ [(st, home, op)]) (snd (Refresh W st home op memo))"
proof -
  let ?op = "withDefaults op" and ?sess = "joinPath home ''sessions''"
  define cfg where "cfg = configFor st ?op"
  obtain res ticks where cand: "candidates (rs_order st) cfg (rs_sessions st) home 1 = (res, ticks)" by fastforce
  have old: "memoFrom W (hist @ [(st, home, op)]) memo" using assms(1) by (rule memoFrom_more)
  show ?thesis
  proof (cases res)
    case None
    then show ?thesis using cand old by (simp add: Refresh_def cfg_def [symmetric] Let_def)
  next
    case (Some en)
    obtain walk err where walk: "walkDir cfg (rs_sessions st) ?sess 0 [] [] (newWalk 1) = (walk, err)"
      by fastforce
    have "set (wk_top walk) \<subseteq> snd ` set (storeFiles st home)"
      using walk_top(1) [of cfg "rs_sessions st" ?sess 0 "[]" "[]" "newWalk 1" "[]"] walk
      by (simp add: newWalk_def storeFiles_def)
    then have "set (en_files en) \<subseteq> snd ` set (storeFiles st home)"
      using cand Some walk ordersSlateD(1) [OF assms(2)] by (auto simp: candidates_def Let_def split: if_splits)
    from scanFiles_memo [OF _ _ this, where W = W and opx = op and hist = "hist @ [(st, home, op)]"
        and r = "\<lparr>rl_suspect = en_hasMissed en, rl_ceiling = en_missedCeiling en, rl_best = None,
                   rl_bytes = 0, rl_memo = memo, rl_ticks = ticks\<rparr>" and op = ?op and cfg = cfg]
    show ?thesis
      using cand Some old by (simp add: Refresh_def cfg_def [symmetric] Let_def split: prod.splits)
  qed
qed

text \<open>A call that orders its slate; the others leave the memo of the history alone.\<close>

definition memoInv :: "wire \<Rightarrow> fileMemo gomap \<times> refreshCall list \<Rightarrow> bool" where
  "memoInv W s \<longleftrightarrow> list_all (\<lambda>(st, home, op). ordersSlate st) (snd s) \<longrightarrow> memoFrom W (snd s) (fst s)"

interpretation memoRuns: invariant_ops "refreshMemo W" "memoInv W" for W
proof
  fix s call
  assume "memoInv W s"
  then show "memoInv W (refreshMemo W s call)"
    by (cases call) (auto simp: memoInv_def refreshMemo_def refresh_memo)
qed

text \<open>The memo of a new indexer after the calls of a history.\<close>

definition indexerMemo :: "wire \<Rightarrow> refreshCall list \<Rightarrow> fileMemo gomap" where
  "indexerMemo W calls = fst (run_ops (refreshMemo W) ([], []) calls)"

text \<open>
  What the memo relies on: two refreshes that see one path with one size and one modification time read
  the same content.
\<close>

definition callFiles :: "refreshCall \<Rightarrow> candidate list" where
  "callFiles call = map snd (storeFiles (fst call) (fst (snd call)))"

definition statsFaithful :: "refreshCall list \<Rightarrow> bool" where
  "statsFaithful calls \<longleftrightarrow>
     (\<forall>x \<in> set calls. ordersSlate (fst x)) \<and>
     (\<forall>x \<in> set calls. \<forall>y \<in> set calls. \<forall>c \<in> set (callFiles x) \<inter> set (callFiles y).
        rs_read (fst x) (cd_path c) = rs_read (fst y) (cd_path c))"

lemma run_hist: "snd (run_ops (refreshMemo W) s calls) = snd s @ calls"
  by (induction calls arbitrary: s) (auto simp: refreshMemo_def split: prod.splits)

lemma scan_read: "rd p = rd' p \<Longrightarrow> scanTail W rd p = scanTail W rd' p"
  by (intro ext) (simp add: scanTail_def Let_def)

lemma statsFaithful_read:
  assumes "statsFaithful calls" "(st, home, op) \<in> set calls" "(st', home', op') \<in> set calls"
    and "(a, c) \<in> set (storeFiles st home)" "(a', c) \<in> set (storeFiles st' home')"
  shows "rs_read st (cd_path c) = rs_read st' (cd_path c)"
proof -
  have "c \<in> set (callFiles (st, home, op)) \<inter> set (callFiles (st', home', op'))"
    using assms(4,5) by (force simp: callFiles_def)
  with assms(1-3) have "rs_read (fst (st, home, op)) (cd_path c) = rs_read (fst (st', home', op')) (cd_path c)"
    unfolding statsFaithful_def by blast
  then show ?thesis by simp
qed

lemma indexer_memo:
  assumes "statsFaithful (calls @ [(st, home, op)])"
  shows "memoOf W st home (indexerMemo W calls)"
proof -
  have "memoInv W (run_ops (refreshMemo W) ([], []) calls)"
    by (rule memoRuns.inv_run) (simp add: memoInv_def memoFrom_def)
  moreover have "list_all (\<lambda>(st, home, op). ordersSlate st) calls"
    using assms by (fastforce simp: statsFaithful_def list_all_iff)
  ultimately have from_hist: "memoFrom W calls (indexerMemo W calls)"
    by (simp add: memoInv_def run_hist indexerMemo_def)
  show ?thesis
    unfolding memoOf_def memoGood_def
  proof (clarify)
    fix a c m
    assume f: "(a, c) \<in> set (storeFiles st home)" and m: "map_of (indexerMemo W calls) (cd_path c) = Some m"
      and eq: "fm_size m = cd_size c" "fm_modTime m = cd_modTime c"
    have c: "\<lparr>cd_path = cd_path c, cd_size = fm_size m, cd_modTime = fm_modTime m\<rparr> = c"
      by (simp add: eq)
    obtain st' home' op' a' n where h: "(st', home', op') \<in> set calls" "(a', c) \<in> set (storeFiles st' home')"
      "scanTail W (rs_read st') (cd_path c) (fm_size m) (fm_watermark m) (fm_window m) = Some (fm_claim m, fm_bounded m, n)"
      using from_hist m c unfolding memoFrom_def by metis
    have "rs_read st' (cd_path c) = rs_read st (cd_path c)"
      by (rule statsFaithful_read [OF assms _ _ h(2) f]) (use h(1) in auto)
    with h(3) show "\<exists>n. scanTail W (rs_read st) (cd_path c) (fm_size m) (fm_watermark m) (fm_window m) =
        Some (fm_claim m, fm_bounded m, n)"
      using scan_read by metis
  qed
qed

lemma handled_claim:
  assumes "handled hid (fileClaims W (rs_read st) carried) rl c \<or>
      (rl_suspect rl \<and> cd_modTime c + recordOvershootBound \<le> rl_ceiling rl)"
    and "cl \<in> set (fileClaims W (rs_read st) carried c)" "fc_sortAt cl \<le> cd_modTime c + recordOvershootBound"
    and "rl_best rl = Some b" "rl_suspect rl \<longrightarrow> rl_ceiling rl \<le> fc_sortAt b"
  shows "fc_sortAt cl \<le> fc_sortAt b"
  using assms unfolding handled_def by fastforce

lemma storeClaims_file:
  "cl \<in> set (storeClaims W st home carried) \<Longrightarrow>
     \<exists>a c. (a, c) \<in> set (storeFiles st home) \<and> cl \<in> set (fileClaims W (rs_read st) carried c)"
  by (auto simp: storeClaims_def)

lemma storeClaims_stamp:
  "cl \<in> set (storeClaims W st home carried) \<Longrightarrow> fc_verdict cl = RateLimitsParsed \<Longrightarrow>
     fc_sortAt cl = ur_RecordedAt (fc_reading cl)"
  by (auto simp: storeClaims_def fileClaims_def Let_def set_map_filter lineClaim_parsed split: if_splits fileRead.splits)

text \<open>A claim of a store whose records are not stamped too late, under a known verdict.\<close>

lemma observed_best:
  assumes run: "Refresh W st home op memo = (r, memo')" and obs: "ar_Status r = StatusObserved"
    and ord: "ordersSlate st" and memo: "memoOf W st home memo"
    and store: "codexStore W st home (op_CarriedPrefixes op)"
  shows "\<exists>cl \<in> set (storeClaims W st home (op_CarriedPrefixes op)).
     fc_verdict cl = RateLimitsParsed \<and> fc_reading cl = ar_Reading r \<and>
     list_all (\<lambda>x. fc_sortAt x \<le> ur_RecordedAt (ar_Reading r)) (storeClaims W st home (op_CarriedPrefixes op)) \<and>
     list_all (\<lambda>(a, c). hiddenFile (rs_read st) (op_CarriedPrefixes op) c \<longrightarrow>
       cd_modTime c + recordOvershootBound \<le> ur_RecordedAt (ar_Reading r)) (storeFiles st home)"
proof -
  let ?all = "storeClaims W st home (op_CarriedPrefixes op)"
  have known: "ar_Status r \<noteq> StatusUnknown" and lay: "True \<longrightarrow> codexStore W st home (op_CarriedPrefixes op)"
    using obs store by simp_all
  obtain rl where "rl_suspect rl \<longrightarrow> rl_best rl \<noteq> None"
    and rl: "\<forall>(a, c) \<in> set (storeFiles st home).
       handled (hiddenFile (rs_read st) (op_CarriedPrefixes op)) (fileClaims W (rs_read st) (op_CarriedPrefixes op)) rl c \<or>
       (rl_suspect rl \<and> (True \<longrightarrow> cd_modTime c + recordOvershootBound \<le> rl_ceiling rl))"
    and best: "\<forall>b. rl_best rl = Some b \<longrightarrow> b \<in> set ?all \<and>
       fc_verdict b = RateLimitsParsed \<and> (rl_suspect rl \<longrightarrow> rl_ceiling rl \<le> fc_sortAt b) \<and>
       ar_Status r = StatusObserved \<and> ar_Reading r = fc_reading b"
    and none: "rl_best rl = None \<longrightarrow> ar_Status r = StatusNone"
    by (rule refresh_known [OF run known ord memo lay])
  obtain b where b: "rl_best rl = Some b" using none obs by (cases "rl_best rl") auto
  note bb = best [rule_format, OF b]
  have stamp: "fc_sortAt b = ur_RecordedAt (ar_Reading r)"
    using bb storeClaims_stamp by metis
  have "fc_sortAt x \<le> fc_sortAt b" if x: "x \<in> set ?all" for x
  proof -
    obtain a c where f: "(a, c) \<in> set (storeFiles st home)"
      and xc: "x \<in> set (fileClaims W (rs_read st) (op_CarriedPrefixes op) c)"
      using storeClaims_file [OF x] by blast
    have "fc_sortAt x \<le> cd_modTime c + recordOvershootBound"
      using store f xc by (fastforce simp: codexStore_def list_all_iff)
    moreover have "handled (hiddenFile (rs_read st) (op_CarriedPrefixes op)) (fileClaims W (rs_read st) (op_CarriedPrefixes op)) rl c \<or>
        (rl_suspect rl \<and> cd_modTime c + recordOvershootBound \<le> rl_ceiling rl)"
      using rl f by auto
    ultimately show ?thesis
      using handled_claim [OF _ xc _ b] bb by blast
  qed
  moreover have "cd_modTime c + recordOvershootBound \<le> fc_sortAt b"
    if "(a, c) \<in> set (storeFiles st home)" "hiddenFile (rs_read st) (op_CarriedPrefixes op) c" for a c
    using rl that bb by (fastforce simp: handled_def)
  ultimately show ?thesis
    using bb stamp by (auto simp: list_all_iff)
qed

lemma none_best:
  assumes run: "Refresh W st home op memo = (r, memo')" and none: "ar_Status r = StatusNone"
    and ord: "ordersSlate st" and memo: "memoOf W st home memo"
  shows "storeClaims W st home (op_CarriedPrefixes op) = [] \<and>
    list_all (\<lambda>(a, c). \<not> hiddenFile (rs_read st) (op_CarriedPrefixes op) c) (storeFiles st home)"
proof -
  have known: "ar_Status r \<noteq> StatusUnknown" and lay: "False \<longrightarrow> codexStore W st home (op_CarriedPrefixes op)"
    using none by simp_all
  obtain rl where sus: "rl_suspect rl \<longrightarrow> rl_best rl \<noteq> None"
    and rl: "\<forall>(a, c) \<in> set (storeFiles st home).
       handled (hiddenFile (rs_read st) (op_CarriedPrefixes op)) (fileClaims W (rs_read st) (op_CarriedPrefixes op)) rl c \<or>
       (rl_suspect rl \<and> (False \<longrightarrow> cd_modTime c + recordOvershootBound \<le> rl_ceiling rl))"
    and best: "\<forall>b. rl_best rl = Some b \<longrightarrow> b \<in> set (storeClaims W st home (op_CarriedPrefixes op)) \<and>
       fc_verdict b = RateLimitsParsed \<and> (rl_suspect rl \<longrightarrow> rl_ceiling rl \<le> fc_sortAt b) \<and>
       ar_Status r = StatusObserved \<and> ar_Reading r = fc_reading b"
    and "rl_best rl = None \<longrightarrow> ar_Status r = StatusNone"
    by (rule refresh_known [OF run known ord memo lay])
  have nb: "rl_best rl = None" using best none by (cases "rl_best rl") auto
  with sus have "\<not> rl_suspect rl" by auto
  have "fileClaims W (rs_read st) (op_CarriedPrefixes op) c = [] \<and> \<not> hiddenFile (rs_read st) (op_CarriedPrefixes op) c" if "(a, c) \<in> set (storeFiles st home)" for a c
  proof -
    have "handled (hiddenFile (rs_read st) (op_CarriedPrefixes op)) (fileClaims W (rs_read st) (op_CarriedPrefixes op)) rl c"
      using rl that \<open>\<not> rl_suspect rl\<close> by auto
    then show ?thesis using nb \<open>\<not> rl_suspect rl\<close> by (cases "fileClaims W (rs_read st) (op_CarriedPrefixes op) c") (auto simp: handled_def)
  qed
  then show ?thesis by (fastforce simp: storeClaims_def list_all_iff)
qed


subsection \<open>A store within the bounds\<close>

text \<open>Every directory and every rollout's stat is readable.\<close>

function readableDir :: "dirRead \<Rightarrow> bool" and readableSubs :: "storeEntry list \<Rightarrow> bool" where
  "readableDir DirGone = True"
| "readableDir DirFailed = False"
| "readableDir (DirEntries es) = readableSubs es"
| "readableSubs [] = True"
| "readableSubs (FileEntry n s # es) \<longleftrightarrow> (isRollout n \<longrightarrow> s \<noteq> StatFailed) \<and> readableSubs es"
| "readableSubs (DirEntry n d # es) \<longleftrightarrow> readableDir d \<and> readableSubs es"
  by pat_completeness auto
termination
  by (relation "measure (\<lambda>x. case x of Inl d \<Rightarrow> size d | Inr es \<Rightarrow> size_list size es)") auto

lemma readableSubs_set:
  "readableSubs es \<longleftrightarrow>
     (\<forall>e \<in> set es. case e of FileEntry n s \<Rightarrow> isRollout n \<longrightarrow> s \<noteq> StatFailed | DirEntry _ d \<Rightarrow> readableDir d)"
  by (induction es) (auto split: storeEntry.splits)

lemma readable_descending: "readableSubs (descending es) = readableSubs es"
  by (simp add: readableSubs_set)

text \<open>A walk that meets no bound: nothing is missed and every file is a candidate.\<close>

definition roomy :: "walkConfig \<Rightarrow> candidateWalk \<Rightarrow> nat \<Rightarrow> bool" where
  "roomy cfg w n \<longleftrightarrow> \<not> wk_stopped w \<and> \<not> wk_hasMissed w \<and> int (length (wk_top w) + n) < wc_maxFiles cfg"

definition collected :: "candidateWalk \<Rightarrow> candidate list \<Rightarrow> candidateWalk \<Rightarrow> bool" where
  "collected w cs w' \<longleftrightarrow>
     \<not> wk_stopped w' \<and> \<not> wk_hasMissed w' \<and> wk_missedCeiling w' = wk_missedCeiling w \<and>
     mset (wk_top w') = mset (wk_top w) + mset cs"

lemma collected_room: "roomy cfg w (length cs + n) \<Longrightarrow> collected w cs w' \<Longrightarrow> roomy cfg w' n"
proof -
  assume r: "roomy cfg w (length cs + n)" and c: "collected w cs w'"
  have "length (wk_top w') = length (wk_top w) + length cs"
    using c by (metis collected_def mset_append size_mset length_append)
  with r c show ?thesis by (auto simp: roomy_def collected_def)
qed

lemma collected_then: "collected w cs v \<Longrightarrow> collected v ds u \<Longrightarrow> collected w (cs @ ds) u"
  by (auto simp: collected_def)

lemma mset_insertAt: "mset (insertAt cs c) = add_mset c (mset cs)"
  by (induction cs) auto

lemma statFile_room:
  assumes "roomy cfg w (length (case ownFile path e of None \<Rightarrow> [] | Some c \<Rightarrow> [c]) + n)" "readableSubs [e] \<or> (\<exists>m d. e = DirEntry m d)"
  shows "\<exists>w'. statFile cfg path e w = (w', None) \<and> collected w (case ownFile path e of None \<Rightarrow> [] | Some c \<Rightarrow> [c]) w'"
proof (cases "(path, e)" rule: ownFile.cases)
  case (1 p name sz mtime)
  then show ?thesis
    using assms by (auto simp: statFile_def insertCandidate_def roomy_def collected_def mset_insertAt Let_def)
qed (use assms in \<open>auto simp: statFile_def roomy_def collected_def\<close>)

lemma walkFiles_room:
  "roomy cfg w (length (List.map_filter (ownFile path) es) + n) \<Longrightarrow> readableSubs es \<Longrightarrow>
     (\<And>k. wc_now cfg k \<le> wc_deadline cfg) \<Longrightarrow>
     \<exists>w'. walkFiles cfg path es w = (w', None) \<and> collected w (List.map_filter (ownFile path) es) w'"
proof (induction es arbitrary: w)
  case (Cons e es)
  define w2 where "w2 = (if Suc (wk_seen w) mod 256 = 0
    then w\<lparr>wk_seen := Suc (wk_seen w), wk_ticks := Suc (wk_ticks w)\<rparr> else w\<lparr>wk_seen := Suc (wk_seen w)\<rparr>)"
  let ?own = "case ownFile path e of None \<Rightarrow> [] | Some c \<Rightarrow> [c]"
  have files: "List.map_filter (ownFile path) (e # es) = ?own @ List.map_filter (ownFile path) es"
    by (simp add: map_filter_simps split: option.split)
  have r2: "roomy cfg w2 (length ?own + (length (List.map_filter (ownFile path) es) + n))"
    using Cons.prems(1) by (cases "ownFile path e") (simp_all add: roomy_def w2_def)
  have "readableSubs [e] \<or> (\<exists>m d. e = DirEntry m d)" "readableSubs es"
    using Cons.prems(2) by (auto simp: readableSubs_set)
  then obtain w3 where st: "statFile cfg path e w2 = (w3, None)" and c3: "collected w2 ?own w3"
    using statFile_room [OF r2] by blast
  obtain w' where rest: "walkFiles cfg path es w3 = (w', None)" and c': "collected w3 (List.map_filter (ownFile path) es) w'"
    using Cons.IH [OF collected_room [OF r2 c3] \<open>readableSubs es\<close> Cons.prems(3)] by blast
  have "walkFiles cfg path (e # es) w = (w', None)"
    using st rest Cons.prems(3) by (simp add: w2_def Let_def linorder_not_less split: if_splits)
  moreover have "collected w (?own @ List.map_filter (ownFile path) es) w'"
    using collected_then [OF c3 c'] by (simp add: collected_def w2_def split: if_splits)
  ultimately show ?case unfolding files by blast
qed (simp add: map_filter_simps collected_def roomy_def)

lemma mset_map_filter: "mset (List.map_filter f xs) = image_mset (the \<circ> f) (filter_mset (\<lambda>x. f x \<noteq> None) (mset xs))"
  by (simp add: List.map_filter_def mset_filter)

lemma subFiles_mset:
  "mset (subFiles path anc es) =
     (\<Sum>e \<in># mset es. case e of FileEntry _ _ \<Rightarrow> {#} | DirEntry n d \<Rightarrow> mset (dirFiles (joinPath path n) (anc @ [n]) d))"
  by (induction es) (auto split: storeEntry.split)

lemma walk_room:
  "\<lbrakk>roomy cfg w (length (dirFiles path anc d) + n); readableDir d; \<forall>k. wc_now cfg k \<le> wc_deadline cfg\<rbrakk> \<Longrightarrow>
     \<exists>w'. walkDir cfg d path depth year month w = (w', None) \<and> collected w (map snd (dirFiles path anc d)) w'"
  "\<lbrakk>roomy cfg w (length (subFiles path anc es) + n); readableSubs es; \<forall>k. wc_now cfg k \<le> wc_deadline cfg\<rbrakk> \<Longrightarrow>
     \<exists>w'. walkSubs cfg es path depth year month w = (w', None) \<and> collected w (map snd (subFiles path anc es)) w'"
proof (induction cfg d path depth year month w and cfg es path depth year month w
    arbitrary: anc n and anc n rule: walkDir_walkSubs.induct)
  case (1 cfg d path depth year month w)
  show ?case
  proof (cases d)
    case (DirEntries es)
    let ?own = "List.map_filter (ownFile path) (descending es)"
    let ?sub = "map snd (subFiles path anc (descending es))"
    have ms: "mset (map snd (dirFiles path anc d)) = mset ?own + mset ?sub"
      by (simp add: DirEntries mset_map_filter subFiles_mset mset_descending comp_def)
    have "length (map snd (dirFiles path anc d)) = length ?own + length ?sub"
      using ms by (metis mset_append size_mset length_append)
    then have r: "roomy cfg w (length ?own + (length (subFiles path anc (descending es)) + n))"
      using 1(2) by (simp add: roomy_def add.assoc)
    have rd: "readableSubs (descending es)" using 1(3) by (simp add: DirEntries readable_descending)
    have live: "\<not> wk_stopped w" using 1(2) by (simp add: roomy_def)
    obtain w1 where fs: "walkFiles cfg path (descending es) w = (w1, None)" and c1: "collected w ?own w1"
      using walkFiles_room [OF r rd] 1(4) by blast
    obtain w' where subs: "walkSubs cfg (descending es) path depth year month w1 = (w', None)"
      and c': "collected w1 ?sub w'"
      using 1(1) [OF live DirEntries fs [symmetric] refl collected_room [OF r c1] rd 1(4)] by blast
    have "walkDir cfg d path depth year month w = (w', None)"
      using live fs subs by (simp add: walkDir.simps DirEntries)
    moreover have "collected w (map snd (dirFiles path anc d)) w'"
      using collected_then [OF c1 c'] ms by (simp add: collected_def)
    ultimately show ?thesis by blast
  next
    case DirGone
    then show ?thesis using 1(2) by (auto simp: walkDir.simps collected_def roomy_def)
  qed (use 1(3) in simp)
next
  case (2 cfg path depth year month w)
  then show ?case by (simp add: walkSubs.simps collected_def roomy_def)
next
  case (3 cfg e es path depth year month w)
  have live: "\<not> wk_stopped w" using 3(4) by (simp add: roomy_def)
  show ?case
  proof (cases e)
    case (FileEntry m s)
    then show ?thesis using 3(1) [OF live FileEntry] 3(4-) live by (simp add: walkSubs.simps)
  next
    case (DirEntry name sub)
    let ?w1 = "w\<lparr>wk_ticks := Suc (wk_ticks w)\<rparr>"
    let ?f = "dirFiles (joinPath path name) (anc @ [name]) sub"
    obtain cutoff certified where ph: "pastHorizon cfg w year month name = (cutoff, certified)" by fastforce
    have "\<not> certified" using ph 3(4) by (auto simp: pastHorizon_def roomy_def split: if_splits)
    then have go: "\<not> (depth = 2 \<and> certified)" "\<not> wc_now cfg (wk_ticks w) > wc_deadline cfg"
      using 3(6) by (auto simp: not_less)
    have r1: "roomy cfg ?w1 (length ?f + (length (subFiles path anc es) + n))"
      using 3(4) by (simp add: DirEntry roomy_def add.assoc)
    obtain w2 where dir: "walkDir cfg sub (joinPath path name) (Suc depth)
          (if depth = 0 then name else year) (if depth = 1 then name else month) ?w1 = (w2, None)"
      and c2: "collected ?w1 (map snd ?f) w2"
      using 3(2) [OF live DirEntry ph [symmetric] refl go(1) refl go(2) r1] 3(5,6) DirEntry by auto
    have r2: "roomy cfg w2 (length (subFiles path anc es) + n)"
      using collected_room [OF _ c2] r1 by simp
    obtain w' where rest: "walkSubs cfg es path depth year month w2 = (w', None)"
      and c': "collected w2 (map snd (subFiles path anc es)) w'"
      using 3(3) [OF live DirEntry ph [symmetric] refl go(1) refl go(2) dir [symmetric] refl r2] 3(5,6) DirEntry by auto
    have "walkSubs cfg (e # es) path depth year month w = (w', None)"
      using live go dir rest by (auto simp: walkSubs.simps DirEntry ph Let_def simp del: One_nat_def)
    moreover have "collected w (map snd (subFiles path anc (e # es))) w'"
      using collected_then [OF c2 c'] by (simp add: DirEntry collected_def)
    ultimately show ?thesis by blast
  qed
qed

text \<open>
  A refresh within its bounds: fewer files than the cap, each readable and below the window, all of them
  below the budget, no negative watermark and a clock that never passes the deadline.
\<close>

definition withinBounds :: "rolloutStore \<Rightarrow> string \<Rightarrow> Options \<Rightarrow> bool" where
  "withinBounds st home op \<longleftrightarrow>
     readableDir (rs_sessions st) \<and>
     int (length (storeFiles st home)) < op_MaxFiles (withDefaults op) \<and>
     sum_list (map (\<lambda>(a, c). cd_size c) (storeFiles st home)) < op_MaxTotalBytes (withDefaults op) \<and>
     list_all (\<lambda>(a, c). 0 \<le> cd_size c \<and> cd_size c \<le> op_MaxPerFileBytes (withDefaults op) \<and>
       0 \<le> get0 (op_CarriedPrefixes op) (cd_path c) \<and> rs_read st (cd_path c) \<noteq> FileUnreadable) (storeFiles st home)"

definition inTime :: "rolloutStore \<Rightarrow> Options \<Rightarrow> bool" where
  "inTime st op \<longleftrightarrow> (\<forall>k. rs_now st k \<le> rs_now st 0 + op_Deadline (withDefaults op))"

lemma scanTail_room:
  assumes "0 \<le> wm" "fsize \<le> window" "0 \<le> fsize" "rd p \<noteq> FileUnreadable"
  shows "\<exists>cl n. scanTail W rd p fsize wm window = Some (cl, False, n) \<and> n \<le> fsize"
proof (cases "fsize \<le> wm")
  case True
  then show ?thesis using assms by (simp add: scanTail_def)
next
  case False
  obtain mtime content where "rd p = FileIs mtime content" using assms(4) by (cases "rd p") auto
  then show ?thesis
    using False assms by (auto simp: scanTail_def Let_def)
qed

lemma scanStep_room:
  assumes "\<not> rl_suspect r" "rl_bytes r + cd_size c < op_MaxTotalBytes op" "cd_size c \<le> op_MaxPerFileBytes op"
    and "0 \<le> cd_size c" "0 \<le> get0 (op_CarriedPrefixes op) (cd_path c)" "rd (cd_path c) \<noteq> FileUnreadable"
    and "memoGood W rd (rl_memo r) c"
  shows "\<not> rl_suspect (scanStep W rd op c r) \<and> rl_bytes (scanStep W rd op c r) \<le> rl_bytes r + cd_size c"
proof -
  define window where "window = (if op_MaxTotalBytes op - rl_bytes r < op_MaxPerFileBytes op
    then op_MaxTotalBytes op - rl_bytes r else op_MaxPerFileBytes op)"
  have w: "cd_size c \<le> window" using assms(2,3) by (simp add: window_def)
  obtain cl n where sc: "scanTail W rd (cd_path c) (cd_size c) (get0 (op_CarriedPrefixes op) (cd_path c)) window = Some (cl, False, n)"
    "n \<le> cd_size c"
    using scanTail_room [where rd = rd and p = "cd_path c", OF assms(5) w assms(4,6)] by blast
  obtain res memo where mc: "memoClaim W rd (rl_memo r) c op window = (res, memo)" by fastforce
  have "\<exists>cl n. res = Some (cl, False, n) \<and> n \<le> cd_size c"
  proof -
    have "res \<noteq> None" using mc by (auto simp: memoClaim_def Let_def sc(1) split: option.splits if_splits)
    then obtain cl' b n' where res: "res = Some (cl', b, n')" by (metis option.exhaust prod_cases3)
    obtain k where "scanTail W rd (cd_path c) (cd_size c) (get0 (op_CarriedPrefixes op) (cd_path c)) window = Some (cl', b, k)"
      using memoClaim_scan [OF mc [unfolded res] assms(7)] by blast
    then have "\<not> b" using sc by simp
    moreover have "n' \<le> cd_size c"
      using mc sc(2) assms(4) by (auto simp: memoClaim_def Let_def sc(1) res split: option.splits if_splits)
    ultimately show ?thesis using res by simp
  qed
  then show ?thesis
    using mc assms(1) by (auto simp: scanStep_def window_def [symmetric] Let_def takeBest_def split: option.split)
qed

lemma scanFiles_room:
  "\<lbrakk>\<not> rl_suspect r; rl_bytes r + sum_list (map cd_size cs) < op_MaxTotalBytes op; \<forall>k. wc_now cfg k \<le> wc_deadline cfg;
    \<forall>c \<in> set cs. 0 \<le> cd_size c \<and> cd_size c \<le> op_MaxPerFileBytes op \<and>
      0 \<le> get0 (op_CarriedPrefixes op) (cd_path c) \<and> rd (cd_path c) \<noteq> FileUnreadable;
    \<forall>c \<in> set cs. memoGood W rd (rl_memo r) c\<rbrakk> \<Longrightarrow>
   \<not> rl_suspect (scanFiles W rd op cfg cs r)"
proof (induction cs arbitrary: r)
  case (Cons c cs)
  let ?r1 = "r\<lparr>rl_ticks := Suc (rl_ticks r)\<rparr>"
  have "0 \<le> sum_list (map cd_size cs)"
    using Cons.prems(4) by (intro sum_list_nonneg) auto
  then have go: "\<not> (wc_now cfg (rl_ticks r) > wc_deadline cfg \<or> rl_bytes r \<ge> op_MaxTotalBytes op)"
    and small: "rl_bytes ?r1 + cd_size c < op_MaxTotalBytes op"
    using Cons.prems(2,3,4) by (auto simp: not_less)
  have mg: "memoGood W rd (rl_memo ?r1) c" using Cons.prems(5) by simp
  have st: "\<not> rl_suspect (scanStep W rd op c ?r1) \<and> rl_bytes (scanStep W rd op c ?r1) \<le> rl_bytes ?r1 + cd_size c"
    using Cons.prems(1,4) by (intro scanStep_room [OF _ small _ _ _ _ mg]) auto
  have "\<forall>d \<in> set cs. memoGood W rd (rl_memo (scanStep W rd op c ?r1)) d"
    using scanStep_spec(4) [OF mg] Cons.prems(5) by simp
  then have "\<not> rl_suspect (scanFiles W rd op cfg cs (scanStep W rd op c ?r1))"
    using Cons.prems(2-4) st by (intro Cons.IH) auto
  then show ?case using go by (simp add: Let_def)
qed simp

text \<open>What a refresh within its bounds found: the best claim of all files, and no doubt about it.\<close>

lemma refresh_bounded:
  assumes run: "Refresh W st home op memo = (r, memo')"
    and ord: "ordersSlate st" and memo: "memoOf W st home memo"
    and bounds: "withinBounds st home op" "inTime st op"
  shows "\<exists>rl. \<not> rl_suspect rl \<and>
     (\<forall>cl \<in> set (storeClaims W st home (op_CarriedPrefixes op)).
        \<exists>b. rl_best rl = Some b \<and> fc_sortAt cl \<le> fc_sortAt b) \<and>
     (\<forall>b. rl_best rl = Some b \<longrightarrow> b \<in> set (storeClaims W st home (op_CarriedPrefixes op))) \<and>
     verdictOf False rl = (ar_Status r, ar_Reading r, ar_Reason r)"
proof -
  let ?op = "withDefaults op" and ?sess = "joinPath home ''sessions''"
  let ?claims = "fileClaims W (rs_read st) (op_CarriedPrefixes op)" and ?hid = "hiddenFile (rs_read st) (op_CarriedPrefixes op)"
  define cfg where "cfg = configFor st ?op"
  have clock: "\<forall>k. wc_now cfg k \<le> wc_deadline cfg"
    using bounds(2) by (simp add: cfg_def configFor_def inTime_def)
  have "roomy cfg (newWalk 1) (length (dirFiles ?sess [] (rs_sessions st)) + 0)"
    using bounds(1) by (simp add: roomy_def newWalk_def cfg_def configFor_def withinBounds_def storeFiles_def)
  then obtain walk where walk: "walkDir cfg (rs_sessions st) ?sess 0 [] [] (newWalk 1) = (walk, None)"
    and col: "collected (newWalk 1) (map snd (storeFiles st home)) walk"
    using walk_room(1) [of cfg "newWalk 1" ?sess "[]" "rs_sessions st" 0 0 "[]" "[]"] bounds(1) clock
    by (auto simp: withinBounds_def storeFiles_def)
  define cs where "cs = rs_order st (wk_top walk)"
  have ms: "mset cs = mset (map snd (storeFiles st home))"
    using col by (simp add: cs_def ordersSlateD(3) [OF ord] collected_def newWalk_def)
  have cset: "set cs = snd ` set (storeFiles st home)"
    using mset_eq_setD [OF ms] by simp
  define rl0 where "rl0 = \<lparr>rl_suspect = False, rl_ceiling = 0, rl_best = None,
      rl_bytes = 0, rl_memo = memo, rl_ticks = wk_ticks walk\<rparr>"
  define rl where "rl = scanFiles W (rs_read st) ?op cfg cs rl0"
  have cand: "candidates (rs_order st) cfg (rs_sessions st) home 1 =
      (Some \<lparr>en_files = cs, en_bounded = False, en_hasMissed = False, en_missedCeiling = 0\<rparr>, wk_ticks walk)"
    using walk col by (simp add: candidates_def Let_def cs_def collected_def newWalk_def)
  have good: "\<forall>c \<in> set cs. memoGood W (rs_read st) (rl_memo rl0) c"
    using cset memo by (fastforce simp: memoOf_def rl0_def)
  have "sum_list (map cd_size cs) = sum_list (map (\<lambda>(a, c). cd_size c) (storeFiles st home))"
  proof -
    have "mset (map cd_size cs) = mset (map cd_size (map snd (storeFiles st home)))"
      using ms by (metis mset_map)
    then have "sum_list (map cd_size cs) = sum_list (map cd_size (map snd (storeFiles st home)))"
      by (metis sum_mset_sum_list)
    then show ?thesis by (simp add: case_prod_unfold comp_def)
  qed
  then have calm: "\<not> rl_suspect rl"
    unfolding rl_def using bounds(1) clock good cset
    by (intro scanFiles_room) (auto simp: rl0_def withinBounds_def withDefaults_fields list_all_iff)
  have nf: "newestFirst cs" unfolding cs_def by (rule ordersSlateD(2) [OF ord])
  note loop = scanFiles_spec [OF nf good rl_def [symmetric], unfolded withDefaults_fields]
  have best: "\<exists>b. rl_best rl = Some b \<and> fc_sortAt cl \<le> fc_sortAt b"
    if mem: "cl \<in> set (storeClaims W st home (op_CarriedPrefixes op))" for cl
  proof -
    obtain a c where f: "(a, c) \<in> set (storeFiles st home)" "cl \<in> set (?claims c)"
      using storeClaims_file [OF mem] by blast
    have "c \<in> set cs" unfolding cset using f(1) by force
    then have "handled ?hid ?claims rl c" using loop by blast
    then show ?thesis using f(2) calm by (auto simp: handled_def)
  qed
  have mem: "b \<in> set (storeClaims W st home (op_CarriedPrefixes op))" if found: "rl_best rl = Some b" for b
  proof -
    have "rl_best rl0 = None" by (simp add: rl0_def)
    then obtain c where "c \<in> set cs" "b \<in> set (?claims c)" using loop found by auto
    then show ?thesis unfolding cset by (auto simp: storeClaims_def) blast
  qed
  have late: "(wc_deadline cfg < wc_now cfg (rl_ticks rl)) = False" using clock by (simp add: not_less)
  have "verdictOf False rl = (ar_Status r, ar_Reading r, ar_Reason r)"
    using run cand
    by (auto simp: Refresh_def cfg_def [symmetric] Let_def rl0_def [symmetric] rl_def [symmetric] late
        split: prod.splits)
  then show ?thesis using calm best mem by blast
qed


end
