(* ===== verification/Rate_Props.thy ===== *)
theory Rate_Props
  imports Rate_Lemmas
begin

text \<open>
  The properties of the usage index. The sample store holds one rollout of two claims: the newer one lies in
  the prefix carried over from another account, the other is the account's own. It is refreshed twice, the
  second time from the memo.
\<close>

subsection \<open>The sample store\<close>

definition sampleLine :: "string \<Rightarrow> string \<Rightarrow> json" where
  "sampleLine stamp pct =
     JObj [(''timestamp'', JStr stamp), (''Type'', JStr ''event_msg''),
       (''payload'', JObj [(''type'', JStr ''token_count''),
          (''rate_limits'', JObj [(''primary'', JObj [(''used_percent'', JNum pct)]),
             (''secondary'', JObj [(''used_percent'', JNum ''30''), (''window_minutes'', JNull)])])])]"

definition sampleWire :: wire where
  "sampleWire =
     \<lparr>wi_json = (\<lambda>s. if s = ''old'' then Some (sampleLine ''t2'' ''50'')
                     else if s = ''new'' then Some (sampleLine ''t1'' ''20'') else None),
       wi_float = (\<lambda>s. if s = ''50'' then Some 50 else if s = ''30'' then Some 30 else if s = ''20'' then Some 20 else None),
       wi_time = (\<lambda>s. if s = ''t1'' then Some 900 else if s = ''t2'' then Some 950 else None)\<rparr>"

definition sampleRollout :: string where
  "sampleRollout = ''rollout-x-00000000-0000-0000-0000-00000000000a.jsonl''"

definition sampleRolloutPath :: string where
  "sampleRolloutPath = ''/h/work/sessions/2026/02/03/'' @ sampleRollout"

definition sampleRolloutStore :: rolloutStore where
  "sampleRolloutStore =
     \<lparr>rs_sessions = DirEntries [DirEntry ''2026'' (DirEntries [DirEntry ''02'' (DirEntries [
         FileEntry ''notes'' StatFailed,
         DirEntry ''03'' (DirEntries [FileEntry sampleRollout (StatOk 9 1000)])])])],
       rs_read = (\<lambda>p. if p = sampleRolloutPath then FileIs 1000 (''old'' @ [CHR 0x0A] @ ''new '' @ [CHR 0x0A]) else FileUnreadable),
       rs_now = (\<lambda>_. 5000),
       rs_order = sort_key (\<lambda>c. - cd_modTime c)\<rparr>"

definition sampleOptions :: Options where
  "sampleOptions = \<lparr>op_MaxFiles = 0, op_MaxTotalBytes = 0, op_MaxPerFileBytes = 0, op_Deadline = 0,
     op_CarriedPrefixes = [(sampleRolloutPath, 4)]\<rparr>"

lemma sample_order: "ordersSlate sampleRolloutStore"
proof -
  have "sorted_wrt (\<lambda>a b. cd_modTime b \<le> cd_modTime a) (sort_key (\<lambda>c. - cd_modTime c) cs)" for cs :: "candidate list"
    using sorted_sort_key [of "\<lambda>c. - cd_modTime c" cs] by (simp add: sorted_map)
  then show ?thesis unfolding ordersSlate_def sampleRolloutStore_def by simp
qed

lemma sample_files: "storeFiles sampleRolloutStore ''/h/work'' =
    [([''2026'', ''02'', ''03''], \<lparr>cd_path = sampleRolloutPath, cd_size = 9, cd_modTime = 1000\<rparr>)]"
  by code_simp


abbreviation sampleCandidate :: candidate where
  "sampleCandidate \<equiv> \<lparr>cd_path = sampleRolloutPath, cd_size = 9, cd_modTime = 1000\<rparr>"

definition sampleConfig :: walkConfig where
  "sampleConfig = \<lparr>wc_maxFiles = 32, wc_deadline = 250005000, wc_now = (\<lambda>_. 5000)\<rparr>"

definition sampleClaim :: fileClaim where
  "sampleClaim = \<lparr>fc_verdict = RateLimitsParsed,
     fc_reading = \<lparr>ur_Windows =
         [\<lparr>uw_Name = ''primary'', uw_UsedPercent = 20, uw_WindowMinutes = None, uw_ResetsAt = None\<rparr>,
          \<lparr>uw_Name = ''secondary'', uw_UsedPercent = 30, uw_WindowMinutes = None, uw_ResetsAt = None\<rparr>],
       ur_RecordedAt = 900\<rparr>,
     fc_sortAt = 900\<rparr>"

lemma sample_config: "configFor sampleRolloutStore (withDefaults sampleOptions) = sampleConfig"
  by (simp add: configFor_def withDefaults_def sampleOptions_def sampleRolloutStore_def sampleConfig_def)

lemma sample_walk: "walkDir sampleConfig (rs_sessions sampleRolloutStore) (joinPath ''/h/work'' ''sessions'') 0 [] [] (newWalk 1) =
    (\<lparr>wk_top = [sampleCandidate], wk_seen = 5, wk_stopped = False, wk_hasMissed = False, wk_missedCeiling = 0, wk_ticks = 4\<rparr>, None)"
  by code_simp

lemma sample_scan:
  "scanTail sampleWire (rs_read sampleRolloutStore) sampleRolloutPath 9 4 1048576 = Some (sampleClaim, False, 5)"
  by code_simp

definition sampleMemo :: "fileMemo gomap" where
  "sampleMemo =
     [(sampleRolloutPath,
       \<lparr>fm_size = 9, fm_modTime = 1000, fm_watermark = 4, fm_window = 1048576, fm_claim = sampleClaim,
         fm_bounded = False\<rparr>)]"

lemma sample_claim:
  "memoClaim sampleWire (rs_read sampleRolloutStore) memo sampleCandidate (withDefaults sampleOptions) 1048576 =
     (if memo = [] then (Some (sampleClaim, False, 5), sampleMemo)
      else if memo = sampleMemo then (Some (sampleClaim, False, 0), sampleMemo)
      else memoClaim sampleWire (rs_read sampleRolloutStore) memo sampleCandidate (withDefaults sampleOptions) 1048576)"
  by (simp add: memoClaim_def sampleOptions_def withDefaults_def sample_scan get0_def sampleMemo_def)

lemma sample_run:
  assumes "memo = [] \<or> memo = sampleMemo"
  shows "Refresh sampleWire sampleRolloutStore ''/h/work'' sampleOptions memo =
    (\<lparr>ar_Status = StatusObserved, ar_Reading = fc_reading sampleClaim, ar_Reason = [], ar_Files = 1,
       ar_BytesRead = (if memo = [] then 5 else 0)\<rparr>, sampleMemo)"
proof -
  have ord: "rs_order sampleRolloutStore [sampleCandidate] = [sampleCandidate]"
    by (simp add: sampleRolloutStore_def)
  have cand: "candidates (rs_order sampleRolloutStore) sampleConfig (rs_sessions sampleRolloutStore) ''/h/work'' 1 =
    (Some \<lparr>en_files = [sampleCandidate], en_bounded = False, en_hasMissed = False, en_missedCeiling = 0\<rparr>, 4)"
    unfolding candidates_def Let_def sample_walk by (simp add: ord)
  have opts: "op_MaxTotalBytes (withDefaults sampleOptions) = 4194304" "op_MaxPerFileBytes (withDefaults sampleOptions) = 1048576"
    by (simp_all add: withDefaults_def sampleOptions_def)
  have ne: "sampleMemo \<noteq> []" by (simp add: sampleMemo_def)
  have claim: "memoClaim sampleWire (rs_read sampleRolloutStore) memo sampleCandidate (withDefaults sampleOptions) 1048576 =
      (Some (sampleClaim, False, if memo = [] then 5 else 0), sampleMemo)"
    using assms ne by (subst sample_claim) auto
  have "scanFiles sampleWire (rs_read sampleRolloutStore) (withDefaults sampleOptions) sampleConfig [sampleCandidate]
      \<lparr>rl_suspect = False, rl_ceiling = 0, rl_best = None, rl_bytes = 0, rl_memo = memo, rl_ticks = 4\<rparr> =
      \<lparr>rl_suspect = False, rl_ceiling = 0, rl_best = Some sampleClaim, rl_bytes = (if memo = [] then 5 else 0),
        rl_memo = sampleMemo, rl_ticks = 5\<rparr>"
    by (simp add: scanStep_def opts claim Let_def takeBest_def sampleConfig_def) (simp add: sampleClaim_def)
  then show ?thesis
    unfolding Refresh_def Let_def sample_config cand by (simp add: verdictOf_def sampleConfig_def sampleClaim_def)
qed

abbreviation sampleCall :: refreshCall where
  "sampleCall \<equiv> (sampleRolloutStore, ''/h/work'', sampleOptions)"

lemma sample_memo: "indexerMemo sampleWire [sampleCall] = sampleMemo"
  by (simp add: indexerMemo_def refreshMemo_def sample_run)

lemma sample_faithful: "statsFaithful ([sampleCall] @ [sampleCall])"
  by (simp add: statsFaithful_def sample_order)

lemma sample_claims:
  "storeClaims sampleWire sampleRolloutStore ''/h/work'' (op_CarriedPrefixes sampleOptions) = [sampleClaim]"
  by code_simp

lemma sample_codex: "codexStore sampleWire sampleRolloutStore ''/h/work'' (op_CarriedPrefixes sampleOptions)"
  by code_simp

text \<open>The same store, its only file carried over whole.\<close>

definition sampleCarried :: Options where
  "sampleCarried = sampleOptions\<lparr>op_CarriedPrefixes := [(sampleRolloutPath, 9)]\<rparr>"

lemma sample_carried_run:
  "ar_Status (fst (Refresh sampleWire sampleRolloutStore ''/h/work'' sampleCarried [])) = StatusNone"
proof -
  have cfg: "configFor sampleRolloutStore (withDefaults sampleCarried) = sampleConfig"
    by (simp add: configFor_def withDefaults_def sampleCarried_def sampleOptions_def sampleRolloutStore_def sampleConfig_def)
  have ord: "rs_order sampleRolloutStore [sampleCandidate] = [sampleCandidate]"
    by (simp add: sampleRolloutStore_def)
  have cand: "candidates (rs_order sampleRolloutStore) sampleConfig (rs_sessions sampleRolloutStore) ''/h/work'' 1 =
    (Some \<lparr>en_files = [sampleCandidate], en_bounded = False, en_hasMissed = False, en_missedCeiling = 0\<rparr>, 4)"
    unfolding candidates_def Let_def sample_walk by (simp add: ord)
  have opts: "op_MaxTotalBytes (withDefaults sampleCarried) = 4194304"
    "op_CarriedPrefixes (withDefaults sampleCarried) = [(sampleRolloutPath, 9)]"
    by (simp_all add: withDefaults_def sampleCarried_def sampleOptions_def)
  show ?thesis
    unfolding Refresh_def Let_def cfg cand
    by (simp add: scanStep_def memoClaim_def scanTail_def opts get0_def takeBest_def noClaim_def sampleConfig_def
        verdictOf_def Let_def)
qed

subsection \<open>What a verdict says\<close>

text \<open>C11. After any history of refreshes, an observed reading is the newest rate-limit claim of the
  account's own records: it is a well-formed claim of a line that begins past the copied prefix of its file;
  no claim that counts, in any file of the store that can be read, whether the refresh opened it or not, is
  stamped later; and no file that cannot be read is young enough to hold a later one. Relied on are the
  layout of the store and the bound on how far a record may postdate its file's last write (\<open>codexStore\<close>), and
  that a file whose stat did not change did not change (\<open>statsFaithful\<close>).\<close>
theorem observed_is_newest:
  assumes hist: "statsFaithful (calls @ [(st, home, op)])"
    and store: "codexStore W st home (op_CarriedPrefixes op)"
    and run: "fst (Refresh W st home op (indexerMemo W calls)) = r" and obs: "ar_Status r = StatusObserved"
  shows "\<exists>cl \<in> set (storeClaims W st home (op_CarriedPrefixes op)).
     fc_verdict cl = RateLimitsParsed \<and> fc_reading cl = ar_Reading r \<and>
     list_all (\<lambda>x. fc_sortAt x \<le> ur_RecordedAt (ar_Reading r)) (storeClaims W st home (op_CarriedPrefixes op)) \<and>
     list_all (\<lambda>(a, c). hiddenFile (rs_read st) (op_CarriedPrefixes op) c \<longrightarrow>
       cd_modTime c + recordOvershootBound \<le> ur_RecordedAt (ar_Reading r)) (storeFiles st home)"
proof -
  obtain memo' where "Refresh W st home op (indexerMemo W calls) = (r, memo')"
    using run by (cases "Refresh W st home op (indexerMemo W calls)") auto
  moreover have "ordersSlate st" using hist by (auto simp: statsFaithful_def)
  ultimately show ?thesis
    using observed_best obs indexer_memo [OF hist] store by blast
qed

theorem observed_is_newest_witness:
  "\<exists>cl \<in> set (storeClaims sampleWire sampleRolloutStore ''/h/work'' (op_CarriedPrefixes sampleOptions)).
     fc_verdict cl = RateLimitsParsed \<and> fc_reading cl = fc_reading sampleClaim"
proof -
  have "fst (Refresh sampleWire sampleRolloutStore ''/h/work'' sampleOptions (indexerMemo sampleWire [sampleCall])) =
      \<lparr>ar_Status = StatusObserved, ar_Reading = fc_reading sampleClaim, ar_Reason = [], ar_Files = 1, ar_BytesRead = 0\<rparr>"
    unfolding sample_memo by (simp add: sample_run) (simp add: sampleMemo_def)
  from observed_is_newest [OF sample_faithful sample_codex this] show ?thesis by auto
qed

text \<open>The verdict of no evidence is only given when there is none: every file of the store could be read past
  its watermark and none holds a claim that counts. Nothing is relied on of the layout or of the clocks.\<close>
theorem none_is_no_claim:
  assumes hist: "statsFaithful (calls @ [(st, home, op)])"
    and none: "ar_Status (fst (Refresh W st home op (indexerMemo W calls))) = StatusNone"
  shows "storeClaims W st home (op_CarriedPrefixes op) = [] \<and>
    list_all (\<lambda>(a, c). \<not> hiddenFile (rs_read st) (op_CarriedPrefixes op) c) (storeFiles st home)"
proof -
  obtain r memo' where "Refresh W st home op (indexerMemo W calls) = (r, memo')" by fastforce
  moreover have "ordersSlate st" using hist by (auto simp: statsFaithful_def)
  ultimately show ?thesis
    using none_best indexer_memo [OF hist] none by fastforce
qed

theorem none_is_no_claim_witness:
  "storeClaims sampleWire sampleRolloutStore ''/h/work'' (op_CarriedPrefixes sampleCarried) = []"
proof (rule conjunct1 [OF none_is_no_claim])
  show "statsFaithful ([] @ [(sampleRolloutStore, ''/h/work'', sampleCarried)])"
    by (simp add: statsFaithful_def sample_order)
  show "ar_Status (fst (Refresh sampleWire sampleRolloutStore ''/h/work'' sampleCarried (indexerMemo sampleWire []))) = StatusNone"
    by (simp add: indexerMemo_def sample_carried_run)
qed

text \<open>C12. When a refresh proves at an instant that a limited account serves again, the account's records hold
  a claim of that instant, not in the future, with every window below the wall, and no claim that counts
  is newer.\<close>
theorem proof_of_service:
  assumes hist: "statsFaithful (calls @ [(st, home, op)])"
    and store: "codexStore W st home (op_CarriedPrefixes op)"
    and pf: "usageReadingProof (fst (Refresh W st home op (indexerMemo W calls))) wallPercent now = Some t"
  shows "t \<le> now \<and>
     (\<exists>cl \<in> set (storeClaims W st home (op_CarriedPrefixes op)).
        fc_verdict cl = RateLimitsParsed \<and> fc_sortAt cl = t \<and>
        list_all (\<lambda>w. uw_UsedPercent w < of_int wallPercent) (ur_Windows (fc_reading cl)) \<and>
        list_all (\<lambda>n. n \<in> set (map uw_Name (ur_Windows (fc_reading cl)))) codexWindowSlotNames) \<and>
     list_all (\<lambda>x. fc_sortAt x \<le> t) (storeClaims W st home (op_CarriedPrefixes op))"
proof -
  obtain r memo' where run: "Refresh W st home op (indexerMemo W calls) = (r, memo')" by fastforce
  have p: "ar_Status r = StatusObserved" "t = ur_RecordedAt (ar_Reading r)" "t \<le> now"
    "list_all (\<lambda>w. uw_UsedPercent w < of_int wallPercent) (ur_Windows (ar_Reading r))"
    "list_all (\<lambda>n. n \<in> set (map uw_Name (ur_Windows (ar_Reading r)))) codexWindowSlotNames"
    using pf by (auto simp: run usageReadingProof_def Let_def list_all_iff list_ex_iff split: if_splits)
  have "ordersSlate st" using hist by (auto simp: statsFaithful_def)
  from observed_best [OF run p(1) this indexer_memo [OF hist] store]
  obtain b where b: "b \<in> set (storeClaims W st home (op_CarriedPrefixes op))"
    "fc_verdict b = RateLimitsParsed" "fc_reading b = ar_Reading r"
    "list_all (\<lambda>x. fc_sortAt x \<le> t) (storeClaims W st home (op_CarriedPrefixes op))"
    unfolding p(2) by blast
  moreover have "fc_sortAt b = t" using storeClaims_stamp [OF b(1,2)] b(3) p(2) by simp
  ultimately show ?thesis using p by auto
qed

theorem proof_of_service_witness:
  "(900 :: int) \<le> 5000 \<and>
     list_all (\<lambda>x. fc_sortAt x \<le> 900) (storeClaims sampleWire sampleRolloutStore ''/h/work'' (op_CarriedPrefixes sampleOptions))"
proof -
  have "usageReadingProof (fst (Refresh sampleWire sampleRolloutStore ''/h/work'' sampleOptions
      (indexerMemo sampleWire [sampleCall]))) 95 5000 = Some 900"
    unfolding sample_memo by (simp add: sample_run) (simp add: usageReadingProof_def sampleClaim_def codexWindowSlotNames_def isZero_def)
  from proof_of_service [OF sample_faithful sample_codex this] show ?thesis by auto
qed

text \<open>C13. A store within the bounds of a refresh always gets an answer, and it is the reference answer: no
  evidence exactly when no claim counts, and otherwise the verdict on a newest claim, the memo of earlier
  refreshes notwithstanding.\<close>
theorem bounded_store_answers:
  assumes hist: "statsFaithful (calls @ [(st, home, op)])"
    and bounds: "withinBounds st home op" "inTime st op"
  shows "let r = fst (Refresh W st home op (indexerMemo W calls));
             claims = storeClaims W st home (op_CarriedPrefixes op)
         in (claims = [] \<and> ar_Status r = StatusNone) \<or>
            (\<exists>cl \<in> set claims. list_all (\<lambda>x. fc_sortAt x \<le> fc_sortAt cl) claims \<and>
               (fc_verdict cl = RateLimitsParsed \<and> ar_Status r = StatusObserved \<and> ar_Reading r = fc_reading cl \<or>
                fc_verdict cl = RateLimitsMalformed \<and> ar_Status r = StatusUnknown \<and> ar_Reason r = ''malformed-record''))"
proof -
  let ?all = "storeClaims W st home (op_CarriedPrefixes op)"
  obtain r memo' where run: "Refresh W st home op (indexerMemo W calls) = (r, memo')" by fastforce
  have "ordersSlate st" using hist by (auto simp: statsFaithful_def)
  from refresh_bounded [OF run this indexer_memo [OF hist] bounds]
  obtain rl where rl: "\<not> rl_suspect rl"
    "\<forall>cl \<in> set ?all. \<exists>b. rl_best rl = Some b \<and> fc_sortAt cl \<le> fc_sortAt b"
    "\<forall>b. rl_best rl = Some b \<longrightarrow> b \<in> set ?all"
    "verdictOf False rl = (ar_Status r, ar_Reading r, ar_Reason r)" by blast
  show ?thesis
  proof (cases "rl_best rl")
    case None
    then have "?all = []" using rl(2) by (cases ?all) auto
    then show ?thesis using rl None by (simp add: run verdictOf_def)
  next
    case (Some b)
    then have b: "b \<in> set ?all" "list_all (\<lambda>x. fc_sortAt x \<le> fc_sortAt b) ?all"
      using rl(2,3) by (auto simp: list_all_iff)
    have "fc_verdict b \<noteq> RateLimitsAbsent"
      using storeClaims_file [OF b(1)] fileClaims_present by blast
    then have "fc_verdict b = RateLimitsParsed \<and> ar_Status r = StatusObserved \<and> ar_Reading r = fc_reading b \<or>
        fc_verdict b = RateLimitsMalformed \<and> ar_Status r = StatusUnknown \<and> ar_Reason r = ''malformed-record''"
      using rl(1,4) Some by (cases "fc_verdict b") (auto simp: verdictOf_def)
    then show ?thesis using b by (auto simp: run Let_def)
  qed
qed

theorem bounded_store_answers_witness:
  "ar_Status (fst (Refresh sampleWire sampleRolloutStore ''/h/work'' sampleOptions (indexerMemo sampleWire [sampleCall]))) = StatusObserved"
proof -
  have w: "withinBounds sampleRolloutStore ''/h/work'' sampleOptions" by code_simp
  have t: "inTime sampleRolloutStore sampleOptions"
    by (simp add: inTime_def sampleRolloutStore_def withDefaults_def sampleOptions_def)
  have "fc_verdict sampleClaim = RateLimitsParsed" by (simp add: sampleClaim_def)
  with bounded_store_answers [where W = sampleWire, OF sample_faithful w t, unfolded Let_def sample_claims]
  show ?thesis by simp
qed

end
