(* ===== verification/Layout_Grid.thy ===== *)
theory Layout_Grid
  imports Go_Strings
begin

text \<open>
  The sizing of the terminal UI, \<^verbatim>\<open>src/ui/layout/rect.go\<close>, \<^verbatim>\<open>ring.go\<close> and \<^verbatim>\<open>grid.go\<close>: rectangles and their
  cuts, the focus ring, and the grid that turns a terminal size into the rectangles of the named regions.
  A terminal's sizes and counts are far from the ends of \<^verbatim>\<open>int\<close>, so they are integers; Go's division and
  remainder round towards zero.
\<close>

definition goQuot :: "int \<Rightarrow> int \<Rightarrow> int" where
  "goQuot a b = sgn a * sgn b * (\<bar>a\<bar> div \<bar>b\<bar>)"

definition goRem :: "int \<Rightarrow> int \<Rightarrow> int" where
  "goRem a b = a - b * goQuot a b"

lemma goQuot_pos: "0 \<le> a \<Longrightarrow> 0 < b \<Longrightarrow> goQuot a b = a div b"
  by (cases "a = 0") (simp_all add: goQuot_def)

lemma goRem_pos: "0 \<le> a \<Longrightarrow> 0 < b \<Longrightarrow> goRem a b = a mod b"
  by (simp add: goRem_def goQuot_pos minus_mult_div_eq_mod)

subsection \<open>Rectangles\<close>

record Point =
  pt_X :: int
  pt_Y :: int

record Rect =
  rc_X :: int
  rc_Y :: int
  rc_W :: int
  rc_H :: int

abbreviation rect :: "int \<Rightarrow> int \<Rightarrow> int \<Rightarrow> int \<Rightarrow> Rect" where
  "rect x y w h \<equiv> \<lparr>rc_X = x, rc_Y = y, rc_W = w, rc_H = h\<rparr>"

definition Rect_Empty :: "Rect \<Rightarrow> bool" where
  "Rect_Empty r \<longleftrightarrow> rc_W r \<le> 0 \<or> rc_H r \<le> 0"

definition Right :: "Rect \<Rightarrow> int" where
  "Right r = rc_X r + rc_W r"

definition Bottom :: "Rect \<Rightarrow> int" where
  "Bottom r = rc_Y r + rc_H r"

definition Contains :: "Rect \<Rightarrow> Point \<Rightarrow> bool" where
  "Contains r p \<longleftrightarrow> pt_X p \<ge> rc_X r \<and> pt_X p < Right r \<and> pt_Y p \<ge> rc_Y r \<and> pt_Y p < Bottom r"

definition Local :: "Rect \<Rightarrow> Point \<Rightarrow> Point" where
  "Local r p = \<lparr>pt_X = pt_X p - rc_X r, pt_Y = pt_Y p - rc_Y r\<rparr>"

definition clampInt :: "int \<Rightarrow> int \<Rightarrow> int \<Rightarrow> int" where
  "clampInt v lo hi = (if v < lo then lo else if v > hi then hi else v)"

definition CutLeft :: "Rect \<Rightarrow> int \<Rightarrow> Rect \<times> Rect" where
  "CutLeft r w0 =
     (let w = clampInt w0 0 (rc_W r)
      in (rect (rc_X r) (rc_Y r) w (rc_H r), rect (rc_X r + w) (rc_Y r) (rc_W r - w) (rc_H r)))"

definition CutTop :: "Rect \<Rightarrow> int \<Rightarrow> Rect \<times> Rect" where
  "CutTop r h0 =
     (let h = clampInt h0 0 (rc_H r)
      in (rect (rc_X r) (rc_Y r) (rc_W r) h, rect (rc_X r) (rc_Y r + h) (rc_W r) (rc_H r - h)))"

definition CutBottom :: "Rect \<Rightarrow> int \<Rightarrow> Rect \<times> Rect" where
  "CutBottom r h0 =
     (let h = clampInt h0 0 (rc_H r)
      in (rect (rc_X r) (rc_Y r) (rc_W r) (rc_H r - h), rect (rc_X r) (rc_Y r + rc_H r - h) (rc_W r) h))"

subsection \<open>The focus ring\<close>

text \<open>The map of hidden ids answers \<^const>\<open>False\<close> for an id it does not hold.\<close>

record Ring =
  rg_ids :: "string list"
  rg_hidden :: "string \<Rightarrow> bool"
  rg_active :: int

definition NewRing :: "string list \<Rightarrow> Ring" where
  "NewRing ids = \<lparr>rg_ids = ids, rg_hidden = (\<lambda>_. False), rg_active = 0\<rparr>"

definition SetHidden :: "Ring \<Rightarrow> string \<Rightarrow> bool \<Rightarrow> Ring" where
  "SetHidden r i hidden = r\<lparr>rg_hidden := (rg_hidden r)(i := hidden)\<rparr>"

fun normalizeFrom :: "Ring \<Rightarrow> nat list \<Rightarrow> Ring \<times> bool" where
  "normalizeFrom r [] = (r, False)"
| "normalizeFrom r (i # is) =
     (let idx = goRem (rg_active r + int i) (int (length (rg_ids r)))
      in if \<not> rg_hidden r (rg_ids r ! nat idx) then (r\<lparr>rg_active := idx\<rparr>, True) else normalizeFrom r is)"

definition normalize :: "Ring \<Rightarrow> Ring \<times> bool" where
  "normalize r = normalizeFrom r [0..<length (rg_ids r)]"

text \<open>\<^verbatim>\<open>SetIDs\<close> keeps the hidden marks and the active id that survive.\<close>

definition SetIDs :: "Ring \<Rightarrow> string list \<Rightarrow> Ring" where
  "SetIDs r ids =
     (let (r1, ok) = normalize r;
          activeID = (if ok then rg_ids r1 ! nat (rg_active r1) else []);
          pos = length (takeWhile (\<lambda>i. i \<noteq> activeID) ids)
      in \<lparr>rg_ids = ids, rg_hidden = (\<lambda>i. i \<in> set ids \<and> rg_hidden r i),
           rg_active = (if pos < length ids then int pos else 0)\<rparr>)"

definition Active :: "Ring \<Rightarrow> Ring \<times> string" where
  "Active r = (let (r1, ok) = normalize r in (r1, if ok then rg_ids r1 ! nat (rg_active r1) else []))"

definition Focus :: "Ring \<Rightarrow> string \<Rightarrow> Ring \<times> bool" where
  "Focus r i =
     (let pos = length (takeWhile (\<lambda>s. \<not> (s = i \<and> \<not> rg_hidden r s)) (rg_ids r))
      in if pos < length (rg_ids r) then (r\<lparr>rg_active := int pos\<rparr>, True) else (r, False))"

fun stepFrom :: "Ring \<Rightarrow> int \<Rightarrow> nat list \<Rightarrow> Ring \<times> string" where
  "stepFrom r delta [] = (r, rg_ids r ! nat (rg_active r))"
| "stepFrom r delta (i # is) =
     (let n = int (length (rg_ids r));
          idx = goRem (goRem (rg_active r + delta * int i) n + n) n
      in if \<not> rg_hidden r (rg_ids r ! nat idx) then (r\<lparr>rg_active := idx\<rparr>, rg_ids r ! nat idx)
         else stepFrom r delta is)"

definition ring_step :: "Ring \<Rightarrow> int \<Rightarrow> Ring \<times> string" where
  "ring_step r delta =
     (let n = length (rg_ids r)
      in if n = 0 then (r, [])
         else (let (r1, ok) = normalize r
               in if \<not> ok then (r1, []) else stepFrom r1 delta [1..<Suc n]))"

definition Ring_Next :: "Ring \<Rightarrow> Ring \<times> string" where
  "Ring_Next r = ring_step r 1"

definition Ring_Prev :: "Ring \<Rightarrow> Ring \<times> string" where
  "Ring_Prev r = ring_step r (-1)"

subsection \<open>The grid\<close>

definition TreeMinWidth :: int where "TreeMinWidth = 22"
definition TreeMaxWidth :: int where "TreeMaxWidth = 36"
definition TreeMinHeight :: int where "TreeMinHeight = 6"
definition StatusBarRows :: int where "StatusBarRows = 2"
definition AlarmBarRows :: int where "AlarmBarRows = 1"
definition RailRuleRows :: int where "RailRuleRows = 1"
definition AutomationsRows :: int where "AutomationsRows = 4"
definition AutomationsCompactRows :: int where "AutomationsCompactRows = 2"
definition automationsBottomMargin :: int where "automationsBottomMargin = 1"
definition ProjectsRows :: int where "ProjectsRows = 3"
definition ProjectsCompactRows :: int where "ProjectsCompactRows = 2"
definition projectsBottomMargin :: int where "projectsBottomMargin = 1"
definition PaneMinWidth :: int where "PaneMinWidth = 40"
definition MultiPaneMinWidth :: int where "MultiPaneMinWidth = 110"
definition AutomationsFullMinWidth :: int where "AutomationsFullMinWidth = 80"
definition AutomationsFullMinHeight :: int where "AutomationsFullMinHeight = 20"
definition MinimalWidth :: int where "MinimalWidth = 60"
definition MinimalHeight :: int where "MinimalHeight = 15"
definition HardMinWidth :: int where "HardMinWidth = 40"
definition HardMinHeight :: int where "HardMinHeight = 10"

lemmas grid_consts = TreeMinWidth_def TreeMaxWidth_def TreeMinHeight_def StatusBarRows_def AlarmBarRows_def
  RailRuleRows_def AutomationsRows_def AutomationsCompactRows_def automationsBottomMargin_def ProjectsRows_def
  ProjectsCompactRows_def projectsBottomMargin_def PaneMinWidth_def MultiPaneMinWidth_def
  AutomationsFullMinWidth_def AutomationsFullMinHeight_def MinimalWidth_def MinimalHeight_def HardMinWidth_def
  HardMinHeight_def

record Grid =
  gr_Panes :: int
  gr_Automations :: int
  gr_Projects :: int
  gr_Banner :: bool

record Layout =
  ly_Width :: int
  ly_Height :: int
  ly_Fallback :: bool
  ly_Tree :: Rect
  ly_Workspace :: Rect
  ly_Panes :: "Rect list"
  ly_Dividers :: "Rect list"
  ly_RailRule :: Rect
  ly_Automations :: Rect
  ly_ProjectsRule :: Rect
  ly_Projects :: Rect
  ly_StatusBar :: Rect
  ly_Banner :: Rect
  ly_MaxPanes :: int
  ly_AutomationsVisible :: bool
  ly_AutomationsCompact :: bool
  ly_ProjectsVisible :: bool
  ly_ProjectsCompact :: bool

definition noRect :: Rect where
  "noRect = rect 0 0 0 0"

definition emptyLayout :: "int \<Rightarrow> int \<Rightarrow> Layout" where
  "emptyLayout w h =
     \<lparr>ly_Width = w, ly_Height = h, ly_Fallback = False, ly_Tree = noRect, ly_Workspace = noRect, ly_Panes = [],
       ly_Dividers = [], ly_RailRule = noRect, ly_Automations = noRect, ly_ProjectsRule = noRect,
       ly_Projects = noRect, ly_StatusBar = noRect, ly_Banner = noRect, ly_MaxPanes = 0,
       ly_AutomationsVisible = False, ly_AutomationsCompact = False, ly_ProjectsVisible = False,
       ly_ProjectsCompact = False\<rparr>"

definition PaneCount :: "Layout \<Rightarrow> int" where
  "PaneCount l = int (length (ly_Panes l))"

definition AutomationsCanDrawRows :: "Layout \<Rightarrow> bool" where
  "AutomationsCanDrawRows l \<longleftrightarrow> ly_AutomationsVisible l \<and> \<not> ly_AutomationsCompact l \<and> rc_H (ly_Automations l) > 1"

definition ProjectsCanDrawRows :: "Layout \<Rightarrow> bool" where
  "ProjectsCanDrawRows l \<longleftrightarrow> ly_ProjectsVisible l \<and> \<not> ly_ProjectsCompact l \<and> rc_H (ly_Projects l) > 1"

text \<open>The rows the two bottom sections of the rail ask for.\<close>

definition projectsWanted :: "Grid \<Rightarrow> bool \<Rightarrow> int \<Rightarrow> int" where
  "projectsWanted g compact railH =
     (if compact then ProjectsCompactRows
      else
        (let want = 2 + projectsBottomMargin + gr_Projects g;
             rows = (if want > ProjectsRows then want else ProjectsRows);
             third = goQuot (railH - RailRuleRows) 3
         in if third \<ge> ProjectsRows \<and> rows > third then third else rows))"

definition automationsWanted :: "Grid \<Rightarrow> bool \<Rightarrow> int \<Rightarrow> int \<Rightarrow> int" where
  "automationsWanted g compact railH projRows =
     (if compact then AutomationsCompactRows
      else
        (let want = 2 + automationsBottomMargin + gr_Automations g;
             rows = (if want > AutomationsRows then want else AutomationsRows);
             railAfterProjects = railH - (projRows + RailRuleRows);
             half = goQuot (railAfterProjects - RailRuleRows) 2
         in if half \<ge> AutomationsRows \<and> rows > half then half else rows))"

text \<open>The tree's height with the bottom sections as they are, and the two loops that hold its floor.\<close>

definition treeH :: "int \<Rightarrow> bool \<Rightarrow> int \<Rightarrow> bool \<Rightarrow> int \<Rightarrow> int" where
  "treeH railH autoVisible autoRows projVisible projRows =
     railH - (if autoVisible then autoRows + RailRuleRows else 0) - (if projVisible then projRows + RailRuleRows else 0)"

function yieldProjects :: "int \<Rightarrow> bool \<Rightarrow> int \<Rightarrow> bool \<Rightarrow> bool \<Rightarrow> int \<Rightarrow> bool \<times> bool \<times> int" where
  "yieldProjects railH autoVisible autoRows visible compact rows =
     (if visible \<and> treeH railH autoVisible autoRows visible rows < TreeMinHeight
      then (if rows > ProjectsCompactRows then yieldProjects railH autoVisible autoRows visible compact (rows - 1)
            else yieldProjects railH autoVisible autoRows False False 0)
      else (visible, compact, rows))"
  by auto
termination
  by (relation "measure (\<lambda>(railH, av, ar, visible, compact, rows). (if visible then 1 else 0) + nat (rows - ProjectsCompactRows))")
    (auto simp: ProjectsCompactRows_def)

function yieldAutomations :: "int \<Rightarrow> bool \<Rightarrow> bool \<Rightarrow> int \<Rightarrow> int \<Rightarrow> int" where
  "yieldAutomations railH autoVisible projVisible projRows rows =
     (if treeH railH autoVisible rows projVisible projRows < TreeMinHeight \<and> rows > AutomationsCompactRows
      then yieldAutomations railH autoVisible projVisible projRows (rows - 1) else rows)"
  by auto
termination
  by (relation "measure (\<lambda>(railH, av, pv, pr, rows). nat (rows - AutomationsCompactRows))") auto

declare yieldProjects.simps [simp del] yieldAutomations.simps [simp del]

text \<open>The rail outside minimal mode: the sections' heights, then the cuts from the bottom up.\<close>

definition solveRail :: "Grid \<Rightarrow> int \<Rightarrow> int \<Rightarrow> Rect \<Rightarrow> Layout \<Rightarrow> Rect \<times> Layout" where
  "solveRail g width height rail l =
     (let railH = rc_H rail;
          compact = (width < AutomationsFullMinWidth \<or> height < AutomationsFullMinHeight);
          proj0 = projectsWanted g compact railH;
          auto0 = automationsWanted g compact railH proj0;
          projVisible0 = (\<not> gr_Projects g \<le> 1);
          proj1 = (if gr_Projects g \<le> 1 then 0 else proj0);
          autoVisible = (gr_Automations g \<noteq> 0);
          auto1 = (if gr_Automations g = 0 then 0 else auto0);
          (projVisible, projCompact0, projRows) = yieldProjects railH autoVisible auto1 projVisible0 compact proj1;
          autoRows = yieldAutomations railH autoVisible projVisible projRows auto1;
          projCompact = (if projVisible \<and> projRows < ProjectsRows then True else projCompact0);
          autoCompact = (if autoRows < AutomationsRows then True else compact);
          l1 = l\<lparr>ly_ProjectsVisible := projVisible, ly_ProjectsCompact := projCompact,
                 ly_AutomationsVisible := autoVisible, ly_AutomationsCompact := autoCompact\<rparr>;
          (rail1, l2) =
            (if projVisible
             then (let (r1, proj) = CutBottom rail projRows;
                       (r2, rule1) = CutBottom r1 RailRuleRows
                   in (r2, l1\<lparr>ly_Projects := proj, ly_ProjectsRule := rule1\<rparr>))
             else (rail, l1))
      in if autoVisible
         then (let (r1, auto1) = CutBottom rail1 autoRows;
                   (r2, rule1) = CutBottom r1 RailRuleRows
               in (r2, l2\<lparr>ly_Automations := auto1, ly_RailRule := rule1\<rparr>))
         else (rail1, l2))"

text \<open>The division of the workspace into \<open>n\<close> panes and the dividers between them.\<close>

fun paneLoop :: "nat \<Rightarrow> int \<Rightarrow> int \<Rightarrow> nat list \<Rightarrow> Rect \<Rightarrow> Rect list \<times> Rect list" where
  "paneLoop n base extra [] rest = ([], [])"
| "paneLoop n base extra (i # is) rest =
     (let w = (if int i < extra then base + 1 else base);
          (pane, rest1) = CutLeft rest w
      in if int i < int n - 1
         then (let (dv, rest2) = CutLeft rest1 1;
                   (ps, ds) = paneLoop n base extra is rest2
               in (pane # ps, dv # ds))
         else (let (ps, ds) = paneLoop n base extra is rest1 in (pane # ps, ds)))"

definition solvePanes :: "Grid \<Rightarrow> bool \<Rightarrow> int \<Rightarrow> Rect \<Rightarrow> Layout \<Rightarrow> Layout" where
  "solvePanes g minimal width workspace l =
     (let fit = goQuot (rc_W workspace + 1) (PaneMinWidth + 1);
          maxPanes = (if \<not> minimal \<and> width \<ge> MultiPaneMinWidth \<and> fit > 1 then fit else 1);
          n = (if gr_Panes g > maxPanes then maxPanes else gr_Panes g);
          l1 = l\<lparr>ly_MaxPanes := maxPanes\<rparr>
      in if n > 0
         then (let content = rc_W workspace - (n - 1);
                   (ps, ds) = paneLoop (nat n) (goQuot content n) (goRem content n) [0..<nat n] workspace
               in l1\<lparr>ly_Panes := ps, ly_Dividers := ds\<rparr>)
         else l1)"

definition Solve :: "Grid \<Rightarrow> int \<Rightarrow> int \<Rightarrow> Layout" where
  "Solve g width height =
     (let l = emptyLayout width height
      in if width < HardMinWidth \<or> height < HardMinHeight then l\<lparr>ly_Fallback := True\<rparr>
         else
           (let minimal = (width < MinimalWidth \<or> height < MinimalHeight);
                screen = rect 0 0 width height;
                (banner, full) = (if gr_Banner g then CutTop screen AlarmBarRows else (noRect, screen));
                (rem, statusBar) = CutBottom full StatusBarRows;
                treeWidth = clampInt (goQuot (width * 25) 100) TreeMinWidth TreeMaxWidth;
                (rail, workspace) = CutLeft rem treeWidth;
                l1 = l\<lparr>ly_Banner := banner, ly_StatusBar := statusBar\<rparr>;
                (tree, l2) = (if \<not> minimal then solveRail g width height rail l1 else (rail, l1))
            in solvePanes g minimal width workspace (l2\<lparr>ly_Tree := tree, ly_Workspace := workspace\<rparr>)))"

end
