(* ===== verification/Layout_Lemmas.thy ===== *)
theory Layout_Lemmas
  imports Layout_Grid
begin

text \<open>
  The grid of the terminal UI: cuts divide a rectangle exactly, the rail's sections yield to the tree, the
  panes divide the workspace, and the stages of \<^verbatim>\<open>Solve\<close> together.
\<close>

subsection \<open>Covering the screen\<close>

text \<open>How many of the rectangles hold a cell; an empty one holds none.\<close>

definition cover :: "Rect \<Rightarrow> Point \<Rightarrow> nat" where
  "cover r p = (if Contains r p then 1 else 0)"

definition covers :: "Rect list \<Rightarrow> Point \<Rightarrow> nat" where
  "covers rs p = sum_list (map (\<lambda>r. cover r p) rs)"

lemma covers_simps [simp]:
  "covers [] p = 0" "covers (r # rs) p = cover r p + covers rs p" "covers (rs @ ss) p = covers rs p + covers ss p"
  by (simp_all add: covers_def)

lemma cover_noRect [simp]: "cover noRect p = 0"
  by (simp add: cover_def noRect_def Contains_def Right_def Bottom_def)

lemma noRect_size [simp]: "rc_W noRect = 0" "rc_H noRect = 0"
  by (simp_all add: noRect_def)

lemma Contains_noRect [simp]: "\<not> Contains noRect p"
  by (simp add: Contains_def noRect_def Right_def Bottom_def)

lemma cover_empty: "Rect_Empty r \<Longrightarrow> cover r p = 0"
  by (auto simp: cover_def Rect_Empty_def Contains_def Right_def Bottom_def)

lemma clampInt_range: "0 \<le> hi \<Longrightarrow> 0 \<le> clampInt v 0 hi \<and> clampInt v 0 hi \<le> hi"
  by (simp add: clampInt_def)

lemma CutLeft_cover:
  assumes "CutLeft r w = (a, b)" "0 \<le> rc_W r"
  shows "cover r p = cover a p + cover b p"
  using clampInt_range [OF assms(2), of w] assms(1)
  by (auto simp: CutLeft_def Let_def cover_def Contains_def Right_def Bottom_def)

lemma CutTop_cover:
  assumes "CutTop r h = (a, b)" "0 \<le> rc_H r"
  shows "cover r p = cover a p + cover b p"
  using clampInt_range [OF assms(2), of h] assms(1)
  by (auto simp: CutTop_def Let_def cover_def Contains_def Right_def Bottom_def)

lemma CutBottom_cover:
  assumes "CutBottom r h = (a, b)" "0 \<le> rc_H r"
  shows "cover r p = cover a p + cover b p"
  using clampInt_range [OF assms(2), of h] assms(1)
  by (auto simp: CutBottom_def Let_def cover_def Contains_def Right_def Bottom_def)

lemma CutBottom_size:
  "CutBottom r h = (a, b) \<Longrightarrow> 0 \<le> h \<Longrightarrow> h \<le> rc_H r \<Longrightarrow>
     rc_W a = rc_W r \<and> rc_W b = rc_W r \<and> rc_H a = rc_H r - h \<and> rc_H b = h"
  by (auto simp: CutBottom_def Let_def clampInt_def)

lemma CutTop_size:
  "CutTop r h = (a, b) \<Longrightarrow> 0 \<le> h \<Longrightarrow> h \<le> rc_H r \<Longrightarrow>
     rc_W a = rc_W r \<and> rc_W b = rc_W r \<and> rc_H a = h \<and> rc_H b = rc_H r - h"
  by (auto simp: CutTop_def Let_def clampInt_def)

lemma CutLeft_size:
  "CutLeft r w = (a, b) \<Longrightarrow> 0 \<le> w \<Longrightarrow> w \<le> rc_W r \<Longrightarrow>
     rc_W a = w \<and> rc_W b = rc_W r - w \<and> rc_H a = rc_H r \<and> rc_H b = rc_H r"
  by (auto simp: CutLeft_def Let_def clampInt_def)

subsection \<open>The panes\<close>

definition paneWidth :: "int \<Rightarrow> int \<Rightarrow> nat \<Rightarrow> int" where
  "paneWidth base extra i = (if int i < extra then base + 1 else base)"

lemma paneLoop_spec:
  assumes "0 \<le> base" "k < n"
    and "rc_W rest = sum_list (map (paneWidth base extra) [k..<n]) + int (n - 1 - k)"
    and "paneLoop n base extra [k..<n] rest = (ps, ds)"
  shows "covers (ps @ ds) p = cover rest p \<and> map rc_W ps = map (paneWidth base extra) [k..<n] \<and>
     map rc_W ds = replicate (n - 1 - k) 1 \<and> list_all (\<lambda>r. rc_H r = rc_H rest) (ps @ ds)"
  using assms(2-4)
proof (induction "n - k" arbitrary: k rest ps ds)
  case (Suc m)
  have upt: "[k..<n] = k # [Suc k..<n]" using Suc.prems(1) by (simp add: upt_conv_Cons)
  have nn: "0 \<le> paneWidth base extra j" for j using assms(1) by (simp add: paneWidth_def)
  then have nns: "0 \<le> sum_list (map (paneWidth base extra) [Suc k..<n])"
    by (intro sum_list_nonneg) auto
  obtain pane rest1 where cut: "CutLeft rest (paneWidth base extra k) = (pane, rest1)" by fastforce
  have W: "rc_W rest = paneWidth base extra k + sum_list (map (paneWidth base extra) [Suc k..<n]) + int (n - 1 - k)"
    using Suc.prems(2) by (simp add: upt)
  have sz: "rc_W pane = paneWidth base extra k" "rc_W rest1 = rc_W rest - paneWidth base extra k"
      "rc_H pane = rc_H rest" "rc_H rest1 = rc_H rest"
    using CutLeft_size [OF cut nn] W nns by auto
  have cov: "cover rest p = cover pane p + cover rest1 p"
    using CutLeft_cover [OF cut] W nns nn by (smt (verit) of_nat_0_le_iff)
  show ?case
  proof (cases "Suc k < n")
    case True
    obtain dv rest2 where cut2: "CutLeft rest1 1 = (dv, rest2)" by fastforce
    obtain ps' ds' where rec: "paneLoop n base extra [Suc k..<n] rest2 = (ps', ds')" by fastforce
    have out: "ps = pane # ps'" "ds = dv # ds'"
      using Suc.prems(3) True cut cut2 rec by (simp_all add: upt paneWidth_def [symmetric] Let_def)
    have w1: "1 \<le> rc_W rest1" using W sz(2) nns True by simp
    have sz2: "rc_W dv = 1" "rc_W rest2 = rc_W rest1 - 1" "rc_H dv = rc_H rest" "rc_H rest2 = rc_H rest"
      using CutLeft_size [OF cut2] w1 sz(4) by auto
    have "rc_W rest2 = sum_list (map (paneWidth base extra) [Suc k..<n]) + int (n - 1 - Suc k)"
      using W sz(2) sz2(2) True by simp
    from Suc.hyps(1) [OF _ True this rec] Suc.hyps(2)
    have ih: "covers (ps' @ ds') p = cover rest2 p" "map rc_W ps' = map (paneWidth base extra) [Suc k..<n]"
      "map rc_W ds' = replicate (n - 1 - Suc k) 1" "list_all (\<lambda>r. rc_H r = rc_H rest2) (ps' @ ds')"
      by auto
    have "n - 1 - k = Suc (n - 1 - Suc k)" using True by simp
    then show ?thesis
      using ih cov CutLeft_cover [OF cut2, of p] w1 sz sz2 by (auto simp: out upt)
  next
    case False
    then have n: "n = Suc k" using Suc.prems(1) by simp
    have out: "ps = [pane]" "ds = []"
      using Suc.prems(3) cut by (simp_all add: n paneWidth_def [symmetric] Let_def)
    have "rc_W rest1 = 0" using W sz(2) by (simp add: n)
    then have "cover rest1 p = 0" by (simp add: cover_empty Rect_Empty_def)
    then show ?thesis using cov sz by (simp add: out n)
  qed
qed simp

lemma sum_paneWidth:
  assumes "0 \<le> extra" "extra \<le> int n"
  shows "sum_list (map (paneWidth base extra) [0..<n]) = int n * base + extra"
proof -
  have "sum_list (map (paneWidth base extra) [0..<n]) = int n * base + min (int n) extra" for n
    by (induction n) (use assms(1) in \<open>auto simp: paneWidth_def algebra_simps\<close>)
  then show ?thesis using assms(2) by simp
qed

subsection \<open>The rail\<close>

lemma yieldProjects_step:
  "\<not> (visible \<and> treeH railH av ar visible rows < TreeMinHeight) \<Longrightarrow>
     yieldProjects railH av ar visible compact rows = (visible, compact, rows)"
  "visible \<and> treeH railH av ar visible rows < TreeMinHeight \<Longrightarrow> rows > ProjectsCompactRows \<Longrightarrow>
     yieldProjects railH av ar visible compact rows = yieldProjects railH av ar visible compact (rows - 1)"
  "visible \<and> treeH railH av ar visible rows < TreeMinHeight \<Longrightarrow> \<not> rows > ProjectsCompactRows \<Longrightarrow>
     yieldProjects railH av ar visible compact rows = (False, False, 0)"
proof -
  show "\<not> (visible \<and> treeH railH av ar visible rows < TreeMinHeight) \<Longrightarrow>
     yieldProjects railH av ar visible compact rows = (visible, compact, rows)"
    for visible rows compact by (subst yieldProjects.simps) auto
  note stop = this
  assume low: "visible \<and> treeH railH av ar visible rows < TreeMinHeight"
  show "yieldProjects railH av ar visible compact rows = yieldProjects railH av ar visible compact (rows - 1)"
    if "rows > ProjectsCompactRows"
    by (subst yieldProjects.simps) (simp only: if_P [OF low] if_P [OF that])
  show "yieldProjects railH av ar visible compact rows = (False, False, 0)" if "\<not> rows > ProjectsCompactRows"
    by (subst yieldProjects.simps) (simp only: if_P [OF low] if_not_P [OF that], simp add: stop)
qed

lemma yieldProjects_spec:
  "yieldProjects railH av ar visible compact rows = (v, c, rows') \<Longrightarrow>
     (v \<longrightarrow> visible \<and> c = compact \<and> rows' \<le> rows \<and> TreeMinHeight \<le> treeH railH av ar True rows' \<and>
        (ProjectsCompactRows \<le> rows \<longrightarrow> ProjectsCompactRows \<le> rows')) \<and>
     (\<not> v \<longrightarrow> (visible \<longrightarrow> rows' = 0 \<and> \<not> c) \<and> (\<not> visible \<longrightarrow> rows' = rows \<and> c = compact))"
proof (induction railH av ar visible compact rows rule: yieldProjects.induct)
  case (1 railH av ar visible compact rows)
  show ?case
  proof (cases "visible \<and> treeH railH av ar visible rows < TreeMinHeight")
    case low: True
    show ?thesis
    proof (cases "rows > ProjectsCompactRows")
      case True
      then show ?thesis
        using 1(1) [OF low True] 1(3) low unfolding yieldProjects_step(2) [OF low True] by auto
    next
      case False
      then show ?thesis
        using 1(3) low unfolding yieldProjects_step(3) [OF low False] by auto
    qed
  next
    case False
    then show ?thesis
      using 1(3) unfolding yieldProjects_step(1) [OF False] by auto
  qed
qed

lemma yieldAutomations_spec:
  "yieldAutomations railH av pv pr rows = rows' \<Longrightarrow>
     rows' \<le> rows \<and> (TreeMinHeight \<le> treeH railH av rows' pv pr \<or> rows' \<le> AutomationsCompactRows) \<and>
     (AutomationsCompactRows \<le> rows \<longrightarrow> AutomationsCompactRows \<le> rows') \<and> (rows \<le> AutomationsCompactRows \<longrightarrow> rows' = rows)"
proof (induction railH av pv pr rows rule: yieldAutomations.induct)
  case (1 railH av pv pr rows)
  show ?case
  proof (cases "treeH railH av rows pv pr < TreeMinHeight \<and> rows > AutomationsCompactRows")
    case True
    then have "yieldAutomations railH av pv pr rows = yieldAutomations railH av pv pr (rows - 1)"
      by (subst yieldAutomations.simps) simp
    with 1(1) [OF True] 1(2) True show ?thesis by auto
  next
    case False
    then have "yieldAutomations railH av pv pr rows = rows"
      by (subst yieldAutomations.simps) auto
    with 1(2) False show ?thesis by auto
  qed
qed

lemma wanted_rows:
  "ProjectsCompactRows \<le> projectsWanted g compact railH"
  "AutomationsCompactRows \<le> automationsWanted g compact railH projRows"
  by (auto simp: projectsWanted_def automationsWanted_def Let_def grid_consts)

definition railRegions :: "Layout \<Rightarrow> Rect list" where
  "railRegions l = [ly_RailRule l, ly_Automations l, ly_ProjectsRule l, ly_Projects l]"

text \<open>The rail is divided exactly and the tree keeps its floor.\<close>

lemma solveRail_spec:
  assumes run: "solveRail g width height rail l = (tree, l')" and H: "12 \<le> rc_H rail"
    and fresh: "railRegions l = [noRect, noRect, noRect, noRect]"
  shows "covers (tree # railRegions l') p = cover rail p"
    and "TreeMinHeight \<le> rc_H tree \<and> rc_W tree = rc_W rail"
    and "l' = l\<lparr>ly_RailRule := ly_RailRule l', ly_Automations := ly_Automations l', ly_ProjectsRule := ly_ProjectsRule l',
           ly_Projects := ly_Projects l', ly_ProjectsVisible := ly_ProjectsVisible l', ly_ProjectsCompact := ly_ProjectsCompact l',
           ly_AutomationsVisible := ly_AutomationsVisible l', ly_AutomationsCompact := ly_AutomationsCompact l'\<rparr>"
    and "ly_AutomationsVisible l' \<longleftrightarrow> gr_Automations g \<noteq> 0"
    and "ly_ProjectsVisible l' \<longrightarrow> 1 < gr_Projects g"
    and "if ly_AutomationsVisible l'
      then rc_H (ly_RailRule l') = RailRuleRows \<and> AutomationsCompactRows \<le> rc_H (ly_Automations l') \<and>
        (\<not> ly_AutomationsCompact l' \<longrightarrow> AutomationsRows \<le> rc_H (ly_Automations l'))
      else ly_RailRule l' = noRect \<and> ly_Automations l' = noRect"
    and "if ly_ProjectsVisible l'
      then rc_H (ly_ProjectsRule l') = RailRuleRows \<and> ProjectsCompactRows \<le> rc_H (ly_Projects l') \<and>
        (\<not> ly_ProjectsCompact l' \<longrightarrow> ProjectsRows \<le> rc_H (ly_Projects l'))
      else ly_ProjectsRule l' = noRect \<and> ly_Projects l' = noRect"
proof -
  let ?compact = "width < AutomationsFullMinWidth \<or> height < AutomationsFullMinHeight"
  define proj1 where "proj1 = (if gr_Projects g \<le> 1 then 0 else projectsWanted g ?compact (rc_H rail))"
  define auto1 where "auto1 = (if gr_Automations g = 0 then 0
    else automationsWanted g ?compact (rc_H rail) (projectsWanted g ?compact (rc_H rail)))"
  define av where "av \<longleftrightarrow> gr_Automations g \<noteq> 0"
  obtain pv pc0 pr where yp: "yieldProjects (rc_H rail) av auto1 (\<not> gr_Projects g \<le> 1) ?compact proj1 = (pv, pc0, pr)"
    using prod_cases3 by blast
  define ar where "ar = yieldAutomations (rc_H rail) av pv pr auto1"
  note P = yieldProjects_spec [OF yp] and A = yieldAutomations_spec [OF ar_def [symmetric]]
  have rows: "proj1 = 0 \<or> ProjectsCompactRows \<le> proj1" "auto1 = 0 \<or> AutomationsCompactRows \<le> auto1"
    "av \<longrightarrow> AutomationsCompactRows \<le> auto1"
    using wanted_rows by (auto simp: proj1_def auto1_def av_def)
  have vis: "pv \<longrightarrow> 1 < gr_Projects g \<and> ProjectsCompactRows \<le> pr \<and> TreeMinHeight \<le> treeH (rc_H rail) av auto1 True pr"
    using P wanted_rows(1) by (auto simp: proj1_def)
  have arr: "0 \<le> ar" "av \<longrightarrow> AutomationsCompactRows \<le> ar" "ar \<le> auto1"
    using A rows by (auto simp: grid_consts)
  have tree: "TreeMinHeight \<le> treeH (rc_H rail) av ar pv pr"
  proof (cases pv)
    case True
    then show ?thesis using vis arr(3) by (auto simp: treeH_def split: if_splits)
  next
    case False
    then show ?thesis using A H by (auto simp: treeH_def grid_consts split: if_splits)
  qed
  obtain r1 proj where c1: "CutBottom rail pr = (r1, proj)" by fastforce
  obtain r2 prule where c2: "CutBottom r1 RailRuleRows = (r2, prule)" by fastforce
  define rail1 where "rail1 = (if pv then r2 else rail)"
  obtain r3 autos where c3: "CutBottom rail1 ar = (r3, autos)" by fastforce
  obtain r4 arule where c4: "CutBottom r3 RailRuleRows = (r4, arule)" by fastforce
  have c3p: "pv \<Longrightarrow> CutBottom r2 ar = (r3, autos)" "\<not> pv \<Longrightarrow> CutBottom rail ar = (r3, autos)"
    using c3 by (simp_all add: rail1_def)
  have "solveRail g width height rail l =
    (if av then r4 else rail1,
     l\<lparr>ly_ProjectsVisible := pv, ly_ProjectsCompact := (if pv \<and> pr < ProjectsRows then True else pc0),
        ly_AutomationsVisible := av, ly_AutomationsCompact := (if ar < AutomationsRows then True else ?compact),
        ly_Projects := (if pv then proj else ly_Projects l), ly_ProjectsRule := (if pv then prule else ly_ProjectsRule l),
        ly_Automations := (if av then autos else ly_Automations l), ly_RailRule := (if av then arule else ly_RailRule l)\<rparr>)"
    unfolding solveRail_def Let_def proj1_def [symmetric] auto1_def [symmetric] av_def [symmetric] yp prod.case
      ar_def [symmetric] rail1_def
    by (cases pv; cases av) (simp_all add: c1 c2 c3p c4)
  then have out: "tree = (if av then r4 else rail1)"
    "l' = l\<lparr>ly_ProjectsVisible := pv, ly_ProjectsCompact := (if pv \<and> pr < ProjectsRows then True else pc0),
        ly_AutomationsVisible := av, ly_AutomationsCompact := (if ar < AutomationsRows then True else ?compact),
        ly_Projects := (if pv then proj else ly_Projects l), ly_ProjectsRule := (if pv then prule else ly_ProjectsRule l),
        ly_Automations := (if av then autos else ly_Automations l), ly_RailRule := (if av then arule else ly_RailRule l)\<rparr>"
    using run by simp_all
  have s1: "pv \<longrightarrow> rc_H proj = pr \<and> rc_H r1 = rc_H rail - pr \<and> rc_W r1 = rc_W rail \<and> 0 \<le> rc_H r1"
    using CutBottom_size [OF c1] vis arr tree by (auto simp: treeH_def grid_consts split: if_splits)
  have s2: "pv \<longrightarrow> rc_H prule = 1 \<and> rc_H r2 = rc_H rail - pr - 1 \<and> rc_W r2 = rc_W rail"
    using CutBottom_size [OF c2] s1 vis arr tree by (auto simp: treeH_def grid_consts split: if_splits)
  have sr: "rc_H rail1 = rc_H rail - (if pv then pr + 1 else 0)" "rc_W rail1 = rc_W rail" "0 \<le> rc_H rail1"
    using s2 H tree arr by (auto simp: rail1_def treeH_def grid_consts split: if_splits)
  have s3: "av \<longrightarrow> rc_H autos = ar \<and> rc_H r3 = rc_H rail1 - ar \<and> rc_W r3 = rc_W rail \<and> 1 \<le> rc_H r3"
    using CutBottom_size [OF c3] sr arr tree by (auto simp: treeH_def grid_consts split: if_splits)
  have s4: "av \<longrightarrow> rc_H arule = 1 \<and> rc_H r4 = rc_H rail1 - ar - 1 \<and> rc_W r4 = rc_W rail"
    using CutBottom_size [OF c4] s3 by (auto simp: grid_consts)
  show "covers (tree # railRegions l') p = cover rail p"
    using CutBottom_cover [OF c1, of p] CutBottom_cover [OF c2, of p] CutBottom_cover [OF c3, of p]
      CutBottom_cover [OF c4, of p] s1 s3 sr H fresh
    by (auto simp: out railRegions_def rail1_def)
  show "TreeMinHeight \<le> rc_H tree \<and> rc_W tree = rc_W rail"
    using s4 sr tree by (auto simp: out treeH_def grid_consts split: if_splits)
  show "l' = l\<lparr>ly_RailRule := ly_RailRule l', ly_Automations := ly_Automations l', ly_ProjectsRule := ly_ProjectsRule l',
           ly_Projects := ly_Projects l', ly_ProjectsVisible := ly_ProjectsVisible l', ly_ProjectsCompact := ly_ProjectsCompact l',
           ly_AutomationsVisible := ly_AutomationsVisible l', ly_AutomationsCompact := ly_AutomationsCompact l'\<rparr>"
    by (simp add: out)
  show "ly_AutomationsVisible l' \<longleftrightarrow> gr_Automations g \<noteq> 0" by (simp add: out av_def)
  show "ly_ProjectsVisible l' \<longrightarrow> 1 < gr_Projects g" using vis by (simp add: out)
  show "if ly_AutomationsVisible l'
      then rc_H (ly_RailRule l') = RailRuleRows \<and> AutomationsCompactRows \<le> rc_H (ly_Automations l') \<and>
        (\<not> ly_AutomationsCompact l' \<longrightarrow> AutomationsRows \<le> rc_H (ly_Automations l'))
      else ly_RailRule l' = noRect \<and> ly_Automations l' = noRect"
    using s3 s4 arr fresh by (auto simp: out railRegions_def RailRuleRows_def)
  show "if ly_ProjectsVisible l'
      then rc_H (ly_ProjectsRule l') = RailRuleRows \<and> ProjectsCompactRows \<le> rc_H (ly_Projects l') \<and>
        (\<not> ly_ProjectsCompact l' \<longrightarrow> ProjectsRows \<le> rc_H (ly_Projects l'))
      else ly_ProjectsRule l' = noRect \<and> ly_Projects l' = noRect"
    using s1 s2 vis fresh by (auto simp: out railRegions_def RailRuleRows_def split: if_splits)
qed

subsection \<open>The workspace\<close>

definition paneRegions :: "Layout \<Rightarrow> Rect list" where
  "paneRegions l = (if ly_Panes l = [] then [ly_Workspace l] else ly_Panes l @ ly_Dividers l)"

text \<open>What the pane count is measured by: \<open>n\<close> panes need the minimal width each and a divider column between two
  neighbours. Where several panes are allowed at all, the most that have room is the greatest number that fits,
  and one pane always does; elsewhere it is one.\<close>

definition panesRoom :: "int \<Rightarrow> int \<Rightarrow> bool" where
  "panesRoom width n \<longleftrightarrow> n * PaneMinWidth + (n - 1) \<le> width"

definition mostPanes :: "bool \<Rightarrow> int \<Rightarrow> int \<Rightarrow> bool" where
  "mostPanes several width m \<longleftrightarrow>
     1 \<le> m \<and> (1 < m \<longrightarrow> several \<and> panesRoom width m) \<and> (several \<longrightarrow> (\<forall>n. m < n \<longrightarrow> \<not> panesRoom width n))"

lemma mostPanes_fit:
  assumes "0 < width"
  shows "mostPanes several width (if several \<and> 1 < (width + 1) div 41 then (width + 1) div 41 else 1)"
proof -
  have room: "panesRoom width n \<longleftrightarrow> n \<le> (width + 1) div 41" for n
    by (simp add: panesRoom_def PaneMinWidth_def) linarith
  show ?thesis by (auto simp: mostPanes_def room)
qed

lemma solvePanes_spec:
  assumes run: "solvePanes g minimal width ws l = l'" and W: "0 < rc_W ws"
    and fresh: "ly_Panes l = []" "ly_Dividers l = []" "ly_Workspace l = ws"
  shows "covers (paneRegions l') p = cover ws p"
    and "l' = l\<lparr>ly_Panes := ly_Panes l', ly_Dividers := ly_Dividers l', ly_MaxPanes := ly_MaxPanes l'\<rparr>"
    and "mostPanes (\<not> minimal \<and> MultiPaneMinWidth \<le> width) (rc_W ws) (ly_MaxPanes l')"
    and "PaneCount l' = max 0 (min (gr_Panes g) (ly_MaxPanes l'))"
    and "list_all (\<lambda>r. rc_H r = rc_H ws) (ly_Panes l' @ ly_Dividers l')"
    and "map rc_W (ly_Dividers l') = replicate (length (ly_Panes l') - 1) 1"
    and "\<exists>base. list_all (\<lambda>r. rc_W r = base \<or> rc_W r = base + 1) (ly_Panes l') \<and>
      (2 \<le> length (ly_Panes l') \<longrightarrow> PaneMinWidth \<le> base)"
proof -
  define fit where "fit = goQuot (rc_W ws + 1) (PaneMinWidth + 1)"
  define mx where "mx = (if \<not> minimal \<and> width \<ge> MultiPaneMinWidth \<and> fit > 1 then fit else 1)"
  define n where "n = (if gr_Panes g > mx then mx else gr_Panes g)"
  have fit: "fit = (rc_W ws + 1) div 41" using W by (simp add: fit_def goQuot_pos PaneMinWidth_def)
  have mx: "1 \<le> mx" "1 < mx \<Longrightarrow> mx * 41 \<le> rc_W ws + 1"
    by (auto simp: mx_def fit split: if_splits)
  have most: "mostPanes (\<not> minimal \<and> MultiPaneMinWidth \<le> width) (rc_W ws) mx"
    unfolding mx_def fit using mostPanes_fit [OF W, of "\<not> minimal \<and> MultiPaneMinWidth \<le> width"]
    by (simp only: conj_assoc)
  have n: "n \<le> mx" "0 < n \<longrightarrow> n = min (gr_Panes g) mx" "\<not> 0 < n \<longrightarrow> min (gr_Panes g) mx \<le> 0"
    using mx(1) by (auto simp: n_def)
  have base: "l' = (if 0 < n
      then (let (ps, ds) = paneLoop (nat n) (goQuot (rc_W ws - (n - 1)) n) (goRem (rc_W ws - (n - 1)) n) [0..<nat n] ws
            in l\<lparr>ly_MaxPanes := mx, ly_Panes := ps, ly_Dividers := ds\<rparr>)
      else l\<lparr>ly_MaxPanes := mx\<rparr>)"
    using run unfolding solvePanes_def Let_def fit_def [symmetric] mx_def [symmetric] n_def [symmetric] by simp
  have "covers (paneRegions l') p = cover ws p \<and>
    l' = l\<lparr>ly_Panes := ly_Panes l', ly_Dividers := ly_Dividers l', ly_MaxPanes := ly_MaxPanes l'\<rparr> \<and>
    ly_MaxPanes l' = mx \<and> PaneCount l' = max 0 (min (gr_Panes g) mx) \<and>
    list_all (\<lambda>r. rc_H r = rc_H ws) (ly_Panes l' @ ly_Dividers l') \<and>
    map rc_W (ly_Dividers l') = replicate (length (ly_Panes l') - 1) 1 \<and>
    (\<exists>base. list_all (\<lambda>r. rc_W r = base \<or> rc_W r = base + 1) (ly_Panes l') \<and>
      (2 \<le> length (ly_Panes l') \<longrightarrow> PaneMinWidth \<le> base))"
  proof (cases "0 < n")
    case False
    then show ?thesis
      using fresh n(3) by (auto simp: base paneRegions_def PaneCount_def max_def)
  next
    case True
    define content where "content = rc_W ws - (n - 1)"
    define b where "b = content div n"
    define x where "x = content mod n"
    have c0: "0 \<le> content" using mx n(1) True W by (cases "1 < mx") (auto simp: content_def)
    have q: "goQuot content n = b" "goRem content n = x"
      using c0 True by (simp_all add: goQuot_pos goRem_pos b_def x_def)
    have b0: "0 \<le> b" using c0 True by (simp add: b_def pos_imp_zdiv_nonneg_iff)
    have "sum_list (map (paneWidth b x) [0..<nat n]) = n * b + x"
      using True by (subst sum_paneWidth) (auto simp: x_def less_imp_le)
    then have w: "rc_W ws = sum_list (map (paneWidth b x) [0..<nat n]) + int (nat n - 1 - 0)"
      using True by (simp add: b_def x_def content_def)
    obtain ps ds where loop: "paneLoop (nat n) b x [0..<nat n] ws = (ps, ds)" by fastforce
    have spec: "covers (ps @ ds) p = cover ws p" "map rc_W ps = map (paneWidth b x) [0..<nat n]"
      "map rc_W ds = replicate (nat n - 1) 1" "list_all (\<lambda>r. rc_H r = rc_H ws) (ps @ ds)"
      using paneLoop_spec [OF b0 _ w loop] True by auto
    have l': "l' = l\<lparr>ly_MaxPanes := mx, ly_Panes := ps, ly_Dividers := ds\<rparr>"
      using True loop q by (simp add: base content_def [symmetric])
    have len: "length ps = nat n" using arg_cong [OF spec(2), of length] by simp
    have "list_all (\<lambda>w. w = b \<or> w = b + 1) (map rc_W ps)"
      unfolding spec(2) by (auto simp: list_all_iff paneWidth_def)
    then have widths: "list_all (\<lambda>r. rc_W r = b \<or> rc_W r = b + 1) ps"
      by (simp add: list_all_iff)
    have wide: "PaneMinWidth \<le> b" if "2 \<le> length ps"
    proof -
      have "1 < mx" using that len n(1) by simp
      then have "n * 41 \<le> rc_W ws + 1" using mx(2) n(1) by (smt (verit) mult_right_mono)
      then have "40 * n \<le> content" by (simp add: content_def)
      from zdiv_mono1 [OF this True] show ?thesis using True by (simp add: b_def PaneMinWidth_def)
    qed
    have "ps \<noteq> []" using len True by auto
    then show ?thesis
      using spec len n(2) True widths wide by (auto simp: l' paneRegions_def PaneCount_def)
  qed
  then show "covers (paneRegions l') p = cover ws p"
    and "l' = l\<lparr>ly_Panes := ly_Panes l', ly_Dividers := ly_Dividers l', ly_MaxPanes := ly_MaxPanes l'\<rparr>"
    and "mostPanes (\<not> minimal \<and> MultiPaneMinWidth \<le> width) (rc_W ws) (ly_MaxPanes l')"
    and "PaneCount l' = max 0 (min (gr_Panes g) (ly_MaxPanes l'))"
    and "list_all (\<lambda>r. rc_H r = rc_H ws) (ly_Panes l' @ ly_Dividers l')"
    and "map rc_W (ly_Dividers l') = replicate (length (ly_Panes l') - 1) 1"
    and "\<exists>base. list_all (\<lambda>r. rc_W r = base \<or> rc_W r = base + 1) (ly_Panes l') \<and>
      (2 \<le> length (ly_Panes l') \<longrightarrow> PaneMinWidth \<le> base)"
    using most by auto
qed

subsection \<open>The whole screen\<close>

definition regions :: "Layout \<Rightarrow> Rect list" where
  "regions l = ly_Tree l # railRegions l @ [ly_StatusBar l, ly_Banner l] @ paneRegions l"

lemma cover_count: "length (filter (\<lambda>r. Contains r p) rs) = covers rs p"
  by (induction rs) (auto simp: cover_def)

lemma Solve_fallback: "w < HardMinWidth \<or> h < HardMinHeight \<Longrightarrow> Solve g w h = (emptyLayout w h)\<lparr>ly_Fallback := True\<rparr>"
  by (simp add: Solve_def)

definition railWidth :: "int \<Rightarrow> int" where
  "railWidth w = clampInt (goQuot (w * 25) 100) TreeMinWidth TreeMaxWidth"

lemma railWidth_range: "TreeMinWidth \<le> railWidth w \<and> railWidth w \<le> TreeMaxWidth"
  by (simp add: railWidth_def clampInt_def grid_consts)

text \<open>The cuts of the screen: the banner, the status bar, the rail and the workspace.\<close>

lemma Solve_parts:
  assumes "\<not> (w < HardMinWidth \<or> h < HardMinHeight)"
  obtains banner statusBar rail ws tree l2
  where "Solve g w h = solvePanes g (w < MinimalWidth \<or> h < MinimalHeight) w ws (l2\<lparr>ly_Tree := tree, ly_Workspace := ws\<rparr>)"
    and "(if \<not> (w < MinimalWidth \<or> h < MinimalHeight)
      then solveRail g w h rail ((emptyLayout w h)\<lparr>ly_Banner := banner, ly_StatusBar := statusBar\<rparr>)
      else (rail, (emptyLayout w h)\<lparr>ly_Banner := banner, ly_StatusBar := statusBar\<rparr>)) = (tree, l2)"
    and "\<And>p. cover (rect 0 0 w h) p = cover banner p + (cover statusBar p + (cover rail p + cover ws p))"
    and "rc_H banner = (if gr_Banner g then AlarmBarRows else 0)" "rc_H statusBar = StatusBarRows"
    and "rc_W rail = railWidth w" "rc_W ws = w - railWidth w"
    and "rc_H rail = h - StatusBarRows - rc_H banner" "rc_H ws = rc_H rail"
proof -
  obtain banner full where ban: "(if gr_Banner g then CutTop (rect 0 0 w h) AlarmBarRows else (noRect, rect 0 0 w h)) = (banner, full)"
    by fastforce
  obtain rem' statusBar where st: "CutBottom full StatusBarRows = (rem', statusBar)" by fastforce
  obtain rail ws where rl: "CutLeft rem' (railWidth w) = (rail, ws)" by fastforce
  let ?l1 = "(emptyLayout w h)\<lparr>ly_Banner := banner, ly_StatusBar := statusBar\<rparr>"
  obtain tree l2 where tr: "(if \<not> (w < MinimalWidth \<or> h < MinimalHeight) then solveRail g w h rail ?l1 else (rail, ?l1)) = (tree, l2)"
    by fastforce
  have big: "40 \<le> w" "10 \<le> h" using assms by (auto simp: grid_consts)
  have eq: "Solve g w h = solvePanes g (w < MinimalWidth \<or> h < MinimalHeight) w ws (l2\<lparr>ly_Tree := tree, ly_Workspace := ws\<rparr>)"
    unfolding Solve_def Let_def railWidth_def [symmetric] if_not_P [OF assms] ban st rl tr prod.case ..
  have s1: "cover (rect 0 0 w h) p = cover banner p + cover full p" "rc_H banner = (if gr_Banner g then 1 else 0)"
    "rc_W full = w" "rc_H full = h - rc_H banner" for p
    using ban CutTop_cover [of "rect 0 0 w h" 1 banner full] CutTop_size [of "rect 0 0 w h" 1 banner full] big
    by (auto simp: AlarmBarRows_def split: if_splits)
  have s2: "rc_W rem' = w" "rc_H rem' = h - rc_H banner - 2" "rc_H statusBar = 2"
    using CutBottom_size [OF st] s1 big by (auto simp: StatusBarRows_def)
  have s3: "rc_W rail = railWidth w" "rc_W ws = w - railWidth w" "rc_H rail = rc_H rem'" "rc_H ws = rc_H rem'"
    using CutLeft_size [OF rl] railWidth_range [of w] s2 big by (auto simp: grid_consts)
  have "cover (rect 0 0 w h) p = cover banner p + (cover statusBar p + (cover rail p + cover ws p))" for p
    using s1 CutBottom_cover [OF st, of p] CutLeft_cover [OF rl, of p] s2 big by simp
  then show thesis
    using that [OF eq tr] s1 s2 s3 by (simp add: grid_consts)
qed

text \<open>What the two bottom sections of the rail get.\<close>

definition sectionsFit :: "Grid \<Rightarrow> Layout \<Rightarrow> bool" where
  "sectionsFit g l \<longleftrightarrow>
     (ly_ProjectsVisible l \<longrightarrow> 1 < gr_Projects g) \<and>
     (if ly_AutomationsVisible l
      then rc_H (ly_RailRule l) = RailRuleRows \<and> AutomationsCompactRows \<le> rc_H (ly_Automations l) \<and>
        (\<not> ly_AutomationsCompact l \<longrightarrow> AutomationsRows \<le> rc_H (ly_Automations l))
      else ly_RailRule l = noRect \<and> ly_Automations l = noRect) \<and>
     (if ly_ProjectsVisible l
      then rc_H (ly_ProjectsRule l) = RailRuleRows \<and> ProjectsCompactRows \<le> rc_H (ly_Projects l) \<and>
        (\<not> ly_ProjectsCompact l \<longrightarrow> ProjectsRows \<le> rc_H (ly_Projects l))
      else ly_ProjectsRule l = noRect \<and> ly_Projects l = noRect)"

definition panesFit :: "Grid \<Rightarrow> int \<Rightarrow> int \<Rightarrow> Layout \<Rightarrow> bool" where
  "panesFit g w h l \<longleftrightarrow>
     mostPanes (MinimalWidth \<le> w \<and> MinimalHeight \<le> h \<and> MultiPaneMinWidth \<le> w) (rc_W (ly_Workspace l)) (ly_MaxPanes l) \<and>
     PaneCount l = max 0 (min (gr_Panes g) (ly_MaxPanes l)) \<and>
     list_all (\<lambda>r. rc_H r = rc_H (ly_Workspace l)) (ly_Panes l @ ly_Dividers l) \<and>
     map rc_W (ly_Dividers l) = replicate (length (ly_Panes l) - 1) 1 \<and>
     (\<exists>base. list_all (\<lambda>r. rc_W r = base \<or> rc_W r = base + 1) (ly_Panes l) \<and>
       (2 \<le> length (ly_Panes l) \<longrightarrow> PaneMinWidth \<le> base))"

lemma Solve_stages:
  assumes "\<not> (w < HardMinWidth \<or> h < HardMinHeight)"
  obtains l where "Solve g w h = l"
    and "\<And>p. covers (regions l) p = cover (rect 0 0 w h) p"
    and "\<not> ly_Fallback l" "TreeMinHeight \<le> rc_H (ly_Tree l)" "rc_W (ly_Tree l) = railWidth w"
    and "rc_W (ly_Workspace l) = w - railWidth w" "rc_H (ly_StatusBar l) = StatusBarRows"
    and "rc_H (ly_Banner l) = (if gr_Banner g then AlarmBarRows else 0)"
    and "ly_AutomationsVisible l \<longleftrightarrow> gr_Automations g \<noteq> 0 \<and> MinimalWidth \<le> w \<and> MinimalHeight \<le> h"
    and "sectionsFit g l" "panesFit g w h l"
proof -
  from Solve_parts [OF assms, of g] obtain banner statusBar rail ws tree l2
    where eq: "Solve g w h = solvePanes g (w < MinimalWidth \<or> h < MinimalHeight) w ws (l2\<lparr>ly_Tree := tree, ly_Workspace := ws\<rparr>)"
    and tr: "(if \<not> (w < MinimalWidth \<or> h < MinimalHeight)
      then solveRail g w h rail ((emptyLayout w h)\<lparr>ly_Banner := banner, ly_StatusBar := statusBar\<rparr>)
      else (rail, (emptyLayout w h)\<lparr>ly_Banner := banner, ly_StatusBar := statusBar\<rparr>)) = (tree, l2)"
    and cov: "\<And>p. cover (rect 0 0 w h) p = cover banner p + (cover statusBar p + (cover rail p + cover ws p))"
    and sz: "rc_H banner = (if gr_Banner g then AlarmBarRows else 0)" "rc_W ws = w - railWidth w"
      "rc_H rail = h - StatusBarRows - rc_H banner" "rc_W rail = railWidth w" "rc_H statusBar = StatusBarRows" by metis
  let ?l1 = "(emptyLayout w h)\<lparr>ly_Banner := banner, ly_StatusBar := statusBar\<rparr>"
  let ?l3 = "l2\<lparr>ly_Tree := tree, ly_Workspace := ws\<rparr>"
  let ?full = "MinimalWidth \<le> w \<and> MinimalHeight \<le> h"
  have fresh: "railRegions ?l1 = [noRect, noRect, noRect, noRect]" by (simp add: railRegions_def emptyLayout_def)
  have rail: "(\<forall>p. covers (tree # railRegions l2) p = cover rail p) \<and> ly_Banner l2 = banner \<and> ly_StatusBar l2 = statusBar \<and>
      ly_Panes l2 = [] \<and> ly_Dividers l2 = [] \<and> \<not> ly_Fallback l2 \<and> TreeMinHeight \<le> rc_H tree \<and> rc_W tree = rc_W rail \<and>
      (ly_AutomationsVisible l2 \<longleftrightarrow> gr_Automations g \<noteq> 0 \<and> ?full) \<and> sectionsFit g l2"
  proof (cases ?full)
    case False
    then have "tree = rail" "l2 = ?l1" using tr by auto
    then show ?thesis using sz assms False
      by (auto simp: railRegions_def emptyLayout_def sectionsFit_def HardMinHeight_def StatusBarRows_def AlarmBarRows_def
          TreeMinHeight_def)
  next
    case True
    then have run: "solveRail g w h rail ?l1 = (tree, l2)" using tr by simp
    have H: "12 \<le> rc_H rail" using True sz by (simp add: grid_consts split: if_splits)
    note R = solveRail_spec [OF run H fresh]
    obtain a b c d e f i j where l2: "l2 = ?l1\<lparr>ly_RailRule := a, ly_Automations := b, ly_ProjectsRule := c, ly_Projects := d,
        ly_ProjectsVisible := e, ly_ProjectsCompact := f, ly_AutomationsVisible := i, ly_AutomationsCompact := j\<rparr>"
      using R(3) by blast
    have "ly_Banner l2 = banner \<and> ly_StatusBar l2 = statusBar \<and> ly_Panes l2 = [] \<and> ly_Dividers l2 = [] \<and> \<not> ly_Fallback l2"
      by (simp add: l2 emptyLayout_def)
    then show ?thesis using R(1,2,4,5,6,7) True by (simp add: sectionsFit_def)
  qed
  have W: "0 < rc_W ws" using sz(2) railWidth_range [of w] assms by (simp add: grid_consts)
  have fresh3: "ly_Panes ?l3 = []" "ly_Dividers ?l3 = []" "ly_Workspace ?l3 = ws" using rail by simp_all
  define l where "l = Solve g w h"
  note P = solvePanes_spec [OF eq [symmetric, folded l_def] W fresh3]
  obtain ps ds mx where l: "l = ?l3\<lparr>ly_Panes := ps, ly_Dividers := ds, ly_MaxPanes := mx\<rparr>" using P(2) by blast
  have same: "railRegions l = railRegions l2 \<and> ly_Tree l = tree \<and> ly_Banner l = banner \<and> ly_StatusBar l = statusBar \<and>
      ly_Workspace l = ws \<and> ly_Fallback l = ly_Fallback l2 \<and> ly_AutomationsVisible l = ly_AutomationsVisible l2 \<and>
      sectionsFit g l = sectionsFit g l2"
    using rail by (simp add: l railRegions_def sectionsFit_def)
  have cov': "covers (regions l) p = cover (rect 0 0 w h) p" for p
    using P(1) [of p] same rail cov [of p] by (simp add: regions_def)
  have "(\<not> (w < MinimalWidth \<or> h < MinimalHeight) \<and> MultiPaneMinWidth \<le> w) \<longleftrightarrow>
      (MinimalWidth \<le> w \<and> MinimalHeight \<le> h \<and> MultiPaneMinWidth \<le> w)" by auto
  with P(3-7) same have pf: "panesFit g w h l" by (simp only: panesFit_def)
  show thesis
    by (rule that [OF l_def [symmetric] cov']) (use same rail sz pf in simp_all)
qed

end
