(* ===== verification/Ring_Lemmas.thy ===== *)
theory Ring_Lemmas
  imports Layout_Grid
begin

text \<open>
  The focus ring of the terminal UI: scanning from the active position, where a step lands, and the
  invariant that the active position is one of the ring's.
\<close>

subsection \<open>Scans\<close>

lemma goRem_wrap: "0 < n \<Longrightarrow> goRem (goRem x n + n) n = x mod n"
proof -
  assume n: "0 < n"
  show ?thesis
  proof (cases "0 \<le> x")
    case True
    then show ?thesis using n by (simp add: goRem_pos)
  next
    case False
    then have "goRem x n = - ((- x) mod n)"
      using n by (simp add: goRem_def goQuot_def minus_mult_div_eq_mod [symmetric])
    moreover have "goRem (- ((- x) mod n) + n) n = (- ((- x) mod n) + n) mod n"
      by (rule goRem_pos) (use pos_mod_bound [OF n, of "- x"] n in linarith)+
    moreover have "(- ((- x) mod n) + n) mod n = x mod n" by (simp add: mod_simps)
    ultimately show ?thesis by (simp only:)
  qed
qed

text \<open>The id at a position, and whether it is visible.\<close>

definition seen :: "Ring \<Rightarrow> int \<Rightarrow> bool" where
  "seen r j \<longleftrightarrow> \<not> rg_hidden r (rg_ids r ! nat j)"

definition ringLen :: "Ring \<Rightarrow> int" where
  "ringLen r = int (length (rg_ids r))"

definition ringOk :: "Ring \<Rightarrow> bool" where
  "ringOk r \<longleftrightarrow> 0 \<le> rg_active r \<and> (rg_active r < ringLen r \<or> rg_ids r = [] \<and> rg_active r = 0)"

definition anySeen :: "Ring \<Rightarrow> bool" where
  "anySeen r \<longleftrightarrow> (\<exists>i\<in>set (rg_ids r). \<not> rg_hidden r i)"

lemma anySeen_index: "anySeen r \<longleftrightarrow> (\<exists>j. 0 \<le> j \<and> j < ringLen r \<and> seen r j)"
proof
  assume "anySeen r"
  then obtain k where "k < length (rg_ids r)" "\<not> rg_hidden r (rg_ids r ! k)"
    by (auto simp: anySeen_def in_set_conv_nth)
  then show "\<exists>j. 0 \<le> j \<and> j < ringLen r \<and> seen r j"
    by (intro exI [of _ "int k"]) (simp add: seen_def ringLen_def)
next
  assume "\<exists>j. 0 \<le> j \<and> j < ringLen r \<and> seen r j"
  then obtain j where "0 \<le> j" "j < ringLen r" "seen r j" by blast
  then have "nat j < length (rg_ids r)" "seen r j" by (simp_all add: ringLen_def nat_less_iff)
  then show "anySeen r" by (auto simp: anySeen_def seen_def)
qed

lemma normalizeFrom_find:
  assumes "0 \<le> rg_active r" "0 < ringLen r"
  shows "normalizeFrom r is =
    (case find (\<lambda>i. seen r ((rg_active r + int i) mod ringLen r)) is of
       None \<Rightarrow> (r, False) | Some i \<Rightarrow> (r\<lparr>rg_active := (rg_active r + int i) mod ringLen r\<rparr>, True))"
  using assms by (induction "is") (auto simp: Let_def goRem_pos seen_def ringLen_def)

lemma stepFrom_find:
  assumes "0 < ringLen r"
  shows "stepFrom r \<delta> is =
    (case find (\<lambda>i. seen r ((rg_active r + \<delta> * int i) mod ringLen r)) is of
       None \<Rightarrow> (r, rg_ids r ! nat (rg_active r))
     | Some i \<Rightarrow> (let j = (rg_active r + \<delta> * int i) mod ringLen r in (r\<lparr>rg_active := j\<rparr>, rg_ids r ! nat j)))"
  using assms by (induction "is") (auto simp: Let_def goRem_wrap seen_def ringLen_def)

lemma find_upt:
  "find P [a..<b] = Some d \<longleftrightarrow> a \<le> d \<and> d < b \<and> P d \<and> (\<forall>e. a \<le> e \<and> e < d \<longrightarrow> \<not> P e)"
proof (induction "b - a" arbitrary: a)
  case 0
  then show ?case by simp
next
  case (Suc m)
  then have "[a..<b] = a # [Suc a..<b]" by (simp add: upt_conv_Cons)
  then show ?case using Suc(1) [of "Suc a"] Suc(2) by (auto simp: Suc_le_eq dest: le_neq_implies_less)
qed

lemma find_upt_None: "find P [a..<b] = None \<longleftrightarrow> (\<forall>d. a \<le> d \<and> d < b \<longrightarrow> \<not> P d)"
  by (auto simp: find_None_iff)

subsection \<open>The seat\<close>

text \<open>Where the ring's focus is once the hidden marks are applied.\<close>

definition seat :: "Ring \<Rightarrow> int" where
  "seat r = rg_active (fst (normalize r))"

lemma normalize_some:
  assumes "ringOk r" "anySeen r"
  shows "normalize r = (r\<lparr>rg_active := seat r\<rparr>, True) \<and> 0 \<le> seat r \<and> seat r < ringLen r \<and> seen r (seat r)"
proof -
  from assms(2) obtain j where j: "0 \<le> j" "j < ringLen r" "seen r j" by (auto simp: anySeen_index)
  then have pos: "0 < ringLen r" by simp
  have a: "0 \<le> rg_active r" using assms(1) by (simp add: ringOk_def)
  let ?i = "nat ((j - rg_active r) mod ringLen r)"
  have "(rg_active r + int ?i) mod ringLen r = j"
    using j pos by (simp add: mod_simps)
  moreover have "?i < length (rg_ids r)" using pos by (simp add: ringLen_def nat_less_iff)
  ultimately have "find (\<lambda>i. seen r ((rg_active r + int i) mod ringLen r)) [0..<length (rg_ids r)] \<noteq> None"
    using j(3) by (auto simp: find_upt_None)
  then obtain i where i: "find (\<lambda>i. seen r ((rg_active r + int i) mod ringLen r)) [0..<length (rg_ids r)] = Some i" by auto
  then have "seen r ((rg_active r + int i) mod ringLen r)" unfolding find_upt by blast
  then show ?thesis
    using pos i by (simp add: seat_def normalize_def normalizeFrom_find [OF a pos])
qed

lemma normalize_none: "ringOk r \<Longrightarrow> \<not> anySeen r \<Longrightarrow> normalize r = (r, False)"
proof -
  assume r: "ringOk r" "\<not> anySeen r"
  show ?thesis
  proof (cases "rg_ids r = []")
    case True
    then show ?thesis by (simp add: normalize_def)
  next
    case False
    then have pos: "0 < ringLen r" by (simp add: ringLen_def)
    have "find (\<lambda>i. seen r ((rg_active r + int i) mod ringLen r)) [0..<length (rg_ids r)] = None"
      using r(2) pos by (auto simp: find_upt_None anySeen_index)
    then show ?thesis using r(1) pos by (simp add: normalize_def normalizeFrom_find ringOk_def)
  qed
qed

lemma seat_seen: "ringOk r \<Longrightarrow> 0 \<le> rg_active r \<Longrightarrow> rg_active r < ringLen r \<Longrightarrow> seen r (rg_active r) \<Longrightarrow> seat r = rg_active r"
proof -
  assume "ringOk r" "0 \<le> rg_active r" "rg_active r < ringLen r" "seen r (rg_active r)"
  then have "find (\<lambda>i. seen r ((rg_active r + int i) mod ringLen r)) [0..<length (rg_ids r)] = Some 0"
    by (auto simp: find_upt ringLen_def)
  then show ?thesis using \<open>0 \<le> rg_active r\<close> \<open>rg_active r < ringLen r\<close>
    by (simp add: seat_def normalize_def normalizeFrom_find)
qed

lemma seen_active [simp]: "seen (r\<lparr>rg_active := a\<rparr>) = seen r" "ringLen (r\<lparr>rg_active := a\<rparr>) = ringLen r"
  "anySeen (r\<lparr>rg_active := a\<rparr>) = anySeen r"
  by (auto simp: seen_def ringLen_def anySeen_def)

text \<open>A step lands on the nearest visible position in its direction.\<close>

lemma ring_step_lands:
  assumes "ringOk r" "anySeen r" "\<delta> = 1 \<or> \<delta> = -1"
  obtains d where "1 \<le> d" "d \<le> length (rg_ids r)" "seen r ((seat r + \<delta> * int d) mod ringLen r)"
    and "\<forall>e. 1 \<le> e \<and> e < d \<longrightarrow> \<not> seen r ((seat r + \<delta> * int e) mod ringLen r)"
    and "ring_step r \<delta> = (r\<lparr>rg_active := (seat r + \<delta> * int d) mod ringLen r\<rparr>,
      rg_ids r ! nat ((seat r + \<delta> * int d) mod ringLen r))"
proof -
  note N = normalize_some [OF assms(1,2)]
  then have pos: "0 < ringLen r" by simp
  let ?P = "\<lambda>i. seen r ((seat r + \<delta> * int i) mod ringLen r)"
  have "?P (length (rg_ids r))"
    using assms(3) N by (auto simp: ringLen_def [symmetric])
  then have "find ?P [1..<Suc (length (rg_ids r))] \<noteq> None"
    using pos unfolding find_upt_None by (auto simp: ringLen_def Suc_le_eq intro!: exI [of _ "length (rg_ids r)"])
  then obtain d where d: "find ?P [1..<Suc (length (rg_ids r))] = Some d" by blast
  have "ring_step r \<delta> = stepFrom (r\<lparr>rg_active := seat r\<rparr>) \<delta> [1..<Suc (length (rg_ids r))]"
    using N pos by (auto simp: ring_step_def Let_def ringLen_def)
  also have "\<dots> = (r\<lparr>rg_active := (seat r + \<delta> * int d) mod ringLen r\<rparr>, rg_ids r ! nat ((seat r + \<delta> * int d) mod ringLen r))"
    using pos d by (subst stepFrom_find) (simp_all add: Let_def)
  finally show thesis using that [of d] d unfolding find_upt by simp
qed

subsection \<open>The operations\<close>

datatype ringOp = OpSetIDs "string list" | OpHide string bool | OpNext | OpPrev | OpFocus string | OpActive

fun ringRun :: "Ring \<Rightarrow> ringOp \<Rightarrow> Ring" where
  "ringRun r (OpSetIDs ids) = SetIDs r ids"
| "ringRun r (OpHide i b) = SetHidden r i b"
| "ringRun r OpNext = fst (Ring_Next r)"
| "ringRun r OpPrev = fst (Ring_Prev r)"
| "ringRun r (OpFocus i) = fst (Focus r i)"
| "ringRun r OpActive = fst (Active r)"

lemma Active_seat:
  assumes "ringOk r"
  shows "Active r = (if anySeen r then (r\<lparr>rg_active := seat r\<rparr>, rg_ids r ! nat (seat r)) else (r, []))"
  using normalize_some [OF assms] normalize_none [OF assms] by (auto simp: Active_def)

lemma ring_step_none: "ringOk r \<Longrightarrow> \<not> anySeen r \<Longrightarrow> ring_step r \<delta> = (r, [])"
  by (simp add: ring_step_def Let_def normalize_none)

lemma ringOk_active: "ringOk r \<Longrightarrow> 0 \<le> j \<Longrightarrow> j < ringLen r \<Longrightarrow> ringOk (r\<lparr>rg_active := j\<rparr>)"
  by (simp add: ringOk_def)

lemma ringOk_step:
  assumes "ringOk r" "\<delta> = 1 \<or> \<delta> = -1"
  shows "ringOk (fst (ring_step r \<delta>))"
proof (cases "anySeen r")
  case True
  then have pos: "0 < ringLen r" by (auto simp: anySeen_index)
  from ring_step_lands [OF assms(1) True assms(2)] obtain d
    where "ring_step r \<delta> = (r\<lparr>rg_active := (seat r + \<delta> * int d) mod ringLen r\<rparr>,
      rg_ids r ! nat ((seat r + \<delta> * int d) mod ringLen r))" by metis
  then show ?thesis using assms(1) pos by (simp add: ringOk_active)
next
  case False
  then show ?thesis using assms(1) by (simp add: ring_step_none)
qed

lemma ringOk_SetIDs: "ringOk (SetIDs r ids)"
  by (auto simp: SetIDs_def Let_def ringOk_def ringLen_def split: prod.splits)

lemma ringOk_Focus: "ringOk r \<Longrightarrow> ringOk (fst (Focus r i))"
  by (auto simp: Focus_def Let_def ringOk_def ringLen_def)

lemma ringOk_SetHidden: "ringOk r \<Longrightarrow> ringOk (SetHidden r i b)"
  by (simp add: SetHidden_def ringOk_def ringLen_def)

lemma ringOk_run: "ringOk r \<Longrightarrow> ringOk (ringRun r e)"
proof (cases e)
  case OpActive
  assume "ringOk r"
  then show ?thesis
    using normalize_some [of r] by (cases "anySeen r") (simp_all add: OpActive Active_seat ringOk_active)
qed (auto simp: ringOk_SetIDs ringOk_Focus ringOk_step Ring_Next_def Ring_Prev_def ringOk_SetHidden)

interpretation focusRing: invariant_ops ringRun ringOk
  by unfold_locales (rule ringOk_run)

lemma ringOk_NewRing: "ringOk (NewRing ids)"
  by (simp add: NewRing_def ringOk_def ringLen_def)

lemma ring_reached: "ringOk (run_ops ringRun (NewRing ids) es)"
  by (rule focusRing.inv_run [OF ringOk_NewRing])

subsection \<open>Cycling\<close>

text \<open>A step forward followed by a step backward returns to the seat.\<close>

lemma step_back:
  assumes "ringOk r" "anySeen r" "\<delta> = 1 \<or> \<delta> = -1"
  shows "snd (ring_step (fst (ring_step r \<delta>)) (- \<delta>)) = rg_ids r ! nat (seat r)"
proof -
  have N: "0 \<le> seat r" "seat r < ringLen r" "seen r (seat r)"
    using normalize_some [OF assms(1,2)] by simp_all
  from ring_step_lands [OF assms] obtain d
    where d: "1 \<le> d" "d \<le> length (rg_ids r)" "seen r ((seat r + \<delta> * int d) mod ringLen r)"
      "\<forall>e. 1 \<le> e \<and> e < d \<longrightarrow> \<not> seen r ((seat r + \<delta> * int e) mod ringLen r)"
    and st: "ring_step r \<delta> = (r\<lparr>rg_active := (seat r + \<delta> * int d) mod ringLen r\<rparr>,
      rg_ids r ! nat ((seat r + \<delta> * int d) mod ringLen r))" by metis
  define b where "b = (seat r + \<delta> * int d) mod ringLen r"
  define r' where "r' = r\<lparr>rg_active := b\<rparr>"
  have b: "0 \<le> b" "b < ringLen r" using N by (simp_all add: b_def)
  have ok: "ringOk r'" "anySeen r'" "- \<delta> = 1 \<or> - \<delta> = -1"
    using assms b by (auto simp: r'_def ringOk_active)
  have seat': "seat r' = b"
    using ok(1) b d(3) by (subst seat_seen) (simp_all add: r'_def b_def [symmetric])
  have ret: "(b + - \<delta> * int e) mod ringLen r = (seat r + \<delta> * (int d - int e)) mod ringLen r" for e
    unfolding b_def mod_add_left_eq by (simp add: algebra_simps)
  have same: "seen r' = seen r" "ringLen r' = ringLen r" "rg_ids r' = rg_ids r" by (simp_all add: r'_def)
  from ring_step_lands [OF ok, unfolded seat' same] obtain e
    where e: "1 \<le> e" "seen r ((b + - \<delta> * int e) mod ringLen r)"
      "\<forall>i. 1 \<le> i \<and> i < e \<longrightarrow> \<not> seen r ((b + - \<delta> * int i) mod ringLen r)"
    and st'': "ring_step r' (- \<delta>) = (r'\<lparr>rg_active := (b + - \<delta> * int e) mod ringLen r\<rparr>,
      rg_ids r ! nat ((b + - \<delta> * int e) mod ringLen r))" by blast
  then have st': "snd (ring_step r' (- \<delta>)) = rg_ids r ! nat ((b + - \<delta> * int e) mod ringLen r)" by simp
  have home: "(b + - \<delta> * int d) mod ringLen r = seat r" unfolding ret using N by simp
  have "e = d"
  proof (rule antisym)
    have "seen r ((b + - \<delta> * int d) mod ringLen r)" unfolding home by (rule N(3))
    then show "e \<le> d" using e(3) d(1) not_less by blast
    show "d \<le> e"
    proof (rule ccontr)
      assume lt: "\<not> d \<le> e"
      then have "int d - int e = int (d - e)" by simp
      then have "seen r ((seat r + \<delta> * int (d - e)) mod ringLen r)" using e(2) unfolding ret by (simp only:)
      moreover have "1 \<le> d - e" "d - e < d" using lt e(1) by linarith+
      ultimately show False using d(4) by blast
    qed
  qed
  then show ?thesis using st st' home by (simp add: r'_def b_def)
qed

text \<open>Stepping forward reaches every visible position within one turn.\<close>

fun nexts :: "nat \<Rightarrow> Ring \<Rightarrow> Ring" where
  "nexts 0 r = fst (Active r)"
| "nexts (Suc k) r = nexts k (fst (Ring_Next r))"

lemma nexts_reach:
  assumes "ringOk r" "0 \<le> j" "j < ringLen r" "seen r j"
  shows "\<exists>k. int k \<le> (j - seat r) mod ringLen r \<and> nexts k r = r\<lparr>rg_active := j\<rparr>"
  using assms
proof (induction "nat ((j - seat r) mod ringLen r)" arbitrary: r rule: less_induct)
  case less
  have any: "anySeen r" using less.prems by (auto simp: anySeen_index)
  have N: "0 \<le> seat r" "seat r < ringLen r" using normalize_some [OF less.prems(1) any] by simp_all
  have pos: "0 < ringLen r" using less.prems by simp
  show ?case
  proof (cases "seat r = j")
    case True
    then show ?thesis using less.prems(1) any by (intro exI [of _ 0]) (simp add: Active_seat)
  next
    case False
    define D where "D = nat ((j - seat r) mod ringLen r)"
    have Dj: "(seat r + int D) mod ringLen r = j"
      using less.prems pos by (simp add: D_def mod_simps)
    have D: "1 \<le> D"
    proof (rule ccontr)
      assume "\<not> 1 \<le> D"
      then have "D = 0" by simp
      then show False using Dj N False by simp
    qed
    from ring_step_lands [OF less.prems(1) any, of 1] obtain d
      where d: "1 \<le> d" "seen r ((seat r + int d) mod ringLen r)"
        "\<forall>e. 1 \<le> e \<and> e < d \<longrightarrow> \<not> seen r ((seat r + int e) mod ringLen r)"
      and st: "Ring_Next r = (r\<lparr>rg_active := (seat r + int d) mod ringLen r\<rparr>,
        rg_ids r ! nat ((seat r + int d) mod ringLen r))"
      unfolding Ring_Next_def by auto
    have dD: "d \<le> D" using d(3) D Dj less.prems(4) by (metis not_less)
    define r' where "r' = r\<lparr>rg_active := (seat r + int d) mod ringLen r\<rparr>"
    have ok': "ringOk r'" using less.prems(1) pos by (simp add: r'_def ringOk_active)
    have seat': "seat r' = (seat r + int d) mod ringLen r"
      using ok' d(2) pos by (subst seat_seen) (simp_all add: r'_def)
    have "int D < ringLen r" using pos by (simp add: D_def)
    moreover have "(j - seat r') mod ringLen r = (int D - int d) mod ringLen r"
      using Dj unfolding seat' by (metis add_diff_cancel_left mod_diff_eq mod_mod_trivial)
    ultimately have dist: "(j - seat r') mod ringLen r' = int D - int d"
      using dD by (simp add: r'_def)
    have "nat ((j - seat r') mod ringLen r') < nat ((j - seat r) mod ringLen r)"
      using dist d(1) D unfolding D_def [symmetric] by simp
    moreover have "j < ringLen r'" "seen r' j" using less.prems by (simp_all add: r'_def)
    ultimately obtain k
      where k: "int k \<le> (j - seat r') mod ringLen r'" "nexts k r' = r'\<lparr>rg_active := j\<rparr>"
      using less.hyps [of r'] ok' less.prems(2) by blast
    have "int (Suc k) \<le> (j - seat r) mod ringLen r"
      using k(1) dist d(1) pos by (simp add: D_def)
    moreover have "nexts (Suc k) r = r\<lparr>rg_active := j\<rparr>" using k(2) st by (simp add: r'_def)
    ultimately show ?thesis by blast
  qed
qed

end
