(* ===== verification/Layout_Props.thy ===== *)
theory Layout_Props
  imports Layout_Lemmas Ring_Lemmas
begin

text \<open>
  The properties of the terminal UI's layout: the regions tile the screen, the layout stays usable at every
  size, and the focus ring rests only on visible regions, reaches all of them and steps back where it came from.
\<close>

text \<open>C35. The regions of a layout exactly tile the screen: outside the fallback, every cell of the terminal lies
  in exactly one region and no region leaves the terminal; below the hard minimum no cell lies in any.
\<close>

theorem grid_tiles:
  "length (filter (\<lambda>r. Contains r p) (regions (Solve g w h))) =
     (if HardMinWidth \<le> w \<and> HardMinHeight \<le> h \<and> 0 \<le> pt_X p \<and> pt_X p < w \<and> 0 \<le> pt_Y p \<and> pt_Y p < h then 1 else 0)"
proof (cases "w < HardMinWidth \<or> h < HardMinHeight")
  case True
  then show ?thesis
    by (auto simp: Solve_fallback regions_def railRegions_def paneRegions_def emptyLayout_def)
next
  case False
  from Solve_stages [OF this, of g] obtain l
    where "Solve g w h = l" "\<And>p. covers (regions l) p = cover (rect 0 0 w h) p" by metis
  then show ?thesis
    using False unfolding cover_count by (auto simp: cover_def Contains_def Right_def Bottom_def)
qed

text \<open>C36. Outside the fallback the layout is usable: the tree keeps its minimal height and a width in its range,
  the workspace is the rest of the row, the status bar and the banner have their rows, the automations
  section shows exactly when there are automations and the terminal is not minimal, each section of the rail
  has room for what it claims to show, and MaxPanes is exactly the number of panes that fit: the greatest number,
  at least one, of panes of the minimal width that has room in the workspace with a divider column between two
  neighbours, and one below the multi-pane width or the minimal size. The panes shown are the requested ones cut
  at MaxPanes, of equal width up to one column, none narrower than the minimum when there are several, with
  one-column dividers between them.
\<close>

theorem grid_usable:
  "let l = Solve g w h in
     if w < HardMinWidth \<or> h < HardMinHeight then ly_Fallback l
     else \<not> ly_Fallback l \<and>
       TreeMinHeight \<le> rc_H (ly_Tree l) \<and> TreeMinWidth \<le> rc_W (ly_Tree l) \<and> rc_W (ly_Tree l) \<le> TreeMaxWidth \<and>
       rc_W (ly_Workspace l) = w - rc_W (ly_Tree l) \<and> rc_H (ly_StatusBar l) = StatusBarRows \<and>
       rc_H (ly_Banner l) = (if gr_Banner g then AlarmBarRows else 0) \<and>
       (ly_AutomationsVisible l \<longleftrightarrow> gr_Automations g \<noteq> 0 \<and> MinimalWidth \<le> w \<and> MinimalHeight \<le> h) \<and>
       sectionsFit g l \<and> panesFit g w h l"
proof (cases "w < HardMinWidth \<or> h < HardMinHeight")
  case True
  then show ?thesis by (simp add: Solve_fallback)
next
  case False
  show ?thesis
    by (rule Solve_stages [OF False, of g]) (simp add: if_not_P [OF False] railWidth_range)
qed

text \<open>C37. The focus ring never rests on a hidden region: after any sequence of its operations the active id is a
  visible id of the ring, and it is empty exactly when the ring has no visible id.
\<close>

theorem ring_rests_visible:
  "let r = run_ops ringRun (NewRing ids) es; i = snd (Active r) in
     if \<exists>v\<in>set (rg_ids r). \<not> rg_hidden r v then i \<in> set (rg_ids r) \<and> \<not> rg_hidden r i else i = []"
proof -
  let ?r = "run_ops ringRun (NewRing ids) es"
  note ok = ring_reached [of ids es]
  show ?thesis
  proof (cases "anySeen ?r")
    case True
    from normalize_some [OF ok True] have "nat (seat ?r) < length (rg_ids ?r)" "seen ?r (seat ?r)"
      by (simp_all add: ringLen_def nat_less_iff)
    then show ?thesis
      using True by (simp add: Let_def Active_seat [OF ok] anySeen_def [symmetric]) (simp add: seen_def)
  next
    case False
    then show ?thesis by (simp add: Let_def Active_seat [OF ok] anySeen_def [symmetric])
  qed
qed

text \<open>C38. Cycling reaches every visible region: from any state of the ring, a number of presses of Next smaller
  than the ring puts the focus on any id of the ring that is visible.
\<close>

theorem ring_next_reaches:
  assumes "r = run_ops ringRun (NewRing ids) es" "i \<in> set (rg_ids r)" "\<not> rg_hidden r i"
  shows "\<exists>k < length (rg_ids r). snd (Active (nexts k r)) = i"
proof -
  have ok: "ringOk r" by (simp add: assms(1) ring_reached)
  from assms(2) obtain m where m: "m < length (rg_ids r)" "rg_ids r ! m = i" by (auto simp: in_set_conv_nth)
  then have at: "0 \<le> int m" "int m < ringLen r" "seen r (int m)" using assms(3) by (simp_all add: ringLen_def seen_def)
  from nexts_reach [OF ok at] obtain k
    where k: "int k \<le> (int m - seat r) mod ringLen r" "nexts k r = r\<lparr>rg_active := int m\<rparr>" by blast
  have "(int m - seat r) mod ringLen r < ringLen r" by (rule pos_mod_bound) (use at in linarith)
  then have "k < length (rg_ids r)" using k(1) unfolding ringLen_def by linarith
  moreover have ok': "ringOk (r\<lparr>rg_active := int m\<rparr>)" using ok at by (simp add: ringOk_active)
  have "seat (r\<lparr>rg_active := int m\<rparr>) = int m" using ok' at by (subst seat_seen) simp_all
  then have "snd (Active (nexts k r)) = i"
    using at m(2) by (auto simp: k(2) Active_seat [OF ok'] anySeen_index)
  ultimately show ?thesis by blast
qed

theorem ring_next_reaches_witness:
  "\<exists>k < 3. snd (Active (nexts k (run_ops ringRun (NewRing [''tree'', ''pane'', ''projects''])
     [OpHide ''pane'' True]))) = ''projects''"
  using ring_next_reaches [OF refl, of "''projects''" "[''tree'', ''pane'', ''projects'']" "[OpHide ''pane'' True]"]
  by (simp add: NewRing_def SetHidden_def numeral_3_eq_3)

text \<open>Next and Prev undo each other: from any state of the ring, either one after the other returns the id
  that was active.
\<close>

theorem ring_next_prev:
  "let r = run_ops ringRun (NewRing ids) es in
     snd (Ring_Prev (fst (Ring_Next r))) = snd (Active r) \<and> snd (Ring_Next (fst (Ring_Prev r))) = snd (Active r)"
proof -
  let ?r = "run_ops ringRun (NewRing ids) es"
  note ok = ring_reached [of ids es]
  show ?thesis
  proof (cases "anySeen ?r")
    case True
    then show ?thesis
      using step_back [OF ok True, of 1] step_back [OF ok True, of "-1"]
      by (simp add: Let_def Active_seat [OF ok] Ring_Next_def Ring_Prev_def)
  next
    case False
    then show ?thesis by (simp add: Let_def Active_seat [OF ok] ring_step_none [OF ok] Ring_Next_def Ring_Prev_def)
  qed
qed

end
