(* ===== verification/Task_Record.thy ===== *)
theory Task_Record
  imports Cron_Expr
begin

text \<open>
  One task of the task store: \<^verbatim>\<open>task/task.go\<close> (the record and its trigger contract), \<^verbatim>\<open>on_complete.go\<close>,
  \<^verbatim>\<open>cap.go\<close>, \<^verbatim>\<open>host.go\<close>, \<^verbatim>\<open>audit.go\<close> (the bounded trail of mutations), the patch of \<^verbatim>\<open>update.go\<close>,
  \<^verbatim>\<open>expectation.go\<close> and the state machine of \<^verbatim>\<open>run_status.go\<close>.
  The argument \<open>uni\<close> is the Unicode case table behind \<^const>\<open>ToLower\<close>.
\<close>

subsection \<open>Errors\<close>

datatype taskError =
    ErrTaskIDEmpty | ErrTaskIDLength nat | ErrTaskIDPattern
  | ErrBothTriggers string | ErrNoTrigger string | ErrEmptyPrompt string
  | ErrNegativeCap string int | ErrCapNotWatch string | ErrCapTarget string
  | ErrOnCompleteTarget string string | ErrOnCompleteUnknown string string
  | ErrHostName string | ErrHostConfig string | ErrHostUnlisted string
  | ErrProgram string | ErrTaskIDExists string | ErrTaskNotFound string
  | ErrRebound string string string | ErrNegativeDrops | ErrRefused string | ErrTaskIO

definition maxTaskIDLength :: nat where
  "maxTaskIDLength = 128"

definition taskIDChar :: "char \<Rightarrow> bool" where
  "taskIDChar c \<longleftrightarrow>
     code (CHR ''a'') \<le> code c \<and> code c \<le> code (CHR ''z'') \<or> code (CHR ''A'') \<le> code c \<and> code c \<le> code (CHR ''Z'') \<or> isDigit c \<or> c = CHR ''_'' \<or> c = CHR ''-''"

definition ValidateTaskID :: "string \<Rightarrow> taskError option" where
  "ValidateTaskID taskID =
     (if taskID = [] then Some ErrTaskIDEmpty
      else if length taskID > maxTaskIDLength then Some (ErrTaskIDLength (length taskID))
      else if \<not> list_all taskIDChar taskID then Some ErrTaskIDPattern
      else None)"

subsection \<open>The record\<close>

record AuditEntry =
  ae_At :: gtime
  ae_Actor :: string
  ae_Action :: string
  ae_Fields :: "string list"

record Task =
  tk_ID :: string
  tk_Name :: string
  tk_Prompt :: string
  tk_CronExpr :: string
  tk_WatchCmd :: string
  tk_TargetSession :: string
  tk_MaxConcurrentRuns :: int
  tk_OnComplete :: string
  tk_Host :: string
  tk_ProjectPath :: string
  tk_RepoID :: string
  tk_SandboxOwner :: string
  tk_Program :: string
  tk_Enabled :: bool
  tk_CreatedAt :: gtime
  tk_LastRunAt :: "gtime option"
  tk_LastRunStatus :: string
  tk_LastRunTarget :: string
  tk_LastRunID :: string
  tk_LastRunStartedAt :: "gtime option"
  tk_DroppedEvents :: int
  tk_Audit :: "AuditEntry list"
  tk_Overdue :: bool
  tk_MissedOccurrences :: int
  tk_MissedOccurrencesCapped :: bool
  tk_Unschedulable :: bool
  tk_UnschedulableReason :: string
  tk_Unassessable :: bool
  tk_NextRunAt :: "gtime option"
  tk_NextRunFar :: bool
  tk_Arming :: string
  tk_Ordinal :: nat
  tk_StoreGeneration :: string

definition IsWatch :: "Task \<Rightarrow> bool" where
  "IsWatch t \<longleftrightarrow> TrimSpace (tk_WatchCmd t) \<noteq> []"

definition unstampedOrdinal :: nat where
  "unstampedOrdinal = 0"

definition stripDerived :: "Task \<Rightarrow> Task" where
  "stripDerived t =
     t\<lparr>tk_Overdue := False, tk_MissedOccurrences := 0, tk_MissedOccurrencesCapped := False,
       tk_Unschedulable := False, tk_UnschedulableReason := [], tk_Unassessable := False,
       tk_NextRunAt := None, tk_NextRunFar := False, tk_Arming := [],
       tk_Ordinal := unstampedOrdinal, tk_StoreGeneration := []\<rparr>"

definition CanonicalTargetSession :: "string \<Rightarrow> string" where
  "CanonicalTargetSession target = (if TrimSpace target = [] then [] else target)"

definition OnCompleteKeep :: string where "OnCompleteKeep = ''keep''"
definition OnCompleteArchive :: string where "OnCompleteArchive = ''archive''"
definition OnCompleteKill :: string where "OnCompleteKill = ''kill''"

lemmas onCompleteVerbs = OnCompleteKeep_def OnCompleteArchive_def OnCompleteKill_def

definition CanonicalOnComplete :: "(string \<Rightarrow> string) \<Rightarrow> string \<Rightarrow> string" where
  "CanonicalOnComplete uni v =
     (let trimmed = ToLower uni (TrimSpace v) in if trimmed = [] then OnCompleteKeep else trimmed)"

definition canonicalizeTargetSession :: "Task \<Rightarrow> Task" where
  "canonicalizeTargetSession t = t\<lparr>tk_TargetSession := CanonicalTargetSession (tk_TargetSession t)\<rparr>"

definition canonicalizeOnComplete :: "(string \<Rightarrow> string) \<Rightarrow> Task \<Rightarrow> Task" where
  "canonicalizeOnComplete uni t =
     (if CanonicalOnComplete uni (tk_OnComplete t) = OnCompleteKeep then t\<lparr>tk_OnComplete := []\<rparr>
      else t\<lparr>tk_OnComplete := CanonicalOnComplete uni (tk_OnComplete t)\<rparr>)"

definition SessionLifecycle :: "(string \<Rightarrow> string) \<Rightarrow> Task \<Rightarrow> string" where
  "SessionLifecycle uni t = CanonicalOnComplete uni (tk_OnComplete t)"

definition CapUnavailableReason :: "bool \<Rightarrow> string \<Rightarrow> string" where
  "CapUnavailableReason isWatch targetSession =
     (if \<not> isWatch then ''Cron fires already coalesce.''
      else if CanonicalTargetSession targetSession \<noteq> [] then ''Deliveries into one session already serialize.''
      else [])"

definition CapApplies :: "bool \<Rightarrow> string \<Rightarrow> bool" where
  "CapApplies isWatch targetSession \<longleftrightarrow> CapUnavailableReason isWatch targetSession = []"

definition MaxCapValue :: int where
  "MaxCapValue = 9007199254740991"

definition ParseCapInput :: "string \<Rightarrow> int option" where
  "ParseCapInput raw =
     (let v = TrimSpace raw
      in if v = [] then Some 0
         else (case Atoi v of
                 None \<Rightarrow> None
               | Some n \<Rightarrow> (if n < 0 \<or> n > MaxCapValue then None else Some n)))"

definition capApplies :: "Task \<Rightarrow> bool" where
  "capApplies t \<longleftrightarrow> CapApplies (IsWatch t) (tk_TargetSession t)"

definition clearInapplicableCap :: "Task \<Rightarrow> Task" where
  "clearInapplicableCap t =
     (if tk_MaxConcurrentRuns t > 0 \<and> \<not> capApplies t then t\<lparr>tk_MaxConcurrentRuns := 0\<rparr> else t)"

definition onCompleteApplies :: "Task \<Rightarrow> bool" where
  "onCompleteApplies t \<longleftrightarrow> CanonicalTargetSession (tk_TargetSession t) = []"

definition clearInapplicableOnComplete :: "(string \<Rightarrow> string) \<Rightarrow> Task \<Rightarrow> Task" where
  "clearInapplicableOnComplete uni t =
     (if SessionLifecycle uni t \<noteq> OnCompleteKeep \<and> \<not> onCompleteApplies t then t\<lparr>tk_OnComplete := []\<rparr> else t)"

subsection \<open>The trigger contract\<close>

definition ValidateTrigger :: "(string \<Rightarrow> string) \<Rightarrow> Task \<Rightarrow> taskError option" where
  "ValidateTrigger uni t =
     (let hasCron = TrimSpace (tk_CronExpr t) \<noteq> [];
          hasWatch = TrimSpace (tk_WatchCmd t) \<noteq> [];
          onComplete = SessionLifecycle uni t
      in if hasCron \<and> hasWatch then Some (ErrBothTriggers (tk_ID t))
         else if tk_Enabled t \<and> \<not> hasCron \<and> \<not> hasWatch then Some (ErrNoTrigger (tk_ID t))
         else if tk_Enabled t \<and> hasCron \<and> TrimSpace (tk_Prompt t) = [] then Some (ErrEmptyPrompt (tk_ID t))
         else if tk_MaxConcurrentRuns t < 0 then Some (ErrNegativeCap (tk_ID t) (tk_MaxConcurrentRuns t))
         else if tk_MaxConcurrentRuns t > 0 \<and> \<not> hasWatch then Some (ErrCapNotWatch (tk_ID t))
         else if tk_MaxConcurrentRuns t > 0 \<and> CanonicalTargetSession (tk_TargetSession t) \<noteq> []
         then Some (ErrCapTarget (tk_ID t))
         else if onComplete = OnCompleteKeep then None
         else if onComplete = OnCompleteArchive \<or> onComplete = OnCompleteKill
         then (if CanonicalTargetSession (tk_TargetSession t) \<noteq> []
               then Some (ErrOnCompleteTarget (tk_ID t) onComplete) else None)
         else Some (ErrOnCompleteUnknown (tk_ID t) (tk_OnComplete t)))"

definition watchLinePlaceholder :: string where
  "watchLinePlaceholder = ''{{line}}''"

definition RenderWatchPrompt :: "string \<Rightarrow> string \<Rightarrow> string" where
  "RenderWatchPrompt prompt line =
     (if TrimSpace prompt = [] then line else ReplaceAll watchLinePlaceholder line prompt)"

text \<open>The supported programs of \<^verbatim>\<open>session/tmux/session.go\<close> and the check of \<^verbatim>\<open>config_types.go\<close>.\<close>

definition SupportedPrograms :: "string list" where
  "SupportedPrograms = [''claude'', ''codex'', ''aider'', ''gemini'', ''amp'', ''opencode'', ''devin'']"

definition ValidateProgramEnum :: "string \<Rightarrow> taskError option" where
  "ValidateProgramEnum name = (if name \<in> set SupportedPrograms then None else Some (ErrProgram name))"

definition hostNameChar :: "char \<Rightarrow> bool" where
  "hostNameChar c \<longleftrightarrow> code (CHR ''a'') \<le> code c \<and> code c \<le> code (CHR ''z'') \<or> isDigit c"

definition ValidateHostName :: "string \<Rightarrow> taskError option" where
  "ValidateHostName name =
     (if name \<noteq> [] \<and> hostNameChar (hd name) \<and> list_all (\<lambda>c. hostNameChar c \<or> c = CHR ''-'') (tl name) \<and>
         length name \<le> 63
      then None else Some (ErrHostName name))"

text \<open>The names of the operator's host list; \<open>None\<close> when the global configuration cannot be loaded.\<close>

definition validateTaskHost :: "string list option \<Rightarrow> string \<Rightarrow> taskError option" where
  "validateTaskHost hosts host =
     (if host = [] then None
      else
        (case ValidateHostName host of
           Some e \<Rightarrow> Some e
         | None \<Rightarrow>
             (case hosts of
                None \<Rightarrow> Some (ErrHostConfig host)
              | Some names \<Rightarrow> (if host \<in> set names then None else Some (ErrHostUnlisted host)))))"

subsection \<open>The audit trail\<close>

definition AuditLimit :: nat where "AuditLimit = 20"

definition ActorUnknown :: string where "ActorUnknown = ''unknown''"
definition ActorCLI :: string where "ActorCLI = ''cli''"
definition ActorAPI :: string where "ActorAPI = ''api''"
definition ActorTUI :: string where "ActorTUI = ''tui''"
definition ActorDaemonUpgrade :: string where "ActorDaemonUpgrade = ''daemon-upgrade''"

definition AuditCreated :: string where "AuditCreated = ''created''"
definition AuditUpdated :: string where "AuditUpdated = ''updated''"
definition AuditEnabled :: string where "AuditEnabled = ''enabled''"
definition AuditDisabled :: string where "AuditDisabled = ''disabled''"
definition AuditTriggered :: string where "AuditTriggered = ''triggered''"

lemmas auditActions = AuditCreated_def AuditUpdated_def AuditEnabled_def AuditDisabled_def AuditTriggered_def

definition ParseActor :: "string \<Rightarrow> string" where
  "ParseActor s =
     (if s = ActorCLI then ActorCLI
      else if s = ActorAPI then ActorAPI
      else if s = ActorTUI then ActorTUI
      else if s = ActorDaemonUpgrade then ActorDaemonUpgrade
      else ActorUnknown)"

text \<open>The loop of \<^verbatim>\<open>auditTrim\<close>: the first \<open>drop\<close> triggered entries are left out; what is still to drop.\<close>

fun trimTriggered :: "nat \<Rightarrow> AuditEntry list \<Rightarrow> nat \<times> AuditEntry list" where
  "trimTriggered n [] = (n, [])"
| "trimTriggered n (e # es) =
     (if n > 0 \<and> ae_Action e = AuditTriggered then trimTriggered (n - 1) es
      else (let (m, kept) = trimTriggered n es in (m, e # kept)))"

definition auditTrim :: "AuditEntry list \<Rightarrow> AuditEntry list" where
  "auditTrim audit =
     (if length audit \<le> AuditLimit then audit
      else (let (n, kept) = trimTriggered (length audit - AuditLimit) audit in drop n kept))"

definition appendAudit :: "Task \<Rightarrow> string \<Rightarrow> string \<Rightarrow> string list \<Rightarrow> gtime \<Rightarrow> Task" where
  "appendAudit t actor action names at' =
     t\<lparr>tk_Audit := auditTrim (tk_Audit t @
        [\<lparr>ae_At = at', ae_Actor = ParseActor actor, ae_Action = action, ae_Fields = names\<rparr>])\<rparr>"

definition changedFields :: "(string \<Rightarrow> string) \<Rightarrow> Task \<Rightarrow> Task \<Rightarrow> string list" where
  "changedFields uni before after =
     map snd (filter fst
       [(tk_Name before \<noteq> tk_Name after, ''name''),
        (tk_Prompt before \<noteq> tk_Prompt after, ''prompt''),
        (tk_CronExpr before \<noteq> tk_CronExpr after, ''cron_expr''),
        (tk_WatchCmd before \<noteq> tk_WatchCmd after, ''watch_cmd''),
        (CanonicalTargetSession (tk_TargetSession before) \<noteq> CanonicalTargetSession (tk_TargetSession after),
          ''target_session''),
        (tk_MaxConcurrentRuns before \<noteq> tk_MaxConcurrentRuns after, ''max_concurrent_runs''),
        (CanonicalOnComplete uni (tk_OnComplete before) \<noteq> CanonicalOnComplete uni (tk_OnComplete after), ''on_complete''),
        (tk_ProjectPath before \<noteq> tk_ProjectPath after, ''project_path''),
        (tk_Host before \<noteq> tk_Host after, ''host''),
        (tk_Program before \<noteq> tk_Program after, ''program''),
        (tk_Enabled before \<noteq> tk_Enabled after, ''enabled'')])"

definition auditUpdate :: "(string \<Rightarrow> string) \<Rightarrow> Task \<Rightarrow> Task \<Rightarrow> string \<Rightarrow> gtime \<Rightarrow> Task" where
  "auditUpdate uni before after actor at' =
     (let names = changedFields uni before after;
          action =
            (if tk_Enabled before \<noteq> tk_Enabled after
             then (if tk_Enabled after then AuditEnabled else AuditDisabled) else AuditUpdated)
      in if names = [] then after else appendAudit after actor action names at')"

definition resetStoreOwnedFields :: "Task \<Rightarrow> gtime \<Rightarrow> Task" where
  "resetStoreOwnedFields t now =
     stripDerived (t\<lparr>tk_Audit := [], tk_LastRunAt := None, tk_LastRunStatus := [], tk_LastRunID := [],
       tk_LastRunStartedAt := None, tk_DroppedEvents := 0,
       tk_CreatedAt := (if isZero (tk_CreatedAt t) \<or> tk_CreatedAt t > now then now else tk_CreatedAt t)\<rparr>)"

subsection \<open>Patches\<close>

record TaskUpdate =
  tu_Name :: "string option"
  tu_Prompt :: "string option"
  tu_CronExpr :: "string option"
  tu_WatchCmd :: "string option"
  tu_TargetSession :: "string option"
  tu_MaxConcurrentRuns :: "int option"
  tu_OnComplete :: "string option"
  tu_Host :: "string option"
  tu_ProjectPath :: "string option"
  tu_Program :: "string option"
  tu_Enabled :: "bool option"

definition IsEmpty :: "TaskUpdate \<Rightarrow> bool" where
  "IsEmpty u \<longleftrightarrow>
     tu_Name u = None \<and> tu_Prompt u = None \<and> tu_CronExpr u = None \<and> tu_WatchCmd u = None \<and>
     tu_TargetSession u = None \<and> tu_MaxConcurrentRuns u = None \<and> tu_OnComplete u = None \<and> tu_Host u = None \<and>
     tu_ProjectPath u = None \<and> tu_Program u = None \<and> tu_Enabled u = None"

abbreviation patched :: "'a option \<Rightarrow> 'a \<Rightarrow> 'a" where
  "patched p old \<equiv> (case p of None \<Rightarrow> old | Some new \<Rightarrow> new)"

text \<open>The assignments of \<^verbatim>\<open>apply\<close>, then the canonical forms and the two clears.\<close>

definition mergeFields :: "TaskUpdate \<Rightarrow> Task \<Rightarrow> Task" where
  "mergeFields u t =
     t\<lparr>tk_Name := patched (tu_Name u) (tk_Name t),
       tk_Prompt := patched (tu_Prompt u) (tk_Prompt t),
       tk_CronExpr := patched (tu_CronExpr u) (tk_CronExpr t),
       tk_WatchCmd := patched (tu_WatchCmd u) (tk_WatchCmd t),
       tk_TargetSession := patched (tu_TargetSession u) (tk_TargetSession t),
       tk_MaxConcurrentRuns := patched (tu_MaxConcurrentRuns u) (tk_MaxConcurrentRuns t),
       tk_OnComplete := patched (tu_OnComplete u) (tk_OnComplete t),
       tk_Host := patched (map_option TrimSpace (tu_Host u)) (tk_Host t),
       tk_ProjectPath := patched (tu_ProjectPath u) (tk_ProjectPath t),
       tk_Program := patched (tu_Program u) (tk_Program t),
       tk_Enabled := patched (tu_Enabled u) (tk_Enabled t)\<rparr>"

definition applyUpdate :: "(string \<Rightarrow> string) \<Rightarrow> TaskUpdate \<Rightarrow> Task \<Rightarrow> Task" where
  "applyUpdate uni u t =
     (let t1 = canonicalizeOnComplete uni (canonicalizeTargetSession (mergeFields u t));
          t2 = (if tu_MaxConcurrentRuns u = None then clearInapplicableCap t1 else t1)
      in if tu_OnComplete u = None then clearInapplicableOnComplete uni t2 else t2)"

definition diffField :: "'a \<Rightarrow> 'a \<Rightarrow> 'a option" where
  "diffField old cur = (if cur \<noteq> old then Some cur else None)"

definition DiffTask :: "Task \<Rightarrow> Task \<Rightarrow> TaskUpdate" where
  "DiffTask old cur =
     \<lparr>tu_Name = diffField (tk_Name old) (tk_Name cur),
      tu_Prompt = diffField (tk_Prompt old) (tk_Prompt cur),
      tu_CronExpr = diffField (tk_CronExpr old) (tk_CronExpr cur),
      tu_WatchCmd = diffField (tk_WatchCmd old) (tk_WatchCmd cur),
      tu_TargetSession = diffField (tk_TargetSession old) (tk_TargetSession cur),
      tu_MaxConcurrentRuns = diffField (tk_MaxConcurrentRuns old) (tk_MaxConcurrentRuns cur),
      tu_OnComplete = diffField (tk_OnComplete old) (tk_OnComplete cur),
      tu_Host = diffField (tk_Host old) (tk_Host cur),
      tu_ProjectPath = diffField (tk_ProjectPath old) (tk_ProjectPath cur),
      tu_Program = diffField (tk_Program old) (tk_Program cur),
      tu_Enabled = diffField (tk_Enabled old) (tk_Enabled cur)\<rparr>"

record ProjectExpectation =
  pe_Enforce :: bool
  pe_ProjectPath :: string

definition Verify :: "ProjectExpectation \<Rightarrow> Task \<Rightarrow> taskError option" where
  "Verify e t =
     (if \<not> pe_Enforce e \<or> tk_ProjectPath t = pe_ProjectPath e then None
      else Some (ErrRebound (tk_ID t) (pe_ProjectPath e) (tk_ProjectPath t)))"

definition ExpectProject :: "Task \<Rightarrow> ProjectExpectation" where
  "ExpectProject t = \<lparr>pe_Enforce = True, pe_ProjectPath = tk_ProjectPath t\<rparr>"

subsection \<open>Run status\<close>

record RunKey =
  rk_ID :: string
  rk_StartedAt :: gtime

definition RunKey_IsZero :: "RunKey \<Rightarrow> bool" where
  "RunKey_IsZero k \<longleftrightarrow> rk_ID k = [] \<and> isZero (rk_StartedAt k)"

definition RunStartedStatus :: string where
  "RunStartedStatus = ''started''"

definition RunFailedUndeliveredStatus :: string where
  "RunFailedUndeliveredStatus = ''errored: prompt not delivered''"

text \<open>Go compares strings by their bytes.\<close>

fun bytesLess :: "string \<Rightarrow> string \<Rightarrow> bool" where
  "bytesLess _ [] = False"
| "bytesLess [] (y # ys) = True"
| "bytesLess (x # xs) (y # ys) = (code x < code y \<or> x = y \<and> bytesLess xs ys)"

definition runOrder :: "RunKey \<Rightarrow> RunKey \<Rightarrow> int" where
  "runOrder a b =
     (if rk_ID a \<noteq> [] \<and> rk_ID a = rk_ID b then 0
      else if rk_StartedAt a = rk_StartedAt b \<and> (rk_ID a = [] \<or> rk_ID b = []) then 0
      else if rk_StartedAt a < rk_StartedAt b then -1
      else if rk_StartedAt a > rk_StartedAt b then 1
      else if bytesLess (rk_ID a) (rk_ID b) then -1
      else if bytesLess (rk_ID b) (rk_ID a) then 1
      else 0)"

definition lastRunKey :: "Task \<Rightarrow> RunKey" where
  "lastRunKey t =
     \<lparr>rk_ID = tk_LastRunID t,
      rk_StartedAt = (case tk_LastRunStartedAt t of None \<Rightarrow> zeroTime | Some s \<Rightarrow> s)\<rparr>"

definition runStatusTransition :: "Task \<Rightarrow> RunKey \<Rightarrow> string \<Rightarrow> gtime option \<Rightarrow> bool" where
  "runStatusTransition cur k status at' =
     (let c = lastRunKey cur
      in if RunKey_IsZero k
         then (case at' of None \<Rightarrow> True | Some a \<Rightarrow> isZero (rk_StartedAt c) \<or> \<not> a < rk_StartedAt c)
         else if RunKey_IsZero c then True
         else if runOrder k c < 0 then False
         else if runOrder k c > 0 then True
         else if status = RunStartedStatus
         then tk_LastRunStatus cur = [] \<or> tk_LastRunStatus cur = RunStartedStatus
         else if status = RunFailedUndeliveredStatus
         then tk_LastRunStatus cur \<noteq> RunFailedUndeliveredStatus
         else True)"

definition WatchRateDropStatus :: string where
  "WatchRateDropStatus = ''dropped: event rate limit exceeded''"

definition isTerminalWatcherStatus :: "string \<Rightarrow> bool" where
  "isTerminalWatcherStatus status \<longleftrightarrow>
     status = ''stopped'' \<or> status = ''errored'' \<or> take 8 status = ''errored:''"

end
