(* ===== verification/Task_Health.thy ===== *)
theory Task_Health
  imports Task_Record
begin

text \<open>
  Whether a task fires on its own schedule, \<^verbatim>\<open>task/overdue.go\<close>; the far-out flag of \<^verbatim>\<open>far_out.go\<close>; and the
  live arming observation carried onto records read from disk, \<^verbatim>\<open>arming.go\<close>.

  The schedule of \<^verbatim>\<open>robfig/cron\<close> is an argument: \<open>parse\<close> answers for an expression (after
  \<^const>\<open>ParseCron\<close>'s own rewriting), \<open>nxt\<close> is its \<^verbatim>\<open>Next\<close>. The code evaluates every instant in the location
  of \<open>now\<close>, so \<open>nxt\<close> is a function of the instant; \<open>0\<close> stands for the zero time it returns when nothing
  matches within its search horizon.
\<close>

definition MinSlack :: duration where
  "MinSlack = 5 * minute"

definition MaxMissedOccurrences :: int where
  "MaxMissedOccurrences = 10000"

definition ArmingUnknown :: string where "ArmingUnknown = []"
definition ArmingArmed :: string where "ArmingArmed = ''armed''"
definition ArmingNotArmed :: string where "ArmingNotArmed = ''not-armed''"

definition ReasonNoTrigger :: string where "ReasonNoTrigger = ''no-trigger''"
definition ReasonInvalidExpression :: string where "ReasonInvalidExpression = ''invalid-expression''"
definition ReasonNoOccurrence :: string where "ReasonNoOccurrence = ''no-occurrence''"

lemmas scheduleReasons = ReasonNoTrigger_def ReasonInvalidExpression_def ReasonNoOccurrence_def

subsection \<open>The classifier\<close>

definition schedOf :: "(string \<Rightarrow> 'e + 'sched) \<Rightarrow> string \<Rightarrow> 'sched option" where
  "schedOf parse expr = (case ParseCron parse expr of Some (Inr s) \<Rightarrow> Some s | _ \<Rightarrow> None)"

definition UnschedulableReason ::
  "(string \<Rightarrow> 'e + 'sched) \<Rightarrow> ('sched \<Rightarrow> gtime \<Rightarrow> gtime) \<Rightarrow> Task \<Rightarrow> gtime \<Rightarrow> string" where
  "UnschedulableReason parse nxt t now =
     (if \<not> tk_Enabled t \<or> IsWatch t then []
      else if TrimSpace (tk_CronExpr t) = [] then ReasonNoTrigger
      else
        (case schedOf parse (tk_CronExpr t) of
           None \<Rightarrow> ReasonInvalidExpression
         | Some sched \<Rightarrow> (if isZero (nxt sched now) then ReasonNoOccurrence else [])))"

record ScheduleHealth =
  sh_Overdue :: bool
  sh_MissedOccurrences :: int
  sh_Saturated :: bool
  sh_Unschedulable :: bool
  sh_Reason :: string
  sh_OldestMissedAt :: gtime
  sh_Unassessable :: bool
  sh_Slack :: duration

definition zeroHealth :: ScheduleHealth where
  "zeroHealth =
     \<lparr>sh_Overdue = False, sh_MissedOccurrences = 0, sh_Saturated = False, sh_Unschedulable = False,
       sh_Reason = [], sh_OldestMissedAt = zeroTime, sh_Unassessable = False, sh_Slack = 0\<rparr>"

subsection \<open>The reference and the slack\<close>

definition scheduleRestart :: "AuditEntry \<Rightarrow> bool" where
  "scheduleRestart e \<longleftrightarrow>
     \<not> isZero (ae_At e) \<and> (ae_Action e = AuditEnabled \<or> ''cron_expr'' \<in> set (ae_Fields e))"

definition lastScheduleRestartAt :: "Task \<Rightarrow> gtime option" where
  "lastScheduleRestartAt t = map_option ae_At (find scheduleRestart (rev (tk_Audit t)))"

definition scheduleReference :: "Task \<Rightarrow> gtime option" where
  "scheduleReference t =
     (let ref0 = (case tk_LastRunAt t of
                    Some r \<Rightarrow> (if \<not> isZero r then r else if \<not> isZero (tk_CreatedAt t) then tk_CreatedAt t else zeroTime)
                  | None \<Rightarrow> (if \<not> isZero (tk_CreatedAt t) then tk_CreatedAt t else zeroTime));
          ref = (case lastScheduleRestartAt t of
                   Some restarted \<Rightarrow> (if restarted > ref0 then restarted else ref0)
                 | None \<Rightarrow> ref0)
      in if isZero ref then None else Some ref)"

definition slackFor :: "(gtime \<Rightarrow> gtime) \<Rightarrow> gtime \<Rightarrow> duration option" where
  "slackFor nxt ref =
     (let fst' = nxt ref
      in if isZero fst' then None
         else
           (let snd' = nxt fst'
            in if isZero snd' then None
               else
                 (let slack0 = snd' - fst';
                      gap = fst' - ref;
                      slack = (if gap > slack0 then gap else slack0)
                  in Some (if slack < MinSlack then MinSlack else slack))))"

subsection \<open>Counting what was missed\<close>

text \<open>The loop of \<^verbatim>\<open>countOccurrences\<close>: the count, whether it is a floor, and the budget left.\<close>

function countLoop :: "(gtime \<Rightarrow> gtime) \<Rightarrow> gtime \<Rightarrow> gtime \<Rightarrow> int \<Rightarrow> int \<Rightarrow> int \<times> bool \<times> int" where
  "countLoop nxt now at' count budget =
     (if isZero at' \<or> at' > now then (count, False, budget)
      else if count + 1 \<ge> MaxMissedOccurrences \<or> budget - 1 \<le> 0 then (count + 1, True, budget - 1)
      else countLoop nxt now (nxt at') (count + 1) (budget - 1))"
  by auto
termination
  by (relation "measure (\<lambda>(nxt, now, at', count, budget). nat budget)") auto

declare countLoop.simps [simp del]

definition countOccurrences :: "(gtime \<Rightarrow> gtime) \<Rightarrow> gtime \<Rightarrow> gtime \<Rightarrow> int \<Rightarrow> int \<times> bool \<times> int" where
  "countOccurrences nxt from' now budget =
     (if budget \<le> 0 then (0, True, budget) else countLoop nxt now (nxt from') 0 budget)"

subsection \<open>The verdict\<close>

definition deriveScheduleHealth ::
  "(string \<Rightarrow> 'e + 'sched) \<Rightarrow> ('sched \<Rightarrow> gtime \<Rightarrow> gtime) \<Rightarrow> gtime \<Rightarrow> Task \<Rightarrow> int \<Rightarrow> ScheduleHealth \<times> int" where
  "deriveScheduleHealth parse nxt now t budget =
     (if \<not> tk_Enabled t \<or> IsWatch t then (zeroHealth, budget)
      else
        (let reason = UnschedulableReason parse nxt t now
         in if reason \<noteq> [] then (zeroHealth\<lparr>sh_Unschedulable := True, sh_Reason := reason\<rparr>, budget)
            else
              (case schedOf parse (tk_CronExpr t) of
                 None \<Rightarrow> (zeroHealth\<lparr>sh_Unschedulable := True, sh_Reason := ReasonInvalidExpression\<rparr>, budget)
               | Some sched \<Rightarrow>
                   (case scheduleReference t of
                      None \<Rightarrow> (zeroHealth\<lparr>sh_Unassessable := True\<rparr>, budget)
                    | Some ref \<Rightarrow>
                        (case slackFor (nxt sched) ref of
                           None \<Rightarrow> (zeroHealth\<lparr>sh_Unassessable := True\<rparr>, budget)
                         | Some slack \<Rightarrow>
                             (let oldest = nxt sched (ref + slack)
                              in if isZero oldest \<or> oldest > now then (zeroHealth\<lparr>sh_Slack := slack\<rparr>, budget)
                                 else
                                   (let (count, saturated, budget') = countOccurrences (nxt sched) ref now budget
                                    in (zeroHealth\<lparr>sh_Overdue := True, sh_MissedOccurrences := count,
                                          sh_Saturated := saturated, sh_OldestMissedAt := nxt sched ref,
                                          sh_Slack := slack\<rparr>, budget'))))))))"

definition DeriveScheduleHealth ::
  "(string \<Rightarrow> 'e + 'sched) \<Rightarrow> ('sched \<Rightarrow> gtime \<Rightarrow> gtime) \<Rightarrow> Task \<Rightarrow> gtime \<Rightarrow> ScheduleHealth" where
  "DeriveScheduleHealth parse nxt t now = fst (deriveScheduleHealth parse nxt now t MaxMissedOccurrences)"

text \<open>The loop over the list of a load, with the budget threaded through it.\<close>

fun batchLoop ::
  "(string \<Rightarrow> 'e + 'sched) \<Rightarrow> ('sched \<Rightarrow> gtime \<Rightarrow> gtime) \<Rightarrow> gtime \<Rightarrow> Task list \<Rightarrow> int \<Rightarrow> ScheduleHealth list \<times> int" where
  "batchLoop parse nxt now [] budget = ([], budget)"
| "batchLoop parse nxt now (t # ts) budget =
     (let (h, b1) = deriveScheduleHealth parse nxt now t budget;
          (hs, b2) = batchLoop parse nxt now ts b1
      in (h # hs, b2))"

definition deriveScheduleHealthBatch ::
  "(string \<Rightarrow> 'e + 'sched) \<Rightarrow> ('sched \<Rightarrow> gtime \<Rightarrow> gtime) \<Rightarrow> Task list \<Rightarrow> gtime \<Rightarrow> ScheduleHealth list \<times> int" where
  "deriveScheduleHealthBatch parse nxt tasks now =
     (let (hs, budget) = batchLoop parse nxt now tasks MaxMissedOccurrences in (hs, MaxMissedOccurrences - budget))"

definition DeriveScheduleHealthBatch ::
  "(string \<Rightarrow> 'e + 'sched) \<Rightarrow> ('sched \<Rightarrow> gtime \<Rightarrow> gtime) \<Rightarrow> Task list \<Rightarrow> gtime \<Rightarrow> ScheduleHealth list" where
  "DeriveScheduleHealthBatch parse nxt tasks now = fst (deriveScheduleHealthBatch parse nxt tasks now)"

definition stampHealth :: "ScheduleHealth \<Rightarrow> Task \<Rightarrow> Task" where
  "stampHealth h t =
     t\<lparr>tk_Arming := ArmingUnknown, tk_NextRunAt := None, tk_NextRunFar := False,
       tk_Overdue := sh_Overdue h, tk_MissedOccurrences := sh_MissedOccurrences h,
       tk_MissedOccurrencesCapped := sh_Saturated h, tk_Unschedulable := sh_Unschedulable h,
       tk_UnschedulableReason := sh_Reason h, tk_Unassessable := sh_Unassessable h\<rparr>"

definition WithScheduleHealth ::
  "(string \<Rightarrow> 'e + 'sched) \<Rightarrow> ('sched \<Rightarrow> gtime \<Rightarrow> gtime) \<Rightarrow> Task list \<Rightarrow> gtime \<Rightarrow> Task list" where
  "WithScheduleHealth parse nxt tasks now =
     map2 stampHealth (DeriveScheduleHealthBatch parse nxt tasks now) tasks"

definition WithScheduleHealthUnknown :: "Task \<Rightarrow> Task" where
  "WithScheduleHealthUnknown t =
     t\<lparr>tk_Overdue := False, tk_MissedOccurrences := 0, tk_MissedOccurrencesCapped := False,
       tk_Unschedulable := False, tk_UnschedulableReason := [], tk_NextRunAt := None, tk_NextRunFar := False,
       tk_Arming := ArmingUnknown, tk_Unassessable := True\<rparr>"

subsection \<open>Far-out runs\<close>

definition FarOutThreshold :: duration where
  "FarOutThreshold = 60 * 24 * hour"

definition FarOutAt :: "gtime \<Rightarrow> gtime \<Rightarrow> bool" where
  "FarOutAt next' now \<longleftrightarrow> next' - now > FarOutThreshold"

definition NextRunFarOut :: "Task \<Rightarrow> gtime \<Rightarrow> bool" where
  "NextRunFarOut t now \<longleftrightarrow>
     tk_Enabled t \<and> \<not> IsWatch t \<and> (case tk_NextRunAt t of None \<Rightarrow> False | Some n \<Rightarrow> FarOutAt n now)"

definition StampNextRunFar :: "Task list \<Rightarrow> gtime \<Rightarrow> Task list" where
  "StampNextRunFar tasks now = map (\<lambda>t. t\<lparr>tk_NextRunFar := NextRunFarOut t now\<rparr>) tasks"

subsection \<open>Live arming\<close>

type_synonym rowIdentity = "string \<times> nat"

definition identifyRow :: "Task \<Rightarrow> rowIdentity option" where
  "identifyRow t =
     (if tk_StoreGeneration t = [] \<or> tk_Ordinal t = unstampedOrdinal then None
      else Some (tk_StoreGeneration t, tk_Ordinal t))"

definition sameTrigger :: "Task \<Rightarrow> Task \<Rightarrow> bool" where
  "sameTrigger ob t \<longleftrightarrow>
     tk_ID ob = tk_ID t \<and> IsWatch ob = IsWatch t \<and> tk_Enabled ob = tk_Enabled t \<and>
     (if IsWatch t
      then tk_WatchCmd ob = tk_WatchCmd t \<and> tk_ProjectPath ob = tk_ProjectPath t \<and> tk_Name ob = tk_Name t
      else tk_CronExpr ob = tk_CronExpr t \<and> tk_ProjectPath ob = tk_ProjectPath t)"

text \<open>The two maps: the first observation of each row, and the rows claimed twice.\<close>

fun collectLive ::
  "Task list \<Rightarrow> (rowIdentity \<rightharpoonup> Task) \<Rightarrow> rowIdentity set \<Rightarrow> (rowIdentity \<rightharpoonup> Task) \<times> rowIdentity set" where
  "collectLive [] live contested = (live, contested)"
| "collectLive (ob # obs) live contested =
     (case identifyRow ob of
        None \<Rightarrow> collectLive obs live contested
      | Some key \<Rightarrow>
          (if live key \<noteq> None then collectLive obs live (insert key contested)
           else collectLive obs (live(key \<mapsto> ob)) contested))"

definition armRow :: "(rowIdentity \<rightharpoonup> Task) \<Rightarrow> rowIdentity set \<Rightarrow> Task \<Rightarrow> Task" where
  "armRow live contested t =
     (case identifyRow t of
        None \<Rightarrow> t
      | Some key \<Rightarrow>
          (if key \<in> contested then t
           else
             (case live key of
                None \<Rightarrow> t
              | Some ob \<Rightarrow>
                  (if \<not> sameTrigger ob t then t
                   else t\<lparr>tk_Arming := tk_Arming ob, tk_NextRunAt := tk_NextRunAt ob, tk_NextRunFar := tk_NextRunFar ob\<rparr>))))"

definition ApplyLiveArming :: "Task list \<Rightarrow> Task list \<Rightarrow> Task list" where
  "ApplyLiveArming tasks observed =
     (if tasks = [] \<or> observed = [] then tasks
      else (let (live, contested) = collectLive observed Map.empty {} in map (armRow live contested) tasks))"

end
