(* ===== verification/Task_Store.thy ===== *)
theory Task_Store
  imports Task_Health
begin

text \<open>
  The operations of the task store, \<^verbatim>\<open>tasks.json\<close>: \<^verbatim>\<open>store.go\<close>, the creating, removing and status writers of
  \<^verbatim>\<open>task.go\<close>, \<^verbatim>\<open>update.go\<close>, \<^verbatim>\<open>run_status.go\<close>, \<^verbatim>\<open>watch_drops.go\<close>, \<^verbatim>\<open>watch_recovery.go\<close>, the trigger record of
  \<^verbatim>\<open>audit.go\<close> and the binding backfill of \<^verbatim>\<open>lifecycle_scope.go\<close>.

  The file is the rows its bytes decode to and the tag of those bytes; an absent file has no rows. Every
  operation runs its section under the file lock, reads, changes the rows in memory and replaces the file
  atomically, or fails at the place the argument \<open>flt\<close> names and leaves the file as it was. The environment
  \<open>env\<close> answers what the operation asks of the clock, of git, of the file system and of the configuration.
\<close>

subsection \<open>The file and its environment\<close>

record taskFile =
  fl_rows :: "Task list"
  fl_tag :: string

datatype storeFault = NoFault | FailPath | FailMigrate | FailLock | FailLoad | FailWrite

text \<open>
  \<open>tv_now\<close> is the clock at the places of an operation that read it, in their order; \<open>tv_tag\<close> is the digest
  of the bytes that rows encode to; \<open>tv_repoID\<close> is the id git proves for a path, empty when it proves none;
  \<open>tv_evalSymlinks\<close> and \<open>tv_sameFile\<close> are the file system's answers, \<open>None\<close> an error.
\<close>

record taskEnv =
  tv_now :: "nat \<Rightarrow> gtime"
  tv_tag :: "Task list \<Rightarrow> string"
  tv_uni :: "string \<Rightarrow> string"
  tv_hosts :: "string list option"
  tv_repoID :: "string \<Rightarrow> string"
  tv_evalSymlinks :: "string \<Rightarrow> string option"
  tv_sameFile :: "string \<Rightarrow> string \<Rightarrow> bool option"

text \<open>\<^verbatim>\<open>repoIDForPath\<close>: only a path that is not blank is resolved.\<close>

definition repoIDForPath :: "taskEnv \<Rightarrow> string \<Rightarrow> string" where
  "repoIDForPath env projectPath = (if TrimSpace projectPath = [] then [] else tv_repoID env projectPath)"

text \<open>Rows are numbered from one within the version of the file they belong to.\<close>

definition stampRowIdentity :: "Task list \<Rightarrow> string \<Rightarrow> Task list" where
  "stampRowIdentity tasks generation =
     map2 (\<lambda>i t. t\<lparr>tk_Ordinal := i + 1, tk_StoreGeneration := generation\<rparr>) [0..<length tasks] tasks"

definition loadTasksLocked :: "taskFile \<Rightarrow> Task list" where
  "loadTasksLocked f = stampRowIdentity (map stripDerived (fl_rows f)) (fl_tag f)"

definition LoadTasks ::
  "(string \<Rightarrow> 'e + 'sched) \<Rightarrow> ('sched \<Rightarrow> gtime \<Rightarrow> gtime) \<Rightarrow> taskFile \<Rightarrow> gtime \<Rightarrow> Task list" where
  "LoadTasks parse nxt f now = stampRowIdentity (WithScheduleHealth parse nxt (fl_rows f) now) (fl_tag f)"

definition writeTasks :: "taskEnv \<Rightarrow> storeFault \<Rightarrow> Task list \<Rightarrow> taskFile \<Rightarrow> (taskError + string) \<times> taskFile" where
  "writeTasks env flt tasks f =
     (let stored = map stripDerived tasks
      in if flt = FailWrite then (Inl ErrTaskIO, f)
         else (Inr (tv_tag env stored), \<lparr>fl_rows = stored, fl_tag = tv_tag env stored\<rparr>))"

text \<open>The first row with an id, as the loops that \<^verbatim>\<open>break\<close> at it find it.\<close>

definition rowOf :: "string \<Rightarrow> Task list \<Rightarrow> nat option" where
  "rowOf taskID tasks =
     (let i = length (takeWhile (\<lambda>t. tk_ID t \<noteq> taskID) tasks) in if i < length tasks then Some i else None)"

text \<open>The common opening: the id is checked, then the path, the migration, the lock and the read.\<close>

definition openStore :: "string \<Rightarrow> storeFault \<Rightarrow> taskError option" where
  "openStore taskID flt =
     (case ValidateTaskID taskID of
        Some e \<Rightarrow> Some e
      | None \<Rightarrow> (if flt \<in> {FailPath, FailMigrate, FailLock, FailLoad} then Some ErrTaskIO else None))"

text \<open>The common end: the changed rows are written, and the row is returned as the written file identifies it.\<close>

definition commitRow ::
  "taskEnv \<Rightarrow> storeFault \<Rightarrow> Task list \<Rightarrow> nat \<Rightarrow> taskFile \<Rightarrow> (taskError + Task) \<times> taskFile" where
  "commitRow env flt tasks row f =
     (case writeTasks env flt tasks f of
        (Inl e, f') \<Rightarrow> (Inl e, f')
      | (Inr generation, f') \<Rightarrow> (Inr (stampRowIdentity tasks generation ! row), f'))"

subsection \<open>Creating and removing\<close>

text \<open>The record as it is stored, before the lock.\<close>

definition newTask :: "taskEnv \<Rightarrow> Task \<Rightarrow> Task" where
  "newTask env t =
     (let t1 = canonicalizeOnComplete (tv_uni env) (canonicalizeTargetSession (resetStoreOwnedFields t (tv_now env 0)))
      in t1\<lparr>tk_Host := TrimSpace (tk_Host t1)\<rparr>)"

definition AddTaskChecked ::
  "taskEnv \<Rightarrow> storeFault \<Rightarrow> Task \<Rightarrow> string \<Rightarrow> (Task \<Rightarrow> taskError option) \<Rightarrow> taskFile \<Rightarrow> (taskError + Task) \<times> taskFile" where
  "AddTaskChecked env flt t actor validate f =
     (let t1 = newTask env t
      in case ValidateTaskID (tk_ID t) of
           Some e \<Rightarrow> (Inl e, f)
         | None \<Rightarrow>
       (case ValidateTrigger (tv_uni env) t1 of
           Some e \<Rightarrow> (Inl e, f)
         | None \<Rightarrow>
       (case validateTaskHost (tv_hosts env) (tk_Host t1) of
           Some e \<Rightarrow> (Inl e, f)
         | None \<Rightarrow>
       (case (if tk_Program t1 \<noteq> [] then ValidateProgramEnum (tk_Program t1) else None) of
           Some e \<Rightarrow> (Inl e, f)
         | None \<Rightarrow>
       (if flt \<in> {FailPath, FailMigrate, FailLock, FailLoad} then (Inl ErrTaskIO, f)
        else
          (let t2 = t1\<lparr>tk_RepoID := repoIDForPath env (tk_ProjectPath t1)\<rparr>;
               tasks = loadTasksLocked f
           in if tk_ID t2 \<in> tk_ID ` set tasks then (Inl (ErrTaskIDExists (tk_ID t2)), f)
              else
                (case validate t2 of
                   Some e \<Rightarrow> (Inl e, f)
                 | None \<Rightarrow>
                     (let t3 = appendAudit t2 actor AuditCreated [] (tv_now env 1)
                      in commitRow env flt (tasks @ [t3]) (length tasks) f))))))))"

text \<open>The loop of \<^verbatim>\<open>RemoveTaskChecked\<close>: the rows that stay, and whether the id was found.\<close>

fun removeLoop ::
  "string \<Rightarrow> ProjectExpectation \<Rightarrow> (Task \<Rightarrow> taskError option) \<Rightarrow> Task list \<Rightarrow> taskError + bool \<times> Task list" where
  "removeLoop taskID expect admit [] = Inr (False, [])"
| "removeLoop taskID expect admit (t # ts) =
     (if tk_ID t = taskID
      then
        (case admit t of
           Some e \<Rightarrow> Inl e
         | None \<Rightarrow>
             (case Verify expect t of
                Some e \<Rightarrow> Inl e
              | None \<Rightarrow>
                  (case removeLoop taskID expect admit ts of
                     Inl e \<Rightarrow> Inl e
                   | Inr (_, rest) \<Rightarrow> Inr (True, rest))))
      else
        (case removeLoop taskID expect admit ts of
           Inl e \<Rightarrow> Inl e
         | Inr (found, rest) \<Rightarrow> Inr (found, t # rest)))"

definition RemoveTaskChecked ::
  "taskEnv \<Rightarrow> storeFault \<Rightarrow> string \<Rightarrow> ProjectExpectation \<Rightarrow> (Task \<Rightarrow> taskError option) \<Rightarrow> taskFile \<Rightarrow>
     taskError option \<times> taskFile" where
  "RemoveTaskChecked env flt taskID expect admit f =
     (case openStore taskID flt of
        Some e \<Rightarrow> (Some e, f)
      | None \<Rightarrow>
          (case removeLoop taskID expect admit (loadTasksLocked f) of
             Inl e \<Rightarrow> (Some e, f)
           | Inr (found, rest) \<Rightarrow>
               (if \<not> found then (Some (ErrTaskNotFound taskID), f)
                else
                  (case writeTasks env flt rest f of
                     (Inl e, f') \<Rightarrow> (Some e, f')
                   | (Inr _, f') \<Rightarrow> (None, f')))))"

definition DeleteAllTasks :: "storeFault \<Rightarrow> taskFile \<Rightarrow> taskError option \<times> taskFile" where
  "DeleteAllTasks flt f =
     (if flt \<in> {FailPath, FailLock, FailWrite} then (Some ErrTaskIO, f) else (None, \<lparr>fl_rows = [], fl_tag = []\<rparr>))"

definition GetTask ::
  "(string \<Rightarrow> 'e + 'sched) \<Rightarrow> ('sched \<Rightarrow> gtime \<Rightarrow> gtime) \<Rightarrow> storeFault \<Rightarrow> string \<Rightarrow> gtime \<Rightarrow> taskFile \<Rightarrow> taskError + Task" where
  "GetTask parse nxt flt taskID now f =
     (case ValidateTaskID taskID of
        Some e \<Rightarrow> Inl e
      | None \<Rightarrow>
          (if flt \<in> {FailPath, FailMigrate, FailLoad} then Inl ErrTaskIO
           else
             (case find (\<lambda>t. tk_ID t = taskID) (LoadTasks parse nxt f now) of
                None \<Rightarrow> Inl (ErrTaskNotFound taskID)
              | Some t \<Rightarrow> Inr t)))"

subsection \<open>Status writers\<close>

definition updateTaskStatusLocked ::
  "taskEnv \<Rightarrow> storeFault \<Rightarrow> string \<Rightarrow> gtime option \<Rightarrow> string \<Rightarrow> (Task \<Rightarrow> bool) \<Rightarrow> (Task \<Rightarrow> Task) \<Rightarrow> taskFile \<Rightarrow>
     (taskError + Task \<times> bool) \<times> taskFile" where
  "updateTaskStatusLocked env flt taskID lastRunAt lastRunStatus guard mutate f =
     (case openStore taskID flt of
        Some e \<Rightarrow> (Inl e, f)
      | None \<Rightarrow>
          (let tasks = loadTasksLocked f
           in case rowOf taskID tasks of
                None \<Rightarrow> (Inl (ErrTaskNotFound taskID), f)
              | Some i \<Rightarrow>
                  (let cur = tasks ! i
                   in if \<not> guard cur then (Inr (cur, False), f)
                      else
                        (let t1 = (case lastRunAt of None \<Rightarrow> cur | Some a \<Rightarrow> cur\<lparr>tk_LastRunAt := Some a\<rparr>);
                             t2 = mutate (t1\<lparr>tk_LastRunStatus := lastRunStatus\<rparr>)
                         in case commitRow env flt (tasks[i := t2]) i f of
                              (Inl e, f') \<Rightarrow> (Inl e, f')
                            | (Inr t, f') \<Rightarrow> (Inr (t, True), f')))))"

definition UpdateTaskStatusIf ::
  "taskEnv \<Rightarrow> storeFault \<Rightarrow> string \<Rightarrow> gtime option \<Rightarrow> string \<Rightarrow> (Task \<Rightarrow> bool) \<Rightarrow> taskFile \<Rightarrow>
     (taskError + Task \<times> bool) \<times> taskFile" where
  "UpdateTaskStatusIf env flt taskID lastRunAt lastRunStatus guard f =
     updateTaskStatusLocked env flt taskID lastRunAt lastRunStatus guard (\<lambda>t. t) f"

definition UpdateTaskStatus ::
  "taskEnv \<Rightarrow> storeFault \<Rightarrow> string \<Rightarrow> gtime option \<Rightarrow> string \<Rightarrow> taskFile \<Rightarrow> (taskError + Task \<times> bool) \<times> taskFile" where
  "UpdateTaskStatus env flt taskID lastRunAt lastRunStatus f =
     UpdateTaskStatusIf env flt taskID lastRunAt lastRunStatus (\<lambda>_. True) f"

definition UpdateTaskStatusForTarget ::
  "taskEnv \<Rightarrow> storeFault \<Rightarrow> string \<Rightarrow> gtime option \<Rightarrow> string \<Rightarrow> string \<Rightarrow> taskFile \<Rightarrow>
     (taskError + Task \<times> bool) \<times> taskFile" where
  "UpdateTaskStatusForTarget env flt taskID lastRunAt lastRunStatus target f =
     updateTaskStatusLocked env flt taskID lastRunAt lastRunStatus (\<lambda>_. True)
       (\<lambda>t. if lastRunAt \<noteq> None then t\<lparr>tk_LastRunTarget := target\<rparr> else t) f"

text \<open>The run's key on the row it writes.\<close>

definition stampRun :: "RunKey \<Rightarrow> gtime option \<Rightarrow> Task \<Rightarrow> Task" where
  "stampRun k lastRunAt t =
     (if RunKey_IsZero k
      then (case lastRunAt of
              None \<Rightarrow> t
            | Some a \<Rightarrow>
                (let a' = (case tk_LastRunStartedAt t of
                             Some s \<Rightarrow> (if s > a then s else a)
                           | None \<Rightarrow> a)
                 in t\<lparr>tk_LastRunID := [], tk_LastRunStartedAt := Some a'\<rparr>))
      else t\<lparr>tk_LastRunID := rk_ID k, tk_LastRunStartedAt := Some (rk_StartedAt k)\<rparr>)"

definition recordRunStatusForTarget ::
  "taskEnv \<Rightarrow> storeFault \<Rightarrow> string \<Rightarrow> RunKey \<Rightarrow> gtime option \<Rightarrow> string \<Rightarrow> string \<Rightarrow> bool \<Rightarrow> taskFile \<Rightarrow>
     (taskError + Task \<times> bool) \<times> taskFile" where
  "recordRunStatusForTarget env flt taskID k lastRunAt status target stampTarget f =
     updateTaskStatusLocked env flt taskID lastRunAt status
       (\<lambda>cur. runStatusTransition cur k status lastRunAt)
       (\<lambda>t. stampRun k lastRunAt (if stampTarget \<and> lastRunAt \<noteq> None then t\<lparr>tk_LastRunTarget := target\<rparr> else t)) f"

definition RecordRunStatus ::
  "taskEnv \<Rightarrow> storeFault \<Rightarrow> string \<Rightarrow> RunKey \<Rightarrow> gtime option \<Rightarrow> string \<Rightarrow> taskFile \<Rightarrow>
     (taskError + Task \<times> bool) \<times> taskFile" where
  "RecordRunStatus env flt taskID k lastRunAt status f =
     recordRunStatusForTarget env flt taskID k lastRunAt status [] False f"

definition RecordRunStatusForTarget ::
  "taskEnv \<Rightarrow> storeFault \<Rightarrow> string \<Rightarrow> RunKey \<Rightarrow> gtime option \<Rightarrow> string \<Rightarrow> string \<Rightarrow> taskFile \<Rightarrow>
     (taskError + Task \<times> bool) \<times> taskFile" where
  "RecordRunStatusForTarget env flt taskID k lastRunAt status target f =
     recordRunStatusForTarget env flt taskID k lastRunAt status target True f"

definition RecordWatchRateDrops ::
  "taskEnv \<Rightarrow> storeFault \<Rightarrow> string \<Rightarrow> int \<Rightarrow> gtime \<Rightarrow> taskFile \<Rightarrow> (taskError + Task) \<times> taskFile" where
  "RecordWatchRateDrops env flt taskID tot droppedAt f =
     (case ValidateTaskID taskID of
        Some e \<Rightarrow> (Inl e, f)
      | None \<Rightarrow>
      (if tot < 0 then (Inl ErrNegativeDrops, f)
       else if flt \<in> {FailPath, FailMigrate, FailLock, FailLoad} then (Inl ErrTaskIO, f)
       else
          (let tasks = loadTasksLocked f
           in case rowOf taskID tasks of
                None \<Rightarrow> (Inl (ErrTaskNotFound taskID), f)
              | Some i \<Rightarrow>
                  (let cur = tasks ! i
                   in if tot \<le> tk_DroppedEvents cur then (Inr cur, f)
                      else
                        (let t1 = cur\<lparr>tk_DroppedEvents := tot\<rparr>;
                             older = (case tk_LastRunAt cur of None \<Rightarrow> False | Some a \<Rightarrow> droppedAt < a);
                             t2 = (if \<not> isTerminalWatcherStatus (tk_LastRunStatus cur) \<and> \<not> older
                                   then t1\<lparr>tk_LastRunStatus := WatchRateDropStatus\<rparr> else t1)
                         in commitRow env flt (tasks[i := t2]) i f)))))"

definition sameWatcherEvidence :: "Task \<Rightarrow> Task \<Rightarrow> bool" where
  "sameWatcherEvidence a b \<longleftrightarrow>
     tk_LastRunStatus a = tk_LastRunStatus b \<and> tk_DroppedEvents a = tk_DroppedEvents b \<and>
     tk_Enabled a = tk_Enabled b \<and> tk_WatchCmd a = tk_WatchCmd b \<and> tk_ProjectPath a = tk_ProjectPath b \<and>
     tk_Name a = tk_Name b \<and> tk_LastRunAt a = tk_LastRunAt b"

definition RecoverStaleWatcherStatus ::
  "taskEnv \<Rightarrow> storeFault \<Rightarrow> string \<Rightarrow> Task \<Rightarrow> string \<Rightarrow> taskFile \<Rightarrow> (taskError + bool) \<times> taskFile" where
  "RecoverStaleWatcherStatus env flt taskID armed status f =
     (let expected = stripDerived armed
      in case ValidateTaskID taskID of
           Some e \<Rightarrow> (Inl e, f)
         | None \<Rightarrow>
       (if \<not> isTerminalWatcherStatus (tk_LastRunStatus expected) then (Inr False, f)
        else if flt \<in> {FailPath, FailMigrate, FailLock, FailLoad} then (Inl ErrTaskIO, f)
        else
          (let tasks = loadTasksLocked f
           in case rowOf taskID tasks of
                None \<Rightarrow> (Inl (ErrTaskNotFound taskID), f)
              | Some i \<Rightarrow>
                  (let cur = tasks ! i
                   in if \<not> sameWatcherEvidence (stripDerived cur) expected then (Inr False, f)
                      else
                        (case writeTasks env flt (tasks[i := cur\<lparr>tk_LastRunStatus := status\<rparr>]) f of
                           (Inl e, f') \<Rightarrow> (Inl e, f')
                         | (Inr _, f') \<Rightarrow> (Inr True, f'))))))"

definition RecordTaskTrigger ::
  "taskEnv \<Rightarrow> storeFault \<Rightarrow> string \<Rightarrow> string \<Rightarrow> taskFile \<Rightarrow> taskError option \<times> taskFile" where
  "RecordTaskTrigger env flt taskID actor f =
     (case openStore taskID flt of
        Some e \<Rightarrow> (Some e, f)
      | None \<Rightarrow>
          (let tasks = loadTasksLocked f
           in case rowOf taskID tasks of
                None \<Rightarrow> (Some (ErrTaskNotFound taskID), f)
              | Some i \<Rightarrow>
                  (case writeTasks env flt
                          (tasks[i := appendAudit (tasks ! i) actor AuditTriggered [] (tv_now env 0)]) f of
                     (Inl e, f') \<Rightarrow> (Some e, f')
                   | (Inr _, f') \<Rightarrow> (None, f'))))"

subsection \<open>Patching\<close>

definition hasDotDotSegment :: "string \<Rightarrow> bool" where
  "hasDotDotSegment path =
     (let trimmed = rev (dropWhile (\<lambda>c. c = CHR ''/'') (rev path))
      in trimmed \<noteq> [] \<and> ''..'' \<in> set (splitOn (CHR ''/'') trimmed))"

definition sameProjectPathReassertion :: "taskEnv \<Rightarrow> string \<Rightarrow> string \<Rightarrow> bool" where
  "sameProjectPathReassertion env recorded path =
     (if recorded = path then True
      else
        (case (tv_evalSymlinks env path, tv_evalSymlinks env recorded) of
           (Some resolvedPatched, Some resolvedRecorded) \<Rightarrow>
             (case tv_sameFile env path recorded of
                Some same \<Rightarrow> same
              | None \<Rightarrow> resolvedPatched = resolvedRecorded)
         | _ \<Rightarrow>
             (if hasDotDotSegment path \<or> hasDotDotSegment recorded then False
              else Clean path = Clean recorded)))"

text \<open>The merged record before it is validated: the patch, and the retained repository id.\<close>

definition mergeTask :: "taskEnv \<Rightarrow> TaskUpdate \<Rightarrow> Task \<Rightarrow> Task" where
  "mergeTask env u existing =
     (let merged = applyUpdate (tv_uni env) u existing
      in case tu_ProjectPath u of
           None \<Rightarrow> merged
         | Some path \<Rightarrow>
             (let rebindRepoID = repoIDForPath env path
              in if rebindRepoID \<noteq> [] \<or> \<not> sameProjectPathReassertion env (tk_ProjectPath existing) path
                 then merged\<lparr>tk_RepoID := rebindRepoID\<rparr> else merged))"

text \<open>The entries of a patch: the store's own repairs, then the change of the caller.\<close>

definition auditMerge :: "taskEnv \<Rightarrow> TaskUpdate \<Rightarrow> string \<Rightarrow> Task \<Rightarrow> Task \<Rightarrow> Task" where
  "auditMerge env u actor existing m0 =
     (let uni = tv_uni env;
          m1 = (if tk_ProjectPath m0 = tk_ProjectPath existing \<and> tk_RepoID m0 \<noteq> tk_RepoID existing
                then appendAudit m0 ActorDaemonUpgrade AuditUpdated [''repo_id''] (tv_now env 0) else m0);
          m2 = (if CanonicalOnComplete uni (tk_OnComplete existing) = CanonicalOnComplete uni (tk_OnComplete m1) \<and>
                   tk_OnComplete existing \<noteq> tk_OnComplete m1
                then appendAudit m1 ActorDaemonUpgrade AuditUpdated [''on_complete''] (tv_now env 1) else m1);
          m3 = (if CanonicalTargetSession (tk_TargetSession existing) = CanonicalTargetSession (tk_TargetSession m2) \<and>
                   tk_TargetSession existing \<noteq> tk_TargetSession m2
                then appendAudit m2 ActorDaemonUpgrade AuditUpdated [''target_session''] (tv_now env 2) else m2);
          capRepaired = (tu_MaxConcurrentRuns u = None \<and> tk_MaxConcurrentRuns existing > 0 \<and> \<not> capApplies existing \<and>
                         tk_MaxConcurrentRuns m3 \<noteq> tk_MaxConcurrentRuns existing);
          m4 = (if capRepaired
                then appendAudit m3 ActorDaemonUpgrade AuditUpdated [''max_concurrent_runs''] (tv_now env 3) else m3);
          before1 = (if capRepaired then existing\<lparr>tk_MaxConcurrentRuns := tk_MaxConcurrentRuns m4\<rparr> else existing);
          verbRepaired = (tu_OnComplete u = None \<and> SessionLifecycle uni existing \<noteq> OnCompleteKeep \<and>
                          \<not> onCompleteApplies existing \<and> tk_OnComplete m4 \<noteq> tk_OnComplete existing);
          m5 = (if verbRepaired
                then appendAudit m4 ActorDaemonUpgrade AuditUpdated [''on_complete''] (tv_now env 4) else m4);
          callerBefore = (if verbRepaired then before1\<lparr>tk_OnComplete := tk_OnComplete m5\<rparr> else before1)
      in auditUpdate uni callerBefore m5 actor (tv_now env 5))"

definition UpdateTaskChecked ::
  "taskEnv \<Rightarrow> storeFault \<Rightarrow> string \<Rightarrow> TaskUpdate \<Rightarrow> ProjectExpectation \<Rightarrow> string \<Rightarrow> (Task \<Rightarrow> taskError + string) \<Rightarrow>
     taskFile \<Rightarrow> (taskError + Task) \<times> taskFile" where
  "UpdateTaskChecked env flt taskID u expect actor validate f =
     (case ValidateTaskID taskID of
        Some e \<Rightarrow> (Inl e, f)
      | None \<Rightarrow>
     (case (case tu_Host u of None \<Rightarrow> None | Some h \<Rightarrow> validateTaskHost (tv_hosts env) (TrimSpace h)) of
        Some e \<Rightarrow> (Inl e, f)
      | None \<Rightarrow>
     (if flt \<in> {FailPath, FailMigrate, FailLock, FailLoad} then (Inl ErrTaskIO, f)
      else
        (let tasks = loadTasksLocked f
         in case rowOf taskID tasks of
              None \<Rightarrow> (Inl (ErrTaskNotFound taskID), f)
            | Some i \<Rightarrow>
                (let existing = tasks ! i;
                     merged = mergeTask env u existing
                 in case Verify expect existing of
                      Some e \<Rightarrow> (Inl e, f)
                    | None \<Rightarrow>
                  (case ValidateTrigger (tv_uni env) merged of
                      Some e \<Rightarrow> (Inl e, f)
                    | None \<Rightarrow>
                  (case (if tu_Program u \<noteq> None \<and> tk_Program merged \<noteq> [] then ValidateProgramEnum (tk_Program merged)
                         else None) of
                      Some e \<Rightarrow> (Inl e, f)
                    | None \<Rightarrow>
                  (case validate merged of
                      Inl e \<Rightarrow> (Inl e, f)
                    | Inr validatedRepoID \<Rightarrow>
                        (let m = (if validatedRepoID \<noteq> [] then merged\<lparr>tk_RepoID := validatedRepoID\<rparr> else merged)
                         in commitRow env flt (tasks[i := auditMerge env u actor existing m]) i f)))))))))"

subsection \<open>The binding backfill\<close>

text \<open>
  \<^verbatim>\<open>loadTasksWithStableRepoBindings\<close> on the paths resolved before the lock: a row without an id whose path
  resolved to a repository gets it. The \<open>k\<close>-th row that changes reads the clock the \<open>k\<close>-th time.
\<close>

fun backfillRows ::
  "taskEnv \<Rightarrow> (string \<rightharpoonup> string \<times> bool) \<Rightarrow> nat \<Rightarrow> Task list \<Rightarrow> Task list \<times> bool" where
  "backfillRows env resolvedPaths k [] = ([], False)"
| "backfillRows env resolvedPaths k (t # ts) =
     (if tk_RepoID t \<noteq> [] \<or> TrimSpace (tk_ProjectPath t) = []
      then (let (ts', changed) = backfillRows env resolvedPaths k ts in (t # ts', changed))
      else
        (case resolvedPaths (tk_ProjectPath t) of
           Some (rid, True) \<Rightarrow>
             (let (ts', changed) = backfillRows env resolvedPaths (Suc k) ts
              in (appendAudit (t\<lparr>tk_RepoID := rid\<rparr>) ActorDaemonUpgrade AuditUpdated [''repo_id''] (tv_now env k) # ts', True))
         | _ \<Rightarrow> (let (ts', changed) = backfillRows env resolvedPaths k ts in (t # ts', changed))))"

definition loadTasksWithStableRepoBindings ::
  "taskEnv \<Rightarrow> storeFault \<Rightarrow> (string \<rightharpoonup> string \<times> bool) \<Rightarrow> taskFile \<Rightarrow> (taskError + Task list) \<times> taskFile" where
  "loadTasksWithStableRepoBindings env flt resolvedPaths f =
     (if flt \<in> {FailPath, FailMigrate, FailLock, FailLoad} then (Inl ErrTaskIO, f)
      else
        (let (current, changed) = backfillRows env resolvedPaths 0 (loadTasksLocked f)
         in if \<not> changed then (Inr current, f)
            else
              (case writeTasks env flt current f of
                 (Inl e, f') \<Rightarrow> (Inl e, f')
               | (Inr generation, f') \<Rightarrow> (Inr (stampRowIdentity current generation), f'))))"

end
