(* ===== verification/Task_Lemmas.thy ===== *)
theory Task_Lemmas
  imports Task_Store
begin

text \<open>
  One row of the task store: what the audit trail keeps, what a patch leaves alone, and the order of runs.
\<close>

subsection \<open>The audit trail\<close>

abbreviation routine :: "AuditEntry \<Rightarrow> bool" where
  "routine e \<equiv> ae_Action e = AuditTriggered"

definition configEntries :: "AuditEntry list \<Rightarrow> AuditEntry list" where
  "configEntries es = filter (\<lambda>e. \<not> routine e) es"

lemma configEntries_simps [simp]:
  "configEntries [] = []" "configEntries (xs @ ys) = configEntries xs @ configEntries ys"
  "configEntries (e # es) = (if routine e then configEntries es else e # configEntries es)"
  by (simp_all add: configEntries_def)

lemma trimTriggered_spec:
  "trimTriggered n es = (m, kept) \<Longrightarrow>
     configEntries kept = configEntries es \<and> length kept + n = length es + m \<and> (0 < m \<longrightarrow> kept = configEntries es)"
proof (induction n es arbitrary: m kept rule: trimTriggered.induct)
  case (2 n e es)
  show ?case
  proof (cases "n > 0 \<and> routine e")
    case True
    then show ?thesis using 2(1) [OF True] 2(3) by auto
  next
    case False
    obtain m' kept' where r: "trimTriggered n es = (m', kept')" by fastforce
    have out: "m = m'" "kept = e # kept'" using 2(3) False r by auto
    note ih = 2(2) [OF False r]
    have "0 < m' \<Longrightarrow> 0 < n"
    proof -
      assume "0 < m'"
      then have "kept' = configEntries es" using ih by blast
      then have "length kept' \<le> length es" by (simp add: configEntries_def)
      then show "0 < n" using ih \<open>0 < m'\<close> by linarith
    qed
    then show ?thesis using ih False by (auto simp: out)
  qed
qed simp

text \<open>The trail keeps the newest entries of the configuration, and drops one only when nothing else is left.\<close>

lemma auditTrim_spec:
  shows "length (auditTrim es) = min AuditLimit (length es)"
    and "configEntries (auditTrim es) = drop (length (configEntries es) - AuditLimit) (configEntries es)"
proof -
  have "length (auditTrim es) = min AuditLimit (length es) \<and>
    configEntries (auditTrim es) = drop (length (configEntries es) - AuditLimit) (configEntries es)"
  proof (cases "length es \<le> AuditLimit")
    case True
    have "length (configEntries es) \<le> length es" by (simp add: configEntries_def)
    then show ?thesis using True by (simp add: auditTrim_def)
  next
    case False
    obtain m kept where r: "trimTriggered (length es - AuditLimit) es = (m, kept)" by fastforce
    note spec = trimTriggered_spec [OF r]
    have out: "auditTrim es = drop m kept" using False r by (simp add: auditTrim_def)
    show ?thesis
    proof (cases "0 < m")
      case True
      then have kept: "kept = configEntries es" using spec by blast
      then have "\<forall>e\<in>set kept. \<not> routine e" by (simp add: configEntries_def)
      then have "configEntries (drop m kept) = drop m kept"
        by (auto simp: configEntries_def filter_id_conv dest: in_set_dropD)
      moreover have len: "length kept + (length es - AuditLimit) = length es + m" using spec by blast
      moreover have "length kept = AuditLimit + m" using len False by arith
      ultimately show ?thesis using False by (simp add: out kept [symmetric])
    next
      case no: False
      moreover have "length kept + (length es - AuditLimit) = length es + m" using spec by blast
      ultimately have "length kept = AuditLimit" using False by arith
      moreover have "length (configEntries es) \<le> length kept"
        using spec by (metis configEntries_def length_filter_le)
      ultimately show ?thesis using spec no False by (simp add: out)
    qed
  qed
  then show "length (auditTrim es) = min AuditLimit (length es)"
    and "configEntries (auditTrim es) = drop (length (configEntries es) - AuditLimit) (configEntries es)" by blast+
qed

lemma trimTriggered_set: "trimTriggered n es = (m, kept) \<Longrightarrow> set kept \<subseteq> set es"
  by (induction n es arbitrary: m kept rule: trimTriggered.induct) (auto split: if_splits prod.splits)

lemma auditTrim_set: "set (auditTrim es) \<subseteq> set es"
proof (cases "length es \<le> AuditLimit")
  case True
  then show ?thesis by (simp add: auditTrim_def)
next
  case False
  obtain m kept where r: "trimTriggered (length es - AuditLimit) es = (m, kept)" by fastforce
  then have "auditTrim es = drop m kept" using False by (simp add: auditTrim_def)
  then show ?thesis using trimTriggered_set [OF r] set_drop_subset [of m kept] by auto
qed

subsection \<open>What a write leaves alone\<close>

text \<open>Two rows that differ at most in their trails.\<close>

definition sameRow :: "Task \<Rightarrow> Task \<Rightarrow> bool" where
  "sameRow a b \<longleftrightarrow> a\<lparr>tk_Audit := []\<rparr> = b\<lparr>tk_Audit := []\<rparr>"

lemma sameRow_refl [simp]: "sameRow a a"
  by (simp add: sameRow_def)

lemma sameRow_trans [trans]: "sameRow a b \<Longrightarrow> sameRow b c \<Longrightarrow> sameRow a c"
  by (simp add: sameRow_def)

lemma sameRow_iff: "sameRow a b \<longleftrightarrow> (\<exists>es. a = b\<lparr>tk_Audit := es\<rparr>)"
  by (auto simp: sameRow_def) (metis Task.surjective Task.update_convs(22))

lemma sameRow_append [simp]: "sameRow (appendAudit t actor action names at') t"
  by (simp add: sameRow_def appendAudit_def)

lemma sameRow_auditUpdate: "sameRow (auditUpdate uni b a actor at') a"
  by (simp add: auditUpdate_def Let_def)

lemma sameRow_step: "sameRow (if c then appendAudit t actor action names at' else t) t"
  by simp

lemma auditMerge_same: "sameRow (auditMerge env u actor existing m) m"
  unfolding auditMerge_def Let_def
  by (rule sameRow_trans [OF sameRow_auditUpdate] sameRow_trans [OF sameRow_step] sameRow_step)+

subsection \<open>Patches\<close>

text \<open>Every field a patch can name, on two rows.\<close>

definition ownedSame :: "Task \<Rightarrow> Task \<Rightarrow> bool" where
  "ownedSame a b \<longleftrightarrow>
     tk_ID a = tk_ID b \<and> tk_SandboxOwner a = tk_SandboxOwner b \<and> tk_CreatedAt a = tk_CreatedAt b \<and>
     tk_LastRunAt a = tk_LastRunAt b \<and> tk_LastRunStatus a = tk_LastRunStatus b \<and>
     tk_LastRunTarget a = tk_LastRunTarget b \<and> tk_LastRunID a = tk_LastRunID b \<and>
     tk_LastRunStartedAt a = tk_LastRunStartedAt b \<and> tk_DroppedEvents a = tk_DroppedEvents b"

lemma verb_only:
  "\<exists>v. canonicalizeOnComplete uni t = t\<lparr>tk_OnComplete := v\<rparr>"
  "\<exists>v. clearInapplicableOnComplete uni t = t\<lparr>tk_OnComplete := v\<rparr>"
proof -
  have id: "t = t\<lparr>tk_OnComplete := tk_OnComplete t\<rparr>" by simp
  show "\<exists>v. canonicalizeOnComplete uni t = t\<lparr>tk_OnComplete := v\<rparr>"
    unfolding canonicalizeOnComplete_def by metis
  show "\<exists>v. clearInapplicableOnComplete uni t = t\<lparr>tk_OnComplete := v\<rparr>"
    unfolding clearInapplicableOnComplete_def using id by metis
qed

lemma cap_only: "\<exists>c. clearInapplicableCap t = t\<lparr>tk_MaxConcurrentRuns := c\<rparr>"
proof -
  have id: "t = t\<lparr>tk_MaxConcurrentRuns := tk_MaxConcurrentRuns t\<rparr>" by simp
  show ?thesis unfolding clearInapplicableCap_def using id by metis
qed

lemma applyUpdate_cases:
  obtains verb cap where "applyUpdate uni u t = (mergeFields u t)\<lparr>
      tk_TargetSession := CanonicalTargetSession (patched (tu_TargetSession u) (tk_TargetSession t)),
      tk_MaxConcurrentRuns := cap, tk_OnComplete := verb\<rparr>"
proof -
  define t0 where "t0 = canonicalizeTargetSession (mergeFields u t)"
  have t0: "t0 = (mergeFields u t)\<lparr>tk_TargetSession := CanonicalTargetSession (patched (tu_TargetSession u) (tk_TargetSession t))\<rparr>"
    by (simp add: t0_def canonicalizeTargetSession_def mergeFields_def)
  obtain v1 where v1: "canonicalizeOnComplete uni t0 = t0\<lparr>tk_OnComplete := v1\<rparr>" using verb_only(1) by blast
  define t1 where "t1 = t0\<lparr>tk_OnComplete := v1\<rparr>"
  have id: "t1 = t1\<lparr>tk_MaxConcurrentRuns := tk_MaxConcurrentRuns t1\<rparr>" by simp
  obtain c where c: "(if tu_MaxConcurrentRuns u = None then clearInapplicableCap t1 else t1) = t1\<lparr>tk_MaxConcurrentRuns := c\<rparr>"
    using cap_only [of t1] id by metis
  define t2 where "t2 = t1\<lparr>tk_MaxConcurrentRuns := c\<rparr>"
  have id2: "t2 = t2\<lparr>tk_OnComplete := tk_OnComplete t2\<rparr>" by simp
  obtain v where "(if tu_OnComplete u = None then clearInapplicableOnComplete uni t2 else t2) = t2\<lparr>tk_OnComplete := v\<rparr>"
    using verb_only(2) [of uni t2] id2 by metis
  then have "applyUpdate uni u t = t2\<lparr>tk_OnComplete := v\<rparr>"
    unfolding applyUpdate_def Let_def t0_def [symmetric] v1 t1_def [symmetric] c t2_def [symmetric] .
  then show thesis using that [of v c] by (simp add: t2_def t1_def t0)
qed

text \<open>The row an editor means: its own value in every field it changed, the stored value in every other.\<close>

abbreviation edited :: "'a \<Rightarrow> 'a \<Rightarrow> 'a \<Rightarrow> 'a" where
  "edited old cur stored \<equiv> (if cur \<noteq> old then cur else stored)"

definition editedRow :: "Task \<Rightarrow> Task \<Rightarrow> Task \<Rightarrow> Task" where
  "editedRow old cur t =
     t\<lparr>tk_Name := edited (tk_Name old) (tk_Name cur) (tk_Name t),
       tk_Prompt := edited (tk_Prompt old) (tk_Prompt cur) (tk_Prompt t),
       tk_CronExpr := edited (tk_CronExpr old) (tk_CronExpr cur) (tk_CronExpr t),
       tk_WatchCmd := edited (tk_WatchCmd old) (tk_WatchCmd cur) (tk_WatchCmd t),
       tk_TargetSession := edited (tk_TargetSession old) (tk_TargetSession cur) (tk_TargetSession t),
       tk_MaxConcurrentRuns := edited (tk_MaxConcurrentRuns old) (tk_MaxConcurrentRuns cur) (tk_MaxConcurrentRuns t),
       tk_OnComplete := edited (tk_OnComplete old) (tk_OnComplete cur) (tk_OnComplete t),
       tk_Host := edited (tk_Host old) (tk_Host cur) (tk_Host t),
       tk_ProjectPath := edited (tk_ProjectPath old) (tk_ProjectPath cur) (tk_ProjectPath t),
       tk_Program := edited (tk_Program old) (tk_Program cur) (tk_Program t),
       tk_Enabled := edited (tk_Enabled old) (tk_Enabled cur) (tk_Enabled t)\<rparr>"

lemma patched_diff: "patched (diffField old cur) stored = edited old cur stored"
  by (simp add: diffField_def)

text \<open>
  The row the store keeps for it, field by field: a blank target is none, a host the editor set is trimmed, the
  verb is in its lower-case form with \<^verbatim>\<open>keep\<close> written as none, and what the editor left alone is
  dropped where the edited row cannot carry it: a positive cap without a watch trigger or with a target, a verb
  with a target. (The verb is read twice because \<open>uni\<close>, the lower case of text that is not ASCII, is a
  parameter; for \<^verbatim>\<open>unicode.ToLower\<close> the second reading gives the first again.)
\<close>

abbreviation keeps :: "string \<Rightarrow> bool" where
  "keeps verb \<equiv> verb \<in> {[], ''keep''}"

definition settledTarget :: "Task \<Rightarrow> string" where
  "settledTarget r = (if TrimSpace (tk_TargetSession r) = [] then [] else tk_TargetSession r)"

definition settledCap :: "bool \<Rightarrow> Task \<Rightarrow> int" where
  "settledCap own r =
     (if \<not> own \<and> 0 < tk_MaxConcurrentRuns r \<and> (TrimSpace (tk_WatchCmd r) = [] \<or> settledTarget r \<noteq> []) then 0
      else tk_MaxConcurrentRuns r)"

definition settledVerb :: "(string \<Rightarrow> string) \<Rightarrow> bool \<Rightarrow> Task \<Rightarrow> string" where
  "settledVerb uni own r =
     (let verb = ToLower uni (TrimSpace (tk_OnComplete r))
      in if keeps verb \<or> \<not> own \<and> settledTarget r \<noteq> [] \<and> \<not> keeps (ToLower uni (TrimSpace verb)) then [] else verb)"

definition settledRow :: "(string \<Rightarrow> string) \<Rightarrow> Task \<Rightarrow> Task \<Rightarrow> Task \<Rightarrow> Task" where
  "settledRow uni old cur t =
     (let r = editedRow old cur t
      in r\<lparr>tk_TargetSession := settledTarget r,
           tk_MaxConcurrentRuns := settledCap (tk_MaxConcurrentRuns cur \<noteq> tk_MaxConcurrentRuns old) r,
           tk_OnComplete := settledVerb uni (tk_OnComplete cur \<noteq> tk_OnComplete old) r,
           tk_Host := (if tk_Host cur \<noteq> tk_Host old then TrimSpace (tk_Host cur) else tk_Host t)\<rparr>)"

lemma patched_trim:
  "patched (map_option TrimSpace (diffField old cur)) stored = (if cur \<noteq> old then TrimSpace cur else stored)"
  by (simp add: diffField_def)

lemma merge_diff:
  "mergeFields (DiffTask old cur) t =
     (editedRow old cur t)\<lparr>tk_Host := (if tk_Host cur \<noteq> tk_Host old then TrimSpace (tk_Host cur) else tk_Host t)\<rparr>"
  unfolding mergeFields_def DiffTask_def TaskUpdate.simps patched_diff patched_trim editedRow_def by simp

lemma canonical_target: "canonicalizeTargetSession r = r\<lparr>tk_TargetSession := settledTarget r\<rparr>"
  by (simp add: canonicalizeTargetSession_def CanonicalTargetSession_def settledTarget_def)

lemma canonical_settled [simp]: "CanonicalTargetSession (settledTarget r) = settledTarget r"
  by (simp add: CanonicalTargetSession_def settledTarget_def)

lemma canonical_verb:
  "canonicalizeOnComplete uni r =
     r\<lparr>tk_OnComplete := (let verb = ToLower uni (TrimSpace (tk_OnComplete r)) in if keeps verb then [] else verb)\<rparr>"
  by (simp add: canonicalizeOnComplete_def CanonicalOnComplete_def OnCompleteKeep_def Let_def)

lemma cleared_cap:
  "tk_TargetSession r = settledTarget r0 \<Longrightarrow> tk_WatchCmd r = tk_WatchCmd r0 \<Longrightarrow>
     tk_MaxConcurrentRuns r = tk_MaxConcurrentRuns r0 \<Longrightarrow>
     (if own then r else clearInapplicableCap r) = r\<lparr>tk_MaxConcurrentRuns := settledCap own r0\<rparr>"
  by (auto simp: clearInapplicableCap_def settledCap_def capApplies_def CapApplies_def CapUnavailableReason_def IsWatch_def
      intro!: Task.equality)

lemma keeps_lifecycle: "SessionLifecycle uni r = OnCompleteKeep \<longleftrightarrow> keeps (ToLower uni (TrimSpace (tk_OnComplete r)))"
  by (simp add: SessionLifecycle_def CanonicalOnComplete_def OnCompleteKeep_def Let_def)

lemma trim_blank [simp]: "TrimSpace [] = []"
  by code_simp

lemma lower_blank [simp]: "ToLower uni (TrimSpace []) = []"
  by (simp add: ToLower_def)

lemma cleared_verb:
  assumes "tk_TargetSession r = settledTarget r0"
    and "tk_OnComplete r = (let verb = ToLower uni (TrimSpace (tk_OnComplete r0)) in if keeps verb then [] else verb)"
  shows "(if own then r else clearInapplicableOnComplete uni r) = r\<lparr>tk_OnComplete := settledVerb uni own r0\<rparr>"
  using assms
  by (auto simp: clearInapplicableOnComplete_def keeps_lifecycle onCompleteApplies_def settledVerb_def Let_def
      intro!: Task.equality split: if_splits)

lemma apply_diff: "applyUpdate uni (DiffTask old cur) t = settledRow uni old cur t"
proof -
  define r where "r = editedRow old cur t"
  define h where "h = (if tk_Host cur \<noteq> tk_Host old then TrimSpace (tk_Host cur) else tk_Host t)"
  define v where "v = (let verb = ToLower uni (TrimSpace (tk_OnComplete r)) in if keeps verb then [] else verb)"
  define ownCap where "ownCap \<longleftrightarrow> tk_MaxConcurrentRuns cur \<noteq> tk_MaxConcurrentRuns old"
  define ownVerb where "ownVerb \<longleftrightarrow> tk_OnComplete cur \<noteq> tk_OnComplete old"
  define t1 where "t1 = r\<lparr>tk_TargetSession := settledTarget r, tk_OnComplete := v, tk_Host := h\<rparr>"
  define t2 where "t2 = t1\<lparr>tk_MaxConcurrentRuns := settledCap ownCap r\<rparr>"
  have m: "mergeFields (DiffTask old cur) t = r\<lparr>tk_Host := h\<rparr>" unfolding merge_diff r_def h_def ..
  have "settledTarget (r\<lparr>tk_Host := h\<rparr>) = settledTarget r" by (simp add: settledTarget_def)
  then have c: "canonicalizeOnComplete uni (canonicalizeTargetSession (mergeFields (DiffTask old cur) t)) = t1"
    unfolding m canonical_target canonical_verb by (simp add: t1_def v_def)
  have own: "(if tu_MaxConcurrentRuns (DiffTask old cur) = None then a else b) = (if ownCap then b else a)"
    "(if tu_OnComplete (DiffTask old cur) = None then a else b) = (if ownVerb then b else a)" for a b :: Task
    by (simp_all add: DiffTask_def diffField_def ownCap_def ownVerb_def)
  have cap: "(if ownCap then t1 else clearInapplicableCap t1) = t2"
    unfolding t2_def by (rule cleared_cap) (simp_all add: t1_def)
  have verb: "(if ownVerb then t2 else clearInapplicableOnComplete uni t2) = t2\<lparr>tk_OnComplete := settledVerb uni ownVerb r\<rparr>"
    by (rule cleared_verb) (simp_all add: t2_def t1_def v_def)
  have "applyUpdate uni (DiffTask old cur) t = t2\<lparr>tk_OnComplete := settledVerb uni ownVerb r\<rparr>"
    by (simp only: applyUpdate_def Let_def c own cap verb)
  also have "\<dots> = settledRow uni old cur t"
    by (simp add: settledRow_def Let_def t2_def t1_def r_def h_def ownCap_def ownVerb_def)
  finally show ?thesis .
qed

end
