(* ===== verification/Store_Lemmas.thy ===== *)
theory Store_Lemmas
  imports Task_Lemmas
begin

text \<open>
  The store's operations on the file: each leaves it as it was, or replaces it with the rows it read, one of
  them changed. From this the invariant of the rows over every sequence of operations.
\<close>

subsection \<open>Reading and writing\<close>

definition storedRows :: "taskFile \<Rightarrow> Task list" where
  "storedRows f = map stripDerived (fl_rows f)"

lemma strip_strip [simp]: "stripDerived (stripDerived t) = stripDerived t"
  by (simp add: stripDerived_def)

lemma strip_fields [simp]:
  "tk_ID (stripDerived t) = tk_ID t" "tk_Audit (stripDerived t) = tk_Audit t"
  "tk_LastRunAt (stripDerived t) = tk_LastRunAt t" "tk_LastRunStatus (stripDerived t) = tk_LastRunStatus t"
  "tk_LastRunID (stripDerived t) = tk_LastRunID t" "tk_LastRunStartedAt (stripDerived t) = tk_LastRunStartedAt t"
  "tk_CronExpr (stripDerived t) = tk_CronExpr t" "tk_Enabled (stripDerived t) = tk_Enabled t"
  "tk_CreatedAt (stripDerived t) = tk_CreatedAt t" "tk_WatchCmd (stripDerived t) = tk_WatchCmd t"
  "tk_DroppedEvents (stripDerived t) = tk_DroppedEvents t" "tk_ProjectPath (stripDerived t) = tk_ProjectPath t"
  by (simp_all add: stripDerived_def)

text \<open>What the trigger contract reads.\<close>

definition triggerFields :: "Task \<Rightarrow> string \<times> string \<times> string \<times> string \<times> bool \<times> int \<times> string \<times> string" where
  "triggerFields t = (tk_ID t, tk_CronExpr t, tk_WatchCmd t, tk_Prompt t, tk_Enabled t, tk_MaxConcurrentRuns t,
     tk_TargetSession t, tk_OnComplete t)"

lemma ValidateTrigger_cong: "triggerFields a = triggerFields b \<Longrightarrow> ValidateTrigger uni a = ValidateTrigger uni b"
  unfolding triggerFields_def prod.inject by (elim conjE) (simp only: ValidateTrigger_def SessionLifecycle_def)

lemma strip_trigger [simp]: "triggerFields (stripDerived t) = triggerFields t"
  by (simp add: triggerFields_def stripDerived_def)

lemma validate_strip [simp]: "ValidateTrigger uni (stripDerived t) = ValidateTrigger uni t"
  by (rule ValidateTrigger_cong) simp

abbreviation onRow :: "taskFile \<Rightarrow> nat \<Rightarrow> Task" where
  "onRow f i \<equiv> (stripDerived (fl_rows f ! i))\<lparr>tk_Ordinal := Suc i, tk_StoreGeneration := fl_tag f\<rparr>"

lemma load_length [simp]: "length (loadTasksLocked f) = length (fl_rows f)"
  by (simp add: loadTasksLocked_def stampRowIdentity_def)

lemma load_nth: "i < length (fl_rows f) \<Longrightarrow> loadTasksLocked f ! i = onRow f i"
  by (simp add: loadTasksLocked_def stampRowIdentity_def)

lemma strip_identity [simp]: "stripDerived (t\<lparr>tk_Ordinal := n, tk_StoreGeneration := g\<rparr>) = stripDerived t"
  by (simp add: stripDerived_def)

lemma load_rows [simp]: "map stripDerived (loadTasksLocked f) = storedRows f"
  by (rule nth_equalityI) (simp_all add: storedRows_def load_nth)

lemma load_ids [simp]: "map tk_ID (loadTasksLocked f) = map tk_ID (fl_rows f)"
  by (rule nth_equalityI) (simp_all add: load_nth)

lemma rowOf_cong: "map tk_ID ts = map tk_ID us \<Longrightarrow> rowOf taskID ts = rowOf taskID us"
proof -
  assume a: "map tk_ID ts = map tk_ID us"
  have len: "length (takeWhile (\<lambda>t. tk_ID t \<noteq> taskID) ts) = length (takeWhile (\<lambda>x. x \<noteq> taskID) (map tk_ID ts))" for ts
    by (simp add: takeWhile_map comp_def)
  show ?thesis using a map_eq_imp_length_eq [OF a] by (simp add: rowOf_def len)
qed

lemma rowOf_load [simp]: "rowOf taskID (loadTasksLocked f) = rowOf taskID (fl_rows f)"
  by (rule rowOf_cong) simp

lemma rowOf_some:
  assumes "rowOf taskID ts = Some i"
  shows "i < length ts" "tk_ID (ts ! i) = taskID"
proof -
  let ?j = "length (takeWhile (\<lambda>t. tk_ID t \<noteq> taskID) ts)"
  have i: "?j < length ts" "i = ?j" using assms by (auto simp: rowOf_def Let_def split: if_splits)
  then show "i < length ts" by simp
  show "tk_ID (ts ! i) = taskID" using nth_length_takeWhile [OF i(1)] i(2) by simp
qed

lemma rowOf_none: "rowOf taskID ts = None \<longleftrightarrow> taskID \<notin> tk_ID ` set ts"
proof -
  have "length (takeWhile (\<lambda>t. tk_ID t \<noteq> taskID) ts) < length ts \<longleftrightarrow> (\<exists>t\<in>set ts. tk_ID t = taskID)"
    by (metis (mono_tags, lifting) length_takeWhile_le nat_less_le takeWhile_eq_all_conv takeWhile_eq_take take_all_iff)
  then show ?thesis by (auto simp: rowOf_def Let_def)
qed

text \<open>The file after a write of the rows it was read with, one of them changed.\<close>

definition editedFile :: "taskEnv \<Rightarrow> nat \<Rightarrow> Task \<Rightarrow> taskFile \<Rightarrow> taskFile" where
  "editedFile env i t f =
     (let rows = (storedRows f)[i := stripDerived t] in \<lparr>fl_rows = rows, fl_tag = tv_tag env rows\<rparr>)"

lemma write_edited:
  "snd (writeTasks env flt ((loadTasksLocked f)[i := t]) f) = (if flt = FailWrite then f else editedFile env i t f)"
  by (simp add: writeTasks_def Let_def editedFile_def map_update)

lemma commit_edited:
  "snd (commitRow env flt ((loadTasksLocked f)[i := t]) i f) = (if flt = FailWrite then f else editedFile env i t f)"
  using write_edited [of env flt f i t] by (auto simp: commitRow_def split: prod.splits sum.splits)

lemma editedFile_rows: "fl_rows (editedFile env i t f) = (storedRows f)[i := stripDerived t]"
  by (simp add: editedFile_def Let_def)

subsection \<open>The shape of each operation\<close>

text \<open>The file an operation leaves: unchanged, or with one row changed by \<open>g\<close>.\<close>

definition edits :: "string \<Rightarrow> (Task \<Rightarrow> Task set) \<Rightarrow> taskFile \<Rightarrow> taskFile \<Rightarrow> bool" where
  "edits taskID g f f' \<longleftrightarrow>
     f' = f \<or> (\<exists>env i t. rowOf taskID (fl_rows f) = Some i \<and> t \<in> g (onRow f i) \<and> f' = editedFile env i t f)"

lemma edits_same [simp]: "edits taskID g f f"
  by (simp add: edits_def)

lemma edits_row: "rowOf taskID (fl_rows f) = Some i \<Longrightarrow> t \<in> g (onRow f i) \<Longrightarrow> edits taskID g f (editedFile env i t f)"
  by (auto simp: edits_def)

text \<open>The row a status write makes.\<close>

definition statusRow :: "gtime option \<Rightarrow> string \<Rightarrow> (Task \<Rightarrow> Task) \<Rightarrow> Task \<Rightarrow> Task" where
  "statusRow lastRunAt st mutate cur =
     mutate ((case lastRunAt of None \<Rightarrow> cur | Some a \<Rightarrow> cur\<lparr>tk_LastRunAt := Some a\<rparr>)\<lparr>tk_LastRunStatus := st\<rparr>)"

lemma status_file:
  assumes "rowOf taskID (fl_rows f) = Some i"
  shows "snd (updateTaskStatusLocked env flt taskID lastRunAt st guard mutate f) =
    (if openStore taskID flt \<noteq> None \<or> \<not> guard (onRow f i) \<or> flt = FailWrite then f
     else editedFile env i (statusRow lastRunAt st mutate (onRow f i)) f)"
  using commit_edited [of env flt f i "statusRow lastRunAt st mutate (onRow f i)"] rowOf_some(1) [OF assms]
  by (auto simp: updateTaskStatusLocked_def Let_def assms load_nth statusRow_def split: option.splits prod.splits sum.splits)

lemma status_edits:
  "edits taskID (\<lambda>cur. {statusRow lastRunAt st mutate cur}) f
     (snd (updateTaskStatusLocked env flt taskID lastRunAt st guard mutate f))"
proof (cases "rowOf taskID (fl_rows f)")
  case None
  then show ?thesis by (simp add: updateTaskStatusLocked_def Let_def split: option.splits)
next
  case (Some i)
  then show ?thesis by (auto simp: status_file intro: edits_row [OF Some])
qed

lemma drops_edits:
  "edits taskID (\<lambda>cur. {cur\<lparr>tk_DroppedEvents := tot\<rparr>, cur\<lparr>tk_DroppedEvents := tot, tk_LastRunStatus := WatchRateDropStatus\<rparr>})
     f (snd (RecordWatchRateDrops env flt taskID tot droppedAt f))"
proof (cases "rowOf taskID (fl_rows f)")
  case None
  then show ?thesis by (simp add: RecordWatchRateDrops_def Let_def split: option.splits)
next
  case (Some i)
  let ?cur = "onRow f i"
  let ?older = "case tk_LastRunAt ?cur of None \<Rightarrow> False | Some a \<Rightarrow> droppedAt < a"
  let ?new = "if \<not> isTerminalWatcherStatus (tk_LastRunStatus ?cur) \<and> \<not> ?older
    then ?cur\<lparr>tk_DroppedEvents := tot, tk_LastRunStatus := WatchRateDropStatus\<rparr> else ?cur\<lparr>tk_DroppedEvents := tot\<rparr>"
  have "snd (RecordWatchRateDrops env flt taskID tot droppedAt f) =
    (if ValidateTaskID taskID \<noteq> None \<or> tot < 0 \<or> flt \<in> {FailPath, FailMigrate, FailLock, FailLoad, FailWrite} \<or>
        tot \<le> tk_DroppedEvents ?cur
     then f else editedFile env i ?new f)"
    using commit_edited [of env flt f i ?new] rowOf_some(1) [OF Some]
    by (auto simp: RecordWatchRateDrops_def Let_def Some load_nth split: option.splits)
  then show ?thesis by (auto intro: edits_row [OF Some])
qed

lemma recover_edits:
  "edits taskID (\<lambda>cur. {cur\<lparr>tk_LastRunStatus := st\<rparr>}) f (snd (RecoverStaleWatcherStatus env flt taskID armed st f))"
proof (cases "rowOf taskID (fl_rows f)")
  case None
  then show ?thesis by (simp add: RecoverStaleWatcherStatus_def Let_def split: option.splits)
next
  case (Some i)
  let ?new = "(onRow f i)\<lparr>tk_LastRunStatus := st\<rparr>"
  have "snd (RecoverStaleWatcherStatus env flt taskID armed st f) \<in> {f, editedFile env i ?new f}"
    using write_edited [of env flt f i ?new] rowOf_some(1) [OF Some]
    by (auto simp: RecoverStaleWatcherStatus_def Let_def Some load_nth split: option.splits prod.splits sum.splits)
  then show ?thesis by (auto intro: edits_row [OF Some])
qed

lemma trigger_edits:
  "edits taskID (\<lambda>cur. {appendAudit cur actor AuditTriggered [] (tv_now env 0)}) f
     (snd (RecordTaskTrigger env flt taskID actor f))"
proof (cases "rowOf taskID (fl_rows f)")
  case None
  then show ?thesis by (simp add: RecordTaskTrigger_def Let_def split: option.splits)
next
  case (Some i)
  let ?new = "appendAudit (onRow f i) actor AuditTriggered [] (tv_now env 0)"
  have "snd (RecordTaskTrigger env flt taskID actor f) \<in> {f, editedFile env i ?new f}"
    using write_edited [of env flt f i ?new] rowOf_some(1) [OF Some]
    by (auto simp: RecordTaskTrigger_def Let_def Some load_nth split: option.splits prod.splits sum.splits)
  then show ?thesis by (auto intro: edits_row [OF Some])
qed

text \<open>A patch that commits: every check passed, and the row is the merged one with its audit entries.\<close>

definition committed :: "taskEnv \<Rightarrow> TaskUpdate \<Rightarrow> string \<Rightarrow> Task \<Rightarrow> Task \<Rightarrow> bool" where
  "committed env u actor existing t \<longleftrightarrow>
     ValidateTrigger (tv_uni env) (mergeTask env u existing) = None \<and>
     (\<exists>rid. t = auditMerge env u actor existing
        (if rid \<noteq> [] then (mergeTask env u existing)\<lparr>tk_RepoID := rid\<rparr> else mergeTask env u existing))"

lemma update_result:
  assumes "UpdateTaskChecked env flt taskID u expect actor validate f = (r, f')"
  shows "(\<exists>e. r = Inl e) \<and> f' = f \<or>
    (\<exists>i t. rowOf taskID (fl_rows f) = Some i \<and> Verify expect (onRow f i) = None \<and> committed env u actor (onRow f i) t \<and>
       f' = editedFile env i t f \<and> r = Inr (stampRowIdentity ((loadTasksLocked f)[i := t]) (fl_tag f') ! i))"
proof (cases "rowOf taskID (fl_rows f)")
  case None
  then show ?thesis using assms by (auto simp: UpdateTaskChecked_def Let_def split: option.splits if_splits)
next
  case (Some i)
  note i = rowOf_some(1) [OF Some]
  define ex where "ex = onRow f i"
  define mg where "mg = mergeTask env u ex"
  define hc where "hc = (case tu_Host u of None \<Rightarrow> None | Some h \<Rightarrow> validateTaskHost (tv_hosts env) (TrimSpace h))"
  define pc where "pc = (if tu_Program u \<noteq> None \<and> tk_Program mg \<noteq> [] then ValidateProgramEnum (tk_Program mg) else None)"
  have ld: "loadTasksLocked f ! i = ex" using i by (simp add: load_nth ex_def)
  have run: "(r, f') =
    (case ValidateTaskID taskID of Some e \<Rightarrow> (Inl e, f) | None \<Rightarrow>
    (case hc of Some e \<Rightarrow> (Inl e, f) | None \<Rightarrow>
    (if flt \<in> {FailPath, FailMigrate, FailLock, FailLoad} then (Inl ErrTaskIO, f) else
    (case Verify expect ex of Some e \<Rightarrow> (Inl e, f) | None \<Rightarrow>
    (case ValidateTrigger (tv_uni env) mg of Some e \<Rightarrow> (Inl e, f) | None \<Rightarrow>
    (case pc of Some e \<Rightarrow> (Inl e, f) | None \<Rightarrow>
    (case validate mg of Inl e \<Rightarrow> (Inl e, f) | Inr rid \<Rightarrow>
       commitRow env flt ((loadTasksLocked f)[i := auditMerge env u actor ex (if rid \<noteq> [] then mg\<lparr>tk_RepoID := rid\<rparr> else mg)])
         i f)))))))"
    unfolding assms [symmetric] UpdateTaskChecked_def rowOf_load Some option.case Let_def ld mg_def [symmetric]
      hc_def [symmetric] pc_def [symmetric] ..
  show ?thesis
  proof (cases "ValidateTaskID taskID = None \<and> hc = None \<and> flt \<notin> {FailPath, FailMigrate, FailLock, FailLoad} \<and>
      Verify expect ex = None \<and> ValidateTrigger (tv_uni env) mg = None \<and> pc = None \<and> (\<exists>rid. validate mg = Inr rid)")
    case False
    then have "(\<exists>e. r = Inl e) \<and> f' = f"
      using run by (auto split: option.splits if_splits sum.splits)
    then show ?thesis by blast
  next
    case True
    then obtain rid where rid: "validate mg = Inr rid" by blast
    define t where "t = auditMerge env u actor ex (if rid \<noteq> [] then mg\<lparr>tk_RepoID := rid\<rparr> else mg)"
    have run': "(r, f') = commitRow env flt ((loadTasksLocked f)[i := t]) i f"
      using run True rid by (simp add: t_def)
    have com: "committed env u actor ex t" using True by (auto simp: committed_def t_def mg_def)
    show ?thesis
    proof (cases "flt = FailWrite")
      case w: True
      then show ?thesis using run' by (simp add: commitRow_def writeTasks_def Let_def)
    next
      case False
      then have "f' = editedFile env i t f" "r = Inr (stampRowIdentity ((loadTasksLocked f)[i := t]) (fl_tag f') ! i)"
        using run' by (simp_all add: commitRow_def writeTasks_def Let_def editedFile_def map_update)
      then show ?thesis using com True Some unfolding ex_def by blast
    qed
  qed
qed

lemma update_edits:
  "edits taskID (\<lambda>cur. Collect (committed env u actor cur)) f (snd (UpdateTaskChecked env flt taskID u expect actor validate f))"
proof -
  obtain r f' where run: "UpdateTaskChecked env flt taskID u expect actor validate f = (r, f')" by fastforce
  from update_result [OF run] show ?thesis by (auto simp: run edits_def)
qed

lemma add_result:
  assumes "AddTaskChecked env flt t actor validate f = (r, f')"
  shows "(\<exists>e. r = Inl e) \<and> f' = f \<or>
    (\<exists>n. n = appendAudit ((newTask env t)\<lparr>tk_RepoID := repoIDForPath env (tk_ProjectPath (newTask env t))\<rparr>) actor
         AuditCreated [] (tv_now env 1) \<and>
       ValidateTaskID (tk_ID t) = None \<and> ValidateTrigger (tv_uni env) (newTask env t) = None \<and>
       tk_ID (newTask env t) \<notin> tk_ID ` set (fl_rows f) \<and>
       fl_rows f' = storedRows f @ [stripDerived n] \<and> r = Inr (stampRowIdentity (loadTasksLocked f @ [n]) (fl_tag f') ! length (fl_rows f)))"
proof -
  define t1 where "t1 = newTask env t"
  define t2 where "t2 = t1\<lparr>tk_RepoID := repoIDForPath env (tk_ProjectPath t1)\<rparr>"
  define n where "n = appendAudit t2 actor AuditCreated [] (tv_now env 1)"
  define pc where "pc = (if tk_Program t1 \<noteq> [] then ValidateProgramEnum (tk_Program t1) else None)"
  have id2: "tk_ID t2 = tk_ID t1" by (simp add: t2_def)
  have ids: "tk_ID ` set (loadTasksLocked f) = tk_ID ` set (fl_rows f)"
    by (metis list.set_map load_ids)
  have run: "(r, f') =
    (case ValidateTaskID (tk_ID t) of Some e \<Rightarrow> (Inl e, f) | None \<Rightarrow>
    (case ValidateTrigger (tv_uni env) t1 of Some e \<Rightarrow> (Inl e, f) | None \<Rightarrow>
    (case validateTaskHost (tv_hosts env) (tk_Host t1) of Some e \<Rightarrow> (Inl e, f) | None \<Rightarrow>
    (case pc of Some e \<Rightarrow> (Inl e, f) | None \<Rightarrow>
    (if flt \<in> {FailPath, FailMigrate, FailLock, FailLoad} then (Inl ErrTaskIO, f) else
    (if tk_ID t1 \<in> tk_ID ` set (fl_rows f) then (Inl (ErrTaskIDExists (tk_ID t1)), f) else
    (case validate t2 of Some e \<Rightarrow> (Inl e, f) | None \<Rightarrow>
       commitRow env flt (loadTasksLocked f @ [n]) (length (fl_rows f)) f)))))))"
    unfolding assms [symmetric] AddTaskChecked_def Let_def t1_def [symmetric] t2_def [symmetric] n_def [symmetric]
      pc_def [symmetric] id2 ids load_length ..
  show ?thesis
  proof (cases "ValidateTaskID (tk_ID t) = None \<and> ValidateTrigger (tv_uni env) t1 = None \<and>
      validateTaskHost (tv_hosts env) (tk_Host t1) = None \<and> pc = None \<and> flt \<notin> {FailPath, FailMigrate, FailLock, FailLoad} \<and>
      tk_ID t1 \<notin> tk_ID ` set (fl_rows f) \<and> validate t2 = None")
    case False
    then have "(\<exists>e. r = Inl e) \<and> f' = f"
      using run by (auto split: option.splits if_splits)
    then show ?thesis by blast
  next
    case True
    then have run': "(r, f') = commitRow env flt (loadTasksLocked f @ [n]) (length (fl_rows f)) f"
      using run by simp
    show ?thesis
    proof (cases "flt = FailWrite")
      case w: True
      then show ?thesis using run' by (simp add: commitRow_def writeTasks_def Let_def)
    next
      case False
      then have "fl_rows f' = storedRows f @ [stripDerived n]"
        "r = Inr (stampRowIdentity (loadTasksLocked f @ [n]) (fl_tag f') ! length (fl_rows f))"
        using run' by (simp_all add: commitRow_def writeTasks_def Let_def)
      then show ?thesis using True unfolding n_def t2_def t1_def by blast
    qed
  qed
qed

lemma removeLoop_rows: "removeLoop taskID expect admit ts = Inr (found, rest) \<Longrightarrow> rest = filter (\<lambda>t. tk_ID t \<noteq> taskID) ts"
  by (induction ts arbitrary: found rest) (auto split: if_splits option.splits sum.splits)

lemma filter_strip: "map stripDerived (filter (\<lambda>t. tk_ID t \<noteq> x) ts) = filter (\<lambda>t. tk_ID t \<noteq> x) (map stripDerived ts)"
  by (induction ts) auto

lemma remove_result:
  assumes "RemoveTaskChecked env flt taskID expect admit f = (r, f')"
  shows "r \<noteq> None \<and> f' = f \<or> r = None \<and> fl_rows f' = filter (\<lambda>t. tk_ID t \<noteq> taskID) (storedRows f)"
  using assms
  by (auto simp: RemoveTaskChecked_def writeTasks_def Let_def filter_strip [unfolded] load_rows [symmetric] dest!: removeLoop_rows
      split: option.splits sum.splits if_splits prod.splits simp del: load_rows)

lemma backfill_rows:
  "backfillRows env paths k ts = (ts', changed) \<Longrightarrow>
     list_all2 (\<lambda>t t'. t' = t \<or> (\<exists>rid k. t' = appendAudit (t\<lparr>tk_RepoID := rid\<rparr>) ActorDaemonUpgrade AuditUpdated [''repo_id''] (tv_now env k)))
       ts ts'"
  by (induction env paths k ts arbitrary: ts' changed rule: backfillRows.induct)
    (auto split: if_splits option.splits prod.splits bool.splits intro: list.rel_refl)

end
