(* ===== verification/Store_Runs.thy ===== *)
theory Store_Runs
  imports Store_Lemmas
begin

text \<open>
  Sequences of store operations: the invariant of the rows, the order of runs, and how a restart of a
  schedule is remembered.
\<close>

subsection \<open>The invariant of the rows\<close>

datatype storeOp =
    SAdd taskEnv storeFault Task string "Task \<Rightarrow> taskError option"
  | SRemove taskEnv storeFault string ProjectExpectation "Task \<Rightarrow> taskError option"
  | SDelete storeFault
  | SStatus taskEnv storeFault string "gtime option" string "Task \<Rightarrow> bool"
  | SStatusTarget taskEnv storeFault string "gtime option" string string
  | SRun taskEnv storeFault string RunKey "gtime option" string string bool
  | SDrops taskEnv storeFault string int gtime
  | SRecover taskEnv storeFault string Task string
  | STrigger taskEnv storeFault string string
  | SUpdate taskEnv storeFault string TaskUpdate ProjectExpectation string "Task \<Rightarrow> taskError + string"
  | SBackfill taskEnv storeFault "string \<rightharpoonup> string \<times> bool"

text \<open>The Unicode case table is one for all operations.\<close>

fun storeRun :: "(string \<Rightarrow> string) \<Rightarrow> taskFile \<Rightarrow> storeOp \<Rightarrow> taskFile" where
  "storeRun uni f (SAdd env flt t actor v) = snd (AddTaskChecked (env\<lparr>tv_uni := uni\<rparr>) flt t actor v f)"
| "storeRun uni f (SRemove env flt i x a) = snd (RemoveTaskChecked (env\<lparr>tv_uni := uni\<rparr>) flt i x a f)"
| "storeRun uni f (SDelete flt) = snd (DeleteAllTasks flt f)"
| "storeRun uni f (SStatus env flt i at' st g) = snd (UpdateTaskStatusIf (env\<lparr>tv_uni := uni\<rparr>) flt i at' st g f)"
| "storeRun uni f (SStatusTarget env flt i at' st tg) =
     snd (UpdateTaskStatusForTarget (env\<lparr>tv_uni := uni\<rparr>) flt i at' st tg f)"
| "storeRun uni f (SRun env flt i k at' st tg b) =
     snd (recordRunStatusForTarget (env\<lparr>tv_uni := uni\<rparr>) flt i k at' st tg b f)"
| "storeRun uni f (SDrops env flt i n at') = snd (RecordWatchRateDrops (env\<lparr>tv_uni := uni\<rparr>) flt i n at' f)"
| "storeRun uni f (SRecover env flt i armed st) = snd (RecoverStaleWatcherStatus (env\<lparr>tv_uni := uni\<rparr>) flt i armed st f)"
| "storeRun uni f (STrigger env flt i actor) = snd (RecordTaskTrigger (env\<lparr>tv_uni := uni\<rparr>) flt i actor f)"
| "storeRun uni f (SUpdate env flt i u x actor v) = snd (UpdateTaskChecked (env\<lparr>tv_uni := uni\<rparr>) flt i u x actor v f)"
| "storeRun uni f (SBackfill env flt paths) = snd (loadTasksWithStableRepoBindings (env\<lparr>tv_uni := uni\<rparr>) flt paths f)"

definition goodRow :: "(string \<Rightarrow> string) \<Rightarrow> Task \<Rightarrow> bool" where
  "goodRow uni t \<longleftrightarrow>
     ValidateTaskID (tk_ID t) = None \<and> ValidateTrigger uni t = None \<and> length (tk_Audit t) \<le> AuditLimit"

definition storeInv :: "(string \<Rightarrow> string) \<Rightarrow> taskFile \<Rightarrow> bool" where
  "storeInv uni f \<longleftrightarrow> distinct (map tk_ID (fl_rows f)) \<and> list_all (goodRow uni) (fl_rows f)"

lemma goodRow_cong: "triggerFields a = triggerFields b \<Longrightarrow> tk_Audit a = tk_Audit b \<Longrightarrow> goodRow uni a = goodRow uni b"
  using ValidateTrigger_cong [of a b uni] by (simp add: goodRow_def) (simp add: triggerFields_def)

lemma goodRow_strip [simp]: "goodRow uni (stripDerived t) = goodRow uni t"
  by (rule goodRow_cong) simp_all

lemma append_fields [simp]: "triggerFields (appendAudit t actor action names at') = triggerFields t"
  by (simp add: triggerFields_def appendAudit_def)

lemma goodRow_append: "goodRow uni t \<Longrightarrow> goodRow uni (appendAudit t actor action names at')"
proof -
  assume good: "goodRow uni t"
  have "ValidateTrigger uni (appendAudit t actor action names at') = ValidateTrigger uni t"
    by (rule ValidateTrigger_cong) simp
  moreover have "tk_ID (appendAudit t actor action names at') = tk_ID t" by (simp add: appendAudit_def)
  moreover have "length (tk_Audit (appendAudit t actor action names at')) \<le> AuditLimit"
    by (simp add: appendAudit_def auditTrim_spec(1))
  ultimately show ?thesis using good by (simp add: goodRow_def)
qed

lemma auditMerge_keeps:
  assumes "P m" "\<And>t actor action names at'. P t \<Longrightarrow> P (appendAudit t actor action names at')"
  shows "P (auditMerge env u actor existing m)"
proof -
  have step: "P (if c then appendAudit t a b n x else t)" if "P t" for c t a b n x
    using that assms(2) by simp
  have last': "P (auditUpdate uni b t a x)" if "P t" for uni b t a x
    using that assms(2) by (simp add: auditUpdate_def Let_def)
  show ?thesis unfolding auditMerge_def Let_def by (intro last' step assms(1))
qed

lemma merge_id: "tk_ID (mergeTask env u t) = tk_ID t" "tk_Audit (mergeTask env u t) = tk_Audit t"
proof -
  obtain verb cap where eq: "applyUpdate (tv_uni env) u t = (mergeFields u t)\<lparr>
      tk_TargetSession := CanonicalTargetSession (patched (tu_TargetSession u) (tk_TargetSession t)),
      tk_MaxConcurrentRuns := cap, tk_OnComplete := verb\<rparr>" by (rule applyUpdate_cases)
  show "tk_ID (mergeTask env u t) = tk_ID t" "tk_Audit (mergeTask env u t) = tk_Audit t"
    by (simp_all add: mergeTask_def Let_def eq mergeFields_def split: option.splits)
qed

lemma committed_good:
  assumes "committed env u actor t t'" "goodRow (tv_uni env) t"
  shows "goodRow (tv_uni env) t' \<and> tk_ID t' = tk_ID t"
proof -
  obtain rid where v: "ValidateTrigger (tv_uni env) (mergeTask env u t) = None"
    and t': "t' = auditMerge env u actor t
      (if rid \<noteq> [] then (mergeTask env u t)\<lparr>tk_RepoID := rid\<rparr> else mergeTask env u t)"
    using assms(1) by (auto simp: committed_def)
  let ?m = "if rid \<noteq> [] then (mergeTask env u t)\<lparr>tk_RepoID := rid\<rparr> else mergeTask env u t"
  have "goodRow (tv_uni env) (mergeTask env u t)"
    using assms(2) v by (simp add: goodRow_def merge_id)
  moreover have "goodRow (tv_uni env) ?m = goodRow (tv_uni env) (mergeTask env u t)"
    by (rule goodRow_cong) (simp_all add: triggerFields_def)
  ultimately have "goodRow (tv_uni env) ?m" by blast
  then have "goodRow (tv_uni env) t'" unfolding t' by (rule auditMerge_keeps) (rule goodRow_append)
  moreover have "tk_ID t' = tk_ID t"
    unfolding t' by (rule auditMerge_keeps) (simp_all add: merge_id appendAudit_def)
  ultimately show ?thesis by blast
qed

lemma storeInv_rows: "storeInv uni f \<longleftrightarrow> distinct (map tk_ID (storedRows f)) \<and> list_all (goodRow uni) (storedRows f)"
  by (simp add: storeInv_def storedRows_def list_all_iff comp_def)

lemma storeInv_edits:
  assumes inv: "storeInv uni f" and ed: "edits taskID g f f'"
    and g: "\<And>cur t. goodRow uni cur \<Longrightarrow> t \<in> g cur \<Longrightarrow> goodRow uni t \<and> tk_ID t = tk_ID cur"
  shows "storeInv uni f'"
proof (cases "f' = f")
  case True
  then show ?thesis using inv by simp
next
  case False
  then obtain env i t where i: "rowOf taskID (fl_rows f) = Some i" "t \<in> g (onRow f i)" "f' = editedFile env i t f"
    using ed by (auto simp: edits_def)
  note len = rowOf_some(1) [OF i(1)]
  have "goodRow uni (fl_rows f ! i)" using inv len by (auto simp: storeInv_def list_all_length)
  moreover have "goodRow uni (onRow f i) = goodRow uni (stripDerived (fl_rows f ! i))"
    by (rule goodRow_cong) (simp_all add: triggerFields_def)
  ultimately have t: "goodRow uni t" "tk_ID t = tk_ID (fl_rows f ! i)"
    using g [OF _ i(2)] by simp_all
  have rows: "fl_rows f' = (storedRows f)[i := stripDerived t]" by (simp add: i(3) editedFile_rows)
  have "map tk_ID (fl_rows f') = map tk_ID (storedRows f)"
    using len t(2) by (intro nth_equalityI) (auto simp: rows storedRows_def nth_list_update)
  moreover have "list_all (goodRow uni) (fl_rows f')"
    using inv t(1) unfolding rows storeInv_rows
    by (auto simp: list_all_iff dest: set_update_subset_insert [THEN subsetD])
  moreover have "distinct (map tk_ID (storedRows f))" using inv by (simp add: storeInv_rows)
  ultimately show ?thesis by (simp add: storeInv_def)
qed

lemma goodRow_updates [simp]:
  "goodRow uni (t\<lparr>tk_LastRunStatus := st\<rparr>) = goodRow uni t" "goodRow uni (t\<lparr>tk_LastRunAt := at'\<rparr>) = goodRow uni t"
  "goodRow uni (t\<lparr>tk_LastRunTarget := st\<rparr>) = goodRow uni t" "goodRow uni (t\<lparr>tk_LastRunID := st\<rparr>) = goodRow uni t"
  "goodRow uni (t\<lparr>tk_LastRunStartedAt := at'\<rparr>) = goodRow uni t" "goodRow uni (t\<lparr>tk_DroppedEvents := n\<rparr>) = goodRow uni t"
  "goodRow uni (t\<lparr>tk_RepoID := st\<rparr>) = goodRow uni t"
  by (rule goodRow_cong; simp add: triggerFields_def)+

lemma storeInv_run:
  assumes "storeInv uni f"
  shows "storeInv uni (storeRun uni f e)"
proof (cases e)
  case (SAdd env flt t actor v)
  let ?env = "env\<lparr>tv_uni := uni\<rparr>"
  obtain r f' where run: "AddTaskChecked ?env flt t actor v f = (r, f')" by fastforce
  from add_result [OF run] show ?thesis
  proof
    assume "(\<exists>e. r = Inl e) \<and> f' = f"
    then show ?thesis using assms by (simp add: SAdd run)
  next
    assume "\<exists>n. n = appendAudit ((newTask ?env t)\<lparr>tk_RepoID := repoIDForPath ?env (tk_ProjectPath (newTask ?env t))\<rparr>) actor
         AuditCreated [] (tv_now ?env 1) \<and>
       ValidateTaskID (tk_ID t) = None \<and> ValidateTrigger (tv_uni ?env) (newTask ?env t) = None \<and>
       tk_ID (newTask ?env t) \<notin> tk_ID ` set (fl_rows f) \<and>
       fl_rows f' = storedRows f @ [stripDerived n] \<and> r = Inr (stampRowIdentity (loadTasksLocked f @ [n]) (fl_tag f') ! length (fl_rows f))"
    then obtain n where n: "n = appendAudit ((newTask ?env t)\<lparr>tk_RepoID := repoIDForPath ?env (tk_ProjectPath (newTask ?env t))\<rparr>)
         actor AuditCreated [] (tv_now ?env 1)"
      and v: "ValidateTaskID (tk_ID t) = None" "ValidateTrigger uni (newTask ?env t) = None"
        "tk_ID (newTask ?env t) \<notin> tk_ID ` set (fl_rows f)"
      and f': "fl_rows f' = storedRows f @ [stripDerived n]" by auto
    have new: "tk_ID (newTask ?env t) = tk_ID t" "tk_Audit (newTask ?env t) = []"
      by (simp_all add: newTask_def Let_def resetStoreOwnedFields_def canonicalizeOnComplete_def canonicalizeTargetSession_def)
    have "goodRow uni (newTask ?env t)" using v new by (simp add: goodRow_def)
    moreover have "goodRow uni ((newTask ?env t)\<lparr>tk_RepoID := x\<rparr>) = goodRow uni (newTask ?env t)" for x
      by (rule goodRow_cong) (simp_all add: triggerFields_def)
    ultimately have "goodRow uni n" unfolding n by (intro goodRow_append) blast
    moreover have "tk_ID n = tk_ID t" by (simp add: n appendAudit_def new)
    moreover have "tk_ID ` set (storedRows f) = tk_ID ` set (fl_rows f)" by (simp add: storedRows_def image_image)
    ultimately show ?thesis using assms v(3) f' new by (auto simp: SAdd run storeInv_rows [of uni f]) (auto simp: storeInv_def image_iff)
  qed
next
  case (SRemove env flt i x a)
  obtain r f' where run: "RemoveTaskChecked (env\<lparr>tv_uni := uni\<rparr>) flt i x a f = (r, f')" by fastforce
  from remove_result [OF run] assms show ?thesis
    by (auto simp: SRemove run storeInv_rows [of uni f] distinct_map_filter) (auto simp: storeInv_def list_all_iff distinct_map_filter)
next
  case (SDelete flt)
  then show ?thesis using assms by (simp add: DeleteAllTasks_def storeInv_def)
next
  case (SStatus env flt i at' st g)
  show ?thesis unfolding SStatus storeRun.simps UpdateTaskStatusIf_def
    by (rule storeInv_edits [OF assms status_edits])
      (auto simp: statusRow_def split: option.splits)
next
  case (SStatusTarget env flt i at' st tg)
  show ?thesis unfolding SStatusTarget storeRun.simps UpdateTaskStatusForTarget_def
    by (rule storeInv_edits [OF assms status_edits])
      (auto simp: statusRow_def split: option.splits)
next
  case (SRun env flt i k at' st tg b)
  show ?thesis unfolding SRun storeRun.simps recordRunStatusForTarget_def
    by (rule storeInv_edits [OF assms status_edits])
      (auto simp: statusRow_def stampRun_def Let_def split: option.splits)
next
  case (SDrops env flt i n at')
  show ?thesis unfolding SDrops storeRun.simps
    by (rule storeInv_edits [OF assms drops_edits]) auto
next
  case (SRecover env flt i armed st)
  show ?thesis unfolding SRecover storeRun.simps
    by (rule storeInv_edits [OF assms recover_edits]) auto
next
  case (STrigger env flt i actor)
  show ?thesis unfolding STrigger storeRun.simps
    by (rule storeInv_edits [OF assms trigger_edits]) (auto simp: goodRow_append, simp add: appendAudit_def)
next
  case (SUpdate env flt i u x actor v)
  show ?thesis unfolding SUpdate storeRun.simps
    by (rule storeInv_edits [OF assms update_edits]) (use committed_good [of "env\<lparr>tv_uni := uni\<rparr>"] in auto)
next
  case (SBackfill env flt paths)
  let ?env = "env\<lparr>tv_uni := uni\<rparr>"
  obtain ts changed where b: "backfillRows ?env paths 0 (loadTasksLocked f) = (ts, changed)" by fastforce
  have keep: "goodRow uni t \<longrightarrow> goodRow uni t' \<and> tk_ID t' = tk_ID t"
    if "t' = t \<or> (\<exists>rid k. t' = appendAudit (t\<lparr>tk_RepoID := rid\<rparr>) ActorDaemonUpgrade AuditUpdated [''repo_id''] (tv_now ?env k))" for t t'
    using that goodRow_append [of uni "t\<lparr>tk_RepoID := rid\<rparr>" for rid] by (auto simp: appendAudit_def)
  have good: "goodRow uni t" if "t \<in> set (loadTasksLocked f)" for t
  proof -
    have "stripDerived t \<in> set (map stripDerived (loadTasksLocked f))" using that by (simp del: load_rows)
    then have "stripDerived t \<in> set (storedRows f)" unfolding load_rows .
    then show ?thesis using assms by (auto simp: storeInv_rows list_all_iff)
  qed
  note bf = backfill_rows [OF b, unfolded list_all2_conv_all_nth]
  have len: "length ts = length (loadTasksLocked f)" using bf by simp
  have row: "goodRow uni (ts ! i) \<and> tk_ID (ts ! i) = tk_ID (loadTasksLocked f ! i)" if "i < length (loadTasksLocked f)" for i
  proof -
    have "goodRow uni (loadTasksLocked f ! i)" using that by (intro good nth_mem)
    then show ?thesis using keep bf that by blast
  qed
  have "list_all (goodRow uni) ts" using row len by (simp add: list_all_length)
  moreover have "map tk_ID ts = map tk_ID (fl_rows f)"
    using row len unfolding load_ids [symmetric] list_eq_iff_nth_eq by (simp del: load_ids)
  ultimately have "list_all (goodRow uni) ts" "map tk_ID ts = map tk_ID (fl_rows f)" by simp_all
  then show ?thesis
    using assms b by (auto simp: SBackfill loadTasksWithStableRepoBindings_def Let_def writeTasks_def storeInv_def list_all_iff comp_def
        split: prod.splits sum.splits)
qed

interpretation taskStore: invariant_ops "storeRun uni" "storeInv uni" for uni
  by unfold_locales (rule storeInv_run)

subsection \<open>The newest run\<close>

text \<open>Run ids compare as Go strings do.\<close>

lemma bytesLess_irrefl [simp]: "\<not> bytesLess xs xs"
  by (induction xs) auto

lemma bytesLess_trans: "bytesLess xs ys \<Longrightarrow> bytesLess ys zs \<Longrightarrow> bytesLess xs zs"
proof (induction xs ys arbitrary: zs rule: bytesLess.induct)
  case (2 y ys)
  then show ?case by (cases zs) auto
next
  case (3 x xs y ys)
  then show ?case by (cases zs) auto
qed simp

lemma bytesLess_total: "bytesLess xs ys \<or> xs = ys \<or> bytesLess ys xs"
proof (induction xs ys rule: bytesLess.induct)
  case (1 xs)
  then show ?case by (cases xs) auto
next
  case (3 x xs y ys)
  have "code x = code y \<Longrightarrow> x = y" by simp
  then show ?case using 3 by (metis bytesLess.simps(3) linorder_neqE_nat)
qed simp

text \<open>Keyed runs whose ids name one start each are linearly ordered.\<close>

definition oneStart :: "RunKey set \<Rightarrow> bool" where
  "oneStart ks \<longleftrightarrow> (\<forall>k\<in>ks. rk_ID k \<noteq> [] \<and> (\<forall>k'\<in>ks. rk_ID k = rk_ID k' \<longrightarrow> k = k'))"

definition keyLess :: "RunKey \<Rightarrow> RunKey \<Rightarrow> bool" where
  "keyLess a b \<longleftrightarrow> rk_StartedAt a < rk_StartedAt b \<or> rk_StartedAt a = rk_StartedAt b \<and> bytesLess (rk_ID a) (rk_ID b)"

lemma runOrder_keyLess:
  assumes "oneStart ks" "a \<in> ks" "b \<in> ks"
  shows "runOrder a b < 0 \<longleftrightarrow> keyLess a b" "runOrder a b > 0 \<longleftrightarrow> keyLess b a" "runOrder a b = 0 \<longleftrightarrow> a = b"
proof -
  have ids: "rk_ID a \<noteq> []" "rk_ID b \<noteq> []" "rk_ID a = rk_ID b \<Longrightarrow> a = b"
    using assms by (auto simp: oneStart_def)
  have t: "bytesLess (rk_ID a) (rk_ID b) \<or> rk_ID a = rk_ID b \<or> bytesLess (rk_ID b) (rk_ID a)" by (rule bytesLess_total)
  have n: "\<not> (bytesLess (rk_ID a) (rk_ID b) \<and> bytesLess (rk_ID b) (rk_ID a))"
    using bytesLess_trans bytesLess_irrefl by blast
  show "runOrder a b < 0 \<longleftrightarrow> keyLess a b" "runOrder a b > 0 \<longleftrightarrow> keyLess b a" "runOrder a b = 0 \<longleftrightarrow> a = b"
    using ids t n by (auto simp: runOrder_def keyLess_def)
qed

lemma keyLess_trans: "keyLess a b \<Longrightarrow> keyLess b c \<Longrightarrow> keyLess a c"
  using bytesLess_trans by (auto simp: keyLess_def)

lemma keyLess_irrefl [simp]: "\<not> keyLess a a"
  by (simp add: keyLess_def)

text \<open>The run and the status a row holds, and what a keyed write does to them.\<close>

definition runState :: "Task \<Rightarrow> RunKey \<times> string" where
  "runState t = (lastRunKey t, tk_LastRunStatus t)"

definition runWrite :: "RunKey \<times> string \<Rightarrow> RunKey \<times> string \<Rightarrow> RunKey \<times> string" where
  "runWrite cur w =
     (case (cur, w) of ((c, s), (k, st)) \<Rightarrow>
        if RunKey_IsZero c \<or> runOrder k c > 0 then (k, st)
        else if runOrder k c < 0 then (c, s)
        else if st = RunStartedStatus then (if s = [] \<or> s = RunStartedStatus then (k, st) else (c, s))
        else if st = RunFailedUndeliveredStatus then (if s \<noteq> RunFailedUndeliveredStatus then (k, st) else (c, s))
        else (k, st))"

definition newestRun :: "RunKey \<times> string \<Rightarrow> (RunKey \<times> string) list \<Rightarrow> bool" where
  "newestRun cur ws \<longleftrightarrow>
     cur \<in> set ws \<and> (\<forall>w\<in>set ws. fst w = fst cur \<or> keyLess (fst w) (fst cur)) \<and>
     (snd cur = RunStartedStatus \<longrightarrow> (\<forall>w\<in>set ws. fst w = fst cur \<longrightarrow> snd w = RunStartedStatus))"

lemma runWrite_newest:
  assumes "newestRun cur ws" "oneStart (fst ` set (ws @ [w]))" "\<forall>w\<in>set ws. snd w \<noteq> []"
  shows "newestRun (runWrite cur w) (ws @ [w])"
proof -
  obtain c s k st where eq: "cur = (c, s)" "w = (k, st)" by fastforce
  have c: "c \<in> fst ` set (ws @ [w])" "k \<in> fst ` set (ws @ [w])" "s \<noteq> []"
    using assms(1,3) by (force simp: newestRun_def eq)+
  have nz: "\<not> RunKey_IsZero c" using assms(2) c(1) by (auto simp: oneStart_def RunKey_IsZero_def)
  note ord = runOrder_keyLess [OF assms(2) c(2) c(1)]
  consider "keyLess c k" | "keyLess k c" | "k = c"
    using ord by (metis linorder_neqE_linordered_idom)
  then show ?thesis
  proof cases
    case 1
    then have w: "runWrite cur w = (k, st)" using ord by (simp add: runWrite_def eq)
    have "\<forall>w\<in>set ws. keyLess (fst w) k"
      using assms(1) 1 keyLess_trans by (fastforce simp: newestRun_def eq)
    moreover from this have "\<forall>w\<in>set ws. fst w \<noteq> k" using keyLess_irrefl by metis
    ultimately show ?thesis unfolding newestRun_def w by (auto simp: eq)
  next
    case 2
    then have "runWrite cur w = (c, s)" "k \<noteq> c" using ord nz by (auto simp: runWrite_def eq)
    then show ?thesis using assms(1) 2 by (auto simp: newestRun_def eq)
  next
    case 3
    then have "runWrite cur w = (c, st) \<and> (st = RunStartedStatus \<longrightarrow> s = RunStartedStatus) \<or>
        runWrite cur w = (c, s) \<and> s \<noteq> RunStartedStatus"
      using ord nz c(3)
      by (auto simp: runWrite_def eq RunStartedStatus_def RunFailedUndeliveredStatus_def)
    then show ?thesis using assms(1) by (auto simp: newestRun_def eq 3)
  qed
qed

lemma runWrites_newest:
  assumes "ws \<noteq> []" "oneStart (fst ` set ws)" "\<forall>w\<in>set ws. snd w \<noteq> []" "RunKey_IsZero (fst init)"
  shows "newestRun (fold (\<lambda>w cur. runWrite cur w) ws init) ws"
  using assms(1-3)
proof (induction ws rule: rev_induct)
  case (snoc w ws)
  show ?case
  proof (cases "ws = []")
    case True
    obtain k st where "w = (k, st)" by fastforce
    then show ?thesis using assms(4) by (cases init) (simp add: True runWrite_def newestRun_def)
  next
    case False
    have "oneStart (fst ` set ws)" using snoc.prems(2) by (auto simp: oneStart_def)
    then have "newestRun (fold (\<lambda>w cur. runWrite cur w) ws init) ws" using snoc.IH snoc.prems(3) False by auto
    from runWrite_newest [OF this snoc.prems(2)] snoc.prems(3) show ?thesis by simp
  qed
qed simp

text \<open>The row of a task in the file.\<close>

definition rowState :: "string \<Rightarrow> taskFile \<Rightarrow> (RunKey \<times> string) option" where
  "rowState taskID f = map_option (\<lambda>i. runState (fl_rows f ! i)) (rowOf taskID (fl_rows f))"

lemma rowOf_edited:
  assumes "rowOf taskID (fl_rows f) = Some i" "tk_ID t = tk_ID (fl_rows f ! j)" "j < length (fl_rows f)"
  shows "rowOf taskID (fl_rows (editedFile env j t f)) = Some i"
proof -
  have "map tk_ID (fl_rows (editedFile env j t f)) = map tk_ID (fl_rows f)"
    using assms(2,3) by (intro nth_equalityI) (auto simp: editedFile_rows storedRows_def nth_list_update)
  from rowOf_cong [OF this] assms(1) show ?thesis by simp
qed

lemma runState_cong:
  "tk_LastRunID a = tk_LastRunID b \<Longrightarrow> tk_LastRunStartedAt a = tk_LastRunStartedAt b \<Longrightarrow>
     tk_LastRunStatus a = tk_LastRunStatus b \<Longrightarrow> runState a = runState b"
  by (simp add: runState_def lastRunKey_def)

lemma transition_cong:
  "tk_LastRunID a = tk_LastRunID b \<Longrightarrow> tk_LastRunStartedAt a = tk_LastRunStartedAt b \<Longrightarrow>
     tk_LastRunStatus a = tk_LastRunStatus b \<Longrightarrow> runStatusTransition a k st at' = runStatusTransition b k st at'"
  by (simp add: runStatusTransition_def lastRunKey_def)

lemma runWrite_transition:
  assumes "rk_ID k \<noteq> []"
  shows "runWrite (runState t) (k, st) = (if runStatusTransition t k st at' then (k, st) else runState t)"
  using assms by (auto simp: runWrite_def runState_def runStatusTransition_def Let_def RunKey_IsZero_def)

lemma record_rowState:
  assumes "ValidateTaskID taskID = None" "rowState taskID f = Some cur" "flt = NoFault \<Longrightarrow> rk_ID k \<noteq> []"
  shows "rowState taskID (snd (recordRunStatusForTarget env flt taskID k at' st tgt b f)) =
    Some (if flt = NoFault then runWrite cur (k, st) else cur)"
proof -
  obtain i where i: "rowOf taskID (fl_rows f) = Some i" "cur = runState (fl_rows f ! i)"
    using assms(2) by (auto simp: rowState_def)
  note len = rowOf_some(1) [OF i(1)]
  let ?mut = "\<lambda>t. stampRun k at' (if b \<and> at' \<noteq> None then t\<lparr>tk_LastRunTarget := tgt\<rparr> else t)"
  let ?new = "statusRow at' st ?mut (onRow f i)"
  let ?ok = "runStatusTransition (onRow f i) k st at'"
  have filed: "snd (recordRunStatusForTarget env flt taskID k at' st tgt b f) =
    (if openStore taskID flt \<noteq> None \<or> \<not> ?ok \<or> flt = FailWrite then f else editedFile env i ?new f)"
    unfolding recordRunStatusForTarget_def by (rule status_file [OF i(1)])
  have trans': "?ok = runStatusTransition (fl_rows f ! i) k st at'" by (rule transition_cong) simp_all
  show ?thesis
  proof (cases "flt = NoFault")
    case False
    then have "openStore taskID flt \<noteq> None \<or> flt = FailWrite"
      by (cases flt) (simp_all add: openStore_def assms(1))
    then show ?thesis using assms(2) False unfolding filed by simp
  next
    case True
    then have op: "openStore taskID flt = None" by (simp add: openStore_def assms(1))
    note key = assms(3) [OF True]
    then have nz: "\<not> RunKey_IsZero k" by (simp add: RunKey_IsZero_def)
    show ?thesis
    proof (cases ?ok)
      case no: False
      then show ?thesis
        using assms(2) True trans' runWrite_transition [OF key, of "fl_rows f ! i" st at'] unfolding filed by (simp add: i(2))
    next
      case yes: True
      have "tk_ID ?new = tk_ID (fl_rows f ! i)"
        using nz by (auto simp: statusRow_def stampRun_def split: option.splits)
      note row = rowOf_edited [OF i(1) this len]
      have "runState (stripDerived ?new) = (k, st)"
        using nz by (auto simp: runState_def lastRunKey_def statusRow_def stampRun_def split: option.splits)
      moreover have "fl_rows (editedFile env i ?new f) ! i = stripDerived ?new"
        using len by (simp add: editedFile_rows storedRows_def)
      ultimately have "rowState taskID (editedFile env i ?new f) = Some (k, st)"
        unfolding rowState_def row by simp
      moreover have "runWrite cur (k, st) = (k, st)"
        using runWrite_transition [OF key, of "fl_rows f ! i" st at'] yes trans' by (simp add: i(2))
      ultimately show ?thesis using True op yes unfolding filed by simp
    qed
  qed
qed

type_synonym runReport = "taskEnv \<times> storeFault \<times> RunKey \<times> gtime option \<times> string \<times> string \<times> bool"

definition reportOp :: "string \<Rightarrow> runReport \<Rightarrow> storeOp" where
  "reportOp taskID w = (case w of (env, flt, k, at', st, tgt, b) \<Rightarrow> SRun env flt taskID k at' st tgt b)"

text \<open>The reports that met no fault, each as its run and its status.\<close>

definition landed :: "runReport list \<Rightarrow> (RunKey \<times> string) list" where
  "landed ws = map (\<lambda>(env, flt, k, at', st, tgt, b). (k, st)) (filter (\<lambda>(env, flt, k, at', st, tgt, b). flt = NoFault) ws)"

lemma landed_Cons:
  "landed (w # ws) = (case w of (env, flt, k, at', st, tgt, b) \<Rightarrow> if flt = NoFault then (k, st) # landed ws else landed ws)"
  by (simp add: landed_def split: prod.splits)

lemma reports_rowState:
  assumes "ValidateTaskID taskID = None"
  shows "rowState taskID f = Some cur \<Longrightarrow> \<forall>w\<in>set (landed ws). rk_ID (fst w) \<noteq> [] \<Longrightarrow>
    rowState taskID (run_ops (storeRun uni) f (map (reportOp taskID) ws)) = Some (fold (\<lambda>w cur. runWrite cur w) (landed ws) cur)"
proof (induction ws arbitrary: f cur)
  case Nil
  then show ?case by (simp add: landed_def)
next
  case (Cons w ws)
  obtain env flt k at' st tgt b where w: "w = (env, flt, k, at', st, tgt, b)" using prod_cases7 by blast
  have "flt = NoFault \<Longrightarrow> rk_ID k \<noteq> []" using Cons.prems(2) by (simp add: landed_Cons w)
  from record_rowState [OF assms Cons.prems(1) this, where env = "env\<lparr>tv_uni := uni\<rparr>" and at' = at' and st = st and tgt = tgt and b = b]
  have "rowState taskID (storeRun uni f (reportOp taskID w)) = Some (if flt = NoFault then runWrite cur (k, st) else cur)"
    by (simp add: reportOp_def w)
  from Cons.IH [OF this] Cons.prems(2) show ?case by (cases "flt = NoFault") (simp_all add: landed_Cons w)
qed

subsection \<open>A restarted schedule\<close>

text \<open>A trigger's entry names no fields, as every entry the code writes for one.\<close>

definition quietTrail :: "AuditEntry list \<Rightarrow> bool" where
  "quietTrail es \<longleftrightarrow> (\<forall>e\<in>set es. routine e \<longrightarrow> ae_Fields e = [])"

lemma quietTrail_append:
  assumes "quietTrail (tk_Audit t)" "routine e \<longrightarrow> ae_Fields e = []"
  shows "quietTrail (auditTrim (tk_Audit t @ [e]))"
  unfolding quietTrail_def
proof (intro ballI impI)
  fix x assume x: "x \<in> set (auditTrim (tk_Audit t @ [e]))" "routine x"
  then have "x \<in> set (tk_Audit t) \<or> x = e" using auditTrim_set [of "tk_Audit t @ [e]"] by auto
  then show "ae_Fields x = []" using assms x(2) by (auto simp: quietTrail_def)
qed

lemma find_filter: "\<forall>x\<in>set xs. P x \<longrightarrow> Q x \<Longrightarrow> find P (filter Q xs) = find P xs"
  by (induction xs) auto

lemma find_config: "quietTrail es \<Longrightarrow> find scheduleRestart (rev es) = find scheduleRestart (rev (configEntries es))"
  unfolding configEntries_def rev_filter
  by (rule find_filter [symmetric]) (auto simp: quietTrail_def scheduleRestart_def auditActions)

text \<open>The newest entry that is no trigger restarted the schedule at \<open>T\<close>.\<close>

definition restartKept :: "gtime \<Rightarrow> Task \<Rightarrow> bool" where
  "restartKept T t \<longleftrightarrow>
     quietTrail (tk_Audit t) \<and> configEntries (tk_Audit t) \<noteq> [] \<and>
     scheduleRestart (last (configEntries (tk_Audit t))) \<and> ae_At (last (configEntries (tk_Audit t))) = T"

lemma restartKept_cong: "tk_Audit a = tk_Audit b \<Longrightarrow> restartKept T a = restartKept T b"
  by (simp add: restartKept_def)

lemma restartKept_reference:
  assumes "restartKept T t" "0 < T"
  obtains ref where "scheduleReference t = Some ref" "T \<le> ref"
proof -
  let ?c = "configEntries (tk_Audit t)"
  have kept: "quietTrail (tk_Audit t)" "?c \<noteq> []" "scheduleRestart (last ?c)" "ae_At (last ?c) = T"
    using assms(1) by (simp_all add: restartKept_def)
  from kept(2) obtain cs where "rev ?c = last ?c # cs" by (metis last_snoc rev_exhaust rev_rev_ident rev.simps(2) rev_is_Nil_conv list.exhaust)
  then have "find scheduleRestart (rev (tk_Audit t)) = Some (last ?c)"
    using kept(3) unfolding find_config [OF kept(1)] by (simp only: find.simps if_True)
  then have restart: "lastScheduleRestartAt t = Some T" using kept(4) by (simp add: lastScheduleRestartAt_def)
  have "\<exists>r. scheduleReference t = (if isZero (if T > r then T else r) then None else Some (if T > r then T else r))"
    unfolding scheduleReference_def Let_def restart option.case by blast
  then obtain r where "scheduleReference t = (if isZero (if T > r then T else r) then None else Some (if T > r then T else r))" ..
  then show thesis using that [of "if T > r then T else r"] assms(2) by (auto simp: isZero_def)
qed

lemma last_trim:
  assumes "configEntries es \<noteq> []"
  shows "configEntries (auditTrim es) \<noteq> [] \<and> last (configEntries (auditTrim es)) = last (configEntries es)"
proof -
  have "length (configEntries es) - AuditLimit < length (configEntries es)" using assms by (simp add: AuditLimit_def)
  then show ?thesis by (simp add: auditTrim_spec(2) last_drop)
qed

lemma restartKept_trigger:
  assumes "restartKept T t"
  shows "restartKept T (appendAudit t actor AuditTriggered [] at')"
proof -
  let ?e = "\<lparr>ae_At = at', ae_Actor = ParseActor actor, ae_Action = AuditTriggered, ae_Fields = []\<rparr>"
  have c: "configEntries (tk_Audit t @ [?e]) = configEntries (tk_Audit t)" by simp
  have "quietTrail (auditTrim (tk_Audit t @ [?e]))"
    using assms by (intro quietTrail_append) (simp_all add: restartKept_def)
  then show ?thesis
    using last_trim [of "tk_Audit t @ [?e]"] assms unfolding c by (simp add: restartKept_def appendAudit_def)
qed

text \<open>What a patch that restarts the schedule writes.\<close>

lemma auditMerge_last:
  obtains before m where "auditMerge env u actor existing m0 = auditUpdate (tv_uni env) before m actor (tv_now env 5)"
    "tk_Enabled before = tk_Enabled existing" "tk_CronExpr before = tk_CronExpr existing"
    "sameRow m m0" "quietTrail (tk_Audit m0) \<Longrightarrow> quietTrail (tk_Audit m)"
proof -
  let ?Q = "\<lambda>m. sameRow m m0 \<and> (quietTrail (tk_Audit m0) \<longrightarrow> quietTrail (tk_Audit m))"
  have init: "?Q m0" by simp
  have step: "?Q (if c then appendAudit m ActorDaemonUpgrade AuditUpdated n x else m)" if "?Q m" for c m n x
    using that sameRow_trans [OF sameRow_append]
    by (auto simp: appendAudit_def auditActions intro: quietTrail_append)
  have "\<exists>before m. auditMerge env u actor existing m0 = auditUpdate (tv_uni env) before m actor (tv_now env 5) \<and>
      tk_Enabled before = tk_Enabled existing \<and> tk_CronExpr before = tk_CronExpr existing \<and> ?Q m"
    unfolding auditMerge_def Let_def
    by (intro exI conjI, rule refl, simp, simp) (use init step in blast)+
  then show thesis using that by blast
qed

definition restarts :: "TaskUpdate \<Rightarrow> Task \<Rightarrow> bool" where
  "restarts u t \<longleftrightarrow>
     tu_Enabled u = Some True \<and> \<not> tk_Enabled t \<or> (\<exists>x. tu_CronExpr u = Some x \<and> x \<noteq> tk_CronExpr t)"

lemma auditUpdate_restart:
  assumes "tk_Enabled a \<and> \<not> tk_Enabled b \<or> tk_CronExpr b \<noteq> tk_CronExpr a" "\<not> isZero T"
    and "quietTrail (tk_Audit a)"
  shows "restartKept T (auditUpdate uni b a actor T)"
proof -
  define names where "names = changedFields uni b a"
  define action where "action = (if tk_Enabled b \<noteq> tk_Enabled a then (if tk_Enabled a then AuditEnabled else AuditDisabled)
    else AuditUpdated)"
  have names: "tk_CronExpr b \<noteq> tk_CronExpr a \<Longrightarrow> ''cron_expr'' \<in> set names"
    "tk_Enabled b \<noteq> tk_Enabled a \<Longrightarrow> ''enabled'' \<in> set names"
    by (simp_all add: names_def changedFields_def)
  then have some: "names \<noteq> []" using assms(1) by auto
  let ?e = "\<lparr>ae_At = T, ae_Actor = ParseActor actor, ae_Action = action, ae_Fields = names\<rparr>"
  have upd: "auditUpdate uni b a actor T = a\<lparr>tk_Audit := auditTrim (tk_Audit a @ [?e])\<rparr>"
    unfolding auditUpdate_def Let_def names_def [symmetric] action_def [symmetric] appendAudit_def if_not_P [OF some] ..
  have no: "\<not> routine ?e" by (simp add: action_def auditActions)
  have "scheduleRestart ?e" using assms(1,2) names by (auto simp: scheduleRestart_def action_def)
  moreover have "quietTrail (auditTrim (tk_Audit a @ [?e]))" using assms(3) no by (intro quietTrail_append) (assumption, simp only: simp_thms)
  moreover have "configEntries (tk_Audit a @ [?e]) = configEntries (tk_Audit a) @ [?e]" using no by simp
  ultimately show ?thesis
    using last_trim [of "tk_Audit a @ [?e]"] unfolding upd restartKept_def by simp
qed

lemma sameRow_fields: "sameRow a b \<Longrightarrow> tk_Enabled a = tk_Enabled b \<and> tk_CronExpr a = tk_CronExpr b \<and> tk_ID a = tk_ID b"
  by (auto simp: sameRow_iff)

lemma merge_trigger:
  "tk_Enabled (mergeTask env u t) = patched (tu_Enabled u) (tk_Enabled t)"
  "tk_CronExpr (mergeTask env u t) = patched (tu_CronExpr u) (tk_CronExpr t)"
proof -
  obtain verb cap where eq: "applyUpdate (tv_uni env) u t = (mergeFields u t)\<lparr>
      tk_TargetSession := CanonicalTargetSession (patched (tu_TargetSession u) (tk_TargetSession t)),
      tk_MaxConcurrentRuns := cap, tk_OnComplete := verb\<rparr>" by (rule applyUpdate_cases)
  show "tk_Enabled (mergeTask env u t) = patched (tu_Enabled u) (tk_Enabled t)"
    "tk_CronExpr (mergeTask env u t) = patched (tu_CronExpr u) (tk_CronExpr t)"
    by (simp_all add: mergeTask_def Let_def eq mergeFields_def split: option.splits)
qed

lemma committed_restart:
  assumes "committed env u actor t t'" "restarts u t" "quietTrail (tk_Audit t)" "\<not> isZero (tv_now env 5)"
  shows "restartKept (tv_now env 5) t' \<and> tk_ID t' = tk_ID t"
proof -
  obtain rid where t': "t' = auditMerge env u actor t
      (if rid \<noteq> [] then (mergeTask env u t)\<lparr>tk_RepoID := rid\<rparr> else mergeTask env u t)"
    using assms(1) by (auto simp: committed_def)
  define m0 where "m0 = (if rid \<noteq> [] then (mergeTask env u t)\<lparr>tk_RepoID := rid\<rparr> else mergeTask env u t)"
  have m0: "tk_Enabled m0 = patched (tu_Enabled u) (tk_Enabled t)" "tk_CronExpr m0 = patched (tu_CronExpr u) (tk_CronExpr t)"
    "tk_ID m0 = tk_ID t" "tk_Audit m0 = tk_Audit t"
    by (simp_all add: m0_def merge_trigger merge_id)
  obtain before m where last': "t' = auditUpdate (tv_uni env) before m actor (tv_now env 5)"
    "tk_Enabled before = tk_Enabled t" "tk_CronExpr before = tk_CronExpr t" "sameRow m m0"
    "quietTrail (tk_Audit m0) \<Longrightarrow> quietTrail (tk_Audit m)"
    unfolding t' m0_def [symmetric] by (rule auditMerge_last [of env u actor t m0]) blast
  note same = sameRow_fields [OF last'(4)]
  have "restartKept (tv_now env 5) t'"
    unfolding last'(1)
    by (rule auditUpdate_restart) (use assms(2-4) same m0 last'(2,3,5) in \<open>auto simp: restarts_def split: option.splits\<close>)
  moreover have "tk_ID t' = tk_ID t"
    using same m0(3) sameRow_fields [OF sameRow_auditUpdate] unfolding last'(1) by metis
  ultimately show ?thesis by blast
qed

text \<open>The operations that are no edits keep it: status reports, drop counts, recoveries and triggers.\<close>

fun routineOp :: "storeOp \<Rightarrow> bool" where
  "routineOp (SStatus env flt i at' st g) = True"
| "routineOp (SStatusTarget env flt i at' st tg) = True"
| "routineOp (SRun env flt i k at' st tg b) = True"
| "routineOp (SDrops env flt i n at') = True"
| "routineOp (SRecover env flt i armed st) = True"
| "routineOp (STrigger env flt i actor) = True"
| "routineOp _ = False"

definition holdsRestart :: "gtime \<Rightarrow> string \<Rightarrow> taskFile \<Rightarrow> bool" where
  "holdsRestart T taskID f \<longleftrightarrow> (\<exists>i. rowOf taskID (fl_rows f) = Some i \<and> restartKept T (fl_rows f ! i))"

lemma holdsRestart_edits:
  assumes "holdsRestart T taskID f" "edits other g f f'"
    and g: "\<And>cur t. t \<in> g cur \<Longrightarrow> tk_ID t = tk_ID cur \<and> (restartKept T cur \<longrightarrow> restartKept T t)"
  shows "holdsRestart T taskID f'"
proof (cases "f' = f")
  case True
  then show ?thesis using assms(1) by simp
next
  case False
  then obtain env j t where j: "rowOf other (fl_rows f) = Some j" "t \<in> g (onRow f j)" "f' = editedFile env j t f"
    using assms(2) by (auto simp: edits_def)
  obtain i where i: "rowOf taskID (fl_rows f) = Some i" "restartKept T (fl_rows f ! i)"
    using assms(1) by (auto simp: holdsRestart_def)
  note len = rowOf_some(1) [OF j(1)] rowOf_some(1) [OF i(1)]
  note gt = g [OF j(2)]
  have id: "tk_ID t = tk_ID (fl_rows f ! j)" using gt by simp
  have "restartKept T (onRow f j) = restartKept T (fl_rows f ! j)" by (rule restartKept_cong) simp
  moreover have "restartKept T (stripDerived t) = restartKept T t" by (rule restartKept_cong) simp
  moreover have "restartKept T (stripDerived (fl_rows f ! i)) = restartKept T (fl_rows f ! i)" by (rule restartKept_cong) simp
  ultimately have "restartKept T (fl_rows f' ! i)"
    using gt i(2) len by (auto simp: j(3) editedFile_rows storedRows_def nth_list_update)
  then show ?thesis using rowOf_edited [OF i(1) id len(1)] by (auto simp: holdsRestart_def j(3))
qed

lemma holdsRestart_routine: "holdsRestart T taskID f \<Longrightarrow> routineOp e \<Longrightarrow> holdsRestart T taskID (storeRun uni f e)"
proof (cases e)
  case (SStatus env flt i at' st g)
  assume h: "holdsRestart T taskID f"
  show ?thesis unfolding SStatus storeRun.simps UpdateTaskStatusIf_def
    by (rule holdsRestart_edits [OF h status_edits]) (auto simp: statusRow_def restartKept_def split: option.splits)
next
  case (SStatusTarget env flt i at' st tg)
  assume h: "holdsRestart T taskID f"
  show ?thesis unfolding SStatusTarget storeRun.simps UpdateTaskStatusForTarget_def
    by (rule holdsRestart_edits [OF h status_edits]) (auto simp: statusRow_def restartKept_def split: option.splits)
next
  case (SRun env flt i k at' st tg b)
  assume h: "holdsRestart T taskID f"
  show ?thesis unfolding SRun storeRun.simps recordRunStatusForTarget_def
    by (rule holdsRestart_edits [OF h status_edits])
      (auto simp: statusRow_def stampRun_def Let_def restartKept_def split: option.splits)
next
  case (SDrops env flt i n at')
  assume h: "holdsRestart T taskID f"
  show ?thesis unfolding SDrops storeRun.simps
    by (rule holdsRestart_edits [OF h drops_edits]) (auto simp: restartKept_def)
next
  case (SRecover env flt i armed st)
  assume h: "holdsRestart T taskID f"
  show ?thesis unfolding SRecover storeRun.simps
    by (rule holdsRestart_edits [OF h recover_edits]) (auto simp: restartKept_def)
next
  case (STrigger env flt i actor)
  assume h: "holdsRestart T taskID f"
  show ?thesis unfolding STrigger storeRun.simps
    by (rule holdsRestart_edits [OF h trigger_edits]) (auto simp: restartKept_trigger, simp add: appendAudit_def)
qed simp_all

lemma holdsRestart_run:
  "holdsRestart T taskID f \<Longrightarrow> list_all routineOp es \<Longrightarrow> holdsRestart T taskID (run_ops (storeRun uni) f es)"
  by (induction es arbitrary: f) (simp_all add: holdsRestart_routine)

end
