(* ===== verification/Health_Lemmas.thy ===== *)
theory Health_Lemmas
  imports Task_Health
begin

text \<open>
  The schedule health of a task against the occurrences of its schedule: what the walk counts, with its
  own budget and with one shared by a whole load.
\<close>

subsection \<open>The documented behaviour of a schedule\<close>

text \<open>
  \<open>Next\<close> is the first occurrence after an instant, or the zero time when there is none within the
  search horizon.
\<close>

definition followsSchedule :: "(gtime \<Rightarrow> bool) \<Rightarrow> duration \<Rightarrow> (gtime \<Rightarrow> gtime) \<Rightarrow> bool" where
  "followsSchedule occ horizon nxt \<longleftrightarrow>
     (\<forall>t. if isZero (nxt t) then \<forall>u. t < u \<and> u \<le> t + horizon \<longrightarrow> \<not> occ u
          else t < nxt t \<and> occ (nxt t) \<and> (\<forall>u. t < u \<and> u < nxt t \<longrightarrow> \<not> occ u))"

definition dueBetween :: "(gtime \<Rightarrow> bool) \<Rightarrow> gtime \<Rightarrow> gtime \<Rightarrow> gtime set" where
  "dueBetween occ a b = {u. occ u \<and> a < u \<and> u \<le> b}"

lemma dueBetween_finite [simp]: "finite (dueBetween occ a b)"
  by (rule finite_subset [of _ "{a<..b}"]) (auto simp: dueBetween_def)

lemma next_zero: "followsSchedule occ hz nxt \<Longrightarrow> isZero (nxt t) \<Longrightarrow> b \<le> t + hz \<Longrightarrow> dueBetween occ t b = {}"
  unfolding followsSchedule_def dueBetween_def by (auto dest!: spec [of _ t])

lemma next_due:
  assumes "followsSchedule occ hz nxt" "\<not> isZero (nxt t)"
  shows "t < nxt t" "occ (nxt t)" "\<And>u. t < u \<Longrightarrow> u < nxt t \<Longrightarrow> \<not> occ u"
  using assms unfolding followsSchedule_def by (auto dest!: spec [of _ t])

lemma due_none: "followsSchedule occ hz nxt \<Longrightarrow> \<not> isZero (nxt t) \<Longrightarrow> b < nxt t \<Longrightarrow> dueBetween occ t b = {}"
  using next_due(3) [of occ hz nxt t] by (force simp: dueBetween_def)

lemma due_first:
  assumes "followsSchedule occ hz nxt" "\<not> isZero (nxt t)" "nxt t \<le> b"
  shows "dueBetween occ t b = insert (nxt t) (dueBetween occ (nxt t) b)"
proof (intro set_eqI iffI)
  fix u assume "u \<in> dueBetween occ t b"
  then have u: "occ u" "t < u" "u \<le> b" by (auto simp: dueBetween_def)
  then have "\<not> u < nxt t" using next_due(3) [OF assms(1,2)] by blast
  then show "u \<in> insert (nxt t) (dueBetween occ (nxt t) b)" using u by (auto simp: dueBetween_def)
next
  fix u assume "u \<in> insert (nxt t) (dueBetween occ (nxt t) b)"
  then show "u \<in> dueBetween occ t b" using next_due(1,2) [OF assms(1,2)] assms(3) by (auto simp: dueBetween_def)
qed

lemma due_card:
  assumes "followsSchedule occ hz nxt" "\<not> isZero (nxt t)" "nxt t \<le> b"
  shows "card (dueBetween occ t b) = Suc (card (dueBetween occ (nxt t) b))"
  unfolding due_first [OF assms] by (subst card_insert_disjoint) (auto simp: dueBetween_def)

subsection \<open>The walk\<close>

lemma countLoop_stop: "isZero at' \<or> at' > now \<Longrightarrow> countLoop nxt now at' count budget = (count, False, budget)"
  by (subst countLoop.simps) simp

lemma countLoop_full:
  "\<not> (isZero at' \<or> at' > now) \<Longrightarrow> count + 1 \<ge> MaxMissedOccurrences \<or> budget - 1 \<le> 0 \<Longrightarrow>
     countLoop nxt now at' count budget = (count + 1, True, budget - 1)"
  by (subst countLoop.simps) simp

lemma countLoop_go:
  "\<not> (isZero at' \<or> at' > now) \<Longrightarrow> \<not> (count + 1 \<ge> MaxMissedOccurrences \<or> budget - 1 \<le> 0) \<Longrightarrow>
     countLoop nxt now at' count budget = countLoop nxt now (nxt at') (count + 1) (budget - 1)"
  by (subst countLoop.simps) simp

text \<open>Every step costs one of the budget; a floor means that a cap was reached.\<close>

lemma countLoop_spend:
  "countLoop nxt now at' count budget = (c, s, b) \<Longrightarrow> 0 < budget \<Longrightarrow> count < MaxMissedOccurrences \<Longrightarrow>
     c - count = budget - b \<and> count \<le> c \<and> c \<le> MaxMissedOccurrences \<and> 0 \<le> b \<and> (s \<longrightarrow> c = MaxMissedOccurrences \<or> b = 0)"
proof (induction nxt now at' count budget rule: countLoop.induct)
  case (1 nxt now at' count budget)
  show ?case
  proof (cases "isZero at' \<or> at' > now")
    case True
    then show ?thesis using 1(2-4) by (simp add: countLoop_stop)
  next
    case go: False
    show ?thesis
    proof (cases "count + 1 \<ge> MaxMissedOccurrences \<or> budget - 1 \<le> 0")
      case True
      then show ?thesis using 1(2-4) by (auto simp: countLoop_full [OF go True])
    next
      case False
      then show ?thesis using 1(1) [OF go False] 1(2-4) by (auto simp: countLoop_go [OF go False])
    qed
  qed
qed

text \<open>The count against the occurrences: exact, or a floor.\<close>

lemma countLoop_card:
  "countLoop nxt now at' count budget = (c, s, b) \<Longrightarrow> followsSchedule occ hz nxt \<Longrightarrow> at' = nxt t \<Longrightarrow> now \<le> t + hz \<Longrightarrow>
     (if s then c - count \<le> int (card (dueBetween occ t now)) else c - count = int (card (dueBetween occ t now)))"
proof (induction nxt now at' count budget arbitrary: t rule: countLoop.induct)
  case (1 nxt now at' count budget)
  show ?case
  proof (cases "isZero at' \<or> at' > now")
    case True
    then have "dueBetween occ t now = {}"
      using next_zero [OF 1(3)] due_none [OF 1(3)] 1(4,5) by blast
    then show ?thesis using True 1(2) by (simp add: countLoop_stop)
  next
    case go: False
    then have nz: "\<not> isZero (nxt t)" "nxt t \<le> now" using 1(4) by auto
    note card = due_card [OF 1(3) nz]
    show ?thesis
    proof (cases "count + 1 \<ge> MaxMissedOccurrences \<or> budget - 1 \<le> 0")
      case True
      then have "c = count + 1" "s" using 1(2) by (simp_all add: countLoop_full [OF go True])
      then show ?thesis by (simp add: card)
    next
      case False
      have "countLoop nxt now (nxt at') (count + 1) (budget - 1) = (c, s, b)"
        using 1(2) by (simp add: countLoop_go [OF go False])
      from 1(1) [OF go False this 1(3) refl] show ?thesis
        using next_due(1) [OF 1(3) nz(1)] 1(4,5) by (auto simp: card split: if_splits)
    qed
  qed
qed

text \<open>A larger budget counts at least as far, and changes no exact count.\<close>

lemma countLoop_more:
  "countLoop nxt now at' count budget = (c, s, b) \<Longrightarrow> countLoop nxt now at' count budget' = (c', s', b') \<Longrightarrow>
     0 < budget \<Longrightarrow> budget \<le> budget' \<Longrightarrow> c \<le> c' \<and> (\<not> s \<longrightarrow> c' = c \<and> \<not> s')"
proof (induction nxt now at' count budget arbitrary: budget' rule: countLoop.induct)
  case (1 nxt now at' count budget)
  show ?case
  proof (cases "isZero at' \<or> at' > now")
    case True
    then show ?thesis using 1(2,3) by (simp add: countLoop_stop)
  next
    case go: False
    show ?thesis
    proof (cases "count + 1 \<ge> MaxMissedOccurrences \<or> budget - 1 \<le> 0")
      case full: True
      then have cs: "c = count + 1" "s" using 1(2) by (simp_all add: countLoop_full [OF go full])
      show ?thesis
      proof (cases "count + 1 \<ge> MaxMissedOccurrences \<or> budget' - 1 \<le> 0")
        case True
        then show ?thesis using 1(3) cs by (simp add: countLoop_full [OF go True])
      next
        case False
        then have "countLoop nxt now (nxt at') (count + 1) (budget' - 1) = (c', s', b')"
          using 1(3) by (simp add: countLoop_go [OF go False])
        from countLoop_spend [OF this] show ?thesis using cs False by auto
      qed
    next
      case False
      then have False': "\<not> (count + 1 \<ge> MaxMissedOccurrences \<or> budget' - 1 \<le> 0)" using 1(5) by auto
      show ?thesis
        using 1(1) [OF go False, of "budget' - 1"] 1(2-5) False
        by (simp add: countLoop_go [OF go False] countLoop_go [OF go False'])
    qed
  qed
qed

text \<open>With the whole budget the count is the number of missed occurrences, cut at the cap.\<close>

lemma countOccurrences_full:
  assumes "followsSchedule occ hz nxt" "now \<le> t + hz" "countOccurrences nxt t now MaxMissedOccurrences = (c, s, b)"
  shows "c = min MaxMissedOccurrences (int (card (dueBetween occ t now))) \<and>
     (s \<longrightarrow> MaxMissedOccurrences \<le> int (card (dueBetween occ t now)))"
proof -
  have run: "countLoop nxt now (nxt t) 0 MaxMissedOccurrences = (c, s, b)"
    using assms(3) by (simp add: countOccurrences_def MaxMissedOccurrences_def)
  have spend: "c = MaxMissedOccurrences - b" "0 \<le> c" "c \<le> MaxMissedOccurrences" "s \<longrightarrow> c = MaxMissedOccurrences"
    using countLoop_spend [OF run] by (auto simp: MaxMissedOccurrences_def)
  have "if s then c \<le> int (card (dueBetween occ t now)) else c = int (card (dueBetween occ t now))"
    using countLoop_card [OF run assms(1) refl assms(2)] by (simp split: if_splits)
  then show ?thesis using spend by (auto split: if_splits)
qed

lemma countOccurrences_shared:
  assumes "countOccurrences nxt t now budget = (c, s, b)" "countOccurrences nxt t now MaxMissedOccurrences = (c', s', b')"
    and "0 \<le> budget" "budget \<le> MaxMissedOccurrences"
  shows "0 \<le> c \<and> c \<le> c' \<and> b = budget - c \<and> 0 \<le> b \<and> (\<not> s \<longrightarrow> c = c' \<and> \<not> s') \<and> (s \<longrightarrow> b = 0 \<or> c = MaxMissedOccurrences)"
proof (cases "budget \<le> 0")
  case True
  have run: "countLoop nxt now (nxt t) 0 MaxMissedOccurrences = (c', s', b')"
    using assms(2) by (simp add: countOccurrences_def MaxMissedOccurrences_def)
  have "0 \<le> c'" using countLoop_spend [OF run] by (auto simp: MaxMissedOccurrences_def)
  then show ?thesis using True assms(1,3) by (auto simp: countOccurrences_def)
next
  case False
  have run: "countLoop nxt now (nxt t) 0 budget = (c, s, b)" "countLoop nxt now (nxt t) 0 MaxMissedOccurrences = (c', s', b')"
    using False assms(1,2) by (simp_all add: countOccurrences_def MaxMissedOccurrences_def)
  show ?thesis
    using countLoop_spend [OF run(1)] countLoop_more [OF run] False assms(4) by (auto simp: MaxMissedOccurrences_def)
qed

subsection \<open>The verdict\<close>

text \<open>What is left of the verdict when the count is put aside.\<close>

definition verdictOnly :: "ScheduleHealth \<Rightarrow> ScheduleHealth" where
  "verdictOnly h = h\<lparr>sh_MissedOccurrences := 0, sh_Saturated := False\<rparr>"

lemma derive_budget:
  assumes "deriveScheduleHealth parse nxt now t budget = (h, b)" "0 \<le> budget" "budget \<le> MaxMissedOccurrences"
    and "solo = DeriveScheduleHealth parse nxt t now"
  shows "verdictOnly h = verdictOnly solo \<and> 0 \<le> sh_MissedOccurrences h \<and>
     sh_MissedOccurrences h \<le> sh_MissedOccurrences solo \<and> b = budget - sh_MissedOccurrences h \<and> 0 \<le> b \<and>
     (\<not> sh_Saturated h \<longrightarrow> h = solo) \<and>
     (sh_Saturated h \<longrightarrow> b = 0 \<or> sh_MissedOccurrences h = MaxMissedOccurrences)"
proof -
  obtain s0 b0 where solo: "deriveScheduleHealth parse nxt now t MaxMissedOccurrences = (s0, b0)" by fastforce
  then have s: "solo = s0" by (simp add: assms(4) DeriveScheduleHealth_def)
  show ?thesis
  proof (cases "\<exists>sched ref slack. \<not> (\<not> tk_Enabled t \<or> IsWatch t) \<and> UnschedulableReason parse nxt t now = [] \<and>
      schedOf parse (tk_CronExpr t) = Some sched \<and> scheduleReference t = Some ref \<and>
      slackFor (nxt sched) ref = Some slack \<and> \<not> (isZero (nxt sched (ref + slack)) \<or> nxt sched (ref + slack) > now)")
    case False
    then have "h = s0 \<and> b = budget \<and> sh_MissedOccurrences h = 0 \<and> \<not> sh_Saturated h"
      using assms(1) solo
      by (auto simp: deriveScheduleHealth_def Let_def zeroHealth_def split: if_splits option.splits)
    then show ?thesis using assms(2) by (auto simp: s)
  next
    case True
    then obtain sched ref slack where w: "\<not> (\<not> tk_Enabled t \<or> IsWatch t)" "UnschedulableReason parse nxt t now = []"
        "schedOf parse (tk_CronExpr t) = Some sched" "scheduleReference t = Some ref"
        "slackFor (nxt sched) ref = Some slack" "\<not> (isZero (nxt sched (ref + slack)) \<or> nxt sched (ref + slack) > now)"
      by blast
    obtain c sat b1 where c: "countOccurrences (nxt sched) ref now budget = (c, sat, b1)" using prod_cases3 by blast
    obtain c' sat' b1' where c': "countOccurrences (nxt sched) ref now MaxMissedOccurrences = (c', sat', b1')"
      using prod_cases3 by blast
    let ?h = "\<lambda>c sat. zeroHealth\<lparr>sh_Overdue := True, sh_MissedOccurrences := c, sh_Saturated := sat,
      sh_OldestMissedAt := nxt sched ref, sh_Slack := slack\<rparr>"
    have h: "h = ?h c sat" "b = b1" "s0 = ?h c' sat'"
      using assms(1) solo w c c' by (auto simp: deriveScheduleHealth_def Let_def)
    show ?thesis
      using countOccurrences_shared [OF c c' assms(2,3)] by (auto simp: s h verdictOnly_def zeroHealth_def)
  qed
qed

text \<open>A task of the list against the same task on its own.\<close>

definition sharesVerdict :: "ScheduleHealth \<Rightarrow> ScheduleHealth \<Rightarrow> bool" where
  "sharesVerdict h solo \<longleftrightarrow>
     verdictOnly h = verdictOnly solo \<and> sh_MissedOccurrences h \<le> sh_MissedOccurrences solo \<and>
     (sh_Saturated h \<or> h = solo)"

lemma batchLoop_shared:
  "batchLoop parse nxt now ts budget = (hs, b) \<Longrightarrow> 0 \<le> budget \<Longrightarrow> budget \<le> MaxMissedOccurrences \<Longrightarrow>
     list_all2 (\<lambda>h t. sharesVerdict h (DeriveScheduleHealth parse nxt t now)) hs ts \<and>
     sum_list (map sh_MissedOccurrences hs) = budget - b \<and> 0 \<le> b \<and> list_all (\<lambda>h. 0 \<le> sh_MissedOccurrences h) hs"
proof (induction ts arbitrary: budget hs b)
  case (Cons t ts)
  obtain h b1 where d: "deriveScheduleHealth parse nxt now t budget = (h, b1)" by fastforce
  obtain hs' b2 where r: "batchLoop parse nxt now ts b1 = (hs', b2)" by fastforce
  have out: "hs = h # hs'" "b = b2" using Cons.prems(1) d r by simp_all
  note D = derive_budget [OF d Cons.prems(2,3) refl]
  then have "0 \<le> b1" "b1 \<le> MaxMissedOccurrences" using Cons.prems(3) by auto
  from Cons.IH [OF r this] D show ?case by (auto simp: out sharesVerdict_def)
qed simp

text \<open>The window is at least the slack's floor and reaches past the first occurrence after the reference.\<close>

lemma slackFor_window:
  assumes "slackFor nxt ref = Some slack"
  shows "MinSlack \<le> slack \<and> \<not> isZero (nxt ref) \<and> nxt ref \<le> ref + slack"
  using assms by (auto simp: slackFor_def Let_def split: if_splits)

end
