(* ===== verification/Task_Props.thy ===== *)
theory Task_Props
  imports Store_Runs Health_Lemmas
begin

text \<open>
  The properties of the task store and of the schedule health: the rows stay valid, an edit changes what it
  names, the newest run keeps its outcome, the audit trail keeps what it is for, and lateness is measured
  exactly against the schedule a task is on.
\<close>

subsection \<open>What an editor means\<close>

lemma settled_cong:
  "tk_TargetSession a = tk_TargetSession b \<Longrightarrow> settledTarget a = settledTarget b"
  "settledTarget a = settledTarget b \<Longrightarrow> tk_MaxConcurrentRuns a = tk_MaxConcurrentRuns b \<Longrightarrow> tk_WatchCmd a = tk_WatchCmd b \<Longrightarrow>
     settledCap own a = settledCap own b"
  "settledTarget a = settledTarget b \<Longrightarrow> tk_OnComplete a = tk_OnComplete b \<Longrightarrow> settledVerb uni own a = settledVerb uni own b"
  by (simp_all add: settledTarget_def settledCap_def settledVerb_def)

lemma stripDerived_settled: "stripDerived (settledRow uni old cur (onRow f i)) = stripDerived (settledRow uni old cur (fl_rows f ! i))"
proof -
  let ?a = "editedRow old cur (onRow f i)" and ?b = "editedRow old cur (fl_rows f ! i)"
  have t: "settledTarget ?a = settledTarget ?b" by (rule settled_cong) (simp add: editedRow_def stripDerived_def)
  have c: "settledCap own ?a = settledCap own ?b" for own
    by (rule settled_cong(2) [OF t]) (simp_all add: editedRow_def stripDerived_def)
  have v: "settledVerb uni own ?a = settledVerb uni own ?b" for own
    by (rule settled_cong(3) [OF t]) (simp add: editedRow_def stripDerived_def)
  have h: "tk_Host (onRow f i) = tk_Host (fl_rows f ! i)" by (simp add: stripDerived_def)
  have e: "stripDerived ?a = stripDerived ?b" by (simp add: stripDerived_def editedRow_def)
  have over: "stripDerived (r\<lparr>tk_TargetSession := a, tk_MaxConcurrentRuns := b, tk_OnComplete := c, tk_Host := d\<rparr>) =
      (stripDerived r)\<lparr>tk_TargetSession := a, tk_MaxConcurrentRuns := b, tk_OnComplete := c, tk_Host := d\<rparr>" for r a b c d
    by (simp add: stripDerived_def)
  show ?thesis by (simp only: settledRow_def Let_def t c v h over e)
qed

lemma committed_edit:
  assumes "committed env (DiffTask old cur) actor ex t"
  shows "\<exists>rid es. t = (settledRow (tv_uni env) old cur ex)\<lparr>tk_RepoID := rid, tk_Audit := es\<rparr>"
proof -
  define r where "r = settledRow (tv_uni env) old cur ex"
  obtain rid where t: "t = auditMerge env (DiffTask old cur) actor ex
      (if rid \<noteq> [] then (mergeTask env (DiffTask old cur) ex)\<lparr>tk_RepoID := rid\<rparr> else mergeTask env (DiffTask old cur) ex)"
    using assms(1) by (auto simp: committed_def)
  have self: "r = r\<lparr>tk_RepoID := tk_RepoID r\<rparr>" by simp
  have "\<exists>x. mergeTask env (DiffTask old cur) ex = r\<lparr>tk_RepoID := x\<rparr>"
    unfolding mergeTask_def Let_def apply_diff r_def [symmetric] using self
    by (cases "tu_ProjectPath (DiffTask old cur)") (simp only: option.case, blast, simp only: option.case split: if_split, blast)
  then obtain y where y: "mergeTask env (DiffTask old cur) ex = r\<lparr>tk_RepoID := y\<rparr>" ..
  let ?x = "if rid \<noteq> [] then rid else y"
  have "(if rid \<noteq> [] then (mergeTask env (DiffTask old cur) ex)\<lparr>tk_RepoID := rid\<rparr> else mergeTask env (DiffTask old cur) ex) =
      r\<lparr>tk_RepoID := ?x\<rparr>" unfolding y by simp
  then have "t = auditMerge env (DiffTask old cur) actor ex (r\<lparr>tk_RepoID := ?x\<rparr>)" using t by (simp only:)
  then have x: "sameRow t (r\<lparr>tk_RepoID := ?x\<rparr>)" by (simp only: auditMerge_same)
  then obtain es where "t = (r\<lparr>tk_RepoID := ?x\<rparr>)\<lparr>tk_Audit := es\<rparr>" unfolding sameRow_iff ..
  then show ?thesis unfolding r_def by (intro exI) (simp only:)
qed

subsection \<open>A sample store\<close>

text \<open>One cron task that fires on the hour, in a store where another client has changed its prompt.\<close>

definition sampleTask :: Task where
  "sampleTask = \<lparr>tk_ID = ''t'', tk_Name = ''nightly'', tk_Prompt = ''p'', tk_CronExpr = ''0 * * * *'', tk_WatchCmd = [],
     tk_TargetSession = [], tk_MaxConcurrentRuns = 0, tk_OnComplete = [], tk_Host = [], tk_ProjectPath = ''/r'',
     tk_RepoID = ''r'', tk_SandboxOwner = [], tk_Program = ''claude'', tk_Enabled = True, tk_CreatedAt = hour + 1,
     tk_LastRunAt = None, tk_LastRunStatus = [], tk_LastRunTarget = [], tk_LastRunID = [],
     tk_LastRunStartedAt = None, tk_DroppedEvents = 0, tk_Audit = [], tk_Overdue = False, tk_MissedOccurrences = 0,
     tk_MissedOccurrencesCapped = False, tk_Unschedulable = False, tk_UnschedulableReason = [],
     tk_Unassessable = False, tk_NextRunAt = None, tk_NextRunFar = False, tk_Arming = [], tk_Ordinal = 0,
     tk_StoreGeneration = []\<rparr>"

definition sampleEnv :: taskEnv where
  "sampleEnv = \<lparr>tv_now = (\<lambda>_. 100 * hour), tv_tag = (\<lambda>_. ''g''), tv_uni = (\<lambda>s. s), tv_hosts = Some [],
     tv_repoID = (\<lambda>_. []), tv_evalSymlinks = (\<lambda>_. None), tv_sameFile = (\<lambda>_ _. None)\<rparr>"

definition hourly :: "unit \<Rightarrow> gtime \<Rightarrow> gtime" where
  "hourly s t = (let n = (t div hour + 1) * hour in if n = 0 then hour else n)"

definition onHour :: "gtime \<Rightarrow> bool" where
  "onHour u \<longleftrightarrow> u mod hour = 0 \<and> u \<noteq> 0"

lemma hourly_follows: "followsSchedule onHour hz (hourly s)"
proof -
  have h: "0 < hour" by (simp add: hour_def minute_def second_def)
  have "t < hourly s t \<and> onHour (hourly s t) \<and> (\<forall>u. t < u \<and> u < hourly s t \<longrightarrow> \<not> onHour u) \<and> hourly s t \<noteq> 0" for t
  proof -
    define q where "q = t div hour"
    have split: "q * hour + t mod hour = t" unfolding q_def by (rule div_mult_mod_eq)
    have q: "q * hour \<le> t" "t < (q + 1) * hour"
      using split pos_mod_sign [OF h, of t] pos_mod_bound [OF h, of t] by (simp_all add: distrib_right)
    have nxt: "hourly s t = (if q + 1 = 0 then 1 else q + 1) * hour"
      using h by (simp add: hourly_def q_def Let_def)
    have "\<not> onHour u" if u: "t < u" "u < hourly s t" for u
    proof
      assume "onHour u"
      then have k: "u = (u div hour) * hour" "u \<noteq> 0" using div_mult_mod_eq [of u hour] by (simp_all add: onHour_def)
      have "q * hour < (u div hour) * hour" using q(1) u(1) k(1) by simp
      then have "q < u div hour" using h by simp
      moreover have "(u div hour) * hour < (if q + 1 = 0 then 1 else q + 1) * hour" using u(2) k(1) nxt by simp
      then have "u div hour < (if q + 1 = 0 then 1 else q + 1)" using h by (simp only: mult_less_cancel_right_pos)
      ultimately have "u div hour = 0" by (simp split: if_splits)
      then show False using k by simp
    qed
    moreover have "(if q + 1 = 0 then 1 else q + 1) \<noteq> 0" by simp
    ultimately show ?thesis using q h nxt by (auto simp: onHour_def)
  qed
  then show ?thesis by (simp add: followsSchedule_def isZero_def)
qed

text \<open>The file with one task, and the same after another client changed its prompt.\<close>

definition sampleFile :: taskFile where
  "sampleFile = \<lparr>fl_rows = [sampleTask\<lparr>tk_Prompt := ''q''\<rparr>], fl_tag = ''f''\<rparr>"

lemma sample_fields [simp]:
  "tk_ID sampleTask = ''t''" "tk_Name sampleTask = ''nightly''" "tk_Prompt sampleTask = ''p''"
  "tk_CronExpr sampleTask = ''0 * * * *''" "tk_WatchCmd sampleTask = []" "tk_TargetSession sampleTask = []"
  "tk_MaxConcurrentRuns sampleTask = 0" "tk_OnComplete sampleTask = []" "tk_Host sampleTask = []"
  "tk_ProjectPath sampleTask = ''/r''" "tk_RepoID sampleTask = ''r''" "tk_SandboxOwner sampleTask = []"
  "tk_Program sampleTask = ''claude''" "tk_Enabled sampleTask = True" "tk_CreatedAt sampleTask = hour + 1"
  "tk_LastRunAt sampleTask = None" "tk_LastRunStatus sampleTask = []" "tk_LastRunTarget sampleTask = []"
  "tk_LastRunID sampleTask = []" "tk_LastRunStartedAt sampleTask = None" "tk_DroppedEvents sampleTask = 0"
  "tk_Audit sampleTask = []" "tk_Overdue sampleTask = False" "tk_MissedOccurrences sampleTask = 0"
  "tk_MissedOccurrencesCapped sampleTask = False" "tk_Unschedulable sampleTask = False"
  "tk_UnschedulableReason sampleTask = []" "tk_Unassessable sampleTask = False" "tk_NextRunAt sampleTask = None"
  "tk_NextRunFar sampleTask = False" "tk_Arming sampleTask = []" "tk_Ordinal sampleTask = 0"
  "tk_StoreGeneration sampleTask = []"
  by (simp_all add: sampleTask_def)

lemma sample_trim [simp]:
  "TrimSpace [] = []" "TrimSpace ''0 * * * *'' = ''0 * * * *''" "TrimSpace ''5 * * * *'' = ''5 * * * *''" "TrimSpace ''p'' = ''p''" "TrimSpace ''q'' = ''q''"
  by code_simp+

lemma sample_ids [simp]: "ValidateTaskID ''t'' = None"
  by code_simp

lemmas sample_eval = ValidateTrigger_def CanonicalTargetSession_def SessionLifecycle_def CanonicalOnComplete_def ToLower_def
  onCompleteVerbs IsWatch_def capApplies_def CapApplies_def CapUnavailableReason_def onCompleteApplies_def

lemmas settled_eval = settledRow_def settledTarget_def settledCap_def settledVerb_def editedRow_def ToLower_def

lemma sample_trigger: "tk_CronExpr t \<in> {''0 * * * *'', ''5 * * * *''} \<Longrightarrow> tk_WatchCmd t = [] \<Longrightarrow> tk_Prompt t \<in> {''p'', ''q''} \<Longrightarrow>
    tk_MaxConcurrentRuns t = 0 \<Longrightarrow> tk_OnComplete t = [] \<Longrightarrow> ValidateTrigger uni t = None"
  by (auto simp: sample_eval)

lemma sample_row [simp]: "rowOf ''t'' (fl_rows sampleFile) = Some 0"
  by (simp add: rowOf_def sampleFile_def)

lemma sample_row_list [simp]: "rowOf ''t'' [sampleTask\<lparr>tk_Prompt := p\<rparr>] = Some 0"
  by (simp add: rowOf_def)

lemma sample_file [simp]: "fl_rows sampleFile = [sampleTask\<lparr>tk_Prompt := ''q''\<rparr>]" "fl_tag sampleFile = ''f''"
  by (simp_all add: sampleFile_def)

lemma sample_env [simp]: "tv_now sampleEnv n = 100 * hour" "tv_uni sampleEnv s = s"
  by (simp_all add: sampleEnv_def)

text \<open>The editors of the examples change the name or the expression.\<close>

definition sampleEdit :: "string \<Rightarrow> string \<Rightarrow> TaskUpdate" where
  "sampleEdit name expr = DiffTask sampleTask (sampleTask\<lparr>tk_Name := name, tk_CronExpr := expr\<rparr>)"

lemma sample_commit:
  assumes "rowOf ''t'' (fl_rows f) = Some 0" and "Verify expect (onRow f 0) = None"
    and "tu_ProjectPath u = None" "tu_Program u = None" "tu_Host u = None"
    and "ValidateTrigger (tv_uni sampleEnv) (applyUpdate (tv_uni sampleEnv) u (onRow f 0)) = None"
  obtains t where "UpdateTaskChecked sampleEnv NoFault ''t'' u expect ActorTUI (\<lambda>_. Inr []) f =
     (Inr t, snd (UpdateTaskChecked sampleEnv NoFault ''t'' u expect ActorTUI (\<lambda>_. Inr []) f))"
proof -
  have l: "loadTasksLocked f ! 0 = onRow f 0" by (rule load_nth) (rule rowOf_some(1) [OF assms(1)])
  have m: "mergeTask sampleEnv u (onRow f 0) = applyUpdate (tv_uni sampleEnv) u (onRow f 0)"
    unfolding mergeTask_def Let_def assms(3) option.case ..
  have "\<exists>t. fst (UpdateTaskChecked sampleEnv NoFault ''t'' u expect ActorTUI (\<lambda>_. Inr []) f) = Inr t"
    unfolding UpdateTaskChecked_def sample_ids option.case assms(3,4,5) Let_def rowOf_load assms(1) l m assms(2,6)
    by (simp add: commitRow_def writeTasks_def Let_def)
  then show ?thesis using that by (metis prod.collapse)
qed

lemma sample_update:
  assumes "expr \<in> {''0 * * * *'', ''5 * * * *''}"
  obtains t where "UpdateTaskChecked sampleEnv NoFault ''t'' (sampleEdit name expr) (ExpectProject sampleTask) ActorTUI (\<lambda>_. Inr []) sampleFile =
     (Inr t, snd (UpdateTaskChecked sampleEnv NoFault ''t'' (sampleEdit name expr) (ExpectProject sampleTask) ActorTUI (\<lambda>_. Inr []) sampleFile))"
proof (rule sample_commit [OF sample_row])
  show "Verify (ExpectProject sampleTask) (onRow sampleFile 0) = None" by (simp add: Verify_def ExpectProject_def stripDerived_def)
  show "tu_ProjectPath (sampleEdit name expr) = None" "tu_Program (sampleEdit name expr) = None" "tu_Host (sampleEdit name expr) = None"
    by (simp_all add: sampleEdit_def DiffTask_def diffField_def)
  show "ValidateTrigger (tv_uni sampleEnv) (applyUpdate (tv_uni sampleEnv) (sampleEdit name expr) (onRow sampleFile 0)) = None"
    unfolding sampleEdit_def apply_diff
    using assms by (intro sample_trigger) (auto simp: settled_eval stripDerived_def)
qed (rule that)

text \<open>
  A watch task as its editor loaded it, as the editor leaves it, now delivering into one session, and the store
  where another client has set a cap and the prompt in between. The retargeted row cannot carry the cap.
\<close>

definition watchTask :: Task where
  "watchTask = sampleTask\<lparr>tk_CronExpr := [], tk_WatchCmd := ''w''\<rparr>"

definition watchRetargeted :: Task where
  "watchRetargeted = watchTask\<lparr>tk_TargetSession := ''s''\<rparr>"

definition watchFile :: taskFile where
  "watchFile = \<lparr>fl_rows = [watchTask\<lparr>tk_Prompt := ''q'', tk_MaxConcurrentRuns := 4\<rparr>], fl_tag = ''f''\<rparr>"

lemma watch_row: "rowOf ''t'' (fl_rows watchFile) = Some 0"
  by (simp add: rowOf_def watchFile_def watchTask_def)

lemma watch_trim [simp]: "TrimSpace ''w'' = ''w''" "TrimSpace ''s'' = ''s''"
  by code_simp+

lemma watch_settled:
  "settledRow uni watchTask watchRetargeted (watchTask\<lparr>tk_Prompt := ''q'', tk_MaxConcurrentRuns := 4\<rparr>) =
     watchRetargeted\<lparr>tk_Prompt := ''q''\<rparr>"
  by (simp add: settled_eval watchRetargeted_def watchTask_def sampleTask_def)

lemma watch_update:
  obtains t where "UpdateTaskChecked sampleEnv NoFault ''t'' (DiffTask watchTask watchRetargeted) (ExpectProject watchTask)
     ActorTUI (\<lambda>_. Inr []) watchFile =
   (Inr t, snd (UpdateTaskChecked sampleEnv NoFault ''t'' (DiffTask watchTask watchRetargeted) (ExpectProject watchTask)
     ActorTUI (\<lambda>_. Inr []) watchFile))"
proof (rule sample_commit [OF watch_row])
  show "Verify (ExpectProject watchTask) (onRow watchFile 0) = None"
    by (simp add: Verify_def ExpectProject_def stripDerived_def watchFile_def watchTask_def)
  show "tu_ProjectPath (DiffTask watchTask watchRetargeted) = None" "tu_Program (DiffTask watchTask watchRetargeted) = None"
    "tu_Host (DiffTask watchTask watchRetargeted) = None"
    by (simp_all add: watchRetargeted_def DiffTask_def diffField_def)
  show "ValidateTrigger (tv_uni sampleEnv)
      (applyUpdate (tv_uni sampleEnv) (DiffTask watchTask watchRetargeted) (onRow watchFile 0)) = None"
    unfolding apply_diff
    by (simp add: settled_eval sample_eval stripDerived_def watchFile_def watchRetargeted_def watchTask_def)
qed (rule that)

subsection \<open>Edits\<close>

text \<open>C14. An edit never clobbers: whenever the patch of an editor that loaded \<open>old\<close> and ended at \<open>cur\<close> commits
  on a row of the store, the stored row has the editor's value in every field the editor changed and the
  stored value, whatever another client wrote in between, in every other, settled as \<open>settledRow\<close> says: a
  blank target and the verb \<^verbatim>\<open>keep\<close> are written as none, verbs in lower case, a host the editor set
  without the blanks around it, and a cap or verb the editor did not set is dropped exactly where the edited
  row cannot carry it. Only the audit trail and the derived repository id move besides, and no other row of
  the store changes.
\<close>

theorem edit_never_clobbers:
  assumes "UpdateTaskChecked env flt taskID (DiffTask old cur) expect actor validate f = (Inr t, f')"
    and "rowOf taskID (fl_rows f) = Some i"
  shows "\<exists>rid es. fl_rows f' =
    (map stripDerived (fl_rows f))
      [i := stripDerived ((settledRow (tv_uni env) old cur (fl_rows f ! i))\<lparr>tk_RepoID := rid, tk_Audit := es\<rparr>)]"
proof -
  obtain t0 where t0: "committed env (DiffTask old cur) actor (onRow f i) t0" "f' = editedFile env i t0 f"
    using update_result [OF assms(1)] assms(2) by auto
  from committed_edit [OF t0(1)] obtain rid es
    where t: "t0 = (settledRow (tv_uni env) old cur (onRow f i))\<lparr>tk_RepoID := rid, tk_Audit := es\<rparr>" by blast
  have strip: "stripDerived (r\<lparr>tk_RepoID := rid, tk_Audit := es\<rparr>) = (stripDerived r)\<lparr>tk_RepoID := rid, tk_Audit := es\<rparr>" for r
    by (simp add: stripDerived_def)
  have "stripDerived t0 = stripDerived ((settledRow (tv_uni env) old cur (fl_rows f ! i))\<lparr>tk_RepoID := rid, tk_Audit := es\<rparr>)"
    by (simp only: t strip stripDerived_settled)
  then have "fl_rows f' = (storedRows f)
      [i := stripDerived ((settledRow (tv_uni env) old cur (fl_rows f ! i))\<lparr>tk_RepoID := rid, tk_Audit := es\<rparr>)]"
    by (simp only: t0(2) editedFile_rows)
  then show ?thesis unfolding storedRows_def by blast
qed

theorem edit_never_clobbers_witness:
  "\<exists>rid es. fl_rows (snd (UpdateTaskChecked sampleEnv NoFault ''t'' (DiffTask watchTask watchRetargeted)
     (ExpectProject watchTask) ActorTUI (\<lambda>_. Inr []) watchFile)) =
   [stripDerived (watchRetargeted\<lparr>tk_Prompt := ''q'', tk_RepoID := rid, tk_Audit := es\<rparr>)]"
proof -
  have rows: "fl_rows watchFile = [watchTask\<lparr>tk_Prompt := ''q'', tk_MaxConcurrentRuns := 4\<rparr>]" by (simp add: watchFile_def)
  show ?thesis
    by (rule watch_update)
       (use edit_never_clobbers [OF _ watch_row, of sampleEnv NoFault watchTask watchRetargeted] in
         \<open>simp add: rows watch_settled\<close>)
qed

text \<open>C15. The rows of the store stay sound: from a file whose rows have distinct valid ids, triggers that keep
  the contract and bounded trails, every sequence of store operations, with faults at every place, leaves
  such a file.
\<close>

theorem store_rows_sound:
  assumes "distinct (map tk_ID (fl_rows f))"
    and "\<forall>t\<in>set (fl_rows f). ValidateTaskID (tk_ID t) = None \<and> ValidateTrigger uni t = None \<and> length (tk_Audit t) \<le> AuditLimit"
    and "g = run_ops (storeRun uni) f es"
  shows "distinct (map tk_ID (fl_rows g)) \<and>
    (\<forall>t\<in>set (fl_rows g). ValidateTaskID (tk_ID t) = None \<and> ValidateTrigger uni t = None \<and> length (tk_Audit t) \<le> AuditLimit)"
proof -
  have "storeInv uni f" using assms(1,2) by (simp add: storeInv_def list_all_iff goodRow_def)
  then have "storeInv uni g" unfolding assms(3) by (rule taskStore.inv_run)
  then show ?thesis by (simp add: storeInv_def list_all_iff goodRow_def)
qed

theorem store_rows_sound_witness:
  "let g = run_ops (storeRun (\<lambda>s. s)) sampleFile
     [STrigger sampleEnv NoFault ''t'' ActorCLI, SAdd sampleEnv FailWrite sampleTask ActorCLI (\<lambda>_. None)]
   in distinct (map tk_ID (fl_rows g)) \<and>
     list_all (\<lambda>t. ValidateTaskID (tk_ID t) = None \<and> ValidateTrigger (\<lambda>s. s) t = None \<and> length (tk_Audit t) \<le> AuditLimit)
       (fl_rows g)"
  unfolding Let_def list_all_iff
  by (rule store_rows_sound [OF _ _ refl]) (simp_all add: sample_trigger)

subsection \<open>Runs\<close>

text \<open>C16. The newest run keeps its outcome: for a task without a recorded run, after the reports of any runs in
  any order, with faults, the row names the latest run among those that landed, its status is one that run
  reported, and it reads started only when that run reported nothing else.
\<close>

theorem newest_run_wins:
  assumes "ValidateTaskID taskID = None" "rowState taskID f = Some init" "RunKey_IsZero (fst init)"
    and "landed ws \<noteq> []" "oneStart (fst ` set (landed ws))" "\<forall>w\<in>set (landed ws). snd w \<noteq> []"
  shows "\<exists>k st. rowState taskID (run_ops (storeRun uni) f (map (reportOp taskID) ws)) = Some (k, st) \<and>
    (k, st) \<in> set (landed ws) \<and> (\<forall>w\<in>set (landed ws). fst w = k \<or> keyLess (fst w) k) \<and>
    (st = RunStartedStatus \<longrightarrow> (\<forall>w\<in>set (landed ws). fst w = k \<longrightarrow> snd w = RunStartedStatus))"
proof -
  have "\<forall>w\<in>set (landed ws). rk_ID (fst w) \<noteq> []" using assms(5) by (auto simp: oneStart_def)
  from reports_rowState [OF assms(1,2) this] runWrites_newest [OF assms(4-6,3)] show ?thesis
    by (cases "fold (\<lambda>w cur. runWrite cur w) (landed ws) init") (auto simp: newestRun_def)
qed

definition sampleReports :: "runReport list" where
  "sampleReports =
     [(sampleEnv, NoFault, \<lparr>rk_ID = ''b'', rk_StartedAt = 2 * hour\<rparr>, None, RunStartedStatus, [], False),
      (sampleEnv, NoFault, \<lparr>rk_ID = ''a'', rk_StartedAt = hour\<rparr>, None, ''done'', [], False)]"

theorem newest_run_wins_witness:
  "\<exists>k st. rowState ''t'' (run_ops (storeRun (\<lambda>s. s)) sampleFile (map (reportOp ''t'') sampleReports)) = Some (k, st) \<and>
    (k, st) \<in> set (landed sampleReports)"
proof -
  have "rowState ''t'' sampleFile = Some (runState (sampleTask\<lparr>tk_Prompt := ''q''\<rparr>))" by (simp add: rowState_def)
  moreover have "oneStart (fst ` set (landed sampleReports))"
    "\<forall>w\<in>set (landed sampleReports). snd w \<noteq> []" "landed sampleReports \<noteq> []"
    by (simp_all add: landed_def sampleReports_def oneStart_def RunStartedStatus_def)
  moreover have "RunKey_IsZero (fst (runState (sampleTask\<lparr>tk_Prompt := ''q''\<rparr>)))"
    by (simp add: runState_def lastRunKey_def RunKey_IsZero_def isZero_def)
  ultimately show ?thesis using newest_run_wins [OF sample_ids, of sampleFile _ sampleReports "\<lambda>s. s"] by blast
qed

subsection \<open>The audit trail\<close>

text \<open>C19. The audit trail is bounded and keeps what it is for: an append leaves at most twenty entries, and among
  the entries that are no triggers exactly the newest twenty, in order, so no number of triggers pushes
  a change of the task out.
\<close>

theorem audit_keeps_config:
  "let before = tk_Audit t; after = tk_Audit (appendAudit t actor action names at');
       entry = \<lparr>ae_At = at', ae_Actor = ParseActor actor, ae_Action = action, ae_Fields = names\<rparr>;
       changes = configEntries before @ (if action = AuditTriggered then [] else [entry])
   in length after = min AuditLimit (Suc (length before)) \<and>
      configEntries after = drop (length changes - AuditLimit) changes"
  by (auto simp: appendAudit_def auditTrim_spec Let_def)

text \<open>C18. A restart of the schedule is remembered: after a patch that enables a task or changes its expression,
  and any reports, drops, recoveries and triggers on any tasks, the task's lateness is measured from the
  patch or later, and an overdue verdict names no occurrence from before it.
\<close>

theorem restart_remembered:
  assumes "UpdateTaskChecked env flt taskID u expect actor validate f = (Inr t, f')"
    and "rowOf taskID (fl_rows f) = Some i" "restarts u (fl_rows f ! i)" "quietTrail (tk_Audit (fl_rows f ! i))"
    and "0 < tv_now env 5" "list_all routineOp es"
    and "\<And>sched. followsSchedule (occ sched) hz (nxt sched)"
  shows "\<exists>t'. tk_ID t' = taskID \<and> t' \<in> set (fl_rows (run_ops (storeRun uni) f' es)) \<and>
    (\<exists>ref. scheduleReference t' = Some ref \<and> tv_now env 5 \<le> ref) \<and>
    (sh_Overdue (DeriveScheduleHealth parse nxt t' now) \<longrightarrow>
     tv_now env 5 < sh_OldestMissedAt (DeriveScheduleHealth parse nxt t' now))"
proof -
  obtain t0 where t0: "committed env u actor (onRow f i) t0" "f' = editedFile env i t0 f"
    using update_result [OF assms(1)] assms(2) by auto
  note len = rowOf_some(1) [OF assms(2)]
  have "restarts u (onRow f i)" "quietTrail (tk_Audit (onRow f i))"
    using assms(3,4) by (simp_all add: restarts_def)
  from committed_restart [OF t0(1) this] assms(5)
  have kept: "restartKept (tv_now env 5) t0" "tk_ID t0 = tk_ID (fl_rows f ! i)" by (simp_all add: isZero_def)
  have "restartKept (tv_now env 5) (fl_rows f' ! i)"
    using kept(1) len restartKept_cong [of "stripDerived t0" t0] by (simp add: t0(2) editedFile_rows storedRows_def)
  then have "holdsRestart (tv_now env 5) taskID f'"
    using rowOf_edited [OF assms(2) kept(2) len] by (auto simp: holdsRestart_def t0(2))
  from holdsRestart_run [OF this assms(6), of uni] obtain j
    where j: "rowOf taskID (fl_rows (run_ops (storeRun uni) f' es)) = Some j"
      "restartKept (tv_now env 5) (fl_rows (run_ops (storeRun uni) f' es) ! j)" by (auto simp: holdsRestart_def)
  define t' where "t' = fl_rows (run_ops (storeRun uni) f' es) ! j"
  have t': "tk_ID t' = taskID" "t' \<in> set (fl_rows (run_ops (storeRun uni) f' es))"
    using rowOf_some [OF j(1)] by (simp_all add: t'_def)
  from restartKept_reference [OF j(2) [folded t'_def] assms(5)] obtain ref
    where ref: "scheduleReference t' = Some ref" "tv_now env 5 \<le> ref" .
  have "tv_now env 5 < sh_OldestMissedAt (DeriveScheduleHealth parse nxt t' now)"
    if o: "sh_Overdue (DeriveScheduleHealth parse nxt t' now)"
  proof -
    obtain sched slack where s: "slackFor (nxt sched) ref = Some slack"
      "sh_OldestMissedAt (DeriveScheduleHealth parse nxt t' now) = nxt sched ref"
      using o ref(1)
      by (auto simp: DeriveScheduleHealth_def deriveScheduleHealth_def Let_def zeroHealth_def split: if_splits option.splits prod.splits)
    have "\<not> isZero (nxt sched ref)" using slackFor_window [OF s(1)] by blast
    from next_due(1) [OF assms(7) this] show ?thesis using ref(2) s(2) by simp
  qed
  then show ?thesis using ref t' by blast
qed

theorem restart_remembered_witness:
  "\<exists>t'. tk_ID t' = ''t'' \<and>
    t' \<in> set (fl_rows (run_ops (storeRun (\<lambda>s. s)) (snd (UpdateTaskChecked sampleEnv NoFault ''t'' (sampleEdit ''n'' ''5 * * * *'')
      (ExpectProject sampleTask) ActorTUI (\<lambda>_. Inr []) sampleFile)) [STrigger sampleEnv NoFault ''t'' ActorCLI])) \<and>
    (\<exists>ref. scheduleReference t' = Some ref \<and> 100 * hour \<le> ref)"
proof -
  have e: "''5 * * * *'' \<in> {''0 * * * *'', ''5 * * * *''}" by simp
  obtain t where u: "UpdateTaskChecked sampleEnv NoFault ''t'' (sampleEdit ''n'' ''5 * * * *'') (ExpectProject sampleTask) ActorTUI (\<lambda>_. Inr []) sampleFile =
     (Inr t, snd (UpdateTaskChecked sampleEnv NoFault ''t'' (sampleEdit ''n'' ''5 * * * *'') (ExpectProject sampleTask) ActorTUI (\<lambda>_. Inr []) sampleFile))"
    using sample_update [OF e] .
  have r: "restarts (sampleEdit ''n'' ''5 * * * *'') (fl_rows sampleFile ! 0)" "quietTrail (tk_Audit (fl_rows sampleFile ! 0))"
    by (simp_all add: restarts_def sampleEdit_def DiffTask_def diffField_def quietTrail_def)
  have n: "0 < tv_now sampleEnv 5" by (simp add: hour_def minute_def second_def)
  show ?thesis
    using restart_remembered [OF u sample_row r n _ hourly_follows, of "[STrigger sampleEnv NoFault ''t'' ActorCLI]" "\<lambda>s. s"]
    by (simp only: routineOp.simps list.pred_inject sample_env) blast
qed

subsection \<open>Lateness\<close>

text \<open>C17. Lateness is exact: for an enabled cron task whose schedule has a next occurrence and whose reference is
  within the search horizon, the verdict is overdue exactly when an occurrence lies past the reference and
  the slack and not after now; then the first occurrence after the reference is the oldest missed one, at
  least two were missed, and the count is their number cut at the cap.
\<close>

theorem overdue_exact:
  assumes "followsSchedule occ hz (nxt sched)" "schedOf parse (tk_CronExpr t) = Some sched"
    and "tk_Enabled t" "\<not> IsWatch t" "TrimSpace (tk_CronExpr t) \<noteq> []" "\<not> isZero (nxt sched now)"
    and "scheduleReference t = Some ref" "slackFor (nxt sched) ref = Some slack" "now \<le> ref + hz"
    and "h = DeriveScheduleHealth parse nxt t now" "missed = {u. occ u \<and> ref < u \<and> u \<le> now}"
  shows "\<not> sh_Unschedulable h \<and> \<not> sh_Unassessable h \<and> MinSlack \<le> slack \<and>
    (sh_Overdue h \<longleftrightarrow> (\<exists>u. occ u \<and> ref + slack < u \<and> u \<le> now)) \<and>
    (sh_Overdue h \<longrightarrow>
       sh_OldestMissedAt h \<in> missed \<and> (\<forall>u\<in>missed. sh_OldestMissedAt h \<le> u) \<and> 2 \<le> card missed \<and>
       sh_MissedOccurrences h = min MaxMissedOccurrences (int (card missed)) \<and>
       (sh_Saturated h \<longrightarrow> MaxMissedOccurrences \<le> int (card missed)))"
proof -
  note S = assms(1)
  note win = slackFor_window [OF assms(8)]
  have missed: "missed = dueBetween occ ref now" by (simp add: assms(11) dueBetween_def)
  have hz: "0 < slack" using win by (simp add: MinSlack_def minute_def second_def)
  have reason: "UnschedulableReason parse nxt t now = []"
    using assms(2-6) by (simp add: UnschedulableReason_def)
  let ?old = "nxt sched (ref + slack)"
  obtain c s b where c: "countOccurrences (nxt sched) ref now MaxMissedOccurrences = (c, s, b)" using prod_cases3 by blast
  have h: "h = (if isZero ?old \<or> ?old > now then zeroHealth\<lparr>sh_Slack := slack\<rparr>
    else zeroHealth\<lparr>sh_Overdue := True, sh_MissedOccurrences := c, sh_Saturated := s,
      sh_OldestMissedAt := nxt sched ref, sh_Slack := slack\<rparr>)"
    using assms(3,4) by (simp add: assms(10) DeriveScheduleHealth_def deriveScheduleHealth_def reason assms(2,7,8) Let_def c)
  have late: "(\<exists>u. occ u \<and> ref + slack < u \<and> u \<le> now) \<longleftrightarrow> \<not> (isZero ?old \<or> ?old > now)"
  proof
    assume "\<exists>u. occ u \<and> ref + slack < u \<and> u \<le> now"
    then have "dueBetween occ (ref + slack) now \<noteq> {}" by (auto simp: dueBetween_def)
    then show "\<not> (isZero ?old \<or> ?old > now)"
      using next_zero [OF S, of "ref + slack" now] due_none [OF S, of "ref + slack" now] assms(9) hz by force
  next
    assume "\<not> (isZero ?old \<or> ?old > now)"
    then show "\<exists>u. occ u \<and> ref + slack < u \<and> u \<le> now" using next_due(1,2) [OF S, of "ref + slack"] by force
  qed
  show ?thesis
  proof (cases "isZero ?old \<or> ?old > now")
    case True
    then show ?thesis using win late by (simp add: h zeroHealth_def)
  next
    case False
    note old = next_due(1,2) [OF S, of "ref + slack"]
    have fst': "\<not> isZero (nxt sched ref)" using win by blast
    have le: "nxt sched ref \<le> ref + slack" using win by blast
    then have lt: "nxt sched ref < ?old" "nxt sched ref \<le> now" using old False by auto
    have "?old \<in> dueBetween occ (nxt sched ref) now" using lt old False by (auto simp: dueBetween_def)
    then have "0 < card (dueBetween occ (nxt sched ref) now)" by (auto simp: card_gt_0_iff)
    then have two: "2 \<le> card missed" unfolding missed due_card [OF S fst' lt(2)] by simp
    have "nxt sched ref \<in> missed" "\<forall>u\<in>missed. nxt sched ref \<le> u"
      unfolding missed using next_due [OF S fst'] lt(2) by (auto simp: dueBetween_def) (meson not_le)
    then show ?thesis
      using False two win late countOccurrences_full [OF S assms(9) c] by (simp add: h zeroHealth_def missed)
  qed
qed

theorem overdue_exact_witness:
  "let h = DeriveScheduleHealth (\<lambda>_. Inr () :: unit + unit) hourly sampleTask (5 * hour + 1)
   in sh_Overdue h \<and> sh_OldestMissedAt h = 2 * hour \<and> sh_MissedOccurrences h = 4"
proof -
  let ?now = "5 * hour + 1"
  have h: "hour = 3600000000000" by (simp add: hour_def minute_def second_def)
  have ref: "scheduleReference sampleTask = Some (hour + 1)"
    by (simp add: scheduleReference_def lastScheduleRestartAt_def isZero_def h)
  have slack: "slackFor (hourly ()) (hour + 1) = Some hour"
    by (simp add: slackFor_def hourly_def isZero_def h MinSlack_def minute_def second_def)
  have sched: "schedOf (\<lambda>_. Inr () :: unit + unit) (tk_CronExpr sampleTask) = Some ()"
    unfolding sample_fields by code_simp
  have missed: "{u. onHour u \<and> hour + 1 < u \<and> u \<le> ?now} = {2 * hour, 3 * hour, 4 * hour, 5 * hour}"
    by (auto simp: onHour_def h)
  have "card {2 * hour, 3 * hour, 4 * hour, 5 * hour} = 4" by (simp add: h)
  moreover have "\<not> isZero (hourly () ?now)" by (simp add: hourly_def isZero_def h)
  moreover have "\<exists>u. onHour u \<and> hour + 1 + hour < u \<and> u \<le> ?now" by (rule exI [of _ "5 * hour"]) (simp add: onHour_def h)
  moreover have "x = 2 * hour" if "x \<in> {2 * hour, 3 * hour, 4 * hour, 5 * hour}" "\<forall>u\<in>{2 * hour, 3 * hour, 4 * hour, 5 * hour}. x \<le> u" for x
    using that by (auto simp: h)
  ultimately show ?thesis
    using overdue_exact [where nxt = hourly and t = sampleTask and now = ?now and sched = "()",
        OF hourly_follows [of "100 * hour"] sched _ _ _ _ ref slack _ refl missed [symmetric]]
    by (auto simp: h IsWatch_def MaxMissedOccurrences_def Let_def)
qed

text \<open>C21. One load costs what one derivation may: over a whole list of tasks the walks together take at most ten
  thousand steps, exactly the sum of the counts they report, and sharing the budget changes no verdict: each
  task has the verdict it has on its own, and a count that is exact or marked as a floor below its own.
\<close>

theorem shared_budget:
  "case deriveScheduleHealthBatch parse nxt ts now of (hs, spent) \<Rightarrow>
     spent = sum_list (map sh_MissedOccurrences hs) \<and> 0 \<le> spent \<and> spent \<le> MaxMissedOccurrences \<and>
     length hs = length ts \<and>
     list_all2 (\<lambda>h t. let solo = DeriveScheduleHealth parse nxt t now in
       verdictOnly h = verdictOnly solo \<and> sh_MissedOccurrences h \<le> sh_MissedOccurrences solo \<and>
       (sh_Saturated h \<or> h = solo)) hs ts"
proof -
  obtain hs b where run: "batchLoop parse nxt now ts MaxMissedOccurrences = (hs, b)" by fastforce
  have B: "list_all2 (\<lambda>h t. sharesVerdict h (DeriveScheduleHealth parse nxt t now)) hs ts"
    "sum_list (map sh_MissedOccurrences hs) = MaxMissedOccurrences - b" "0 \<le> b" "list_all (\<lambda>h. 0 \<le> sh_MissedOccurrences h) hs"
    using batchLoop_shared [OF run] by (auto simp: MaxMissedOccurrences_def)
  have "0 \<le> sum_list (map sh_MissedOccurrences hs)" using B(4) by (intro sum_list_nonneg) (auto simp: list_all_iff)
  then show ?thesis
    using B(1-3) by (auto simp: deriveScheduleHealthBatch_def run Let_def list_all2_conv_all_nth sharesVerdict_def)
qed

subsection \<open>Live arming\<close>

lemma collectLive_spec:
  "collectLive obs live con = (live', con') \<Longrightarrow>
     live' key = (case live key of None \<Rightarrow> find (\<lambda>ob. identifyRow ob = Some key) obs | Some x \<Rightarrow> Some x) \<and>
     (key \<in> con' \<longleftrightarrow> key \<in> con \<or>
        (if live key = None then 2 else 1) \<le> length (filter (\<lambda>ob. identifyRow ob = Some key) obs))"
proof (induction obs live con rule: collectLive.induct)
  case (1 live con)
  then show ?case by (auto split: option.splits)
next
  case (2 ob obs live con)
  show ?case
  proof (cases "identifyRow ob")
    case None
    then show ?thesis using 2(1) [OF None] 2(4) by (simp split: option.splits)
  next
    case (Some k)
    show ?thesis
    proof (cases "live k \<noteq> None")
      case True
      have "collectLive obs live (insert k con) = (live', con')" using 2(4) Some True by simp
      from 2(2) [OF Some True this] show ?thesis using Some True by (auto split: option.splits)
    next
      case False
      have "collectLive obs (live(k \<mapsto> ob)) con = (live', con')" using 2(4) Some False by simp
      from 2(3) [OF Some False this] show ?thesis using Some False by (auto split: option.splits)
    qed
  qed
qed

text \<open>C20. Arming is never fabricated: a row read from the store shows an arming state only when the observed list
  holds exactly one row with the same number of the same version of the file, with the same trigger, and
  then it shows that row's state and next run.
\<close>

theorem arming_never_fabricated:
  assumes "t \<in> set (ApplyLiveArming (LoadTasks parse nxt f now) observed)" "tk_Arming t \<noteq> ArmingUnknown"
  shows "\<exists>ob. filter (\<lambda>x. identifyRow x = Some (fl_tag f, tk_Ordinal t)) observed = [ob] \<and> sameTrigger ob t \<and>
    tk_Arming t = tk_Arming ob \<and> tk_NextRunAt t = tk_NextRunAt ob"
proof -
  let ?ts = "LoadTasks parse nxt f now"
  have unknown: "tk_Arming r = ArmingUnknown \<and> tk_StoreGeneration r = fl_tag f" if "r \<in> set ?ts" for r
    using that by (auto simp: LoadTasks_def stampRowIdentity_def WithScheduleHealth_def stampHealth_def set_conv_nth)
  have ne: "?ts \<noteq> []" "observed \<noteq> []"
    using assms unknown by (auto simp: ApplyLiveArming_def split: if_splits)
  obtain live con where c: "collectLive observed Map.empty {} = (live, con)" by fastforce
  then obtain r where r: "r \<in> set ?ts" "t = armRow live con r" using assms(1) ne by (auto simp: ApplyLiveArming_def)
  have "t \<noteq> r" using assms(2) unknown [OF r(1)] by auto
  then obtain key ob where k: "identifyRow r = Some key" "key \<notin> con" "live key = Some ob" "sameTrigger ob r"
    "t = r\<lparr>tk_Arming := tk_Arming ob, tk_NextRunAt := tk_NextRunAt ob, tk_NextRunFar := tk_NextRunFar ob\<rparr>"
    using r(2) by (auto simp: armRow_def split: option.splits if_splits)
  have key: "key = (fl_tag f, tk_Ordinal t)"
    using k(1) unknown [OF r(1)] by (auto simp: identifyRow_def k(5) split: if_splits)
  let ?same = "filter (\<lambda>x. identifyRow x = Some key) observed"
  have fnd: "find (\<lambda>x. identifyRow x = Some key) observed = Some ob" "length ?same < 2"
    using collectLive_spec [OF c, of key] k(2,3) by auto
  have "\<exists>xs. filter P xs' = x # xs" if "find P xs' = Some x" for P x and xs' :: "Task list"
    using that by (induction xs') (auto split: if_splits)
  from this [OF fnd(1)] obtain xs where "?same = ob # xs" by blast
  then have "?same = [ob]" using fnd(2) by (cases xs) auto
  moreover have "sameTrigger ob t = sameTrigger ob r" by (simp add: k(5) sameTrigger_def IsWatch_def)
  ultimately show ?thesis using k(4) by (auto simp: key k(5))
qed

definition sampleObserved :: "Task list" where
  "sampleObserved = [sampleTask\<lparr>tk_Ordinal := 1, tk_StoreGeneration := ''f'', tk_Arming := ArmingArmed\<rparr>]"

theorem arming_never_fabricated_witness:
  "let t = hd (ApplyLiveArming (LoadTasks (\<lambda>_. Inr () :: unit + unit) hourly sampleFile 0) sampleObserved)
   in \<exists>ob. filter (\<lambda>x. identifyRow x = Some (''f'', tk_Ordinal t)) sampleObserved = [ob] \<and> sameTrigger ob t \<and>
     tk_Arming t = tk_Arming ob \<and> tk_NextRunAt t = tk_NextRunAt ob"
proof -
  let ?load = "LoadTasks (\<lambda>_. Inr () :: unit + unit) hourly sampleFile 0"
  have "\<exists>h. DeriveScheduleHealthBatch (\<lambda>_. Inr () :: unit + unit) hourly (fl_rows sampleFile) 0 = [h]"
    by (simp add: DeriveScheduleHealthBatch_def deriveScheduleHealthBatch_def Let_def split_beta)
  then obtain h where "DeriveScheduleHealthBatch (\<lambda>_. Inr () :: unit + unit) hourly (fl_rows sampleFile) 0 = [h]" ..
  then have load: "?load = [(stampHealth h (sampleTask\<lparr>tk_Prompt := ''q''\<rparr>))\<lparr>tk_Ordinal := 1, tk_StoreGeneration := ''f''\<rparr>]"
    by (simp add: LoadTasks_def WithScheduleHealth_def stampRowIdentity_def)
  have "tk_Arming (hd (ApplyLiveArming ?load sampleObserved)) = ArmingArmed" "ApplyLiveArming ?load sampleObserved \<noteq> []"
    by (simp_all add: load ApplyLiveArming_def sampleObserved_def identifyRow_def armRow_def sameTrigger_def IsWatch_def
      stampHealth_def unstampedOrdinal_def)
  then show ?thesis
    using arming_never_fabricated [of "hd (ApplyLiveArming ?load sampleObserved)" "\<lambda>_. Inr () :: unit + unit" hourly sampleFile 0 sampleObserved]
    by (simp add: ArmingArmed_def ArmingUnknown_def Let_def)
qed

end
