(* ===== verification/Spec2Isabelle.thy ===== *)
theory Spec2Isabelle
  imports Session_Props Decide_Props Rails_Props Queue_Props Frame_Codec Pty_Props Cron_Props Report_Props Event_Log_Props Rate_Props Layout_Props Task_Props
begin

text \<open>
  A verification development for Agent Factory, a daemon that runs coding agents in terminal sessions.

  \<^bold>\<open>The program.\<close> The daemon keeps one \<^verbatim>\<open>Instance\<close> per session (\<^verbatim>\<open>src/session\<close>). Its lifecycle moves
  through one chokepoint, \<^verbatim>\<open>Transition\<close>; the pane of a session is streamed to its clients by the PTY
  broker in the frames of \<^verbatim>\<open>src/agentproto\<close>. Work comes in from schedules (\<^verbatim>\<open>src/task\<close>,
  \<^verbatim>\<open>src/schedule\<close>; the tasks and their runs are rows of one file) and from watch scripts whose events wait in a durable backlog
  (\<^verbatim>\<open>src/daemon/eventqueue.go\<close>). When an agent account hits its provider's usage limit, the handoff
  machinery (\<^verbatim>\<open>src/handoff\<close>, \<^verbatim>\<open>src/internal/handoffengine\<close>) decides from the accounts' own usage
  records whether the session should continue on another account, and logs and reports what it would do.
  The development models these parts; the rest of the program drives tmux, git, containers, HTTP and a
  terminal UI around them.

  \<^bold>\<open>Theories, in dependency order.\<close>

  \<^item> \<open>AF_Prelude\<close>: instants and durations as integers (nanoseconds), Go maps as association lists, runs of
    a deterministic component, and the interfaces \<open>guarded_ops\<close>, \<open>invariant_ops\<close>, \<open>monotone_ops\<close>,
    \<open>codec\<close> and \<open>exact_codec\<close>. \<open>Go_Strings\<close> and \<open>Go_Utf8\<close> are the parts of Go's \<^verbatim>\<open>strings\<close>, \<^verbatim>\<open>strconv\<close>,
    \<^verbatim>\<open>unicode\<close> and \<^verbatim>\<open>utf8\<close> the code calls, on strings as lists of bytes. \<open>Labelled_Systems\<close> holds runs
    of a step relation and the contract of a forward simulation.
  \<^item> Sessions. \<open>Session_State\<close> is the two-axis state of \<^verbatim>\<open>liveness.go\<close> and \<^verbatim>\<open>status.go\<close>, the part of
    \<^verbatim>\<open>Instance\<close> the lifecycle reads and writes, attention requests (\<^verbatim>\<open>attention.go\<close>), the state epoch
    and the task-run gate (\<^verbatim>\<open>run_gate.go\<close>, \<^verbatim>\<open>idle_reason.go\<close>). \<open>Session_Limit\<close> is
    \<^verbatim>\<open>limit_liveness.go\<close>. \<open>Session_Transition\<close> is \<^verbatim>\<open>transition.go\<close>: every event constructor, the
    table of allowed edges row by row and \<^verbatim>\<open>transitionLocked\<close>, and with it the setters beside the
    chokepoint: attention, the kill tombstone of \<^verbatim>\<open>instance_accessors.go\<close> and the mirrors of a client's
    row. A method that runs under the instance
    mutex is one function from record to record. \<open>Session_Lemmas\<close> inverts the chokepoint, shows what
    each part of it leaves alone and has one datatype of all modelled operations with what holds along their
    sequences; \<open>Session_Props\<close> has the properties. The settlements of an account swap and the reattach of
    a sandbox, which write Running or LimitReached themselves (\<^verbatim>\<open>handoff_account.go\<close>,
    \<^verbatim>\<open>reattach_sandbox.go\<close>), and the rows a loader builds from disk are not among those operations.
  \<^item> Account handoff. \<open>Handoff_Config\<close> is \<^verbatim>\<open>src/config/account_handoff.go\<close>. \<open>Handoff_Decide\<close> is
    \<^verbatim>\<open>decide.go\<close>, phase by phase; \<open>Decide_Lemmas\<close> shows each phase equal to a plain predicate and the
    insertion sort equal to the library's sort by a lexicographic key. \<open>Handoff_Store\<close> and
    \<open>Handoff_Rails\<close> are \<^verbatim>\<open>state.go\<close>, \<^verbatim>\<open>store_io.go\<close> and \<^verbatim>\<open>rails.go\<close>: two JSON documents with the fields
    a newer version may have added, every mutation and the lock-free snapshot of both; \<open>Rails_Lemmas\<close>
    has one datatype of all mutations and what holds along every sequence of them. \<open>Handoff_Edges\<close> is
    \<^verbatim>\<open>edges.go\<close>. \<open>Handoff_Engine\<close> is \<^verbatim>\<open>internal/handoffengine/engine.go\<close>, one pass over all sessions;
    \<open>Engine_Pass\<close> takes it apart through the interface \<open>keyed_filter\<close> that the edge tracker implements, and
    \<open>Engine_Lemmas\<close> follows the evidence a pass reads and the rows it writes. \<open>Go_Utf8\<close>,
    \<open>Handoff_Report\<close> and \<open>Event_Log\<close> are \<^verbatim>\<open>report.go\<close> and \<^verbatim>\<open>events.go\<close>: labels, report lines, digests,
    and the day files rows are appended to. The composition is stated in \<open>Engine_Props\<close> (engine, decision
    core, edges, reports) and \<open>Event_Log_Props\<close> (engine and log file).
  \<^item> Account usage. \<open>Usage_Records\<close> is \<^verbatim>\<open>quota/rate_limits.go\<close>: one line of a rollout, with the rules by
    which \<^verbatim>\<open>encoding/json\<close> fills a struct. \<open>Rate_Index\<close> is \<^verbatim>\<open>internal/rateindex/rateindex.go\<close>: the walk
    over an account's store newest first, the slate of candidates, the tail scans with their memo and the
    verdict, and its consumers in \<^verbatim>\<open>src/daemon\<close>. \<open>Rate_Walk\<close> shows what a walk accounts for (among it that
    the order of the day directories' names is the order of their days), \<open>Rate_Lemmas\<close> follows the memo
    through every history of refreshes and the loop over the slate, \<open>Rate_Props\<close> has the properties.
  \<^item> The event backlog. \<open>Event_Queue\<close> is \<^verbatim>\<open>eventqueue.go\<close> and \<^verbatim>\<open>eventqueue_limit.go\<close>: the in-memory record
    and the bytes of the three files, each operation with the system calls that fail in it.
    \<open>Queue_Lemmas\<close> describes an operation on the list of undelivered lines, \<open>Queue_Steps\<close> adds crashes
    at every point and restarts, \<open>Queue_Props\<close> has the properties. Two faults break the agreement of memory
    and files and are hypotheses of the properties (\<open>okFaults\<close>): a torn record that neither the truncate nor
    the boundary newline repairs, and a cursor a load cannot read; \<open>Queue_Props\<close> shows what each does.
  \<^item> The terminal stream. \<open>Frame_Codec\<close> is \<^verbatim>\<open>src/agentproto/frame.go\<close> on 8-bit words. \<open>Pty_Broker\<close> is
    \<^verbatim>\<open>ptybroker*.go\<close> and \<^verbatim>\<open>terminal/modes.go\<close>, one definition per critical section, and \<open>Pty_Steps\<close>
    their interleavings as an inductive step relation. \<open>Pty_Ring\<close> and \<open>Pty_Recovery\<close> are its invariants;
    \<open>Pty_Stream\<close> is the abstract stream the broker refines, \<open>Pty_Props\<close> the properties.
  \<^item> Schedules. \<open>Cron_Expr\<close> is \<^verbatim>\<open>task/cron.go\<close>, \<open>Schedule_Picker\<close> is \<^verbatim>\<open>schedule/schedule.go\<close>;
    \<open>Cron_Lemmas\<close>, \<open>Schedule_Lemmas\<close> and \<open>Cron_Props\<close> their lemmas and properties.
  \<^item> Tasks. \<open>Task_Record\<close> is one row of \<^verbatim>\<open>tasks.json\<close>: the record of \<^verbatim>\<open>task/task.go\<close> with its trigger
    contract, the bounded audit trail, patches and their diff, and the order of runs. \<open>Task_Store\<close> has every operation
    that rewrites the file (\<^verbatim>\<open>store.go\<close>, \<^verbatim>\<open>task.go\<close>, \<^verbatim>\<open>update.go\<close>, \<^verbatim>\<open>run_status.go\<close>,
    \<^verbatim>\<open>watch_drops.go\<close>, \<^verbatim>\<open>watch_recovery.go\<close>, \<^verbatim>\<open>audit.go\<close>, \<^verbatim>\<open>lifecycle_scope.go\<close>), \<open>Task_Health\<close> the
    verdict whether a task fires on its schedule and the pairing with what the daemon has armed
    (\<^verbatim>\<open>overdue.go\<close>, \<^verbatim>\<open>far_out.go\<close>, \<^verbatim>\<open>arming.go\<close>). \<open>Task_Lemmas\<close> describes the trail and the patches,
    \<open>Store_Lemmas\<close> shows that every operation leaves the file or changes one row of it, \<open>Store_Runs\<close> has one
    datatype of all operations and what holds along their sequences, \<open>Health_Lemmas\<close> counts the occurrences
    of a schedule, \<open>Task_Props\<close> has the properties.
  \<^item> The layout of the terminal UI. \<open>Layout_Grid\<close> is \<^verbatim>\<open>ui/layout/rect.go\<close>, \<^verbatim>\<open>ring.go\<close> and \<^verbatim>\<open>grid.go\<close>.
    \<open>Layout_Lemmas\<close> counts the rectangles that hold a cell through every cut of the screen, \<open>Ring_Lemmas\<close>
    shows where a step of the focus ring lands, \<open>Layout_Props\<close> has the properties.

  \<^bold>\<open>Interfaces.\<close> Every locale is interpreted on the definitions of the model: \<open>guarded_ops\<close> (an invariant
  under what the callers check first) on the attention requests of a session and on the queue with its faults
  and crashes; \<open>invariant_ops\<close>, its unguarded case, on the handoff mutations, the engine's ticks, the
  refreshes of the usage index, the task store and the focus ring;
  \<open>monotone_ops\<close> on the limit rows and the watermarks; \<open>exact_codec\<close> on the frames; \<open>durable_doc\<close> (the preserving rewrite of
  a document) on the state and the rails file; \<open>keyed_filter\<close> on the edge tracker; \<open>step_invariant\<close>
  and \<open>forward_simulation\<close> on the PTY broker and its stream.

  \<^bold>\<open>Bounds and loops.\<close> The state epoch of a session is a 64-bit word. Byte positions, subscriber ids and
  resize generations of the broker are natural numbers: they count up from zero and cannot reach \<open>2 ^ 64\<close>.
  The enumerating loop of the cron expansion wraps around at 64 bits and is partial, so that its
  termination is a theorem. Every other recursion is structural or has a measure; no definition takes
  fuel. Sizes and counts of the
  terminal UI are integers. The caps of the code (256 KiB of ring, the backlog's records and bytes, the quarantine
  markers, the digest's rows and bytes) are the code's constants.

  \<^bold>\<open>What stands outside.\<close> These are arguments of the definitions that use them: the JSON codec of a queue
  record and of an event row, the syntax of JSON, numbers and instants in a rollout (what is relied on: an encoding holds no newline, and what was encoded decodes
  to itself), the cron parser of \<^verbatim>\<open>robfig/cron\<close> and the \<^verbatim>\<open>Next\<close> of its schedules (the first occurrence after an
  instant, or the zero time when none lies within its horizon), the case table of Unicode, the digest of
  \<^verbatim>\<open>tasks.json\<close> and what git and the file system answer about a project path, how instants are printed and the calendar of date
  stamps, the ANSI stripping of \<^verbatim>\<open>xansi\<close>, the pane analysis for a composer draft, and the engine's injected
  reads, each a function of the log of the reads made before it, so that a second read may answer
  differently. System calls fail when the fault argument of an operation says so.

  \<^bold>\<open>Not modelled.\<close> Backends, worktrees and tmux, HTTP and WebSocket routing, the commands and the
  drawing of the terminal UI are input and output around other programs. The daemon's manager threads the modelled parts
  through goroutines and timers. The task runner starts sessions and types into terminals. Configuration keys other than the account-handoff
  table and proposals are plain storage. Logging and warnings carry no state.
\<close>

end
